(* ===== verification/Prelude.thy ===== *)
theory Prelude
  imports Main "HOL-Library.AList" "HOL-Library.Char_ord" "HOL-Library.List_Lexorder"
    "HOL-Library.Product_Lexorder"
begin

text \<open>
  The prelude of the development: the result type every fallible operation returns, Python's
  insertion-ordered dictionaries as association lists, sorted tuples of distinct values, and the
  generic lemmas on them that the component theories share.

  A Python \<open>str\<close> is modelled by its UTF-8 encoding, a list of \<open>char\<close> values (bytes).
  UTF-8 preserves the code point order that \<open>sorted\<close> uses, and \<open>==\<close>, \<open>startswith\<close>,
  \<open>endswith\<close> and \<open>in\<close> agree with their byte counterparts.
\<close>

named_theorems result_simps \<open>unfolding of the result combinators\<close>
named_theorems dict_simps \<open>lookup and key facts of dictionaries\<close>

section \<open>Results: an error or a value\<close>

definition bind_result :: "'e + 'a \<Rightarrow> ('a \<Rightarrow> 'e + 'b) \<Rightarrow> 'e + 'b" where
  "bind_result r f = (case r of Inl e \<Rightarrow> Inl e | Inr x \<Rightarrow> f x)"

definition guard_result :: "bool \<Rightarrow> 'e \<Rightarrow> 'e + unit" where
  "guard_result b e = (if b then Inr () else Inl e)"

fun map_result :: "('a \<Rightarrow> 'e + 'b) \<Rightarrow> 'a list \<Rightarrow> 'e + 'b list" where
  "map_result f [] = Inr []"
| "map_result f (x # xs) =
     bind_result (f x) (\<lambda>y. bind_result (map_result f xs) (\<lambda>ys. Inr (y # ys)))"

fun fold_result :: "('s \<Rightarrow> 'a \<Rightarrow> 'e + 's) \<Rightarrow> 's \<Rightarrow> 'a list \<Rightarrow> 'e + 's" where
  "fold_result f s [] = Inr s"
| "fold_result f s (x # xs) = bind_result (f s x) (\<lambda>s'. fold_result f s' xs)"

fun is_ok :: "'e + 'a \<Rightarrow> bool" where
  "is_ok (Inl _) = False"
| "is_ok (Inr _) = True"

lemma bind_result_Inl [simp]: "bind_result (Inl e) f = Inl e"
  by (simp add: bind_result_def)

lemma bind_result_Inr [simp]: "bind_result (Inr x) f = f x"
  by (simp add: bind_result_def)

lemma bind_result_eq_Inr [result_simps]:
  "bind_result r f = Inr y \<longleftrightarrow> (\<exists>x. r = Inr x \<and> f x = Inr y)"
  by (cases r) simp_all

lemma guard_result_eq_Inr [result_simps]: "guard_result b e = Inr u \<longleftrightarrow> b"
  by (simp add: guard_result_def)

lemma guard_result_True [simp]: "guard_result True e = Inr ()"
  by (simp add: guard_result_def)

lemma guard_result_False [simp]: "guard_result False e = Inl e"
  by (simp add: guard_result_def)

lemma is_ok_iff: "is_ok r \<longleftrightarrow> (\<exists>x. r = Inr x)"
  by (cases r) simp_all

text \<open>A result that is a value with a given property: the executable form of \<open>\<exists>x. r = Inr x \<and> P x\<close>.\<close>

definition returns :: "'e + 'a \<Rightarrow> ('a \<Rightarrow> bool) \<Rightarrow> bool" where
  "returns r P = (case r of Inl _ \<Rightarrow> False | Inr x \<Rightarrow> P x)"

lemma returns_iff: "returns r P \<longleftrightarrow> (\<exists>x. r = Inr x \<and> P x)"
  by (cases r) (simp_all add: returns_def)

lemma map_result_Inr_length: "map_result f xs = Inr ys \<Longrightarrow> length ys = length xs"
  by (induction xs arbitrary: ys) (auto simp: result_simps)

lemma map_result_Inr_nth:
  "map_result f xs = Inr ys \<Longrightarrow> i < length xs \<Longrightarrow> f (xs ! i) = Inr (ys ! i)"
proof (induction xs arbitrary: ys i)
  case Nil
  then show ?case by simp
next
  case (Cons x xs)
  then show ?case by (cases i) (auto simp: result_simps)
qed

lemma map_result_total: "(\<And>x. x \<in> set xs \<Longrightarrow> f x = Inr (g x)) \<Longrightarrow> map_result f xs = Inr (map g xs)"
  by (induction xs) simp_all

lemma map_result_image:
  "map_result f xs = Inr ys \<Longrightarrow> (\<And>x y. f x = Inr y \<Longrightarrow> k y = x) \<Longrightarrow> map k ys = xs"
  by (induction xs arbitrary: ys) (auto simp: result_simps)

lemma map_result_fails:
  "x \<in> set xs \<Longrightarrow> \<not> is_ok (f x) \<Longrightarrow> \<not> is_ok (map_result f xs)"
proof (induction xs)
  case Nil
  then show ?case by simp
next
  case (Cons a xs)
  then show ?case by (cases "f a"; cases "map_result f xs") auto
qed

lemma map_result_set:
  "map_result f xs = Inr ys \<Longrightarrow> y \<in> set ys \<Longrightarrow> \<exists>x \<in> set xs. f x = Inr y"
  by (induction xs arbitrary: ys) (auto simp: result_simps)

section \<open>Dictionaries in insertion order\<close>

type_synonym ('k, 'v) dict = "('k \<times> 'v) list"

abbreviation dict_get :: "('k, 'v) dict \<Rightarrow> 'k \<Rightarrow> 'v option" where
  "dict_get d k \<equiv> map_of d k"

abbreviation dict_keys :: "('k, 'v) dict \<Rightarrow> 'k list" where
  "dict_keys d \<equiv> map fst d"

abbreviation dict_set :: "'k \<Rightarrow> 'v \<Rightarrow> ('k, 'v) dict \<Rightarrow> ('k, 'v) dict" where
  "dict_set k v d \<equiv> AList.update k v d"

definition dict_has :: "('k, 'v) dict \<Rightarrow> 'k \<Rightarrow> bool" where
  "dict_has d k = (map_of d k \<noteq> None)"

definition dict_setdefault :: "'k \<Rightarrow> 'v \<Rightarrow> ('k, 'v) dict \<Rightarrow> ('k, 'v) dict" where
  "dict_setdefault k v d = (case map_of d k of None \<Rightarrow> d @ [(k, v)] | Some _ \<Rightarrow> d)"

text \<open>\<open>index.setdefault(k, []).append(v)\<close>, the way every index of the program is built.\<close>

definition dict_append :: "'k \<Rightarrow> 'v \<Rightarrow> ('k, 'v list) dict \<Rightarrow> ('k, 'v list) dict" where
  "dict_append k v d = AList.update k ((case map_of d k of None \<Rightarrow> [] | Some vs \<Rightarrow> vs) @ [v]) d"

definition dict_items :: "('k, 'v list) dict \<Rightarrow> 'k \<Rightarrow> 'v list" where
  "dict_items d k = (case map_of d k of None \<Rightarrow> [] | Some vs \<Rightarrow> vs)"

lemma dict_has_iff [dict_simps]: "dict_has d k \<longleftrightarrow> k \<in> fst ` set d"
  by (auto simp: dict_has_def map_of_eq_None_iff)

lemma dict_setdefault_get [dict_simps]:
  "map_of (dict_setdefault k v d) x =
     (case map_of d x of Some y \<Rightarrow> Some y | None \<Rightarrow> if x = k then Some v else None)"
  by (auto simp: dict_setdefault_def map_add_def split: option.splits)

lemma dict_setdefault_keys [dict_simps]:
  "fst ` set (dict_setdefault k v d) = insert k (fst ` set d)"
  by (auto simp: dict_setdefault_def image_iff map_of_eq_None_iff split: option.splits
      dest: map_of_SomeD) (force dest: map_of_SomeD)

lemma dict_setdefault_distinct:
  "distinct (map fst d) \<Longrightarrow> distinct (map fst (dict_setdefault k v d))"
  by (auto simp: dict_setdefault_def map_of_eq_None_iff split: option.splits)

lemma dict_setdefault_subset: "set d \<subseteq> set (dict_setdefault k v d)"
  by (auto simp: dict_setdefault_def split: option.splits)

lemma dict_setdefault_member:
  "x \<in> set (dict_setdefault k v d) \<Longrightarrow> x \<in> set d \<or> x = (k, v)"
  by (auto simp: dict_setdefault_def split: option.splits if_splits)

lemma dict_setdefault_present: "(k, v) \<in> set d \<Longrightarrow> dict_setdefault k w d = d"
  by (auto simp: dict_setdefault_def dest: weak_map_of_SomeI split: option.splits)

lemma dict_append_items [dict_simps]:
  "dict_items (dict_append k v d) x = (if x = k then dict_items d x @ [v] else dict_items d x)"
  by (auto simp: dict_items_def dict_append_def update_conv' split: option.splits)

lemma dict_set_distinct: "distinct (map fst d) \<Longrightarrow> distinct (map fst (dict_set k v d))"
  by (rule distinct_update)

lemma dict_set_length_new: "k \<notin> fst ` set d \<Longrightarrow> dict_set k v d = d @ [(k, v)]"
  by (induction d) auto

lemma dict_set_keys [dict_simps]: "fst ` set (dict_set k v d) = insert k (fst ` set d)"
  by (induction d) auto

lemma dict_set_members: "set (dict_set k v d) \<subseteq> insert (k, v) (set d)"
  by (induction d) auto

lemma map_of_get_mem: "map_of d k = Some v \<Longrightarrow> (k, v) \<in> set d"
  by (rule map_of_SomeD)

text \<open>Filling a dictionary by \<open>setdefault\<close> keeps the first value of each key.\<close>

definition dict_fill :: "('k \<times> 'v) list \<Rightarrow> ('k, 'v) dict \<Rightarrow> ('k, 'v) dict" where
  "dict_fill ps d = fold (\<lambda>p d. dict_setdefault (fst p) (snd p) d) ps d"

lemma dict_fill_get [dict_simps]:
  "map_of (dict_fill ps d) k = (case map_of d k of Some v \<Rightarrow> Some v | None \<Rightarrow> map_of ps k)"
proof (induction ps arbitrary: d)
  case Nil
  then show ?case by (simp add: dict_fill_def split: option.splits)
next
  case (Cons p ps)
  have "dict_fill (p # ps) d = dict_fill ps (dict_setdefault (fst p) (snd p) d)"
    by (simp add: dict_fill_def)
  with Cons show ?case by (auto simp: dict_setdefault_get split: option.splits)
qed

lemma dict_fill_distinct: "distinct (dict_keys d) \<Longrightarrow> distinct (dict_keys (dict_fill ps d))"
  by (induction ps arbitrary: d) (simp_all add: dict_fill_def dict_setdefault_distinct)

lemma dict_fill_new:
  "distinct (map fst ps) \<Longrightarrow> fst ` set ps \<inter> fst ` set d = {} \<Longrightarrow> dict_fill ps d = d @ ps"
proof (induction ps arbitrary: d)
  case (Cons p ps)
  have "dict_setdefault (fst p) (snd p) d = d @ [p]"
    using Cons.prems(2) by (auto simp: dict_setdefault_def map_of_eq_None_iff split: option.splits)
  with Cons show ?case by (auto simp: dict_fill_def)
qed (simp add: dict_fill_def)

lemma dict_append_fold_items:
  "dict_items (fold (\<lambda>x d. dict_append (f x) (g x) d) xs d) k
     = dict_items d k @ map g (filter (\<lambda>x. f x = k) xs)"
  by (induction xs arbitrary: d) (auto simp: dict_append_items)

lemma dict_items_map:
  "h [] = [] \<Longrightarrow> dict_items (map (\<lambda>p. (fst p, h (snd p))) d) k = h (dict_items d k)"
proof (induction d)
  case (Cons p d)
  then show ?case by (cases p) (simp add: dict_items_def)
qed (simp add: dict_items_def)

lemma map_of_constant: "map_of (map (\<lambda>x. (x, c)) xs) k = (if k \<in> set xs then Some c else None)"
  by (induction xs) auto

section \<open>Sorted tuples of distinct values\<close>

text \<open>\<open>tuple(sorted(set(xs)))\<close> and \<open>sorted(xs, key=f)\<close>, the two ways the program orders.\<close>

definition sorted_set :: "'a::linorder list \<Rightarrow> 'a list" where
  "sorted_set xs = sort (remdups xs)"

lemma set_sorted_set [simp]: "set (sorted_set xs) = set xs"
  by (simp add: sorted_set_def)

lemma distinct_sorted_set [simp]: "distinct (sorted_set xs)"
  by (simp add: sorted_set_def)

lemma sorted_sorted_set [simp]: "sorted (sorted_set xs)"
  by (simp add: sorted_set_def)

lemma sorted_set_eqI: "set xs = set ys \<Longrightarrow> sorted_set xs = sorted_set ys"
  by (rule sorted_distinct_set_unique) simp_all

lemma length_sorted_set: "length (sorted_set xs) = card (set xs)"
  by (metis distinct_card distinct_sorted_set set_sorted_set)

text \<open>The values of a dictionary listed by sorted key: \<open>tuple(d[key] for key in sorted(d))\<close>.\<close>

definition values_by_key :: "('k::linorder, 'v) dict \<Rightarrow> 'v list" where
  "values_by_key d = map (\<lambda>k. the (map_of d k)) (sort (map fst d))"

lemma length_values_by_key [simp]: "length (values_by_key d) = length d"
  by (simp add: values_by_key_def)

lemma set_values_by_key:
  assumes "distinct (map fst d)"
  shows "set (values_by_key d) = snd ` set d"
proof -
  have "the (map_of d (fst p)) = snd p" if "p \<in> set d" for p
    using assms that by (cases p) simp
  then show ?thesis
    by (simp add: values_by_key_def image_image)
qed

lemma values_by_key_keys:
  assumes "distinct (map fst d)" and "\<And>k v. (k, v) \<in> set d \<Longrightarrow> key v = k"
  shows "map key (values_by_key d) = sort (map fst d)"
proof -
  have "key (the (map_of d k)) = k" if "k \<in> set (map fst d)" for k
    using assms that by (auto simp: map_of_eq_Some_iff)
  then show ?thesis
    by (simp add: values_by_key_def comp_def) (rule map_idI, auto)
qed

end
