(* ===== verification/Values.thy ===== *)
theory Values
  imports Prelude "HOL-Library.Multiset"
begin

text \<open>
  Text and dynamic values. The three regular expressions of \<open>query/model.py\<close> are written out as
  the matches \<open>re.match\<close> performs: \<open>$\<close> also matches before one final newline. Values of unknown
  type (\<open>Any\<close>) are the datatype \<open>pyval\<close>; \<open>dumps\<close> is \<open>json.dumps\<close> with the compact separators,
  \<open>sort_keys=True\<close> and \<open>ensure_ascii=False\<close>, encoded as UTF-8.
\<close>

section \<open>Regular expressions\<close>

definition newline :: char where
  "newline = CHR 0x0A"

definition in_range :: "char \<Rightarrow> char \<Rightarrow> char \<Rightarrow> bool" where
  "in_range lo hi c = (lo \<le> c \<and> c \<le> hi)"

definition is_lower :: "char \<Rightarrow> bool" where
  "is_lower = in_range CHR ''a'' CHR ''z''"

definition is_digit :: "char \<Rightarrow> bool" where
  "is_digit = in_range CHR ''0'' CHR ''9''"

definition is_hex :: "char \<Rightarrow> bool" where
  "is_hex c = (is_digit c \<or> in_range CHR ''a'' CHR ''f'' c)"

definition is_alpha :: "char \<Rightarrow> bool" where
  "is_alpha c = (is_lower c \<or> in_range CHR ''A'' CHR ''Z'' c)"

text \<open>What \<open>$\<close> accepts without \<open>re.MULTILINE\<close>: the end, or a newline that ends the text.\<close>

definition at_dollar :: "string \<Rightarrow> bool" where
  "at_dollar rest = (rest = [] \<or> rest = [newline])"

definition SHA256_RE :: "string \<Rightarrow> bool" where
  "SHA256_RE s = (64 \<le> length s \<and> list_all is_hex (take 64 s) \<and> at_dollar (drop 64 s))"

definition identifier_char :: "char \<Rightarrow> bool" where
  "identifier_char c = (is_lower c \<or> is_digit c \<or> c = CHR ''-'')"

definition IDENTIFIER_RE :: "string \<Rightarrow> bool" where
  "IDENTIFIER_RE s = (case s of [] \<Rightarrow> False
     | c # t \<Rightarrow> is_lower c \<and> length (takeWhile identifier_char t) \<le> 62
         \<and> at_dollar (dropWhile identifier_char t))"

fun split_on :: "char \<Rightarrow> string \<Rightarrow> string list" where
  "split_on sep [] = [[]]"
| "split_on sep (c # s) =
     (if c = sep then [] # split_on sep s
      else (case split_on sep s of [] \<Rightarrow> [[c]] | seg # segs \<Rightarrow> (c # seg) # segs))"

fun drive_prefix :: "string \<Rightarrow> bool" where
  "drive_prefix (a # b # _) = (is_alpha a \<and> b = CHR '':'')"
| "drive_prefix _ = False"

definition PORTABLE_RELATIVE_RE :: "string \<Rightarrow> bool" where
  "PORTABLE_RELATIVE_RE s =
     (let line = takeWhile (\<lambda>c. c \<noteq> newline) s in
      line \<noteq> [] \<and> at_dollar (dropWhile (\<lambda>c. c \<noteq> newline) s)
      \<and> hd s \<noteq> CHR ''/'' \<and> CHR 0x5C \<notin> set line
      \<and> ''..'' \<notin> set (split_on (CHR ''/'') line) \<and> \<not> drive_prefix s)"

section \<open>Dynamic values\<close>

text \<open>A float is kept as its \<open>repr\<close>; canonical documents hold none.\<close>

datatype pyval =
    PNone
  | PBool bool
  | PInt int
  | PFloat string
  | PStr string
  | PList "pyval list"
  | PDict "(string \<times> pyval) list"

fun is_mapping :: "pyval \<Rightarrow> bool" where
  "is_mapping (PDict _) = True"
| "is_mapping _ = False"

fun mapping_items :: "pyval \<Rightarrow> (string, pyval) dict" where
  "mapping_items (PDict d) = d"
| "mapping_items _ = []"

fun hashable :: "pyval \<Rightarrow> bool" where
  "hashable (PList _) = False"
| "hashable (PDict _) = False"
| "hashable _ = True"

text \<open>Truth of a value in a condition.\<close>

fun truthy :: "pyval \<Rightarrow> bool" where
  "truthy PNone = False"
| "truthy (PBool b) = b"
| "truthy (PInt i) = (i \<noteq> 0)"
| "truthy (PFloat r) = (r \<noteq> ''0.0'' \<and> r \<noteq> ''-0.0'')"
| "truthy (PStr s) = (s \<noteq> [])"
| "truthy (PList xs) = (xs \<noteq> [])"
| "truthy (PDict d) = (d \<noteq> [])"

text \<open>
  \<open>==\<close>: \<open>True == 1\<close>, and dictionaries compare by key whatever their order. Floats are compared by
  \<open>repr\<close>, which is \<open>==\<close> between two floats other than \<open>nan\<close> and the two zeros.
\<close>

lemma pyval_dict_size: "p \<in> set d \<Longrightarrow> size (snd p) < size (PDict d)"
  by (induction d) auto

function py_eq :: "pyval \<Rightarrow> pyval \<Rightarrow> bool" where
  "py_eq v w = (case (v, w) of
       (PNone, PNone) \<Rightarrow> True
     | (PBool a, PBool b) \<Rightarrow> a = b
     | (PBool a, PInt i) \<Rightarrow> i = (if a then 1 else 0)
     | (PInt i, PBool b) \<Rightarrow> i = (if b then 1 else 0)
     | (PInt i, PInt j) \<Rightarrow> i = j
     | (PFloat r, PFloat q) \<Rightarrow> r = q
     | (PStr s, PStr t) \<Rightarrow> s = t
     | (PList xs, PList ys) \<Rightarrow>
         length xs = length ys \<and> list_all (\<lambda>p. py_eq (fst p) (snd p)) (zip xs ys)
     | (PDict d, PDict e) \<Rightarrow>
         length d = length e
         \<and> list_all (\<lambda>p. case map_of e (fst p) of None \<Rightarrow> False | Some u \<Rightarrow> py_eq (snd p) u) d
     | _ \<Rightarrow> False)"
  by pat_completeness auto
termination
proof (relation "measure (\<lambda>p. size (fst p))", goal_cases)
  case 1
  show ?case by simp
next
  case (2 v w _ _ x6 y6 p)
  then have "fst p \<in> set x6"
    by (cases p) (auto dest: set_zip_leftD)
  then have "size (fst p) < Suc (size_list size x6)"
    by (induction x6) auto
  with 2 show ?case by auto
next
  case (3 v w _ _ x7 y7 p u)
  then have "p \<in> set x7" by simp
  then show ?case using 3 pyval_dict_size [of p x7] by auto
qed

declare py_eq.simps [simp del]

section \<open>JSON text\<close>

fun nat_digits :: "nat \<Rightarrow> string" where
  "nat_digits n =
     (if n < 10 then [char_of (48 + n)] else nat_digits (n div 10) @ [char_of (48 + n mod 10)])"

declare nat_digits.simps [simp del]

definition int_repr :: "int \<Rightarrow> string" where
  "int_repr i = (if i < 0 then CHR ''-'' # nat_digits (nat (- i)) else nat_digits (nat i))"

definition hex_digit :: "nat \<Rightarrow> char" where
  "hex_digit n = (if n < 10 then char_of (48 + n) else char_of (87 + n))"

definition json_char :: "char \<Rightarrow> string" where
  "json_char c =
     (if c = CHR 0x22 then [CHR 0x5C, CHR 0x22]
      else if c = CHR 0x5C then [CHR 0x5C, CHR 0x5C]
      else if c = newline then [CHR 0x5C, CHR ''n'']
      else if c = CHR 0x0D then [CHR 0x5C, CHR ''r'']
      else if c = CHR 0x09 then [CHR 0x5C, CHR ''t'']
      else if c = CHR 0x0C then [CHR 0x5C, CHR ''f'']
      else if c = CHR 0x08 then [CHR 0x5C, CHR ''b'']
      else if (of_char c :: nat) < 32 then
        [CHR 0x5C, CHR ''u'', CHR ''0'', CHR ''0'',
         hex_digit (of_char c div 16), hex_digit (of_char c mod 16)]
      else [c])"

definition json_string :: "string \<Rightarrow> string" where
  "json_string s = CHR 0x22 # concat (map json_char s) @ [CHR 0x22]"

fun join_with :: "string \<Rightarrow> string list \<Rightarrow> string" where
  "join_with sep [] = []"
| "join_with sep [s] = s"
| "join_with sep (s # t # rest) = s @ sep @ join_with sep (t # rest)"

fun dumps :: "pyval \<Rightarrow> string" where
  "dumps PNone = ''null''"
| "dumps (PBool b) = (if b then ''true'' else ''false'')"
| "dumps (PInt i) = int_repr i"
| "dumps (PFloat r) = r"
| "dumps (PStr s) = json_string s"
| "dumps (PList xs) = ''['' @ join_with '','' (map dumps xs) @ '']''"
| "dumps (PDict d) =
     ''{'' @ join_with '','' (map (\<lambda>p. json_string (fst p) @ '':'' @ snd p)
        (sort_key fst (map (\<lambda>p. (fst p, dumps (snd p))) d))) @ ''}''"

section \<open>Facts about the matches\<close>

lemma SHA256_RE_length: "SHA256_RE s \<Longrightarrow> length s = 64 \<or> length s = 65"
  by (auto simp: SHA256_RE_def at_dollar_def dest: arg_cong [where f = length])

lemma split_on_not_Nil [simp]: "split_on sep s \<noteq> []"
  by (induction s) (auto split: list.splits)

lemma join_with_length:
  "length (join_with sep ss) = sum_list (map length ss) + length sep * (length ss - 1)"
  by (induction sep ss rule: join_with.induct) auto

text \<open>The length of an encoding, whatever the order of its keys.\<close>

definition item_size :: "pyval \<Rightarrow> nat" where
  "item_size v = length (dumps v)"

definition entry_size :: "string \<times> pyval \<Rightarrow> nat" where
  "entry_size p = length (json_string (fst p)) + 1 + item_size (snd p)"

lemma sum_list_sort_key: "sum_list (map f (sort_key k xs)) = sum_list (map (f :: _ \<Rightarrow> nat) xs)"
  by (metis mset_map mset_sort sum_mset_sum_list)

lemma item_size_PList: "item_size (PList xs) = 2 + sum_list (map item_size xs) + (length xs - 1)"
  by (simp add: item_size_def [abs_def] join_with_length comp_def)

lemma item_size_PDict: "item_size (PDict d) = 2 + sum_list (map entry_size d) + (length d - 1)"
  by (simp add: item_size_def [abs_def] entry_size_def [abs_def] join_with_length comp_def sum_list_sort_key)

text \<open>A text with no character to escape.\<close>

definition plain :: "string \<Rightarrow> bool" where
  "plain s = list_all (\<lambda>c. json_char c = [c]) s"

lemma length_json_string: "plain s \<Longrightarrow> length (json_string s) = length s + 2"
proof -
  have "plain s \<Longrightarrow> concat (map json_char s) = s" by (induction s) (simp_all add: plain_def)
  then show "plain s \<Longrightarrow> ?thesis" by (simp add: json_string_def)
qed

lemma item_size_PStr: "plain s \<Longrightarrow> item_size (PStr s) = length s + 2"
  by (simp add: item_size_def length_json_string)

lemma hex_plain:
  assumes "is_hex c"
  shows "json_char c = [c]"
proof -
  have "\<not> is_hex CHR 0x22" "\<not> is_hex CHR 0x5C" "\<not> is_hex newline" "\<not> is_hex CHR 0x0D"
    "\<not> is_hex CHR 0x09" "\<not> is_hex CHR 0x0C" "\<not> is_hex CHR 0x08" by code_simp+
  with assms have "c \<noteq> CHR 0x22" "c \<noteq> CHR 0x5C" "c \<noteq> newline" "c \<noteq> CHR 0x0D" "c \<noteq> CHR 0x09"
    "c \<noteq> CHR 0x0C" "c \<noteq> CHR 0x08" by metis+
  moreover have "32 \<le> (of_char c :: nat)"
    using assms by (auto simp: is_hex_def is_digit_def in_range_def less_eq_char_def)
  ultimately show ?thesis by (simp add: json_char_def)
qed

end
