(* ===== verification/Facts.thy ===== *)
theory Facts
  imports Values
begin

text \<open>
  The graph facts of \<open>query/model.py\<close>: the canonical allowlists and limits, the validators every
  query input passes, and the two documents of a pinned generation, nodes and edges, with their
  strict parsers. An exception is an \<open>Inl\<close> of \<open>query_error\<close>; its message is left out.
  \<open>Diverges\<close> stands for a loop that has not ended, and
  \<open>OutsideModel\<close> marks the inputs this model says nothing about (see \<open>dict_of_item\<close>).
\<close>

datatype query_error =
    QueryModelError
  | NodeInvalid
  | EdgeInvalid
  | LimitRejected
  | TargetNotFound
  | TargetAmbiguous string "string list"
  | BudgetInvalid
  | BudgetExceeded
  | CursorError string
  | EnvelopeInvalid
  | PyTypeError
  | PyValueError
  | Diverges
  | OutsideModel

type_synonym 'a result = "query_error + 'a"

section \<open>Allowlists and limits\<close>

definition NODE_KINDS :: "string list" where
  "NODE_KINDS = [''Solution'', ''Project'', ''File'', ''Namespace'', ''Class'', ''Interface'',
     ''Function'', ''Method'', ''Property'', ''ApiEndpoint'', ''DataStore'', ''Table'',
     ''StoredProcedure'', ''QueueTopic'', ''ExternalService'', ''TestCase'', ''UnresolvedTarget'']"

definition EDGE_KINDS :: "string list" where
  "EDGE_KINDS = [''CONTAINS'', ''IMPORTS'', ''REFERENCES'', ''CALLS'', ''INHERITS'', ''IMPLEMENTS'',
     ''EXPOSES'', ''CALLS_ENDPOINT'', ''READS'', ''WRITES'', ''EXECUTES_PROCEDURE'', ''DEPENDS_ON'',
     ''PUBLISHES'', ''SUBSCRIBES'', ''TESTS'']"

definition RESOLUTIONS :: "string list" where
  "RESOLUTIONS = [''exact_static'', ''inferred_static'', ''annotated'', ''unresolved'']"

definition STATIC_RESOLUTIONS :: "string list" where
  "STATIC_RESOLUTIONS = [''exact_static'', ''annotated'']"

definition IDENTITY_QUALITIES :: "string list" where
  "IDENTITY_QUALITIES = [''semantic_key'', ''syntax_key'', ''annotation_key'']"

definition DIRECTIONS :: "string list" where
  "DIRECTIONS = [''incoming'', ''outgoing'', ''both'']"

definition PROJECTIONS :: "string list" where
  "PROJECTIONS = [''identity'', ''relations'', ''source_locations'', ''coverage'']"

definition UNRESOLVED :: string where
  "UNRESOLVED = ''unresolved''"

definition MAX_DEPTH :: int where "MAX_DEPTH = 8"
definition MAX_NODES :: int where "MAX_NODES = 500"
definition MIN_BYTES :: int where "MIN_BYTES = 512"
definition MAX_BYTES :: int where "MAX_BYTES = 32768"
definition MAX_EDGES :: int where "MAX_EDGES = 1000"
definition DEFAULT_DEPTH :: int where "DEFAULT_DEPTH = 2"
definition DEFAULT_MAX_NODES :: int where "DEFAULT_MAX_NODES = 50"
definition DEFAULT_MAX_EDGES :: int where "DEFAULT_MAX_EDGES = 100"
definition DEFAULT_MAX_BYTES :: int where "DEFAULT_MAX_BYTES = 8192"

section \<open>Validators\<close>

definition text_value :: "pyval \<Rightarrow> query_error \<Rightarrow> string result" where
  "text_value v err = (case v of PStr s \<Rightarrow> if s = [] then Inl err else Inr s | _ \<Rightarrow> Inl err)"

definition sha256_text :: "pyval \<Rightarrow> query_error \<Rightarrow> string result" where
  "sha256_text v err = (case v of PStr s \<Rightarrow> if SHA256_RE s then Inr s else Inl err | _ \<Rightarrow> Inl err)"

definition identifier_text :: "pyval \<Rightarrow> query_error \<Rightarrow> string result" where
  "identifier_text v err =
     (case v of PStr s \<Rightarrow> if IDENTIFIER_RE s then Inr s else Inl err | _ \<Rightarrow> Inl err)"

definition mapping_value :: "pyval \<Rightarrow> query_error \<Rightarrow> (string, pyval) dict result" where
  "mapping_value v err = (case v of PDict d \<Rightarrow> Inr d | _ \<Rightarrow> Inl err)"

definition has_only :: "(string, pyval) dict \<Rightarrow> string list \<Rightarrow> unit result" where
  "has_only document allowed =
     guard_result (list_all (\<lambda>k. k \<in> set allowed) (dict_keys document)) QueryModelError"

definition bounded_int :: "pyval \<Rightarrow> int \<Rightarrow> int \<Rightarrow> int option \<Rightarrow> int result" where
  "bounded_int v low high dflt =
     (case v of
        PNone \<Rightarrow> (case dflt of None \<Rightarrow> Inl LimitRejected | Some d \<Rightarrow> Inr d)
      | PInt i \<Rightarrow> if i < low \<or> i > high then Inl LimitRejected else Inr i
      | _ \<Rightarrow> Inl LimitRejected)"

definition choice :: "pyval \<Rightarrow> string list \<Rightarrow> string option \<Rightarrow> string result" where
  "choice v allowed dflt =
     (case v of
        PNone \<Rightarrow> (case dflt of None \<Rightarrow> Inl LimitRejected | Some d \<Rightarrow> Inr d)
      | PStr s \<Rightarrow> if s \<in> set allowed then Inr s else Inl LimitRejected
      | _ \<Rightarrow> Inl LimitRejected)"

definition choice_item :: "string list \<Rightarrow> pyval \<Rightarrow> string result" where
  "choice_item allowed v =
     (case v of PStr s \<Rightarrow> if s \<in> set allowed then Inr s else Inl LimitRejected
      | _ \<Rightarrow> Inl LimitRejected)"

definition choice_list :: "pyval \<Rightarrow> string list \<Rightarrow> string list option \<Rightarrow> string list result" where
  "choice_list v allowed dflt =
     (case v of
        PNone \<Rightarrow> Inr (case dflt of None \<Rightarrow> [] | Some d \<Rightarrow> d)
      | PList xs \<Rightarrow> bind_result (map_result (choice_item allowed) xs) (\<lambda>ys. Inr (sorted_set ys))
      | _ \<Rightarrow> Inl LimitRejected)"

lemma text_value_Inr [result_simps]: "text_value v err = Inr s \<longleftrightarrow> v = PStr s \<and> s \<noteq> []"
  by (auto simp: text_value_def split: pyval.splits if_splits)

lemma sha256_text_Inr [result_simps]: "sha256_text v err = Inr s \<longleftrightarrow> v = PStr s \<and> SHA256_RE s"
  by (auto simp: sha256_text_def split: pyval.splits if_splits)

lemma identifier_text_Inr [result_simps]:
  "identifier_text v err = Inr s \<longleftrightarrow> v = PStr s \<and> IDENTIFIER_RE s"
  by (auto simp: identifier_text_def split: pyval.splits if_splits)

lemma mapping_value_Inr [result_simps]: "mapping_value v err = Inr d \<longleftrightarrow> v = PDict d"
  by (auto simp: mapping_value_def split: pyval.splits)

lemma bounded_int_Inr:
  "bounded_int v lo hi d = Inr i \<longleftrightarrow>
     (v = PNone \<and> d = Some i) \<or> (v = PInt i \<and> lo \<le> i \<and> i \<le> hi)"
  by (auto simp: bounded_int_def split: pyval.splits option.splits if_splits)

lemma bounded_int_range:
  "bounded_int v lo hi (Some d) = Inr i \<Longrightarrow> lo \<le> d \<Longrightarrow> d \<le> hi \<Longrightarrow> lo \<le> i \<and> i \<le> hi"
  by (auto simp: bounded_int_Inr)

lemma choice_member: "choice v allowed (Some d) = Inr s \<Longrightarrow> d \<in> set allowed \<Longrightarrow> s \<in> set allowed"
  by (auto simp: choice_def split: pyval.splits if_splits)

lemma choice_PStr [simp]: "choice (PStr s) allowed d = Inr s \<longleftrightarrow> s \<in> set allowed"
  by (simp add: choice_def)

lemma choice_item_Inr [result_simps]:
  "choice_item allowed v = Inr s \<longleftrightarrow> v = PStr s \<and> s \<in> set allowed"
  by (auto simp: choice_item_def split: pyval.splits if_splits)

lemma choice_items_PStr:
  "set ss \<subseteq> set allowed \<Longrightarrow> map_result (choice_item allowed) (map PStr ss) = Inr ss"
  by (induction ss) (auto simp: choice_item_def)

lemma choice_list_members:
  assumes "choice_list v allowed (Some d) = Inr ss" "set d \<subseteq> set allowed"
  shows "set ss \<subseteq> set allowed"
  using assms
  by (auto simp: choice_list_def result_simps split: pyval.splits dest!: map_result_set)

text \<open>A list that is already an allowlisted, sorted tuple passes a second validation unchanged.\<close>

lemma choice_list_again:
  assumes "set ss \<subseteq> set allowed" "sorted ss" "distinct ss"
  shows "choice_list (PList (map PStr ss)) allowed d = Inr ss"
proof -
  have "sorted_set ss = ss"
    using assms by (intro sorted_distinct_set_unique) simp_all
  then show ?thesis
    using assms by (simp add: choice_list_def choice_items_PStr)
qed

section \<open>Source locations\<close>

record source_location =
  sl_file :: string
  sl_start :: int
  sl_end :: int

definition positive_line :: "pyval \<Rightarrow> int result" where
  "positive_line v = (case v of PInt i \<Rightarrow> if i < 1 then Inl NodeInvalid else Inr i
                      | _ \<Rightarrow> Inl NodeInvalid)"

definition portable_file :: "pyval \<Rightarrow> string result" where
  "portable_file v =
     (case v of PStr s \<Rightarrow> if PORTABLE_RELATIVE_RE s then Inr s else Inl NodeInvalid
      | _ \<Rightarrow> Inl NodeInvalid)"

definition make_source :: "pyval \<Rightarrow> pyval \<Rightarrow> pyval \<Rightarrow> source_location result" where
  "make_source file start_line end_line =
     bind_result (portable_file file) (\<lambda>f.
     bind_result (positive_line start_line) (\<lambda>a.
     bind_result (positive_line end_line) (\<lambda>b.
       if b < a then Inl NodeInvalid else Inr \<lparr>sl_file = f, sl_start = a, sl_end = b\<rparr>)))"

definition source_as_document :: "source_location \<Rightarrow> pyval" where
  "source_as_document s =
     PDict [(''file'', PStr (sl_file s)), (''start_line'', PInt (sl_start s)),
            (''end_line'', PInt (sl_end s))]"

definition field :: "(string, pyval) dict \<Rightarrow> string \<Rightarrow> pyval" where
  "field d k = (case map_of d k of None \<Rightarrow> PNone | Some v \<Rightarrow> v)"

definition missing_keys :: "(string, pyval) dict \<Rightarrow> string list \<Rightarrow> string list" where
  "missing_keys d ks = filter (\<lambda>k. \<not> dict_has d k) ks"

definition SOURCE_FIELDS :: "string list" where
  "SOURCE_FIELDS = [''file'', ''start_line'', ''end_line'']"

definition source_from_document :: "pyval \<Rightarrow> source_location result" where
  "source_from_document document =
     bind_result (mapping_value document NodeInvalid) (\<lambda>d.
     bind_result (has_only d SOURCE_FIELDS) (\<lambda>_.
     bind_result (guard_result (missing_keys d SOURCE_FIELDS = []) NodeInvalid) (\<lambda>_.
       make_source (field d ''file'') (field d ''start_line'') (field d ''end_line''))))"

definition source_ok :: "source_location \<Rightarrow> bool" where
  "source_ok s = (PORTABLE_RELATIVE_RE (sl_file s) \<and> 1 \<le> sl_start s \<and> sl_start s \<le> sl_end s)"

lemma make_source_Inr:
  "make_source f a b = Inr s \<longleftrightarrow>
     f = PStr (sl_file s) \<and> a = PInt (sl_start s) \<and> b = PInt (sl_end s) \<and> source_ok s"
  by (cases s) (auto simp: make_source_def result_simps portable_file_def positive_line_def
      source_ok_def not_less split: pyval.splits if_splits)

section \<open>Nodes\<close>

record node =
  n_id :: string
  n_project :: string
  n_kind :: string
  n_name :: string
  n_qualified :: string
  n_language :: string
  n_source :: source_location
  n_quality :: string
  n_attributes :: "(string, pyval) dict"

text \<open>Membership in a \<open>frozenset\<close> hashes the value first; an unhashable value is a \<open>TypeError\<close>.\<close>

definition in_frozenset :: "pyval \<Rightarrow> string list \<Rightarrow> query_error \<Rightarrow> string result" where
  "in_frozenset v allowed err =
     (if \<not> hashable v then Inl PyTypeError
      else (case v of PStr s \<Rightarrow> if s \<in> set allowed then Inr s else Inl err | _ \<Rightarrow> Inl err))"

definition in_tuple :: "pyval \<Rightarrow> string list \<Rightarrow> query_error \<Rightarrow> string result" where
  "in_tuple v allowed err =
     (case v of PStr s \<Rightarrow> if s \<in> set allowed then Inr s else Inl err | _ \<Rightarrow> Inl err)"

definition make_node ::
  "pyval \<Rightarrow> pyval \<Rightarrow> pyval \<Rightarrow> pyval \<Rightarrow> pyval \<Rightarrow> pyval \<Rightarrow> source_location \<Rightarrow> pyval \<Rightarrow> pyval \<Rightarrow> node result"
where
  "make_node id_v project_v kind_v name_v qualified_v language_v source quality_v attributes_v =
     bind_result (sha256_text id_v NodeInvalid) (\<lambda>nid.
     bind_result (identifier_text project_v NodeInvalid) (\<lambda>project.
     bind_result (in_frozenset kind_v NODE_KINDS NodeInvalid) (\<lambda>kind.
     bind_result (text_value name_v NodeInvalid) (\<lambda>name.
     bind_result (text_value qualified_v NodeInvalid) (\<lambda>qualified.
     bind_result (text_value language_v NodeInvalid) (\<lambda>language.
     bind_result (in_tuple quality_v IDENTITY_QUALITIES NodeInvalid) (\<lambda>quality.
     bind_result (mapping_value attributes_v NodeInvalid) (\<lambda>attributes.
       Inr \<lparr>n_id = nid, n_project = project, n_kind = kind, n_name = name,
            n_qualified = qualified, n_language = language, n_source = source,
            n_quality = quality, n_attributes = attributes\<rparr>))))))))"

definition NODE_FIELDS :: "string list" where
  "NODE_FIELDS = [''id'', ''project_id'', ''kind'', ''name'', ''qualified_name'', ''language'',
     ''source'', ''identity_quality'', ''attributes'']"

definition node_as_document :: "node \<Rightarrow> pyval" where
  "node_as_document n =
     PDict [(''id'', PStr (n_id n)), (''project_id'', PStr (n_project n)),
            (''kind'', PStr (n_kind n)), (''name'', PStr (n_name n)),
            (''qualified_name'', PStr (n_qualified n)), (''language'', PStr (n_language n)),
            (''source'', source_as_document (n_source n)),
            (''identity_quality'', PStr (n_quality n)), (''attributes'', PDict (n_attributes n))]"

definition node_from_document :: "pyval \<Rightarrow> node result" where
  "node_from_document document =
     bind_result (mapping_value document NodeInvalid) (\<lambda>d.
     bind_result (has_only d NODE_FIELDS) (\<lambda>_.
     bind_result (guard_result (missing_keys d NODE_FIELDS = []) NodeInvalid) (\<lambda>_.
     bind_result (source_from_document (field d ''source'')) (\<lambda>source.
       make_node (field d ''id'') (field d ''project_id'') (field d ''kind'')
         (field d ''name'') (field d ''qualified_name'') (field d ''language'') source
         (field d ''identity_quality'') (field d ''attributes'')))))"

definition node_ok :: "node \<Rightarrow> bool" where
  "node_ok n = (SHA256_RE (n_id n) \<and> IDENTIFIER_RE (n_project n) \<and> n_kind n \<in> set NODE_KINDS
     \<and> n_name n \<noteq> [] \<and> n_qualified n \<noteq> [] \<and> n_language n \<noteq> [] \<and> source_ok (n_source n)
     \<and> n_quality n \<in> set IDENTITY_QUALITIES)"

section \<open>Edges\<close>

record edge =
  e_id :: string
  e_source :: string
  e_target_project :: string
  e_kind :: string
  e_resolution :: string
  e_evidence :: "(string, pyval) dict list"
  e_analyzer :: string
  e_target :: "string option"
  e_unresolved :: "string option"

definition edge_resolved :: "edge \<Rightarrow> bool" where
  "edge_resolved e = (e_target e \<noteq> None)"

text \<open>
  \<open>dict(item)\<close>: a mapping is copied, an empty sequence is the empty dictionary, a scalar is a
  \<open>TypeError\<close>, a non-empty text a \<open>ValueError\<close>. A non-empty list is read as key/value pairs, which
  the model leaves out.
\<close>

fun dict_of_item :: "pyval \<Rightarrow> (string, pyval) dict result" where
  "dict_of_item (PDict d) = Inr d"
| "dict_of_item (PStr s) = (if s = [] then Inr [] else Inl PyValueError)"
| "dict_of_item (PList xs) = (if xs = [] then Inr [] else Inl OutsideModel)"
| "dict_of_item _ = Inl PyTypeError"

fun tuple_of :: "pyval \<Rightarrow> pyval list result" where
  "tuple_of (PList xs) = Inr xs"
| "tuple_of (PStr s) = Inr (map (\<lambda>c. PStr [c]) s)"
| "tuple_of (PDict d) = Inr (map (\<lambda>p. PStr (fst p)) d)"
| "tuple_of _ = Inl PyTypeError"

definition optional_text :: "pyval \<Rightarrow> (pyval \<Rightarrow> string result) \<Rightarrow> string option result" where
  "optional_text v check =
     (if v = PNone then Inr None else bind_result (check v) (\<lambda>s. Inr (Some s)))"

definition make_edge ::
  "pyval \<Rightarrow> pyval \<Rightarrow> pyval \<Rightarrow> pyval \<Rightarrow> pyval \<Rightarrow> pyval list \<Rightarrow> pyval \<Rightarrow> pyval \<Rightarrow> pyval \<Rightarrow> edge result"
where
  "make_edge id_v source_v project_v kind_v resolution_v evidence analyzer_v target_v unresolved_v =
     bind_result (sha256_text id_v EdgeInvalid) (\<lambda>eid.
     bind_result (sha256_text source_v EdgeInvalid) (\<lambda>source.
     bind_result (identifier_text project_v EdgeInvalid) (\<lambda>project.
     bind_result (in_frozenset kind_v EDGE_KINDS EdgeInvalid) (\<lambda>kind.
     bind_result (in_tuple resolution_v RESOLUTIONS EdgeInvalid) (\<lambda>resolution.
     bind_result (text_value analyzer_v EdgeInvalid) (\<lambda>analyzer.
     bind_result (guard_result (evidence \<noteq> []) EdgeInvalid) (\<lambda>_.
     bind_result (map_result dict_of_item evidence) (\<lambda>items.
     bind_result (guard_result ((target_v = PNone) \<noteq> (unresolved_v = PNone)) EdgeInvalid) (\<lambda>_.
     bind_result (optional_text target_v (\<lambda>v. sha256_text v EdgeInvalid)) (\<lambda>target.
     bind_result (optional_text unresolved_v (\<lambda>v. text_value v EdgeInvalid)) (\<lambda>unresolved.
     bind_result (guard_result (resolution \<noteq> UNRESOLVED \<or> unresolved \<noteq> None) EdgeInvalid) (\<lambda>_.
     bind_result (guard_result (resolution = UNRESOLVED \<or> target \<noteq> None) EdgeInvalid) (\<lambda>_.
       Inr \<lparr>e_id = eid, e_source = source, e_target_project = project, e_kind = kind,
            e_resolution = resolution, e_evidence = items, e_analyzer = analyzer,
            e_target = target, e_unresolved = unresolved\<rparr>)))))))))))))"

definition EDGE_FIELDS :: "string list" where
  "EDGE_FIELDS = [''id'', ''source_id'', ''target_project_id'', ''kind'', ''resolution'',
     ''evidence'', ''analyzer_id'']"

definition edge_as_document :: "edge \<Rightarrow> pyval" where
  "edge_as_document e =
     PDict ([(''id'', PStr (e_id e)), (''source_id'', PStr (e_source e)),
             (''target_project_id'', PStr (e_target_project e)), (''kind'', PStr (e_kind e)),
             (''resolution'', PStr (e_resolution e)),
             (''evidence'', PList (map PDict (e_evidence e))),
             (''analyzer_id'', PStr (e_analyzer e))]
            @ (case e_target e of
                 Some t \<Rightarrow> [(''target_id'', PStr t)]
               | None \<Rightarrow> [(''unresolved_target'',
                   (case e_unresolved e of None \<Rightarrow> PNone | Some u \<Rightarrow> PStr u))]))"

definition edge_from_document :: "pyval \<Rightarrow> edge result" where
  "edge_from_document document =
     bind_result (mapping_value document EdgeInvalid) (\<lambda>d.
     bind_result (has_only d (EDGE_FIELDS @ [''target_id'', ''unresolved_target''])) (\<lambda>_.
     bind_result (guard_result (missing_keys d EDGE_FIELDS = []) EdgeInvalid) (\<lambda>_.
     bind_result (tuple_of (field d ''evidence'')) (\<lambda>evidence.
       make_edge (field d ''id'') (field d ''source_id'') (field d ''target_project_id'')
         (field d ''kind'') (field d ''resolution'') evidence (field d ''analyzer_id'')
         (field d ''target_id'') (field d ''unresolved_target'')))))"

definition edge_ok :: "edge \<Rightarrow> bool" where
  "edge_ok e = (SHA256_RE (e_id e) \<and> SHA256_RE (e_source e) \<and> IDENTIFIER_RE (e_target_project e)
     \<and> e_kind e \<in> set EDGE_KINDS \<and> e_resolution e \<in> set RESOLUTIONS \<and> e_analyzer e \<noteq> []
     \<and> e_evidence e \<noteq> []
     \<and> (case e_target e of
          Some t \<Rightarrow> SHA256_RE t \<and> e_unresolved e = None \<and> e_resolution e \<noteq> UNRESOLVED
        | None \<Rightarrow> e_resolution e = UNRESOLVED
            \<and> (\<exists>u. e_unresolved e = Some u \<and> u \<noteq> [])))"

section \<open>Parsing and printing\<close>

lemma in_frozenset_Inr [result_simps]:
  "in_frozenset v allowed err = Inr s \<longleftrightarrow> v = PStr s \<and> s \<in> set allowed"
  by (auto simp: in_frozenset_def split: pyval.splits if_splits)

lemma in_tuple_Inr [result_simps]:
  "in_tuple v allowed err = Inr s \<longleftrightarrow> v = PStr s \<and> s \<in> set allowed"
  by (auto simp: in_tuple_def split: pyval.splits if_splits)

lemma make_node_Inr:
  "make_node i p k nm q l s ql a = Inr n \<longleftrightarrow>
     i = PStr (n_id n) \<and> p = PStr (n_project n) \<and> k = PStr (n_kind n) \<and> nm = PStr (n_name n)
     \<and> q = PStr (n_qualified n) \<and> l = PStr (n_language n) \<and> s = n_source n
     \<and> ql = PStr (n_quality n) \<and> a = PDict (n_attributes n)
     \<and> SHA256_RE (n_id n) \<and> IDENTIFIER_RE (n_project n) \<and> n_kind n \<in> set NODE_KINDS
     \<and> n_name n \<noteq> [] \<and> n_qualified n \<noteq> [] \<and> n_language n \<noteq> []
     \<and> n_quality n \<in> set IDENTITY_QUALITIES"
  by (cases n) (auto simp: make_node_def result_simps)

lemma source_roundtrip: "source_from_document (source_as_document s) = Inr t \<longleftrightarrow> s = t \<and> source_ok t"
  by (cases s; cases t)
     (auto simp: source_from_document_def source_as_document_def SOURCE_FIELDS_def result_simps
       has_only_def missing_keys_def dict_has_def field_def make_source_Inr)

lemma source_from_document_ok: "source_from_document d = Inr s \<Longrightarrow> source_ok s"
  by (auto simp: source_from_document_def make_source_Inr result_simps)

lemma optional_text_Inr [result_simps]:
  "optional_text v check = Inr r \<longleftrightarrow>
     (v = PNone \<and> r = None) \<or> (v \<noteq> PNone \<and> (\<exists>s. check v = Inr s \<and> r = Some s))"
  by (auto simp: optional_text_def result_simps)

lemma dict_items_roundtrip: "map_result dict_of_item (map PDict es) = Inr es"
  by (induction es) simp_all

lemma make_edge_ok: "make_edge i s p k r ev a t u = Inr e \<Longrightarrow> edge_ok e"
  by (auto simp: make_edge_def edge_ok_def result_simps dest: map_result_Inr_length
      split: option.splits)

text \<open>
  C36. A node document is accepted exactly when it prints a well-formed node, and printing then
  parsing gives the node back: no field is lost, defaulted or renamed.
\<close>

theorem node_document_roundtrip:
  "node_from_document (node_as_document n) = Inr m \<longleftrightarrow> m = n \<and> node_ok n"
  by (cases n; cases m)
     (auto simp: node_from_document_def node_as_document_def NODE_FIELDS_def result_simps
       has_only_def missing_keys_def dict_has_def field_def make_node_Inr source_roundtrip node_ok_def)

lemma edge_from_document_ok: "edge_from_document d = Inr e \<Longrightarrow> edge_ok e"
  by (auto simp: edge_from_document_def result_simps intro: make_edge_ok)

text \<open>
  The printed document of an edge carries exactly one of \<open>target_id\<close> and
  \<open>unresolved_target\<close>, and it parses back to the same edge exactly when the edge is well-formed:
  one target form, agreeing with its resolution, and at least one piece of evidence.
\<close>

theorem edge_document_roundtrip:
  "edge_from_document (edge_as_document e) = Inr e \<longleftrightarrow> edge_ok e"
proof
  assume "edge_from_document (edge_as_document e) = Inr e"
  then show "edge_ok e" by (rule edge_from_document_ok)
next
  assume "edge_ok e"
  then show "edge_from_document (edge_as_document e) = Inr e"
    by (cases e)
       (auto simp: edge_from_document_def edge_as_document_def EDGE_FIELDS_def result_simps edge_ok_def
         has_only_def missing_keys_def dict_has_def field_def make_edge_def dict_items_roundtrip
         split: option.splits)
qed

end
