(* ===== verification/Graphs.thy ===== *)
theory Graphs
  imports Facts
begin

text \<open>
  The pinned graphs of \<open>query/model.py\<close>: one project's generation (\<open>graph\<close>), several of them
  indexed together (\<open>graph_set\<close>), the lookups, the selector ranking behind \<open>match\<close> and \<open>resolve\<close>,
  and the unresolved references of a node. Python's \<open>str.casefold\<close> is the argument \<open>cf\<close> of the
  definitions that use it: every fact below holds whatever the folding table is.
\<close>

section \<open>One generation\<close>

record graph =
  g_project :: string
  g_generation :: string
  g_nodes :: "node list"
  g_edges :: "edge list"
  g_coverage :: "(string, pyval) dict option"
  g_schema_major :: "int option"
  g_by_id :: "(string, node) dict"
  g_outgoing :: "(string, edge list) dict"
  g_incoming :: "(string, edge list) dict"

text \<open>One turn of the node loop and one of the edge loop of \<open>Graph.__post_init__\<close>.\<close>

definition graph_add_node :: "string \<Rightarrow> (string, node) dict \<Rightarrow> node \<Rightarrow> (string, node) dict result" where
  "graph_add_node project by_id n =
     (if n_project n \<noteq> project then Inl NodeInvalid
      else if dict_has by_id (n_id n) then Inl NodeInvalid
      else Inr (dict_set (n_id n) n by_id))"

definition index_incoming :: "edge \<Rightarrow> (string, edge list) dict \<Rightarrow> (string, edge list) dict" where
  "index_incoming e incoming =
     (case e_target e of None \<Rightarrow> incoming | Some t \<Rightarrow> dict_append t e incoming)"

type_synonym edge_index = "string list \<times> (string, edge list) dict \<times> (string, edge list) dict"

definition graph_add_edge :: "(string, node) dict \<Rightarrow> edge_index \<Rightarrow> edge \<Rightarrow> edge_index result" where
  "graph_add_edge by_id acc e =
     (case acc of (seen, outgoing, incoming) \<Rightarrow>
        if e_id e \<in> set seen then Inl EdgeInvalid
        else if \<not> dict_has by_id (e_source e) then Inl EdgeInvalid
        else Inr (e_id e # seen, dict_append (e_source e) e outgoing, index_incoming e incoming))"

definition make_graph ::
  "string \<Rightarrow> string \<Rightarrow> node list \<Rightarrow> edge list \<Rightarrow> (string, pyval) dict option \<Rightarrow> int option \<Rightarrow> graph result"
where
  "make_graph project generation nodes edges coverage schema_major =
     bind_result (identifier_text (PStr project) QueryModelError) (\<lambda>_.
     bind_result (sha256_text (PStr generation) QueryModelError) (\<lambda>_.
     bind_result (fold_result (graph_add_node project) [] nodes) (\<lambda>by_id.
     bind_result (fold_result (graph_add_edge by_id) ([], [], []) edges) (\<lambda>acc.
       (case acc of (seen, outgoing, incoming) \<Rightarrow>
          Inr \<lparr>g_project = project, g_generation = generation, g_nodes = nodes, g_edges = edges,
               g_coverage = coverage, g_schema_major = schema_major, g_by_id = by_id,
               g_outgoing = outgoing, g_incoming = incoming\<rparr>)))))"

definition graph_from_documents ::
  "string \<Rightarrow> string \<Rightarrow> pyval list \<Rightarrow> pyval list \<Rightarrow> (string, pyval) dict option \<Rightarrow> int option \<Rightarrow> graph result"
where
  "graph_from_documents project generation nodes edges coverage schema_major =
     bind_result (map_result node_from_document nodes) (\<lambda>ns.
     bind_result (map_result edge_from_document edges) (\<lambda>es.
       make_graph project generation ns es coverage schema_major))"

definition graph_node :: "graph \<Rightarrow> string \<Rightarrow> node result" where
  "graph_node g nid = (case dict_get (g_by_id g) nid of None \<Rightarrow> Inl TargetNotFound | Some n \<Rightarrow> Inr n)"

text \<open>\<open>_select_kinds\<close> and \<open>_direct\<close>: an index entry, filtered by the selected edge kinds.\<close>

definition select_kinds :: "edge list \<Rightarrow> string list option \<Rightarrow> edge list" where
  "select_kinds edges kinds =
     (case kinds of None \<Rightarrow> edges | Some ks \<Rightarrow> filter (\<lambda>e. e_kind e \<in> set ks) edges)"

definition direct_edges :: "(string, edge list) dict \<Rightarrow> string \<Rightarrow> string list option \<Rightarrow> edge list" where
  "direct_edges index nid kinds = select_kinds (dict_items index nid) kinds"

text \<open>
  \<open>str\<close> of a value of the coverage block. A container prints as a bracketed text; which one does not
  matter here, because no allowlisted status starts with a bracket.
\<close>

fun py_str :: "pyval \<Rightarrow> string" where
  "py_str PNone = ''None''"
| "py_str (PBool b) = (if b then ''True'' else ''False'')"
| "py_str (PInt i) = int_repr i"
| "py_str (PFloat r) = r"
| "py_str (PStr s) = s"
| "py_str v = dumps v"

definition coverage_status :: "graph \<Rightarrow> string" where
  "coverage_status g =
     (case g_coverage g of
        None \<Rightarrow> ''unknown''
      | Some c \<Rightarrow> if c = [] then ''unknown''
          else (case map_of c ''status'' of None \<Rightarrow> ''unknown'' | Some v \<Rightarrow> py_str v))"

definition COVERAGE_FIELDS :: "string list" where
  "COVERAGE_FIELDS = [''status'', ''input_files'', ''processed_files'', ''unresolved_references'',
     ''unsupported_patterns'']"

definition coverage_document :: "graph \<Rightarrow> (string, pyval) dict" where
  "coverage_document g =
     (case g_coverage g of None \<Rightarrow> []
      | Some c \<Rightarrow> concat (map (\<lambda>k. case map_of c k of None \<Rightarrow> [] | Some v \<Rightarrow> [(k, v)]) COVERAGE_FIELDS))"

section \<open>Several generations together\<close>

record graph_set =
  gs_by_project :: "(string, graph) dict"
  gs_missing :: "string list"
  gs_nodes :: "(string, node) dict"
  gs_outgoing :: "(string, edge list) dict"
  gs_incoming :: "(string, edge list) dict"

definition empty_graph_set :: graph_set where
  "empty_graph_set = \<lparr>gs_by_project = [], gs_missing = [], gs_nodes = [], gs_outgoing = [], gs_incoming = []\<rparr>"

definition set_add_node :: "(string, node) dict \<Rightarrow> node \<Rightarrow> (string, node) dict result" where
  "set_add_node nodes n =
     (case map_of nodes (n_id n) of
        Some other \<Rightarrow> if n_project other \<noteq> n_project n then Inl QueryModelError
                       else Inr (dict_set (n_id n) n nodes)
      | None \<Rightarrow> Inr (dict_set (n_id n) n nodes))"

fun index_edges ::
  "edge list \<Rightarrow> (string, edge list) dict \<Rightarrow> (string, edge list) dict
   \<Rightarrow> (string, edge list) dict \<times> (string, edge list) dict" where
  "index_edges [] outgoing incoming = (outgoing, incoming)"
| "index_edges (e # es) outgoing incoming =
     index_edges es (dict_append (e_source e) e outgoing) (index_incoming e incoming)"

text \<open>One turn of the loop over graphs in \<open>GraphSet.__init__\<close>.\<close>

definition set_add_graph :: "graph_set \<Rightarrow> graph \<Rightarrow> graph_set result" where
  "set_add_graph gs g =
     (if dict_has (gs_by_project gs) (g_project g) then Inl QueryModelError
      else bind_result (fold_result set_add_node (gs_nodes gs) (g_nodes g)) (\<lambda>nodes.
        (case index_edges (g_edges g) (gs_outgoing gs) (gs_incoming gs) of (outgoing, incoming) \<Rightarrow>
           Inr (gs\<lparr>gs_by_project := dict_set (g_project g) g (gs_by_project gs), gs_nodes := nodes,
                   gs_outgoing := outgoing, gs_incoming := incoming\<rparr>))))"

definition set_missing :: "graph_set \<Rightarrow> string list \<Rightarrow> graph_set result" where
  "set_missing gs missing =
     bind_result (map_result (\<lambda>p. identifier_text (PStr p) QueryModelError) missing) (\<lambda>ids.
       if \<exists>p \<in> set ids. dict_has (gs_by_project gs) p then Inl QueryModelError
       else Inr (gs\<lparr>gs_missing := sorted_set ids\<rparr>))"

definition make_graph_set :: "graph list \<Rightarrow> string list \<Rightarrow> graph_set result" where
  "make_graph_set graphs missing =
     bind_result (fold_result set_add_graph empty_graph_set graphs) (\<lambda>gs. set_missing gs missing)"

definition project_ids :: "graph_set \<Rightarrow> string list" where
  "project_ids gs = sort (dict_keys (gs_by_project gs))"

definition gs_graphs :: "graph_set \<Rightarrow> graph list" where
  "gs_graphs gs = values_by_key (gs_by_project gs)"

definition generations :: "graph_set \<Rightarrow> (string \<times> string) list" where
  "generations gs = map (\<lambda>k. (k, g_generation (the (map_of (gs_by_project gs) k)))) (project_ids gs)"

definition gs_graph :: "graph_set \<Rightarrow> string \<Rightarrow> graph result" where
  "gs_graph gs p = (case map_of (gs_by_project gs) p of None \<Rightarrow> Inl TargetNotFound | Some g \<Rightarrow> Inr g)"

definition gs_node :: "graph_set \<Rightarrow> string \<Rightarrow> node result" where
  "gs_node gs nid = (case map_of (gs_nodes gs) nid of None \<Rightarrow> Inl TargetNotFound | Some n \<Rightarrow> Inr n)"

definition nodes_sorted :: "graph_set \<Rightarrow> node list" where
  "nodes_sorted gs = values_by_key (gs_nodes gs)"

definition edges_collected :: "graph_set \<Rightarrow> (string, edge) dict" where
  "edges_collected gs = fold (\<lambda>e d. dict_setdefault (e_id e) e d) (concat (map g_edges (gs_graphs gs))) []"

definition edges_sorted :: "graph_set \<Rightarrow> edge list" where
  "edges_sorted gs = values_by_key (edges_collected gs)"

text \<open>The scope argument of every operation, and its normalisation \<open>as_graph_set\<close>.\<close>

datatype scope = ScopeGraph graph | ScopeSet graph_set | ScopeGraphs "graph list"

fun as_graph_set :: "scope \<Rightarrow> graph_set result" where
  "as_graph_set (ScopeSet gs) = Inr gs"
| "as_graph_set (ScopeGraph g) = make_graph_set [g] []"
| "as_graph_set (ScopeGraphs graphs) = make_graph_set graphs []"

definition narrow_scope :: "graph_set \<Rightarrow> string list option \<Rightarrow> graph_set result" where
  "narrow_scope gs projects =
     (case projects of
        None \<Rightarrow> Inr gs
      | Some pids \<Rightarrow>
          bind_result (map_result (\<lambda>p. identifier_text (PStr p) QueryModelError) pids) (\<lambda>chosen.
          bind_result
            (fold_result (\<lambda>acc p. bind_result (gs_graph gs p) (set_add_graph acc)) empty_graph_set chosen)
            (\<lambda>acc. set_missing acc (filter (\<lambda>p. p \<in> set chosen) (gs_missing gs)))))"

section \<open>The invariant of a graph set\<close>

text \<open>
  All edges of the scope, project by project in insertion order, and what the two indexes have to
  hold of them.
\<close>

definition all_edges :: "graph_set \<Rightarrow> edge list" where
  "all_edges gs = concat (map (\<lambda>p. g_edges (snd p)) (gs_by_project gs))"

definition keyed_by :: "('v \<Rightarrow> 'k) \<Rightarrow> ('k, 'v) dict \<Rightarrow> bool" where
  "keyed_by key d = (distinct (dict_keys d) \<and> (\<forall>p \<in> set d. key (snd p) = fst p))"

definition gs_inv :: "graph_set \<Rightarrow> bool" where
  "gs_inv gs =
     (keyed_by g_project (gs_by_project gs) \<and> keyed_by n_id (gs_nodes gs)
      \<and> (\<forall>k. dict_items (gs_outgoing gs) k = filter (\<lambda>e. e_source e = k) (all_edges gs))
      \<and> (\<forall>k. dict_items (gs_incoming gs) k = filter (\<lambda>e. e_target e = Some k) (all_edges gs))
      \<and> n_id ` (\<Union>p \<in> set (gs_by_project gs). set (g_nodes (snd p))) = fst ` set (gs_nodes gs)
      \<and> (\<forall>p \<in> set (gs_missing gs). \<not> dict_has (gs_by_project gs) p))"

lemma keyed_by_get: "keyed_by key d \<Longrightarrow> map_of d k = Some v \<Longrightarrow> key v = k"
  by (auto simp: keyed_by_def dest: map_of_SomeD)

lemma keyed_by_set: "keyed_by key d \<Longrightarrow> keyed_by key (dict_set (key v) v d)"
proof -
  assume d: "keyed_by key d"
  have "key (snd p) = fst p" if "p \<in> set (dict_set (key v) v d)" for p
    using that d by (induction d) (auto simp: keyed_by_def split: if_splits)
  with d show ?thesis by (simp add: keyed_by_def dict_set_distinct)
qed

lemma keyed_by_values: "keyed_by key d \<Longrightarrow> map key (values_by_key d) = sort (dict_keys d)"
  by (rule values_by_key_keys) (auto simp: keyed_by_def)

lemma gs_inv_project:
  assumes "gs_inv gs" "map_of (gs_by_project gs) p = Some g"
  shows "g_project g = p"
  using keyed_by_get [OF _ assms(2), of g_project] assms(1) by (simp add: gs_inv_def)

lemma gs_inv_node:
  assumes "gs_inv gs" "gs_node gs nid = Inr n"
  shows "n_id n = nid"
proof -
  have "map_of (gs_nodes gs) nid = Some n"
    using assms(2) by (simp add: gs_node_def split: option.splits)
  moreover have "keyed_by n_id (gs_nodes gs)"
    using assms(1) by (simp add: gs_inv_def)
  ultimately show ?thesis by (rule keyed_by_get [rotated])
qed

lemma set_add_node_inv:
  "set_add_node d n = Inr d' \<Longrightarrow> keyed_by n_id d \<Longrightarrow>
     keyed_by n_id d' \<and> fst ` set d' = insert (n_id n) (fst ` set d)"
proof -
  assume "set_add_node d n = Inr d'" and d: "keyed_by n_id d"
  then have "d' = dict_set (n_id n) n d"
    by (auto simp: set_add_node_def split: option.splits if_splits)
  with d show ?thesis
    by (simp add: keyed_by_set dict_set_keys)
qed

lemma fold_set_add_node:
  "fold_result set_add_node d ns = Inr d' \<Longrightarrow> keyed_by n_id d \<Longrightarrow>
     keyed_by n_id d' \<and> fst ` set d' = n_id ` set ns \<union> fst ` set d"
proof (induction ns arbitrary: d)
  case Nil
  then show ?case by simp
next
  case (Cons n ns)
  then obtain d1 where d1: "set_add_node d n = Inr d1" "fold_result set_add_node d1 ns = Inr d'"
    by (auto simp: result_simps)
  with set_add_node_inv [OF d1(1) Cons.prems(2)] Cons.IH [OF d1(2)] show ?case
    by auto
qed

lemma index_incoming_items:
  "dict_items (index_incoming e d) k = dict_items d k @ (if e_target e = Some k then [e] else [])"
  by (auto simp: index_incoming_def dict_append_items split: option.splits)

lemma index_edges_items:
  "index_edges es out inc = (out', inc') \<Longrightarrow>
     dict_items out' k = dict_items out k @ filter (\<lambda>e. e_source e = k) es
     \<and> dict_items inc' k = dict_items inc k @ filter (\<lambda>e. e_target e = Some k) es"
  by (induction es arbitrary: out inc) (auto simp: dict_append_items index_incoming_items)

lemma gs_inv_empty: "gs_inv empty_graph_set"
  by (simp add: gs_inv_def empty_graph_set_def keyed_by_def all_edges_def dict_items_def)

lemma set_add_graph_inv:
  assumes "set_add_graph gs g = Inr gs'" "gs_inv gs" "gs_missing gs = []"
  shows "gs_inv gs' \<and> gs_missing gs' = [] \<and> gs_by_project gs' = gs_by_project gs @ [(g_project g, g)]"
proof -
  obtain nodes out inc where
    new: "g_project g \<notin> fst ` set (gs_by_project gs)"
    and nodes: "fold_result set_add_node (gs_nodes gs) (g_nodes g) = Inr nodes"
    and idx: "index_edges (g_edges g) (gs_outgoing gs) (gs_incoming gs) = (out, inc)"
    and gs': "gs' = gs\<lparr>gs_by_project := dict_set (g_project g) g (gs_by_project gs), gs_nodes := nodes,
                   gs_outgoing := out, gs_incoming := inc\<rparr>"
    using assms(1)
    by (cases "index_edges (g_edges g) (gs_outgoing gs) (gs_incoming gs)")
       (auto simp: set_add_graph_def result_simps dict_has_iff split: if_splits)
  have byp: "dict_set (g_project g) g (gs_by_project gs) = gs_by_project gs @ [(g_project g, g)]"
    using new by (rule dict_set_length_new)
  have "keyed_by g_project (dict_set (g_project g) g (gs_by_project gs))"
    using assms(2) by (simp add: gs_inv_def keyed_by_set)
  moreover have "keyed_by n_id nodes \<and> fst ` set nodes = n_id ` set (g_nodes g) \<union> fst ` set (gs_nodes gs)"
    using fold_set_add_node [OF nodes] assms(2) by (simp add: gs_inv_def)
  ultimately show ?thesis
    using assms(2,3) index_edges_items [OF idx]
    by (auto simp: gs_inv_def gs' byp all_edges_def image_Un)
qed

lemma set_missing_inv:
  assumes "set_missing gs missing = Inr gs'" "gs_inv gs"
  shows "gs_inv gs' \<and> gs_by_project gs' = gs_by_project gs \<and> gs_missing gs' = sorted_set missing"
proof -
  obtain ids where ids: "map_result (\<lambda>p. identifier_text (PStr p) QueryModelError) missing = Inr ids"
    and free: "\<forall>p \<in> set ids. \<not> dict_has (gs_by_project gs) p"
    and gs': "gs' = gs\<lparr>gs_missing := sorted_set ids\<rparr>"
    using assms(1) by (auto simp: set_missing_def result_simps split: if_splits)
  have "ids = missing"
    using map_result_image [OF ids, of "\<lambda>y. y"] by (simp add: identifier_text_Inr)
  then show ?thesis
    using assms(2) free by (simp add: gs_inv_def gs' all_edges_def)
qed

lemma fold_set_add_graph:
  assumes "fold_result set_add_graph gs graphs = Inr gs'" "gs_inv gs" "gs_missing gs = []"
  shows "gs_inv gs' \<and> gs_missing gs' = []
     \<and> gs_by_project gs' = gs_by_project gs @ map (\<lambda>g. (g_project g, g)) graphs"
  using assms
proof (induction graphs arbitrary: gs)
  case Nil
  then show ?case by simp
next
  case (Cons g graphs)
  then obtain gs1 where gs1: "set_add_graph gs g = Inr gs1" "fold_result set_add_graph gs1 graphs = Inr gs'"
    by (auto simp: result_simps)
  with set_add_graph_inv [OF gs1(1)] Cons show ?case by simp
qed

lemma make_graph_set_inv:
  assumes "make_graph_set graphs missing = Inr gs"
  shows "gs_inv gs \<and> gs_by_project gs = map (\<lambda>g. (g_project g, g)) graphs
     \<and> gs_missing gs = sorted_set missing"
proof -
  obtain gs1 where 1: "fold_result set_add_graph empty_graph_set graphs = Inr gs1"
    and 2: "set_missing gs1 missing = Inr gs"
    using assms by (auto simp: make_graph_set_def result_simps)
  from fold_set_add_graph [OF 1 gs_inv_empty] set_missing_inv [OF 2] show ?thesis
    by (simp add: empty_graph_set_def)
qed

lemma as_graph_set_inv:
  "as_graph_set sc = Inr gs \<Longrightarrow> (\<And>gs'. sc = ScopeSet gs' \<Longrightarrow> gs_inv gs') \<Longrightarrow> gs_inv gs"
  by (cases sc) (auto dest: make_graph_set_inv)

lemma fold_result_cong:
  "(\<And>x s. x \<in> set xs \<Longrightarrow> f s x = g s (h x)) \<Longrightarrow> fold_result f s xs = fold_result g s (map h xs)"
  by (induction xs arbitrary: s) (auto simp: bind_result_def split: sum.splits)

text \<open>
  Narrowing keeps the invariant and lists exactly the chosen projects. Its missing members are always
  empty: a chosen member that is not pinned makes \<open>scope.graph\<close> raise before it could be recorded.
\<close>

lemma narrow_fold:
  assumes "fold_result (\<lambda>acc p. bind_result (gs_graph gs p) (set_add_graph acc)) acc chosen = Inr gs'"
    and "gs_inv acc" "gs_missing acc = []"
  shows "gs_inv gs' \<and> gs_missing gs' = [] \<and> set chosen \<subseteq> fst ` set (gs_by_project gs)
     \<and> gs_by_project gs' = gs_by_project acc
         @ map (\<lambda>p. (g_project (the (map_of (gs_by_project gs) p)), the (map_of (gs_by_project gs) p))) chosen"
  using assms
proof (induction chosen arbitrary: acc)
  case Nil
  then show ?case by simp
next
  case (Cons p chosen)
  then obtain g acc1 where g: "gs_graph gs p = Inr g" and acc1: "set_add_graph acc g = Inr acc1"
    and rest: "fold_result (\<lambda>acc p. bind_result (gs_graph gs p) (set_add_graph acc)) acc1 chosen = Inr gs'"
    by (auto simp: result_simps)
  from g have p: "map_of (gs_by_project gs) p = Some g"
    by (simp add: gs_graph_def split: option.splits)
  then have "p \<in> fst ` set (gs_by_project gs)"
    by (force dest: map_of_SomeD)
  moreover have "gs_inv acc1 \<and> gs_missing acc1 = []
      \<and> gs_by_project acc1 = gs_by_project acc @ [(g_project g, g)]"
    using set_add_graph_inv [OF acc1 Cons.prems(2,3)] by simp
  ultimately show ?case
    using Cons.IH [OF rest] p by simp
qed

lemma narrow_scope_chosen:
  assumes "narrow_scope gs (Some pids) = Inr gs'" "gs_inv gs"
  shows "gs_inv gs' \<and> gs_missing gs' = []
     \<and> gs_by_project gs' = map (\<lambda>p. (p, the (map_of (gs_by_project gs) p))) pids"
proof -
  obtain chosen acc where ch: "map_result (\<lambda>p. identifier_text (PStr p) QueryModelError) pids = Inr chosen"
    and acc: "fold_result (\<lambda>acc p. bind_result (gs_graph gs p) (set_add_graph acc)) empty_graph_set chosen = Inr acc"
    and miss: "set_missing acc (filter (\<lambda>p. p \<in> set chosen) (gs_missing gs)) = Inr gs'"
    using assms(1) by (auto simp: narrow_scope_def result_simps)
  have chosen: "chosen = pids"
    using map_result_image [OF ch, of "\<lambda>y. y"] by (simp add: identifier_text_Inr)
  have f: "gs_inv acc" "set pids \<subseteq> fst ` set (gs_by_project gs)"
    "gs_by_project acc
       = map (\<lambda>p. (g_project (the (map_of (gs_by_project gs) p)), the (map_of (gs_by_project gs) p))) pids"
    using narrow_fold [OF acc gs_inv_empty] by (simp_all add: empty_graph_set_def chosen)
  have "g_project (the (map_of (gs_by_project gs) p)) = p" if "p \<in> set pids" for p
  proof -
    from that f(2) obtain g where "map_of (gs_by_project gs) p = Some g"
      by (metis map_of_eq_None_iff not_None_eq subsetD)
    with gs_inv_project [OF assms(2)] show ?thesis by simp
  qed
  moreover have "filter (\<lambda>p. p \<in> set pids) (gs_missing gs) = []"
    using assms(2) f(2) by (auto simp: gs_inv_def dict_has_iff filter_empty_conv)
  ultimately show ?thesis
    using set_missing_inv [OF miss f(1)] f(3) by (simp add: chosen sorted_set_def)
qed

end
