(* ===== verification/Examples.thy ===== *)
theory Examples
  imports Graphs
begin

text \<open>
  A small pinned scope on which the properties of the query operations are witnessed: three
  functions of one project, \<open>c\<close> calling \<open>b\<close> calling \<open>a\<close>, all edges exact.
\<close>

definition ex_id :: "char \<Rightarrow> string" where
  "ex_id c = replicate 64 c"

definition ex_node :: "char \<Rightarrow> node" where
  "ex_node c = \<lparr>n_id = ex_id c, n_project = ''app'', n_kind = ''Function'', n_name = [c, c],
     n_qualified = [CHR ''m'', CHR ''.'', c, c], n_language = ''python'',
     n_source = \<lparr>sl_file = ''m.py'', sl_start = 1, sl_end = 2\<rparr>, n_quality = ''semantic_key'',
     n_attributes = []\<rparr>"

definition ex_edge :: "char \<Rightarrow> char \<Rightarrow> char \<Rightarrow> string \<Rightarrow> edge" where
  "ex_edge i s t resolution = \<lparr>e_id = ex_id i, e_source = ex_id s, e_target_project = ''app'',
     e_kind = ''CALLS'', e_resolution = resolution, e_evidence = [[(''rule'', PStr ''call'')]],
     e_analyzer = ''py'', e_target = Some (ex_id t), e_unresolved = None\<rparr>"

definition ex_graph :: "graph result" where
  "ex_graph = make_graph ''app'' (ex_id CHR ''9'') [ex_node CHR ''a'', ex_node CHR ''b'', ex_node CHR ''c'']
     [ex_edge CHR ''1'' CHR ''b'' CHR ''a'' ''exact_static'',
      ex_edge CHR ''2'' CHR ''c'' CHR ''b'' ''exact_static'']
     (Some [(''status'', PStr ''complete'')]) (Some 1)"

definition set_of_graph :: "graph result \<Rightarrow> graph_set" where
  "set_of_graph r = (case r of Inl _ \<Rightarrow> empty_graph_set
     | Inr g \<Rightarrow> (case make_graph_set [g] [] of Inl _ \<Rightarrow> empty_graph_set | Inr gs \<Rightarrow> gs))"

definition ex_set :: graph_set where
  "ex_set = set_of_graph ex_graph"

lemma set_of_graph_inv: "gs_inv (set_of_graph r)"
  by (auto simp: set_of_graph_def gs_inv_empty dest: make_graph_set_inv split: sum.splits)

lemma ex_set_inv: "gs_inv ex_set"
  by (simp add: ex_set_def set_of_graph_inv)

lemma ex_set_edges:
  "all_edges ex_set = [ex_edge CHR ''1'' CHR ''b'' CHR ''a'' ''exact_static'',
      ex_edge CHR ''2'' CHR ''c'' CHR ''b'' ''exact_static'']"
  by code_simp

lemma ex_set_edge_ids: "inj_on e_id (set (all_edges ex_set))"
  by (simp add: ex_set_edges ex_edge_def ex_id_def)

text \<open>
  What the operations read of the scope. Evaluations rewrite with these facts and keep the ids
  folded: a 64-character id never gets written out.
\<close>

lemma ex_id_eq: "ex_id c = ex_id d \<longleftrightarrow> c = d"
  by (simp add: ex_id_def)

lemma ex_id_short: "length xs < 64 \<Longrightarrow> ex_id c \<noteq> xs" "length xs < 64 \<Longrightarrow> xs \<noteq> ex_id c"
  by (auto simp: ex_id_def)

lemma ex_node_sel:
  "n_id (ex_node c) = ex_id c" "n_qualified (ex_node c) = [CHR ''m'', CHR ''.'', c, c]"
  "n_name (ex_node c) = [c, c]" "n_kind (ex_node c) = ''Function''" "n_project (ex_node c) = ''app''"
  by (simp_all add: ex_node_def)

lemma ex_nodes_sorted: "nodes_sorted ex_set = [ex_node CHR ''a'', ex_node CHR ''b'', ex_node CHR ''c'']"
  by code_simp

lemma ex_gs_nodes: "gs_nodes ex_set = map (\<lambda>c. (ex_id c, ex_node c)) ''abc''"
  by code_simp

lemma ex_gs_node: "c \<in> set ''abc'' \<Longrightarrow> gs_node ex_set (ex_id c) = Inr (ex_node c)"
  by (auto simp: gs_node_def ex_gs_nodes ex_id_eq)

lemma ex_project_ids: "project_ids ex_set = [''app'']"
  by code_simp

end
