(* ===== verification/Texts.thy ===== *)
theory Texts
  imports Values
begin

text \<open>
  Text operations of the standard library that several components use: prefixes, suffixes and
  substrings, \<open>str.strip\<close>, and \<open>str.split\<close> with a separator.
\<close>

section \<open>Text comparisons\<close>

definition starts_with :: "string \<Rightarrow> string \<Rightarrow> bool" where
  "starts_with p s = (take (length p) s = p)"

definition ends_with :: "string \<Rightarrow> string \<Rightarrow> bool" where
  "ends_with p s = (length p \<le> length s \<and> drop (length s - length p) s = p)"

fun contains_text :: "string \<Rightarrow> string \<Rightarrow> bool" where
  "contains_text p [] = (p = [])"
| "contains_text p (c # s) = (starts_with p (c # s) \<or> contains_text p s)"

lemma starts_with_iff: "starts_with p s \<longleftrightarrow> (\<exists>b. s = p @ b)"
  unfolding starts_with_def by (metis append_eq_conv_conj)

lemma contains_text_iff: "contains_text p s \<longleftrightarrow> (\<exists>a b. s = a @ p @ b)"
proof (induction s)
  case Nil
  then show ?case by simp
next
  case (Cons c s)
  have "(\<exists>a b. c # s = a @ p @ b) \<longleftrightarrow> (\<exists>b. c # s = p @ b) \<or> (\<exists>a b. s = a @ p @ b)"
    by (metis append_Cons append_Nil list.exhaust list.inject)
  with Cons show ?case by (simp add: starts_with_iff)
qed

section \<open>Stripping whitespace\<close>

text \<open>
  \<open>str.strip()\<close> on UTF-8: the encodings of the code points for which \<open>str.isspace\<close> holds, removed from
  both ends. No encoding is a suffix of another code point's, so bytes and code points agree.
\<close>

definition SPACES :: "string list" where
  "SPACES = map (\<lambda>c. [c]) [CHR 0x09, CHR 0x0A, CHR 0x0B, CHR 0x0C, CHR 0x0D, CHR 0x1C, CHR 0x1D, CHR 0x1E,
       CHR 0x1F, CHR 0x20]
     @ [[CHR 0xC2, CHR 0x85], [CHR 0xC2, CHR 0xA0], [CHR 0xE1, CHR 0x9A, CHR 0x80]]
     @ map (\<lambda>c. [CHR 0xE2, CHR 0x80, c]) [CHR 0x80, CHR 0x81, CHR 0x82, CHR 0x83, CHR 0x84, CHR 0x85,
         CHR 0x86, CHR 0x87, CHR 0x88, CHR 0x89, CHR 0x8A, CHR 0xA8, CHR 0xA9, CHR 0xAF]
     @ [[CHR 0xE2, CHR 0x81, CHR 0x9F], [CHR 0xE3, CHR 0x80, CHR 0x80]]"

function strip_front :: "string list \<Rightarrow> string \<Rightarrow> string" where
  "strip_front spaces s =
     (case find (\<lambda>w. w \<noteq> [] \<and> starts_with w s) spaces of
        None \<Rightarrow> s
      | Some w \<Rightarrow> strip_front spaces (drop (length w) s))"
  by pat_completeness auto
termination
  by (relation "measure (\<lambda>(_, s). length s)") (auto simp: find_Some_iff starts_with_iff)

declare strip_front.simps [simp del]

definition strip :: "string \<Rightarrow> string" where
  "strip s = rev (strip_front (map rev SPACES) (rev (strip_front SPACES s)))"

section \<open>Splitting\<close>

lemma split_on_join: "join_with [sep] (split_on sep s) = s"
  by (induction s) (auto split: list.splits simp: neq_Nil_conv elim: join_with.elims)

lemma split_on_parts: "seg \<in> set (split_on sep s) \<Longrightarrow> set seg \<subseteq> set s - {sep}"
proof (induction s arbitrary: seg)
  case (Cons c s)
  obtain t ts where t: "split_on sep s = t # ts" by (cases "split_on sep s") auto
  then have "set t \<subseteq> set s - {sep}" "u \<in> set ts \<Longrightarrow> set u \<subseteq> set s - {sep}" for u
    using Cons.IH by auto
  with Cons.prems t show ?case by (auto split: if_splits)
qed simp

lemma split_on_single: "sep \<notin> set s \<Longrightarrow> split_on sep s = [s]"
  by (induction s) auto

end
