(* ===== verification/Selectors.thy ===== *)
theory Selectors
  imports Examples Texts
begin

text \<open>
  Selectors of \<open>query/model.py\<close>: how a text ranks a node (\<open>_rank\<close>), the ranked candidates
  (\<open>match\<close>), the refusal to guess between ties (\<open>resolve\<close>), and the unresolved edges that name
  a node (\<open>unresolved_references\<close>).
\<close>

section \<open>Ranking\<close>

definition node_rank :: "(string \<Rightarrow> string) \<Rightarrow> node \<Rightarrow> string \<Rightarrow> int" where
  "node_rank cf n selector =
     (let folded = cf selector; q = cf (n_qualified n); m = cf (n_name n) in
      if n_id n = selector then 0
      else if n_qualified n = selector then 1
      else if n_name n = selector then 2
      else if q = folded then 3
      else if m = folded then 4
      else if starts_with folded q \<or> starts_with folded m then 5
      else if contains_text folded q \<or> contains_text folded m then 6
      else -1)"

definition ranked_nodes :: "(string \<Rightarrow> string) \<Rightarrow> graph_set \<Rightarrow> string \<Rightarrow> (int \<times> node) list" where
  "ranked_nodes cf gs selector =
     filter (\<lambda>p. 0 \<le> fst p) (map (\<lambda>n. (node_rank cf n selector, n)) (nodes_sorted gs))"

definition match_nodes :: "(string \<Rightarrow> string) \<Rightarrow> graph_set \<Rightarrow> string \<Rightarrow> node list result" where
  "match_nodes cf gs selector =
     bind_result (text_value (PStr selector) QueryModelError) (\<lambda>sel.
       Inr (map snd (sort_key (\<lambda>p. (fst p, n_qualified (snd p), n_id (snd p)))
              (ranked_nodes cf gs sel))))"

definition resolve :: "(string \<Rightarrow> string) \<Rightarrow> graph_set \<Rightarrow> string \<Rightarrow> node result" where
  "resolve cf gs selector =
     bind_result (match_nodes cf gs selector) (\<lambda>candidates.
       (case candidates of
          [] \<Rightarrow> Inl TargetNotFound
        | c # _ \<Rightarrow>
            (case filter (\<lambda>n. node_rank cf n selector = node_rank cf c selector) candidates of
               [] \<Rightarrow> Inl PyValueError
             | t # ts \<Rightarrow> if ts \<noteq> [] then Inl (TargetAmbiguous selector (map n_id (t # ts)))
                          else Inr t)))"

definition unresolved_references :: "(string \<Rightarrow> string) \<Rightarrow> graph_set \<Rightarrow> node \<Rightarrow> edge list" where
  "unresolved_references cf gs n =
     (let folded_name = cf (n_name n); folded_qualified = cf (n_qualified n) in
      filter (\<lambda>e. \<not> edge_resolved e
                  \<and> (let named = cf (case e_unresolved e of None \<Rightarrow> [] | Some u \<Rightarrow> u) in
                     named = folded_name \<or> named = folded_qualified
                     \<or> ends_with (CHR ''.'' # folded_name) named))
             (edges_sorted gs))"

section \<open>What resolution returns\<close>

lemma set_nodes_sorted: "gs_inv gs \<Longrightarrow> set (nodes_sorted gs) = snd ` set (gs_nodes gs)"
  by (simp add: nodes_sorted_def gs_inv_def keyed_by_def set_values_by_key)

lemma gs_node_iff:
  "gs_inv gs \<Longrightarrow> gs_node gs nid = Inr n \<longleftrightarrow> n \<in> set (nodes_sorted gs) \<and> n_id n = nid"
proof -
  assume inv: "gs_inv gs"
  then have k: "keyed_by n_id (gs_nodes gs)" by (simp add: gs_inv_def)
  have "gs_node gs nid = Inr n \<longleftrightarrow> map_of (gs_nodes gs) nid = Some n"
    by (simp add: gs_node_def split: option.splits)
  also have "\<dots> \<longleftrightarrow> (nid, n) \<in> set (gs_nodes gs)"
    using k by (simp add: keyed_by_def)
  also have "\<dots> \<longleftrightarrow> n \<in> snd ` set (gs_nodes gs) \<and> n_id n = nid"
    using k by (force simp: keyed_by_def)
  finally show ?thesis by (simp add: set_nodes_sorted [OF inv])
qed

lemma match_nodes_set:
  "match_nodes cf gs sel = Inr ns \<Longrightarrow>
     set ns = {n \<in> set (nodes_sorted gs). 0 \<le> node_rank cf n sel}"
  by (force simp: match_nodes_def ranked_nodes_def result_simps)

lemma distinct_nodes_sorted: "gs_inv gs \<Longrightarrow> distinct (map n_id (nodes_sorted gs))"
  by (simp add: nodes_sorted_def keyed_by_values gs_inv_def keyed_by_def)

lemma match_nodes_distinct:
  assumes "match_nodes cf gs sel = Inr ns" "gs_inv gs"
  shows "distinct (map n_id ns)"
proof -
  let ?r = "ranked_nodes cf gs sel"
  have "map n_id (map snd ?r) = map n_id (filter (\<lambda>n. 0 \<le> node_rank cf n sel) (nodes_sorted gs))"
    by (simp add: ranked_nodes_def filter_map comp_def)
  then have "distinct (map (\<lambda>p. n_id (snd p)) ?r)"
    using distinct_nodes_sorted [OF assms(2)] by (simp add: distinct_map_filter comp_def)
  moreover have "ns = map snd (sort_key (\<lambda>p. (fst p, n_qualified (snd p), n_id (snd p))) ?r)"
    using assms(1) by (simp add: match_nodes_def result_simps)
  ultimately show ?thesis
    by (simp add: comp_def distinct_map distinct_sort)
qed

lemma match_nodes_sorted:
  assumes "match_nodes cf gs sel = Inr ns"
  shows "sorted (map (\<lambda>n. (node_rank cf n sel, n_qualified n, n_id n)) ns)"
proof -
  let ?key = "\<lambda>p. (fst p, n_qualified (snd p), n_id (snd p))"
  let ?s = "sort_key ?key (ranked_nodes cf gs sel)"
  have ns: "ns = map snd ?s" "sel \<noteq> []"
    using assms by (auto simp: match_nodes_def result_simps)
  have "map (\<lambda>n. (node_rank cf n sel, n_qualified n, n_id n)) ns
      = map (\<lambda>p. (node_rank cf (snd p) sel, n_qualified (snd p), n_id (snd p))) ?s"
    by (simp add: ns(1) comp_def)
  also have "\<dots> = map ?key ?s"
    by (rule map_cong) (auto simp: ranked_nodes_def)
  also have "sorted (map ?key ?s)" by (rule sorted_sort_key)
  finally show ?thesis .
qed

text \<open>The nodes of best rank: what a selector denotes before ties are refused.\<close>

definition best_matches :: "(string \<Rightarrow> string) \<Rightarrow> graph_set \<Rightarrow> string \<Rightarrow> node set" where
  "best_matches cf gs sel =
     {n \<in> set (nodes_sorted gs). 0 \<le> node_rank cf n sel
        \<and> (\<forall>m \<in> set (nodes_sorted gs). 0 \<le> node_rank cf m sel \<longrightarrow> node_rank cf n sel \<le> node_rank cf m sel)}"

lemma argmin_eq:
  "c \<in> X \<Longrightarrow> \<forall>n \<in> X. r c \<le> r n \<Longrightarrow> {n \<in> X. r n = r c} = {n \<in> X. \<forall>m \<in> X. r n \<le> (r m :: int)}"
  by force

lemma match_nodes_best:
  assumes "match_nodes cf gs sel = Inr (c # cs)"
  shows "set (filter (\<lambda>n. node_rank cf n sel = node_rank cf c sel) (c # cs)) = best_matches cf gs sel"
proof -
  let ?X = "{n \<in> set (nodes_sorted gs). 0 \<le> node_rank cf n sel}"
  have S: "set (c # cs) = ?X"
    using match_nodes_set [OF assms] .
  then have "c \<in> ?X" by auto
  moreover have "\<forall>n \<in> set (c # cs). node_rank cf c sel \<le> node_rank cf n sel"
    using match_nodes_sorted [OF assms] by (auto simp: less_eq_prod_def)
  then have "\<forall>n \<in> ?X. node_rank cf c sel \<le> node_rank cf n sel"
    by (simp only: S)
  ultimately have "{n \<in> ?X. node_rank cf n sel = node_rank cf c sel}
      = {n \<in> ?X. \<forall>m \<in> ?X. node_rank cf n sel \<le> node_rank cf m sel}"
    by (rule argmin_eq)
  also have "\<dots> = best_matches cf gs sel"
    by (auto simp: best_matches_def)
  finally show ?thesis
    by (simp only: set_filter S)
qed

definition pick_unique :: "string \<Rightarrow> node list \<Rightarrow> node result" where
  "pick_unique sel ts =
     (case ts of [] \<Rightarrow> Inl TargetNotFound | t # us \<Rightarrow>
        if us = [] then Inr t else Inl (TargetAmbiguous sel (map n_id ts)))"

lemma resolve_cases:
  assumes "match_nodes cf gs sel = Inr ns"
  shows "resolve cf gs sel =
    pick_unique sel (filter (\<lambda>n. node_rank cf n sel = node_rank cf (hd ns) sel) ns)"
  by (cases ns) (auto simp: resolve_def pick_unique_def assms split: list.splits)

lemma distinct_singleton_list: "distinct ts \<Longrightarrow> ts = [n] \<longleftrightarrow> set ts = {n}"
proof
  assume "distinct ts" "set ts = {n}"
  then have "length ts = 1" using distinct_card [of ts] by simp
  with \<open>set ts = {n}\<close> show "ts = [n]" by (cases ts) auto
qed simp

lemma resolve_empty: "resolve cf gs [] = Inl QueryModelError"
  by (simp add: resolve_def match_nodes_def text_value_def)

lemma match_nodes_ok: "sel \<noteq> [] \<Longrightarrow> \<exists>ns. match_nodes cf gs sel = Inr ns"
  by (simp add: match_nodes_def text_value_def)

text \<open>
  The list of tied candidates: it holds the best matches, once each, and resolution reads it.
\<close>

lemma resolve_tied:
  assumes "gs_inv gs" "sel \<noteq> []"
  obtains ts where "set ts = best_matches cf gs sel" "distinct (map n_id ts)"
    "resolve cf gs sel = pick_unique sel ts"
proof -
  obtain ns where ns: "match_nodes cf gs sel = Inr ns"
    using match_nodes_ok [OF assms(2)] by blast
  let ?ts = "filter (\<lambda>n. node_rank cf n sel = node_rank cf (hd ns) sel) ns"
  have "set ?ts = best_matches cf gs sel"
  proof (cases ns)
    case Nil
    then show ?thesis
      using match_nodes_set [OF ns] by (auto simp: best_matches_def)
  next
    case (Cons c cs)
    then show ?thesis
      using match_nodes_best [of cf gs sel c cs] ns by simp
  qed
  moreover have "distinct (map n_id ?ts)"
    using match_nodes_distinct [OF ns assms(1)] by (rule distinct_map_filter)
  ultimately show ?thesis
    using resolve_cases [OF ns] by (rule that)
qed

text \<open>
  A selector resolves to a node exactly when that node alone has the best match rank among all
  pinned nodes: an id match beats a qualified name, a qualified name beats a name, and a tie or a
  miss never yields a node.
\<close>

theorem resolve_unique_best:
  assumes "gs_inv gs"
  shows "resolve cf gs sel = Inr n \<longleftrightarrow> sel \<noteq> [] \<and> best_matches cf gs sel = {n}"
proof (cases "sel = []")
  case True
  then show ?thesis by (simp add: resolve_empty)
next
  case False
  obtain ts where ts: "set ts = best_matches cf gs sel" "distinct (map n_id ts)"
    "resolve cf gs sel = pick_unique sel ts"
    using resolve_tied [OF assms False] by blast
  have "distinct ts"
    using ts(2) by (simp add: distinct_map)
  then have "ts = [n] \<longleftrightarrow> set ts = {n}"
    by (rule distinct_singleton_list)
  moreover have "resolve cf gs sel = Inr n \<longleftrightarrow> ts = [n]"
    by (auto simp: ts(3) pick_unique_def split: list.splits)
  ultimately show ?thesis
    using False ts(1) by simp
qed

text \<open>
  An ambiguous selector is reported with every tied candidate, each once, and with at least two
  of them: the candidates a caller sees are exactly the pinned nodes of best rank.
\<close>

theorem resolve_ambiguous_candidates:
  assumes "gs_inv gs" and "resolve cf gs sel = Inl (TargetAmbiguous t ids)"
  shows "t = sel \<and> set ids = n_id ` best_matches cf gs sel \<and> distinct ids \<and> 2 \<le> length ids"
proof -
  have "sel \<noteq> []"
    using assms(2) by (auto simp: resolve_empty)
  then obtain ts where ts: "set ts = best_matches cf gs sel" "distinct (map n_id ts)"
    "resolve cf gs sel = pick_unique sel ts"
    using resolve_tied [OF assms(1)] by blast
  then have "t = sel" "ids = map n_id ts" "2 \<le> length ts"
    using assms(2) by (auto simp: pick_unique_def Suc_le_eq split: list.splits if_splits)
  with ts(1,2) show ?thesis by (metis length_map list.set_map)
qed

theorem resolve_unique_best_witness:
  "\<exists>n. resolve (\<lambda>s. s) ex_set ''aa'' = Inr n \<and> best_matches (\<lambda>s. s) ex_set ''aa'' = {n}"
proof -
  have "returns (resolve (\<lambda>s. s) ex_set ''aa'') (\<lambda>n. True)"
    by code_simp
  then obtain n where "resolve (\<lambda>s. s) ex_set ''aa'' = Inr n"
    unfolding returns_iff by blast
  with resolve_unique_best [OF ex_set_inv, of "\<lambda>s. s" "''aa''" n] show ?thesis by blast
qed

text \<open>Two nodes of one name: resolving the name is ambiguous.\<close>

definition ex_twins :: graph_set where
  "ex_twins = set_of_graph (make_graph ''app'' (ex_id CHR ''9'')
     [ex_node CHR ''a'', (ex_node CHR ''b'')\<lparr>n_name := ''aa''\<rparr>] [] None None)"

theorem resolve_ambiguous_candidates_witness:
  "\<exists>t ids. resolve (\<lambda>s. s) ex_twins ''aa'' = Inl (TargetAmbiguous t ids)
     \<and> set ids = n_id ` best_matches (\<lambda>s. s) ex_twins ''aa'' \<and> 2 \<le> length ids"
proof -
  have "resolve (\<lambda>s. s) ex_twins ''aa'' = Inl (TargetAmbiguous ''aa'' [ex_id CHR ''a'', ex_id CHR ''b''])"
    by code_simp
  moreover have "gs_inv ex_twins" by (simp add: ex_twins_def set_of_graph_inv)
  ultimately show ?thesis using resolve_ambiguous_candidates by blast
qed

end
