(* ===== verification/Layers.thy ===== *)
theory Layers
  imports Main
begin

text \<open>
  Distance layers of a relation, the specification both breadth-first searches of the program are
  proved against: \<open>ball R S n\<close> are the points at most \<open>n\<close> hops from \<open>S\<close>, \<open>sphere R S n\<close> those that
  first appear at \<open>n\<close>.
\<close>

definition ball :: "('a \<Rightarrow> 'a \<Rightarrow> bool) \<Rightarrow> 'a set \<Rightarrow> nat \<Rightarrow> 'a set" where
  "ball R S n = {v. \<exists>r \<in> S. \<exists>k \<le> n. (R ^^ k) r v}"

definition image_of :: "('a \<Rightarrow> 'a \<Rightarrow> bool) \<Rightarrow> 'a set \<Rightarrow> 'a set" where
  "image_of R X = {v. \<exists>u \<in> X. R u v}"

fun sphere :: "('a \<Rightarrow> 'a \<Rightarrow> bool) \<Rightarrow> 'a set \<Rightarrow> nat \<Rightarrow> 'a set" where
  "sphere R S 0 = S"
| "sphere R S (Suc n) = ball R S (Suc n) - ball R S n"

lemma image_of_mono: "X \<subseteq> Y \<Longrightarrow> image_of R X \<subseteq> image_of R Y"
  by (auto simp: image_of_def)

lemma ball_0 [simp]: "ball R S 0 = S"
  by (auto simp: ball_def)

lemma ball_mono: "m \<le> n \<Longrightarrow> ball R S m \<subseteq> ball R S n"
  unfolding ball_def using le_trans by blast

lemma ball_mono_rel:
  assumes "\<And>u v. R u v \<Longrightarrow> T u v"
  shows "ball R S n \<subseteq> ball T S n"
proof -
  have "(R ^^ k) u v \<Longrightarrow> (T ^^ k) u v" for k u v
    by (induction k arbitrary: v) (auto dest: assms)
  then show ?thesis unfolding ball_def by blast
qed

lemma ball_Suc: "ball R S (Suc n) = ball R S n \<union> image_of R (ball R S n)"
proof
  show "ball R S (Suc n) \<subseteq> ball R S n \<union> image_of R (ball R S n)"
  proof
    fix v assume "v \<in> ball R S (Suc n)"
    then obtain r k where rk: "r \<in> S" "k \<le> Suc n" "(R ^^ k) r v"
      by (auto simp: ball_def)
    show "v \<in> ball R S n \<union> image_of R (ball R S n)"
    proof (cases "k \<le> n")
      case True
      with rk show ?thesis by (auto simp: ball_def)
    next
      case False
      with rk(2) have "k = Suc n" by simp
      with rk(3) obtain u where "(R ^^ n) r u" "R u v" by auto
      with rk(1) show ?thesis unfolding ball_def image_of_def by blast
    qed
  qed
  show "ball R S n \<union> image_of R (ball R S n) \<subseteq> ball R S (Suc n)"
    unfolding ball_def image_of_def using relpowp_Suc_I le_SucI Suc_le_mono by fast
qed

lemma sphere_subset_ball: "sphere R S n \<subseteq> ball R S n"
  by (cases n) auto

lemma ball_Suc_sphere: "ball R S (Suc n) = ball R S n \<union> image_of R (sphere R S n)"
proof (cases n)
  case 0
  then show ?thesis using ball_Suc [of R S 0] by simp
next
  case (Suc m)
  have "image_of R (ball R S m) \<subseteq> ball R S n"
    using ball_Suc [of R S m] Suc by auto
  moreover have "ball R S n = ball R S m \<union> sphere R S n"
    using Suc ball_mono [of m n R S] by auto
  ultimately show ?thesis
    unfolding ball_Suc [of R S n] by (auto simp: image_of_def)
qed

lemma sphere_Suc: "sphere R S (Suc n) = image_of R (sphere R S n) - ball R S n"
  using ball_Suc_sphere [of R S n] by auto

lemma ball_stable: "sphere R S n = {} \<Longrightarrow> n \<le> m \<Longrightarrow> ball R S m = ball R S n"
proof (induction m)
  case 0
  then show ?case by simp
next
  case (Suc m)
  show ?case
  proof (cases "n \<le> m")
    case True
    with Suc have eq: "ball R S m = ball R S n" by simp
    have "image_of R (ball R S n) \<subseteq> ball R S n"
      using ball_Suc [of R S n] ball_Suc_sphere [of R S n] Suc.prems(1) by (auto simp: image_of_def)
    with eq show ?thesis by (simp add: ball_Suc Un_absorb2)
  next
    case False
    with Suc.prems(2) show ?thesis by (simp add: le_Suc_eq)
  qed
qed

definition reach :: "('a \<Rightarrow> 'a \<Rightarrow> bool) \<Rightarrow> 'a set \<Rightarrow> 'a set" where
  "reach R S = {v. \<exists>r \<in> S. R\<^sup>*\<^sup>* r v}"

lemma reach_Union_ball: "reach R S = (\<Union>n. ball R S n)"
  by (auto simp: reach_def ball_def rtranclp_power)

lemma reach_eq_ball:
  assumes "sphere R S n = {}"
  shows "reach R S = ball R S n"
proof -
  have "ball R S m \<subseteq> ball R S n" for m
    using ball_stable [OF assms, of m] ball_mono [of m n R S] by (cases "n \<le> m") auto
  then show ?thesis
    by (auto simp: reach_Union_ball)
qed

lemma ball_subset_reach: "ball R S n \<subseteq> reach R S"
  by (auto simp: reach_Union_ball)

lemma ball_closed: "ball R S (Suc n) = ball R S n \<Longrightarrow> reach R S = ball R S n"
  using reach_eq_ball [of R S "Suc n"] by simp

end
