(* ===== verification/Projection.thy ===== *)
theory Projection
  imports Walk
begin

text \<open>
  The projection part of \<open>query/context.py\<close>: the requested sections in canonical order and the
  document of one projected node, and the helpers the operations share: the candidate list of an
  ambiguous target, the counters per edge kind and per project, and the warnings. A warning is kept
  as its tag with the texts and the numbers its message interpolates.
\<close>

text \<open>The scope an operation reads: \<open>narrow_scope(as_graph_set(scope), project_ids)\<close>.\<close>

definition narrowed :: "scope \<Rightarrow> string list option \<Rightarrow> graph_set result" where
  "narrowed sc projects = bind_result (as_graph_set sc) (\<lambda>s. narrow_scope s projects)"

text \<open>The id a projected node document carries.\<close>

definition doc_id :: "pyval \<Rightarrow> string" where
  "doc_id d = (case d of PDict kvs \<Rightarrow> (case map_of kvs ''id'' of Some (PStr s) \<Rightarrow> s | _ \<Rightarrow> []) | _ \<Rightarrow> [])"

lemma map_PStr_inject [simp]: "map PStr xs = map PStr ys \<longleftrightarrow> xs = ys"
  by (rule inj_map_eq_map) (simp add: inj_def)

datatype warning = Warning string "string list" "int list"

definition strings :: "string list \<Rightarrow> pyval" where
  "strings xs = PList (map PStr xs)"

definition counts_document :: "(string, nat) dict \<Rightarrow> pyval" where
  "counts_document d = PDict (map (\<lambda>p. (fst p, PInt (int (snd p)))) d)"

definition text_or_none :: "string option \<Rightarrow> pyval" where
  "text_or_none t = (case t of None \<Rightarrow> PNone | Some s \<Rightarrow> PStr s)"

definition DEFAULT_PROJECTION :: "string list" where
  "DEFAULT_PROJECTION = [''identity'', ''source_locations'']"

definition normalise_projection :: "pyval \<Rightarrow> string list result" where
  "normalise_projection projection =
     (if projection = PNone then Inr DEFAULT_PROJECTION
      else bind_result (choice_list projection PROJECTIONS None) (\<lambda>requested.
        if requested = [] then Inl LimitRejected
        else Inr (filter (\<lambda>p. p \<in> set requested \<or> p = ''identity'') PROJECTIONS)))"

definition identity_items :: "node \<Rightarrow> (string, pyval) dict" where
  "identity_items n =
     [(''id'', PStr (n_id n)), (''project_id'', PStr (n_project n)), (''kind'', PStr (n_kind n)),
      (''name'', PStr (n_name n)), (''qualified_name'', PStr (n_qualified n)),
      (''language'', PStr (n_language n)), (''identity_quality'', PStr (n_quality n))]"

text \<open>\<open>relations\<close> is the pair of incoming and outgoing edge ids, empty when the caller passes none.\<close>

definition project_node ::
  "node \<Rightarrow> string list \<Rightarrow> string list \<times> string list \<Rightarrow> (string, pyval) dict \<Rightarrow> pyval" where
  "project_node n sections relations coverage =
     PDict (identity_items n
       @ (if ''source_locations'' \<in> set sections then [(''source'', source_as_document (n_source n))] else [])
       @ (if ''relations'' \<in> set sections
          then [(''relations'', PDict [(''incoming'', PList (map PStr (sort (fst relations)))),
                                      (''outgoing'', PList (map PStr (sort (snd relations))))])]
          else [])
       @ (if ''coverage'' \<in> set sections then [(''coverage'', PDict coverage)] else []))"

definition candidate_documents :: "graph_set \<Rightarrow> string list \<Rightarrow> string list \<Rightarrow> pyval list result" where
  "candidate_documents gs ids sections =
     map_result (\<lambda>nid. bind_result (gs_node gs nid) (\<lambda>n. Inr (project_node n sections ([], []) [])))
       (sort ids)"

text \<open>A node of a result, with the coverage block of the generation that pins it.\<close>

definition projected :: "graph_set \<Rightarrow> string list \<Rightarrow> node \<Rightarrow> pyval result" where
  "projected gs sections n =
     bind_result (gs_graph gs (n_project n)) (\<lambda>g.
       Inr (project_node n sections ([], []) (coverage_document g)))"

text \<open>\<open>counts[key] = counts.get(key, 0) + 1\<close> over the items.\<close>

definition count_by :: "('a \<Rightarrow> string) \<Rightarrow> 'a list \<Rightarrow> (string, nat) dict \<Rightarrow> (string, nat) dict" where
  "count_by key xs counts =
     foldl (\<lambda>d x. dict_set (key x) (Suc (case map_of d (key x) of None \<Rightarrow> 0 | Some c \<Rightarrow> c)) d) counts xs"

lemma count_by_get:
  "map_of (count_by key xs d) k =
     (if k \<in> key ` set xs then Some (count_list (map key xs) k + (case map_of d k of None \<Rightarrow> 0 | Some c \<Rightarrow> c))
      else map_of d k)"
proof (induction xs arbitrary: d)
  case Nil
  then show ?case by (simp add: count_by_def)
next
  case (Cons x xs)
  have "count_by key (x # xs) d
      = count_by key xs (dict_set (key x) (Suc (case map_of d (key x) of None \<Rightarrow> 0 | Some c \<Rightarrow> c)) d)"
    by (simp add: count_by_def)
  with Cons show ?case
    by (auto simp: update_conv' count_list_0_iff split: option.splits)
qed

lemma count_by_distinct: "distinct (dict_keys d) \<Longrightarrow> distinct (dict_keys (count_by key xs d))"
proof (induction xs arbitrary: d)
  case (Cons x xs)
  then show ?case by (simp add: count_by_def distinct_update)
qed (simp add: count_by_def)

text \<open>The \<open>try: resolve / except TargetAmbiguous\<close> of every operation, when it returns.\<close>

lemma resolve_case_Inr:
  "(case x of Inl (TargetAmbiguous t ids) \<Rightarrow> f t ids | Inl err \<Rightarrow> Inl err | Inr n \<Rightarrow> g n) = Inr r
     \<longleftrightarrow> (\<exists>t ids. x = Inl (TargetAmbiguous t ids) \<and> f t ids = Inr r) \<or> (\<exists>n. x = Inr n \<and> g n = Inr r)"
  by (cases x; cases "projl x") auto

lemma doc_id_project_node [simp]: "doc_id (project_node n sections rel cov) = n_id n"
  by (simp add: doc_id_def project_node_def identity_items_def)

lemma projected_doc_id: "projected gs sections n = Inr d \<Longrightarrow> doc_id d = n_id n"
  by (auto simp: projected_def result_simps)

lemma projected_identity:
  "projected gs sections n = Inr (PDict d) \<Longrightarrow> map_of d ''id'' = Some (PStr (n_id n))"
  by (auto simp: projected_def project_node_def identity_items_def result_simps)

text \<open>A projected document has the source span exactly when it was asked for, and never more.\<close>

lemma project_node_keys:
  "project_node n sections r c = PDict d \<Longrightarrow>
     dict_keys d = map fst (identity_items n)
       @ filter (\<lambda>s. s \<noteq> []) [if ''source_locations'' \<in> set sections then ''source'' else [],
           if ''relations'' \<in> set sections then ''relations'' else [],
           if ''coverage'' \<in> set sections then ''coverage'' else []]"
  by (auto simp: project_node_def)

end
