(* ===== verification/WalkFacts.thy ===== *)
theory WalkFacts
  imports Walk Examples
begin

text \<open>
  Correctness of the bounded walk. The loop invariant ties the visited nodes to the distance layers
  of the hop relation: always inside the ball of the levels done, and equal to it as long as no
  budget stopped an expansion.
\<close>

section \<open>The hop relation\<close>

definition hop :: "(string \<Rightarrow> edge list) \<Rightarrow> string \<Rightarrow> string \<Rightarrow> string \<Rightarrow> bool" where
  "hop inc direction u v = (\<exists>e \<in> set (inc u). other_end e u direction = Some v)"

definition incident_set :: "(string \<Rightarrow> edge list) \<Rightarrow> string set \<Rightarrow> edge set" where
  "incident_set inc X = (\<Union>u \<in> X. set (inc u))"

lemma set_level_pairs: "set (level_pairs inc current) = {(u, e). u \<in> set current \<and> e \<in> set (inc u)}"
  by (auto simp: level_pairs_def)

lemma far_ends_level: "far_ends d (level_pairs inc current) = image_of (hop inc d) (set current)"
  by (auto simp: far_ends_def set_level_pairs image_of_def hop_def)

lemma snd_level_pairs: "snd ` set (level_pairs inc current) = incident_set inc (set current)"
  by (force simp: set_level_pairs incident_set_def)

section \<open>Visiting\<close>

definition visited_ok :: "graph_set \<Rightarrow> walk_state \<Rightarrow> bool" where
  "visited_ok gs st =
     (distinct (dict_keys (ws_visited st)) \<and> (\<forall>(k, n) \<in> set (ws_visited st). gs_node gs k = Inr n))"

lemma visit_node_facts:
  assumes "visit_node gs st v = Inr st'" "visited_ok gs st"
  shows "visited_ok gs st'" "fst ` set (ws_visited st') = insert v (fst ` set (ws_visited st))"
    "\<exists>d. st' = st\<lparr>ws_visited := d\<rparr>" "v \<notin> fst ` set (ws_visited st) \<Longrightarrow>
       length (ws_visited st') = Suc (length (ws_visited st))"
proof -
  obtain n where n: "gs_node gs v = Inr n" and st': "st' = st\<lparr>ws_visited := dict_set v n (ws_visited st)\<rparr>"
    using assms(1) by (auto simp: visit_node_def result_simps)
  have "gs_node gs (fst p) = Inr (snd p)" if "p \<in> set (dict_set v n (ws_visited st))" for p
    using subsetD [OF dict_set_members that] assms(2) n by (auto simp: visited_ok_def)
  then show "visited_ok gs st'"
    using assms(2) by (auto simp: visited_ok_def st' dict_set_distinct)
  show "fst ` set (ws_visited st') = insert v (fst ` set (ws_visited st))"
    by (simp add: st' dict_set_keys)
  show "\<exists>d. st' = st\<lparr>ws_visited := d\<rparr>"
    using st' by blast
  show "length (ws_visited st') = Suc (length (ws_visited st))" if "v \<notin> fst ` set (ws_visited st)"
    using that by (simp add: st' dict_set_length_new)
qed

lemma visit_fold_facts:
  assumes "fold_result (visit_node gs) st vs = Inr st'" "visited_ok gs st"
  shows "visited_ok gs st' \<and> fst ` set (ws_visited st') = set vs \<union> fst ` set (ws_visited st)
    \<and> (\<exists>d. st' = st\<lparr>ws_visited := d\<rparr>)
    \<and> (distinct vs \<and> set vs \<inter> fst ` set (ws_visited st) = {}
        \<longrightarrow> length (ws_visited st') = length vs + length (ws_visited st))"
  using assms
proof (induction vs arbitrary: st)
  case Nil
  then show ?case by (auto intro: exI [of _ "ws_visited st'"])
next
  case (Cons v vs)
  then obtain st1 where st1: "visit_node gs st v = Inr st1" "fold_result (visit_node gs) st1 vs = Inr st'"
    by (auto simp: result_simps)
  note f = visit_node_facts [OF st1(1) Cons.prems(2)]
  note IH = Cons.IH [OF st1(2) f(1)]
  obtain d d1 where "st' = st1\<lparr>ws_visited := d\<rparr>" "st1 = st\<lparr>ws_visited := d1\<rparr>"
    using IH f(3) by blast
  then have "\<exists>d. st' = st\<lparr>ws_visited := d\<rparr>" by auto
  moreover have "length (ws_visited st') = length (v # vs) + length (ws_visited st)"
    if "distinct (v # vs)" "set (v # vs) \<inter> fst ` set (ws_visited st) = {}"
    using that IH f(2) f(4) by auto
  ultimately show ?case using IH f(2) by auto
qed

section \<open>The loop invariant\<close>

definition walk_inv ::
  "graph_set \<Rightarrow> (string \<Rightarrow> edge list) \<Rightarrow> string \<Rightarrow> string set \<Rightarrow> nat \<Rightarrow> nat \<Rightarrow> string list \<Rightarrow> walk_state \<Rightarrow> bool"
where
  "walk_inv gs inc d S nb l current st =
     (visited_ok gs st \<and> length (ws_visited st) \<le> nb \<and> recorded (incident_set inc UNIV) st
      \<and> set current \<subseteq> fst ` set (ws_visited st) \<and> fst ` set (ws_visited st) \<subseteq> ball (hop inc d) S l
      \<and> (ws_reasons st = [] \<longrightarrow>
           fst ` set (ws_visited st) = ball (hop inc d) S l \<and> set current = sphere (hop inc d) S l
           \<and> edge_keys st = e_id ` incident_set inc (\<Union>m < l. ball (hop inc d) S m)))"

lemma walk_inv_step:
  fixes inc current st d nb eb
  defines "st1 \<equiv> walk_level inc d nb eb current st"
  assumes inv: "walk_inv gs inc d S nb l current st"
    and st2: "fold_result (visit_node gs) st1 (ws_discovered st1) = Inr st2"
  shows "walk_inv gs inc d S nb (Suc l) (ws_discovered st1) st2"
proof -
  let ?R = "hop inc d" and ?V = "fst ` set (ws_visited st)" and ?D = "set (ws_discovered st1)"
  let ?st0 = "st\<lparr>ws_discovered := []\<rparr>" and ?ps = "level_pairs inc current"
  have st1: "st1 = foldl (walk_step d nb eb) ?st0 ?ps"
    by (simp add: st1_def walk_level_fold)
  have vis1: "ws_visited st1 = ws_visited st" by (simp add: st1)
  have ok1: "visited_ok gs st1" using inv by (simp add: walk_inv_def visited_ok_def vis1)
  have D_sound: "?D \<subseteq> image_of ?R (set current) - ?V"
    using walk_fold_discovered_sound [of d nb eb ?st0 ?ps] by (simp add: st1 far_ends_level)
  have dist: "distinct (ws_discovered st1)" by (simp add: st1 walk_fold_distinct)
  note v = visit_fold_facts [OF st2 ok1]
  then obtain dd where dd: "st2 = st1\<lparr>ws_visited := dd\<rparr>" by blast
  have V2: "fst ` set (ws_visited st2) = ?D \<union> ?V" using v vis1 by simp
  have "length (ws_visited st2) = length (ws_discovered st1) + length (ws_visited st)"
    using v dist D_sound vis1 by auto
  moreover have "length (ws_visited st) + length (ws_discovered st1) \<le> nb"
    using walk_fold_node_budget [of ?st0 nb d eb ?ps] inv by (simp add: st1 walk_inv_def)
  ultimately have len: "length (ws_visited st2) \<le> nb" by simp
  have rec: "recorded (incident_set inc UNIV) st2"
    using inv walk_fold_recorded [of "incident_set inc UNIV" ?st0 ?ps d nb eb]
    by (simp add: dd st1 walk_inv_def recorded_def snd_level_pairs) (auto simp: incident_set_def)
  have cur: "set current \<subseteq> ball ?R S l" and Vball: "?V \<subseteq> ball ?R S l"
    using inv by (auto simp: walk_inv_def)
  have sub: "?D \<union> ?V \<subseteq> ball ?R S (Suc l)"
    using D_sound image_of_mono [OF cur, of ?R] Vball unfolding ball_Suc by blast
  have exact: "fst ` set (ws_visited st2) = ball ?R S (Suc l) \<and> ?D = sphere ?R S (Suc l)
      \<and> edge_keys st2 = e_id ` incident_set inc (\<Union>m < Suc l. ball ?R S m)"
    if r: "ws_reasons st2 = []"
  proof -
    have r1: "ws_reasons st1 = []" using r by (simp add: dd)
    then have "ws_reasons st = []" using walk_fold_no_reasons [of d nb eb ?st0 ?ps] by (simp add: st1)
    then have V: "?V = ball ?R S l" and c: "set current = sphere ?R S l"
      and k: "edge_keys st = e_id ` incident_set inc (\<Union>m < l. ball ?R S m)"
      using inv by (auto simp: walk_inv_def)
    have D: "?D = sphere ?R S (Suc l)"
      using walk_fold_discovered [of d nb eb ?st0 ?ps] r1
      by (simp add: st1 far_ends_level c V sphere_Suc del: sphere.simps)
    have "edge_keys st1 = e_id ` incident_set inc (sphere ?R S l) \<union> edge_keys st"
      using walk_fold_keys [of d nb eb ?st0 ?ps] r1
      by (simp add: st1 snd_level_pairs c) (simp add: edge_keys_def)
    moreover have "(\<Union>m < Suc l. ball ?R S m) = sphere ?R S l \<union> (\<Union>m < l. ball ?R S m)"
      using sphere_subset_ball [of ?R S l] by (cases l) (auto simp: less_Suc_eq)
    ultimately have "edge_keys st1 = e_id ` incident_set inc (\<Union>m < Suc l. ball ?R S m)"
      using k by (simp add: incident_set_def UN_Un image_Un)
    then have "edge_keys st2 = e_id ` incident_set inc (\<Union>m < Suc l. ball ?R S m)"
      by (simp add: dd edge_keys_def)
    moreover have "?D \<union> ball ?R S l = ball ?R S (Suc l)"
      using D ball_mono [of l "Suc l" ?R S] by auto
    ultimately show ?thesis using D V2 V by simp
  qed
  show ?thesis
    unfolding walk_inv_def V2
  proof (intro conjI)
    show "visited_ok gs st2" by (rule conjunct1 [OF v])
    show "ws_reasons st2 = [] \<longrightarrow> ?D \<union> ?V = ball ?R S (Suc l) \<and> ?D = sphere ?R S (Suc l)
        \<and> edge_keys st2 = e_id ` incident_set inc (\<Union>m < Suc l. ball ?R S m)"
      using exact unfolding V2 by (rule impI)
  qed (use len rec sub in blast)+
qed

lemma walk_inv_stable:
  assumes "walk_inv gs inc d S nb l [] st"
  shows "walk_inv gs inc d S nb (l + k) [] st"
proof -
  let ?R = "hop inc d"
  have "ball ?R S l \<subseteq> ball ?R S (l + k)" by (rule ball_mono) simp
  moreover have "ball ?R S (l + k) = ball ?R S l \<and> sphere ?R S (l + k) = {}
      \<and> (\<Union>m < l + k. ball ?R S m) = (\<Union>m < l. ball ?R S m)" if "sphere ?R S l = {}"
  proof (cases l)
    case 0
    with that have "S = {}" by simp
    then have "ball ?R S n = {}" for n by (simp add: ball_def)
    moreover from this have "sphere ?R S n = {}" for n using sphere_subset_ball [of ?R S n] by simp
    ultimately show ?thesis by simp
  next
    case (Suc j)
    have stab: "ball ?R S m = ball ?R S l" if "l \<le> m" for m
      using ball_stable [OF \<open>sphere ?R S l = {}\<close> that] .
    have j: "ball ?R S j = ball ?R S l"
      using \<open>sphere ?R S l = {}\<close> Suc ball_mono [of j "Suc j" ?R S] by auto
    have all: "ball ?R S m \<subseteq> ball ?R S j" for m
      using stab [of m] ball_mono [of m j ?R S] Suc j by (cases "l \<le> m") auto
    have "(\<Union>m < n. ball ?R S m) = ball ?R S j" if "l \<le> n" for n
      using all that Suc by (auto intro!: bexI [of _ j])
    moreover have "sphere ?R S (l + k) = {}"
      using Suc stab [of "j + k"] stab [of "l + k"] j by (cases k) (auto simp: that)
    ultimately show ?thesis using stab [of "l + k"] by simp
  qed
  ultimately show ?thesis
    using assms by (auto simp: walk_inv_def)
qed

lemma walk_levels_inv:
  assumes "walk_levels gs inc d nb eb left level current reached st = Inr (reached', st')"
    and "walk_inv gs inc d S nb l current st"
  shows "\<exists>current'. walk_inv gs inc d S nb (l + left) current' st'"
  using assms
proof (induction left arbitrary: level current reached st l)
  case 0
  then show ?case by auto
next
  case (Suc left)
  show ?case
  proof (cases "current = []")
    case True
    with Suc.prems walk_inv_stable [of gs inc d S nb l st "Suc left"] show ?thesis by auto
  next
    case False
    let ?st1 = "walk_level inc d nb eb current st"
    obtain st2 where st2: "fold_result (visit_node gs) ?st1 (ws_discovered ?st1) = Inr st2"
      and rest: "walk_levels gs inc d nb eb left (Suc level) (ws_discovered ?st1)
        (if ws_discovered ?st1 \<noteq> [] then level else reached) st2 = Inr (reached', st')"
      using Suc.prems(1) False by (auto simp: Let_def result_simps)
    have "walk_inv gs inc d S nb (Suc l) (ws_discovered ?st1) st2"
      using walk_inv_step [OF Suc.prems(2) st2] .
    from Suc.IH [OF rest this] show ?thesis by simp
  qed
qed

section \<open>Roots\<close>

lemma visit_roots_facts:
  assumes "visit_roots gs nb roots st = Inr st'" "visited_ok gs st" "distinct roots"
    "set roots \<inter> fst ` set (ws_visited st) = {}" "length (ws_visited st) \<le> nb"
  shows "visited_ok gs st' \<and> fst ` set (ws_visited st') \<subseteq> fst ` set (ws_visited st) \<union> set roots
    \<and> length (ws_visited st') \<le> nb
    \<and> ws_walked st' = ws_walked st \<and> ws_unresolved st' = ws_unresolved st
    \<and> (ws_reasons st' = [] \<longrightarrow> fst ` set (ws_visited st') = fst ` set (ws_visited st) \<union> set roots)"
  using assms
proof (induction roots arbitrary: st)
  case Nil
  then show ?case by simp
next
  case (Cons v roots)
  show ?case
  proof (cases "length (ws_visited st) \<ge> nb")
    case True
    with Cons.prems have "st' = stop_at ''max_nodes'' v st" by simp
    with Cons.prems show ?thesis by (simp add: visited_ok_def) blast
  next
    case False
    then obtain st1 where st1: "visit_node gs st v = Inr st1" "visit_roots gs nb roots st1 = Inr st'"
      using Cons.prems(1) by (auto simp: result_simps)
    note f = visit_node_facts [OF st1(1) Cons.prems(2)]
    have "length (ws_visited st1) \<le> nb" using f(4) False Cons.prems(4) by auto
    moreover have "set roots \<inter> fst ` set (ws_visited st1) = {}"
      using Cons.prems(3,4) f(2) by auto
    moreover have "ws_walked st1 = ws_walked st" "ws_unresolved st1 = ws_unresolved st"
      using f(3) by auto
    ultimately show ?thesis
      using Cons.IH [OF st1(2) f(1)] Cons.prems(3) f(2) by auto
  qed
qed

lemma walk_inv_init:
  assumes "visit_roots gs nb roots empty_walk_state = Inr st" "distinct roots"
  shows "walk_inv gs inc d (set roots) nb 0 (filter (dict_has (ws_visited st)) roots) st"
proof -
  have f: "visited_ok gs st" "fst ` set (ws_visited st) \<subseteq> set roots" "length (ws_visited st) \<le> nb"
    "ws_walked st = []" "ws_unresolved st = []"
    "ws_reasons st = [] \<longrightarrow> fst ` set (ws_visited st) = set roots"
    using visit_roots_facts [OF assms(1) _ assms(2)] by (auto simp: empty_walk_state_def visited_ok_def)
  then show ?thesis
    by (auto simp: walk_inv_def recorded_def edge_keys_def incident_set_def dict_has_iff)
qed

section \<open>Edge budget\<close>

lemma walk_levels_edge_budget:
  assumes "walk_levels gs inc d nb eb left level current reached st = Inr (reached', st')"
    "recorded (incident_set inc UNIV) st" "inj_on e_id (incident_set inc UNIV)" "edges_count st \<le> eb"
    "visited_ok gs st"
  shows "edges_count st' \<le> eb"
  using assms
proof (induction left arbitrary: level current reached st)
  case 0
  then show ?case by simp
next
  case (Suc left)
  show ?case
  proof (cases "current = []")
    case True
    with Suc.prems show ?thesis by simp
  next
    case False
    let ?E = "incident_set inc UNIV" and ?st0 = "st\<lparr>ws_discovered := []\<rparr>" and ?ps = "level_pairs inc current"
    let ?st1 = "walk_level inc d nb eb current st"
    obtain st2 where st2: "fold_result (visit_node gs) ?st1 (ws_discovered ?st1) = Inr st2"
      and rest: "walk_levels gs inc d nb eb left (Suc level) (ws_discovered ?st1)
        (if ws_discovered ?st1 \<noteq> [] then level else reached) st2 = Inr (reached', st')"
      using Suc.prems(1) False by (auto simp: Let_def result_simps)
    have E: "snd ` set ?ps \<subseteq> ?E"
      by (auto simp: snd_level_pairs incident_set_def)
    have rec0: "recorded ?E ?st0" "edges_count ?st0 \<le> eb"
      using Suc.prems(2,4) by (simp_all add: recorded_def edges_count_def)
    have "visited_ok gs ?st1"
      using Suc.prems(5) by (simp add: visited_ok_def walk_level_fold)
    then obtain dd where dd: "st2 = ?st1\<lparr>ws_visited := dd\<rparr>" "visited_ok gs st2"
      using visit_fold_facts [OF st2] by blast
    have "recorded ?E st2" "edges_count st2 \<le> eb"
      using walk_fold_recorded [OF rec0(1) E, of d nb eb]
        walk_fold_edge_budget [OF rec0(1) Suc.prems(3) E rec0(2), of d nb]
      by (simp_all add: dd(1) walk_level_fold recorded_def edges_count_def)
    with Suc.IH [OF rest _ Suc.prems(3) _ dd(2)] show ?thesis by simp
  qed
qed

section \<open>What the incident edges are\<close>

definition edge_selected :: "string list option \<Rightarrow> string list option \<Rightarrow> edge \<Rightarrow> bool" where
  "edge_selected kinds resolutions e =
     ((case kinds of None \<Rightarrow> True | Some ks \<Rightarrow> e_kind e \<in> set ks)
      \<and> (case resolutions of None \<Rightarrow> True | Some rs \<Rightarrow> e_resolution e \<in> set rs))"

definition touches :: "string \<Rightarrow> string \<Rightarrow> edge \<Rightarrow> bool" where
  "touches direction nid e =
     ((direction \<noteq> ''incoming'' \<and> e_source e = nid) \<or> (direction \<noteq> ''outgoing'' \<and> e_target e = Some nid))"

lemma restricted_edges:
  "set (restrict_resolutions (direct_edges idx nid kinds) res)
     = {e \<in> set (dict_items idx nid). edge_selected kinds res e}"
  by (auto simp: restrict_resolutions_def direct_edges_def select_kinds_def edge_selected_def
      split: option.splits)

lemma setdefault_fold_members:
  "snd ` set (fold (\<lambda>e d. dict_setdefault (e_id e) e d) es acc) \<subseteq> snd ` set acc \<union> set es"
proof (induction es arbitrary: acc)
  case (Cons e es)
  have "snd ` set (dict_setdefault (e_id e) e acc) \<subseteq> snd ` set acc \<union> {e}"
    by (auto dest!: dict_setdefault_member)
  with Cons [of "dict_setdefault (e_id e) e acc"] show ?case by auto
qed simp

lemma setdefault_fold_keys:
  "fst ` set (fold (\<lambda>e d. dict_setdefault (e_id e) e d) es acc) = fst ` set acc \<union> e_id ` set es"
  by (induction es arbitrary: acc) (auto simp: dict_setdefault_keys)

lemma setdefault_fold_keyed:
  "keyed_by e_id acc \<Longrightarrow> keyed_by e_id (fold (\<lambda>e d. dict_setdefault (e_id e) e d) es acc)"
proof (induction es arbitrary: acc)
  case (Cons e es)
  have "keyed_by e_id (dict_setdefault (e_id e) e acc)"
    using Cons.prems by (auto simp: keyed_by_def dict_setdefault_distinct dest!: dict_setdefault_member)
  from Cons.IH [OF this] show ?case by simp
qed simp

lemma setdefault_fold_set:
  assumes "inj_on e_id (set es)"
  shows "snd ` set (fold (\<lambda>e d. dict_setdefault (e_id e) e d) es []) = set es" (is "snd ` set ?d = _")
proof
  show sub: "snd ` set ?d \<subseteq> set es"
    using setdefault_fold_members [of es "[]"] by simp
  show "set es \<subseteq> snd ` set ?d"
  proof
    fix e assume e: "e \<in> set es"
    then have "e_id e \<in> fst ` set ?d" by (simp add: setdefault_fold_keys)
    then obtain f where f: "(e_id e, f) \<in> set ?d" by force
    have "keyed_by e_id ?d" by (rule setdefault_fold_keyed) (simp add: keyed_by_def)
    with f have "e_id f = e_id e" by (auto simp: keyed_by_def)
    moreover have "f \<in> set es" using f sub by force
    ultimately have "f = e" using e assms by (auto dest: inj_onD)
    with f show "e \<in> snd ` set ?d" by force
  qed
qed

lemma gs_inv_index:
  assumes "gs_inv gs"
  shows "set (dict_items (gs_outgoing gs) u) = {e \<in> set (all_edges gs). e_source e = u}"
    "set (dict_items (gs_incoming gs) u) = {e \<in> set (all_edges gs). e_target e = Some u}"
  using assms by (simp_all add: gs_inv_def)

lemma incident_subset:
  "gs_inv gs \<Longrightarrow> set (incident gs d kinds res u) \<subseteq> {e \<in> set (all_edges gs). edge_selected kinds res e \<and> touches d u e}"
proof
  fix e assume inv: "gs_inv gs" and e: "e \<in> set (incident gs d kinds res u)"
  note idx = gs_inv_index [OF inv, of u]
  show "e \<in> {e \<in> set (all_edges gs). edge_selected kinds res e \<and> touches d u e}"
  proof (cases "d = ''outgoing'' \<or> d = ''incoming''")
    case True
    with e show ?thesis
      by (auto simp: incident_def Let_def restricted_edges idx touches_def)
  next
    case False
    let ?out = "if d = ''both'' then restrict_resolutions (direct_edges (gs_outgoing gs) u kinds) res else []"
    let ?in = "if d = ''both'' then restrict_resolutions (direct_edges (gs_incoming gs) u kinds) res else []"
    have "set (incident gs d kinds res u)
        = snd ` set (fold (\<lambda>e d. dict_setdefault (e_id e) e d) (?out @ ?in) [])"
      using False by (simp add: incident_def Let_def)
    with e setdefault_fold_members [of "?out @ ?in" "[]"] have "e \<in> set ?out \<union> set ?in" by auto
    with False show ?thesis
      by (auto simp: restricted_edges idx touches_def split: if_splits)
  qed
qed

lemma incident_set_iff:
  assumes "gs_inv gs" "d \<in> set DIRECTIONS" "inj_on e_id (set (all_edges gs))"
  shows "set (incident gs d kinds res u) = {e \<in> set (all_edges gs). edge_selected kinds res e \<and> touches d u e}"
proof (cases "d = ''both''")
  case False
  with assms(2) show ?thesis
    by (auto simp: DIRECTIONS_def incident_def restricted_edges gs_inv_index [OF assms(1)] touches_def)
next
  case True
  let ?es = "restrict_resolutions (direct_edges (gs_outgoing gs) u kinds) res
      @ restrict_resolutions (direct_edges (gs_incoming gs) u kinds) res"
  have es: "set ?es = {e \<in> set (all_edges gs). edge_selected kinds res e \<and> touches d u e}"
    by (auto simp: True restricted_edges gs_inv_index [OF assms(1)] touches_def)
  then have "inj_on e_id (set ?es)"
    using assms(3) by (auto intro: inj_on_subset)
  from setdefault_fold_set [OF this] es show ?thesis
    by (simp add: True incident_def)
qed

section \<open>The walk, end to end\<close>

lemma run_walk_inv:
  assumes "run_walk gs roots hops d kinds res nb eb = Inr w" "distinct roots"
  obtains st reached current where
    "walk_inv gs (incident gs d kinds res) d (set roots) (nat nb) (nat hops) current st"
    "w = walk_result roots hops (reached, st)"
    "inj_on e_id (incident_set (incident gs d kinds res) UNIV) \<Longrightarrow> edges_count st \<le> nat eb"
proof -
  let ?inc = "incident gs d kinds res"
  obtain st0 reached st where
    st0: "visit_roots gs (nat nb) roots empty_walk_state = Inr st0"
    and lv: "walk_levels gs ?inc d (nat nb) (nat eb) (nat hops) 1 (filter (dict_has (ws_visited st0)) roots) 0 st0
        = Inr (reached, st)"
    and w: "w = walk_result roots hops (reached, st)"
    using assms(1)
    by (auto simp: run_walk_def result_simps)
  note init = walk_inv_init [OF st0 assms(2), of ?inc d]
  obtain current where inv: "walk_inv gs ?inc d (set roots) (nat nb) (0 + nat hops) current st"
    using walk_levels_inv [OF lv init] by blast
  have "edges_count st0 \<le> nat eb"
    using visit_roots_facts [OF st0 _ assms(2)]
    by (simp add: empty_walk_state_def visited_ok_def edges_count_def)
  then have "edges_count st \<le> nat eb" if "inj_on e_id (incident_set ?inc UNIV)"
    using walk_levels_edge_budget [OF lv _ that] init by (simp add: walk_inv_def)
  with inv w that show ?thesis by simp
qed

lemma walk_ids:
  assumes "visited_ok gs st" "gs_inv gs"
  shows "n_id ` set (values_by_key (ws_visited st)) = fst ` set (ws_visited st)"
proof -
  have "n_id (snd p) = fst p" if "p \<in> set (ws_visited st)" for p
    using assms(1) that by (intro gs_inv_node [OF assms(2)]) (auto simp: visited_ok_def)
  with assms(1) show ?thesis
    by (simp add: set_values_by_key visited_ok_def image_image)
qed

lemma walk_edge_ids:
  assumes "recorded E st"
  shows "e_id ` set (values_by_key (ws_walked st)) \<union> e_id ` set (values_by_key (ws_unresolved st)) = edge_keys st"
    "set (values_by_key (ws_walked st)) \<subseteq> {e \<in> E. edge_resolved e}"
    "set (values_by_key (ws_unresolved st)) \<subseteq> {e \<in> E. \<not> edge_resolved e}"
proof -
  have 1: "e_id (snd p) = fst p" if "p \<in> set (ws_walked st) \<union> set (ws_unresolved st)" for p
    using assms that by (auto simp: recorded_def)
  then have "e_id ` snd ` set (ws_walked st) = fst ` set (ws_walked st)"
    "e_id ` snd ` set (ws_unresolved st) = fst ` set (ws_unresolved st)"
    by (simp_all add: image_image)
  then show "e_id ` set (values_by_key (ws_walked st)) \<union> e_id ` set (values_by_key (ws_unresolved st)) = edge_keys st"
    using assms by (simp add: recorded_def set_values_by_key edge_keys_def)
  show "set (values_by_key (ws_walked st)) \<subseteq> {e \<in> E. edge_resolved e}"
    "set (values_by_key (ws_unresolved st)) \<subseteq> {e \<in> E. \<not> edge_resolved e}"
    using assms by (auto simp: recorded_def set_values_by_key)
qed

definition walk_hop ::
  "graph_set \<Rightarrow> string \<Rightarrow> string list option \<Rightarrow> string list option \<Rightarrow> string \<Rightarrow> string \<Rightarrow> bool" where
  "walk_hop gs d kinds res u v =
     (\<exists>e \<in> set (all_edges gs). edge_selected kinds res e \<and> other_end e u d = Some v)"

lemma other_end_touches: "other_end e u d = Some v \<Longrightarrow> touches d u e"
  by (auto simp: other_end_def touches_def split: option.splits if_splits)

lemma hop_incident:
  assumes "gs_inv gs" "d \<in> set DIRECTIONS" "inj_on e_id (set (all_edges gs))"
  shows "hop (incident gs d kinds res) d = walk_hop gs d kinds res"
  by (intro ext) (auto simp: hop_def walk_hop_def incident_set_iff [OF assms] dest: other_end_touches)

lemma incident_set_edges:
  "gs_inv gs \<Longrightarrow> incident_set (incident gs d kinds res) X \<subseteq> set (all_edges gs)"
  using incident_subset [of gs d kinds res] by (auto simp: incident_set_def)

lemma run_walk_budgets:
  assumes "gs_inv gs" "inj_on e_id (set (all_edges gs))"
    and "run_walk gs (sorted_set ids) hops d kinds res nb eb = Inr w"
  shows "length (w_nodes w) \<le> nat nb \<and> length (w_edges w) + length (w_unresolved w) \<le> nat eb"
proof -
  obtain st reached current where
    inv: "walk_inv gs (incident gs d kinds res) d (set (sorted_set ids)) (nat nb) (nat hops) current st"
    and w: "w = walk_result (sorted_set ids) hops (reached, st)"
    and eb: "inj_on e_id (incident_set (incident gs d kinds res) UNIV) \<Longrightarrow> edges_count st \<le> nat eb"
    using run_walk_inv [OF assms(3) distinct_sorted_set] by blast
  have "inj_on e_id (incident_set (incident gs d kinds res) UNIV)"
    using assms(2) incident_set_edges [OF assms(1)] by (rule inj_on_subset)
  with eb inv show ?thesis
    by (simp add: w walk_result_def walk_inv_def edges_count_def)
qed

text \<open>
  The walk never exceeds its budgets: at most \<open>max_nodes\<close> nodes and at most \<open>max_edges\<close> edges
  (followed and unresolved together) are returned, whatever the graph, its cycles and its size.
\<close>

theorem walk_within_budgets:
  assumes "gs_inv gs" "inj_on e_id (set (all_edges gs))"
    and "run_walk gs (sorted_set ids) hops d kinds res nb eb = Inr w"
  shows "length (w_nodes w) \<le> nat nb \<and> length (w_edges w) + length (w_unresolved w) \<le> nat eb"
  using assms by (rule run_walk_budgets)

theorem walk_within_budgets_witness:
  "\<exists>w. run_walk ex_set (sorted_set [ex_id CHR ''a'']) 2 ''incoming'' None None 2 100 = Inr w
     \<and> length (w_nodes w) \<le> 2 \<and> w_truncated w"
proof -
  have "returns (run_walk ex_set (sorted_set [ex_id CHR ''a'']) 2 ''incoming'' None None 2 100) w_truncated"
    by code_simp
  then show ?thesis
    unfolding returns_iff using walk_within_budgets [OF ex_set_inv ex_set_edge_ids, of "[ex_id CHR ''a'']" 2 "''incoming''" None None 2 100]
    by auto
qed

lemma run_walk_exact:
  assumes "gs_inv gs" "inj_on e_id (set (all_edges gs))" "d \<in> set DIRECTIONS"
    and "run_walk gs (sorted_set ids) hops d kinds res nb eb = Inr w"
  shows "n_id ` set (w_nodes w) \<subseteq> ball (walk_hop gs d kinds res) (set ids) (nat hops)
     \<and> (w_truncated w \<or> n_id ` set (w_nodes w) = ball (walk_hop gs d kinds res) (set ids) (nat hops))"
proof -
  obtain st reached current where
    inv: "walk_inv gs (incident gs d kinds res) d (set (sorted_set ids)) (nat nb) (nat hops) current st"
    and w: "w = walk_result (sorted_set ids) hops (reached, st)"
    using run_walk_inv [OF assms(4) distinct_sorted_set] by blast
  have "n_id ` set (w_nodes w) = fst ` set (ws_visited st)"
    using inv by (simp add: w walk_result_def walk_ids [OF _ assms(1)] walk_inv_def)
  with inv show ?thesis
    by (auto simp: w walk_result_def walk_inv_def hop_incident [OF assms(1,3,2)])
qed

text \<open>
  C5. What the walk returns is sound, and complete unless it says otherwise: every visited node is at
  most \<open>depth\<close> hops from a root along selected pinned edges, and when no budget stopped the walk the
  visited nodes are exactly the ones within \<open>depth\<close> hops.
\<close>

theorem walk_exact_unless_truncated:
  assumes "gs_inv gs" "inj_on e_id (set (all_edges gs))" "d \<in> set DIRECTIONS"
    and "run_walk gs (sorted_set ids) hops d kinds res nb eb = Inr w"
  shows "n_id ` set (w_nodes w) \<subseteq> ball (walk_hop gs d kinds res) (set ids) (nat hops)
     \<and> (w_truncated w \<or> n_id ` set (w_nodes w) = ball (walk_hop gs d kinds res) (set ids) (nat hops))"
  using assms by (rule run_walk_exact)

theorem walk_exact_unless_truncated_witness:
  "\<exists>w. run_walk ex_set (sorted_set [ex_id CHR ''a'']) 1 ''incoming'' None None 50 100 = Inr w
     \<and> n_id ` set (w_nodes w) = ball (walk_hop ex_set ''incoming'' None None) {ex_id CHR ''a''} 1
     \<and> length (w_nodes w) = 2"
proof -
  have "returns (run_walk ex_set (sorted_set [ex_id CHR ''a'']) 1 ''incoming'' None None 50 100)
      (\<lambda>w. \<not> w_truncated w \<and> length (w_nodes w) = 2)"
    by code_simp
  then show ?thesis
    unfolding returns_iff using walk_exact_unless_truncated [OF ex_set_inv ex_set_edge_ids, of "''incoming''" "[ex_id CHR ''a'']" 1 None None 50 100]
    by (auto simp: DIRECTIONS_def)
qed

section \<open>The walk returns on a closed scope\<close>

definition pinned :: "graph_set \<Rightarrow> string set" where
  "pinned gs = {v. is_ok (gs_node gs v)}"

text \<open>Every edge of the scope starts and ends at a pinned node (unresolved edges end nowhere).\<close>

definition closed_scope :: "graph_set \<Rightarrow> bool" where
  "closed_scope gs =
     (\<forall>e \<in> set (all_edges gs). e_source e \<in> pinned gs \<and> set_option (e_target e) \<subseteq> pinned gs)"

lemma visit_fold_total:
  "set vs \<subseteq> pinned gs \<Longrightarrow> \<exists>st'. fold_result (visit_node gs) st vs = Inr st'"
  by (induction vs arbitrary: st) (auto simp: visit_node_def pinned_def is_ok_iff)

lemma other_end_pinned:
  "closed_scope gs \<Longrightarrow> e \<in> set (all_edges gs) \<Longrightarrow> other_end e u d = Some v \<Longrightarrow> v \<in> pinned gs"
  by (auto simp: closed_scope_def other_end_def split: option.splits if_splits)

lemma walk_levels_total:
  assumes "gs_inv gs" "closed_scope gs"
  shows "\<exists>r. walk_levels gs (incident gs d kinds res) d nb eb left level current reached st = Inr r"
proof (induction left arbitrary: level current reached st)
  case 0
  then show ?case by simp
next
  case (Suc left)
  let ?inc = "incident gs d kinds res"
  let ?st1 = "walk_level ?inc d nb eb current st"
  have "set (ws_discovered ?st1) \<subseteq> far_ends d (level_pairs ?inc current)"
    using walk_fold_discovered_sound [of d nb eb "st\<lparr>ws_discovered := []\<rparr>" "level_pairs ?inc current"]
    by (auto simp: walk_level_fold)
  also have "\<dots> \<subseteq> pinned gs"
    using incident_subset [OF assms(1), of d kinds res] other_end_pinned [OF assms(2)]
    by (force simp: far_ends_def set_level_pairs)
  finally obtain st2 where "fold_result (visit_node gs) ?st1 (ws_discovered ?st1) = Inr st2"
    using visit_fold_total by blast
  with Suc.IH show ?case by (simp add: Let_def)
qed

lemma visit_roots_total: "set roots \<subseteq> pinned gs \<Longrightarrow> \<exists>st'. visit_roots gs nb roots st = Inr st'"
  by (induction roots arbitrary: st) (auto simp: visit_node_def pinned_def is_ok_iff)

text \<open>
  On a scope whose edges all end at pinned nodes the walk always returns, cycles and budgets
  included; the only way for it to raise is an edge that leads outside the pinned scope.
\<close>

theorem walk_returns_on_closed_scope:
  assumes "gs_inv gs" "closed_scope gs" "set ids \<subseteq> pinned gs"
  shows "\<exists>w. run_walk gs (sorted_set ids) hops d kinds res nb eb = Inr w"
proof -
  obtain st where st: "visit_roots gs (nat nb) (sorted_set ids) empty_walk_state = Inr st"
    using visit_roots_total [of "sorted_set ids" gs "nat nb" empty_walk_state] assms(3) by auto
  obtain r where "walk_levels gs (incident gs d kinds res) d (nat nb) (nat eb) (nat hops) 1
      (filter (dict_has (ws_visited st)) (sorted_set ids)) 0 st = Inr r"
    using walk_levels_total [OF assms(1,2)] by blast
  with st show ?thesis by (simp add: run_walk_def)
qed

lemma ex_set_closed: "closed_scope ex_set"
proof -
  have "is_ok (gs_node ex_set (ex_id CHR ''a'')) \<and> is_ok (gs_node ex_set (ex_id CHR ''b''))
      \<and> is_ok (gs_node ex_set (ex_id CHR ''c''))"
    by code_simp
  then show ?thesis
    by (simp add: closed_scope_def ex_set_edges pinned_def) (simp add: ex_edge_def)
qed

theorem walk_returns_on_closed_scope_witness:
  "\<exists>w. run_walk ex_set (sorted_set [ex_id CHR ''a'']) 8 ''both'' None None 500 1000 = Inr w"
proof -
  have "set [ex_id CHR ''a''] \<subseteq> pinned ex_set"
    by (simp add: pinned_def) code_simp
  from walk_returns_on_closed_scope [OF ex_set_inv ex_set_closed this] show ?thesis .
qed

end
