(* ===== verification/Path.thy ===== *)
theory Path
  imports Projection WalkFacts
begin

text \<open>
  The shortest bounded path of \<open>query/path.py\<close>: the level-by-level search with its seen-edge set and
  its two budgets, the reconstruction from the parent pointers, and the three answers it can give
  (found, proven absent, incomplete).
\<close>

section \<open>The search\<close>

record path_state =
  ps_parent :: "(string, (string \<times> edge) option) dict"
  ps_visited :: "string list"
  ps_seen :: "string list"
  ps_unresolved :: "(string, edge) dict"
  ps_reasons :: "string list"
  ps_exhausted :: bool
  ps_found :: bool
  ps_next :: "string list"

definition start_state :: "string \<Rightarrow> path_state" where
  "start_state start = \<lparr>ps_parent = [(start, None)], ps_visited = [start], ps_seen = [],
     ps_unresolved = [], ps_reasons = [], ps_exhausted = False, ps_found = False, ps_next = []\<rparr>"

definition exhaust :: "string \<Rightarrow> path_state \<Rightarrow> path_state" where
  "exhaust reason st = st\<lparr>ps_reasons := List.insert reason (ps_reasons st), ps_exhausted := True\<rparr>"

definition reach_node :: "string \<Rightarrow> edge \<Rightarrow> string \<Rightarrow> path_state \<Rightarrow> path_state" where
  "reach_node nid e far st =
     st\<lparr>ps_parent := dict_set far (Some (nid, e)) (ps_parent st), ps_visited := ps_visited st @ [far]\<rparr>"

text \<open>The loop over the edges of one node; \<open>break\<close> returns the state, \<open>continue\<close> recurses.\<close>

fun path_edges ::
  "string \<Rightarrow> string \<Rightarrow> nat \<Rightarrow> nat \<Rightarrow> string \<Rightarrow> edge list \<Rightarrow> path_state \<Rightarrow> path_state" where
  "path_edges direction goal nb eb nid [] st = st"
| "path_edges direction goal nb eb nid (e # es) st =
     (if e_id e \<in> set (ps_seen st) then path_edges direction goal nb eb nid es st
      else if length (ps_seen st) \<ge> eb then exhaust ''max_edges'' st
      else let st1 = st\<lparr>ps_seen := e_id e # ps_seen st\<rparr> in
        if \<not> edge_resolved e
          then path_edges direction goal nb eb nid es
                 (st1\<lparr>ps_unresolved := dict_setdefault (e_id e) e (ps_unresolved st1)\<rparr>)
        else if length (ps_visited st1) \<ge> nb then exhaust ''max_nodes'' st1
        else (case other_end e nid direction of
                None \<Rightarrow> path_edges direction goal nb eb nid es st1
              | Some far \<Rightarrow>
                  if far = goal then (reach_node nid e far st1)\<lparr>ps_found := True\<rparr>
                  else if dict_has (ps_parent st1) far then path_edges direction goal nb eb nid es st1
                  else path_edges direction goal nb eb nid es
                         ((reach_node nid e far st1)\<lparr>ps_next := ps_next st1 @ [far]\<rparr>)))"

fun path_nodes ::
  "(string \<Rightarrow> edge list) \<Rightarrow> string \<Rightarrow> string \<Rightarrow> nat \<Rightarrow> nat \<Rightarrow> string list \<Rightarrow> path_state \<Rightarrow> path_state" where
  "path_nodes inc direction goal nb eb [] st = st"
| "path_nodes inc direction goal nb eb (nid # rest) st =
     (let st1 = path_edges direction goal nb eb nid (inc nid) st in
      if ps_found st1 \<or> ps_exhausted st1 then st1
      else path_nodes inc direction goal nb eb rest st1)"

fun path_levels ::
  "(string \<Rightarrow> edge list) \<Rightarrow> string \<Rightarrow> string \<Rightarrow> nat \<Rightarrow> nat \<Rightarrow> nat \<Rightarrow> nat \<Rightarrow> string list \<Rightarrow> nat \<Rightarrow> path_state
   \<Rightarrow> string list \<times> nat \<times> path_state" where
  "path_levels inc direction goal nb eb 0 level current reached st = (current, reached, st)"
| "path_levels inc direction goal nb eb (Suc left) level current reached st =
     (if current = [] then (current, reached, st)
      else let st1 = path_nodes inc direction goal nb eb current (st\<lparr>ps_next := []\<rparr>) in
        if ps_found st1 \<or> ps_exhausted st1 then (current, level, st1)
        else path_levels inc direction goal nb eb left (Suc level) (ps_next st1) level st1)"

definition path_search ::
  "graph_set \<Rightarrow> string \<Rightarrow> string list option \<Rightarrow> string \<Rightarrow> string \<Rightarrow> int \<Rightarrow> int \<Rightarrow> int
   \<Rightarrow> string list \<times> nat \<times> path_state" where
  "path_search gs direction kinds start goal hops node_budget edge_budget =
     (if start = goal then ([start], 0, (start_state start)\<lparr>ps_found := True\<rparr>)
      else path_levels (incident gs direction kinds None) direction goal (nat node_budget)
             (nat edge_budget) (nat hops) 1 [start] 0 (start_state start))"

text \<open>
  The \<open>while cursor is not None\<close> loop, with fuel: \<open>None\<close> is a loop that has not ended. A parent chain
  has no more links than the dictionary has keys (\<open>rebuild_enough\<close>).
\<close>

fun rebuild ::
  "nat \<Rightarrow> (string, (string \<times> edge) option) dict \<Rightarrow> string \<Rightarrow> (string list \<times> edge list) option" where
  "rebuild 0 parent cursor = None"
| "rebuild (Suc fuel) parent cursor =
     (case map_of parent cursor of
        Some (Some (previous, e)) \<Rightarrow>
          map_option (\<lambda>(ids, es). (ids @ [cursor], es @ [e])) (rebuild fuel parent previous)
      | _ \<Rightarrow> Some ([cursor], []))"

section \<open>The answer\<close>

record path_result =
  p_target :: "string option"
  p_target_to :: "string option"
  p_status :: string
  p_direction :: string
  p_edge_kinds :: "string list"
  p_depth :: int
  p_found :: bool
  p_length :: nat
  p_nodes :: "pyval list"
  p_edges :: "pyval list"
  p_candidates :: "pyval list"
  p_unresolved :: "pyval list"
  p_searched :: "string list"
  p_missing :: "string list"
  p_visited :: nat
  p_depth_reached :: nat
  p_budget_exhausted :: bool
  p_proven_absent :: bool
  p_reasons :: "string list"
  p_frontier :: "string list"
  p_incomplete :: "string list"
  p_warnings :: "warning list"

definition path_as_document :: "(warning \<Rightarrow> string) \<Rightarrow> path_result \<Rightarrow> pyval" where
  "path_as_document say r = PDict
     [(''status'', PStr (p_status r)), (''operation'', PStr ''path''),
      (''target'', text_or_none (p_target r)), (''target_to'', text_or_none (p_target_to r)),
      (''direction'', PStr (p_direction r)), (''edge_kinds'', strings (p_edge_kinds r)),
      (''depth'', PInt (p_depth r)), (''depth_reached'', PInt (int (p_depth_reached r))),
      (''found'', PBool (p_found r)), (''length'', PInt (int (p_length r))),
      (''nodes'', PList (p_nodes r)), (''edges'', PList (p_edges r)),
      (''candidates'', PList (p_candidates r)), (''unresolved'', PList (p_unresolved r)),
      (''searched_projects'', strings (p_searched r)), (''missing_projects'', strings (p_missing r)),
      (''visited'', PInt (int (p_visited r))), (''budget_exhausted'', PBool (p_budget_exhausted r)),
      (''proven_absent'', PBool (p_proven_absent r)), (''reasons'', strings (p_reasons r)),
      (''frontier'', strings (p_frontier r)), (''incomplete_reasons'', strings (p_incomplete r)),
      (''warnings'', strings (map say (p_warnings r)))]"

definition ambiguous_path ::
  "graph_set \<Rightarrow> string list \<Rightarrow> string \<Rightarrow> string list \<Rightarrow> string \<Rightarrow> string \<Rightarrow> string \<Rightarrow> string list \<Rightarrow> int
   \<Rightarrow> path_result result" where
  "ambiguous_path gs sections label candidate_ids target target_to direction kinds hops =
     bind_result (candidate_documents gs candidate_ids sections) (\<lambda>docs.
       Inr \<lparr>p_target = None, p_target_to = None, p_status = ''ambiguous_target'',
            p_direction = direction, p_edge_kinds = kinds, p_depth = hops, p_found = False,
            p_length = 0, p_nodes = [], p_edges = [], p_candidates = docs, p_unresolved = [],
            p_searched = project_ids gs, p_missing = gs_missing gs, p_visited = 0,
            p_depth_reached = 0, p_budget_exhausted = False, p_proven_absent = False,
            p_reasons = [], p_frontier = [], p_incomplete = [''ambiguous_target''],
            p_warnings = [Warning ''ambiguous_target'' [label, target, target_to]
                            [int (length candidate_ids)]]\<rparr>)"

text \<open>The branch that found a path.\<close>

definition found_path ::
  "graph_set \<Rightarrow> string list \<Rightarrow> string \<Rightarrow> string list \<Rightarrow> int \<Rightarrow> node \<Rightarrow> node \<Rightarrow> path_state \<Rightarrow> path_result result"
where
  "found_path gs sections direction kinds hops start goal st =
     (case rebuild (Suc (length (ps_parent st))) (ps_parent st) (n_id goal) of
        None \<Rightarrow> Inl Diverges
      | Some (ids, es) \<Rightarrow>
          bind_result (map_result (gs_node gs) ids) (\<lambda>ns.
          bind_result (map_result (projected gs sections) ns) (\<lambda>docs.
            Inr \<lparr>p_target = Some (n_id start), p_target_to = Some (n_id goal), p_status = ''ok'',
                 p_direction = direction, p_edge_kinds = kinds, p_depth = hops, p_found = True,
                 p_length = length es, p_nodes = docs, p_edges = map edge_as_document es,
                 p_candidates = [], p_unresolved = map (\<lambda>p. edge_as_document (snd p)) (ps_unresolved st),
                 p_searched = project_ids gs, p_missing = gs_missing gs,
                 p_visited = length (ps_visited st), p_depth_reached = length es,
                 p_budget_exhausted = False, p_proven_absent = False, p_reasons = [],
                 p_frontier = [], p_incomplete = [], p_warnings = []\<rparr>)))"

definition relevant_unresolved ::
  "(string \<Rightarrow> string) \<Rightarrow> graph_set \<Rightarrow> node list \<Rightarrow> (string, edge) dict \<Rightarrow> (string, edge) dict" where
  "relevant_unresolved cf gs visited unresolved =
     fold (\<lambda>p d. dict_setdefault (fst p) (snd p) d) unresolved
       (fold (\<lambda>e d. dict_set (e_id e) e d) (concat (map (unresolved_references cf gs) visited)) [])"

text \<open>The branch that separates a search cut short from one that finished empty.\<close>

definition missed_path ::
  "(string \<Rightarrow> string) \<Rightarrow> graph_set \<Rightarrow> string \<Rightarrow> string list \<Rightarrow> int \<Rightarrow> node \<Rightarrow> node
   \<Rightarrow> string list \<times> nat \<times> path_state \<Rightarrow> path_result result" where
  "missed_path cf gs direction kinds hops start goal res =
     (case res of (current, reached, st) \<Rightarrow>
        bind_result (map_result (gs_node gs) (ps_visited st)) (\<lambda>visited.
          let relevant = relevant_unresolved cf gs visited (ps_unresolved st);
              exhausted = ps_exhausted st;
              depth_limited = (current \<noteq> [] \<and> int reached \<ge> hops \<and> \<not> exhausted);
              missing = gs_missing gs;
              incomplete = (if exhausted then [''budget_exhausted''] else [])
                @ (if missing \<noteq> [] then [''missing_members''] else [])
                @ (if relevant \<noteq> [] then [''unresolved_edges''] else [])
                @ (if depth_limited then [''depth_limited''] else []);
              warnings = (if exhausted then [Warning ''budget_exhausted'' (sorted_set (ps_reasons st)) []] else [])
                @ (if missing \<noteq> [] then [Warning ''incomplete_scope'' missing [int (length missing)]] else [])
                @ (if relevant \<noteq> [] then [Warning ''unresolved_edges'' [] [int (length relevant)]] else [])
                @ (if depth_limited then [Warning ''depth_limited'' [] [hops]] else [])
                @ (if incomplete = [] then [Warning ''no_path'' [] [hops, int (length (ps_visited st))]] else [])
          in Inr \<lparr>p_target = Some (n_id start), p_target_to = Some (n_id goal), p_status = ''ok'',
                  p_direction = direction, p_edge_kinds = kinds, p_depth = hops, p_found = False,
                  p_length = 0, p_nodes = [], p_edges = [], p_candidates = [],
                  p_unresolved = map (\<lambda>p. edge_as_document (snd p)) relevant,
                  p_searched = project_ids gs, p_missing = missing,
                  p_visited = length (ps_visited st), p_depth_reached = reached,
                  p_budget_exhausted = exhausted, p_proven_absent = (incomplete = []),
                  p_reasons = sorted_set (ps_reasons st), p_frontier = sort current,
                  p_incomplete = incomplete, p_warnings = warnings\<rparr>))"

definition kinds_or_none :: "string list \<Rightarrow> string list option" where
  "kinds_or_none ks = (if ks = [] then None else Some ks)"

text \<open>The operation, with the validations in the order the code makes them.\<close>

definition path ::
  "(string \<Rightarrow> string) \<Rightarrow> scope \<Rightarrow> string \<Rightarrow> string \<Rightarrow> string list option \<Rightarrow> pyval \<Rightarrow> pyval \<Rightarrow> pyval \<Rightarrow> pyval
   \<Rightarrow> pyval \<Rightarrow> pyval \<Rightarrow> path_result result" where
  "path cf sc target target_to projects depth direction edge_kinds projection max_nodes max_edges =
     bind_result (as_graph_set sc) (\<lambda>scope.
     bind_result (narrow_scope scope projects) (\<lambda>gs.
     bind_result (normalise_projection projection) (\<lambda>sections.
     bind_result (bounded_int depth 0 MAX_DEPTH (Some DEFAULT_DEPTH)) (\<lambda>hops.
     bind_result (choice direction DIRECTIONS (Some ''both'')) (\<lambda>heading.
     bind_result (choice_list edge_kinds (sort EDGE_KINDS) None) (\<lambda>kinds.
     bind_result (bounded_int max_nodes 1 MAX_NODES (Some DEFAULT_MAX_NODES)) (\<lambda>node_budget.
     bind_result (bounded_int max_edges 0 MAX_EDGES (Some DEFAULT_MAX_EDGES)) (\<lambda>edge_budget.
       (case resolve cf gs target of
          Inl (TargetAmbiguous t ids) \<Rightarrow>
            ambiguous_path gs sections target ids target target_to heading kinds hops
        | Inl err \<Rightarrow> Inl err
        | Inr start \<Rightarrow>
            (case resolve cf gs target_to of
               Inl (TargetAmbiguous t ids) \<Rightarrow>
                 ambiguous_path gs sections target_to ids target target_to heading kinds hops
             | Inl err \<Rightarrow> Inl err
             | Inr goal \<Rightarrow>
                 (let res = path_search gs heading (kinds_or_none kinds) (n_id start) (n_id goal)
                              hops node_budget edge_budget
                  in if ps_found (snd (snd res))
                     then found_path gs sections heading kinds hops start goal (snd (snd res))
                     else missed_path cf gs heading kinds hops start goal res)))))))))))"

end
