(* ===== verification/PathFacts.thy ===== *)
theory PathFacts
  imports Path
begin

text \<open>
  Correctness of the path search, proved against the interface it needs from the pinned scope: an
  edge index whose edges are told apart by their ids and whose far ends are the two ends of an edge.
  \<open>pinned_index\<close> discharges that interface for the graph set of the program.
\<close>

section \<open>One pair at a time\<close>

text \<open>The nested loops with their two breaks are one loop over (node, edge) pairs that stops early.\<close>

abbreviation stopped :: "path_state \<Rightarrow> bool" where
  "stopped st \<equiv> ps_found st \<or> ps_exhausted st"

definition path_step :: "string \<Rightarrow> string \<Rightarrow> nat \<Rightarrow> nat \<Rightarrow> string \<times> edge \<Rightarrow> path_state \<Rightarrow> path_state" where
  "path_step d goal nb eb p st = path_edges d goal nb eb (fst p) [snd p] st"

fun path_run :: "string \<Rightarrow> string \<Rightarrow> nat \<Rightarrow> nat \<Rightarrow> (string \<times> edge) list \<Rightarrow> path_state \<Rightarrow> path_state" where
  "path_run d goal nb eb [] st = st"
| "path_run d goal nb eb (p # ps) st =
     (let st1 = path_step d goal nb eb p st in if stopped st1 then st1 else path_run d goal nb eb ps st1)"

lemma exhaust_frame [simp]:
  "ps_parent (exhaust r st) = ps_parent st" "ps_visited (exhaust r st) = ps_visited st"
  "ps_seen (exhaust r st) = ps_seen st" "ps_found (exhaust r st) = ps_found st"
  "ps_next (exhaust r st) = ps_next st" "ps_exhausted (exhaust r st)"
  by (simp_all add: exhaust_def)

lemma reach_node_frame [simp]:
  "ps_parent (reach_node u e v st) = dict_set v (Some (u, e)) (ps_parent st)"
  "ps_visited (reach_node u e v st) = ps_visited st @ [v]"
  "ps_seen (reach_node u e v st) = ps_seen st" "ps_found (reach_node u e v st) = ps_found st"
  "ps_next (reach_node u e v st) = ps_next st" "ps_exhausted (reach_node u e v st) = ps_exhausted st"
  by (simp_all add: reach_node_def)

lemma path_step_cases:
  assumes "\<not> stopped st" "goal \<notin> fst ` set (ps_parent st)"
  defines "st' \<equiv> \<lambda>d nb eb u e. path_step d goal nb eb (u, e) st"
  shows "e_id e \<in> set (ps_seen st) \<or> (ps_exhausted (st' d nb eb u e) \<and> \<not> ps_found (st' d nb eb u e))
    \<or> (\<not> edge_resolved e \<and> st' d nb eb u e = st\<lparr>ps_seen := e_id e # ps_seen st,
          ps_unresolved := dict_setdefault (e_id e) e (ps_unresolved st)\<rparr>)
    \<or> (\<exists>w. other_end e u d = Some w \<and> w \<in> fst ` set (ps_parent st)
          \<and> st' d nb eb u e = st\<lparr>ps_seen := e_id e # ps_seen st\<rparr>)
    \<or> (other_end e u d = None \<and> st' d nb eb u e = st\<lparr>ps_seen := e_id e # ps_seen st\<rparr>)
    \<or> (other_end e u d = Some goal
          \<and> st' d nb eb u e = (reach_node u e goal (st\<lparr>ps_seen := e_id e # ps_seen st\<rparr>))\<lparr>ps_found := True\<rparr>)
    \<or> (\<exists>w. other_end e u d = Some w \<and> w \<notin> fst ` set (ps_parent st) \<and> w \<noteq> goal
          \<and> st' d nb eb u e = (reach_node u e w (st\<lparr>ps_seen := e_id e # ps_seen st\<rparr>))\<lparr>ps_next := ps_next st @ [w]\<rparr>)"
  using assms(1,2)
  by (cases "other_end e u d") (simp_all add: st'_def path_step_def Let_def dict_has_iff)

lemma path_edges_run:
  "\<not> stopped st \<Longrightarrow> path_edges d goal nb eb u es st = path_run d goal nb eb (map (Pair u) es) st"
proof (induction d goal nb eb u es st rule: path_edges.induct)
  case (2 d goal nb eb u e es st)
  then show ?case
    by (auto simp: path_step_def Let_def split: option.splits)
qed simp

lemma path_run_append:
  "path_run d goal nb eb (ps @ qs) st =
     (let st1 = path_run d goal nb eb ps st in
        if ps \<noteq> [] \<and> stopped st1 then st1 else path_run d goal nb eb qs st1)"
  by (induction ps arbitrary: st) (auto simp: Let_def)

lemma path_nodes_run:
  "\<not> stopped st \<Longrightarrow> path_nodes inc d goal nb eb us st = path_run d goal nb eb (level_pairs inc us) st"
proof (induction us arbitrary: st)
  case (Cons u us)
  let ?st1 = "path_run d goal nb eb (map (Pair u) (inc u)) st"
  have "inc u \<noteq> [] \<or> ?st1 = st" by (cases "inc u") simp_all
  with Cons show ?case
    by (auto simp: Let_def path_edges_run level_pairs_def path_run_append)
qed (simp add: level_pairs_def)

section \<open>The interface of an edge index\<close>

locale edge_index =
  fixes inc :: "'s \<Rightarrow> string \<Rightarrow> edge list"
    and dir :: "'s \<Rightarrow> string"
    and invar :: "'s \<Rightarrow> bool"
  assumes ids: "invar s \<Longrightarrow> e \<in> set (inc s u) \<Longrightarrow> f \<in> set (inc s v) \<Longrightarrow> e_id e = e_id f \<Longrightarrow> e = f"
    and far: "invar s \<Longrightarrow> e \<in> set (inc s u) \<Longrightarrow> edge_resolved e \<Longrightarrow> \<exists>w. other_end e u (dir s) = Some w"
    and ends: "invar s \<Longrightarrow> e \<in> set (inc s u) \<Longrightarrow> other_end e u (dir s) = Some v \<Longrightarrow>
      other_end e u' (dir s) = Some w \<Longrightarrow> w = u \<or> w = v"

begin

definition layer :: "'s \<Rightarrow> string \<Rightarrow> nat \<Rightarrow> string set" where
  "layer s start = sphere (hop (inc s) (dir s)) {start}"

definition within :: "'s \<Rightarrow> string \<Rightarrow> nat \<Rightarrow> string set" where
  "within s start = ball (hop (inc s) (dir s)) {start}"

lemma within_0 [simp]: "within s start 0 = {start}"
  by (simp add: within_def)

lemma layer_0 [simp]: "layer s start 0 = {start}"
  by (simp add: layer_def)

lemma layer_Suc: "layer s start (Suc n) = within s start (Suc n) - within s start n"
  by (simp add: layer_def within_def)

lemma within_Suc: "within s start (Suc n) = within s start n \<union> image_of (hop (inc s) (dir s)) (layer s start n)"
  by (simp add: layer_def within_def ball_Suc_sphere)

lemma layer_within: "layer s start n \<subseteq> within s start n"
  by (simp add: layer_def within_def sphere_subset_ball)

lemma within_mono: "m \<le> n \<Longrightarrow> within s start m \<subseteq> within s start n"
  by (simp add: within_def ball_mono)

lemma layer_unique: "k \<in> layer s start m \<Longrightarrow> k \<in> layer s start n \<Longrightarrow> m = n"
proof (induction m n rule: linorder_wlog)
  case (le m n)
  show ?case
  proof (cases "m = n")
    case False
    with le obtain j where j: "n = Suc j" "m \<le> j" by (cases n) auto
    with le layer_within [of s start m] within_mono [of m j s start] show ?thesis
      by (auto simp: layer_Suc)
  qed simp
qed simp

lemma hop_next_layer:
  assumes "u \<in> layer s start n" "e \<in> set (inc s u)" "other_end e u (dir s) = Some w"
    "w \<notin> within s start n"
  shows "w \<in> layer s start (Suc n)"
  using assms by (auto simp: layer_Suc within_Suc image_of_def hop_def)

section \<open>Parent links and their reconstruction\<close>

definition links :: "'s \<Rightarrow> string \<Rightarrow> (string, (string \<times> edge) option) dict \<Rightarrow> bool" where
  "links s start parent =
     (distinct (dict_keys parent) \<and> map_of parent start = Some None
      \<and> (\<forall>k v. map_of parent k = Some v \<longrightarrow>
           (case v of None \<Rightarrow> k = start
            | Some (p, e) \<Rightarrow> p \<in> fst ` set parent \<and> e \<in> set (inc s p) \<and> other_end e p (dir s) = Some k
                \<and> (\<exists>m. p \<in> layer s start m \<and> k \<in> layer s start (Suc m)))))"

text \<open>A chain of edges from \<open>a\<close> to \<open>b\<close> through the listed nodes.\<close>

fun chain :: "'s \<Rightarrow> string list \<Rightarrow> edge list \<Rightarrow> bool" where
  "chain s [v] [] = True"
| "chain s (u # v # vs) (e # es) =
     (e \<in> set (inc s u) \<and> other_end e u (dir s) = Some v \<and> chain s (v # vs) es)"
| "chain s _ _ = False"

lemma chain_snoc:
  "chain s ids es \<Longrightarrow> last ids = u \<Longrightarrow> e \<in> set (inc s u) \<Longrightarrow> other_end e u (dir s) = Some v \<Longrightarrow>
     chain s (ids @ [v]) (es @ [e])"
  by (induction s ids es rule: chain.induct) auto

lemma links_root_only:
  assumes "links s start parent" "map_of parent k = Some v" "k \<in> layer s start (Suc m)"
  shows "\<exists>p e. v = Some (p, e)"
proof (cases v)
  case None
  with assms(1,2) have "k = start" unfolding links_def by fastforce
  with assms(3) layer_unique [of start s start 0 "Suc m"] show ?thesis by simp
qed auto

lemma links_parent:
  assumes "links s start parent" "map_of parent k = Some (Some (p, e))"
  shows "p \<in> fst ` set parent \<and> e \<in> set (inc s p) \<and> other_end e p (dir s) = Some k
    \<and> (\<exists>m. p \<in> layer s start m \<and> k \<in> layer s start (Suc m))"
  using assms unfolding links_def by fastforce

lemma links_size:
  "links s start parent \<Longrightarrow> k \<in> fst ` set parent \<Longrightarrow> k \<in> layer s start m \<Longrightarrow>
     Suc m \<le> card (fst ` set parent \<inter> within s start m)"
proof (induction m arbitrary: k)
  case 0
  have "start \<in> fst ` set parent"
    using 0(1) by (force simp: links_def dest: map_of_SomeD)
  then have "fst ` set parent \<inter> within s start 0 = {start}" by auto
  then show ?case by simp
next
  case (Suc m)
  obtain v where v: "map_of parent k = Some v"
    using Suc.prems(2) by (metis map_of_eq_None_iff not_None_eq)
  obtain p e where pe: "v = Some (p, e)"
    using links_root_only [OF Suc.prems(1) v Suc.prems(3)] by blast
  with links_parent [OF Suc.prems(1)] v obtain n where p: "p \<in> fst ` set parent" "p \<in> layer s start n" "k \<in> layer s start (Suc n)"
    by blast
  with Suc.prems(3) have "p \<in> layer s start m"
    using layer_unique [of k s start "Suc n" "Suc m"] by simp
  with Suc.IH [OF Suc.prems(1) p(1)] have IH: "Suc m \<le> card (fst ` set parent \<inter> within s start m)" .
  have "k \<notin> within s start m" "k \<in> within s start (Suc m)"
    using Suc.prems(3) by (auto simp: layer_Suc)
  then have "insert k (fst ` set parent \<inter> within s start m) \<subseteq> fst ` set parent \<inter> within s start (Suc m)"
    using Suc.prems(2) within_mono [of m "Suc m" s start] by auto
  then have "card (insert k (fst ` set parent \<inter> within s start m)) \<le> card (fst ` set parent \<inter> within s start (Suc m))"
    by (intro card_mono) auto
  with IH \<open>k \<notin> within s start m\<close> show ?case by simp
qed

lemma links_depth:
  assumes "links s start parent" "k \<in> fst ` set parent" "k \<in> layer s start m"
  shows "m < length parent"
proof -
  have "card (fst ` set parent \<inter> within s start m) \<le> card (fst ` set parent)"
    by (rule card_mono) auto
  also have "\<dots> \<le> length parent"
    using card_length [of "dict_keys parent"] by simp
  finally show ?thesis using links_size [OF assms] by simp
qed

lemma rebuild_layer:
  "links s start parent \<Longrightarrow> k \<in> fst ` set parent \<Longrightarrow> k \<in> layer s start m \<Longrightarrow> m < fuel \<Longrightarrow>
     \<exists>ids es. rebuild fuel parent k = Some (ids, es) \<and> chain s ids es \<and> hd ids = start \<and> last ids = k
       \<and> length es = m"
proof (induction m arbitrary: k fuel)
  case 0
  then obtain f where "fuel = Suc f" by (cases fuel) auto
  with 0 show ?case by (auto simp: links_def)
next
  case (Suc m)
  obtain f where f: "fuel = Suc f" "m < f" using Suc.prems(4) by (cases fuel) auto
  obtain v where v: "map_of parent k = Some v"
    using Suc.prems(2) by (metis map_of_eq_None_iff not_None_eq)
  obtain p e where pe: "v = Some (p, e)"
    using links_root_only [OF Suc.prems(1) v Suc.prems(3)] by blast
  with links_parent [OF Suc.prems(1)] v obtain n where p: "p \<in> fst ` set parent" "p \<in> layer s start n" "k \<in> layer s start (Suc n)"
    and e: "e \<in> set (inc s p)" "other_end e p (dir s) = Some k"
    by blast
  have "p \<in> layer s start m"
    using layer_unique [OF p(3) Suc.prems(3)] p(2) by simp
  then obtain ids es where r: "rebuild f parent p = Some (ids, es)" "chain s ids es" "hd ids = start"
      "last ids = p" "length es = m"
    using Suc.IH [OF Suc.prems(1) p(1) _ f(2)] by blast
  have "ids \<noteq> []" using r(2) by (cases ids) auto
  with r chain_snoc [OF r(2,4) e] show ?case
    by (simp add: f(1) v pe)
qed

lemma rebuild_enough:
  assumes "links s start parent" "k \<in> fst ` set parent" "k \<in> layer s start m"
  shows "\<exists>ids es. rebuild (Suc (length parent)) parent k = Some (ids, es) \<and> chain s ids es
    \<and> hd ids = start \<and> last ids = k \<and> length es = m"
  by (rule rebuild_layer [OF assms]) (rule less_SucI, rule links_depth [OF assms])

lemma chain_relpow: "chain s ids es \<Longrightarrow> (hop (inc s) (dir s) ^^ length es) (hd ids) (last ids)"
proof (induction s ids es rule: chain.induct)
  case (2 s u v vs e es)
  then have "hop (inc s) (dir s) u v" by (auto simp: hop_def)
  moreover have "(hop (inc s) (dir s) ^^ length es) v (last (v # vs))" using 2 by simp
  ultimately show ?case by (auto simp: relpowp_Suc_I2 simp del: relpowp.simps)
qed auto

section \<open>The search invariant\<close>

text \<open>
  \<open>mid s start goal l X st\<close>: the levels below \<open>l\<close> are done, the pairs \<open>X\<close> of level \<open>l\<close> are
  processed, and nothing has stopped the search.
\<close>

definition done_edges :: "'s \<Rightarrow> string \<Rightarrow> nat \<Rightarrow> edge set" where
  "done_edges s start l = (\<Union>m < l. incident_set (inc s) (layer s start m))"

definition ends_of :: "'s \<Rightarrow> (string \<times> edge) set \<Rightarrow> string set" where
  "ends_of s X = {v. \<exists>(u, e) \<in> X. other_end e u (dir s) = Some v}"

definition level_set :: "'s \<Rightarrow> string \<Rightarrow> nat \<Rightarrow> (string \<times> edge) set" where
  "level_set s start l = {(u, e). u \<in> layer s start l \<and> e \<in> set (inc s u)}"

definition mid :: "'s \<Rightarrow> string \<Rightarrow> string \<Rightarrow> nat \<Rightarrow> (string \<times> edge) set \<Rightarrow> path_state \<Rightarrow> bool" where
  "mid s start goal l X st =
     (links s start (ps_parent st) \<and> ps_visited st = dict_keys (ps_parent st) \<and> \<not> stopped st
      \<and> X \<subseteq> level_set s start l
      \<and> fst ` set (ps_parent st) = within s start l \<union> ends_of s X
      \<and> goal \<notin> fst ` set (ps_parent st)
      \<and> set (ps_next st) = ends_of s X - within s start l
      \<and> set (ps_seen st) = e_id ` (done_edges s start l \<union> snd ` X))"

lemma ends_of_insert: "ends_of s (insert (u, e) X) = set_option (other_end e u (dir s)) \<union> ends_of s X"
  by (auto simp: ends_of_def)

lemma ends_of_level: "ends_of s (level_set s start l) = image_of (hop (inc s) (dir s)) (layer s start l)"
  by (auto simp: ends_of_def level_set_def image_of_def hop_def)

lemma snd_level: "snd ` level_set s start l = incident_set (inc s) (layer s start l)"
  by (force simp: level_set_def incident_set_def)

lemma done_edges_Suc: "done_edges s start (Suc l) = done_edges s start l \<union> snd ` level_set s start l"
  by (auto simp: done_edges_def snd_level less_Suc_eq)

lemma link_new:
  assumes "links s start parent" "u \<in> fst ` set parent" "u \<in> layer s start l" "e \<in> set (inc s u)"
    "other_end e u (dir s) = Some w" "w \<notin> fst ` set parent" "w \<notin> within s start l"
  shows "links s start (dict_set w (Some (u, e)) parent)"
proof -
  have "start \<noteq> w" using assms(7) within_mono [of 0 l s start] by auto
  with assms hop_next_layer [OF assms(3-5,7)] show ?thesis
    unfolding links_def dict_set_keys
    by (auto simp: update_conv' distinct_update split: option.splits)
qed

text \<open>A seen edge has nothing new at its other side.\<close>

lemma seen_edge_known:
  assumes inv: "invar s" and m: "mid s start goal l X st" and e: "e \<in> set (inc s u)"
    and seen: "e_id e \<in> set (ps_seen st)" and w: "other_end e u (dir s) = Some w"
  shows "w \<in> within s start l \<union> ends_of s X"
proof -
  obtain f where f: "f \<in> done_edges s start l \<union> snd ` X" "e_id f = e_id e"
    using seen m unfolding mid_def by (metis (no_types, lifting) imageE)
  then obtain u' where u': "f \<in> set (inc s u')"
      "(\<exists>n < l. u' \<in> layer s start n) \<or> (u', f) \<in> X \<and> u' \<in> layer s start l"
    using m unfolding mid_def level_set_def done_edges_def incident_set_def by fastforce
  have "f = e" using ids [OF inv u'(1) e f(2)] .
  have "edge_resolved e" using w by (auto simp: other_end_def edge_resolved_def split: option.splits)
  then obtain v' where v': "other_end e u' (dir s) = Some v'"
    using far [OF inv, of e u'] u'(1) \<open>f = e\<close> by blast
  have uw: "w = u' \<or> w = v'" using ends [OF inv _ v' w] u'(1) \<open>f = e\<close> by simp
  show ?thesis
  proof (cases "\<exists>n < l. u' \<in> layer s start n")
    case True
    then obtain n where n: "n < l" "u' \<in> layer s start n" by blast
    then have "v' \<in> within s start (Suc n)"
      using u'(1) v' \<open>f = e\<close> by (auto simp: within_Suc image_of_def hop_def)
    moreover have "within s start (Suc n) \<subseteq> within s start l" "layer s start n \<subseteq> within s start l"
      using n(1) within_mono [of "Suc n" l s start] within_mono [of n l s start] layer_within [of s start n]
      by auto
    ultimately show ?thesis using uw n(2) by auto
  next
    case False
    with u'(2) have "(u', e) \<in> X" "u' \<in> layer s start l" using \<open>f = e\<close> by auto
    with uw v' layer_within [of s start l] show ?thesis by (auto simp: ends_of_def)
  qed
qed

definition found_inv :: "'s \<Rightarrow> string \<Rightarrow> string \<Rightarrow> nat \<Rightarrow> path_state \<Rightarrow> bool" where
  "found_inv s start goal l st =
     (ps_found st \<and> links s start (ps_parent st) \<and> goal \<in> fst ` set (ps_parent st)
      \<and> goal \<in> layer s start (Suc l) \<and> ps_visited st = dict_keys (ps_parent st))"

lemma mid_skip:
  assumes "mid s start goal l X st" "u \<in> layer s start l" "e \<in> set (inc s u)"
    "set_option (other_end e u (dir s)) \<subseteq> within s start l \<union> ends_of s X"
    "set (ps_seen st') = insert (e_id e) (set (ps_seen st))"
    "ps_parent st' = ps_parent st" "ps_visited st' = ps_visited st" "ps_found st' = ps_found st"
    "ps_exhausted st' = ps_exhausted st" "ps_next st' = ps_next st"
  shows "mid s start goal l (insert (u, e) X) st'"
  using assms by (auto simp: mid_def ends_of_insert level_set_def)

lemma mid_reach:
  assumes m: "mid s start goal l X st" and u: "u \<in> layer s start l" "e \<in> set (inc s u)"
    and w: "other_end e u (dir s) = Some w" "w \<notin> fst ` set (ps_parent st)" "w \<noteq> goal"
    and st': "ps_parent st' = dict_set w (Some (u, e)) (ps_parent st)" "ps_visited st' = ps_visited st @ [w]"
      "ps_next st' = ps_next st @ [w]" "ps_seen st' = e_id e # ps_seen st"
      "ps_found st' = ps_found st" "ps_exhausted st' = ps_exhausted st"
  shows "mid s start goal l (insert (u, e) X) st'"
proof -
  have k: "within s start l \<subseteq> fst ` set (ps_parent st)" using m by (auto simp: mid_def)
  then have uw: "u \<in> fst ` set (ps_parent st)" "w \<notin> within s start l"
    using u(1) layer_within [of s start l] w(2) by auto
  have "links s start (ps_parent st')"
    unfolding st'(1) using m uw u w by (intro link_new) (auto simp: mid_def)
  moreover have "ps_visited st' = dict_keys (ps_parent st')"
    using m w(2) by (simp add: st' dict_set_length_new mid_def)
  moreover have "fst ` set (ps_parent st') = within s start l \<union> ends_of s (insert (u, e) X)"
    using m by (auto simp: st' dict_set_keys mid_def ends_of_insert w(1))
  moreover have "set (ps_next st') = ends_of s (insert (u, e) X) - within s start l"
    using m uw(2) by (auto simp: st' mid_def ends_of_insert w(1))
  ultimately show ?thesis
    using m u w by (auto simp: mid_def st' level_set_def dict_set_keys)
qed

lemma path_step_mid:
  fixes nb eb :: nat and goal u :: string and e :: edge and s :: 's and st :: path_state
  assumes inv: "invar s" and m: "mid s start goal l X st" and u: "u \<in> layer s start l" "e \<in> set (inc s u)"
  defines "st' \<equiv> path_step (dir s) goal nb eb (u, e) st"
  shows "(ps_exhausted st' \<and> \<not> ps_found st') \<or> found_inv s start goal l st' \<or> mid s start goal l (insert (u, e) X) st'"
proof -
  have k: "within s start l \<subseteq> fst ` set (ps_parent st)" and run: "\<not> stopped st"
    and gk: "goal \<notin> fst ` set (ps_parent st)" and keys: "fst ` set (ps_parent st) = within s start l \<union> ends_of s X"
    using m by (auto simp: mid_def)
  consider (seen) "e_id e \<in> set (ps_seen st)"
    | (full) "ps_exhausted st' \<and> \<not> ps_found st'"
    | (loose) "\<not> edge_resolved e" "st' = st\<lparr>ps_seen := e_id e # ps_seen st,
        ps_unresolved := dict_setdefault (e_id e) e (ps_unresolved st)\<rparr>"
    | (known) w where "other_end e u (dir s) = Some w" "w \<in> fst ` set (ps_parent st)"
        "st' = st\<lparr>ps_seen := e_id e # ps_seen st\<rparr>"
    | (none) "other_end e u (dir s) = None" "st' = st\<lparr>ps_seen := e_id e # ps_seen st\<rparr>"
    | (goal) "other_end e u (dir s) = Some goal"
        "st' = (reach_node u e goal (st\<lparr>ps_seen := e_id e # ps_seen st\<rparr>))\<lparr>ps_found := True\<rparr>"
    | (reached) w where "other_end e u (dir s) = Some w" "w \<notin> fst ` set (ps_parent st)" "w \<noteq> goal"
        "st' = (reach_node u e w (st\<lparr>ps_seen := e_id e # ps_seen st\<rparr>))\<lparr>ps_next := ps_next st @ [w]\<rparr>"
    using path_step_cases [OF run gk, of e "dir s" nb eb u] unfolding st'_def [symmetric]
    by (elim disjE exE conjE) (erule that | rule that; (assumption | rule conjI))+
  then show ?thesis
  proof cases
    case seen
    then have "st' = st" by (simp add: st'_def path_step_def)
    moreover have "set_option (other_end e u (dir s)) \<subseteq> within s start l \<union> ends_of s X"
      using seen_edge_known [OF inv m u(2) seen] by (cases "other_end e u (dir s)") auto
    ultimately show ?thesis using mid_skip [OF m u, of st'] seen by auto
  next
    case loose
    then have "other_end e u (dir s) = None" by (simp add: other_end_def edge_resolved_def)
    then show ?thesis using mid_skip [OF m u, of st'] loose(2) by simp
  next
    case known
    then show ?thesis using mid_skip [OF m u, of st'] keys by auto
  next
    case none
    then show ?thesis using mid_skip [OF m u, of st'] by simp
  next
    case goal
    have "goal \<notin> within s start l" "u \<in> fst ` set (ps_parent st)"
      using gk k u(1) layer_within [of s start l] by auto
    then have "found_inv s start goal l st'"
      using m hop_next_layer [OF u goal(1)] link_new [OF _ _ u goal(1) gk]
      by (auto simp: found_inv_def goal(2) mid_def dict_set_keys dict_set_length_new [OF gk])
    then show ?thesis by simp
  next
    case reached
    then show ?thesis using mid_reach [OF m u reached(1-3), of st'] by simp
  qed simp
qed

lemma path_run_mid:
  assumes "invar s" "mid s start goal l X st" "set ps \<subseteq> level_set s start l"
  shows "(ps_exhausted (path_run (dir s) goal nb eb ps st) \<and> \<not> ps_found (path_run (dir s) goal nb eb ps st))
    \<or> found_inv s start goal l (path_run (dir s) goal nb eb ps st)
    \<or> mid s start goal l (X \<union> set ps) (path_run (dir s) goal nb eb ps st)"
  using assms
proof (induction ps arbitrary: X st)
  case (Cons p ps)
  obtain u e where p: "p = (u, e)" by (cases p)
  have u: "u \<in> layer s start l" "e \<in> set (inc s u)"
    using Cons.prems(3) by (auto simp: p level_set_def)
  let ?st1 = "path_step (dir s) goal nb eb (u, e) st"
  show ?case
  proof (cases "stopped ?st1")
    case True
    then have "\<not> mid s start goal l (insert (u, e) X) ?st1" by (auto simp: mid_def)
    with path_step_mid [OF Cons.prems(1,2) u, of nb eb] True show ?thesis
      by (auto simp: p Let_def)
  next
    case False
    then have "mid s start goal l (insert (u, e) X) ?st1"
      using path_step_mid [OF Cons.prems(1,2) u, of nb eb] by (auto simp: found_inv_def)
    from Cons.IH [OF Cons.prems(1) this] Cons.prems(3) False show ?thesis
      by (simp add: p Let_def)
  qed
qed simp

lemma mid_next_level:
  assumes "mid s start goal l (level_set s start l) st"
  shows "mid s start goal (Suc l) {} (st\<lparr>ps_next := []\<rparr>) \<and> set (ps_next st) = layer s start (Suc l)"
proof -
  have "within s start (Suc l) = within s start l \<union> ends_of s (level_set s start l)"
    by (simp add: within_Suc ends_of_level)
  moreover from this have "layer s start (Suc l) = ends_of s (level_set s start l) - within s start l"
    by (auto simp: layer_Suc)
  ultimately show ?thesis
    using assms by (simp add: mid_def done_edges_Suc) (auto simp: ends_of_def)
qed

text \<open>The outcome of the level loop.\<close>

definition outcome :: "'s \<Rightarrow> string \<Rightarrow> string \<Rightarrow> nat \<Rightarrow> string list \<times> nat \<times> path_state \<Rightarrow> bool" where
  "outcome s start goal hops r =
     (case r of (current, reached, st) \<Rightarrow>
        (ps_exhausted st \<and> \<not> ps_found st)
        \<or> (\<exists>l < hops. found_inv s start goal l st)
        \<or> (\<not> stopped st \<and> (\<exists>l \<le> hops. goal \<notin> within s start l \<and> set current = layer s start l
             \<and> set (ps_visited st) = within s start l
             \<and> set (ps_seen st) = e_id ` done_edges s start l
             \<and> (if current = [] then True else l = hops \<and> reached = hops))))"

lemma path_levels_outcome:
  assumes "invar s" "mid s start goal l {} (st\<lparr>ps_next := []\<rparr>)" "set current = layer s start l"
    "l + left = hops" "level = Suc l" "current = [] \<or> reached = l"
  shows "outcome s start goal hops
    (path_levels (inc s) (dir s) goal nb eb left level current reached st)"
  using assms
proof (induction left arbitrary: l level current reached st)
  case 0
  then show ?case
    by (auto simp: outcome_def mid_def ends_of_def intro!: exI [of _ l])
next
  case (Suc left)
  show ?case
  proof (cases "current = []")
    case True
    with Suc.prems show ?thesis
      by (auto simp: outcome_def mid_def ends_of_def intro!: exI [of _ l])
  next
    case False
    let ?st1 = "path_nodes (inc s) (dir s) goal nb eb current (st\<lparr>ps_next := []\<rparr>)"
    have "\<not> stopped (st\<lparr>ps_next := []\<rparr>)" using Suc.prems(2) by (simp add: mid_def)
    note run = path_nodes_run [OF this]
    have pairs: "set (level_pairs (inc s) current) = level_set s start l"
      using Suc.prems(3) by (auto simp: set_level_pairs level_set_def)
    have step: "(ps_exhausted ?st1 \<and> \<not> ps_found ?st1) \<or> found_inv s start goal l ?st1
        \<or> mid s start goal l (level_set s start l) ?st1"
      using path_run_mid [OF Suc.prems(1,2), of "level_pairs (inc s) current" nb eb]
      by (simp add: run pairs)
    show ?thesis
    proof (cases "stopped ?st1")
      case True
      then have "\<not> mid s start goal l (level_set s start l) ?st1" by (simp add: mid_def)
      with step True False Suc.prems(4) show ?thesis
        by (auto simp: outcome_def Let_def)
    next
      case run: False
      then have "mid s start goal l (level_set s start l) ?st1"
        using step by (auto simp: found_inv_def)
      from mid_next_level [OF this] Suc.IH [OF Suc.prems(1), of "Suc l" ?st1 "ps_next ?st1" "Suc level" level]
        Suc.prems(4,5) run False
      show ?thesis by (simp add: Let_def)
    qed
  qed
qed

lemma mid_start:
  assumes "start \<noteq> goal"
  shows "mid s start goal 0 {} (start_state start)"
  using assms
  by (simp add: mid_def start_state_def links_def ends_of_def done_edges_def)

lemma search_outcome:
  assumes "invar s" "start \<noteq> goal"
  shows "outcome s start goal hops
    (path_levels (inc s) (dir s) goal nb eb hops 1 [start] 0 (start_state start))"
proof -
  have "mid s start goal 0 {} ((start_state start)\<lparr>ps_next := []\<rparr>)"
    using mid_start [OF assms(2)] by (simp add: start_state_def)
  then show ?thesis
    using assms(1) by (intro path_levels_outcome) simp_all
qed

text \<open>What a found path is: a shortest chain, rebuilt by a loop that ends.\<close>

lemma found_chain:
  assumes "found_inv s start goal l st"
  shows "\<exists>ids es. rebuild (Suc (length (ps_parent st))) (ps_parent st) goal = Some (ids, es)
    \<and> chain s ids es \<and> hd ids = start \<and> last ids = goal \<and> length es = Suc l
    \<and> goal \<notin> ball (hop (inc s) (dir s)) {start} l"
  using assms rebuild_enough [of s start "ps_parent st" goal "Suc l"] layer_Suc [of s start l]
  by (auto simp: found_inv_def within_def simp del: rebuild.simps)

lemma layer_empty_absent:
  assumes "layer s start l = {}" "goal \<notin> within s start l"
  shows "\<not> (hop (inc s) (dir s))\<^sup>*\<^sup>* start goal"
  using reach_eq_ball [of "hop (inc s) (dir s)" "{start}" l] assms
  by (auto simp: layer_def within_def reach_def)

end

section \<open>Budgets and visited nodes\<close>

definition in_bounds :: "nat \<Rightarrow> nat \<Rightarrow> string set \<Rightarrow> path_state \<Rightarrow> bool" where
  "in_bounds nb eb P st =
     (length (ps_visited st) \<le> nb \<and> length (ps_seen st) \<le> eb \<and> set (ps_visited st) \<subseteq> P)"

lemma path_edges_bounds:
  assumes "in_bounds nb eb P st" "\<And>e w. e \<in> set es \<Longrightarrow> other_end e u d = Some w \<Longrightarrow> w \<in> P"
  shows "in_bounds nb eb P (path_edges d goal nb eb u es st)"
  using assms
proof (induction es arbitrary: st)
  case (Cons e es)
  have IH: "in_bounds nb eb P st' \<Longrightarrow> in_bounds nb eb P (path_edges d goal nb eb u es st')" for st'
    using Cons.prems(2) by (intro Cons.IH) auto
  have e: "set_option (other_end e u d) \<subseteq> P" using Cons.prems(2) [of e] by auto
  show ?case
    by (simp only: path_edges.simps Let_def split: if_split option.split)
      (intro conjI impI allI; (rule IH)?; insert Cons.prems(1) e; simp add: in_bounds_def)
qed simp

lemma path_nodes_bounds:
  assumes "in_bounds nb eb P st" "\<And>u e w. e \<in> set (inc u) \<Longrightarrow> other_end e u d = Some w \<Longrightarrow> w \<in> P"
  shows "in_bounds nb eb P (path_nodes inc d goal nb eb us st)"
  using assms(1)
proof (induction us arbitrary: st)
  case (Cons u us)
  have "in_bounds nb eb P (path_edges d goal nb eb u (inc u) st)"
    by (rule path_edges_bounds [OF Cons.prems]) (rule assms(2))
  with Cons.IH show ?case by (simp add: Let_def)
qed simp

lemma path_levels_bounds:
  assumes "in_bounds nb eb P st" "\<And>u e w. e \<in> set (inc u) \<Longrightarrow> other_end e u d = Some w \<Longrightarrow> w \<in> P"
  shows "in_bounds nb eb P (snd (snd (path_levels inc d goal nb eb left level current reached st)))"
  using assms(1)
proof (induction left arbitrary: level current reached st)
  case (Suc left)
  have "in_bounds nb eb P (path_nodes inc d goal nb eb current (st\<lparr>ps_next := []\<rparr>))"
    using Suc.prems by (intro path_nodes_bounds assms(2)) (simp add: in_bounds_def)
  with Suc show ?case by (simp add: Let_def)
qed simp

section \<open>The pinned scope provides the interface\<close>

type_synonym path_scope = "graph_set \<times> string \<times> string list option"

definition scope_incident :: "path_scope \<Rightarrow> string \<Rightarrow> edge list" where
  "scope_incident s = (case s of (gs, d, kinds) \<Rightarrow> incident gs d kinds None)"

definition scope_direction :: "path_scope \<Rightarrow> string" where
  "scope_direction s = fst (snd s)"

definition scope_ok :: "path_scope \<Rightarrow> bool" where
  "scope_ok s = (case s of (gs, d, kinds) \<Rightarrow>
     gs_inv gs \<and> d \<in> set DIRECTIONS \<and> inj_on e_id (set (all_edges gs)))"

lemma scope_incident_iff:
  assumes "scope_ok s"
  shows "e \<in> set (scope_incident s u) \<longleftrightarrow>
    e \<in> set (all_edges (fst s)) \<and> edge_selected (snd (snd s)) None e \<and> touches (scope_direction s) u e"
  using assms
  by (auto simp: scope_ok_def scope_incident_def scope_direction_def incident_set_iff split: prod.splits)

interpretation pinned_index: edge_index scope_incident scope_direction scope_ok
proof (unfold_locales, goal_cases)
  case (1 s e u f v)
  then have "e \<in> set (all_edges (fst s))" "f \<in> set (all_edges (fst s))"
    by (simp_all add: scope_incident_iff)
  moreover have "inj_on e_id (set (all_edges (fst s)))"
    using 1(1) by (simp add: scope_ok_def split: prod.splits)
  ultimately show ?case using 1(4) by (auto dest: inj_onD)
next
  case (2 s e u)
  then have "touches (scope_direction s) u e" by (simp add: scope_incident_iff)
  with 2(3) show ?case
    by (auto simp: touches_def other_end_def edge_resolved_def)
next
  case (3 s e u v u' w)
  then show ?case
    by (auto simp: other_end_def split: option.splits if_splits)
qed

lemma scope_hop:
  assumes "scope_ok (gs, d, kinds)"
  shows "hop (scope_incident (gs, d, kinds)) (scope_direction (gs, d, kinds)) = walk_hop gs d kinds None"
proof -
  have "scope_incident (gs, d, kinds) = incident gs d kinds None"
    by (intro ext) (simp add: scope_incident_def)
  then show ?thesis
    using assms hop_incident [of gs d kinds None] by (simp add: scope_direction_def scope_ok_def)
qed

lemma path_search_outcome:
  assumes "scope_ok (gs, d, kinds)" "start \<noteq> goal"
  shows "pinned_index.outcome (gs, d, kinds) start goal (nat hops)
    (path_search gs d kinds start goal hops nb eb)"
proof -
  have "scope_incident (gs, d, kinds) = incident gs d kinds None"
    by (intro ext) (simp add: scope_incident_def)
  moreover have "scope_direction (gs, d, kinds) = d" by (simp add: scope_direction_def)
  ultimately show ?thesis
    using pinned_index.search_outcome [OF assms, of "nat hops" "nat nb" "nat eb"] assms(2)
    by (simp add: path_search_def)
qed

text \<open>A path through real edges: each edge leads from one listed node to the next.\<close>

fun trail :: "edge set \<Rightarrow> string \<Rightarrow> string list \<Rightarrow> edge list \<Rightarrow> bool" where
  "trail E d [v] [] = True"
| "trail E d (u # v # vs) (e # es) = (e \<in> E \<and> other_end e u d = Some v \<and> trail E d (v # vs) es)"
| "trail E d _ _ = False"

definition selected_edges :: "graph_set \<Rightarrow> string list option \<Rightarrow> edge set" where
  "selected_edges gs kinds = {e \<in> set (all_edges gs). edge_selected kinds None e}"

lemma chain_trail:
  "pinned_index.chain s ids es \<Longrightarrow> scope_ok s \<Longrightarrow>
     trail (selected_edges (fst s) (snd (snd s))) (scope_direction s) ids es"
proof (induction s ids es rule: pinned_index.chain.induct)
  case (2 s u v vs e es)
  then show ?case
    by (simp add: selected_edges_def scope_incident_iff)
qed auto

lemma search_found:
  assumes "scope_ok (gs, d, kinds)" "ps_found (snd (snd (path_search gs d kinds start goal hops nb eb)))"
    "0 \<le> hops"
  defines "st \<equiv> snd (snd (path_search gs d kinds start goal hops nb eb))"
  shows "\<exists>ids es. rebuild (Suc (length (ps_parent st))) (ps_parent st) goal = Some (ids, es)
    \<and> trail (selected_edges gs kinds) d ids es \<and> hd ids = start \<and> last ids = goal
    \<and> int (length es) \<le> hops \<and> (\<forall>n < length es. goal \<notin> ball (walk_hop gs d kinds None) {start} n)"
proof (cases "start = goal")
  case True
  then show ?thesis
    using assms(3) by (simp add: st_def path_search_def start_state_def)
next
  case False
  from path_search_outcome [OF assms(1) False, of hops nb eb] assms(2)
  obtain l where l: "l < nat hops" "pinned_index.found_inv (gs, d, kinds) start goal l st"
    by (auto simp: pinned_index.outcome_def st_def split: prod.splits)
  from pinned_index.found_chain [OF l(2)] obtain ids es where
    r: "rebuild (Suc (length (ps_parent st))) (ps_parent st) goal = Some (ids, es)"
      "pinned_index.chain (gs, d, kinds) ids es" "hd ids = start" "last ids = goal" "length es = Suc l"
    and b: "goal \<notin> ball (walk_hop gs d kinds None) {start} l"
    by (auto simp: scope_hop [OF assms(1)])
  have "goal \<notin> ball (walk_hop gs d kinds None) {start} n" if "n < Suc l" for n
    using b ball_mono [of n l "walk_hop gs d kinds None" "{start}"] that by auto
  with r l(1) chain_trail [OF r(2) assms(1)] show ?thesis
    by (auto simp: scope_direction_def)
qed

lemma search_missed:
  assumes "scope_ok (gs, d, kinds)" "path_search gs d kinds start goal hops nb eb = (current, reached, st)"
    "\<not> ps_found st" "\<not> ps_exhausted st" "0 \<le> hops"
  shows "(\<exists>l \<le> nat hops. goal \<notin> ball (walk_hop gs d kinds None) {start} l
      \<and> set (ps_visited st) = ball (walk_hop gs d kinds None) {start} l
      \<and> (if current = [] then sphere (walk_hop gs d kinds None) {start} l = {}
          else l = nat hops \<and> int reached = hops))"
proof -
  have "start \<noteq> goal" using assms(2,3) by (auto simp: path_search_def)
  from path_search_outcome [OF assms(1) this, of hops nb eb] assms(2-5) show ?thesis
    by (auto simp: pinned_index.outcome_def pinned_index.found_inv_def pinned_index.within_def
        pinned_index.layer_def scope_hop [OF assms(1)] split: if_splits)
qed

lemma path_cases:
  assumes "path cf sc target target_to projects depth direction edge_kinds projection max_nodes max_edges = Inr r"
    "narrowed sc projects = Inr gs"
  obtains (ambiguous) "\<not> p_found r" "\<not> p_proven_absent r" "p_status r = ''ambiguous_target''" "p_target r = None"
  | (ran) d ks hops nb eb sections start goal current reached st where
      "d \<in> set DIRECTIONS" "0 \<le> hops" "1 \<le> nb" "0 \<le> eb"
      "resolve cf gs target = Inr start" "resolve cf gs target_to = Inr goal"
      "path_search gs d (kinds_or_none ks) (n_id start) (n_id goal) hops nb eb = (current, reached, st)"
      "(if ps_found st then found_path gs sections d ks hops start goal st
        else missed_path cf gs d ks hops start goal (current, reached, st)) = Inr r"
proof -
  obtain sections hops d ks nb eb where v:
    "normalise_projection projection = Inr sections" "bounded_int depth 0 MAX_DEPTH (Some DEFAULT_DEPTH) = Inr hops"
    "choice direction DIRECTIONS (Some ''both'') = Inr d"
    "bounded_int max_nodes 1 MAX_NODES (Some DEFAULT_MAX_NODES) = Inr nb"
    "bounded_int max_edges 0 MAX_EDGES (Some DEFAULT_MAX_EDGES) = Inr eb"
    and body: "(case resolve cf gs target of
          Inl (TargetAmbiguous t ids) \<Rightarrow> ambiguous_path gs sections target ids target target_to d ks hops
        | Inl err \<Rightarrow> Inl err
        | Inr start \<Rightarrow>
            (case resolve cf gs target_to of
               Inl (TargetAmbiguous t ids) \<Rightarrow> ambiguous_path gs sections target_to ids target target_to d ks hops
             | Inl err \<Rightarrow> Inl err
             | Inr goal \<Rightarrow>
                 (let res = path_search gs d (kinds_or_none ks) (n_id start) (n_id goal) hops nb eb
                  in if ps_found (snd (snd res))
                     then found_path gs sections d ks hops start goal (snd (snd res))
                     else missed_path cf gs d ks hops start goal res))) = Inr r"
    using assms unfolding path_def narrowed_def bind_result_eq_Inr by auto
  have rng: "d \<in> set DIRECTIONS" "0 \<le> hops" "1 \<le> nb" "0 \<le> eb"
    using v by (auto dest!: choice_member bounded_int_range
        simp: DIRECTIONS_def MAX_DEPTH_def DEFAULT_DEPTH_def MAX_NODES_def DEFAULT_MAX_NODES_def
          MAX_EDGES_def DEFAULT_MAX_EDGES_def)
  have amb: "\<not> p_found r \<and> \<not> p_proven_absent r \<and> p_status r = ''ambiguous_target'' \<and> p_target r = None"
    if "ambiguous_path gs sections lab ids target target_to d ks hops = Inr r" for lab ids
    using that by (auto simp: ambiguous_path_def result_simps)
  show thesis
  proof (cases "resolve cf gs target")
    case (Inl err)
    with body amb ambiguous show thesis by (cases err) auto
  next
    case start: (Inr start)
    show thesis
    proof (cases "resolve cf gs target_to")
      case (Inl err)
      with body amb ambiguous start show thesis by (cases err) auto
    next
      case (Inr goal)
      obtain current reached st where
        "path_search gs d (kinds_or_none ks) (n_id start) (n_id goal) hops nb eb = (current, reached, st)"
        by (cases "path_search gs d (kinds_or_none ks) (n_id start) (n_id goal) hops nb eb")
      moreover from this body start Inr
      have "(if ps_found st then found_path gs sections d ks hops start goal st
          else missed_path cf gs d ks hops start goal (current, reached, st)) = Inr r"
        by (auto simp: Let_def split: if_splits)
      ultimately show thesis by (rule ran [OF rng start Inr])
    qed
  qed
qed

lemma found_path_answer:
  assumes "found_path gs sections d ks hops start goal st = Inr r"
  obtains ids es where "rebuild (Suc (length (ps_parent st))) (ps_parent st) (n_id goal) = Some (ids, es)"
    "p_found r" "p_target r = Some (n_id start)" "p_target_to r = Some (n_id goal)" "p_direction r = d"
    "p_edge_kinds r = ks" "p_depth r = hops" "p_length r = length es"
    "p_edges r = map edge_as_document es" "length (p_nodes r) = length ids" "\<not> p_proven_absent r"
    "\<not> p_budget_exhausted r" "p_incomplete r = []"
proof -
  obtain ids es where r: "rebuild (Suc (length (ps_parent st))) (ps_parent st) (n_id goal) = Some (ids, es)"
    using assms by (auto simp: found_path_def split: option.splits)
  obtain ns docs where ns: "map_result (gs_node gs) ids = Inr ns" "map_result (projected gs sections) ns = Inr docs"
    using assms by (auto simp: found_path_def r result_simps simp del: rebuild.simps)
  have "length docs = length ids"
    using map_result_Inr_length [OF ns(1)] map_result_Inr_length [OF ns(2)] by simp
  with assms ns show ?thesis
    by (intro that [OF r]) (auto simp: found_path_def r simp del: rebuild.simps)
qed

lemma missed_path_answer:
  assumes "missed_path cf gs d ks hops start goal (current, reached, st) = Inr r"
  shows "\<not> p_found r \<and> p_target r = Some (n_id start) \<and> p_target_to r = Some (n_id goal)
    \<and> p_direction r = d \<and> p_edge_kinds r = ks \<and> p_depth r = hops
    \<and> p_budget_exhausted r = ps_exhausted st \<and> p_visited r = length (ps_visited st)
    \<and> (p_proven_absent r \<longrightarrow> \<not> ps_exhausted st \<and> gs_missing gs = []
        \<and> (current = [] \<or> int reached < hops)
        \<and> (\<exists>visited. map_result (gs_node gs) (ps_visited st) = Inr visited
            \<and> relevant_unresolved cf gs visited (ps_unresolved st) = []))"
proof -
  obtain visited where v: "map_result (gs_node gs) (ps_visited st) = Inr visited"
    using assms by (auto simp: missed_path_def bind_result_eq_Inr)
  let ?rel = "relevant_unresolved cf gs visited (ps_unresolved st)"
  have r: "p_found r = False" "p_target r = Some (n_id start)" "p_target_to r = Some (n_id goal)"
    "p_direction r = d" "p_edge_kinds r = ks" "p_depth r = hops"
    "p_budget_exhausted r = ps_exhausted st" "p_visited r = length (ps_visited st)"
    "p_proven_absent r = (\<not> ps_exhausted st \<and> gs_missing gs = [] \<and> ?rel = []
       \<and> \<not> (current \<noteq> [] \<and> int reached \<ge> hops \<and> \<not> ps_exhausted st))"
    using assms unfolding missed_path_def prod.case v bind_result_Inr Let_def by (auto split: if_splits)
  show ?thesis by (auto simp: r v not_le)
qed

lemma resolve_pinned:
  assumes "gs_inv gs" "resolve cf gs sel = Inr n"
  shows "gs_node gs (n_id n) = Inr n"
proof -
  have "sel \<noteq> []" using assms(2) by (auto simp: resolve_empty)
  then obtain ts where "set ts = best_matches cf gs sel" "distinct (map n_id ts)"
      "resolve cf gs sel = pick_unique sel ts"
    by (rule resolve_tied [OF assms(1)])
  then have "n \<in> best_matches cf gs sel"
    using assms(2) by (auto simp: pick_unique_def split: list.splits if_splits)
  then show ?thesis by (simp add: best_matches_def gs_node_iff [OF assms(1)])
qed

section \<open>The three answers\<close>

lemma found_is_shortest:
  assumes "path cf sc target target_to projects depth direction edge_kinds projection max_nodes max_edges = Inr r"
    "narrowed sc projects = Inr gs" "gs_inv gs" "inj_on e_id (set (all_edges gs))" "p_found r"
  shows "\<exists>start goal ids es. p_target r = Some start \<and> p_target_to r = Some goal
    \<and> p_edges r = map edge_as_document es \<and> length (p_nodes r) = Suc (p_length r)
    \<and> trail (selected_edges gs (kinds_or_none (p_edge_kinds r))) (p_direction r) ids es
    \<and> hd ids = start \<and> last ids = goal \<and> length es = p_length r \<and> int (p_length r) \<le> p_depth r
    \<and> (\<forall>n < p_length r. goal \<notin> ball (walk_hop gs (p_direction r) (kinds_or_none (p_edge_kinds r)) None) {start} n)"
  using assms(1,2)
proof (cases rule: path_cases)
  case ambiguous
  with assms(5) show ?thesis by simp
next
  case (ran d ks hops nb eb sections start goal current reached st)
  have f: "ps_found st"
    using ran(8) assms(5) missed_path_answer by (auto split: if_splits)
  have ok: "scope_ok (gs, d, kinds_or_none ks)"
    using assms(3,4) ran(1) by (simp add: scope_ok_def)
  obtain ids es where r: "rebuild (Suc (length (ps_parent st))) (ps_parent st) (n_id goal) = Some (ids, es)"
    and t: "trail (selected_edges gs (kinds_or_none ks)) d ids es" "hd ids = n_id start" "last ids = n_id goal"
      "int (length es) \<le> hops"
      "\<forall>n < length es. n_id goal \<notin> ball (walk_hop gs d (kinds_or_none ks) None) {n_id start} n"
    using search_found [OF ok, of "n_id start" "n_id goal" hops nb eb] f ran(2,7) by auto
  have "length ids = Suc (length es)"
    using t(1) by (induction rule: trail.induct) auto
  have fp: "found_path gs sections d ks hops start goal st = Inr r" using ran(8) f by simp
  obtain ids' es' where a: "rebuild (Suc (length (ps_parent st))) (ps_parent st) (n_id goal) = Some (ids', es')"
    "p_target r = Some (n_id start)" "p_target_to r = Some (n_id goal)" "p_direction r = d"
    "p_edge_kinds r = ks" "p_depth r = hops" "p_length r = length es'"
    "p_edges r = map edge_as_document es'" "length (p_nodes r) = length ids'"
    by (rule found_path_answer [OF fp])
  have "ids' = ids" "es' = es" using a(1) r by (simp_all del: rebuild.simps)
  with t \<open>length ids = Suc (length es)\<close> show ?thesis
    unfolding a(2-9) by (intro exI [of _ "n_id start"] exI [of _ "n_id goal"] exI [of _ ids] exI [of _ es]) simp
qed

text \<open>The only loop of the operation that could go on for ever is the reconstruction: nothing else diverges.\<close>

definition ends :: "'a result \<Rightarrow> bool" where
  "ends r = (r \<noteq> Inl Diverges)"

lemma ends_Inr [simp]: "ends (Inr x)" and ends_Inl: "ends (Inl e) = (e \<noteq> Diverges)"
  by (simp_all add: ends_def)

lemma ends_bind: "ends r \<Longrightarrow> (\<And>x. r = Inr x \<Longrightarrow> ends (f x)) \<Longrightarrow> ends (bind_result r f)"
  by (cases r) (auto simp: ends_def)

lemma ends_map: "(\<And>x. ends (f x)) \<Longrightarrow> ends (map_result f xs)"
  by (induction xs) (auto intro!: ends_bind)

lemma ends_lookups [simp]: "ends (gs_node gs i)" "ends (gs_graph gs p)" "ends (projected gs sections n)"
  by (auto simp: gs_node_def gs_graph_def projected_def ends_Inl intro!: ends_bind split: option.split)

lemma ends_arguments [simp]:
  "ends (bounded_int v low high dflt)" "ends (choice v allowed dfl)" "ends (choice_list v allowed dflts)"
  "ends (normalise_projection v)"
proof -
  have item: "ends (choice_item allowed x)" for allowed x by (auto simp: choice_item_def ends_Inl split: pyval.split)
  show list: "ends (choice_list v allowed dflts)" for v allowed dflts
    using item by (auto simp: choice_list_def ends_Inl intro!: ends_bind ends_map split: pyval.split)
  show "ends (normalise_projection v)" using list by (auto simp: normalise_projection_def ends_Inl intro!: ends_bind)
qed (auto simp: bounded_int_def choice_def ends_Inl split: pyval.split option.split)

lemma ends_ambiguous [simp]: "ends (ambiguous_path gs sections label ids target target_to d ks hops)"
  by (auto simp: ambiguous_path_def candidate_documents_def intro!: ends_bind ends_map)

lemma ends_missed [simp]: "ends (missed_path cf gs d ks hops start goal res)"
  by (auto simp: missed_path_def Let_def intro!: ends_bind ends_map split: prod.split)

lemma ends_resolve: "ends (resolve cf gs selector)"
  by (auto simp: resolve_def match_nodes_def text_value_def ends_Inl intro!: ends_bind split: list.split)

lemma ends_path:
  assumes "narrowed sc projects = Inr gs" "gs_inv gs" "inj_on e_id (set (all_edges gs))"
  shows "ends (path cf sc target target_to projects depth direction edge_kinds projection max_nodes max_edges)"
proof -
  have found: "ends (found_path gs sections d ks hops start goal st)"
    if run: "choice direction DIRECTIONS (Some ''both'') = Inr d" "bounded_int depth 0 MAX_DEPTH (Some DEFAULT_DEPTH) = Inr hops"
      "st = snd (snd (path_search gs d (kinds_or_none ks) (n_id start) (n_id goal) hops nb eb))" "ps_found st"
    for sections d ks hops start goal st nb eb
  proof -
    have "d \<in> set DIRECTIONS" "0 \<le> hops"
      using run(1,2) by (auto dest!: choice_member bounded_int_range simp: DIRECTIONS_def MAX_DEPTH_def DEFAULT_DEPTH_def)
    then have ok: "scope_ok (gs, d, kinds_or_none ks)" using assms(2,3) by (simp add: scope_ok_def)
    obtain ids es where "rebuild (Suc (length (ps_parent st))) (ps_parent st) (n_id goal) = Some (ids, es)"
      using search_found [OF ok] run(3,4) \<open>0 \<le> hops\<close> by metis
    then show ?thesis by (auto simp: found_path_def intro!: ends_bind ends_map simp del: rebuild.simps)
  qed
  have resolved: "e \<noteq> Diverges" if "resolve cf gs selector = Inl e" for selector e
    using ends_resolve [of cf gs selector] that by (simp add: ends_Inl)
  have resolution: "ends (case resolve cf gs selector of
        Inl (TargetAmbiguous t ids) \<Rightarrow> ambiguous_path gs sections selector ids target target_to d ks hops
      | Inl err \<Rightarrow> Inl err | Inr n \<Rightarrow> after n)"
    if "\<And>n. ends (after n)" for selector sections d ks hops and after :: "node \<Rightarrow> path_result result"
    using resolved [of selector] that by (auto simp: ends_Inl split: sum.split query_error.split)
  have search: "ends (let res = path_search gs d (kinds_or_none ks) (n_id start) (n_id goal) hops nb eb
      in if ps_found (snd (snd res)) then found_path gs sections d ks hops start goal (snd (snd res))
         else missed_path cf gs d ks hops start goal res)"
    if "choice direction DIRECTIONS (Some ''both'') = Inr d" "bounded_int depth 0 MAX_DEPTH (Some DEFAULT_DEPTH) = Inr hops"
    for sections d ks hops start goal nb eb
    using found [OF that refl] by (simp add: Let_def)
  obtain x where "as_graph_set sc = Inr x" "narrow_scope x projects = Inr gs"
    using assms(1) by (auto simp: narrowed_def bind_result_eq_Inr)
  then show ?thesis
    unfolding path_def
    by (simp only: bind_result_Inr) (intro ends_bind resolution search ends_arguments; assumption)
qed

text \<open>
  C13. The operation never runs for ever: whatever it is asked, following the parent pointers back comes to an end.
  And a found path is real and shortest: its edges are selected pinned edges, each leading from one
  node of the path to the next, from the resolved start to the resolved goal, no longer than the
  depth bound, and no shorter path exists.
\<close>

theorem path_found_is_shortest:
  assumes "narrowed sc projects = Inr gs" "gs_inv gs" "inj_on e_id (set (all_edges gs))"
  shows "path cf sc target target_to projects depth direction edge_kinds projection max_nodes max_edges \<noteq> Inl Diverges
    \<and> (\<forall>r. path cf sc target target_to projects depth direction edge_kinds projection max_nodes max_edges = Inr r \<longrightarrow>
        p_found r \<longrightarrow>
        (\<exists>start goal ids es. p_target r = Some start \<and> p_target_to r = Some goal
          \<and> p_edges r = map edge_as_document es \<and> length (p_nodes r) = Suc (p_length r)
          \<and> trail (selected_edges gs (kinds_or_none (p_edge_kinds r))) (p_direction r) ids es
          \<and> hd ids = start \<and> last ids = goal \<and> length es = p_length r \<and> int (p_length r) \<le> p_depth r
          \<and> (\<forall>n < p_length r. goal \<notin> ball (walk_hop gs (p_direction r) (kinds_or_none (p_edge_kinds r)) None) {start} n)))"
  by (intro conjI allI impI ends_path [OF assms, unfolded ends_def] found_is_shortest [OF _ assms])

definition ex_path :: "string \<Rightarrow> string \<Rightarrow> pyval \<Rightarrow> pyval \<Rightarrow> pyval \<Rightarrow> path_result result" where
  "ex_path a b depth direction max_nodes =
     path (\<lambda>s. s) (ScopeSet ex_set) a b None depth direction PNone PNone max_nodes PNone"

lemma ex_path_scope: "narrowed (ScopeSet ex_set) None = Inr ex_set"
  by (simp add: narrowed_def narrow_scope_def)

theorem path_found_is_shortest_witness:
  "\<exists>r. ex_path ''cc'' ''aa'' (PInt 8) (PStr ''outgoing'') PNone = Inr r \<and> p_length r = 2
     \<and> ex_id CHR ''a'' \<notin> ball (walk_hop ex_set ''outgoing'' None None) {ex_id CHR ''c''} 1"
proof -
  have "returns (ex_path ''cc'' ''aa'' (PInt 8) (PStr ''outgoing'') PNone)
      (\<lambda>r. p_found r \<and> p_length r = 2 \<and> p_target r = Some (ex_id CHR ''c'') \<and> p_target_to r = Some (ex_id CHR ''a'')
        \<and> p_direction r = ''outgoing'' \<and> kinds_or_none (p_edge_kinds r) = None)"
    by code_simp
  then obtain r where r: "ex_path ''cc'' ''aa'' (PInt 8) (PStr ''outgoing'') PNone = Inr r"
    "p_found r" "p_length r = 2" "p_target r = Some (ex_id CHR ''c'')" "p_target_to r = Some (ex_id CHR ''a'')"
    "p_direction r = ''outgoing''" "kinds_or_none (p_edge_kinds r) = None"
    unfolding returns_iff by blast
  from path_found_is_shortest [OF ex_path_scope ex_set_inv ex_set_edge_ids] r(1,2) [unfolded ex_path_def]
  have "\<exists>start goal. p_target r = Some start \<and> p_target_to r = Some goal
    \<and> (\<forall>n < p_length r. goal \<notin> ball (walk_hop ex_set (p_direction r) (kinds_or_none (p_edge_kinds r)) None) {start} n)" by blast
  with r show ?thesis by auto
qed

text \<open>
  C4. A proven absence is one: when the result claims it, no chain of selected pinned edges of any
  length leads from the start to the goal, no requested member is missing, and the nodes the search
  visited are all the nodes reachable from the start.
\<close>

theorem path_absence_is_proof:
  assumes "path cf sc target target_to projects depth direction edge_kinds projection max_nodes max_edges = Inr r"
    "narrowed sc projects = Inr gs" "gs_inv gs" "inj_on e_id (set (all_edges gs))" "p_proven_absent r"
  shows "\<exists>start goal. p_target r = Some start \<and> p_target_to r = Some goal
    \<and> \<not> (walk_hop gs (p_direction r) (kinds_or_none (p_edge_kinds r)) None)\<^sup>*\<^sup>* start goal
    \<and> gs_missing gs = [] \<and> \<not> p_budget_exhausted r
    \<and> card (reach (walk_hop gs (p_direction r) (kinds_or_none (p_edge_kinds r)) None) {start}) \<le> p_visited r"
  using assms(1,2)
proof (cases rule: path_cases)
  case ambiguous
  with assms(5) show ?thesis by simp
next
  case (ran d ks hops nb eb sections start goal current reached st)
  have nf: "\<not> ps_found st"
    using ran(8) assms(5) by (auto elim: found_path_answer split: if_splits)
  with ran(8) have m: "missed_path cf gs d ks hops start goal (current, reached, st) = Inr r" by simp
  note a = missed_path_answer [OF m]
  have ne: "\<not> ps_exhausted st" "current = [] \<or> int reached < hops" "gs_missing gs = []"
    using a assms(5) by auto
  have ok: "scope_ok (gs, d, kinds_or_none ks)"
    using assms(3,4) ran(1) by (simp add: scope_ok_def)
  let ?R = "walk_hop gs d (kinds_or_none ks) None"
  obtain l where l: "n_id goal \<notin> ball ?R {n_id start} l" "set (ps_visited st) = ball ?R {n_id start} l"
    "sphere ?R {n_id start} l = {}"
    using search_missed [OF ok ran(7) nf ne(1) ran(2)] ne(2) by (auto split: if_splits)
  have eq: "reach ?R {n_id start} = ball ?R {n_id start} l" by (rule reach_eq_ball [OF l(3)])
  then have "\<not> ?R\<^sup>*\<^sup>* (n_id start) (n_id goal)"
    using l(1) by (auto simp: reach_def)
  moreover have "card (reach ?R {n_id start}) \<le> length (ps_visited st)"
    unfolding eq l(2) [symmetric] by (rule card_length)
  ultimately show ?thesis
    using a ne by auto
qed

theorem path_absence_is_proof_witness:
  "\<exists>r. ex_path ''aa'' ''cc'' (PInt 8) (PStr ''outgoing'') PNone = Inr r
     \<and> \<not> (walk_hop ex_set ''outgoing'' None None)\<^sup>*\<^sup>* (ex_id CHR ''a'') (ex_id CHR ''c'')"
proof -
  have "returns (ex_path ''aa'' ''cc'' (PInt 8) (PStr ''outgoing'') PNone)
      (\<lambda>r. p_proven_absent r \<and> p_target r = Some (ex_id CHR ''a'') \<and> p_target_to r = Some (ex_id CHR ''c'')
        \<and> p_direction r = ''outgoing'' \<and> kinds_or_none (p_edge_kinds r) = None)"
    by code_simp
  then obtain r where r: "ex_path ''aa'' ''cc'' (PInt 8) (PStr ''outgoing'') PNone = Inr r"
    "p_proven_absent r" "p_target r = Some (ex_id CHR ''a'')" "p_target_to r = Some (ex_id CHR ''c'')"
    "p_direction r = ''outgoing''" "kinds_or_none (p_edge_kinds r) = None"
    unfolding returns_iff by blast
  from path_absence_is_proof [OF r(1) [unfolded ex_path_def] ex_path_scope ex_set_inv ex_set_edge_ids r(2)] r
  show ?thesis by auto
qed

text \<open>
  C14. The search is complete inside its bounds: when the goal is within the depth bound and no
  budget stopped the search, the path is found.
\<close>

theorem path_finds_within_bounds:
  assumes "path cf sc target target_to projects depth direction edge_kinds projection max_nodes max_edges = Inr r"
    "narrowed sc projects = Inr gs" "gs_inv gs" "inj_on e_id (set (all_edges gs))"
    "p_target r = Some start" "p_target_to r = Some goal" "\<not> p_budget_exhausted r"
    "goal \<in> ball (walk_hop gs (p_direction r) (kinds_or_none (p_edge_kinds r)) None) {start} (nat (p_depth r))"
  shows "p_found r"
  using assms(1,2)
proof (cases rule: path_cases)
  case ambiguous
  with assms(5) show ?thesis by simp
next
  case (ran d ks hops nb eb sections s0 g0 current reached st)
  show ?thesis
  proof (rule ccontr)
    assume "\<not> p_found r"
    then have nf: "\<not> ps_found st"
      using ran(8) by (auto elim: found_path_answer split: if_splits)
    with ran(8) have m: "missed_path cf gs d ks hops s0 g0 (current, reached, st) = Inr r" by simp
    note a = missed_path_answer [OF m]
    have ok: "scope_ok (gs, d, kinds_or_none ks)"
      using assms(3,4) ran(1) by (simp add: scope_ok_def)
    let ?R = "walk_hop gs d (kinds_or_none ks) None"
    have ids: "start = n_id s0" "goal = n_id g0" using a assms(5,6) by auto
    obtain l where l: "l \<le> nat hops" "goal \<notin> ball ?R {start} l"
      "sphere ?R {start} l = {} \<or> l = nat hops"
      using search_missed [OF ok ran(7) nf _ ran(2)] a assms(7) ids by (auto split: if_splits)
    then have "goal \<notin> ball ?R {start} (nat hops)"
      using ball_stable [of ?R "{start}" l "nat hops"] by auto
    then show False using assms(8) a by simp
  qed
qed

theorem path_finds_within_bounds_witness:
  "\<exists>r. ex_path ''cc'' ''aa'' (PInt 2) (PStr ''both'') (PInt 3) = Inr r \<and> p_found r"
proof -
  have "returns (ex_path ''cc'' ''aa'' (PInt 2) (PStr ''both'') (PInt 3))
      (\<lambda>r. \<not> p_budget_exhausted r \<and> p_target r = Some (ex_id CHR ''c'') \<and> p_target_to r = Some (ex_id CHR ''a'')
        \<and> p_depth r = 2 \<and> p_direction r = ''both'' \<and> kinds_or_none (p_edge_kinds r) = None)"
    by code_simp
  then obtain r where r: "ex_path ''cc'' ''aa'' (PInt 2) (PStr ''both'') (PInt 3) = Inr r"
    "\<not> p_budget_exhausted r" "p_target r = Some (ex_id CHR ''c'')" "p_target_to r = Some (ex_id CHR ''a'')"
    "p_depth r = 2" "p_direction r = ''both''" "kinds_or_none (p_edge_kinds r) = None"
    unfolding returns_iff by blast
  have "walk_hop ex_set ''both'' None None (ex_id CHR ''c'') (ex_id CHR ''b'')"
    "walk_hop ex_set ''both'' None None (ex_id CHR ''b'') (ex_id CHR ''a'')"
    by (simp_all add: walk_hop_def ex_set_edges edge_selected_def other_end_def ex_edge_def ex_id_def)
  then have "(walk_hop ex_set ''both'' None None ^^ 2) (ex_id CHR ''c'') (ex_id CHR ''a'')"
    by (auto simp: numeral_2_eq_2)
  then have "ex_id CHR ''a'' \<in> ball (walk_hop ex_set ''both'' None None) {ex_id CHR ''c''} (nat 2)"
    by (auto simp: ball_def)
  with path_finds_within_bounds [OF r(1) [unfolded ex_path_def] ex_path_scope ex_set_inv ex_set_edge_ids r(3,4,2)] r
  show ?thesis by auto
qed

end
