(* ===== verification/Neighbors.thy ===== *)
theory Neighbors
  imports Projection WalkFacts
begin

text \<open>
  The two operations that project one walk: \<open>context\<close> (\<open>query/context.py\<close>) and the neighbour and
  dependency traversals (\<open>query/neighbors.py\<close>). Both validate their arguments in the order of the
  code, answer an ambiguous target with its candidates, and otherwise project the nodes and edges
  of one bounded walk. Their results are records; \<open>*_as_document\<close> serialises them, with the message
  texts rendered by the argument \<open>say\<close>.
\<close>

section \<open>Calling the walk with validated arguments\<close>

definition kinds_value :: "string list option \<Rightarrow> pyval" where
  "kinds_value kinds = (case kinds of None \<Rightarrow> PNone | Some ks \<Rightarrow> PList (map PStr ks))"

definition walk_from ::
  "graph_set \<Rightarrow> string \<Rightarrow> int \<Rightarrow> string \<Rightarrow> string list option \<Rightarrow> string list option \<Rightarrow> pyval \<Rightarrow> pyval \<Rightarrow> walk result"
where
  "walk_from gs root hops direction kinds resolutions nodes edges =
     bounded_walk (ScopeSet gs) [PStr root] (PInt hops) (PStr direction) (kinds_value kinds)
       (kinds_value resolutions) nodes edges"

definition some_or_none :: "'a list \<Rightarrow> 'a list option" where
  "some_or_none ks = (if ks = [] then None else Some ks)"

definition value_or :: "pyval \<Rightarrow> int \<Rightarrow> pyval" where
  "value_or v d = (if v = PNone then PInt d else v)"

text \<open>\<open>tuple(project_node(node, sections, coverage=...) for node in nodes)\<close>\<close>

definition project_all :: "graph_set \<Rightarrow> string list \<Rightarrow> node list \<Rightarrow> pyval list result" where
  "project_all gs sections ns = map_result (projected gs sections) ns"

definition ambiguous_warning :: "string \<Rightarrow> string list \<Rightarrow> warning" where
  "ambiguous_warning target ids = Warning ''ambiguous_target'' [target] [int (length ids)]"

section \<open>Context\<close>

record context_result =
  c_target :: "string option"
  c_status :: string
  c_projection :: "string list"
  c_depth :: int
  c_nodes :: "pyval list"
  c_edges :: "pyval list"
  c_candidates :: "pyval list"
  c_visited :: nat
  c_depth_reached :: nat
  c_truncated :: bool
  c_reasons :: "string list"
  c_frontier :: "string list"
  c_warnings :: "warning list"

definition context_as_document :: "(warning \<Rightarrow> string) \<Rightarrow> context_result \<Rightarrow> pyval" where
  "context_as_document say r = PDict
     [(''status'', PStr (c_status r)), (''target'', text_or_none (c_target r)),
      (''projection'', strings (c_projection r)), (''depth'', PInt (c_depth r)),
      (''depth_reached'', PInt (int (c_depth_reached r))), (''nodes'', PList (c_nodes r)),
      (''edges'', PList (c_edges r)), (''candidates'', PList (c_candidates r)),
      (''visited'', PInt (int (c_visited r))), (''truncated'', PBool (c_truncated r)),
      (''reasons'', strings (c_reasons r)), (''frontier'', strings (c_frontier r)),
      (''warnings'', strings (map say (c_warnings r)))]"

text \<open>The incoming and outgoing edge ids per node, in one pass over the walked edges.\<close>

type_synonym relations = "(string, string list \<times> string list) dict"

definition relation_of :: "relations \<Rightarrow> string \<Rightarrow> string list \<times> string list" where
  "relation_of rel k = (case map_of rel k of None \<Rightarrow> ([], []) | Some r \<Rightarrow> r)"

definition add_outgoing :: "string \<Rightarrow> string \<Rightarrow> relations \<Rightarrow> relations" where
  "add_outgoing k eid rel =
     dict_set k (fst (relation_of rel k), snd (relation_of rel k) @ [eid]) rel"

definition add_incoming :: "string \<Rightarrow> string \<Rightarrow> relations \<Rightarrow> relations" where
  "add_incoming k eid rel =
     dict_set k (fst (relation_of rel k) @ [eid], snd (relation_of rel k)) rel"

definition add_relation :: "edge \<Rightarrow> relations \<Rightarrow> relations" where
  "add_relation e rel =
     (let rel1 = add_outgoing (e_source e) (e_id e) rel in
      case e_target e of None \<Rightarrow> rel1 | Some t \<Rightarrow> add_incoming t (e_id e) rel1)"

definition relations_of :: "edge list \<Rightarrow> relations" where
  "relations_of es = fold add_relation es []"

definition context_node :: "graph_set \<Rightarrow> string list \<Rightarrow> relations \<Rightarrow> node \<Rightarrow> pyval result" where
  "context_node gs sections rel n =
     bind_result (gs_graph gs (n_project n)) (\<lambda>g.
       Inr (project_node n sections (relation_of rel (n_id n)) (coverage_document g)))"

definition context_op ::
  "(string \<Rightarrow> string) \<Rightarrow> scope \<Rightarrow> string \<Rightarrow> string list option \<Rightarrow> pyval \<Rightarrow> pyval \<Rightarrow> pyval \<Rightarrow> pyval \<Rightarrow> pyval \<Rightarrow> pyval
   \<Rightarrow> context_result result" where
  "context_op cf sc target projects depth direction edge_kinds projection max_nodes max_edges =
     bind_result (as_graph_set sc) (\<lambda>scope.
     bind_result (narrow_scope scope projects) (\<lambda>gs.
     bind_result (normalise_projection projection) (\<lambda>sections.
     bind_result (bounded_int depth 0 MAX_DEPTH (Some DEFAULT_DEPTH)) (\<lambda>hops.
     bind_result (choice direction DIRECTIONS (Some ''both'')) (\<lambda>heading.
     bind_result (choice_list edge_kinds (sort EDGE_KINDS) (Some [])) (\<lambda>kinds.
       (case resolve cf gs target of
          Inl (TargetAmbiguous t ids) \<Rightarrow>
            bind_result (candidate_documents gs ids sections) (\<lambda>docs.
              Inr \<lparr>c_target = None, c_status = ''ambiguous_target'', c_projection = sections,
                   c_depth = hops, c_nodes = [], c_edges = [], c_candidates = docs, c_visited = 0,
                   c_depth_reached = 0, c_truncated = False, c_reasons = [], c_frontier = [],
                   c_warnings = [ambiguous_warning target ids]\<rparr>)
        | Inl err \<Rightarrow> Inl err
        | Inr resolved \<Rightarrow>
            bind_result (walk_from gs (n_id resolved) hops heading (some_or_none kinds) None
              (value_or max_nodes DEFAULT_MAX_NODES) (value_or max_edges DEFAULT_MAX_EDGES)) (\<lambda>w.
            bind_result (map_result (context_node gs sections (relations_of (w_edges w))) (w_nodes w)) (\<lambda>docs.
              Inr \<lparr>c_target = Some (n_id resolved), c_status = ''ok'', c_projection = sections,
                   c_depth = w_depth w, c_nodes = docs, c_edges = map edge_as_document (w_edges w),
                   c_candidates = [], c_visited = length (w_nodes w), c_depth_reached = w_depth_reached w,
                   c_truncated = w_truncated w, c_reasons = w_reasons w, c_frontier = w_frontier w,
                   c_warnings = (if w_unresolved w = [] then []
                     else [Warning ''unresolved_edges'' [] [int (length (w_unresolved w))]])\<rparr>)))))))))"

section \<open>Neighbours and dependencies\<close>

definition DEPENDENCY_KINDS :: "string list" where
  "DEPENDENCY_KINDS = [''IMPORTS'', ''REFERENCES'', ''CALLS'', ''INHERITS'', ''IMPLEMENTS'',
     ''CALLS_ENDPOINT'', ''READS'', ''WRITES'', ''EXECUTES_PROCEDURE'', ''DEPENDS_ON'', ''PUBLISHES'',
     ''SUBSCRIBES'', ''TESTS'']"

definition DEFAULT_NEIGHBOUR_DEPTH :: int where "DEFAULT_NEIGHBOUR_DEPTH = 1"

record neighbor_result =
  nb_target :: "string option"
  nb_status :: string
  nb_operation :: string
  nb_direction :: string
  nb_edge_kinds :: "string list option"
  nb_depth :: int
  nb_nodes :: "pyval list"
  nb_edges :: "pyval list"
  nb_unresolved :: "pyval list"
  nb_candidates :: "pyval list"
  nb_per_kind :: "(string, nat) dict"
  nb_visited :: nat
  nb_depth_reached :: nat
  nb_truncated :: bool
  nb_reasons :: "string list"
  nb_frontier :: "string list"
  nb_warnings :: "warning list"

definition neighbor_as_document :: "(warning \<Rightarrow> string) \<Rightarrow> neighbor_result \<Rightarrow> pyval" where
  "neighbor_as_document say r = PDict
     [(''status'', PStr (nb_status r)), (''operation'', PStr (nb_operation r)),
      (''target'', text_or_none (nb_target r)), (''direction'', PStr (nb_direction r)),
      (''edge_kinds'', (case nb_edge_kinds r of None \<Rightarrow> PNone | Some ks \<Rightarrow> strings ks)),
      (''depth'', PInt (nb_depth r)), (''depth_reached'', PInt (int (nb_depth_reached r))),
      (''nodes'', PList (nb_nodes r)), (''edges'', PList (nb_edges r)),
      (''unresolved'', PList (nb_unresolved r)), (''candidates'', PList (nb_candidates r)),
      (''per_kind'', counts_document (nb_per_kind r)), (''visited'', PInt (int (nb_visited r))),
      (''truncated'', PBool (nb_truncated r)), (''reasons'', strings (nb_reasons r)),
      (''frontier'', strings (nb_frontier r)), (''warnings'', strings (map say (nb_warnings r)))]"

definition per_kind :: "walk \<Rightarrow> (string, nat) dict" where
  "per_kind w = count_by e_kind (w_edges w) (count_by e_kind (w_unresolved w) [])"

definition neighbour_traversal ::
  "string \<Rightarrow> (string \<Rightarrow> string) \<Rightarrow> scope \<Rightarrow> string \<Rightarrow> string list option \<Rightarrow> pyval \<Rightarrow> pyval \<Rightarrow> pyval \<Rightarrow> pyval
   \<Rightarrow> pyval \<Rightarrow> pyval \<Rightarrow> neighbor_result result" where
  "neighbour_traversal operation cf sc target projects depth direction edge_kinds projection
     max_nodes max_edges =
     bind_result (as_graph_set sc) (\<lambda>scope.
     bind_result (narrow_scope scope projects) (\<lambda>gs.
     bind_result (normalise_projection projection) (\<lambda>sections.
     bind_result (bounded_int depth 0 MAX_DEPTH (Some DEFAULT_DEPTH)) (\<lambda>hops.
     bind_result (choice direction DIRECTIONS (Some ''both'')) (\<lambda>heading.
     bind_result (choice_list edge_kinds (sort EDGE_KINDS) (Some [])) (\<lambda>kinds.
     bind_result (bounded_int max_nodes 1 MAX_NODES (Some DEFAULT_MAX_NODES)) (\<lambda>node_budget.
     bind_result (bounded_int max_edges 0 MAX_EDGES (Some DEFAULT_MAX_EDGES)) (\<lambda>edge_budget.
       (case resolve cf gs target of
          Inl (TargetAmbiguous t ids) \<Rightarrow>
            bind_result (candidate_documents gs ids sections) (\<lambda>docs.
              Inr \<lparr>nb_target = None, nb_status = ''ambiguous_target'', nb_operation = operation,
                   nb_direction = heading, nb_edge_kinds = some_or_none kinds, nb_depth = hops,
                   nb_nodes = [], nb_edges = [], nb_unresolved = [], nb_candidates = docs,
                   nb_per_kind = [], nb_visited = 0, nb_depth_reached = 0, nb_truncated = False,
                   nb_reasons = [], nb_frontier = [], nb_warnings = [ambiguous_warning target ids]\<rparr>)
        | Inl err \<Rightarrow> Inl err
        | Inr resolved \<Rightarrow>
            bind_result (walk_from gs (n_id resolved) hops heading (some_or_none kinds) None
              (PInt node_budget) (PInt edge_budget)) (\<lambda>w.
            bind_result (project_all gs sections (w_nodes w)) (\<lambda>docs.
              Inr \<lparr>nb_target = Some (n_id resolved), nb_status = ''ok'', nb_operation = operation,
                   nb_direction = heading, nb_edge_kinds = some_or_none kinds, nb_depth = w_depth w,
                   nb_nodes = docs, nb_edges = map edge_as_document (w_edges w),
                   nb_unresolved = map edge_as_document (w_unresolved w), nb_candidates = [],
                   nb_per_kind = per_kind w, nb_visited = length (w_nodes w),
                   nb_depth_reached = w_depth_reached w, nb_truncated = w_truncated w,
                   nb_reasons = w_reasons w, nb_frontier = w_frontier w,
                   nb_warnings = (if w_unresolved w = [] then []
                     else [Warning ''unresolved_edges'' [] [int (length (w_unresolved w))]])\<rparr>)))))))))))"

definition neighbors ::
  "(string \<Rightarrow> string) \<Rightarrow> scope \<Rightarrow> string \<Rightarrow> string list option \<Rightarrow> pyval \<Rightarrow> pyval \<Rightarrow> pyval \<Rightarrow> pyval
   \<Rightarrow> pyval \<Rightarrow> pyval \<Rightarrow> neighbor_result result" where
  "neighbors = neighbour_traversal ''neighbors''"

definition dependencies ::
  "(string \<Rightarrow> string) \<Rightarrow> scope \<Rightarrow> string \<Rightarrow> string list option \<Rightarrow> pyval \<Rightarrow> pyval \<Rightarrow> pyval \<Rightarrow> pyval \<Rightarrow> pyval
   \<Rightarrow> neighbor_result result" where
  "dependencies cf sc target projects depth edge_kinds projection max_nodes max_edges =
     neighbour_traversal ''dependencies'' cf sc target projects depth (PStr ''outgoing'') edge_kinds
       projection max_nodes max_edges"

section \<open>The relations of a walk\<close>

lemma relation_of_set [dict_simps]:
  "relation_of (dict_set k v rel) x = (if x = k then v else relation_of rel x)"
  by (simp add: relation_of_def update_conv')

lemma relation_of_add:
  "relation_of (add_relation e rel) k =
     (fst (relation_of rel k) @ (if e_target e = Some k then [e_id e] else []),
      snd (relation_of rel k) @ (if e_source e = k then [e_id e] else []))"
  by (auto simp: add_relation_def add_outgoing_def add_incoming_def Let_def dict_simps split: option.splits)

lemma relation_of_fold:
  "relation_of (fold add_relation es rel) k =
     (fst (relation_of rel k) @ map e_id (filter (\<lambda>e. e_target e = Some k) es),
      snd (relation_of rel k) @ map e_id (filter (\<lambda>e. e_source e = k) es))"
  by (induction es arbitrary: rel) (simp_all add: relation_of_add)

lemma relations_of_get:
  "relation_of (relations_of es) k =
     (map e_id (filter (\<lambda>e. e_target e = Some k) es), map e_id (filter (\<lambda>e. e_source e = k) es))"
  by (simp add: relations_of_def relation_of_fold) (simp add: relation_of_def)

section \<open>From the operation to its walk\<close>

lemma walk_from_run:
  assumes "walk_from gs root hops d kinds res (PInt nb) (PInt eb) = Inr w"
  shows "run_walk gs (sorted_set [root]) hops d (map_option sorted_set kinds) (map_option sorted_set res) nb eb = Inr w"
proof -
  have k: "ks = map_option sorted_set kinds" if "optional_kinds (kinds_value kinds) = Inr ks" for ks
  proof (cases kinds)
    case (Some xs)
    have "ys = xs" if "map_result (choice_item (sort EDGE_KINDS)) (map PStr xs) = Inr ys" for ys
      using map_result_image [OF that, of PStr] by (auto simp: choice_item_Inr)
    with that Some show ?thesis
      by (auto simp: optional_kinds_def kinds_value_def choice_list_def result_simps)
  qed (use that in \<open>simp add: optional_kinds_def kinds_value_def\<close>)
  have r: "rs = map_option sorted_set res" if "optional_resolutions (kinds_value res) = Inr rs" for rs
  proof (cases res)
    case (Some xs)
    have "ys = xs" if "map_result (choice_item RESOLUTIONS) (map PStr xs) = Inr ys" for ys
      using map_result_image [OF that, of PStr] by (auto simp: choice_item_Inr)
    with that Some show ?thesis
      by (auto simp: optional_resolutions_def kinds_value_def choice_list_def result_simps split: if_splits)
  qed (use that in \<open>simp add: optional_resolutions_def kinds_value_def\<close>)
  from assms obtain hops' d' ks nb' eb' rs where
    "bounded_int (PInt hops) 0 MAX_DEPTH (Some DEFAULT_DEPTH) = Inr hops'" "choice (PStr d) DIRECTIONS (Some ''both'') = Inr d'"
    "optional_kinds (kinds_value kinds) = Inr ks" "optional_resolutions (kinds_value res) = Inr rs"
    "bounded_int (PInt nb) 1 MAX_NODES (Some DEFAULT_MAX_NODES) = Inr nb'"
    "bounded_int (PInt eb) 0 MAX_EDGES (Some DEFAULT_MAX_EDGES) = Inr eb'"
    "run_walk gs (sorted_set [root]) hops' d' ks rs nb' eb' = Inr w"
    by (auto simp: walk_from_def bounded_walk_def result_simps)
  with k r show ?thesis
    by (auto simp: bounded_int_Inr choice_def split: if_splits)
qed

lemma walk_hop_sorted_kinds:
  "walk_hop gs d (map_option sorted_set kinds) (map_option sorted_set res) = walk_hop gs d kinds res"
  by (intro ext) (auto simp: walk_hop_def edge_selected_def split: option.splits)

lemma walk_from_exact:
  assumes "walk_from gs root hops d kinds res (PInt nb) (PInt eb) = Inr w"
    "gs_inv gs" "inj_on e_id (set (all_edges gs))" "d \<in> set DIRECTIONS"
  shows "n_id ` set (w_nodes w) \<subseteq> ball (walk_hop gs d kinds res) {root} (nat hops)
     \<and> (w_truncated w \<or> n_id ` set (w_nodes w) = ball (walk_hop gs d kinds res) {root} (nat hops))
     \<and> length (w_nodes w) \<le> nat nb \<and> length (w_edges w) + length (w_unresolved w) \<le> nat eb"
  using run_walk_exact [OF assms(2-4) walk_from_run [OF assms(1)]]
    run_walk_budgets [OF assms(2,3) walk_from_run [OF assms(1)]]
  by (simp add: walk_hop_sorted_kinds)

lemma project_all_ids:
  assumes "project_all gs sections ns = Inr docs"
  shows "map doc_id docs = map n_id ns"
  using assms
proof (induction ns arbitrary: docs)
  case (Cons n ns)
  then show ?case by (auto simp: project_all_def result_simps dest: projected_doc_id)
qed (simp add: project_all_def)

lemma neighbour_traversal_ok:
  assumes "neighbour_traversal operation cf sc target projects depth direction edge_kinds projection
      max_nodes max_edges = Inr r" "narrowed sc projects = Inr gs" "nb_status r = ''ok''"
  shows "\<exists>sections hops heading kinds nb eb n w docs.
      normalise_projection projection = Inr sections
      \<and> bounded_int depth 0 MAX_DEPTH (Some DEFAULT_DEPTH) = Inr hops
      \<and> choice direction DIRECTIONS (Some ''both'') = Inr heading
      \<and> choice_list edge_kinds (sort EDGE_KINDS) (Some []) = Inr kinds
      \<and> bounded_int max_nodes 1 MAX_NODES (Some DEFAULT_MAX_NODES) = Inr nb
      \<and> bounded_int max_edges 0 MAX_EDGES (Some DEFAULT_MAX_EDGES) = Inr eb
      \<and> resolve cf gs target = Inr n
      \<and> walk_from gs (n_id n) hops heading (some_or_none kinds) None (PInt nb) (PInt eb) = Inr w
      \<and> project_all gs sections (w_nodes w) = Inr docs
      \<and> nb_target r = Some (n_id n) \<and> nb_direction r = heading \<and> nb_edge_kinds r = some_or_none kinds
      \<and> nb_depth r = w_depth w \<and> nb_nodes r = docs \<and> nb_edges r = map edge_as_document (w_edges w)
      \<and> nb_unresolved r = map edge_as_document (w_unresolved w) \<and> nb_truncated r = w_truncated w
      \<and> nb_per_kind r = per_kind w \<and> nb_operation r = operation"
  using assms unfolding neighbour_traversal_def narrowed_def bind_result_eq_Inr resolve_case_Inr
  by (elim exE conjE disjE) clarsimp+

lemma neighbour_traversal_cases:
  assumes "neighbour_traversal operation cf sc target projects depth direction edge_kinds projection
      max_nodes max_edges = Inr r" "narrowed sc projects = Inr gs" "nb_status r = ''ok''"
  obtains sections hops heading kinds nb eb n w docs where
    "heading \<in> set DIRECTIONS" "0 \<le> hops" "1 \<le> nb" "nb \<le> MAX_NODES" "0 \<le> eb" "eb \<le> MAX_EDGES"
    "choice direction DIRECTIONS (Some ''both'') = Inr heading" "resolve cf gs target = Inr n"
    "walk_from gs (n_id n) hops heading (some_or_none kinds) None (PInt nb) (PInt eb) = Inr w"
    "project_all gs sections (w_nodes w) = Inr docs"
    "nb_target r = Some (n_id n)" "nb_direction r = heading" "nb_edge_kinds r = some_or_none kinds"
    "nb_depth r = hops" "nb_nodes r = docs" "nb_edges r = map edge_as_document (w_edges w)"
    "nb_unresolved r = map edge_as_document (w_unresolved w)" "nb_truncated r = w_truncated w"
    "nb_per_kind r = per_kind w" "nb_operation r = operation"
proof -
  from neighbour_traversal_ok [OF assms] obtain sections hops heading kinds nb eb n w docs where v:
    "bounded_int depth 0 MAX_DEPTH (Some DEFAULT_DEPTH) = Inr hops"
    "choice direction DIRECTIONS (Some ''both'') = Inr heading"
    "bounded_int max_nodes 1 MAX_NODES (Some DEFAULT_MAX_NODES) = Inr nb"
    "bounded_int max_edges 0 MAX_EDGES (Some DEFAULT_MAX_EDGES) = Inr eb"
    and w: "resolve cf gs target = Inr n"
    "walk_from gs (n_id n) hops heading (some_or_none kinds) None (PInt nb) (PInt eb) = Inr w"
    "project_all gs sections (w_nodes w) = Inr docs"
    and r: "nb_target r = Some (n_id n)" "nb_direction r = heading" "nb_edge_kinds r = some_or_none kinds"
    "nb_depth r = w_depth w" "nb_nodes r = docs" "nb_edges r = map edge_as_document (w_edges w)"
    "nb_unresolved r = map edge_as_document (w_unresolved w)" "nb_truncated r = w_truncated w"
    "nb_per_kind r = per_kind w" "nb_operation r = operation"
    by blast
  have rng: "heading \<in> set DIRECTIONS" "0 \<le> hops" "1 \<le> nb" "nb \<le> MAX_NODES" "0 \<le> eb" "eb \<le> MAX_EDGES"
    using v by (auto dest!: choice_member bounded_int_range
        simp: DIRECTIONS_def MAX_DEPTH_def DEFAULT_DEPTH_def MAX_NODES_def DEFAULT_MAX_NODES_def
          MAX_EDGES_def DEFAULT_MAX_EDGES_def)
  have "w_depth w = hops"
    using walk_from_run [OF w(2)] by (auto simp: run_walk_def walk_result_def result_simps)
  with r(4) have "nb_depth r = hops" by simp
  then show thesis
    by (rule that [OF rng v(2) w r(1-3) _ r(5-)])
qed

lemma context_ok_walk:
  assumes "context_op cf sc target projects depth direction edge_kinds projection max_nodes max_edges = Inr r"
    "c_status r = ''ok''"
  shows "\<exists>s gs sections hops heading kinds n w docs.
      as_graph_set sc = Inr s \<and> narrow_scope s projects = Inr gs
      \<and> normalise_projection projection = Inr sections
      \<and> bounded_int depth 0 MAX_DEPTH (Some DEFAULT_DEPTH) = Inr hops
      \<and> choice direction DIRECTIONS (Some ''both'') = Inr heading
      \<and> choice_list edge_kinds (sort EDGE_KINDS) (Some []) = Inr kinds \<and> resolve cf gs target = Inr n
      \<and> walk_from gs (n_id n) hops heading (some_or_none kinds) None
          (value_or max_nodes DEFAULT_MAX_NODES) (value_or max_edges DEFAULT_MAX_EDGES) = Inr w
      \<and> map_result (context_node gs sections (relations_of (w_edges w))) (w_nodes w) = Inr docs
      \<and> c_nodes r = docs \<and> c_projection r = sections \<and> c_edges r = map edge_as_document (w_edges w)"
  using assms unfolding context_op_def bind_result_eq_Inr resolve_case_Inr
  by (elim exE conjE disjE) clarsimp+

section \<open>What the operations answer\<close>

text \<open>
  A neighbourhood is exact up to its own truncation flag: every projected node is within the
  depth bound of the resolved target along selected pinned edges, all of them are listed when the
  answer is not truncated, and the answer never exceeds the contract's node and edge budgets.
\<close>

theorem neighbors_exact:
  assumes "neighbors cf sc target projects depth direction edge_kinds projection max_nodes max_edges = Inr r"
    "narrowed sc projects = Inr gs" "gs_inv gs" "inj_on e_id (set (all_edges gs))" "nb_status r = ''ok''"
  shows "\<exists>start. nb_target r = Some start
    \<and> doc_id ` set (nb_nodes r) \<subseteq> ball (walk_hop gs (nb_direction r) (nb_edge_kinds r) None) {start} (nat (nb_depth r))
    \<and> (nb_truncated r \<or> doc_id ` set (nb_nodes r)
          = ball (walk_hop gs (nb_direction r) (nb_edge_kinds r) None) {start} (nat (nb_depth r)))
    \<and> length (nb_nodes r) \<le> 500 \<and> length (nb_edges r) + length (nb_unresolved r) \<le> 1000"
  using assms(1) [unfolded neighbors_def] assms(2,5)
proof (rule neighbour_traversal_cases)
  fix sections hops heading kinds nb eb n w docs
  assume h: "heading \<in> set DIRECTIONS" "nb \<le> MAX_NODES" "eb \<le> MAX_EDGES"
    and w: "walk_from gs (n_id n) hops heading (some_or_none kinds) None (PInt nb) (PInt eb) = Inr w"
    and docs: "project_all gs sections (w_nodes w) = Inr docs"
    and r: "nb_target r = Some (n_id n)" "nb_direction r = heading" "nb_edge_kinds r = some_or_none kinds"
    "nb_depth r = hops" "nb_nodes r = docs" "nb_edges r = map edge_as_document (w_edges w)"
    "nb_unresolved r = map edge_as_document (w_unresolved w)" "nb_truncated r = w_truncated w"
  have "doc_id ` set docs = n_id ` set (w_nodes w)" "length docs = length (w_nodes w)"
    using project_all_ids [OF docs] by (metis list.set_map) (metis length_map project_all_ids [OF docs])
  with walk_from_exact [OF w assms(3,4) h(1)] h show ?thesis
    by (simp add: r MAX_NODES_def MAX_EDGES_def) linarith
qed

definition ex_neighbors :: "pyval \<Rightarrow> pyval \<Rightarrow> neighbor_result result" where
  "ex_neighbors depth direction =
     neighbors (\<lambda>s. s) (ScopeSet ex_set) ''aa'' None depth direction PNone PNone PNone PNone"

lemma ex_narrowed: "narrowed (ScopeSet ex_set) None = Inr ex_set"
  by (simp add: narrowed_def narrow_scope_def)

theorem neighbors_exact_witness:
  "\<exists>r. ex_neighbors (PInt 1) (PStr ''incoming'') = Inr r \<and> length (nb_nodes r) = 2
     \<and> doc_id ` set (nb_nodes r) = ball (walk_hop ex_set ''incoming'' None None) {ex_id CHR ''a''} 1"
proof -
  have "returns (ex_neighbors (PInt 1) (PStr ''incoming''))
      (\<lambda>r. nb_status r = ''ok'' \<and> length (nb_nodes r) = 2 \<and> nb_target r = Some (ex_id CHR ''a'') \<and> \<not> nb_truncated r
        \<and> nb_direction r = ''incoming'' \<and> nb_edge_kinds r = None \<and> nb_depth r = 1)"
    by code_simp
  then obtain r where r: "ex_neighbors (PInt 1) (PStr ''incoming'') = Inr r" "nb_status r = ''ok''"
    "length (nb_nodes r) = 2" "nb_target r = Some (ex_id CHR ''a'')" "\<not> nb_truncated r"
    "nb_direction r = ''incoming''" "nb_edge_kinds r = None" "nb_depth r = 1"
    unfolding returns_iff by blast
  from neighbors_exact [OF r(1) [unfolded ex_neighbors_def] ex_narrowed ex_set_inv ex_set_edge_ids r(2)] r
  show ?thesis by auto
qed

text \<open>
  The per-kind counters of a dependency answer count exactly the edges it returns, followed and
  unresolved, and list no kind without an edge.
\<close>

theorem dependencies_per_kind:
  assumes "dependencies cf sc target projects depth edge_kinds projection max_nodes max_edges = Inr r"
    "narrowed sc projects = Inr gs" "nb_status r = ''ok''"
  shows "\<exists>es us. nb_edges r = map edge_as_document es \<and> nb_unresolved r = map edge_as_document us
    \<and> (\<forall>k. map_of (nb_per_kind r) k =
        (if k \<in> e_kind ` set (es @ us) then Some (count_list (map e_kind (es @ us)) k) else None))
    \<and> nb_direction r = ''outgoing''"
  using assms(1) [unfolded dependencies_def] assms(2,3)
proof (rule neighbour_traversal_cases)
  fix w heading assume "choice (PStr ''outgoing'') DIRECTIONS (Some ''both'') = Inr heading" "nb_edges r = map edge_as_document (w_edges w)"
    "nb_unresolved r = map edge_as_document (w_unresolved w)" "nb_per_kind r = per_kind w"
    "nb_direction r = heading"
  moreover from this have "nb_direction r = ''outgoing''"
    by (simp add: choice_def split: if_splits)
  ultimately show ?thesis
    by (intro exI [of _ "w_edges w"] exI [of _ "w_unresolved w"])
      (auto simp: per_kind_def count_by_get count_list_0_iff)
qed

theorem dependencies_per_kind_witness:
  "\<exists>r. dependencies (\<lambda>s. s) (ScopeSet ex_set) ''cc'' None (PInt 2) PNone PNone PNone PNone = Inr r
     \<and> map_of (nb_per_kind r) ''CALLS'' = Some 2"
proof -
  have "returns (dependencies (\<lambda>s. s) (ScopeSet ex_set) ''cc'' None (PInt 2) PNone PNone PNone PNone)
      (\<lambda>r. nb_status r = ''ok'' \<and> map_of (nb_per_kind r) ''CALLS'' = Some 2)"
    by code_simp
  then obtain r where r: "dependencies (\<lambda>s. s) (ScopeSet ex_set) ''cc'' None (PInt 2) PNone PNone PNone PNone = Inr r"
    "nb_status r = ''ok''" "map_of (nb_per_kind r) ''CALLS'' = Some 2"
    unfolding returns_iff by blast
  from dependencies_per_kind [OF r(1) ex_narrowed r(2)] r show ?thesis by auto
qed

text \<open>
  The relations a context answer attaches to a node are exactly the ids of the edges it returns
  that end at the node and that start at it, sorted; no relation points outside the answer.
\<close>

theorem context_relations:
  assumes "context_op cf sc target projects depth direction edge_kinds projection max_nodes max_edges = Inr r"
    "c_status r = ''ok''" "''relations'' \<in> set (c_projection r)" "PDict doc \<in> set (c_nodes r)"
  shows "\<exists>es. c_edges r = map edge_as_document es
    \<and> map_of doc ''relations'' = Some (PDict
        [(''incoming'', strings (sort (map e_id (filter (\<lambda>e. e_target e = Some (doc_id (PDict doc))) es)))),
         (''outgoing'', strings (sort (map e_id (filter (\<lambda>e. e_source e = doc_id (PDict doc)) es))))])"
proof -
  from context_ok_walk [OF assms(1,2)] obtain s gs sections hops heading kinds n w docs where
    v: "resolve cf gs target = Inr n" "walk_from gs (n_id n) hops heading (some_or_none kinds) None
          (value_or max_nodes DEFAULT_MAX_NODES) (value_or max_edges DEFAULT_MAX_EDGES) = Inr w"
    "map_result (context_node gs sections (relations_of (w_edges w))) (w_nodes w) = Inr docs"
    "c_nodes r = docs" "c_projection r = sections" "c_edges r = map edge_as_document (w_edges w)"
    by (elim exE conjE) (rule that, assumption+)
  have w: "c_projection r = sections" "c_edges r = map edge_as_document (w_edges w)"
    "map_result (context_node gs sections (relations_of (w_edges w))) (w_nodes w) = Inr (c_nodes r)"
    using v by simp_all
  obtain n where n: "context_node gs sections (relations_of (w_edges w)) n = Inr (PDict doc)"
    using map_result_set [OF w(3) assms(4)] by blast
  then have d: "doc_id (PDict doc) = n_id n"
    by (auto simp: context_node_def result_simps) (metis doc_id_project_node)
  have "map_of doc ''relations'' = Some (PDict
      [(''incoming'', strings (sort (fst (relation_of (relations_of (w_edges w)) (n_id n))))),
       (''outgoing'', strings (sort (snd (relation_of (relations_of (w_edges w)) (n_id n)))))])"
    using n assms(3) w(1)
    by (auto simp: context_node_def project_node_def identity_items_def strings_def result_simps)
  then show ?thesis
    using w(2) d by (auto simp: relations_of_get)
qed

theorem context_relations_witness:
  "\<exists>r. context_op (\<lambda>s. s) (ScopeSet ex_set) ''bb'' None (PInt 1) PNone PNone (PList [PStr ''relations'']) PNone PNone = Inr r
     \<and> (\<exists>doc es. PDict doc \<in> set (c_nodes r) \<and> c_edges r = map edge_as_document es
          \<and> map_of doc ''relations'' = Some (PDict
        [(''incoming'', strings (sort (map e_id (filter (\<lambda>e. e_target e = Some (doc_id (PDict doc))) es)))),
         (''outgoing'', strings (sort (map e_id (filter (\<lambda>e. e_source e = doc_id (PDict doc)) es))))]))"
proof -
  have "returns (context_op (\<lambda>s. s) (ScopeSet ex_set) ''bb'' None (PInt 1) PNone PNone (PList [PStr ''relations'']) PNone PNone)
      (\<lambda>r. c_status r = ''ok'' \<and> ''relations'' \<in> set (c_projection r) \<and> c_nodes r \<noteq> [] \<and> list_all is_mapping (c_nodes r))"
    by code_simp
  then obtain r where r: "context_op (\<lambda>s. s) (ScopeSet ex_set) ''bb'' None (PInt 1) PNone PNone (PList [PStr ''relations'']) PNone PNone = Inr r"
    "c_status r = ''ok''" "''relations'' \<in> set (c_projection r)" "c_nodes r \<noteq> []" "list_all is_mapping (c_nodes r)"
    unfolding returns_iff by blast
  then obtain d ds where "c_nodes r = d # ds" by (cases "c_nodes r") auto
  with r(5) obtain doc where doc: "PDict doc \<in> set (c_nodes r)"
    by (cases d) auto
  show ?thesis
    by (rule exE [OF context_relations [OF r(1-3) doc]])
      (rule exI, rule conjI, rule r(1), rule exI, rule exI, rule conjI, rule doc, assumption)
qed

end
