(* ===== verification/Callers.thy ===== *)
theory Callers
  imports Neighbors
begin

text \<open>
  The reverse closures: \<open>callers\<close> (\<open>query/callers.py\<close>) and \<open>impact\<close> (\<open>query/impact.py\<close>). Both walk
  incoming edges only, count the closure per kind and per project, and say in their result what
  keeps it from being complete. The theorems show what a complete (exhaustive) answer guarantees.
\<close>

section \<open>Callers\<close>

definition CALLER_KINDS :: "string list" where
  "CALLER_KINDS = sort (filter (\<lambda>k. k \<noteq> ''CONTAINS'') EDGE_KINDS)"

record callers_result =
  cl_target :: "string option"
  cl_status :: string
  cl_edge_kinds :: "string list"
  cl_depth :: int
  cl_nodes :: "pyval list"
  cl_edges :: "pyval list"
  cl_unresolved :: "pyval list"
  cl_candidates :: "pyval list"
  cl_per_kind :: "(string, nat) dict"
  cl_per_project :: "(string, nat) dict"
  cl_searched :: "string list"
  cl_missing :: "string list"
  cl_cross_project :: "string list"
  cl_visited :: nat
  cl_depth_reached :: nat
  cl_truncated :: bool
  cl_reasons :: "string list"
  cl_frontier :: "string list"
  cl_complete :: bool
  cl_incomplete :: "string list"
  cl_warnings :: "warning list"

text \<open>\<open>operation\<close> is always \<open>''callers''\<close> and \<open>direction\<close> always \<open>''incoming''\<close>.\<close>

definition callers_as_document :: "(warning \<Rightarrow> string) \<Rightarrow> callers_result \<Rightarrow> pyval" where
  "callers_as_document say r = PDict
     [(''status'', PStr (cl_status r)), (''operation'', PStr ''callers''),
      (''target'', text_or_none (cl_target r)), (''direction'', PStr ''incoming''),
      (''edge_kinds'', strings (cl_edge_kinds r)), (''depth'', PInt (cl_depth r)),
      (''depth_reached'', PInt (int (cl_depth_reached r))), (''nodes'', PList (cl_nodes r)),
      (''edges'', PList (cl_edges r)), (''unresolved'', PList (cl_unresolved r)),
      (''candidates'', PList (cl_candidates r)), (''per_kind'', counts_document (cl_per_kind r)),
      (''per_project'', counts_document (cl_per_project r)), (''searched_projects'', strings (cl_searched r)),
      (''missing_projects'', strings (cl_missing r)), (''cross_project'', strings (cl_cross_project r)),
      (''visited'', PInt (int (cl_visited r))), (''truncated'', PBool (cl_truncated r)),
      (''reasons'', strings (cl_reasons r)), (''frontier'', strings (cl_frontier r)),
      (''complete'', PBool (cl_complete r)), (''incomplete_reasons'', strings (cl_incomplete r)),
      (''warnings'', strings (map say (cl_warnings r)))]"

definition per_project :: "node list \<Rightarrow> (string, nat) dict" where
  "per_project ns = count_by n_project ns []"

definition cross_projects :: "node \<Rightarrow> (string, nat) dict \<Rightarrow> string list" where
  "cross_projects resolved counted = sort (filter (\<lambda>p. p \<noteq> n_project resolved) (dict_keys counted))"

definition ambiguous_callers ::
  "graph_set \<Rightarrow> string list \<Rightarrow> string \<Rightarrow> string list \<Rightarrow> string list \<Rightarrow> int \<Rightarrow> callers_result result" where
  "ambiguous_callers gs sections target ids kinds hops =
     bind_result (candidate_documents gs ids sections) (\<lambda>docs.
       Inr \<lparr>cl_target = None, cl_status = ''ambiguous_target'', cl_edge_kinds = kinds, cl_depth = hops,
            cl_nodes = [], cl_edges = [], cl_unresolved = [], cl_candidates = docs, cl_per_kind = [],
            cl_per_project = [], cl_searched = project_ids gs, cl_missing = gs_missing gs,
            cl_cross_project = [], cl_visited = 0, cl_depth_reached = 0, cl_truncated = False,
            cl_reasons = [], cl_frontier = [], cl_complete = False,
            cl_incomplete = (if gs_missing gs \<noteq> [] then [''missing_members''] else [''ambiguous_target'']),
            cl_warnings = [ambiguous_warning target ids]\<rparr>)"

text \<open>The answer once the walk is done.\<close>

definition callers_answer ::
  "(string \<Rightarrow> string) \<Rightarrow> graph_set \<Rightarrow> string list \<Rightarrow> string list \<Rightarrow> node \<Rightarrow> walk \<Rightarrow> callers_result result" where
  "callers_answer cf gs sections kinds resolved w =
     (let unresolved = w_unresolved w @ unresolved_references cf gs resolved;
          caller_nodes = filter (\<lambda>n. n_id n \<noteq> n_id resolved) (w_nodes w);
          counted = per_project caller_nodes;
          cross = cross_projects resolved counted;
          missing = gs_missing gs;
          incomplete = (if missing \<noteq> [] then [''missing_members''] else [])
            @ (if w_truncated w then [''truncated''] else [])
            @ (if unresolved \<noteq> [] then [''unresolved_edges''] else []);
          warnings = (if missing \<noteq> [] then [Warning ''incomplete_search'' missing [int (length missing)]] else [])
            @ (if w_truncated w then [Warning ''truncated'' (w_reasons w) []] else [])
            @ (if unresolved \<noteq> [] then [Warning ''unresolved_edges'' [n_name resolved] [int (length unresolved)]] else [])
            @ (if cross \<noteq> [] then [Warning ''cross_project'' (n_project resolved # cross) [int (length cross)]] else [])
      in bind_result (project_all gs sections caller_nodes) (\<lambda>docs.
        Inr \<lparr>cl_target = Some (n_id resolved), cl_status = ''ok'', cl_edge_kinds = kinds,
             cl_depth = w_depth w, cl_nodes = docs, cl_edges = map edge_as_document (w_edges w),
             cl_unresolved = map edge_as_document unresolved, cl_candidates = [],
             cl_per_kind = count_by e_kind (w_edges w) [], cl_per_project = counted,
             cl_searched = project_ids gs, cl_missing = missing, cl_cross_project = cross,
             cl_visited = length (w_nodes w), cl_depth_reached = w_depth_reached w,
             cl_truncated = w_truncated w, cl_reasons = w_reasons w, cl_frontier = w_frontier w,
             cl_complete = (incomplete = []), cl_incomplete = incomplete, cl_warnings = warnings\<rparr>))"

definition callers ::
  "(string \<Rightarrow> string) \<Rightarrow> scope \<Rightarrow> string \<Rightarrow> string list option \<Rightarrow> pyval \<Rightarrow> pyval \<Rightarrow> pyval \<Rightarrow> pyval \<Rightarrow> pyval
   \<Rightarrow> callers_result result" where
  "callers cf sc target projects depth edge_kinds projection max_nodes max_edges =
     bind_result (as_graph_set sc) (\<lambda>scope.
     bind_result (narrow_scope scope projects) (\<lambda>gs.
     bind_result (normalise_projection projection) (\<lambda>sections.
     bind_result (bounded_int depth 0 MAX_DEPTH (Some DEFAULT_DEPTH)) (\<lambda>hops.
     bind_result (choice_list edge_kinds (sort EDGE_KINDS) (Some CALLER_KINDS)) (\<lambda>kinds.
     bind_result (bounded_int max_nodes 1 MAX_NODES (Some DEFAULT_MAX_NODES)) (\<lambda>node_budget.
     bind_result (bounded_int max_edges 0 MAX_EDGES (Some DEFAULT_MAX_EDGES)) (\<lambda>edge_budget.
       (case resolve cf gs target of
          Inl (TargetAmbiguous t ids) \<Rightarrow> ambiguous_callers gs sections target ids kinds hops
        | Inl err \<Rightarrow> Inl err
        | Inr resolved \<Rightarrow>
            bind_result (walk_from gs (n_id resolved) hops ''incoming'' (Some kinds) None
              (PInt node_budget) (PInt edge_budget)) (\<lambda>w.
              callers_answer cf gs sections kinds resolved w)))))))))"

section \<open>Impact\<close>

record impact_result =
  im_target :: "string option"
  im_status :: string
  im_edge_kinds :: "string list"
  im_depth :: int
  im_nodes :: "pyval list"
  im_proven :: "string list"
  im_potential :: "string list"
  im_edges :: "pyval list"
  im_unresolved :: "pyval list"
  im_candidates :: "pyval list"
  im_per_kind :: "(string, nat) dict"
  im_per_project :: "(string, nat) dict"
  im_searched :: "string list"
  im_missing :: "string list"
  im_coverage :: "(string, string) dict"
  im_visited :: nat
  im_depth_reached :: nat
  im_truncated :: bool
  im_reasons :: "string list"
  im_frontier :: "string list"
  im_exhaustive :: bool
  im_incomplete :: "string list"
  im_warnings :: "warning list"

definition impact_as_document :: "(warning \<Rightarrow> string) \<Rightarrow> impact_result \<Rightarrow> pyval" where
  "impact_as_document say r = PDict
     [(''status'', PStr (im_status r)), (''operation'', PStr ''impact''),
      (''target'', text_or_none (im_target r)), (''direction'', PStr ''incoming''),
      (''edge_kinds'', strings (im_edge_kinds r)), (''depth'', PInt (im_depth r)),
      (''depth_reached'', PInt (int (im_depth_reached r))), (''nodes'', PList (im_nodes r)),
      (''proven'', strings (im_proven r)), (''potential'', strings (im_potential r)),
      (''edges'', PList (im_edges r)), (''unresolved'', PList (im_unresolved r)),
      (''candidates'', PList (im_candidates r)), (''per_kind'', counts_document (im_per_kind r)),
      (''per_project'', counts_document (im_per_project r)), (''searched_projects'', strings (im_searched r)),
      (''missing_projects'', strings (im_missing r)),
      (''coverage'', PDict (map (\<lambda>p. (fst p, PStr (snd p))) (im_coverage r))),
      (''visited'', PInt (int (im_visited r))), (''truncated'', PBool (im_truncated r)),
      (''reasons'', strings (im_reasons r)), (''frontier'', strings (im_frontier r)),
      (''exhaustive'', PBool (im_exhaustive r)), (''incomplete_reasons'', strings (im_incomplete r)),
      (''warnings'', strings (map say (im_warnings r)))]"

definition coverage_map :: "graph_set \<Rightarrow> (string, string) dict result" where
  "coverage_map gs =
     map_result (\<lambda>p. bind_result (gs_graph gs p) (\<lambda>g. Inr (p, coverage_status g))) (project_ids gs)"

definition ambiguous_impact ::
  "graph_set \<Rightarrow> string list \<Rightarrow> string \<Rightarrow> string list \<Rightarrow> string list \<Rightarrow> int \<Rightarrow> (string, string) dict
   \<Rightarrow> impact_result result" where
  "ambiguous_impact gs sections target ids kinds hops coverage =
     bind_result (candidate_documents gs ids sections) (\<lambda>docs.
       Inr \<lparr>im_target = None, im_status = ''ambiguous_target'', im_edge_kinds = kinds, im_depth = hops,
            im_nodes = [], im_proven = [], im_potential = [], im_edges = [], im_unresolved = [],
            im_candidates = docs, im_per_kind = [], im_per_project = [], im_searched = project_ids gs,
            im_missing = gs_missing gs, im_coverage = coverage, im_visited = 0, im_depth_reached = 0,
            im_truncated = False, im_reasons = [], im_frontier = [], im_exhaustive = False,
            im_incomplete = [''ambiguous_target''], im_warnings = [ambiguous_warning target ids]\<rparr>)"

text \<open>The probe one hop further, or the admission that the maximum depth cannot be shown to be the end.\<close>

definition depth_probe ::
  "graph_set \<Rightarrow> string \<Rightarrow> int \<Rightarrow> string list \<Rightarrow> pyval \<Rightarrow> pyval \<Rightarrow> walk \<Rightarrow> bool result" where
  "depth_probe gs root hops kinds nodes edges w =
     (if hops \<ge> MAX_DEPTH then Inr True
      else bind_result (walk_from gs root (hops + 1) ''incoming'' (Some kinds) None nodes edges) (\<lambda>deeper.
        Inr (length (w_nodes deeper) > length (w_nodes w))))"

definition named_unresolved :: "(string \<Rightarrow> string) \<Rightarrow> graph_set \<Rightarrow> node list \<Rightarrow> edge list" where
  "named_unresolved cf gs ns =
     values_by_key (fold (\<lambda>e d. dict_setdefault (e_id e) e d) (concat (map (unresolved_references cf gs) ns)) [])"

definition impact_answer ::
  "(string \<Rightarrow> string) \<Rightarrow> graph_set \<Rightarrow> string list \<Rightarrow> string list \<Rightarrow> int \<Rightarrow> (string, string) dict \<Rightarrow> node
   \<Rightarrow> walk \<Rightarrow> walk \<Rightarrow> bool \<Rightarrow> impact_result result" where
  "impact_answer cf gs sections kinds hops coverage resolved w exact depth_limited =
     (let closure = filter (\<lambda>n. n_id n \<noteq> n_id resolved) (w_nodes w);
          proven = sort (map n_id (filter (\<lambda>n. n_id n \<noteq> n_id resolved) (w_nodes exact)));
          potential = sort (map n_id (filter (\<lambda>n. n_id n \<notin> set proven) closure));
          unresolved = w_unresolved w @ named_unresolved cf gs (resolved # closure);
          missing = gs_missing gs;
          partial_cov = sort (map fst (filter (\<lambda>p. snd p \<noteq> ''complete'') coverage));
          incomplete = (if depth_limited then [''depth_limited''] else [])
            @ (if w_truncated w then [''truncated''] else [])
            @ (if missing \<noteq> [] then [''missing_members''] else [])
            @ (if unresolved \<noteq> [] then [''unresolved_edges''] else [])
            @ (if partial_cov \<noteq> [] then [''coverage_not_complete''] else []);
          warnings = (if depth_limited then [Warning ''depth_limited'' [] [hops]] else [])
            @ (if w_truncated w then [Warning ''truncated'' (w_reasons w) []] else [])
            @ (if missing \<noteq> [] then [Warning ''incomplete_scope'' missing [int (length missing)]] else [])
            @ (if unresolved \<noteq> [] then [Warning ''unresolved_edges'' [] [int (length unresolved)]] else [])
            @ (if partial_cov \<noteq> [] then [Warning ''coverage'' partial_cov [int (length partial_cov)]] else [])
            @ (if potential \<noteq> [] then [Warning ''potential'' [] [int (length potential)]] else [])
            @ [Warning (if incomplete \<noteq> [] then ''not_exhaustive'' else ''static_potential_impact'') [] []]
      in bind_result (project_all gs sections closure) (\<lambda>docs.
        Inr \<lparr>im_target = Some (n_id resolved), im_status = ''ok'', im_edge_kinds = kinds,
             im_depth = w_depth w, im_nodes = docs, im_proven = proven, im_potential = potential,
             im_edges = map edge_as_document (w_edges w), im_unresolved = map edge_as_document unresolved,
             im_candidates = [], im_per_kind = count_by e_kind (w_edges w) [],
             im_per_project = per_project closure, im_searched = project_ids gs, im_missing = missing,
             im_coverage = coverage, im_visited = length (w_nodes w),
             im_depth_reached = w_depth_reached w, im_truncated = w_truncated w,
             im_reasons = w_reasons w, im_frontier = w_frontier w, im_exhaustive = (incomplete = []),
             im_incomplete = incomplete, im_warnings = warnings\<rparr>))"

definition impact ::
  "(string \<Rightarrow> string) \<Rightarrow> scope \<Rightarrow> string \<Rightarrow> string list option \<Rightarrow> pyval \<Rightarrow> pyval \<Rightarrow> pyval \<Rightarrow> pyval \<Rightarrow> pyval
   \<Rightarrow> impact_result result" where
  "impact cf sc target projects depth edge_kinds projection max_nodes max_edges =
     bind_result (as_graph_set sc) (\<lambda>scope.
     bind_result (narrow_scope scope projects) (\<lambda>gs.
     bind_result (normalise_projection projection) (\<lambda>sections.
     bind_result (bounded_int depth 0 MAX_DEPTH (Some DEFAULT_DEPTH)) (\<lambda>hops.
     bind_result (choice_list edge_kinds (sort EDGE_KINDS) (Some CALLER_KINDS)) (\<lambda>kinds.
     bind_result (bounded_int max_nodes 1 MAX_NODES (Some DEFAULT_MAX_NODES)) (\<lambda>node_budget.
     bind_result (bounded_int max_edges 0 MAX_EDGES (Some DEFAULT_MAX_EDGES)) (\<lambda>edge_budget.
     bind_result (coverage_map gs) (\<lambda>coverage.
       (case resolve cf gs target of
          Inl (TargetAmbiguous t ids) \<Rightarrow> ambiguous_impact gs sections target ids kinds hops coverage
        | Inl err \<Rightarrow> Inl err
        | Inr resolved \<Rightarrow>
            bind_result (walk_from gs (n_id resolved) hops ''incoming'' (Some kinds) None
              (PInt node_budget) (PInt edge_budget)) (\<lambda>w.
            bind_result (walk_from gs (n_id resolved) hops ''incoming'' (Some kinds)
              (Some (sort STATIC_RESOLUTIONS)) (PInt node_budget) (PInt edge_budget)) (\<lambda>exact.
            bind_result (depth_probe gs (n_id resolved) hops kinds (PInt node_budget) (PInt edge_budget) w)
              (\<lambda>limited. impact_answer cf gs sections kinds hops coverage resolved w exact limited))))))))))))"

section \<open>From the operations to their walks\<close>

lemma callers_ok:
  assumes "callers cf sc target projects depth edge_kinds projection max_nodes max_edges = Inr r"
    "narrowed sc projects = Inr gs" "cl_status r = ''ok''"
  shows "\<exists>sections hops kinds nb eb n w.
      normalise_projection projection = Inr sections
      \<and> bounded_int depth 0 MAX_DEPTH (Some DEFAULT_DEPTH) = Inr hops
      \<and> choice_list edge_kinds (sort EDGE_KINDS) (Some CALLER_KINDS) = Inr kinds
      \<and> bounded_int max_nodes 1 MAX_NODES (Some DEFAULT_MAX_NODES) = Inr nb
      \<and> bounded_int max_edges 0 MAX_EDGES (Some DEFAULT_MAX_EDGES) = Inr eb
      \<and> resolve cf gs target = Inr n
      \<and> walk_from gs (n_id n) hops ''incoming'' (Some kinds) None (PInt nb) (PInt eb) = Inr w
      \<and> callers_answer cf gs sections kinds n w = Inr r"
proof -
  have "cl_status r = ''ambiguous_target''" if "ambiguous_callers g s t ids k h = Inr r" for g s t ids k h
    using that by (auto simp: ambiguous_callers_def result_simps)
  then show ?thesis
    using assms unfolding callers_def narrowed_def bind_result_eq_Inr resolve_case_Inr
    by (elim exE conjE disjE) (fastforce, clarsimp)
qed

lemma callers_answer_fields:
  assumes "callers_answer cf gs sections kinds n w = Inr r"
  shows "project_all gs sections (filter (\<lambda>m. n_id m \<noteq> n_id n) (w_nodes w)) = Inr (cl_nodes r)
    \<and> cl_target r = Some (n_id n) \<and> cl_edge_kinds r = kinds \<and> cl_depth r = w_depth w
    \<and> cl_missing r = gs_missing gs \<and> cl_truncated r = w_truncated w
    \<and> cl_per_project r = per_project (filter (\<lambda>m. n_id m \<noteq> n_id n) (w_nodes w))
    \<and> cl_cross_project r = cross_projects n (cl_per_project r)
    \<and> cl_unresolved r = map edge_as_document (w_unresolved w @ unresolved_references cf gs n)
    \<and> (cl_complete r \<longrightarrow> gs_missing gs = [] \<and> \<not> w_truncated w \<and> w_unresolved w = []
          \<and> unresolved_references cf gs n = [])"
  using assms
  by (auto simp: callers_answer_def Let_def result_simps split: if_splits)

lemma walk_from_depth:
  "walk_from gs root hops d kinds res (PInt nb) (PInt eb) = Inr w \<Longrightarrow> w_depth w = hops"
  by (auto dest!: walk_from_run simp: run_walk_def walk_result_def result_simps)

lemma filter_ids: "n_id ` set (filter (\<lambda>m. n_id m \<noteq> i) ns) = n_id ` set ns - {i}"
  by auto

lemma incoming_direction: "''incoming'' \<in> set DIRECTIONS"
  by (simp add: DIRECTIONS_def)

lemma walk_from_distinct:
  assumes "walk_from gs root hops d kinds res (PInt nb) (PInt eb) = Inr w" "gs_inv gs"
  shows "distinct (map n_id (w_nodes w))"
proof -
  obtain st reached current where
    inv: "walk_inv gs (incident gs d (map_option sorted_set kinds) (map_option sorted_set res)) d
        (set (sorted_set [root])) (nat nb) (nat hops) current st"
    and w: "w = walk_result (sorted_set [root]) hops (reached, st)"
    by (rule run_walk_inv [OF walk_from_run [OF assms(1)] distinct_sorted_set])
  have ok: "visited_ok gs st" using inv by (simp add: walk_inv_def)
  have "map n_id (values_by_key (ws_visited st)) = sort (dict_keys (ws_visited st))"
    using ok by (intro values_by_key_keys) (auto simp: visited_ok_def dest: gs_inv_node [OF assms(2)])
  with ok show ?thesis
    by (simp add: w walk_result_def visited_ok_def)
qed

text \<open>
  A complete caller list is the whole answer inside its depth: every requested member is pinned,
  no unresolved edge is pending, and the listed nodes are exactly the nodes other than the target
  that reach it over at most \<open>depth\<close> edges of the requested kinds, in any pinned project.
\<close>

theorem callers_complete_exact:
  assumes "callers cf sc target projects depth edge_kinds projection max_nodes max_edges = Inr r"
    "narrowed sc projects = Inr gs" "gs_inv gs" "inj_on e_id (set (all_edges gs))"
    "cl_status r = ''ok''" "cl_complete r"
  shows "\<exists>start. cl_target r = Some start \<and> cl_missing r = [] \<and> cl_unresolved r = []
    \<and> doc_id ` set (cl_nodes r)
        = ball (walk_hop gs ''incoming'' (Some (cl_edge_kinds r)) None) {start} (nat (cl_depth r)) - {start}"
proof -
  from callers_ok [OF assms(1,2,5)] obtain sections hops kinds nb eb n w where
    w: "walk_from gs (n_id n) hops ''incoming'' (Some kinds) None (PInt nb) (PInt eb) = Inr w"
    and a: "callers_answer cf gs sections kinds n w = Inr r"
    by blast
  note f = callers_answer_fields [OF a]
  have "doc_id ` set (cl_nodes r) = n_id ` set (w_nodes w) - {n_id n}"
    using project_all_ids [OF conjunct1 [OF f]] by (metis filter_ids list.set_map)
  then show ?thesis
    using walk_from_exact [OF w assms(3,4) incoming_direction] f assms(6) walk_from_depth [OF w] by auto
qed

definition ex_callers :: "callers_result result" where
  "ex_callers = callers (\<lambda>s. s) (ScopeSet ex_set) ''aa'' None (PInt 1) PNone PNone PNone PNone"

theorem callers_complete_exact_witness:
  "\<exists>r. ex_callers = Inr r \<and> doc_id ` set (cl_nodes r)
     = ball (walk_hop ex_set ''incoming'' (Some (cl_edge_kinds r)) None) {ex_id CHR ''a''} 1 - {ex_id CHR ''a''}"
proof -
  have "returns ex_callers (\<lambda>r. cl_status r = ''ok'' \<and> cl_complete r \<and> cl_depth r = 1
      \<and> cl_target r = Some (ex_id CHR ''a''))"
    by code_simp
  then obtain r where r: "ex_callers = Inr r" "cl_status r = ''ok''" "cl_complete r" "cl_depth r = 1"
    "cl_target r = Some (ex_id CHR ''a'')"
    unfolding returns_iff by blast
  from callers_complete_exact [OF r(1) [unfolded ex_callers_def] ex_narrowed ex_set_inv ex_set_edge_ids r(2,3)] r
  show ?thesis by auto
qed

text \<open>
  The project counters of a caller answer are the counts of the nodes it lists, and
  \<open>cross_project\<close> names exactly the projects other than the target's that contribute a caller, in
  order and once each.
\<close>

theorem callers_cross_project:
  assumes "callers cf sc target projects depth edge_kinds projection max_nodes max_edges = Inr r"
    "narrowed sc projects = Inr gs" "cl_status r = ''ok''"
  shows "\<exists>n (ns :: node list). resolve cf gs target = Inr n \<and> map doc_id (cl_nodes r) = map n_id ns
    \<and> (\<forall>p. map_of (cl_per_project r) p
          = (if p \<in> n_project ` set ns then Some (count_list (map n_project ns) p) else None))
    \<and> set (cl_cross_project r) = n_project ` set ns - {n_project n} \<and> sorted (cl_cross_project r)
    \<and> distinct (cl_cross_project r)"
proof -
  from callers_ok [OF assms] obtain sections hops kinds nb eb n w where
    n: "resolve cf gs target = Inr n" and a: "callers_answer cf gs sections kinds n w = Inr r"
    by blast
  let ?ns = "filter (\<lambda>m. n_id m \<noteq> n_id n) (w_nodes w)"
  note f = callers_answer_fields [OF a]
  have get: "map_of (cl_per_project r) p = (if p \<in> n_project ` set ?ns then Some (count_list (map n_project ?ns) p) else None)" for p
    using f by (simp add: per_project_def count_by_get)
  have "fst ` set (cl_per_project r) = n_project ` set ?ns"
  proof (rule set_eqI)
    fix p show "p \<in> fst ` set (cl_per_project r) \<longleftrightarrow> p \<in> n_project ` set ?ns"
      using get [of p] by (metis map_of_eq_None_iff option.distinct(1))
  qed
  moreover have "distinct (dict_keys (cl_per_project r))"
    using f by (simp add: per_project_def count_by_distinct)
  ultimately have "set (cl_cross_project r) = n_project ` set ?ns - {n_project n}"
    "sorted (cl_cross_project r)" "distinct (cl_cross_project r)"
    using f by (auto simp: cross_projects_def distinct_filter)
  then show ?thesis
    using n get project_all_ids [OF conjunct1 [OF f]]
    by - (rule exI [of _ n], rule exI [of _ ?ns], simp)
qed

theorem callers_cross_project_witness:
  "\<exists>r. ex_callers = Inr r \<and> sorted (cl_cross_project r) \<and> map_of (cl_per_project r) ''app'' = Some 1"
proof -
  have "returns ex_callers (\<lambda>r. cl_status r = ''ok'' \<and> map_of (cl_per_project r) ''app'' = Some 1)"
    by code_simp
  then obtain r where r: "ex_callers = Inr r" "cl_status r = ''ok''" "map_of (cl_per_project r) ''app'' = Some 1"
    unfolding returns_iff by blast
  from callers_cross_project [OF r(1) [unfolded ex_callers_def] ex_narrowed r(2)] r show ?thesis by auto
qed

section \<open>Impact\<close>

lemma impact_ok:
  assumes "impact cf sc target projects depth edge_kinds projection max_nodes max_edges = Inr r"
    "narrowed sc projects = Inr gs" "im_status r = ''ok''"
  shows "\<exists>sections hops kinds nb eb coverage n w exact limited.
      normalise_projection projection = Inr sections
      \<and> bounded_int depth 0 MAX_DEPTH (Some DEFAULT_DEPTH) = Inr hops
      \<and> choice_list edge_kinds (sort EDGE_KINDS) (Some CALLER_KINDS) = Inr kinds
      \<and> bounded_int max_nodes 1 MAX_NODES (Some DEFAULT_MAX_NODES) = Inr nb
      \<and> bounded_int max_edges 0 MAX_EDGES (Some DEFAULT_MAX_EDGES) = Inr eb
      \<and> coverage_map gs = Inr coverage \<and> resolve cf gs target = Inr n
      \<and> walk_from gs (n_id n) hops ''incoming'' (Some kinds) None (PInt nb) (PInt eb) = Inr w
      \<and> walk_from gs (n_id n) hops ''incoming'' (Some kinds) (Some (sort STATIC_RESOLUTIONS)) (PInt nb) (PInt eb) = Inr exact
      \<and> depth_probe gs (n_id n) hops kinds (PInt nb) (PInt eb) w = Inr limited
      \<and> impact_answer cf gs sections kinds hops coverage n w exact limited = Inr r"
proof -
  have "im_status r = ''ambiguous_target''" if "ambiguous_impact g s t ids k h c = Inr r" for g s t ids k h c
    using that by (auto simp: ambiguous_impact_def result_simps)
  then show ?thesis
    using assms unfolding impact_def narrowed_def bind_result_eq_Inr resolve_case_Inr
    by (elim exE conjE disjE) (fastforce, clarsimp)
qed

lemma impact_answer_fields:
  assumes "impact_answer cf gs sections kinds hops coverage n w exact limited = Inr r"
  shows "project_all gs sections (filter (\<lambda>m. n_id m \<noteq> n_id n) (w_nodes w)) = Inr (im_nodes r)
    \<and> im_target r = Some (n_id n) \<and> im_edge_kinds r = kinds \<and> im_depth r = w_depth w
    \<and> im_truncated r = w_truncated w \<and> im_missing r = gs_missing gs \<and> im_coverage r = coverage
    \<and> set (im_proven r) = n_id ` set (w_nodes exact) - {n_id n}
    \<and> set (im_potential r) = n_id ` set (w_nodes w) - {n_id n} - set (im_proven r)
    \<and> (im_exhaustive r \<longrightarrow> \<not> limited \<and> \<not> w_truncated w \<and> gs_missing gs = [] \<and> w_unresolved w = []
         \<and> (\<forall>p \<in> set coverage. snd p = ''complete''))"
proof -
  let ?cl = "filter (\<lambda>m. n_id m \<noteq> n_id n) (w_nodes w)"
  let ?pr = "sort (map n_id (filter (\<lambda>m. n_id m \<noteq> n_id n) (w_nodes exact)))"
  let ?un = "w_unresolved w @ named_unresolved cf gs (n # ?cl)"
  let ?pc = "sort (map fst (filter (\<lambda>p. snd p \<noteq> ''complete'') coverage))"
  let ?in = "(if limited then [''depth_limited''] else []) @ (if w_truncated w then [''truncated''] else [])
            @ (if gs_missing gs \<noteq> [] then [''missing_members''] else [])
            @ (if ?un \<noteq> [] then [''unresolved_edges''] else [])
            @ (if ?pc \<noteq> [] then [''coverage_not_complete''] else [])"
  obtain docs where d: "project_all gs sections ?cl = Inr docs"
    using assms by (auto simp: impact_answer_def Let_def bind_result_eq_Inr)
  have r: "im_nodes r = docs \<and> im_target r = Some (n_id n) \<and> im_edge_kinds r = kinds \<and> im_depth r = w_depth w
    \<and> im_truncated r = w_truncated w \<and> im_missing r = gs_missing gs \<and> im_coverage r = coverage
    \<and> im_proven r = ?pr \<and> im_potential r = sort (map n_id (filter (\<lambda>m. n_id m \<notin> set ?pr) ?cl))
    \<and> im_exhaustive r = (?in = [])"
    using assms unfolding impact_answer_def Let_def d bind_result_Inr sum.inject
    by - (hypsubst, simp only: impact_result.select_convs simp_thms)
  then have "set (im_potential r) = n_id ` set (w_nodes w) - {n_id n} - set (im_proven r)"
    "set (im_proven r) = n_id ` set (w_nodes exact) - {n_id n}"
    by auto
  moreover have "?in = [] \<longrightarrow> \<not> limited \<and> \<not> w_truncated w \<and> gs_missing gs = [] \<and> w_unresolved w = [] \<and> ?pc = []"
    by simp
  moreover have "?pc = [] \<longrightarrow> (\<forall>p \<in> set coverage. snd p = ''complete'')"
    by (simp only: set_empty [symmetric] set_sort set_map set_filter) auto
  moreover have "project_all gs sections ?cl = Inr (im_nodes r)" using d r by simp
  ultimately show ?thesis using r by blast
qed

text \<open>
  An impact closure that is not truncated lists exactly the nodes that reach the target within
  the depth, and splits them without overlap or loss: the proven ones are exactly those that reach it
  over exact or annotated edges alone, when that second walk was not truncated either.
\<close>

theorem impact_partition:
  assumes "impact cf sc target projects depth edge_kinds projection max_nodes max_edges = Inr r"
    "narrowed sc projects = Inr gs" "gs_inv gs" "inj_on e_id (set (all_edges gs))"
    "im_status r = ''ok''" "\<not> im_truncated r"
  shows "\<exists>start. im_target r = Some start
    \<and> doc_id ` set (im_nodes r)
        = ball (walk_hop gs ''incoming'' (Some (im_edge_kinds r)) None) {start} (nat (im_depth r)) - {start}
    \<and> set (im_proven r) \<union> set (im_potential r) = doc_id ` set (im_nodes r)
    \<and> set (im_proven r) \<inter> set (im_potential r) = {}
    \<and> set (im_proven r) \<subseteq>
        ball (walk_hop gs ''incoming'' (Some (im_edge_kinds r)) (Some STATIC_RESOLUTIONS)) {start} (nat (im_depth r))"
proof -
  from impact_ok [OF assms(1,2,5)] obtain sections hops kinds nb eb coverage n w exact limited where
    w: "walk_from gs (n_id n) hops ''incoming'' (Some kinds) None (PInt nb) (PInt eb) = Inr w"
    "walk_from gs (n_id n) hops ''incoming'' (Some kinds) (Some (sort STATIC_RESOLUTIONS)) (PInt nb) (PInt eb) = Inr exact"
    and a: "impact_answer cf gs sections kinds hops coverage n w exact limited = Inr r"
    by (elim exE conjE) (rule that, assumption+)
  note f = impact_answer_fields [OF a]
  let ?R = "walk_hop gs ''incoming'' (Some kinds) None"
  let ?S = "walk_hop gs ''incoming'' (Some kinds) (Some STATIC_RESOLUTIONS)"
  have hop: "walk_hop gs ''incoming'' (Some kinds) (Some (sort STATIC_RESOLUTIONS)) = ?S"
    by (intro ext) (simp add: walk_hop_def edge_selected_def)
  have docs: "doc_id ` set (im_nodes r) = n_id ` set (w_nodes w) - {n_id n}"
    using project_all_ids [OF conjunct1 [OF f]] by (metis filter_ids list.set_map)
  have W: "n_id ` set (w_nodes w) = ball ?R {n_id n} (nat hops)"
    using walk_from_exact [OF w(1) assms(3,4) incoming_direction] f assms(6) by auto
  have E: "n_id ` set (w_nodes exact) \<subseteq> ball ?S {n_id n} (nat hops)"
    using walk_from_exact [OF w(2) assms(3,4) incoming_direction] by (simp add: hop)
  have "ball ?S {n_id n} (nat hops) \<subseteq> ball ?R {n_id n} (nat hops)"
    by (rule ball_mono_rel) (auto simp: walk_hop_def edge_selected_def)
  moreover have "set (im_proven r) = n_id ` set (w_nodes exact) - {n_id n}"
    "set (im_potential r) = n_id ` set (w_nodes w) - {n_id n} - set (im_proven r)"
    "im_target r = Some (n_id n)" "im_edge_kinds r = kinds"
    using f by blast+
  moreover have "im_depth r = hops"
    using f walk_from_depth [OF w(1)] by (elim conjE) (rule trans)
  moreover have "set (im_proven r) \<subseteq> n_id ` set (w_nodes w) - {n_id n}" unfolding W using calculation(1,2) E by auto
  ultimately show ?thesis
    unfolding docs W using E by (intro exI [of _ "n_id n"]) auto
qed

definition ex_impact :: "pyval \<Rightarrow> pyval \<Rightarrow> impact_result result" where
  "ex_impact depth max_nodes =
     impact (\<lambda>s. s) (ScopeSet ex_set) ''aa'' None depth PNone PNone max_nodes PNone"

theorem impact_partition_witness:
  "\<exists>r. ex_impact (PInt 1) PNone = Inr r \<and> set (im_proven r) \<union> set (im_potential r) = doc_id ` set (im_nodes r)
     \<and> length (im_nodes r) = 1"
proof -
  have "returns (ex_impact (PInt 1) PNone) (\<lambda>r. im_status r = ''ok'' \<and> \<not> im_truncated r \<and> length (im_nodes r) = 1)"
    by code_simp
  then obtain r where r: "ex_impact (PInt 1) PNone = Inr r" "im_status r = ''ok''" "\<not> im_truncated r"
    "length (im_nodes r) = 1"
    unfolding returns_iff by blast
  from impact_partition [OF r(1) [unfolded ex_impact_def] ex_narrowed ex_set_inv ex_set_edge_ids r(2,3)] r
  show ?thesis by auto
qed

text \<open>
  C11. An exhaustive impact answer has no gap inside its depth (every requested member pinned, every
  searched member of complete coverage, no unresolved edge), and it is the whole reverse closure at
  any depth, provided the probe one hop deeper was not itself stopped by a budget.
\<close>

theorem impact_exhaustive_closure:
  assumes "impact cf sc target projects depth edge_kinds projection max_nodes max_edges = Inr r"
    "narrowed sc projects = Inr gs" "gs_inv gs" "inj_on e_id (set (all_edges gs))"
    "im_status r = ''ok''" "im_exhaustive r" "im_target r = Some start"
    "bounded_int max_nodes 1 MAX_NODES (Some DEFAULT_MAX_NODES) = Inr nb"
    "bounded_int max_edges 0 MAX_EDGES (Some DEFAULT_MAX_EDGES) = Inr eb"
    "walk_from gs start (im_depth r + 1) ''incoming'' (Some (im_edge_kinds r)) None (PInt nb) (PInt eb) = Inr probe"
    "\<not> w_truncated probe"
  shows "im_missing r = [] \<and> (\<forall>p \<in> set (im_coverage r). snd p = ''complete'')
    \<and> doc_id ` set (im_nodes r) = reach (walk_hop gs ''incoming'' (Some (im_edge_kinds r)) None) {start} - {start}"
proof -
  from impact_ok [OF assms(1,2,5)] obtain sections hops kinds nb' eb' coverage n w exact limited where
    b: "bounded_int max_nodes 1 MAX_NODES (Some DEFAULT_MAX_NODES) = Inr nb'"
      "bounded_int max_edges 0 MAX_EDGES (Some DEFAULT_MAX_EDGES) = Inr eb'"
    and h: "bounded_int depth 0 MAX_DEPTH (Some DEFAULT_DEPTH) = Inr hops"
    and w: "walk_from gs (n_id n) hops ''incoming'' (Some kinds) None (PInt nb') (PInt eb') = Inr w"
    and p: "depth_probe gs (n_id n) hops kinds (PInt nb') (PInt eb') w = Inr limited"
    and a: "impact_answer cf gs sections kinds hops coverage n w exact limited = Inr r"
    by (elim exE conjE) (rule that, assumption+)
  note f = impact_answer_fields [OF a]
  have nl: "\<not> limited" "\<not> w_truncated w" "im_depth r = hops" "im_edge_kinds r = kinds" "start = n_id n"
      "gs_missing gs = []" "\<forall>p \<in> set (im_coverage r). snd p = ''complete''" "im_missing r = gs_missing gs"
    using f assms(6,7) walk_from_depth [OF w] by auto
  have "0 \<le> hops" using bounded_int_range [OF h] by (simp add: MAX_DEPTH_def DEFAULT_DEPTH_def)
  then have nat: "nat (hops + 1) = Suc (nat hops)" by simp
  have "nb' = nb" "eb' = eb" using b assms(8,9) by simp_all
  then have probe: "walk_from gs (n_id n) (hops + 1) ''incoming'' (Some kinds) None (PInt nb') (PInt eb') = Inr probe"
    using assms(10) nl by simp
  let ?R = "walk_hop gs ''incoming'' (Some kinds) None"
  have len: "length (w_nodes probe) \<le> length (w_nodes w)"
    using p nl(1) probe by (auto simp: depth_probe_def split: if_splits)
  have W: "n_id ` set (w_nodes w) = ball ?R {n_id n} (nat hops)"
    using walk_from_exact [OF w assms(3,4) incoming_direction] nl(2) by simp
  have P: "n_id ` set (w_nodes probe) = ball ?R {n_id n} (Suc (nat hops))"
    using walk_from_exact [OF probe assms(3,4) incoming_direction] assms(11) by (simp add: nat)
  have "card (ball ?R {n_id n} (Suc (nat hops))) = length (w_nodes probe)"
    using walk_from_distinct [OF probe assms(3)] P by (metis distinct_card length_map list.set_map)
  moreover have "card (ball ?R {n_id n} (nat hops)) = length (w_nodes w)"
    using walk_from_distinct [OF w assms(3)] W by (metis distinct_card length_map list.set_map)
  moreover have "finite (ball ?R {n_id n} (Suc (nat hops)))" unfolding P [symmetric] by simp
  ultimately have "ball ?R {n_id n} (nat hops) = ball ?R {n_id n} (Suc (nat hops))"
    using len ball_mono [of "nat hops" "Suc (nat hops)" ?R "{n_id n}"] by (intro card_seteq) simp_all
  then have "reach ?R {n_id n} = ball ?R {n_id n} (nat hops)"
    by (intro ball_closed) simp
  moreover have "doc_id ` set (im_nodes r) = n_id ` set (w_nodes w) - {n_id n}"
    using project_all_ids [OF conjunct1 [OF f]] by (metis filter_ids list.set_map)
  ultimately show ?thesis using nl W by simp
qed

theorem impact_exhaustive_closure_witness:
  "\<exists>r. ex_impact (PInt 2) PNone = Inr r \<and> doc_id ` set (im_nodes r)
     = reach (walk_hop ex_set ''incoming'' (Some (im_edge_kinds r)) None) {ex_id CHR ''a''} - {ex_id CHR ''a''}"
proof -
  have "returns (ex_impact (PInt 2) PNone) (\<lambda>r. im_status r = ''ok'' \<and> im_exhaustive r
      \<and> im_target r = Some (ex_id CHR ''a'')
      \<and> returns (walk_from ex_set (ex_id CHR ''a'') (im_depth r + 1) ''incoming'' (Some (im_edge_kinds r)) None
          (PInt 50) (PInt 100)) (\<lambda>p. \<not> w_truncated p))"
    by code_simp
  then obtain r p where r: "ex_impact (PInt 2) PNone = Inr r" "im_status r = ''ok''" "im_exhaustive r"
    "im_target r = Some (ex_id CHR ''a'')"
    and p: "walk_from ex_set (ex_id CHR ''a'') (im_depth r + 1) ''incoming'' (Some (im_edge_kinds r)) None
          (PInt 50) (PInt 100) = Inr p" "\<not> w_truncated p"
    unfolding returns_iff by blast
  have b: "bounded_int PNone 1 MAX_NODES (Some DEFAULT_MAX_NODES) = Inr 50"
    "bounded_int PNone 0 MAX_EDGES (Some DEFAULT_MAX_EDGES) = Inr 100"
    by (simp_all add: bounded_int_Inr DEFAULT_MAX_NODES_def DEFAULT_MAX_EDGES_def)
  from impact_exhaustive_closure [OF r(1) [unfolded ex_impact_def] ex_narrowed ex_set_inv ex_set_edge_ids r(2-4) b p] r
  show ?thesis by auto
qed

text \<open>
  The proviso of the previous property is needed: the probe runs under the same node budget as
  the walk, so a walk that exactly fills the budget is answered as exhaustive although a further
  node reaches the target.
\<close>

theorem impact_probe_blind_spot:
  "\<exists>r. ex_impact (PInt 1) (PInt 2) = Inr r \<and> im_exhaustive r \<and> im_incomplete r = []
     \<and> ex_id CHR ''c'' \<in> reach (walk_hop ex_set ''incoming'' (Some (im_edge_kinds r)) None) {ex_id CHR ''a''}
     \<and> ex_id CHR ''c'' \<notin> doc_id ` set (im_nodes r)"
proof -
  have "returns (ex_impact (PInt 1) (PInt 2)) (\<lambda>r. im_exhaustive r \<and> im_incomplete r = []
      \<and> list_all (\<lambda>d. doc_id d \<noteq> ex_id CHR ''c'') (im_nodes r) \<and> ''CALLS'' \<in> set (im_edge_kinds r))"
    by code_simp
  then obtain r where r: "ex_impact (PInt 1) (PInt 2) = Inr r" "im_exhaustive r" "im_incomplete r = []"
    "list_all (\<lambda>d. doc_id d \<noteq> ex_id CHR ''c'') (im_nodes r)" "''CALLS'' \<in> set (im_edge_kinds r)"
    unfolding returns_iff by blast
  let ?R = "walk_hop ex_set ''incoming'' (Some (im_edge_kinds r)) None"
  have "?R (ex_id CHR ''a'') (ex_id CHR ''b'')" "?R (ex_id CHR ''b'') (ex_id CHR ''c'')"
    using r(5) by (simp_all add: walk_hop_def ex_set_edges edge_selected_def other_end_def ex_edge_def ex_id_def)
  then have "ex_id CHR ''c'' \<in> reach ?R {ex_id CHR ''a''}"
    by (auto simp: reach_def)
  with r show ?thesis by (force simp: list_all_iff)
qed

end
