(* ===== verification/Search.thy ===== *)
theory Search
  imports Projection Examples
begin

text \<open>
  Symbol search of \<open>query/search.py\<close>: the exact-match index of a pinned scope, its ranked lookup, the
  bounded scan for weaker matches, and the ordered, capped candidate list. Match kinds are a datatype
  whose order is their rank. Python's \<open>str.casefold\<close> is the argument \<open>cf\<close>.
\<close>

section \<open>Match kinds\<close>

datatype match_kind = MatchId | ExactQualified | ExactName | FoldedQualified | FoldedName
  | PrefixMatch | SubstringMatch

fun match_text :: "match_kind \<Rightarrow> string" where
  "match_text MatchId = ''id''"
| "match_text ExactQualified = ''exact_qualified_name''"
| "match_text ExactName = ''exact_name''"
| "match_text FoldedQualified = ''folded_qualified_name''"
| "match_text FoldedName = ''folded_name''"
| "match_text PrefixMatch = ''prefix''"
| "match_text SubstringMatch = ''substring''"

fun RANK :: "match_kind \<Rightarrow> nat" where
  "RANK MatchId = 0"
| "RANK ExactQualified = 1"
| "RANK ExactName = 2"
| "RANK FoldedQualified = 3"
| "RANK FoldedName = 4"
| "RANK PrefixMatch = 5"
| "RANK SubstringMatch = 6"

lemma RANK_inject: "RANK a = RANK b \<Longrightarrow> a = b"
  by (cases a; cases b) simp_all

instantiation match_kind :: linorder
begin

definition less_eq_match_kind :: "match_kind \<Rightarrow> match_kind \<Rightarrow> bool" where
  "a \<le> b \<longleftrightarrow> RANK a \<le> RANK b"

definition less_match_kind :: "match_kind \<Rightarrow> match_kind \<Rightarrow> bool" where
  "a < b \<longleftrightarrow> RANK a < RANK b"

instance
  by standard (auto simp: less_eq_match_kind_def less_match_kind_def intro: RANK_inject)

end

section \<open>Candidates and the index\<close>

record symbol_candidate =
  sc_node :: string
  sc_project :: string
  sc_kind :: string
  sc_name :: string
  sc_qualified :: string
  sc_language :: string
  sc_source :: source_location
  sc_quality :: string
  sc_match :: match_kind

definition candidate_as_document :: "symbol_candidate \<Rightarrow> pyval" where
  "candidate_as_document c = PDict
     [(''id'', PStr (sc_node c)), (''project_id'', PStr (sc_project c)), (''kind'', PStr (sc_kind c)),
      (''name'', PStr (sc_name c)), (''qualified_name'', PStr (sc_qualified c)),
      (''language'', PStr (sc_language c)), (''source'', source_as_document (sc_source c)),
      (''identity_quality'', PStr (sc_quality c)), (''match'', PStr (match_text (sc_match c)))]"

record symbol_index =
  si_projects :: "string list"
  si_count :: nat
  si_by_id :: "(string, string) dict"
  si_by_qualified :: "(string, string list) dict"
  si_by_name :: "(string, string list) dict"
  si_by_folded_qualified :: "(string, string list) dict"
  si_by_folded_name :: "(string, string list) dict"
  si_scan :: "string list"

text \<open>The inner \<open>note\<close> of \<open>exact\<close>: a node is reported once, at its best rank.\<close>

definition note_hit ::
  "string \<times> match_kind \<Rightarrow> (string, match_kind) dict \<times> (string, match_kind) dict
   \<Rightarrow> (string, match_kind) dict \<times> (string, match_kind) dict" where
  "note_hit hit acc =
     (case (hit, acc) of ((nid, m), (best, ordered)) \<Rightarrow>
        (case map_of best nid of
           Some previous \<Rightarrow> if RANK previous \<le> RANK m then (best, ordered) else (dict_set nid m best, ordered)
         | None \<Rightarrow> (dict_set nid m best, ordered @ [(nid, m)])))"

definition exact_hits :: "(string \<Rightarrow> string) \<Rightarrow> symbol_index \<Rightarrow> string \<Rightarrow> (string \<times> match_kind) list" where
  "exact_hits cf si query =
     (case map_of (si_by_id si) query of None \<Rightarrow> [] | Some nid \<Rightarrow> [(nid, MatchId)])
     @ map (\<lambda>nid. (nid, ExactQualified)) (dict_items (si_by_qualified si) query)
     @ map (\<lambda>nid. (nid, ExactName)) (dict_items (si_by_name si) query)
     @ map (\<lambda>nid. (nid, FoldedQualified)) (dict_items (si_by_folded_qualified si) (cf query))
     @ map (\<lambda>nid. (nid, FoldedName)) (dict_items (si_by_folded_name si) (cf query))"

definition exact_lookup :: "(string \<Rightarrow> string) \<Rightarrow> symbol_index \<Rightarrow> string \<Rightarrow> (string \<times> match_kind) list" where
  "exact_lookup cf si query =
     (case fold note_hit (exact_hits cf si query) ([], []) of (best, ordered) \<Rightarrow>
        map (\<lambda>p. (fst p, the (map_of best (fst p)))) ordered)"

definition index_nodes :: "(node \<Rightarrow> string) \<Rightarrow> node list \<Rightarrow> (string, string list) dict" where
  "index_nodes key ns = fold (\<lambda>n d. dict_append (key n) (n_id n) d) ns []"

type_synonym scan_key = "string \<times> string \<times> string"

definition scan_keys :: "node list \<Rightarrow> (string, scan_key) dict" where
  "scan_keys ns = fold (\<lambda>n d. dict_set (n_id n) (n_project n, n_qualified n, n_id n) d) ns []"

definition in_scan_order :: "(string, scan_key) dict \<Rightarrow> string list \<Rightarrow> string list" where
  "in_scan_order order ids = sort_key (\<lambda>nid. the (map_of order nid)) ids"

definition build_symbol_index :: "(string \<Rightarrow> string) \<Rightarrow> graph_set \<Rightarrow> symbol_index" where
  "build_symbol_index cf gs =
     (let ns = nodes_sorted gs;
          by_id = fold (\<lambda>n d. dict_set (n_id n) (n_id n) d) ns [];
          order = scan_keys ns;
          sorted_map = map (\<lambda>p. (fst p, in_scan_order order (snd p)))
      in \<lparr>si_projects = project_ids gs, si_count = length ns, si_by_id = by_id,
          si_by_qualified = sorted_map (index_nodes n_qualified ns),
          si_by_name = sorted_map (index_nodes n_name ns),
          si_by_folded_qualified = sorted_map (index_nodes (\<lambda>n. cf (n_qualified n)) ns),
          si_by_folded_name = sorted_map (index_nodes (\<lambda>n. cf (n_name n)) ns),
          si_scan = in_scan_order order (dict_keys by_id)\<rparr>)"

section \<open>The search\<close>

record search_result =
  s_query :: string
  s_candidates :: "symbol_candidate list"
  s_scanned :: nat
  s_pinned :: nat
  s_limit :: int
  s_max_nodes :: int
  s_truncated :: bool
  s_warnings :: "warning list"

text \<open>The \<open>ambiguous\<close> property: more than one candidate shares the best rank.\<close>

definition search_ambiguous :: "search_result \<Rightarrow> bool" where
  "search_ambiguous r =
     (case s_candidates r of
        [] \<Rightarrow> False
      | c # _ \<Rightarrow> length (filter (\<lambda>d. RANK (sc_match d) = RANK (sc_match c)) (s_candidates r)) > 1)"

definition search_as_document :: "(warning \<Rightarrow> string) \<Rightarrow> search_result \<Rightarrow> pyval" where
  "search_as_document say r = PDict
     [(''query'', PStr (s_query r)), (''candidates'', PList (map candidate_as_document (s_candidates r))),
      (''scanned'', PInt (int (s_scanned r))), (''pinned_nodes'', PInt (int (s_pinned r))),
      (''limit'', PInt (s_limit r)), (''truncated'', PBool (s_truncated r)),
      (''ambiguous'', PBool (search_ambiguous r)), (''warnings'', PList (map (\<lambda>w. PStr (say w)) (s_warnings r)))]"

definition candidate_of :: "node \<Rightarrow> match_kind \<Rightarrow> symbol_candidate" where
  "candidate_of n m = \<lparr>sc_node = n_id n, sc_project = n_project n, sc_kind = n_kind n, sc_name = n_name n,
     sc_qualified = n_qualified n, sc_language = n_language n, sc_source = n_source n,
     sc_quality = n_quality n, sc_match = m\<rparr>"

definition weaker_match :: "(string \<Rightarrow> string) \<Rightarrow> node \<Rightarrow> string \<Rightarrow> match_kind option" where
  "weaker_match cf n folded =
     (if starts_with folded (cf (n_qualified n)) \<or> starts_with folded (cf (n_name n)) then Some PrefixMatch
      else if contains_text folded (cf (n_qualified n)) \<or> contains_text folded (cf (n_name n)) then Some SubstringMatch
      else None)"

fun scan_nodes ::
  "(string \<Rightarrow> string) \<Rightarrow> graph_set \<Rightarrow> string list \<Rightarrow> int \<Rightarrow> string \<Rightarrow> string list \<Rightarrow> nat
   \<Rightarrow> (string, match_kind) dict \<Rightarrow> (nat \<times> (string, match_kind) dict) result" where
  "scan_nodes cf gs selection ceiling folded [] scanned ranked = Inr (scanned, ranked)"
| "scan_nodes cf gs selection ceiling folded (nid # rest) scanned ranked =
     (if int scanned \<ge> ceiling then Inr (scanned, ranked)
      else bind_result (gs_node gs nid) (\<lambda>n.
        if selection \<noteq> [] \<and> n_kind n \<notin> set selection
          then scan_nodes cf gs selection ceiling folded rest scanned ranked
        else scan_nodes cf gs selection ceiling folded rest (Suc scanned)
          (case weaker_match cf n folded of None \<Rightarrow> ranked | Some m \<Rightarrow> dict_setdefault nid m ranked)))"

definition gather ::
  "graph_set \<Rightarrow> string list \<Rightarrow> (string, match_kind) dict \<Rightarrow> symbol_candidate list result" where
  "gather gs selection ranked =
     bind_result (map_result (\<lambda>p. bind_result (gs_node gs (fst p)) (\<lambda>n. Inr (n, snd p))) ranked) (\<lambda>ps.
       Inr (map (\<lambda>p. candidate_of (fst p) (snd p))
         (filter (\<lambda>p. selection = [] \<or> n_kind (fst p) \<in> set selection) ps)))"

definition candidate_key :: "symbol_candidate \<Rightarrow> nat \<times> string \<times> string \<times> string" where
  "candidate_key c = (RANK (sc_match c), sc_project c, sc_qualified c, sc_node c)"

definition search_symbols ::
  "(string \<Rightarrow> string) \<Rightarrow> scope \<Rightarrow> pyval \<Rightarrow> string list option \<Rightarrow> string list option \<Rightarrow> pyval \<Rightarrow> pyval
   \<Rightarrow> search_result result" where
  "search_symbols cf sc query projects kinds limit max_nodes =
     bind_result (case query of PStr q \<Rightarrow> if strip q = [] then Inl LimitRejected else Inr q
                   | _ \<Rightarrow> Inl LimitRejected) (\<lambda>q.
     bind_result (as_graph_set sc) (\<lambda>scope.
     bind_result (narrow_scope scope projects) (\<lambda>gs.
     (let selection = (case kinds of None \<Rightarrow> [] | Some ks \<Rightarrow> sorted_set ks) in
     bind_result (if selection = [] then Inr []
                  else choice_list (PList (map PStr (the kinds))) (sort NODE_KINDS) None) (\<lambda>_.
     bind_result (bounded_int max_nodes 1 MAX_NODES (Some DEFAULT_MAX_NODES)) (\<lambda>ceiling.
     bind_result (bounded_int limit 1 MAX_NODES (Some ceiling)) (\<lambda>requested.
     (let allowance = min requested ceiling;
          index = build_symbol_index cf gs;
          wanted = strip q;
          folded = cf wanted;
          ranked = dict_fill (exact_lookup cf index wanted) []
      in bind_result (if int (length ranked) < allowance
                      then scan_nodes cf gs selection ceiling folded (si_scan index) 0 ranked
                      else Inr (0, ranked)) (\<lambda>sr.
         bind_result (gather gs selection (snd sr)) (\<lambda>gathered.
         (let candidates = sort_key candidate_key gathered;
              truncated = int (length candidates) > allowance;
              warnings = (if truncated then [Warning ''limit'' [] [allowance]] else [])
                @ (if candidates = [] then [Warning ''no_symbol_matched'' [] []] else []);
              result = \<lparr>s_query = wanted, s_candidates = take (nat allowance) candidates,
                s_scanned = fst sr, s_pinned = si_count index, s_limit = allowance,
                s_max_nodes = ceiling, s_truncated = truncated, s_warnings = warnings\<rparr>
          in Inr (if search_ambiguous result
                  then result\<lparr>s_warnings := warnings @ [Warning ''ambiguous''
                    [match_text (sc_match (hd (s_candidates result)))] [int (length (s_candidates result))]]\<rparr>
                  else result))))))))))))"

section \<open>What the index finds\<close>

lemma note_fold:
  "sorted (map (\<lambda>p. RANK (snd p)) hits) \<Longrightarrow> (\<And>p q. p \<in> set d \<Longrightarrow> q \<in> set hits \<Longrightarrow> RANK (snd p) \<le> RANK (snd q))
     \<Longrightarrow> fold note_hit hits (d, d) = (dict_fill hits d, dict_fill hits d)"
proof (induction hits arbitrary: d)
  case (Cons h hits)
  obtain nid m where h: "h = (nid, m)" by (cases h)
  have step: "note_hit h (d, d) = (dict_setdefault nid m d, dict_setdefault nid m d)"
  proof (cases "map_of d nid")
    case None
    then have "dict_set nid m d = d @ [(nid, m)]"
      by (simp add: dict_set_length_new map_of_eq_None_iff)
    with None show ?thesis by (simp add: note_hit_def h dict_setdefault_def)
  next
    case (Some prev)
    then have "RANK prev \<le> RANK m"
      using Cons.prems(2) [OF map_of_get_mem [OF Some], of h] by (simp add: h)
    with Some show ?thesis by (simp add: note_hit_def h dict_setdefault_def)
  qed
  have "RANK (snd p) \<le> RANK (snd q)" if "p \<in> set (dict_setdefault nid m d)" "q \<in> set hits" for p q
    using dict_setdefault_member [OF that(1)] that(2) Cons.prems(1) Cons.prems(2) [of p q] by (auto simp: h)
  then show ?case
    using Cons.IH [of "dict_setdefault nid m d"] Cons.prems(1) step by (simp add: dict_fill_def h)
qed (simp add: dict_fill_def)

lemma sorted_constant: "sorted (map (\<lambda>x. c) xs)"
  by (induction xs) simp_all

lemma exact_hits_sorted: "sorted (map (\<lambda>p. RANK (snd p)) (exact_hits cf si q))"
  by (auto simp: exact_hits_def sorted_append comp_def sorted_constant split: option.splits)

lemma exact_lookup_fill: "exact_lookup cf si q = dict_fill (exact_hits cf si q) []"
proof -
  let ?d = "dict_fill (exact_hits cf si q) []"
  have "fold note_hit (exact_hits cf si q) ([], []) = (?d, ?d)"
    by (rule note_fold [OF exact_hits_sorted]) simp
  moreover have "map (\<lambda>p. (fst p, the (map_of ?d (fst p)))) ?d = ?d"
    by (rule map_idI) (use dict_fill_distinct [of "[]" "exact_hits cf si q"] in \<open>auto\<close>)
  ultimately show ?thesis by (simp add: exact_lookup_def)
qed

text \<open>The rank at which a node matches exactly, and the rank at which it matches at all.\<close>

definition exact_of :: "(string \<Rightarrow> string) \<Rightarrow> node \<Rightarrow> string \<Rightarrow> match_kind option" where
  "exact_of cf n q =
     (if n_id n = q then Some MatchId
      else if n_qualified n = q then Some ExactQualified
      else if n_name n = q then Some ExactName
      else if cf (n_qualified n) = cf q then Some FoldedQualified
      else if cf (n_name n) = cf q then Some FoldedName
      else None)"

definition match_of :: "(string \<Rightarrow> string) \<Rightarrow> node \<Rightarrow> string \<Rightarrow> match_kind option" where
  "match_of cf n q = (case exact_of cf n q of Some m \<Rightarrow> Some m | None \<Rightarrow> weaker_match cf n (cf q))"

lemma in_scan_order_set [simp]: "set (in_scan_order order ids) = set ids"
  by (simp add: in_scan_order_def)

lemma index_items:
  "set (dict_items (map (\<lambda>p. (fst p, in_scan_order order (snd p))) (index_nodes key ns)) k)
     = n_id ` {n \<in> set ns. key n = k}"
  by (subst dict_items_map) (auto simp: in_scan_order_def index_nodes_def dict_append_fold_items
      dict_items_def [of "[]"])

lemma by_id_get: "map_of (fold (\<lambda>n d. dict_set (n_id n) (n_id n) d) ns d) k
     = (if k \<in> n_id ` set ns then Some k else map_of d k)"
  by (induction ns arbitrary: d) (auto simp: update_conv')

lemma by_id_keys: "fst ` set (fold (\<lambda>n d. dict_set (n_id n) (n_id n) d) ns d) = n_id ` set ns \<union> fst ` set d"
  by (induction ns arbitrary: d) (auto simp: dict_set_keys)

lemma exact_hits_get:
  assumes "n \<in> set (nodes_sorted gs)" "inj_on n_id (set (nodes_sorted gs))"
  shows "map_of (exact_hits cf (build_symbol_index cf gs) q) (n_id n) = exact_of cf n q"
proof -
  have "n_id n \<in> n_id ` {m \<in> set (nodes_sorted gs). P m} \<longleftrightarrow> P n" for P
    using assms by (auto dest: inj_onD)
  then show ?thesis
    using assms(1)
    by (simp add: exact_hits_def build_symbol_index_def Let_def index_items by_id_get map_of_constant
        exact_of_def map_add_def split: option.splits) auto
qed

lemma exact_hits_keys:
  "fst ` set (exact_hits cf (build_symbol_index cf gs) q) \<subseteq> n_id ` set (nodes_sorted gs)"
  by (auto simp: exact_hits_def build_symbol_index_def Let_def index_items by_id_get image_iff
      split: option.splits if_splits)

section \<open>What the scan adds\<close>

lemma scan_nodes_get:
  assumes "scan_nodes cf gs selection ceiling folded ids scanned ranked = Inr (scanned', ranked')"
    "distinct ids"
  shows "(map_of ranked' k = Some m \<longrightarrow> map_of ranked k = Some m
      \<or> (map_of ranked k = None \<and> k \<in> set ids \<and> (\<exists>n. gs_node gs k = Inr n \<and> weaker_match cf n folded = Some m)))
    \<and> (map_of ranked k = Some m \<longrightarrow> map_of ranked' k = Some m)
    \<and> (int scanned' < ceiling \<and> k \<in> set ids \<longrightarrow>
        (\<exists>n. gs_node gs k = Inr n \<and> ((selection = [] \<or> n_kind n \<in> set selection) \<and> map_of ranked k = None \<longrightarrow>
          map_of ranked' k = weaker_match cf n folded)))
    \<and> (int scanned \<le> ceiling \<longrightarrow> int scanned' \<le> ceiling) \<and> scanned \<le> scanned'"
  using assms
proof (induction ids arbitrary: scanned ranked m)
  case (Cons nid rest)
  show ?case
  proof (cases "int scanned \<ge> ceiling")
    case True
    with Cons.prems show ?thesis by auto
  next
    case below: False
    obtain n where n: "gs_node gs nid = Inr n"
      using Cons.prems(1) below by (auto simp: result_simps)
    show ?thesis
    proof (cases "selection \<noteq> [] \<and> n_kind n \<notin> set selection")
      case True
      with Cons.prems(1) below n
      have "scan_nodes cf gs selection ceiling folded rest scanned ranked = Inr (scanned', ranked')" by simp
      from Cons.IH [OF this] Cons.prems(2) n True below show ?thesis by auto
    next
      case False
      let ?r = "case weaker_match cf n folded of None \<Rightarrow> ranked | Some m \<Rightarrow> dict_setdefault nid m ranked"
      have s: "scan_nodes cf gs selection ceiling folded rest (Suc scanned) ?r = Inr (scanned', ranked')"
        using Cons.prems(1) below n False by (auto split: if_splits)
      have r: "map_of ?r k = (case map_of ranked k of Some v \<Rightarrow> Some v
          | None \<Rightarrow> if k = nid then weaker_match cf n folded else None)" for k
        by (auto simp: dict_setdefault_get split: option.splits)
      have IH: "(map_of ranked' k = Some m \<longrightarrow> map_of ?r k = Some m
          \<or> (map_of ?r k = None \<and> k \<in> set rest \<and> (\<exists>n. gs_node gs k = Inr n \<and> weaker_match cf n folded = Some m)))
        \<and> (map_of ?r k = Some m \<longrightarrow> map_of ranked' k = Some m)
        \<and> (int scanned' < ceiling \<and> k \<in> set rest \<longrightarrow>
            (\<exists>n. gs_node gs k = Inr n \<and> ((selection = [] \<or> n_kind n \<in> set selection) \<and> map_of ?r k = None \<longrightarrow>
              map_of ranked' k = weaker_match cf n folded)))
        \<and> (int (Suc scanned) \<le> ceiling \<longrightarrow> int scanned' \<le> ceiling) \<and> Suc scanned \<le> scanned'" for m
        using Cons.IH [OF s] Cons.prems(2) by simp
      show ?thesis
      proof (cases "k = nid")
        case True
        then have "k \<notin> set rest" using Cons.prems(2) by simp
        then have "map_of ranked' k = Some v \<Longrightarrow> map_of ?r k = Some v"
          and "map_of ?r k = Some v \<Longrightarrow> map_of ranked' k = Some v" for v
          using IH [of v] by blast+
        then have "map_of ranked' k = map_of ?r k" by (metis not_None_eq)
        then have same: "map_of ranked' nid = (case map_of ranked nid of Some v \<Rightarrow> Some v
            | None \<Rightarrow> weaker_match cf n folded)"
          unfolding r by (simp add: True)
        have "(int (Suc scanned) \<le> ceiling \<longrightarrow> int scanned' \<le> ceiling) \<and> Suc scanned \<le> scanned'"
          using IH [of m] by blast
        with same n below show ?thesis
          unfolding True by (cases "map_of ranked nid") auto
      next
        case other: False
        then have "map_of ?r k = map_of ranked k" unfolding r by (simp split: option.splits)
        with IH [of m] below other show ?thesis by auto
      qed
    qed
  qed
qed simp

lemma scan_nodes_distinct:
  "scan_nodes cf gs selection ceiling folded ids scanned ranked = Inr (scanned', ranked') \<Longrightarrow>
     distinct (dict_keys ranked) \<Longrightarrow> distinct (dict_keys ranked')"
proof (induction ids arbitrary: scanned ranked)
  case (Cons nid rest)
  have "distinct (dict_keys (case w of None \<Rightarrow> ranked | Some m \<Rightarrow> dict_setdefault nid m ranked))" for w
    using Cons.prems(2) by (auto simp: dict_setdefault_distinct split: option.splits)
  with Cons show ?case by (auto simp: result_simps split: if_splits)
qed simp

lemma gather_set:
  assumes "gather gs selection ranked = Inr cs" "distinct (dict_keys ranked)"
  shows "set cs = {candidate_of n m | n m k. gs_node gs k = Inr n \<and> map_of ranked k = Some m
      \<and> (selection = [] \<or> n_kind n \<in> set selection)}
    \<and> (gs_inv gs \<longrightarrow> distinct (map sc_node cs))"
proof -
  obtain ps where ps: "map_result (\<lambda>p. bind_result (gs_node gs (fst p)) (\<lambda>n. Inr (n, snd p))) ranked = Inr ps"
    and cs: "cs = map (\<lambda>p. candidate_of (fst p) (snd p)) (filter (\<lambda>p. selection = [] \<or> n_kind (fst p) \<in> set selection) ps)"
    using assms(1) by (auto simp: gather_def result_simps)
  have mem: "set ps = {(n, m) | n m k. (k, m) \<in> set ranked \<and> gs_node gs k = Inr n}"
    using ps
  proof (induction ranked arbitrary: ps)
    case (Cons p ranked)
    obtain k m where p: "p = (k, m)" by (cases p)
    obtain n ps' where "gs_node gs k = Inr n" "ps = (n, m) # ps'"
      "map_result (\<lambda>p. bind_result (gs_node gs (fst p)) (\<lambda>n. Inr (n, snd p))) ranked = Inr ps'"
      using Cons.prems by (auto simp: p result_simps)
    with Cons.IH [of ps'] p show ?case by auto
  qed simp
  have "distinct (map (\<lambda>p. n_id (fst p)) ps)" if inv: "gs_inv gs"
  proof -
    have "map (\<lambda>p. n_id (fst p)) ps = dict_keys ranked"
      using ps gs_inv_node [OF inv]
      by (induction ranked arbitrary: ps) (auto simp: result_simps)
    with assms(2) show ?thesis by simp
  qed
  then have "gs_inv gs \<longrightarrow> distinct (map sc_node cs)"
    by (auto simp: cs comp_def candidate_of_def distinct_map_filter)
  moreover have "set cs = {candidate_of n m | n m k. gs_node gs k = Inr n \<and> map_of ranked k = Some m
      \<and> (selection = [] \<or> n_kind n \<in> set selection)}"
  proof (rule set_eqI)
    fix c
    show "c \<in> set cs \<longleftrightarrow> c \<in> {candidate_of n m | n m k. gs_node gs k = Inr n \<and> map_of ranked k = Some m
      \<and> (selection = [] \<or> n_kind n \<in> set selection)}"
      using assms(2) unfolding cs set_map set_filter mem image_iff by (simp add: map_of_eq_Some_iff) blast
  qed
  ultimately show ?thesis by blast
qed

section \<open>From the search to its parts\<close>

definition selected_kinds :: "string list option \<Rightarrow> string list" where
  "selected_kinds kinds = (case kinds of None \<Rightarrow> [] | Some ks \<Rightarrow> sorted_set ks)"

definition ranked_exact :: "(string \<Rightarrow> string) \<Rightarrow> graph_set \<Rightarrow> string \<Rightarrow> (string, match_kind) dict" where
  "ranked_exact cf gs wanted = dict_fill (exact_lookup cf (build_symbol_index cf gs) wanted) []"

lemma search_ok:
  assumes "search_symbols cf sc query projects kinds limit max_nodes = Inr r" "narrowed sc projects = Inr gs"
  shows "\<exists>q ceiling requested sr cs. query = PStr q
    \<and> bounded_int max_nodes 1 MAX_NODES (Some DEFAULT_MAX_NODES) = Inr ceiling
    \<and> bounded_int limit 1 MAX_NODES (Some ceiling) = Inr requested
    \<and> (if int (length (ranked_exact cf gs (strip q))) < min requested ceiling
        then scan_nodes cf gs (selected_kinds kinds) ceiling (cf (strip q)) (si_scan (build_symbol_index cf gs)) 0
          (ranked_exact cf gs (strip q))
        else Inr (0, ranked_exact cf gs (strip q))) = Inr sr
    \<and> gather gs (selected_kinds kinds) (snd sr) = Inr cs
    \<and> s_query r = strip q \<and> s_candidates r = take (nat (min requested ceiling)) (sort_key candidate_key cs)
    \<and> s_scanned r = fst sr \<and> s_limit r = min requested ceiling \<and> s_max_nodes r = ceiling
    \<and> s_truncated r = (int (length cs) > min requested ceiling)"
proof -
  obtain q where q: "query = PStr q"
    using assms(1) by (auto simp: search_symbols_def bind_result_def split: pyval.splits)
  from assms show ?thesis
    unfolding q search_symbols_def narrowed_def bind_result_eq_Inr Let_def ranked_exact_def
      selected_kinds_def [symmetric]
    by (elim exE conjE) (clarsimp split: if_split_asm)
qed

lemma bind_result_ok: "m = Inr x \<Longrightarrow> \<exists>r. f x = Inr r \<Longrightarrow> \<exists>r. bind_result m f = Inr r"
  by (simp add: bind_result_def)

text \<open>The search with default options, run stage by stage.\<close>

lemma search_symbols_run:
  assumes "strip q \<noteq> []" "bounded_int limit 1 MAX_NODES (Some DEFAULT_MAX_NODES) = Inr requested"
    "requested \<le> DEFAULT_MAX_NODES"
    "(if int (length (ranked_exact cf gs (strip q))) < requested
        then scan_nodes cf gs [] DEFAULT_MAX_NODES (cf (strip q)) (si_scan (build_symbol_index cf gs)) 0
          (ranked_exact cf gs (strip q))
        else Inr (0, ranked_exact cf gs (strip q))) = Inr sr"
    "gather gs [] (snd sr) = Inr cs"
  shows "\<exists>r. search_symbols cf (ScopeSet gs) (PStr q) None None limit PNone = Inr r \<and> s_query r = strip q
    \<and> s_candidates r = take (nat requested) (sort_key candidate_key cs) \<and> s_scanned r = fst sr
    \<and> s_max_nodes r = DEFAULT_MAX_NODES \<and> s_truncated r = (int (length cs) > requested)"
proof -
  have ceiling: "bounded_int PNone 1 MAX_NODES (Some DEFAULT_MAX_NODES) = Inr DEFAULT_MAX_NODES"
    by (simp add: bounded_int_def)
  with assms have "\<exists>r. search_symbols cf (ScopeSet gs) (PStr q) None None limit PNone = Inr r"
    unfolding search_symbols_def narrow_scope_def Let_def ranked_exact_def
    by (intro bind_result_ok [of _ q] bind_result_ok [of _ gs] bind_result_ok [of _ "[]"]
         bind_result_ok [of _ "DEFAULT_MAX_NODES"] bind_result_ok [of _ requested]
         bind_result_ok [of _ sr] bind_result_ok [of _ cs])
       (simp_all only: min_absorb1 pyval.case option.case if_False as_graph_set.simps if_True simp_thms
         sum.inject ex_simps)
  then obtain r where r: "search_symbols cf (ScopeSet gs) (PStr q) None None limit PNone = Inr r" ..
  have "narrowed (ScopeSet gs) None = Inr gs" by (simp add: narrowed_def narrow_scope_def)
  note ok = search_ok [OF r this]
  have "selected_kinds None = []" by (simp add: selected_kinds_def)
  from ok [unfolded this] show ?thesis
    using r assms ceiling by (elim exE conjE) (clarsimp simp: min_absorb1)
qed

lemma pinned_ids:
  "gs_inv gs \<Longrightarrow> n_id ` set (nodes_sorted gs) = {k. is_ok (gs_node gs k)}"
  by (auto simp: is_ok_iff gs_node_iff)

lemma index_scan:
  "set (si_scan (build_symbol_index cf gs)) = n_id ` set (nodes_sorted gs)"
  by (simp add: build_symbol_index_def Let_def by_id_keys)

lemma index_scan_distinct: "distinct (si_scan (build_symbol_index cf gs))"
proof -
  have "distinct (dict_keys (fold (\<lambda>n d. dict_set (n_id n) (n_id n) d) ns d))"
    if "distinct (dict_keys d)" for ns :: "node list" and d :: "(string, string) dict"
    using that by (induction ns arbitrary: d) (simp_all add: dict_set_distinct)
  then show ?thesis
    by (simp add: build_symbol_index_def Let_def in_scan_order_def)
qed

lemma ranked_exact_get:
  assumes "gs_inv gs"
  shows "map_of (ranked_exact cf gs q) k = (case gs_node gs k of Inl e \<Rightarrow> None | Inr n \<Rightarrow> exact_of cf n q)"
    and "distinct (dict_keys (ranked_exact cf gs q))"
proof -
  have inj: "inj_on n_id (set (nodes_sorted gs))"
    using distinct_nodes_sorted [OF assms] by (simp add: distinct_map)
  have get: "map_of (ranked_exact cf gs q) k = map_of (exact_hits cf (build_symbol_index cf gs) q) k" for k
    by (simp add: ranked_exact_def exact_lookup_fill dict_fill_get)
  show "map_of (ranked_exact cf gs q) k = (case gs_node gs k of Inl e \<Rightarrow> None | Inr n \<Rightarrow> exact_of cf n q)"
  proof (cases "gs_node gs k")
    case (Inl e)
    then have "k \<notin> n_id ` set (nodes_sorted gs)" by (simp add: pinned_ids [OF assms])
    then have "k \<notin> fst ` set (exact_hits cf (build_symbol_index cf gs) q)"
      using exact_hits_keys by blast
    with Inl show ?thesis by (simp add: get map_of_eq_None_iff)
  next
    case (Inr n)
    then have "n \<in> set (nodes_sorted gs)" "n_id n = k" by (simp_all add: gs_node_iff [OF assms])
    with exact_hits_get [OF this(1) inj] Inr get show ?thesis by auto
  qed
  show "distinct (dict_keys (ranked_exact cf gs q))"
    by (simp add: ranked_exact_def dict_fill_distinct)
qed

lemma search_ranked:
  assumes "gs_inv gs"
    and sr: "(if int (length (ranked_exact cf gs q)) < allowance
        then scan_nodes cf gs selection ceiling (cf q) (si_scan (build_symbol_index cf gs)) 0 (ranked_exact cf gs q)
        else Inr (0, ranked_exact cf gs q)) = Inr sr" and "0 \<le> ceiling"
  shows "(map_of (snd sr) k = Some m \<longrightarrow> (\<exists>n. gs_node gs k = Inr n \<and> match_of cf n q = Some m))
    \<and> (\<forall>n. gs_node gs k = Inr n \<and> exact_of cf n q = Some m \<longrightarrow> map_of (snd sr) k = Some m)
    \<and> (\<forall>n. 0 < fst sr \<and> int (fst sr) < ceiling \<and> gs_node gs k = Inr n
          \<and> (selection = [] \<or> n_kind n \<in> set selection) \<and> match_of cf n q = Some m \<longrightarrow> map_of (snd sr) k = Some m)
    \<and> int (fst sr) \<le> ceiling \<and> distinct (dict_keys (snd sr))"
proof (cases "int (length (ranked_exact cf gs q)) < allowance")
  case False
  with sr assms show ?thesis
    by (auto simp: ranked_exact_get [OF assms(1)] match_of_def split: sum.splits)
next
  case True
  obtain sn rk where srk: "sr = (sn, rk)" by (cases sr)
  have scan: "scan_nodes cf gs selection ceiling (cf q) (si_scan (build_symbol_index cf gs)) 0 (ranked_exact cf gs q) = Inr (sn, rk)"
    using sr True srk by simp
  note g = scan_nodes_get [OF scan index_scan_distinct, of k m]
  have exact: "map_of (ranked_exact cf gs q) k = Some m \<Longrightarrow> \<exists>n. gs_node gs k = Inr n \<and> exact_of cf n q = Some m"
    by (simp add: ranked_exact_get [OF assms(1)] split: sum.splits)
  have none: "map_of (ranked_exact cf gs q) k = None \<Longrightarrow> gs_node gs k = Inr n \<Longrightarrow> exact_of cf n q = None" for n
    by (simp add: ranked_exact_get [OF assms(1)])
  have 1: "\<exists>n. gs_node gs k = Inr n \<and> match_of cf n q = Some m" if "map_of rk k = Some m"
  proof -
    have "map_of (ranked_exact cf gs q) k = Some m \<or> (map_of (ranked_exact cf gs q) k = None
        \<and> (\<exists>n. gs_node gs k = Inr n \<and> weaker_match cf n (cf q) = Some m))"
      using g that by blast
    then show ?thesis
      using exact none by (auto simp: match_of_def)
  qed
  have 2: "map_of rk k = Some m" if "gs_node gs k = Inr n" "exact_of cf n q = Some m" for n
    using g that by (simp add: ranked_exact_get [OF assms(1)])
  have 3: "map_of rk k = Some m" if "int sn < ceiling" "gs_node gs k = Inr n"
    "selection = [] \<or> n_kind n \<in> set selection" "match_of cf n q = Some m" for n
  proof (cases "exact_of cf n q")
    case None
    have "k \<in> set (si_scan (build_symbol_index cf gs))"
      unfolding index_scan pinned_ids [OF assms(1)] using that(2) by simp
    moreover have "map_of (ranked_exact cf gs q) k = None"
      using that(2) None by (simp add: ranked_exact_get [OF assms(1)])
    ultimately have "map_of rk k = weaker_match cf n (cf q)"
      using g that(1-3) by auto
    with that(4) None show ?thesis by (simp add: match_of_def)
  next
    case (Some m')
    with that(4) have "exact_of cf n q = Some m" by (simp add: match_of_def)
    with 2 that(2) show ?thesis by blast
  qed
  have 4: "int sn \<le> ceiling" using g assms(3) by simp
  have 5: "distinct (dict_keys rk)"
    by (rule scan_nodes_distinct [OF scan ranked_exact_get(2) [OF assms(1)]])
  show ?thesis
    unfolding srk fst_conv snd_conv using 1 2 3 4 5 by blast
qed

section \<open>What a search answers\<close>

lemma search_limits:
  assumes "bounded_int max_nodes 1 MAX_NODES (Some DEFAULT_MAX_NODES) = Inr ceiling"
    "bounded_int limit 1 MAX_NODES (Some ceiling) = Inr requested"
  shows "1 \<le> ceiling \<and> ceiling \<le> MAX_NODES \<and> 1 \<le> requested"
  using assms by (auto simp: bounded_int_Inr MAX_NODES_def DEFAULT_MAX_NODES_def)

lemma sorted_take: "sorted xs \<Longrightarrow> sorted (take n xs)"
  by (metis append_take_drop_id sorted_append)

lemma candidate_of_inject: "candidate_of n m = candidate_of n' m' \<Longrightarrow> n_id n = n_id n' \<and> m = m'"
  by (simp add: candidate_of_def)

text \<open>
  A search answer is bounded and sound: never more candidates than \<open>limit\<close>, never more nodes
  scanned than \<open>max_nodes\<close>, both within the contract's 500; candidates are in rank order, once each, of
  the requested kinds, and each is a pinned node together with the best rank at which it matches.
\<close>

theorem search_sound:
  assumes "search_symbols cf sc query projects kinds limit max_nodes = Inr r"
    "narrowed sc projects = Inr gs" "gs_inv gs"
  shows "int (length (s_candidates r)) \<le> s_limit r \<and> s_limit r \<le> s_max_nodes r \<and> s_max_nodes r \<le> 500
    \<and> int (s_scanned r) \<le> s_max_nodes r
    \<and> sorted (map candidate_key (s_candidates r)) \<and> distinct (map sc_node (s_candidates r))
    \<and> (\<forall>c \<in> set (s_candidates r). \<exists>n m. gs_node gs (n_id n) = Inr n \<and> c = candidate_of n m
          \<and> match_of cf n (s_query r) = Some m
          \<and> (selected_kinds kinds = [] \<or> n_kind n \<in> set (selected_kinds kinds)))"
proof -
  obtain q ceiling requested sr cs where s:
    "bounded_int max_nodes 1 MAX_NODES (Some DEFAULT_MAX_NODES) = Inr ceiling"
    "bounded_int limit 1 MAX_NODES (Some ceiling) = Inr requested"
    "(if int (length (ranked_exact cf gs (strip q))) < min requested ceiling
        then scan_nodes cf gs (selected_kinds kinds) ceiling (cf (strip q)) (si_scan (build_symbol_index cf gs)) 0
          (ranked_exact cf gs (strip q))
        else Inr (0, ranked_exact cf gs (strip q))) = Inr sr"
    "gather gs (selected_kinds kinds) (snd sr) = Inr cs" "s_query r = strip q"
    "s_candidates r = take (nat (min requested ceiling)) (sort_key candidate_key cs)"
    "s_scanned r = fst sr" "s_limit r = min requested ceiling" "s_max_nodes r = ceiling"
    by (insert search_ok [OF assms(1,2)], elim exE conjE) (rule that, assumption+)
  note lim = search_limits [OF s(1,2)]
  have rk: "distinct (dict_keys (snd sr))" "int (fst sr) \<le> ceiling"
    and snd: "map_of (snd sr) k = Some m \<longrightarrow> (\<exists>n. gs_node gs k = Inr n \<and> match_of cf n (strip q) = Some m)" for k m
    using search_ranked [OF assms(3) s(3), of k m] lim by auto
  note g = gather_set [OF s(4) rk(1)]
  have "sorted (map candidate_key (s_candidates r))"
    unfolding s(6) take_map [symmetric] by (intro sorted_take sorted_sort_key)
  moreover have "distinct (map sc_node (s_candidates r))"
  proof -
    have "distinct (map sc_node (sort_key candidate_key cs))"
      using mp [OF conjunct2 [OF g] assms(3)] by (simp add: distinct_map)
    then show ?thesis by (simp add: s(6) take_map [symmetric] distinct_take)
  qed
  moreover have "\<exists>n m. gs_node gs (n_id n) = Inr n \<and> c = candidate_of n m \<and> match_of cf n (s_query r) = Some m
      \<and> (selected_kinds kinds = [] \<or> n_kind n \<in> set (selected_kinds kinds))" if "c \<in> set (s_candidates r)" for c
  proof -
    have "c \<in> set cs" using in_set_takeD [OF that [unfolded s(6)]] by simp
    then obtain n m k where c: "c = candidate_of n m" "gs_node gs k = Inr n" "map_of (snd sr) k = Some m"
      "selected_kinds kinds = [] \<or> n_kind n \<in> set (selected_kinds kinds)"
      using g by blast
    then have "match_of cf n (strip q) = Some m" using snd [of k m] by auto
    moreover have "n_id n = k" using gs_inv_node [OF assms(3) c(2)] .
    ultimately show ?thesis using c s(5) by auto
  qed
  ultimately show ?thesis
    using lim rk(2) s by (auto simp: MAX_NODES_def)
qed

definition ex_search :: "string \<Rightarrow> pyval \<Rightarrow> search_result result" where
  "ex_search q limit = search_symbols (\<lambda>s. s) (ScopeSet ex_set) (PStr q) None None limit PNone"

lemma ex_strip: "strip '' m. '' = ''m.''" "strip ''m'' = ''m''" "strip ''bb'' = ''bb''"
  by code_simp+

lemma ex_scan_order: "in_scan_order (scan_keys (nodes_sorted ex_set)) (map ex_id ''abc'') = map ex_id ''abc''"
  by code_simp

lemma in_scan_order_single: "in_scan_order order [x] = [x]"
  by (simp add: in_scan_order_def)

lemma ex_index:
  "build_symbol_index (\<lambda>s. s) ex_set =
    \<lparr>si_projects = [''app''], si_count = 3, si_by_id = map (\<lambda>c. (ex_id c, ex_id c)) ''abc'',
     si_by_qualified = map (\<lambda>c. ([CHR ''m'', CHR ''.'', c, c], [ex_id c])) ''abc'',
     si_by_name = map (\<lambda>c. ([c, c], [ex_id c])) ''abc'',
     si_by_folded_qualified = map (\<lambda>c. ([CHR ''m'', CHR ''.'', c, c], [ex_id c])) ''abc'',
     si_by_folded_name = map (\<lambda>c. ([c, c], [ex_id c])) ''abc'',
     si_scan = map ex_id ''abc''\<rparr>"
  using ex_scan_order
  by (simp add: build_symbol_index_def Let_def ex_nodes_sorted index_nodes_def ex_node_sel ex_id_eq
      dict_append_def in_scan_order_single ex_project_ids)

lemma ex_ranked:
  "ranked_exact (\<lambda>s. s) ex_set ''bb'' = [(ex_id CHR ''b'', ExactName)]"
  "ranked_exact (\<lambda>s. s) ex_set ''m.'' = []"
  "ranked_exact (\<lambda>s. s) ex_set ''m'' = []"
  by (simp_all add: ranked_exact_def exact_lookup_fill exact_hits_def ex_index ex_id_short ex_id_eq
      dict_items_def dict_fill_def dict_setdefault_def)

lemma ex_weaker:
  "c \<in> set ''abc'' \<Longrightarrow> q \<in> {''m.'', ''m''} \<Longrightarrow> weaker_match (\<lambda>s. s) (ex_node c) q = Some PrefixMatch"
  "c \<in> set ''ac'' \<Longrightarrow> weaker_match (\<lambda>s. s) (ex_node c) ''bb'' = None"
  by (auto simp: weaker_match_def ex_node_sel starts_with_def)

lemmas ex_scan_simps = ex_gs_node ex_node_sel bind_result_def dict_setdefault_def ex_id_eq DEFAULT_MAX_NODES_def

lemma ex_scan:
  assumes "q \<in> {''m.'', ''m''}"
  shows "scan_nodes (\<lambda>s. s) ex_set [] DEFAULT_MAX_NODES q (map ex_id ''abc'') 0 []
     = Inr (3, map (\<lambda>c. (ex_id c, PrefixMatch)) ''abc'')"
  using ex_weaker(1) [OF _ assms] by (simp add: ex_scan_simps)

lemma ex_scan_bb:
  "scan_nodes (\<lambda>s. s) ex_set [] DEFAULT_MAX_NODES ''bb'' (map ex_id ''abc'') 0 [(ex_id CHR ''b'', ExactName)]
     = Inr (3, [(ex_id CHR ''b'', ExactName)])"
  by (simp add: ex_scan_simps ex_weaker split: option.split)

lemma ex_gather:
  "gather ex_set [] (map (\<lambda>c. (ex_id c, m)) ''abc'') = Inr (map (\<lambda>c. candidate_of (ex_node c) m) ''abc'')"
  "gather ex_set [] [(ex_id CHR ''b'', m)] = Inr [candidate_of (ex_node CHR ''b'') m]"
  by (simp_all add: gather_def ex_gs_node bind_result_def)

lemma ex_search_m:
  assumes "strip q = p" "p \<in> {''m.'', ''m''}" "bounded_int limit 1 MAX_NODES (Some DEFAULT_MAX_NODES) = Inr n"
    "0 < n" "n \<le> DEFAULT_MAX_NODES"
  shows "\<exists>r. ex_search q limit = Inr r \<and> length (s_candidates r) = min (nat n) 3 \<and> s_scanned r = 3
    \<and> s_max_nodes r = DEFAULT_MAX_NODES \<and> s_truncated r = (3 > n)"
proof -
  have ranked: "ranked_exact (\<lambda>s. s) ex_set p = []" and "p \<noteq> []"
    using assms(2) ex_ranked by auto
  have run: "(if int (length (ranked_exact (\<lambda>s. s) ex_set (strip q))) < n
        then scan_nodes (\<lambda>s. s) ex_set [] DEFAULT_MAX_NODES (strip q) (si_scan (build_symbol_index (\<lambda>s. s) ex_set)) 0
          (ranked_exact (\<lambda>s. s) ex_set (strip q))
        else Inr (0, ranked_exact (\<lambda>s. s) ex_set (strip q))) = Inr (3, map (\<lambda>c. (ex_id c, PrefixMatch)) ''abc'')"
    using ex_scan [OF assms(2)] assms(4) by (simp add: assms(1) ranked ex_index)
  have "strip q \<noteq> []" using \<open>p \<noteq> []\<close> assms(1) by simp
  moreover have "gather ex_set [] (snd (3 :: nat, map (\<lambda>c. (ex_id c, PrefixMatch)) ''abc''))
      = Inr (map (\<lambda>c. candidate_of (ex_node c) PrefixMatch) ''abc'')"
    unfolding snd_conv by (rule ex_gather(1))
  ultimately obtain r where "ex_search q limit = Inr r"
    "s_candidates r = take (nat n) (sort_key candidate_key (map (\<lambda>c. candidate_of (ex_node c) PrefixMatch) ''abc''))"
    "s_scanned r = fst (3 :: nat, map (\<lambda>c. (ex_id c, PrefixMatch)) ''abc'')" "s_max_nodes r = DEFAULT_MAX_NODES"
    "s_truncated r = (int (length (map (\<lambda>c. candidate_of (ex_node c) PrefixMatch) ''abc'')) > n)"
    unfolding ex_search_def using search_symbols_run [OF _ assms(3,5) run] by blast
  then show ?thesis by (intro exI [of _ r]) (auto simp: min_def)
qed

lemma ex_scope: "narrowed (ScopeSet ex_set) None = Inr ex_set"
  by (simp add: narrowed_def narrow_scope_def)

theorem search_sound_witness:
  "\<exists>r. ex_search '' m. '' (PInt 2) = Inr r \<and> length (s_candidates r) = 2 \<and> sorted (map candidate_key (s_candidates r))"
proof -
  have "bounded_int (PInt 2) 1 MAX_NODES (Some DEFAULT_MAX_NODES) = Inr 2"
    by (simp add: bounded_int_def MAX_NODES_def)
  from ex_search_m [OF ex_strip(1) _ this]
  obtain r where r: "ex_search '' m. '' (PInt 2) = Inr r" "length (s_candidates r) = 2"
    by (auto simp: DEFAULT_MAX_NODES_def)
  from search_sound [OF r(1) [unfolded ex_search_def] ex_scope ex_set_inv] r show ?thesis by blast
qed

text \<open>
  An exact hit is never lost to the scan bound: unless the answer says it is truncated, every
  pinned node of a requested kind whose id, name or qualified name is the query (up to case) is a
  candidate, at its best rank.
\<close>

theorem search_finds_exact:
  assumes "search_symbols cf sc query projects kinds limit max_nodes = Inr r"
    "narrowed sc projects = Inr gs" "gs_inv gs" "\<not> s_truncated r"
    "gs_node gs k = Inr n" "exact_of cf n (s_query r) = Some m"
    "selected_kinds kinds = [] \<or> n_kind n \<in> set (selected_kinds kinds)"
  shows "candidate_of n m \<in> set (s_candidates r)"
proof -
  obtain q ceiling requested sr cs where s:
    "bounded_int max_nodes 1 MAX_NODES (Some DEFAULT_MAX_NODES) = Inr ceiling"
    "bounded_int limit 1 MAX_NODES (Some ceiling) = Inr requested"
    "(if int (length (ranked_exact cf gs (strip q))) < min requested ceiling
        then scan_nodes cf gs (selected_kinds kinds) ceiling (cf (strip q)) (si_scan (build_symbol_index cf gs)) 0
          (ranked_exact cf gs (strip q))
        else Inr (0, ranked_exact cf gs (strip q))) = Inr sr"
    "gather gs (selected_kinds kinds) (snd sr) = Inr cs" "s_query r = strip q"
    "s_candidates r = take (nat (min requested ceiling)) (sort_key candidate_key cs)"
    "s_truncated r = (int (length cs) > min requested ceiling)"
    by (insert search_ok [OF assms(1,2)], elim exE conjE) (rule that, assumption+)
  have rk: "distinct (dict_keys (snd sr))" and hit: "map_of (snd sr) k = Some m"
    using search_ranked [OF assms(3) s(3), of k m] search_limits [OF s(1,2)] assms(5,6) s(5) by auto
  have "candidate_of n m \<in> set cs"
    using gather_set [OF s(4) rk] assms(5,7) hit by blast
  then show ?thesis using s(6,7) assms(4) by simp
qed

theorem search_finds_exact_witness:
  "\<exists>r n. ex_search ''bb'' PNone = Inr r \<and> candidate_of n ExactName \<in> set (s_candidates r)"
proof -
  have run: "(if int (length (ranked_exact (\<lambda>s. s) ex_set (strip ''bb''))) < DEFAULT_MAX_NODES
        then scan_nodes (\<lambda>s. s) ex_set [] DEFAULT_MAX_NODES (strip ''bb'')
          (si_scan (build_symbol_index (\<lambda>s. s) ex_set)) 0 (ranked_exact (\<lambda>s. s) ex_set (strip ''bb''))
        else Inr (0, ranked_exact (\<lambda>s. s) ex_set (strip ''bb''))) = Inr (3, [(ex_id CHR ''b'', ExactName)])"
    using ex_scan_bb by (simp add: ex_strip ex_ranked ex_index DEFAULT_MAX_NODES_def)
  have "\<exists>r. ex_search ''bb'' PNone = Inr r \<and> s_query r = ''bb'' \<and> \<not> s_truncated r"
    using search_symbols_run [OF _ _ _ run, of PNone "[candidate_of (ex_node CHR ''b'') ExactName]"]
    by (auto simp: ex_search_def ex_gather ex_strip bounded_int_def DEFAULT_MAX_NODES_def)
  then obtain r where s: "ex_search ''bb'' PNone = Inr r" "s_query r = ''bb''" "\<not> s_truncated r" by blast
  then obtain n where r: "ex_search ''bb'' PNone = Inr r" "\<not> s_truncated r"
    "gs_node ex_set (ex_id CHR ''b'') = Inr n" "exact_of (\<lambda>s. s) n (s_query r) = Some ExactName"
    by (auto simp: ex_gs_node exact_of_def ex_node_sel ex_id_short)
  from search_finds_exact [OF r(1) [unfolded ex_search_def] ex_scope ex_set_inv r(2-4)] r(1) show ?thesis
    by (auto simp: selected_kinds_def)
qed

text \<open>
  A scan that ran and stopped short of its bound saw everything: unless truncated, the candidates
  are then exactly the pinned nodes of the requested kinds that match the query at all, exactly, by
  prefix or by substring, each at its best rank.
\<close>

theorem search_scan_complete:
  assumes "search_symbols cf sc query projects kinds limit max_nodes = Inr r"
    "narrowed sc projects = Inr gs" "gs_inv gs" "\<not> s_truncated r"
    "0 < s_scanned r" "int (s_scanned r) < s_max_nodes r"
  shows "set (s_candidates r) = {candidate_of n m | n m. gs_node gs (n_id n) = Inr n
    \<and> match_of cf n (s_query r) = Some m
    \<and> (selected_kinds kinds = [] \<or> n_kind n \<in> set (selected_kinds kinds))}"
proof -
  obtain q ceiling requested sr cs where s:
    "bounded_int max_nodes 1 MAX_NODES (Some DEFAULT_MAX_NODES) = Inr ceiling"
    "bounded_int limit 1 MAX_NODES (Some ceiling) = Inr requested"
    "(if int (length (ranked_exact cf gs (strip q))) < min requested ceiling
        then scan_nodes cf gs (selected_kinds kinds) ceiling (cf (strip q)) (si_scan (build_symbol_index cf gs)) 0
          (ranked_exact cf gs (strip q))
        else Inr (0, ranked_exact cf gs (strip q))) = Inr sr"
    "gather gs (selected_kinds kinds) (snd sr) = Inr cs" "s_query r = strip q"
    "s_candidates r = take (nat (min requested ceiling)) (sort_key candidate_key cs)"
    "s_scanned r = fst sr" "s_max_nodes r = ceiling"
    "s_truncated r = (int (length cs) > min requested ceiling)"
    by (insert search_ok [OF assms(1,2)], elim exE conjE) (rule that, assumption+)
  have ceil: "0 \<le> ceiling" using search_limits [OF s(1,2)] by simp
  note sr = search_ranked [OF assms(3) s(3) ceil]
  have rk: "distinct (dict_keys (snd sr))" using sr by blast
  have "set (s_candidates r) = set cs" using s(6,9) assms(4) by simp
  also have "\<dots> = {candidate_of n m | n m k. gs_node gs k = Inr n \<and> map_of (snd sr) k = Some m
      \<and> (selected_kinds kinds = [] \<or> n_kind n \<in> set (selected_kinds kinds))}"
    by (rule conjunct1 [OF gather_set [OF s(4) rk]])
  also have "\<dots> = {candidate_of n m | n m k. gs_node gs k = Inr n \<and> match_of cf n (s_query r) = Some m
      \<and> (selected_kinds kinds = [] \<or> n_kind n \<in> set (selected_kinds kinds))}"
  proof -
    have "map_of (snd sr) k = Some m \<longleftrightarrow> match_of cf n (s_query r) = Some m"
      if "gs_node gs k = Inr n" "selected_kinds kinds = [] \<or> n_kind n \<in> set (selected_kinds kinds)" for n m k
      using sr [of k m] that assms(5,6) s(5,7,8) by auto
    then show ?thesis by (intro Collect_cong) blast
  qed
  also have "\<dots> = {candidate_of n m | n m. gs_node gs (n_id n) = Inr n \<and> match_of cf n (s_query r) = Some m
    \<and> (selected_kinds kinds = [] \<or> n_kind n \<in> set (selected_kinds kinds))}"
    using gs_inv_node [OF assms(3)] by blast
  finally show ?thesis .
qed

theorem search_scan_complete_witness:
  "\<exists>r. ex_search ''m'' PNone = Inr r \<and> length (s_candidates r) = 3
     \<and> set (s_candidates r) = {candidate_of n m | n m. gs_node ex_set (n_id n) = Inr n
         \<and> match_of (\<lambda>s. s) n (s_query r) = Some m \<and> (selected_kinds None = [] \<or> n_kind n \<in> set (selected_kinds None))}"
proof -
  have "bounded_int PNone 1 MAX_NODES (Some DEFAULT_MAX_NODES) = Inr DEFAULT_MAX_NODES"
    by (simp add: bounded_int_def)
  from ex_search_m [OF ex_strip(2) _ this]
  obtain r where r: "ex_search ''m'' PNone = Inr r" "\<not> s_truncated r" "0 < s_scanned r"
    "int (s_scanned r) < s_max_nodes r" "length (s_candidates r) = 3"
    by (auto simp: DEFAULT_MAX_NODES_def)
  show ?thesis
    by (rule exI, rule conjI, rule r(1), rule conjI, rule r(5))
      (rule search_scan_complete [OF r(1) [unfolded ex_search_def] ex_scope ex_set_inv r(2-4)])
qed

end
