(* ===== verification/Changes.thy ===== *)
theory Changes
  imports Neighbors
begin

text \<open>
  Comparison of two pinned generations (\<open>query/changes.py\<close>): the refusals (no baseline, different
  members, unknown or different schema major) and the per-project diff of nodes and edges.
\<close>

section \<open>One diff\<close>

definition fact_of :: "pyval \<Rightarrow> pyval" where
  "fact_of d = PDict (filter (\<lambda>p. fst p \<notin> {''id'', ''project_id''}) (mapping_items d))"

record change_set =
  ch_added :: "pyval list"
  ch_removed :: "pyval list"
  ch_modified :: "(string \<times> pyval \<times> pyval) list"

definition by_key :: "('a \<Rightarrow> string) \<Rightarrow> 'a list \<Rightarrow> (string, 'a) dict" where
  "by_key key xs = fold (\<lambda>x d. dict_set (key x) x d) xs []"

definition diff_kind :: "('a \<Rightarrow> string) \<Rightarrow> ('a \<Rightarrow> pyval) \<Rightarrow> 'a list \<Rightarrow> 'a list \<Rightarrow> change_set" where
  "diff_kind key doc head_items baseline_items =
     (let head = by_key key head_items; baseline = by_key key baseline_items;
          fact = \<lambda>d k. fact_of (doc (the (map_of d k)))
      in \<lparr>ch_added = map (\<lambda>k. doc (the (map_of head k)))
            (sort (filter (\<lambda>k. \<not> dict_has baseline k) (dict_keys head))),
          ch_removed = map (\<lambda>k. doc (the (map_of baseline k)))
            (sort (filter (\<lambda>k. \<not> dict_has head k) (dict_keys baseline))),
          ch_modified = map (\<lambda>k. (k, fact baseline k, fact head k))
            (filter (\<lambda>k. \<not> py_eq (fact baseline k) (fact head k))
              (sort (filter (dict_has baseline) (dict_keys head))))\<rparr>)"

definition modified_document :: "string \<times> pyval \<times> pyval \<Rightarrow> pyval" where
  "modified_document m = PDict [(''id'', PStr (fst m)), (''before'', fst (snd m)), (''after'', snd (snd m))]"

definition change_set_document :: "change_set \<Rightarrow> pyval" where
  "change_set_document c = PDict [(''added'', PList (ch_added c)), (''removed'', PList (ch_removed c)),
     (''modified'', PList (map modified_document (ch_modified c)))]"

section \<open>The comparison\<close>

record change_result =
  chr_status :: string
  chr_comparable :: bool
  chr_head :: "(string \<times> string) list"
  chr_baseline :: "(string \<times> string) list"
  chr_schema :: "int option \<times> int option"
  chr_projects :: "(string, change_set \<times> change_set) dict"
  chr_totals :: "(string, nat) dict"
  chr_warnings :: "warning list"

definition schema_value :: "int option \<Rightarrow> pyval" where
  "schema_value m = (case m of None \<Rightarrow> PNone | Some i \<Rightarrow> PInt i)"

definition pairs_document :: "(string \<times> string) list \<Rightarrow> pyval" where
  "pairs_document ps = PList (map (\<lambda>p. PList [PStr (fst p), PStr (snd p)]) ps)"

definition change_as_document :: "(warning \<Rightarrow> string) \<Rightarrow> change_result \<Rightarrow> pyval" where
  "change_as_document say r = PDict
     [(''status'', PStr (chr_status r)), (''operation'', PStr ''changes''),
      (''comparable'', PBool (chr_comparable r)), (''head_generations'', pairs_document (chr_head r)),
      (''baseline_generations'', pairs_document (chr_baseline r)),
      (''schema'', PDict [(''head'', schema_value (fst (chr_schema r))),
                          (''baseline'', schema_value (snd (chr_schema r)))]),
      (''projects'', PDict (map (\<lambda>p. (fst p, PDict [(''nodes'', change_set_document (fst (snd p))),
                                              (''edges'', change_set_document (snd (snd p)))])) (chr_projects r))),
      (''totals'', counts_document (chr_totals r)), (''warnings'', strings (map say (chr_warnings r)))]"

text \<open>The one schema major every pinned member shares, or none.\<close>

definition schema_of :: "graph_set \<Rightarrow> int option" where
  "schema_of gs = (case remdups (map g_schema_major (gs_graphs gs)) of [m] \<Rightarrow> m | _ \<Rightarrow> None)"

definition head_subset :: "graph_set \<Rightarrow> string list option \<Rightarrow> graph_set result" where
  "head_subset gs projects =
     (case projects of
        None \<Rightarrow> Inr gs
      | Some pids \<Rightarrow>
          bind_result (map_result (\<lambda>p. identifier_text (PStr p) QueryModelError) pids) (\<lambda>chosen.
          bind_result
            (fold_result (\<lambda>acc p. bind_result (gs_graph gs p) (set_add_graph acc)) empty_graph_set chosen)
            (\<lambda>acc. set_missing acc [])))"

definition refused ::
  "string \<Rightarrow> graph_set \<Rightarrow> graph_set option \<Rightarrow> warning \<Rightarrow> change_result" where
  "refused status head baseline warning =
     \<lparr>chr_status = status, chr_comparable = False, chr_head = generations head,
      chr_baseline = (case baseline of None \<Rightarrow> [] | Some b \<Rightarrow> generations b),
      chr_schema = (schema_of head, (case baseline of None \<Rightarrow> None | Some b \<Rightarrow> schema_of b)),
      chr_projects = [], chr_totals = [], chr_warnings = [warning]\<rparr>"

definition diff_project ::
  "graph_set \<Rightarrow> graph_set \<Rightarrow> string \<Rightarrow> (string \<times> change_set \<times> change_set) result" where
  "diff_project head baseline project =
     bind_result (gs_graph head project) (\<lambda>h.
     bind_result (gs_graph baseline project) (\<lambda>b.
       Inr (project, diff_kind n_id node_as_document (g_nodes h) (g_nodes b),
            diff_kind e_id edge_as_document (g_edges h) (g_edges b))))"

definition total_of :: "('a \<Rightarrow> nat) \<Rightarrow> 'a list \<Rightarrow> nat" where
  "total_of f xs = foldl (\<lambda>n x. n + f x) 0 xs"

definition change_totals :: "(string, change_set \<times> change_set) dict \<Rightarrow> (string, nat) dict" where
  "change_totals ps =
     [(''added_nodes'', total_of (\<lambda>p. length (ch_added (fst (snd p)))) ps),
      (''removed_nodes'', total_of (\<lambda>p. length (ch_removed (fst (snd p)))) ps),
      (''modified_nodes'', total_of (\<lambda>p. length (ch_modified (fst (snd p)))) ps),
      (''added_edges'', total_of (\<lambda>p. length (ch_added (snd (snd p)))) ps),
      (''removed_edges'', total_of (\<lambda>p. length (ch_removed (snd (snd p)))) ps),
      (''modified_edges'', total_of (\<lambda>p. length (ch_modified (snd (snd p)))) ps)]"

definition changes :: "scope \<Rightarrow> scope option \<Rightarrow> string list option \<Rightarrow> change_result result" where
  "changes head baseline projects =
     bind_result (as_graph_set head) (\<lambda>h0.
     bind_result (head_subset h0 projects) (\<lambda>h.
       (case baseline of
          None \<Rightarrow> Inr (refused ''missing_baseline'' h None (Warning ''missing_baseline'' [] []))
        | Some bsc \<Rightarrow>
            bind_result (as_graph_set bsc) (\<lambda>b.
              if project_ids h \<noteq> project_ids b then
                Inr (refused ''incompatible_scope'' h (Some b)
                      (Warning ''incompatible_scope'' (project_ids h @ project_ids b) []))
              else
                (case (schema_of h, schema_of b) of
                   (Some x, Some y) \<Rightarrow>
                     if x \<noteq> y then Inr (refused ''incompatible_schema'' h (Some b)
                                        (Warning ''incompatible_schema'' [] [x, y]))
                     else bind_result (map_result (diff_project h b) (project_ids h)) (\<lambda>ps.
                       Inr \<lparr>chr_status = ''ok'', chr_comparable = True, chr_head = generations h,
                            chr_baseline = generations b, chr_schema = (Some x, Some y),
                            chr_projects = ps, chr_totals = change_totals ps, chr_warnings = []\<rparr>)
                 | _ \<Rightarrow> Inr (refused ''unknown_schema'' h (Some b) (Warning ''unknown_schema'' [] [])))))))"

section \<open>What a diff says\<close>

lemma by_key_get: "map_of (by_key key xs) k = (if k \<in> key ` set xs then Some (last (filter (\<lambda>x. key x = k) xs)) else None)"
proof -
  have "map_of (fold (\<lambda>x d. dict_set (key x) x d) xs d) k
      = (if k \<in> key ` set xs then Some (last (filter (\<lambda>x. key x = k) xs)) else map_of d k)" for d
    by (induction xs arbitrary: d) (auto simp: update_conv' filter_empty_conv)
  then show ?thesis by (simp add: by_key_def)
qed

lemma by_key_distinct: "distinct (dict_keys (by_key key xs))"
proof -
  have "distinct (dict_keys d) \<Longrightarrow> distinct (dict_keys (fold (\<lambda>x d. dict_set (key x) x d) xs d))" for d
    by (induction xs arbitrary: d) (simp_all add: distinct_update)
  then show ?thesis by (simp add: by_key_def)
qed

lemma by_key_keys: "fst ` set (by_key key xs) = key ` set xs"
proof -
  have "k \<in> fst ` set (by_key key xs) \<longleftrightarrow> k \<in> key ` set xs" for k
    using map_of_eq_None_iff [of "by_key key xs" k] by (simp add: by_key_get split: if_splits)
  then show ?thesis by blast
qed

lemma by_key_item:
  assumes "distinct (map key xs)" "x \<in> set xs"
  shows "map_of (by_key key xs) (key x) = Some x"
proof -
  have "filter (\<lambda>y. key y = key x) xs = [x]"
    using assms by (induction xs) (auto simp: filter_empty_conv image_iff)
  with assms(2) show ?thesis by (simp add: by_key_get)
qed

text \<open>The exact difference of two lists of identified facts.\<close>

definition exact_diff ::
  "('a \<Rightarrow> string) \<Rightarrow> ('a \<Rightarrow> pyval) \<Rightarrow> 'a list \<Rightarrow> 'a list \<Rightarrow> change_set \<Rightarrow> bool" where
  "exact_diff key doc head baseline c \<longleftrightarrow>
     set (ch_added c) = doc ` {x \<in> set head. key x \<notin> key ` set baseline}
     \<and> length (ch_added c) = card (key ` set head - key ` set baseline)
     \<and> set (ch_removed c) = doc ` {x \<in> set baseline. key x \<notin> key ` set head}
     \<and> length (ch_removed c) = card (key ` set baseline - key ` set head)
     \<and> set (ch_modified c) = {(key y, fact_of (doc x), fact_of (doc y)) | x y.
          x \<in> set baseline \<and> y \<in> set head \<and> key x = key y \<and> \<not> py_eq (fact_of (doc x)) (fact_of (doc y))}
     \<and> sorted (map fst (ch_modified c)) \<and> distinct (map fst (ch_modified c))"

lemma keyed_docs:
  assumes "distinct (map key xs)"
  shows "(\<lambda>k. doc (the (map_of (by_key key xs) k))) ` (key ` set xs - K) = doc ` {x \<in> set xs. key x \<notin> K}"
proof -
  have "the (map_of (by_key key xs) (key x)) = x" if "x \<in> set xs" for x
    using by_key_item [OF assms that] by simp
  then show ?thesis by (auto simp: image_iff) force
qed

lemma diff_kind_exact:
  assumes "distinct (map key head)" "distinct (map key baseline)"
  shows "exact_diff key doc head baseline (diff_kind key doc head baseline)"
proof -
  let ?h = "by_key key head" and ?b = "by_key key baseline"
  have added: "set (sort (filter (\<lambda>k. \<not> dict_has ?b k) (dict_keys ?h))) = key ` set head - key ` set baseline"
    and removed: "set (sort (filter (\<lambda>k. \<not> dict_has ?h k) (dict_keys ?b))) = key ` set baseline - key ` set head"
    and both: "set (sort (filter (dict_has ?b) (dict_keys ?h))) = key ` set head \<inter> key ` set baseline"
    using by_key_keys [of key head] by_key_keys [of key baseline] by (auto simp: dict_has_iff)
  have len: "length ks = card (set ks)" if "distinct ks" for ks :: "string list"
    using that by (simp add: distinct_card)
  have ha: "the (map_of ?h (key x)) = x" if "x \<in> set head" for x
    using by_key_item [OF assms(1) that] by simp
  have hb: "the (map_of ?b (key x)) = x" if "x \<in> set baseline" for x
    using by_key_item [OF assms(2) that] by simp
  let ?f = "\<lambda>k. (k, fact_of (doc (the (map_of ?b k))), fact_of (doc (the (map_of ?h k))))"
  have "?f ` {k \<in> key ` set head \<inter> key ` set baseline.
          \<not> py_eq (fact_of (doc (the (map_of ?b k)))) (fact_of (doc (the (map_of ?h k))))}
      = {(key y, fact_of (doc x), fact_of (doc y)) | x y. x \<in> set baseline \<and> y \<in> set head \<and> key x = key y
          \<and> \<not> py_eq (fact_of (doc x)) (fact_of (doc y))}" (is "?f ` ?K = ?M")
  proof
    show "?f ` ?K \<subseteq> ?M"
    proof
      fix m assume "m \<in> ?f ` ?K"
      then obtain x y where "x \<in> set baseline" "y \<in> set head" "key x = key y" "m = ?f (key y)"
        "\<not> py_eq (fact_of (doc (the (map_of ?b (key y))))) (fact_of (doc (the (map_of ?h (key y)))))"
        by auto
      with ha [of y] hb [of x] show "m \<in> ?M" by auto
    qed
    show "?M \<subseteq> ?f ` ?K"
    proof
      fix m assume "m \<in> ?M"
      then obtain x y where m: "x \<in> set baseline" "y \<in> set head" "key x = key y"
        "m = (key y, fact_of (doc x), fact_of (doc y))" "\<not> py_eq (fact_of (doc x)) (fact_of (doc y))"
        by blast
      have "key y \<in> key ` set head \<inter> key ` set baseline"
        using m(1-3) by (metis IntI imageI)
      with m ha [of y] hb [of x] have "m = ?f (key y)" "key y \<in> ?K" by simp_all
      then show "m \<in> ?f ` ?K" by blast
    qed
  qed
  moreover have "set (ch_modified (diff_kind key doc head baseline)) = ?f ` ?K"
    unfolding diff_kind_def Let_def change_set.select_convs set_map set_filter both ..
  moreover have "set (ch_added (diff_kind key doc head baseline)) = doc ` {x \<in> set head. key x \<notin> key ` set baseline}"
    unfolding diff_kind_def Let_def change_set.select_convs set_map added by (rule keyed_docs [OF assms(1)])
  moreover have "set (ch_removed (diff_kind key doc head baseline)) = doc ` {x \<in> set baseline. key x \<notin> key ` set head}"
    unfolding diff_kind_def Let_def change_set.select_convs set_map removed by (rule keyed_docs [OF assms(2)])
  moreover have "length (ch_added (diff_kind key doc head baseline)) = card (key ` set head - key ` set baseline)"
    unfolding diff_kind_def Let_def change_set.select_convs length_map added [symmetric]
    by (rule len) (simp add: by_key_distinct)
  moreover have "length (ch_removed (diff_kind key doc head baseline)) = card (key ` set baseline - key ` set head)"
    unfolding diff_kind_def Let_def change_set.select_convs length_map removed [symmetric]
    by (rule len) (simp add: by_key_distinct)
  moreover have "sorted (map fst (ch_modified (diff_kind key doc head baseline)))"
    "distinct (map fst (ch_modified (diff_kind key doc head baseline)))"
    by (simp_all add: diff_kind_def Let_def comp_def by_key_distinct sorted_wrt_filter)
  ultimately show ?thesis unfolding exact_diff_def by simp
qed

section \<open>Graphs tell their facts apart\<close>

definition distinct_facts :: "graph_set \<Rightarrow> bool" where
  "distinct_facts gs = (\<forall>p \<in> set (gs_by_project gs).
     distinct (map n_id (g_nodes (snd p))) \<and> distinct (map e_id (g_edges (snd p))))"

lemma graph_add_nodes_distinct:
  "fold_result (graph_add_node project) by_id ns = Inr by_id' \<Longrightarrow>
     distinct (map n_id ns) \<and> n_id ` set ns \<inter> fst ` set by_id = {}
     \<and> fst ` set by_id' = n_id ` set ns \<union> fst ` set by_id"
proof (induction ns arbitrary: by_id)
  case (Cons n ns)
  then obtain d where "graph_add_node project by_id n = Inr d" "fold_result (graph_add_node project) d ns = Inr by_id'"
    by (auto simp: result_simps)
  moreover from this have "n_id n \<notin> fst ` set by_id" "d = dict_set (n_id n) n by_id"
    by (auto simp: graph_add_node_def [of project by_id n] dict_has_iff split: if_splits)
  ultimately show ?case
    using Cons.IH [of d] by (auto simp: dict_set_keys)
qed simp

lemma graph_add_edges_distinct:
  "fold_result (graph_add_edge by_id) (seen, out, inc) es = Inr acc \<Longrightarrow>
     distinct (map e_id es) \<and> e_id ` set es \<inter> set seen = {}"
proof (induction es arbitrary: seen out inc)
  case (Cons e es)
  from Cons.prems obtain acc1 where a: "graph_add_edge by_id (seen, out, inc) e = Inr acc1"
    "fold_result (graph_add_edge by_id) acc1 es = Inr acc"
    by (auto simp: result_simps)
  then have "e_id e \<notin> set seen"
    "fold_result (graph_add_edge by_id) (e_id e # seen, dict_append (e_source e) e out, index_incoming e inc) es = Inr acc"
    by (auto simp: graph_add_edge_def [of by_id "(seen, out, inc)"] split: if_splits)
  with Cons.IH [of "e_id e # seen"] show ?case by auto
qed simp

lemma make_graph_distinct:
  assumes "make_graph project generation nodes edges coverage major = Inr g"
  shows "distinct (map n_id (g_nodes g)) \<and> distinct (map e_id (g_edges g))"
  using assms graph_add_nodes_distinct [of project "[]" nodes] graph_add_edges_distinct [of _ "[]" "[]" "[]" edges]
  by (auto simp: make_graph_def result_simps split: prod.splits)

section \<open>What a comparison answers\<close>

lemma map_result_fst:
  "map_result (diff_project h b) ps = Inr rs \<Longrightarrow> map fst rs = ps"
  by (induction ps arbitrary: rs) (auto simp: result_simps diff_project_def)

lemma total_of_sum: "total_of f xs = sum_list (map f xs)"
proof -
  have "foldl (\<lambda>n x. n + f x) a xs = a + sum_list (map f xs)" for a
    by (induction xs arbitrary: a) simp_all
  then show ?thesis by (simp add: total_of_def)
qed

text \<open>
  A computed diff is exact, project by project and for nodes and edges alike: \<open>added\<close> and
  \<open>removed\<close> are the facts whose id only one side has, and \<open>modified\<close> holds, once and in id order, the
  before and after of every id both sides have with a different fact, and nothing else.
\<close>

theorem changes_exact:
  assumes "changes (ScopeSet head) (Some (ScopeSet baseline)) None = Inr r" "chr_comparable r"
    "distinct_facts head" "distinct_facts baseline" "(p, nodes, edges) \<in> set (chr_projects r)"
  shows "\<exists>h b. gs_graph head p = Inr h \<and> gs_graph baseline p = Inr b
    \<and> exact_diff n_id node_as_document (g_nodes h) (g_nodes b) nodes
    \<and> exact_diff e_id edge_as_document (g_edges h) (g_edges b) edges"
proof -
  have "map_result (diff_project head baseline) (project_ids head) = Inr (chr_projects r)"
    using assms(1,2)
    by (auto simp: changes_def head_subset_def refused_def result_simps split: if_splits option.splits)
  from map_result_set [OF this assms(5)] obtain h b where
    g: "gs_graph head p = Inr h" "gs_graph baseline p = Inr b"
    "nodes = diff_kind n_id node_as_document (g_nodes h) (g_nodes b)"
    "edges = diff_kind e_id edge_as_document (g_edges h) (g_edges b)"
    by (auto simp: diff_project_def result_simps)
  have "(p, h) \<in> set (gs_by_project head)" "(p, b) \<in> set (gs_by_project baseline)"
    using g(1,2) by (auto simp: gs_graph_def dest: map_of_get_mem split: option.splits)
  then have "distinct (map n_id (g_nodes h))" "distinct (map n_id (g_nodes b))"
    "distinct (map e_id (g_edges h))" "distinct (map e_id (g_edges b))"
    using assms(3,4) by (auto simp: distinct_facts_def)
  then show ?thesis
    using g by (auto intro: diff_kind_exact)
qed

text \<open>
  A comparison is computed exactly when it is valid: both sides pin the same projects and declare
  one and the same known schema major. It then covers every project once, and its totals are the sums
  over the projects; otherwise it reports no diff and no total at all.
\<close>

theorem changes_comparable_iff:
  assumes "changes (ScopeSet head) (Some (ScopeSet baseline)) None = Inr r"
  shows "(chr_comparable r \<longleftrightarrow> project_ids head = project_ids baseline \<and> schema_of head = schema_of baseline
      \<and> schema_of head \<noteq> None)
    \<and> (chr_comparable r \<longrightarrow> dict_keys (chr_projects r) = project_ids head
        \<and> map_of (chr_totals r) ''modified_nodes''
            = Some (\<Sum>p \<leftarrow> chr_projects r. length (ch_modified (fst (snd p)))))
    \<and> (\<not> chr_comparable r \<longrightarrow> chr_projects r = [] \<and> chr_totals r = [])
    \<and> chr_head r = generations head \<and> chr_baseline r = generations baseline"
  using assms
  by (auto simp: changes_def head_subset_def refused_def result_simps change_totals_def total_of_sum
      dest: map_result_fst split: if_splits option.splits)

definition ex_graph2 :: "graph result" where
  "ex_graph2 = make_graph ''app'' (ex_id CHR ''8'')
     [(ex_node CHR ''a'')\<lparr>n_name := ''ab''\<rparr>, ex_node CHR ''b'', ex_node CHR ''d'']
     [ex_edge CHR ''1'' CHR ''b'' CHR ''a'' ''exact_static''] (Some [(''status'', PStr ''partial'')]) (Some 1)"

definition ex_set2 :: graph_set where
  "ex_set2 = set_of_graph ex_graph2"

lemma ex_sets_distinct: "distinct_facts ex_set" "distinct_facts ex_set2"
  by code_simp+

theorem changes_exact_witness:
  "\<exists>r (h :: graph) (b :: graph) nodes edges. changes (ScopeSet ex_set2) (Some (ScopeSet ex_set)) None = Inr r
     \<and> chr_projects r = [(''app'', nodes, edges)] \<and> length (ch_added nodes) = 1
     \<and> map fst (ch_modified nodes) = [ex_id CHR ''a''] \<and> length (ch_removed edges) = 1
     \<and> exact_diff n_id node_as_document (g_nodes h) (g_nodes b) nodes"
proof -
  have "returns (changes (ScopeSet ex_set2) (Some (ScopeSet ex_set)) None) (\<lambda>r. chr_comparable r
      \<and> (case chr_projects r of [(p, nodes, edges)] \<Rightarrow> p = ''app'' \<and> length (ch_added nodes) = 1
           \<and> map fst (ch_modified nodes) = [ex_id CHR ''a''] \<and> length (ch_removed edges) = 1 | _ \<Rightarrow> False))"
    by code_simp
  then obtain r where r0: "changes (ScopeSet ex_set2) (Some (ScopeSet ex_set)) None = Inr r" "chr_comparable r"
    "(case chr_projects r of [(p, nodes, edges)] \<Rightarrow> p = ''app'' \<and> length (ch_added nodes) = 1
       \<and> map fst (ch_modified nodes) = [ex_id CHR ''a''] \<and> length (ch_removed edges) = 1 | _ \<Rightarrow> False)"
    unfolding returns_iff by blast
  obtain c where c: "chr_projects r = [c]"
  proof (cases "chr_projects r")
    case (Cons c cs)
    with r0(3) that show thesis by (cases c; cases cs) auto
  qed (use r0(3) in simp)
  obtain p nodes edges where "c = (p, nodes, edges)" by (cases c)
  with r0 c have r: "changes (ScopeSet ex_set2) (Some (ScopeSet ex_set)) None = Inr r"
    "chr_comparable r" "chr_projects r = [(''app'', nodes, edges)]" "length (ch_added nodes) = 1"
    "map fst (ch_modified nodes) = [ex_id CHR ''a'']" "length (ch_removed edges) = 1"
    by simp_all
  have "(''app'', nodes, edges) \<in> set (chr_projects r)" using r(3) by simp
  from changes_exact [OF r(1,2) ex_sets_distinct(2,1) this] r show ?thesis by metis
qed

theorem changes_comparable_iff_witness:
  "\<exists>r. changes (ScopeSet ex_set2) (Some (ScopeSet ex_set)) None = Inr r \<and> chr_comparable r
     \<and> schema_of ex_set2 = Some 1 \<and> dict_keys (chr_projects r) = project_ids ex_set2"
proof -
  have "returns (changes (ScopeSet ex_set2) (Some (ScopeSet ex_set)) None) (\<lambda>r. chr_comparable r \<and> schema_of ex_set2 = Some 1)"
    by code_simp
  then obtain r where r: "changes (ScopeSet ex_set2) (Some (ScopeSet ex_set)) None = Inr r"
    "chr_comparable r" "schema_of ex_set2 = Some 1"
    unfolding returns_iff by blast
  from changes_comparable_iff [OF r(1)] r show ?thesis by blast
qed

end
