(* ===== verification/Budget.thy ===== *)
theory Budget
  imports Facts
begin

text \<open>
  \<open>query/budget.py\<close>: a response is packed inside a byte cap measured on the encoded JSON of the
  whole document. The document is a dictionary of JSON values; the collections named in
  \<open>TRIMMABLE\<close> lose items from their tails until the encoding fits. The binary search over prefixes
  is correct for any predicate that is closed under shorter prefixes (locale \<open>prefix_search\<close>), and
  the size of the JSON encoding is such a predicate.
\<close>

definition TRIMMABLE :: "string list" where
  "TRIMMABLE = [''nodes'', ''edges'', ''unresolved'', ''candidates'', ''warnings'']"

type_synonym document = "(string, pyval) dict"

record budget_result =
  b_document :: document
  b_byte_size :: int
  b_max_bytes :: int
  b_truncated :: bool
  b_dropped :: "(string, nat) dict"
  b_warnings :: "string list"

definition budget_as_document :: "budget_result \<Rightarrow> document" where
  "budget_as_document r = b_document r"

section \<open>Measuring\<close>

definition encoded_size :: "document \<Rightarrow> int" where
  "encoded_size d = int (length (dumps (PDict d)))"

definition fits :: "document \<Rightarrow> int \<Rightarrow> bool" where
  "fits d cap = (encoded_size d \<le> cap)"

section \<open>Trimming\<close>

text \<open>The loop \<open>while low < high\<close>, over the predicate it probes.\<close>

function longest_fit :: "(nat \<Rightarrow> bool) \<Rightarrow> nat \<Rightarrow> nat \<Rightarrow> nat" where
  "longest_fit ok low high =
     (if low < high then
        (let middle = (low + high + 1) div 2 in
         if ok middle then longest_fit ok middle high else longest_fit ok low (middle - 1))
      else low)"
  by pat_completeness auto
termination
  by (relation "measure (\<lambda>(ok, low, high). high - low)") auto

declare longest_fit.simps [simp del]

definition prefix_fits :: "document \<Rightarrow> string \<Rightarrow> pyval list \<Rightarrow> int \<Rightarrow> nat \<Rightarrow> bool" where
  "prefix_fits packed key items cap n = fits (dict_set key (PList (take n items)) packed) cap"

record trim_state =
  packed :: document
  dropped :: "(string, nat) dict"
  oversized :: "string list"

text \<open>One pass of \<open>for key in TRIMMABLE\<close>.\<close>

definition trim_key :: "int \<Rightarrow> string \<Rightarrow> trim_state \<Rightarrow> trim_state" where
  "trim_key cap key s =
     (case dict_get (packed s) key of
        Some (PList items) \<Rightarrow>
          if items = [] then s
          else
            (let low = longest_fit (prefix_fits (packed s) key items cap) 0 (length items) in
             if low < length items then
               s\<lparr>packed := dict_set key (PList (take low items)) (packed s),
                 dropped := dict_set key (length items - low) (dropped s),
                 oversized := oversized s @ (if low = 0 \<and> length items = 1 then [key] else [])\<rparr>
             else s)
      | _ \<Rightarrow> s)"

definition trim_all :: "int \<Rightarrow> document \<Rightarrow> trim_state" where
  "trim_all cap d =
     fold (trim_key cap) TRIMMABLE \<lparr>packed = d, dropped = [], oversized = []\<rparr>"

section \<open>The operation\<close>

text \<open>\<open>list(value or [])\<close>. A text lists its characters: one byte each when it is ASCII.\<close>

definition list_or_empty :: "pyval option \<Rightarrow> pyval list result" where
  "list_or_empty v =
     (case v of
        None \<Rightarrow> Inr []
      | Some w \<Rightarrow>
          if \<not> truthy w then Inr []
          else (case w of
              PList xs \<Rightarrow> Inr xs
            | PDict d \<Rightarrow> Inr (map PStr (dict_keys d))
            | PStr t \<Rightarrow>
                if list_all (\<lambda>c. (of_char c :: nat) < 128) t then Inr (map (\<lambda>c. PStr [c]) t)
                else Inl OutsideModel
            | _ \<Rightarrow> Inl PyTypeError))"

definition dropped_warning :: "(string, nat) dict \<Rightarrow> int \<Rightarrow> string" where
  "dropped_warning drops cap =
     ''max_bytes: '' @ nat_digits (sum_list (map snd drops)) @ '' item(s) dropped from ''
     @ join_with '', '' (sort (dict_keys drops)) @ '' to stay inside '' @ int_repr cap @ '' bytes''"

definition oversized_warning :: "string list \<Rightarrow> int \<Rightarrow> string" where
  "oversized_warning keys cap =
     ''oversized_item: a single item in '' @ join_with '', '' (sort keys) @ '' did not fit the ''
     @ int_repr cap @ ''-byte cap and was dropped rather than partially serialised''"

definition pack_warnings :: "trim_state \<Rightarrow> int \<Rightarrow> string list" where
  "pack_warnings s cap =
     (if dropped s \<noteq> [] then [dropped_warning (dropped s) cap] else [])
     @ (if oversized s \<noteq> [] then [oversized_warning (oversized s) cap] else [])"

text \<open>The document with its warnings, and without them where they do not fit either.\<close>

definition attach_warnings :: "document \<Rightarrow> string list \<Rightarrow> int \<Rightarrow> document result" where
  "attach_warnings d texts cap =
     (if texts = [] then Inr d
      else
        bind_result (list_or_empty (dict_get d ''warnings'')) (\<lambda>existing.
          let extended = dict_set ''warnings'' (PList (existing @ map PStr texts)) d in
          Inr (if fits extended cap then extended
               else dict_set ''warnings'' (PList existing) extended)))"

definition pack_trimmed :: "trim_state \<Rightarrow> int \<Rightarrow> budget_result result" where
  "pack_trimmed s cap =
     bind_result (guard_result (fits (packed s) cap) BudgetExceeded) (\<lambda>_.
     let marked = (if dropped s \<noteq> [] then dict_set ''truncated'' (PBool True) (packed s)
                   else packed s);
         texts = pack_warnings s cap
     in bind_result (attach_warnings marked texts cap) (\<lambda>final.
        Inr \<lparr>b_document = final, b_byte_size = encoded_size final, b_max_bytes = cap,
             b_truncated = (dropped s \<noteq> []), b_dropped = dropped s, b_warnings = texts\<rparr>))"

definition pack_response :: "pyval \<Rightarrow> pyval \<Rightarrow> budget_result result" where
  "pack_response document max_bytes =
     bind_result (mapping_value document BudgetInvalid) (\<lambda>d.
     bind_result (bounded_int max_bytes MIN_BYTES MAX_BYTES (Some DEFAULT_MAX_BYTES)) (\<lambda>cap.
     if fits d cap then
       Inr \<lparr>b_document = d, b_byte_size = encoded_size d, b_max_bytes = cap,
            b_truncated = False, b_dropped = [], b_warnings = []\<rparr>
     else pack_trimmed (trim_all cap d) cap))"

section \<open>Searching for the longest prefix\<close>

locale prefix_search =
  fixes ok :: "nat \<Rightarrow> bool"
  assumes shorter: "m \<le> n \<Longrightarrow> ok n \<Longrightarrow> ok m"
begin

lemma longest_fit_bounds: "low \<le> high \<Longrightarrow> low \<le> longest_fit ok low high \<and> longest_fit ok low high \<le> high"
proof (induction "high - low" arbitrary: low high rule: less_induct)
  case less
  show ?case
  proof (cases "low < high")
    case True
    let ?m = "(low + high + 1) div 2"
    have m: "low < ?m" "?m \<le> high" using True by auto
    show ?thesis
    proof (cases "ok ?m")
      case True
      then have "longest_fit ok low high = longest_fit ok ?m high"
        using \<open>low < high\<close> by (simp add: longest_fit.simps [of ok low high] Let_def)
      moreover have "?m \<le> longest_fit ok ?m high \<and> longest_fit ok ?m high \<le> high"
        by (rule less.hyps) (use m in auto)
      ultimately show ?thesis using m(1) by (metis less_imp_le order_trans)
    next
      case False
      then have "longest_fit ok low high = longest_fit ok low (?m - 1)"
        using \<open>low < high\<close> by (simp add: longest_fit.simps [of ok low high] Let_def)
      moreover have "low \<le> longest_fit ok low (?m - 1) \<and> longest_fit ok low (?m - 1) \<le> ?m - 1"
        by (rule less.hyps) (use m in auto)
      ultimately show ?thesis using m(2) by (metis diff_le_self order_trans)
    qed
  next
    case False
    with less.prems have "longest_fit ok low high = low" "low = high"
      using longest_fit.simps [of ok low high] by simp_all
    then show ?thesis by simp
  qed
qed

lemma longest_fit_spec:
  "low \<le> high \<Longrightarrow> (low < longest_fit ok low high \<longrightarrow> ok (longest_fit ok low high))
     \<and> (\<forall>k. longest_fit ok low high < k \<and> k \<le> high \<longrightarrow> \<not> ok k)"
proof (induction "high - low" arbitrary: low high rule: less_induct)
  case less
  show ?case
  proof (cases "low < high")
    case True
    let ?m = "(low + high + 1) div 2"
    have m: "low < ?m" "?m \<le> high" using True by auto
    show ?thesis
    proof (cases "ok ?m")
      case fit: True
      have eq: "longest_fit ok low high = longest_fit ok ?m high"
        using True fit by (simp add: longest_fit.simps [of ok low high] Let_def)
      have ih: "(?m < longest_fit ok ?m high \<longrightarrow> ok (longest_fit ok ?m high))
          \<and> (\<forall>k. longest_fit ok ?m high < k \<and> k \<le> high \<longrightarrow> \<not> ok k)"
        by (rule less.hyps) (use m in auto)
      have "?m \<le> longest_fit ok ?m high" using longest_fit_bounds [of ?m high] m by simp
      then have "ok (longest_fit ok ?m high)" using ih fit by (cases "?m = longest_fit ok ?m high") auto
      with ih show ?thesis by (simp add: eq)
    next
      case False
      have eq: "longest_fit ok low high = longest_fit ok low (?m - 1)"
        using True False by (simp add: longest_fit.simps [of ok low high] Let_def)
      have ih: "(low < longest_fit ok low (?m - 1) \<longrightarrow> ok (longest_fit ok low (?m - 1)))
          \<and> (\<forall>k. longest_fit ok low (?m - 1) < k \<and> k \<le> ?m - 1 \<longrightarrow> \<not> ok k)"
        by (rule less.hyps) (use m in auto)
      have "\<not> ok k" if "?m \<le> k" for k using False shorter that by blast
      with ih have "\<forall>k. longest_fit ok low (?m - 1) < k \<and> k \<le> high \<longrightarrow> \<not> ok k"
        by (metis Suc_pred' add_gr_0 leI less_Suc_eq_le m(1) not_less_eq zero_less_one less_imp_le_nat
            gr_implies_not_zero gr0I)
      with ih show ?thesis by (simp add: eq)
    qed
  next
    case False
    with less.prems have "longest_fit ok low high = low" "low = high"
      using longest_fit.simps [of ok low high] by simp_all
    then show ?thesis by auto
  qed
qed

text \<open>The value the loop returns is the only one with these three properties.\<close>

lemma longest_fit_unique:
  assumes "n \<le> high" and "0 < n \<longrightarrow> ok n" and "n < high \<longrightarrow> \<not> ok (Suc n)"
  shows "longest_fit ok 0 high = n"
proof (rule linorder_cases [of "longest_fit ok 0 high" n])
  assume "longest_fit ok 0 high < n"
  with longest_fit_spec [of 0 high] assms show ?thesis by auto
next
  assume gt: "n < longest_fit ok 0 high"
  with longest_fit_spec [of 0 high] have "ok (longest_fit ok 0 high)" by simp
  moreover have "Suc n \<le> longest_fit ok 0 high" using gt by simp
  ultimately have "ok (Suc n)" by (rule shorter [rotated])
  with gt assms longest_fit_bounds [of 0 high] show ?thesis by simp
qed

lemma longest_fit_all: "ok high \<Longrightarrow> longest_fit ok 0 high = high"
  by (rule longest_fit_unique) simp_all

end

section \<open>The size of the encoding\<close>

lemma encoded_size_item: "encoded_size d = int (item_size (PDict d))"
  by (simp add: encoded_size_def item_size_def)

lemma entry_sum_update:
  "item_size v \<le> item_size w \<Longrightarrow>
     sum_list (map entry_size (dict_set k v d)) \<le> sum_list (map entry_size (dict_set k w d))"
  by (induction d) (auto simp: entry_size_def)

lemma length_dict_set: "length (dict_set k v d) = length (dict_set k w d)"
  by (induction d) auto

lemma encoded_size_mono:
  "item_size v \<le> item_size w \<Longrightarrow> encoded_size (dict_set k v d) \<le> encoded_size (dict_set k w d)"
  using entry_sum_update [of v w k d] length_dict_set [of k v d w]
  by (simp add: encoded_size_item item_size_PDict)

lemma dict_set_same: "dict_get d k = Some v \<Longrightarrow> dict_set k v d = d"
  by (induction d) (auto split: if_splits)

lemma dict_set_twice [simp]: "dict_set k v (dict_set k w d) = dict_set k v d"
  by (induction d) auto

lemma item_size_take: "m \<le> n \<Longrightarrow> item_size (PList (take m xs)) \<le> item_size (PList (take n xs))"
proof -
  assume mn: "m \<le> n"
  have "take n xs = take m xs @ take (n - m) (drop m xs)"
    using mn by (metis le_add_diff_inverse take_add)
  then have "sum_list (map item_size (take m xs)) \<le> sum_list (map item_size (take n xs))" by simp
  then show ?thesis using mn by (auto simp: item_size_PList intro!: add_mono)
qed

interpretation json_prefix: prefix_search "prefix_fits d key items cap" for d key items cap
proof
  fix m n :: nat
  assume "m \<le> n" and "prefix_fits d key items cap n"
  then show "prefix_fits d key items cap m"
    using encoded_size_mono [OF item_size_take [of m n items], of key d]
    by (simp add: prefix_fits_def fits_def)
qed

section \<open>Trimming one item at a time\<close>

text \<open>
  The reference: while the document is too large, the last item of the first collection that still
  has one is dropped.
\<close>

definition collection :: "document \<Rightarrow> string \<Rightarrow> pyval list" where
  "collection d key = (case dict_get d key of Some (PList items) \<Rightarrow> items | _ \<Rightarrow> [])"

fun drop_one :: "string list \<Rightarrow> document \<Rightarrow> document option" where
  "drop_one [] d = None"
| "drop_one (key # keys) d =
     (if collection d key = [] then drop_one keys d
      else Some (dict_set key (PList (butlast (collection d key))) d))"

lemma collection_update:
  "collection (dict_set k (PList xs) d) key = (if key = k then xs else collection d key)"
  by (auto simp: collection_def update_conv')

lemma collection_get: "collection d key \<noteq> [] \<Longrightarrow> dict_get d key = Some (PList (collection d key))"
  by (auto simp: collection_def split: option.splits pyval.splits)

fun items_of :: "pyval \<Rightarrow> nat" where
  "items_of (PList xs) = length xs"
| "items_of _ = 0"

definition total_items :: "document \<Rightarrow> nat" where
  "total_items d = sum_list (map (\<lambda>p. items_of (snd p)) d)"

lemma total_items_update:
  "dict_get d key = Some w \<Longrightarrow>
     total_items (dict_set key v d) + items_of w = total_items d + items_of v"
  by (induction d) (auto simp: total_items_def split: if_splits)

lemma drop_one_less: "drop_one keys d = Some e \<Longrightarrow> total_items e < total_items d"
proof (induction keys)
  case (Cons key keys)
  show ?case
  proof (cases "collection d key = []")
    case False
    with Cons.prems have "e = dict_set key (PList (butlast (collection d key))) d" by simp
    with total_items_update [OF collection_get [OF False], of "PList (butlast (collection d key))"]
      False
    show ?thesis by (cases "collection d key" rule: rev_cases) auto
  next
    case True
    with Cons show ?thesis by simp
  qed
qed simp

lemma drop_one_keeps_empty: "drop_one keys d = Some e \<Longrightarrow> collection d key = [] \<Longrightarrow> collection e key = []"
  by (induction keys) (auto simp: collection_update split: if_splits)

function trim_reference :: "string list \<Rightarrow> int \<Rightarrow> document \<Rightarrow> document" where
  "trim_reference keys cap d =
     (if fits d cap then d
      else (case drop_one keys d of None \<Rightarrow> d | Some e \<Rightarrow> trim_reference keys cap e))"
  by pat_completeness auto
termination
  by (relation "measure (\<lambda>(keys, cap, d). total_items d)") (auto dest: drop_one_less)

declare trim_reference.simps [simp del]

lemma trim_reference_fits: "fits d cap \<Longrightarrow> trim_reference keys cap d = d"
  by (simp add: trim_reference.simps)

lemma trim_reference_skip:
  "collection d key = [] \<Longrightarrow> trim_reference (key # keys) cap d = trim_reference keys cap d"
proof (induction keys cap d rule: trim_reference.induct)
  case (1 keys cap d)
  then show ?case
    by (auto simp: trim_reference.simps [of "key # keys"] trim_reference.simps [of keys] drop_one_keeps_empty
        split: option.split)
qed

text \<open>Dropping from one collection down to a prefix that is the first to fit, or to nothing.\<close>

lemma trim_reference_prefix:
  assumes "dict_get d key = Some (PList xs)" and "n \<le> length xs"
    and "\<And>m. n < m \<Longrightarrow> m \<le> length xs \<Longrightarrow> \<not> prefix_fits d key xs cap m"
  shows "trim_reference (key # keys) cap d
       = trim_reference (key # keys) cap (dict_set key (PList (take n xs)) d)"
  using assms
proof (induction "length xs - n" arbitrary: d xs)
  case 0
  then show ?case by (simp add: dict_set_same)
next
  case (Suc j)
  let ?e = "dict_set key (PList (butlast xs)) d"
  have ne: "xs \<noteq> []" and lt: "n < length xs" using Suc.hyps(2) by auto
  have xs: "collection d key = xs" using Suc.prems(1) by (simp add: collection_def)
  have "\<not> fits d cap"
    using Suc.prems(3) [of "length xs"] lt Suc.prems(1) by (simp add: prefix_fits_def dict_set_same)
  then have "trim_reference (key # keys) cap d = trim_reference (key # keys) cap ?e"
    using ne xs by (simp add: trim_reference.simps [of _ _ d])
  also have "\<dots> = trim_reference (key # keys) cap (dict_set key (PList (take n (butlast xs))) ?e)"
  proof (rule Suc.hyps(1))
    show "j = length (butlast xs) - n" using Suc.hyps(2) by simp
    show "n \<le> length (butlast xs)" using lt by simp
    show "dict_get ?e key = Some (PList (butlast xs))" by (simp add: update_conv')
    show "\<not> prefix_fits ?e key (butlast xs) cap m" if "n < m" "m \<le> length (butlast xs)" for m
      using Suc.prems(3) [of m] that by (simp add: prefix_fits_def take_butlast)
  qed
  also have "take n (butlast xs) = take n xs" using lt by (simp add: take_butlast)
  finally show ?case by simp
qed

lemma trim_reference_head:
  fixes cap :: int
  assumes "dict_get d key = Some (PList xs)"
  defines "n \<equiv> longest_fit (prefix_fits d key xs cap) 0 (length xs)"
  shows "trim_reference (key # keys) cap d
       = trim_reference keys cap (dict_set key (PList (take n xs)) d)"
proof -
  let ?e = "dict_set key (PList (take n xs)) d"
  have n: "n \<le> length xs" "0 < n \<longrightarrow> prefix_fits d key xs cap n"
      "\<And>m. n < m \<Longrightarrow> m \<le> length xs \<Longrightarrow> \<not> prefix_fits d key xs cap m"
    using json_prefix.longest_fit_bounds [of 0 "length xs" d key xs cap]
      json_prefix.longest_fit_spec [of 0 "length xs" d key xs cap] by (simp_all add: n_def)
  have "trim_reference (key # keys) cap d = trim_reference (key # keys) cap ?e"
    by (rule trim_reference_prefix) (use assms(1) n in auto)
  also have "\<dots> = trim_reference keys cap ?e"
  proof (cases "n = 0")
    case True
    then show ?thesis by (simp add: trim_reference_skip collection_update)
  next
    case False
    then have "fits ?e cap" using n(2) by (simp add: prefix_fits_def)
    then show ?thesis by (simp add: trim_reference_fits)
  qed
  finally show ?thesis .
qed

text \<open>One pass of the code's loop, over the documents alone.\<close>

lemma trim_key_packed:
  "packed (trim_key cap key s) =
     (case dict_get (packed s) key of
        Some (PList xs) \<Rightarrow>
          dict_set key (PList (take (longest_fit (prefix_fits (packed s) key xs cap) 0 (length xs)) xs))
            (packed s)
      | _ \<Rightarrow> packed s)"
  by (auto simp: trim_key_def Let_def dict_set_same longest_fit.simps [of _ 0 0]
      split: option.split pyval.split)

lemma trim_fold_reference:
  "packed (fold (trim_key cap) keys s) = trim_reference keys cap (packed s)"
proof (induction keys arbitrary: s)
  case Nil
  show ?case by (simp add: trim_reference.simps)
next
  case (Cons key keys)
  have "trim_reference (key # keys) cap (packed s) = trim_reference keys cap (packed (trim_key cap key s))"
  proof (cases "\<exists>xs. dict_get (packed s) key = Some (PList xs)")
    case True
    then show ?thesis by (auto simp: trim_key_packed trim_reference_head)
  next
    case False
    then have "collection (packed s) key = []"
      by (auto simp: collection_def split: option.split pyval.split)
    with False show ?thesis
      by (auto simp: trim_key_packed trim_reference_skip split: option.split pyval.split)
  qed
  with Cons show ?case by simp
qed

section \<open>The metadata alone\<close>

text \<open>Every trimmable collection emptied: what is left is the metadata.\<close>

definition emptied :: "string list \<Rightarrow> document \<Rightarrow> document" where
  "emptied keys d =
     map (\<lambda>p. (fst p, case snd p of PList xs \<Rightarrow> if fst p \<in> set keys then PList [] else snd p
                       | v \<Rightarrow> v)) d"

lemma emptied_update:
  "dict_get d key = Some (PList xs) \<Longrightarrow> key \<in> set keys \<Longrightarrow>
     emptied keys (dict_set key (PList ys) d) = emptied keys d"
  by (induction d) (auto simp: emptied_def split: if_splits)

lemma emptied_drop_one:
  "drop_one keys d = Some e \<Longrightarrow> set keys \<subseteq> set all \<Longrightarrow> emptied all e = emptied all d"
  by (induction keys) (auto split: if_splits dest!: collection_get intro: emptied_update)

lemma drop_one_None: "drop_one keys d = None \<longleftrightarrow> (\<forall>key \<in> set keys. collection d key = [])"
  by (induction keys) auto

lemma emptied_none:
  assumes "distinct (dict_keys d)" and "\<And>key. key \<in> set keys \<Longrightarrow> collection d key = []"
  shows "emptied keys d = d"
proof -
  have "(case snd p of PList xs \<Rightarrow> if fst p \<in> set keys then PList [] else snd p | v \<Rightarrow> v) = snd p"
    if "p \<in> set d" for p
  proof -
    have "dict_get d (fst p) = Some (snd p)" using assms(1) that by simp
    with assms(2) [of "fst p"] show ?thesis by (auto simp: collection_def split: pyval.split)
  qed
  then show ?thesis unfolding emptied_def by (intro map_idI) (metis prod.collapse)
qed

lemma item_size_empty: "item_size (PList []) \<le> item_size (PList xs)"
  using item_size_take [of 0 "length xs" xs] by simp

lemma emptied_size: "encoded_size (emptied keys d) \<le> encoded_size d"
proof -
  have "sum_list (map entry_size (emptied keys d)) \<le> sum_list (map entry_size d)"
    unfolding emptied_def map_map
    by (rule sum_list_mono) (auto simp: entry_size_def item_size_empty split: pyval.split)
  then show ?thesis by (simp add: encoded_size_item item_size_PDict emptied_def)
qed

lemma drop_one_distinct:
  "drop_one keys d = Some e \<Longrightarrow> distinct (dict_keys d) \<Longrightarrow> distinct (dict_keys e)"
  by (induction keys) (auto simp: distinct_update split: if_splits)

lemma trim_reference_fits_iff:
  "distinct (dict_keys d) \<Longrightarrow> fits (trim_reference keys cap d) cap \<longleftrightarrow> fits (emptied keys d) cap"
proof (induction keys cap d rule: trim_reference.induct)
  case (1 keys cap d)
  show ?case
  proof (cases "fits d cap")
    case True
    then show ?thesis using emptied_size [of keys d] by (simp add: trim_reference_fits fits_def)
  next
    case False
    show ?thesis
    proof (cases "drop_one keys d")
      case None
      then have "emptied keys d = d" using emptied_none [OF 1(2)] by (simp add: drop_one_None)
      then show ?thesis using False None by (simp add: trim_reference.simps)
    next
      case (Some e)
      then show ?thesis
        using False 1(1) [OF False Some] drop_one_distinct [OF Some 1(2)] emptied_drop_one [OF Some]
        by (simp add: trim_reference.simps [of keys cap d])
    qed
  qed
qed

section \<open>Accounting\<close>

lemma dict_get_set: "dict_get (dict_set k v d) x = (if x = k then Some v else dict_get d x)"
  by (simp add: update_conv')

text \<open>What one pass does to every collection and to the count of dropped items.\<close>

definition accounts :: "trim_state \<Rightarrow> trim_state \<Rightarrow> string \<Rightarrow> bool" where
  "accounts s t key =
     (\<exists>n. collection (packed t) key = take n (collection (packed s) key)
        \<and> dict_get (dropped t) key
            = (if n < length (collection (packed s) key)
               then Some (length (collection (packed s) key) - n) else None))"

definition untouched :: "trim_state \<Rightarrow> trim_state \<Rightarrow> string \<Rightarrow> bool" where
  "untouched s t key =
     (dict_get (packed t) key = dict_get (packed s) key
      \<and> dict_get (dropped t) key = dict_get (dropped s) key)"

lemma untouched_trans: "untouched s t key \<Longrightarrow> untouched t u key \<Longrightarrow> untouched s u key"
  by (simp add: untouched_def)

lemma untouched_collection:
  "untouched s t key \<Longrightarrow> collection (packed t) key = collection (packed s) key"
  by (simp add: untouched_def collection_def)

lemma untouched_dropped: "untouched s t key \<Longrightarrow> dict_get (dropped t) key = dict_get (dropped s) key"
  by (simp add: untouched_def)

lemma untouched_accounts: "untouched s t key \<Longrightarrow> accounts t u key \<Longrightarrow> accounts s u key"
  by (simp only: accounts_def untouched_collection)

lemma accounts_untouched: "accounts s t key \<Longrightarrow> untouched t u key \<Longrightarrow> accounts s u key"
  by (simp only: accounts_def untouched_collection untouched_dropped)

lemma trim_key_untouched: "k \<noteq> key \<Longrightarrow> untouched s (trim_key cap key s) k"
  by (auto simp: untouched_def trim_key_def Let_def dict_get_set split: option.split pyval.split)

lemma trim_key_accounts:
  assumes "dict_get (dropped s) key = None"
  shows "accounts s (trim_key cap key s) key"
proof (cases "collection (packed s) key = []")
  case True
  then have "trim_key cap key s = s"
    by (auto simp: trim_key_def collection_def split: option.splits pyval.splits)
  with True assms show ?thesis by (simp add: accounts_def)
next
  case False
  let ?xs = "collection (packed s) key"
  let ?n = "longest_fit (prefix_fits (packed s) key ?xs cap) 0 (length ?xs)"
  have t: "trim_key cap key s =
     (if ?n < length ?xs then
        s\<lparr>packed := dict_set key (PList (take ?n ?xs)) (packed s),
          dropped := dict_set key (length ?xs - ?n) (dropped s),
          oversized := oversized s @ (if ?n = 0 \<and> length ?xs = 1 then [key] else [])\<rparr>
      else s)"
    using False collection_get [OF False] by (simp add: trim_key_def Let_def)
  have "collection (packed (trim_key cap key s)) key = take ?n ?xs"
    using json_prefix.longest_fit_bounds [of 0 "length ?xs"] by (simp add: t collection_update)
  moreover have "dict_get (dropped (trim_key cap key s)) key
      = (if ?n < length ?xs then Some (length ?xs - ?n) else None)"
    by (simp add: t dict_get_set assms)
  ultimately show ?thesis unfolding accounts_def by blast
qed

lemma trim_fold_accounts:
  assumes "distinct keys" and "\<And>key. key \<in> set keys \<Longrightarrow> dict_get (dropped s) key = None"
  shows "(\<forall>key \<in> set keys. accounts s (fold (trim_key cap) keys s) key)
       \<and> (\<forall>key. key \<notin> set keys \<longrightarrow> untouched s (fold (trim_key cap) keys s) key)"
  using assms
proof (induction keys arbitrary: s)
  case Nil
  show ?case by (simp add: untouched_def)
next
  case (Cons key keys)
  let ?t = "trim_key cap key s"
  let ?u = "fold (trim_key cap) keys ?t"
  have other: "untouched s ?t k" if "k \<noteq> key" for k using that by (rule trim_key_untouched)
  have ih: "(\<forall>k \<in> set keys. accounts ?t ?u k) \<and> (\<forall>k. k \<notin> set keys \<longrightarrow> untouched ?t ?u k)"
  proof (rule Cons.IH)
    show "distinct keys" using Cons.prems by simp
    show "dict_get (dropped ?t) k = None" if "k \<in> set keys" for k
      using other [of k] that Cons.prems by (auto simp: untouched_def)
  qed
  have "accounts s ?u key"
    by (rule accounts_untouched [OF trim_key_accounts]) (use ih Cons.prems in auto)
  moreover have "accounts s ?u k" if "k \<in> set keys" for k
    by (rule untouched_accounts [OF other]) (use ih that Cons.prems(1) in auto)
  moreover have "untouched s ?u k" if "k \<notin> set (key # keys)" for k
    by (rule untouched_trans [OF other]) (use ih that in auto)
  ultimately show ?case by simp
qed

lemma trim_all_accounts:
  shows "key \<in> set TRIMMABLE \<Longrightarrow>
           accounts \<lparr>packed = d, dropped = [], oversized = []\<rparr> (trim_all cap d) key"
    and "key \<notin> set TRIMMABLE \<Longrightarrow>
           untouched \<lparr>packed = d, dropped = [], oversized = []\<rparr> (trim_all cap d) key"
  using trim_fold_accounts [of TRIMMABLE "\<lparr>packed = d, dropped = [], oversized = []\<rparr>" cap]
  by (auto simp: trim_all_def TRIMMABLE_def)

lemma trim_fold_list:
  "dict_get (packed s) key = Some (PList xs) \<Longrightarrow>
     \<exists>ys. dict_get (packed (fold (trim_key cap) keys s)) key = Some (PList ys)"
proof (induction keys arbitrary: s xs)
  case (Cons k keys)
  have "\<exists>ys. dict_get (packed (trim_key cap k s)) key = Some (PList ys)"
    using Cons.prems by (auto simp: trim_key_packed dict_get_set split: option.split pyval.split)
  then obtain ys where "dict_get (packed (trim_key cap k s)) key = Some (PList ys)" by blast
  from Cons.IH [OF this] show ?case by simp
qed simp

lemma trim_all_list:
  "dict_get d key = Some (PList xs) \<Longrightarrow> \<exists>ys. dict_get (packed (trim_all cap d)) key = Some (PList ys)"
  unfolding trim_all_def by (rule trim_fold_list) simp

lemma trim_all_reference: "packed (trim_all cap d) = trim_reference TRIMMABLE cap d"
  by (simp add: trim_all_def trim_fold_reference)

lemma pack_response_cases:
  assumes "pack_response (PDict d) m = Inr r"
  obtains (whole) cap where "bounded_int m MIN_BYTES MAX_BYTES (Some DEFAULT_MAX_BYTES) = Inr cap"
      and "fits d cap" and "b_document r = d" and "b_byte_size r = encoded_size d"
      and "b_max_bytes r = cap" and "\<not> b_truncated r" and "b_dropped r = []" and "b_warnings r = []"
  | (trimmed) cap final where "bounded_int m MIN_BYTES MAX_BYTES (Some DEFAULT_MAX_BYTES) = Inr cap"
      and "\<not> fits d cap" and "fits (packed (trim_all cap d)) cap"
      and "attach_warnings
             (if dropped (trim_all cap d) \<noteq> []
              then dict_set ''truncated'' (PBool True) (packed (trim_all cap d))
              else packed (trim_all cap d)) (pack_warnings (trim_all cap d) cap) cap = Inr final"
      and "b_document r = final" and "b_byte_size r = encoded_size final" and "b_max_bytes r = cap"
      and "b_dropped r = dropped (trim_all cap d)" and "b_truncated r = (b_dropped r \<noteq> [])"
proof -
  from assms obtain cap where
    cap: "bounded_int m MIN_BYTES MAX_BYTES (Some DEFAULT_MAX_BYTES) = Inr cap"
    and r: "(if fits d cap then Inr \<lparr>b_document = d, b_byte_size = encoded_size d, b_max_bytes = cap,
            b_truncated = False, b_dropped = [], b_warnings = []\<rparr>
     else pack_trimmed (trim_all cap d) cap) = Inr r"
    by (auto simp: pack_response_def mapping_value_def bind_result_eq_Inr)
  show thesis
  proof (cases "fits d cap")
    case True
    then show thesis using r by (intro whole [OF cap]) auto
  next
    case False
    then show thesis using r
      by (auto simp: pack_trimmed_def Let_def bind_result_eq_Inr guard_result_eq_Inr
          intro!: trimmed [OF cap])
  qed
qed

lemma encoded_size_truncated:
  "dict_get d ''truncated'' = Some (PBool b) \<Longrightarrow>
     encoded_size (dict_set ''truncated'' (PBool True) d) \<le> encoded_size d"
  using encoded_size_mono [of "PBool True" "PBool b" "''truncated''" d]
  by (cases b) (simp_all add: item_size_def dict_set_same)

lemma attach_warnings_size:
  assumes "attach_warnings d texts cap = Inr e" and "dict_get d ''warnings'' = Some (PList ws)"
    and "encoded_size d \<le> cap"
  shows "encoded_size e \<le> cap"
proof (cases "texts = []")
  case True
  with assms show ?thesis by (simp add: attach_warnings_def)
next
  case False
  have "list_or_empty (dict_get d ''warnings'') = Inr ws"
    using assms(2) by (auto simp: list_or_empty_def)
  with False assms show ?thesis
    by (auto simp: attach_warnings_def Let_def fits_def dict_set_same split: if_splits)
qed

lemma attach_warnings_other:
  "attach_warnings d texts cap = Inr e \<Longrightarrow> key \<noteq> ''warnings'' \<Longrightarrow> dict_get e key = dict_get d key"
  by (auto simp: attach_warnings_def Let_def bind_result_eq_Inr dict_get_set split: if_splits)

lemma attach_warnings_error: "attach_warnings d texts cap \<noteq> Inl BudgetExceeded"
  by (auto simp: attach_warnings_def Let_def bind_result_def list_or_empty_def
      split: if_splits option.splits pyval.splits sum.splits)

lemma pack_succeeds:
  assumes "distinct (dict_keys d)" and "dict_get d ''warnings'' = Some (PList ws)"
    and "bounded_int m MIN_BYTES MAX_BYTES (Some DEFAULT_MAX_BYTES) = Inr cap"
    and "fits (emptied TRIMMABLE d) cap"
  shows "\<exists>r. pack_response (PDict d) m = Inr r"
proof (cases "fits d cap")
  case True
  with assms(3) show ?thesis by (simp add: pack_response_def mapping_value_def)
next
  case False
  let ?s = "trim_all cap d"
  let ?marked = "if dropped ?s \<noteq> [] then dict_set ''truncated'' (PBool True) (packed ?s) else packed ?s"
  obtain ys where "dict_get (packed ?s) ''warnings'' = Some (PList ys)"
    using trim_all_list [OF assms(2)] by blast
  then have "dict_get ?marked ''warnings'' = Some (PList ys)" by (simp add: dict_get_set)
  then have "list_or_empty (dict_get ?marked ''warnings'') = Inr ys"
    by (auto simp: list_or_empty_def)
  then have "\<exists>e. attach_warnings ?marked (pack_warnings ?s cap) cap = Inr e"
    by (simp add: attach_warnings_def Let_def)
  moreover have "fits (packed ?s) cap"
    unfolding trim_all_reference using trim_reference_fits_iff [OF assms(1)] assms(4) by simp
  ultimately show ?thesis using False assms(3)
    by (auto simp: pack_response_def mapping_value_def pack_trimmed_def Let_def)
qed

text \<open>An example: \<open>n\<close> one-byte items, with the two keys packing writes.\<close>

definition ex_document :: "nat \<Rightarrow> document" where
  "ex_document n =
     [(''schema'', PInt 1), (''truncated'', PBool False), (''warnings'', PList []),
      (''nodes'', PList (replicate n (PInt 7)))]"

lemma item_size_example:
  "item_size (PInt 1) = 1" "item_size (PInt 7) = 1" "item_size (PBool False) = 5"
  "length (json_string ''schema'') = 8" "length (json_string ''truncated'') = 11"
  "length (json_string ''warnings'') = 10" "length (json_string ''nodes'') = 7"
  by code_simp+

lemma ex_document_size: "encoded_size (ex_document (Suc n)) = int (56 + 2 * n)"
  by (simp add: ex_document_def encoded_size_item item_size_PDict item_size_PList entry_size_def
      item_size_example sum_list_replicate)

lemma ex_document_emptied: "emptied TRIMMABLE (ex_document n) = ex_document 0"
  by (simp add: emptied_def ex_document_def TRIMMABLE_def)

lemma ex_document_empty_fits: "fits (ex_document 0) 512"
  by (simp add: fits_def ex_document_def encoded_size_item item_size_PDict item_size_PList entry_size_def
      item_size_example)

lemma ex_document_packs: "\<exists>r. pack_response (PDict (ex_document n)) (PInt 512) = Inr r"
proof (rule pack_succeeds)
  show "dict_get (ex_document n) ''warnings'' = Some (PList [])" by (simp add: ex_document_def)
  show "bounded_int (PInt 512) MIN_BYTES MAX_BYTES (Some DEFAULT_MAX_BYTES) = Inr 512"
    by (simp add: bounded_int_def MIN_BYTES_def MAX_BYTES_def)
  show "fits (emptied TRIMMABLE (ex_document n)) 512"
    by (simp add: ex_document_emptied ex_document_empty_fits)
qed (simp add: ex_document_def)

section \<open>The properties of a packed response\<close>

text \<open>
  C35. Trimming by binary search is trimming one item at a time: the document that the five searches
  leave is the one reached by repeatedly dropping the last item of the first collection that is
  not yet empty, until the encoding fits or nothing is left to drop.
\<close>

theorem pack_trims_one_at_a_time:
  "packed (trim_all cap d) = trim_reference TRIMMABLE cap d"
  by (rule trim_all_reference)

text \<open>
  The cap is kept: a document with the two keys that packing writes, \<open>truncated\<close> a boolean and
  \<open>warnings\<close> a list, is packed to at most \<open>max_bytes\<close> encoded bytes, whatever it holds, and the
  size reported is the size of the document returned.
\<close>

lemma pack_within_cap:
  assumes "pack_response (PDict d) m = Inr r"
    and "dict_get d ''truncated'' = Some (PBool b)" and "dict_get d ''warnings'' = Some (PList ws)"
  shows "b_byte_size r = encoded_size (b_document r)
       \<and> b_byte_size r \<le> b_max_bytes r \<and> b_max_bytes r \<le> MAX_BYTES"
proof -
  have cap_range: "cap \<le> MAX_BYTES"
    if "bounded_int m MIN_BYTES MAX_BYTES (Some DEFAULT_MAX_BYTES) = Inr cap" for cap
    using that by (auto simp: bounded_int_Inr MAX_BYTES_def DEFAULT_MAX_BYTES_def)
  have "b_byte_size r = encoded_size (b_document r)"
    by (rule pack_response_cases [OF assms(1)]) simp_all
  moreover have "b_byte_size r \<le> b_max_bytes r \<and> b_max_bytes r \<le> MAX_BYTES"
  proof (rule pack_response_cases [OF assms(1)])
    fix cap final
    let ?s = "trim_all cap d"
    let ?marked = "if dropped ?s \<noteq> [] then dict_set ''truncated'' (PBool True) (packed ?s) else packed ?s"
    assume cap: "bounded_int m MIN_BYTES MAX_BYTES (Some DEFAULT_MAX_BYTES) = Inr cap"
      and fit: "fits (packed ?s) cap"
      and final: "attach_warnings ?marked (pack_warnings ?s cap) cap = Inr final"
      and r: "b_byte_size r = encoded_size final" "b_max_bytes r = cap"
    have t: "dict_get (packed ?s) ''truncated'' = Some (PBool b)"
      using trim_all_accounts(2) [of "''truncated''" d cap] assms(2) by (simp add: untouched_def TRIMMABLE_def)
    then have size: "encoded_size ?marked \<le> cap"
      using encoded_size_truncated [OF t] fit by (simp add: fits_def)
    have "\<exists>ys. dict_get (packed ?s) ''warnings'' = Some (PList ys)"
      by (rule trim_all_list) (rule assms(3))
    then obtain ys where "dict_get (packed ?s) ''warnings'' = Some (PList ys)" by blast
    then have "dict_get ?marked ''warnings'' = Some (PList ys)" by (simp add: dict_get_set)
    from attach_warnings_size [OF final this size] r cap_range [OF cap] show ?thesis by simp
  qed (use cap_range in \<open>auto simp: fits_def\<close>)
  ultimately show ?thesis by simp
qed

text \<open>
  Packing is refused exactly when the metadata alone is too large: \<open>BudgetExceeded\<close> is raised if
  and only if the document exceeds the cap even with every trimmable collection emptied.
\<close>

theorem pack_refused_iff:
  assumes "distinct (dict_keys d)"
    and "bounded_int m MIN_BYTES MAX_BYTES (Some DEFAULT_MAX_BYTES) = Inr cap"
  shows "pack_response (PDict d) m = Inl BudgetExceeded \<longleftrightarrow> \<not> fits (emptied TRIMMABLE d) cap"
proof (cases "fits d cap")
  case True
  then show ?thesis
    using assms emptied_size [of TRIMMABLE d] by (simp add: pack_response_def mapping_value_def fits_def)
next
  case False
  let ?marked = "if dropped (trim_all cap d) \<noteq> []
    then dict_set ''truncated'' (PBool True) (packed (trim_all cap d)) else packed (trim_all cap d)"
  have "fits (packed (trim_all cap d)) cap \<longleftrightarrow> fits (emptied TRIMMABLE d) cap"
    unfolding trim_all_reference by (rule trim_reference_fits_iff) (rule assms(1))
  with False assms(2) attach_warnings_error [of ?marked "pack_warnings (trim_all cap d) cap" cap]
  show ?thesis
    by (cases "attach_warnings ?marked (pack_warnings (trim_all cap d) cap) cap")
      (auto simp: pack_response_def mapping_value_def pack_trimmed_def Let_def guard_result_def)
qed

theorem pack_refused_iff_witness:
  "pack_response (PDict (ex_document 240)) (PInt 512) \<noteq> Inl BudgetExceeded
     \<and> pack_response (PDict [(''x'', PStr (replicate 600 CHR ''a''))]) (PInt 512) = Inl BudgetExceeded"
proof -
  have cap: "bounded_int (PInt 512) MIN_BYTES MAX_BYTES (Some DEFAULT_MAX_BYTES) = Inr 512"
    by (simp add: bounded_int_def MIN_BYTES_def MAX_BYTES_def)
  have "json_char CHR ''a'' = ''a''" by code_simp
  then have "item_size (PStr (replicate 600 CHR ''a'')) = 602"
    by (simp add: item_size_def json_string_def length_concat sum_list_replicate)
  then have "\<not> fits (emptied TRIMMABLE [(''x'', PStr (replicate 600 CHR ''a''))]) 512"
    by (simp add: emptied_def fits_def encoded_size_item item_size_PDict entry_size_def)
  then show ?thesis
    using pack_refused_iff [OF _ cap, of "ex_document 240"]
      pack_refused_iff [OF _ cap, of "[(''x'', PStr (replicate 600 CHR ''a''))]"]
      ex_document_empty_fits
    by (simp add: ex_document_emptied) (simp add: ex_document_def)
qed

lemma pack_keeps_key:
  assumes "pack_response (PDict d) m = Inr r" and "key \<notin> set TRIMMABLE" and "key \<noteq> ''truncated''"
  shows "dict_get (b_document r) key = dict_get d key"
proof (rule pack_response_cases [OF assms(1)])
  fix cap final
  let ?s = "trim_all cap d"
  let ?marked = "if dropped ?s \<noteq> [] then dict_set ''truncated'' (PBool True) (packed ?s) else packed ?s"
  assume final: "attach_warnings ?marked (pack_warnings ?s cap) cap = Inr final" and r: "b_document r = final"
  have "key \<noteq> ''warnings''" using assms(2) by (auto simp: TRIMMABLE_def)
  then have "dict_get final key = dict_get (packed ?s) key"
    using attach_warnings_other [OF final] assms(3) by (auto simp: dict_get_set)
  with trim_all_accounts(2) [OF assms(2), of d cap] r show ?thesis by (simp add: untouched_def)
qed simp

text \<open>
  What was dropped is accounted for: every trimmable collection other than the warnings comes
  back as a prefix of itself, shorter by exactly the number reported in \<open>dropped\<close>, and every key
  that packing neither trims nor writes is returned unchanged.
\<close>

theorem pack_accounts_for_dropped:
  assumes "pack_response (PDict d) m = Inr r"
  shows "(key \<in> set TRIMMABLE \<and> key \<noteq> ''warnings'' \<longrightarrow>
            (\<exists>n. collection (b_document r) key = take n (collection d key)
              \<and> dict_get (b_dropped r) key
                  = (if n < length (collection d key) then Some (length (collection d key) - n)
                     else None)))
       \<and> (key \<notin> set TRIMMABLE \<and> key \<noteq> ''truncated'' \<longrightarrow>
            dict_get (b_document r) key = dict_get d key)"
proof (intro conjI impI)
  assume key: "key \<in> set TRIMMABLE \<and> key \<noteq> ''warnings''"
  show "\<exists>n. collection (b_document r) key = take n (collection d key)
          \<and> dict_get (b_dropped r) key
              = (if n < length (collection d key) then Some (length (collection d key) - n) else None)"
  proof (rule pack_response_cases [OF assms])
    assume "b_document r = d" and "b_dropped r = []"
    then show ?thesis by (auto intro!: exI [of _ "length (collection d key)"])
  next
    fix cap final
    let ?s = "trim_all cap d"
    let ?marked = "if dropped ?s \<noteq> [] then dict_set ''truncated'' (PBool True) (packed ?s) else packed ?s"
    assume final: "attach_warnings ?marked (pack_warnings ?s cap) cap = Inr final"
      and r: "b_document r = final" "b_dropped r = dropped ?s"
    have "key \<noteq> ''truncated''" using key by (auto simp: TRIMMABLE_def)
    then have "dict_get final key = dict_get (packed ?s) key"
      using attach_warnings_other [OF final] key by (auto simp: dict_get_set)
    then have "collection final key = collection (packed ?s) key" by (simp add: collection_def)
    with trim_all_accounts(1) [of key d cap] key r show ?thesis
      by (simp only: accounts_def trim_state.select_convs)
  qed
qed (simp add: pack_keeps_key [OF assms])

theorem pack_accounts_for_dropped_witness:
  "\<exists>r n. pack_response (PDict (ex_document 240)) (PInt 512) = Inr r
     \<and> collection (b_document r) ''nodes'' = take n (replicate 240 (PInt 7))
     \<and> dict_get (b_document r) ''schema'' = Some (PInt 1)"
proof -
  obtain r where r: "pack_response (PDict (ex_document 240)) (PInt 512) = Inr r"
    using ex_document_packs by blast
  have "collection (ex_document 240) ''nodes'' = replicate 240 (PInt 7)"
    and "dict_get (ex_document 240) ''schema'' = Some (PInt 1)"
    by (simp_all add: collection_def ex_document_def)
  with r pack_accounts_for_dropped [OF r, of "''nodes''"] pack_accounts_for_dropped [OF r, of "''schema''"]
  show ?thesis by (auto simp: TRIMMABLE_def)
qed

text \<open>An example without the two keys: a text of metadata and \<open>n\<close> one-byte items.\<close>

definition ex_headless :: "nat \<Rightarrow> document" where
  "ex_headless n =
     [(''nodes'', PList (replicate n (PInt 7))), (''x'', PStr (replicate 490 CHR ''a''))]"

lemma item_size_text: "item_size (PStr (replicate n CHR ''a'')) = n + 2"
proof -
  have "json_char CHR ''a'' = ''a''" by code_simp
  then show ?thesis by (simp add: item_size_def json_string_def length_concat sum_list_replicate)
qed

lemma ex_headless_size: "encoded_size (ex_headless (Suc n)) = int (510 + 2 * n)"
proof -
  have "length (json_string ''x'') = 3" by code_simp
  then show ?thesis
    by (simp add: ex_headless_def encoded_size_item item_size_PDict item_size_PList entry_size_def
        item_size_text item_size_example sum_list_replicate)
qed

lemma ex_headless_nodes: "collection (ex_headless n) ''nodes'' = replicate n (PInt 7)"
  by (simp add: ex_headless_def collection_def)

lemma ex_headless_drop:
  "drop_one TRIMMABLE (ex_headless (Suc n)) = Some (ex_headless n)"
proof -
  have "butlast (x # replicate n x) = replicate n x" for x :: pyval
    by (induction n) auto
  then show ?thesis by (simp add: TRIMMABLE_def ex_headless_nodes) (simp add: ex_headless_def)
qed

lemma ex_headless_trimmed: "packed (trim_all 512 (ex_headless 4)) = ex_headless 2"
proof -
  have "\<not> fits (ex_headless 4) 512" "\<not> fits (ex_headless 3) 512" "fits (ex_headless 2) 512"
    using ex_headless_size [of 3] ex_headless_size [of 2] ex_headless_size [of 1]
    by (simp_all add: fits_def eval_nat_numeral)
  then show ?thesis
    using ex_headless_drop [of 3] ex_headless_drop [of 2]
    by (simp add: trim_all_reference trim_reference.simps eval_nat_numeral)
qed

lemma encoded_size_new:
  "key \<notin> fst ` set d \<Longrightarrow> encoded_size d < encoded_size (dict_set key v d)"
  by (simp add: dict_set_length_new encoded_size_item item_size_PDict entry_size_def)

text \<open>
  The cap can be broken: a document without a \<open>truncated\<close> key is returned larger than the cap
  it was packed for, because the key is added after the last check that can refuse.
\<close>

theorem pack_exceeds_cap_without_truncated:
  "\<exists>r. pack_response (PDict (ex_headless 4)) (PInt 512) = Inr r \<and> b_max_bytes r < b_byte_size r"
proof -
  let ?s = "trim_all 512 (ex_headless 4)"
  let ?d = "dict_set ''truncated'' (PBool True) (ex_headless 2)"
  have cap: "bounded_int (PInt 512) MIN_BYTES MAX_BYTES (Some DEFAULT_MAX_BYTES) = Inr 512"
    by (simp add: bounded_int_def MIN_BYTES_def MAX_BYTES_def)
  have big: "\<not> fits (ex_headless 4) 512" and small: "encoded_size (ex_headless 2) = 512"
    using ex_headless_size [of 3] ex_headless_size [of 1] by (simp_all add: fits_def eval_nat_numeral)
  have "accounts \<lparr>packed = ex_headless 4, dropped = [], oversized = []\<rparr> ?s ''nodes''"
    by (rule trim_all_accounts(1)) (simp add: TRIMMABLE_def)
  then have drop: "dropped ?s \<noteq> []"
    by (auto simp: accounts_def ex_headless_trimmed ex_headless_nodes split: if_splits)
  have "512 < encoded_size ?d"
    using encoded_size_new [of "''truncated''" "ex_headless 2"] small by (simp add: ex_headless_def)
  moreover have "encoded_size ?d < encoded_size (dict_set ''warnings'' v ?d)" for v
    by (rule encoded_size_new) (simp add: ex_headless_def)
  moreover have "list_or_empty (dict_get ?d ''warnings'') = Inr []"
    by (simp add: ex_headless_def list_or_empty_def)
  moreover have "pack_warnings ?s 512 \<noteq> []" using drop by (simp add: pack_warnings_def)
  ultimately show ?thesis
    using cap big small drop
    by (simp add: pack_response_def mapping_value_def pack_trimmed_def attach_warnings_def Let_def
        ex_headless_trimmed fits_def less_trans)
qed

end
