(* ===== verification/Hashing.thy ===== *)
theory Hashing
  imports Values "HOL-Library.Word"
begin

text \<open>
  \<open>hashlib.sha256(text.encode("utf-8")).hexdigest()\<close>, which names every generation, cursor, query
  and cached shard of the program. The standard library's function is written out (FIPS 180-4) on
  32-bit words, so that every definition that hashes stays executable. What the proofs use of it is
  that a digest is 64 lowercase hexadecimal digits; that different texts have different digests is
  never assumed of all texts, only stated for the texts a property speaks of.
\<close>

unbundle bit_operations_syntax

definition SHA256_K :: "32 word list" where
  "SHA256_K =
    [1116352408, 1899447441, 3049323471, 3921009573, 961987163, 1508970993, 2453635748,
     2870763221, 3624381080, 310598401, 607225278, 1426881987, 1925078388, 2162078206,
     2614888103, 3248222580, 3835390401, 4022224774, 264347078, 604807628, 770255983,
     1249150122, 1555081692, 1996064986, 2554220882, 2821834349, 2952996808, 3210313671,
     3336571891, 3584528711, 113926993, 338241895, 666307205, 773529912, 1294757372,
     1396182291, 1695183700, 1986661051, 2177026350, 2456956037, 2730485921, 2820302411,
     3259730800, 3345764771, 3516065817, 3600352804, 4094571909, 275423344, 430227734,
     506948616, 659060556, 883997877, 958139571, 1322822218, 1537002063, 1747873779,
     1955562222, 2024104815, 2227730452, 2361852424, 2428436474, 2756734187, 3204031479,
     3329325298]"

definition SHA256_H :: "32 word list" where
  "SHA256_H =
    [1779033703, 3144134277, 1013904242, 2773480762, 1359893119, 2600822924, 528734635,
     1541459225]"

text \<open>
  The tables are checked against what they are: the first 32 bits of the fractional parts of the
  cube roots, and of the square roots, of the first primes.
\<close>

definition first_primes :: "int list" where
  "first_primes =
    [2, 3, 5, 7, 11, 13, 17, 19, 23, 29, 31, 37, 41, 43, 47, 53, 59, 61, 67, 71, 73, 79, 83, 89,
     97, 101, 103, 107, 109, 113, 127, 131, 137, 139, 149, 151, 157, 163, 167, 173, 179, 181,
     191, 193, 197, 199, 211, 223, 227, 229, 233, 239, 241, 251, 257, 263, 269, 271, 277, 281,
     283, 293, 307, 311]"

definition is_root_fraction :: "nat \<Rightarrow> int \<Rightarrow> int \<Rightarrow> bool" where
  "is_root_fraction d p k \<longleftrightarrow>
     list_ex (\<lambda>c. (c * 2 ^ 32 + k) ^ d \<le> p * 2 ^ (32 * d) \<and> p * 2 ^ (32 * d) < (c * 2 ^ 32 + k + 1) ^ d)
       [1, 2, 3, 4, 5, 6, 7]"

lemma SHA256_K_cube_roots:
  "list_all2 (\<lambda>p k. is_root_fraction 3 p (uint k)) first_primes SHA256_K"
  by code_simp

lemma SHA256_H_square_roots:
  "list_all2 (\<lambda>p h. is_root_fraction 2 p (uint h)) (take 8 first_primes) SHA256_H"
  by (simp add: first_primes_def is_root_fraction_def SHA256_H_def)

section \<open>Padding\<close>

fun big_endian :: "nat \<Rightarrow> nat \<Rightarrow> nat list" where
  "big_endian 0 n = []"
| "big_endian (Suc k) n = big_endian k (n div 256) @ [n mod 256]"

definition sha256_pad :: "nat list \<Rightarrow> nat list" where
  "sha256_pad bytes =
     (let l = length bytes in
      bytes @ [128] @ replicate ((119 - l mod 64) mod 64) 0 @ big_endian 8 (8 * l mod 2 ^ 64))"

definition word_of_bytes :: "nat list \<Rightarrow> 32 word" where
  "word_of_bytes bs = foldl (\<lambda>w b. push_bit 8 w OR word_of_nat b) 0 bs"

function chunks :: "nat \<Rightarrow> 'a list \<Rightarrow> 'a list list" where
  "chunks n xs = (if n = 0 \<or> xs = [] then [] else take n xs # chunks n (drop n xs))"
  by pat_completeness auto
termination
  by (relation "measure (\<lambda>(n, xs). length xs)") auto

declare chunks.simps [simp del]

section \<open>The compression function\<close>

definition rotr :: "nat \<Rightarrow> 32 word \<Rightarrow> 32 word" where
  "rotr n x = (drop_bit n x OR push_bit (32 - n) x)"

definition small_sigma0 :: "32 word \<Rightarrow> 32 word" where
  "small_sigma0 x = rotr 7 x XOR rotr 18 x XOR drop_bit 3 x"

definition small_sigma1 :: "32 word \<Rightarrow> 32 word" where
  "small_sigma1 x = rotr 17 x XOR rotr 19 x XOR drop_bit 10 x"

definition big_sigma0 :: "32 word \<Rightarrow> 32 word" where
  "big_sigma0 x = rotr 2 x XOR rotr 13 x XOR rotr 22 x"

definition big_sigma1 :: "32 word \<Rightarrow> 32 word" where
  "big_sigma1 x = rotr 6 x XOR rotr 11 x XOR rotr 25 x"

text \<open>The schedule is built newest word first: position \<open>i\<close> holds the word \<open>i + 1\<close> steps back.\<close>

definition next_word :: "32 word list \<Rightarrow> 32 word" where
  "next_word ws = small_sigma1 (ws ! 1) + ws ! 6 + small_sigma0 (ws ! 14) + ws ! 15"

definition schedule :: "32 word list \<Rightarrow> 32 word list" where
  "schedule block = rev (((\<lambda>ws. next_word ws # ws) ^^ 48) (rev block))"

fun compress_round :: "32 word \<times> 32 word \<Rightarrow> 32 word list \<Rightarrow> 32 word list" where
  "compress_round (k, w) [a, b, c, d, e, f, g, h] =
     (let t1 = h + big_sigma1 e + ((e AND f) XOR (NOT e AND g)) + k + w;
          t2 = big_sigma0 a + ((a AND b) XOR (a AND c) XOR (b AND c))
      in [t1 + t2, a, b, c, d + t1, e, f, g])"
| "compress_round _ hs = hs"

definition compress :: "32 word list \<Rightarrow> 32 word list \<Rightarrow> 32 word list" where
  "compress hs block =
     map (\<lambda>p. fst p + snd p) (zip hs (fold compress_round (zip SHA256_K (schedule block)) hs))"

section \<open>The digest\<close>

definition sha256_words :: "string \<Rightarrow> 32 word list" where
  "sha256_words s =
     foldl compress SHA256_H
       (map (\<lambda>block. map word_of_bytes (chunks 4 block)) (chunks 64 (sha256_pad (map of_char s))))"

definition word_hex :: "32 word \<Rightarrow> string" where
  "word_hex w = map (\<lambda>i. hex_digit (unat (drop_bit (4 * i) w AND 15))) [7, 6, 5, 4, 3, 2, 1, 0]"

definition sha256_hex :: "string \<Rightarrow> string" where
  "sha256_hex s = concat (map word_hex (sha256_words s))"

section \<open>The shape of a digest\<close>

lemma length_compress_round: "length hs = 8 \<Longrightarrow> length (compress_round kw hs) = 8"
  by (induction kw hs rule: compress_round.induct) (simp_all add: Let_def)

lemma length_rounds: "length hs = 8 \<Longrightarrow> length (fold compress_round kws hs) = 8"
  by (induction kws arbitrary: hs) (simp_all add: length_compress_round)

lemma length_compress: "length hs = 8 \<Longrightarrow> length (compress hs block) = 8"
  by (simp add: compress_def length_rounds)

lemma length_foldl_compress: "length hs = 8 \<Longrightarrow> length (foldl compress hs blocks) = 8"
  by (induction blocks arbitrary: hs) (simp_all add: length_compress)

lemma length_sha256_words: "length (sha256_words s) = 8"
  unfolding sha256_words_def by (rule length_foldl_compress) (simp add: SHA256_H_def)

lemma hex_digit_hex: "n < 16 \<Longrightarrow> is_hex (hex_digit n)"
proof -
  assume "n < 16"
  then have "n \<in> set [0, 1, 2, 3, 4, 5, 6, 7, 8, 9, 10, 11, 12, 13, 14, 15]"
    unfolding list.set insert_iff empty_iff by presburger
  moreover have "list_all (\<lambda>n. is_hex (hex_digit n)) [0, 1, 2, 3, 4, 5, 6, 7, 8, 9, 10, 11, 12, 13, 14, 15]"
    by code_simp
  ultimately show ?thesis by (simp only: list_all_iff)
qed

lemma nibble_bound: "unat (w AND 15 :: 32 word) < 16"
proof -
  have "w AND 15 \<le> (15 :: 32 word)" by (simp add: word_and_le1)
  then have "unat (w AND 15) \<le> unat (15 :: 32 word)" by (simp only: word_le_nat_alt)
  then show ?thesis by simp
qed

lemma word_hex_hex: "list_all is_hex (word_hex w)"
  unfolding word_hex_def list_all_iff set_map using nibble_bound hex_digit_hex by blast

lemma length_word_hex: "length (word_hex w) = 8"
  by (simp add: word_hex_def)

lemma length_sha256_hex: "length (sha256_hex s) = 64"
proof -
  have "length (sha256_hex s) = sum_list (map (\<lambda>w. 8) (sha256_words s))"
    by (simp add: sha256_hex_def length_concat length_word_hex comp_def)
  also have "\<dots> = 64" by (simp add: sum_list_triv length_sha256_words)
  finally show ?thesis .
qed

lemma sha256_hex_hex: "list_all is_hex (sha256_hex s)"
  using word_hex_hex by (auto simp: sha256_hex_def list_all_iff)

lemma sha256_hex_RE: "SHA256_RE (sha256_hex s)"
  by (simp add: SHA256_RE_def length_sha256_hex sha256_hex_hex at_dollar_def)

end
