(* ===== verification/Cursor.thy ===== *)
theory Cursor
  imports Facts Hashing Complex_Main
begin

text \<open>
  \<open>query/cursor.py\<close>: the server-held cursors of pagination. A cursor is bound to a catalog
  generation, a query, a scope, a capability and an expiry, and resolving it checks every part of
  that binding. Times are rationals, for the floats of \<open>time.time()\<close>; \<open>clock\<close> is what
  \<open>time.time()\<close> returns. Issuing changes the store even when it fails late (the sequence number is
  taken before the operation is validated), so \<open>issue\<close> returns the new store beside its result.
\<close>

definition CAPABILITIES :: "string list" where
  "CAPABILITIES = [''read'', ''verify'', ''reconcile'']"

definition DEFAULT_TTL_SECONDS :: int where "DEFAULT_TTL_SECONDS = 300"
definition MIN_TTL_SECONDS :: int where "MIN_TTL_SECONDS = 1"
definition MAX_TTL_SECONDS :: int where "MAX_TTL_SECONDS = 3600"

section \<open>The query hash\<close>

definition query_items :: "(string, pyval) dict option \<Rightarrow> (string, pyval) dict" where
  "query_items q = (case q of None \<Rightarrow> [] | Some d \<Rightarrow> d)"

definition query_text :: "string \<Rightarrow> (string, pyval) dict option \<Rightarrow> string" where
  "query_text operation query =
     dumps (PDict [(''operation'', PStr operation), (''query'', PDict (query_items query))])"

definition query_hash :: "pyval \<Rightarrow> (string, pyval) dict option \<Rightarrow> string result" where
  "query_hash operation query =
     bind_result (identifier_text operation QueryModelError) (\<lambda>op.
       Inr (sha256_hex (query_text op query)))"

section \<open>Records and the store\<close>

record cursor_record =
  c_cursor_id :: string
  c_catalog_generation_id :: string
  c_query_hash :: string
  c_operation :: string
  c_scope :: "string list"
  c_capability :: string
  c_offset :: int
  c_issued_at :: rat
  c_expires_at :: rat

definition cursor_as_document :: "(rat \<Rightarrow> string) \<Rightarrow> cursor_record \<Rightarrow> (string, pyval) dict" where
  "cursor_as_document float_repr r =
     [(''cursor'', PStr (c_cursor_id r)),
      (''catalog_generation_id'', PStr (c_catalog_generation_id r)),
      (''query_hash'', PStr (c_query_hash r)),
      (''operation'', PStr (c_operation r)),
      (''scope'', PList (map PStr (c_scope r))),
      (''capability'', PStr (c_capability r)),
      (''offset'', PInt (c_offset r)),
      (''issued_at'', PFloat (float_repr (c_issued_at r))),
      (''expires_at'', PFloat (float_repr (c_expires_at r)))]"

definition expired :: "cursor_record \<Rightarrow> rat \<Rightarrow> bool" where
  "expired r now = (now > c_expires_at r)"

record cursor_store =
  records :: "(string, cursor_record) dict"
  sequence :: int

definition empty_store :: cursor_store where
  "empty_store = \<lparr>records = [], sequence = 0\<rparr>"

definition store_length :: "cursor_store \<Rightarrow> nat" where
  "store_length st = length (records st)"

definition scope_ids :: "pyval list \<Rightarrow> string list result" where
  "scope_ids scope =
     bind_result (map_result (\<lambda>pid. identifier_text pid QueryModelError) scope) (\<lambda>pids.
       Inr (sorted_set pids))"

section \<open>Issuing\<close>

text \<open>The arguments that are validated before the store is touched.\<close>

record issue_binding =
  i_generation :: string
  i_capability :: string
  i_scope :: "string list"
  i_offset :: int
  i_ttl :: int

definition issue_binding_of :: "pyval \<Rightarrow> pyval list \<Rightarrow> pyval \<Rightarrow> pyval \<Rightarrow> pyval \<Rightarrow> issue_binding result" where
  "issue_binding_of catalog_generation_id scope capability offset ttl_seconds =
     bind_result (sha256_text catalog_generation_id QueryModelError) (\<lambda>generation.
     bind_result (choice capability CAPABILITIES (Some ''read'')) (\<lambda>chosen_capability.
     bind_result (scope_ids scope) (\<lambda>chosen_scope.
     bind_result (bounded_int offset 0 1000000 (Some 0)) (\<lambda>chosen_offset.
     bind_result (bounded_int ttl_seconds MIN_TTL_SECONDS MAX_TTL_SECONDS (Some DEFAULT_TTL_SECONDS))
       (\<lambda>ttl.
     Inr \<lparr>i_generation = generation, i_capability = chosen_capability, i_scope = chosen_scope,
          i_offset = chosen_offset, i_ttl = ttl\<rparr>)))))"

definition token_source :: "issue_binding \<Rightarrow> string \<Rightarrow> (string, pyval) dict option \<Rightarrow> int \<Rightarrow> string" where
  "token_source b operation query n =
     dumps (PDict
       [(''generation'', PStr (i_generation b)),
        (''operation'', PStr operation),
        (''query'', PDict (query_items query)),
        (''scope'', PList (map PStr (i_scope b))),
        (''capability'', PStr (i_capability b)),
        (''offset'', PInt (i_offset b)),
        (''sequence'', PInt n)])"

definition issue ::
    "rat \<Rightarrow> cursor_store \<Rightarrow> pyval \<Rightarrow> pyval \<Rightarrow> (string, pyval) dict option \<Rightarrow> pyval list \<Rightarrow> pyval
       \<Rightarrow> pyval \<Rightarrow> pyval \<Rightarrow> rat option \<Rightarrow> cursor_store \<times> cursor_record result" where
  "issue clock st catalog_generation_id operation query scope capability offset ttl_seconds now =
     (case issue_binding_of catalog_generation_id scope capability offset ttl_seconds of
        Inl e \<Rightarrow> (st, Inl e)
      | Inr b \<Rightarrow>
          (let issued_at = (case now of None \<Rightarrow> clock | Some t \<Rightarrow> t);
               n = sequence st + 1;
               st' = st\<lparr>sequence := n\<rparr>
           in case identifier_text operation QueryModelError of
                Inl e \<Rightarrow> (st', Inl e)
              | Inr op \<Rightarrow>
                  (let cursor_id = sha256_hex (token_source b op query n);
                       r = \<lparr>c_cursor_id = cursor_id, c_catalog_generation_id = i_generation b,
                            c_query_hash = sha256_hex (query_text op query), c_operation = op,
                            c_scope = i_scope b, c_capability = i_capability b,
                            c_offset = i_offset b, c_issued_at = issued_at,
                            c_expires_at = issued_at + of_int (i_ttl b)\<rparr>
                   in (st'\<lparr>records := dict_set cursor_id r (records st')\<rparr>, Inr r))))"

section \<open>Resolving\<close>

definition resolve_cursor ::
    "rat \<Rightarrow> cursor_store \<Rightarrow> pyval \<Rightarrow> pyval \<Rightarrow> pyval \<Rightarrow> (string, pyval) dict option \<Rightarrow> pyval list
       \<Rightarrow> pyval \<Rightarrow> rat option \<Rightarrow> cursor_record result" where
  "resolve_cursor clock st cursor_id catalog_generation_id operation query scope capability now =
     bind_result (sha256_text cursor_id QueryModelError) (\<lambda>token.
     case dict_get (records st) token of
       None \<Rightarrow> Inl (CursorError ''unknown'')
     | Some r \<Rightarrow>
         (let moment = (case now of None \<Rightarrow> clock | Some t \<Rightarrow> t) in
          if expired r moment then Inl (CursorError ''expired'')
          else
          bind_result (sha256_text catalog_generation_id QueryModelError) (\<lambda>generation.
          if generation \<noteq> c_catalog_generation_id r then Inl (CursorError ''generation'')
          else
          bind_result (scope_ids scope) (\<lambda>expected_scope.
          if expected_scope \<noteq> c_scope r then Inl (CursorError ''scope'')
          else
          bind_result (query_hash operation query) (\<lambda>h.
          if h \<noteq> c_query_hash r then Inl (CursorError ''query'')
          else
          bind_result (choice capability CAPABILITIES (Some ''read'')) (\<lambda>chosen_capability.
          if chosen_capability \<noteq> c_capability r then Inl (CursorError ''capability'')
          else Inr r))))))"

section \<open>The binding a request presents\<close>

text \<open>The specification of a use: every field of the binding is the one the record holds.\<close>

definition same_binding ::
    "cursor_record \<Rightarrow> pyval \<Rightarrow> pyval \<Rightarrow> (string, pyval) dict option \<Rightarrow> pyval list \<Rightarrow> pyval \<Rightarrow> bool" where
  "same_binding r generation operation query scope capability =
     (generation = PStr (c_catalog_generation_id r) \<and> SHA256_RE (c_catalog_generation_id r)
      \<and> scope_ids scope = Inr (c_scope r)
      \<and> query_hash operation query = Inr (c_query_hash r)
      \<and> choice capability CAPABILITIES (Some ''read'') = Inr (c_capability r))"

lemma issue_binding_of_Inr:
  "issue_binding_of g sc cp off ttl = Inr b \<longleftrightarrow>
     g = PStr (i_generation b) \<and> SHA256_RE (i_generation b)
     \<and> choice cp CAPABILITIES (Some ''read'') = Inr (i_capability b)
     \<and> scope_ids sc = Inr (i_scope b)
     \<and> bounded_int off 0 1000000 (Some 0) = Inr (i_offset b)
     \<and> bounded_int ttl MIN_TTL_SECONDS MAX_TTL_SECONDS (Some DEFAULT_TTL_SECONDS) = Inr (i_ttl b)"
  by (cases b) (auto simp: issue_binding_of_def bind_result_eq_Inr sha256_text_Inr)

lemma issue_Inr:
  assumes "issue clock st g op q sc cp off ttl now = (st', Inr r)"
  obtains b oper where "issue_binding_of g sc cp off ttl = Inr b"
    and "op = PStr oper" and "IDENTIFIER_RE oper"
    and "c_cursor_id r = sha256_hex (token_source b oper q (sequence st + 1))"
    and "c_catalog_generation_id r = i_generation b"
    and "c_query_hash r = sha256_hex (query_text oper q)" and "c_operation r = oper"
    and "c_scope r = i_scope b" and "c_capability r = i_capability b" and "c_offset r = i_offset b"
    and "c_expires_at r = c_issued_at r + of_int (i_ttl b)"
    and "c_issued_at r = (case now of None \<Rightarrow> clock | Some t \<Rightarrow> t)"
    and "st' = \<lparr>records = dict_set (c_cursor_id r) r (records st), sequence = sequence st + 1\<rparr>"
proof -
  from assms obtain b where b: "issue_binding_of g sc cp off ttl = Inr b"
    by (cases "issue_binding_of g sc cp off ttl") (auto simp: issue_def)
  with assms obtain oper where "identifier_text op QueryModelError = Inr oper"
    by (cases "identifier_text op QueryModelError") (auto simp: issue_def Let_def)
  with assms b show thesis
    by (intro that [OF b, of oper]) (auto simp: issue_def Let_def identifier_text_Inr)
qed

lemma resolve_cursor_Inr:
  "resolve_cursor clock st cid g op q sc cp now = Inr r \<longleftrightarrow>
     (\<exists>token. cid = PStr token \<and> SHA256_RE token \<and> dict_get (records st) token = Some r
        \<and> (case now of None \<Rightarrow> clock | Some t \<Rightarrow> t) \<le> c_expires_at r
        \<and> same_binding r g op q sc cp)"
  by (auto simp: resolve_cursor_def bind_result_eq_Inr sha256_text_Inr expired_def same_binding_def Let_def
      split: option.split_asm option.split if_splits)

section \<open>The reachable stores\<close>

inductive cursor_step :: "cursor_store \<Rightarrow> cursor_store \<Rightarrow> bool" where
  issued: "issue clock st g op q sc cp off ttl now = (st', res) \<Longrightarrow> cursor_step st st'"

inductive reachable_store :: "cursor_store \<Rightarrow> bool" where
  start: "reachable_store empty_store"
| step: "reachable_store st \<Longrightarrow> cursor_step st st' \<Longrightarrow> reachable_store st'"

inductive_cases cursor_stepE: "cursor_step st st'"

definition valid_cursor :: "cursor_record \<Rightarrow> bool" where
  "valid_cursor r =
     (SHA256_RE (c_cursor_id r) \<and> SHA256_RE (c_catalog_generation_id r) \<and> SHA256_RE (c_query_hash r)
      \<and> IDENTIFIER_RE (c_operation r) \<and> c_capability r \<in> set CAPABILITIES
      \<and> sorted (c_scope r) \<and> distinct (c_scope r) \<and> list_all IDENTIFIER_RE (c_scope r)
      \<and> 0 \<le> c_offset r \<and> c_offset r \<le> 1000000
      \<and> c_issued_at r + 1 \<le> c_expires_at r \<and> c_expires_at r \<le> c_issued_at r + 3600)"

lemma scope_ids_valid:
  "scope_ids sc = Inr pids \<Longrightarrow> sorted pids \<and> distinct pids \<and> list_all IDENTIFIER_RE pids"
  by (auto simp: scope_ids_def bind_result_eq_Inr list_all_iff identifier_text_Inr dest: map_result_set)

lemma issue_valid:
  assumes "issue clock st g op q sc cp off ttl now = (st', Inr r)"
  shows "valid_cursor r"
  using assms
proof (rule issue_Inr, goal_cases)
  case (1 b oper)
  then have b: "g = PStr (i_generation b)" "SHA256_RE (i_generation b)"
     "choice cp CAPABILITIES (Some ''read'') = Inr (i_capability b)"
     "scope_ids sc = Inr (i_scope b)"
     "bounded_int off 0 1000000 (Some 0) = Inr (i_offset b)"
     "bounded_int ttl MIN_TTL_SECONDS MAX_TTL_SECONDS (Some DEFAULT_TTL_SECONDS) = Inr (i_ttl b)"
    by (simp_all add: issue_binding_of_Inr)
  have "i_capability b \<in> set CAPABILITIES"
    by (rule choice_member [OF b(3)]) (simp add: CAPABILITIES_def)
  moreover have "0 \<le> i_offset b \<and> i_offset b \<le> 1000000"
    by (rule bounded_int_range [OF b(5)]) simp_all
  moreover have "1 \<le> i_ttl b \<and> i_ttl b \<le> 3600"
    using bounded_int_range [OF b(6)]
    by (simp add: MIN_TTL_SECONDS_def MAX_TTL_SECONDS_def DEFAULT_TTL_SECONDS_def)
  moreover from this have "(1 :: rat) \<le> of_int (i_ttl b) \<and> of_int (i_ttl b) \<le> (3600 :: rat)"
    by (metis of_int_1_le_iff of_int_le_numeral_iff)
  ultimately show ?case
    using 1 b scope_ids_valid [OF b(4)] sha256_hex_RE by (simp add: valid_cursor_def)
qed

definition store_ok :: "cursor_store \<Rightarrow> bool" where
  "store_ok st =
     (distinct (dict_keys (records st)) \<and> int (length (records st)) \<le> sequence st
      \<and> (\<forall>(token, r) \<in> set (records st). c_cursor_id r = token \<and> valid_cursor r))"

lemma dict_set_length: "length (dict_set k v d) \<le> Suc (length d)"
  by (induction d) auto

lemma issue_failed:
  assumes "issue clock st g op q sc cp off ttl now = (st', Inl e)"
  shows "records st' = records st \<and> (sequence st' = sequence st \<or> sequence st' = sequence st + 1)"
  using assms by (auto simp: issue_def Let_def split: sum.splits)

lemma issue_store_ok:
  assumes "issue clock st g op q sc cp off ttl now = (st', res)" and "store_ok st"
  shows "store_ok st'"
proof (cases res)
  case (Inl e)
  with assms issue_failed [of clock st g op q sc cp off ttl now st' e]
  have "records st' = records st" "sequence st \<le> sequence st'" by auto
  with assms(2) show ?thesis unfolding store_ok_def by simp
next
  case (Inr r)
  with assms have ok: "issue clock st g op q sc cp off ttl now = (st', Inr r)" by simp
  then have st': "st' = \<lparr>records = dict_set (c_cursor_id r) r (records st), sequence = sequence st + 1\<rparr>"
    by (rule issue_Inr)
  have "\<forall>(token, x) \<in> set (records st'). c_cursor_id x = token \<and> valid_cursor x"
  proof clarify
    fix token x assume "(token, x) \<in> set (records st')"
    then have "(token, x) \<in> insert (c_cursor_id r, r) (set (records st))"
      using dict_set_members [of "c_cursor_id r" r "records st"] by (auto simp: st')
    then show "c_cursor_id x = token \<and> valid_cursor x"
      using issue_valid [OF ok] assms(2) by (auto simp: store_ok_def)
  qed
  moreover have "int (length (records st')) \<le> sequence st'"
    using dict_set_length [of "c_cursor_id r" r "records st"] assms(2) by (simp add: st' store_ok_def)
  ultimately show ?thesis
    using assms(2) by (simp add: st' store_ok_def distinct_update)
qed

lemma reachable_store_ok: "reachable_store st \<Longrightarrow> store_ok st"
proof (induction rule: reachable_store.induct)
  case start
  show ?case by (simp add: store_ok_def empty_store_def)
next
  case (step st st')
  from step.hyps(2) show ?case by (rule cursor_stepE) (rule issue_store_ok, assumption, rule step.IH)
qed

section \<open>An example\<close>

definition ex_generation :: string where
  "ex_generation = replicate 64 CHR ''a''"

definition ex_binding :: issue_binding where
  "ex_binding = \<lparr>i_generation = ex_generation, i_capability = ''read'', i_scope = [''api'', ''web''],
     i_offset = 50, i_ttl = 300\<rparr>"

definition ex_cursor :: cursor_record where
  "ex_cursor =
     \<lparr>c_cursor_id = sha256_hex (token_source ex_binding ''callers'' None 1),
      c_catalog_generation_id = ex_generation, c_query_hash = sha256_hex (query_text ''callers'' None),
      c_operation = ''callers'', c_scope = [''api'', ''web''], c_capability = ''read'', c_offset = 50,
      c_issued_at = 10, c_expires_at = 310\<rparr>"

definition ex_store :: cursor_store where
  "ex_store = \<lparr>records = [(c_cursor_id ex_cursor, ex_cursor)], sequence = 1\<rparr>"

lemma ex_issue:
  "issue clock empty_store (PStr ex_generation) (PStr ''callers'') None [PStr ''web'', PStr ''api'']
     PNone (PInt 50) PNone (Some 10) = (ex_store, Inr ex_cursor)"
proof -
  have "issue_binding_of (PStr ex_generation) [PStr ''web'', PStr ''api''] PNone (PInt 50) PNone
      = Inr ex_binding" by code_simp
  moreover have "identifier_text (PStr ''callers'') QueryModelError = Inr ''callers''" by code_simp
  ultimately show ?thesis
    by (simp add: issue_def Let_def empty_store_def ex_store_def ex_cursor_def ex_binding_def)
qed

lemma ex_store_reachable: "reachable_store ex_store"
  by (rule reachable_store.step [OF reachable_store.start]) (rule cursor_step.issued, rule ex_issue)

section \<open>The properties of cursors\<close>

text \<open>
  C33. A cursor is accepted exactly when the store holds it, it has not expired, and the request
  presents the generation, scope, operation, parameters and capability it was issued for.
\<close>

theorem cursor_accepted_iff:
  "resolve_cursor clock st cid g op q sc cp now = Inr r \<longleftrightarrow>
     (\<exists>token. cid = PStr token \<and> SHA256_RE token \<and> dict_get (records st) token = Some r
        \<and> (case now of None \<Rightarrow> clock | Some t \<Rightarrow> t) \<le> c_expires_at r
        \<and> same_binding r g op q sc cp)"
  by (rule resolve_cursor_Inr)

text \<open>
  A cursor that was issued resolves to itself for the same request, any number of seconds later
  up to its expiry, and its life is between one second and one hour.
\<close>

theorem cursor_issue_resolves:
  assumes "issue clock st g op q sc cp off ttl now = (st', Inr r)" and "t \<le> c_expires_at r"
  shows "resolve_cursor clock' st' (PStr (c_cursor_id r)) g op q sc cp (Some t) = Inr r
       \<and> c_issued_at r + 1 \<le> c_expires_at r \<and> c_expires_at r \<le> c_issued_at r + 3600"
  using assms(1)
proof (rule issue_Inr, goal_cases)
  case (1 b oper)
  then have "same_binding r g op q sc cp"
    by (simp add: same_binding_def issue_binding_of_Inr query_hash_def identifier_text_Inr
        bind_result_eq_Inr)
  with 1 assms issue_valid [OF assms(1)] sha256_hex_RE show ?case
    by (simp add: resolve_cursor_Inr update_conv' valid_cursor_def)
qed

theorem cursor_issue_resolves_witness:
  "resolve_cursor 0 ex_store (PStr (c_cursor_id ex_cursor)) (PStr ex_generation) (PStr ''callers'') None
     [PStr ''web'', PStr ''api''] PNone (Some 310) = Inr ex_cursor"
  using cursor_issue_resolves [OF ex_issue, of 310] by (simp add: ex_cursor_def)

text \<open>
  A cursor that differs from its request is refused with the first part that differs, in the
  order generation, scope, query, capability; nothing else is refused before its expiry.
\<close>

theorem cursor_refused_with_reason:
  assumes "dict_get (records st) token = Some r" and "SHA256_RE token" and "SHA256_RE generation"
    and "scope_ids sc = Inr scope" and "query_hash op q = Inr h"
    and "choice cp CAPABILITIES (Some ''read'') = Inr capability"
  shows "resolve_cursor clock st (PStr token) (PStr generation) op q sc cp (Some t) =
     (if c_expires_at r < t then Inl (CursorError ''expired'')
      else if generation \<noteq> c_catalog_generation_id r then Inl (CursorError ''generation'')
      else if scope \<noteq> c_scope r then Inl (CursorError ''scope'')
      else if h \<noteq> c_query_hash r then Inl (CursorError ''query'')
      else if capability \<noteq> c_capability r then Inl (CursorError ''capability'')
      else Inr r)"
  using assms by (simp add: resolve_cursor_def sha256_text_def expired_def Let_def)

theorem cursor_refused_with_reason_witness:
  "resolve_cursor 0 ex_store (PStr (c_cursor_id ex_cursor)) (PStr ex_generation) (PStr ''callers'') None
     [PStr ''api''] PNone (Some 20) = Inl (CursorError ''scope'')"
proof -
  have scope: "scope_ids [PStr ''api''] = Inr [''api'']" by code_simp
  have "identifier_text (PStr ''callers'') QueryModelError = Inr ''callers''" by code_simp
  then have h: "query_hash (PStr ''callers'') None = Inr (sha256_hex (query_text ''callers'' None))"
    by (simp add: query_hash_def)
  have cap: "choice PNone CAPABILITIES (Some ''read'') = Inr ''read''" by code_simp
  have gen: "SHA256_RE ex_generation" by code_simp
  have stored: "dict_get (records ex_store) (c_cursor_id ex_cursor) = Some ex_cursor"
    by (simp add: ex_store_def)
  have token: "SHA256_RE (c_cursor_id ex_cursor)" by (simp add: ex_cursor_def sha256_hex_RE)
  show ?thesis
    by (subst cursor_refused_with_reason [OF stored token gen scope h cap]) (simp add: ex_cursor_def)
qed

text \<open>
  Every store that issuing can reach holds each cursor once, under its own identity, with a
  digest for its generation, query and identity, a valid operation, capability, scope and offset
  and a life within the limits; and it never holds more cursors than it has issued.
\<close>

theorem cursor_store_invariant:
  assumes "reachable_store st"
  shows "distinct (dict_keys (records st)) \<and> int (store_length st) \<le> sequence st
       \<and> (\<forall>(token, r) \<in> set (records st). c_cursor_id r = token \<and> valid_cursor r)"
  using reachable_store_ok [OF assms] by (simp add: store_ok_def store_length_def)

theorem cursor_store_invariant_witness:
  "valid_cursor ex_cursor \<and> int (store_length ex_store) \<le> 1"
  using cursor_store_invariant [OF ex_store_reachable] by (simp add: ex_store_def)

end
