(* ===== verification/Envelope.thy ===== *)
theory Envelope
  imports Projection Examples Hashing
begin

text \<open>
  \<open>query/envelope.py\<close>: the response envelope. Freshness and coverage are resolved independently and
  neither is ever flattered: a fresh claim needs an \<open>inventory_hash\<close> verification, and coverage is
  the most limiting pinned member. A warning of the module is kept as its tag and texts, and \<open>say\<close> is
  the wording the f-strings give it.
\<close>

definition SCHEMA_VERSION :: int where "SCHEMA_VERSION = 1"

definition FRESHNESS :: "string list" where
  "FRESHNESS = [''fresh'', ''stale'', ''updating'', ''unknown'', ''invalid'']"

definition COVERAGE :: "string list" where
  "COVERAGE = [''complete_for_profile'', ''partial'', ''unsupported'']"

definition COVERAGE_SEVERITY :: "string list" where
  "COVERAGE_SEVERITY = [''complete_for_profile'', ''partial'', ''unsupported'']"

definition VERIFICATION_MODES :: "string list" where
  "VERIFICATION_MODES = [''inventory_hash'', ''watcher_hint'', ''none'']"

definition FRESHNESS_UNKNOWN :: string where "FRESHNESS_UNKNOWN = ''unknown''"
definition FRESHNESS_FRESH :: string where "FRESHNESS_FRESH = ''fresh''"
definition COVERAGE_PARTIAL :: string where "COVERAGE_PARTIAL = ''partial''"
definition VERIFICATION_NONE :: string where "VERIFICATION_NONE = ''none''"
definition VERIFICATION_INVENTORY :: string where "VERIFICATION_INVENTORY = ''inventory_hash''"

definition ENVELOPE_KEYS :: "string list" where
  "ENVELOPE_KEYS = [''schema_version'', ''solution_id'', ''catalog_generation_id'',
     ''project_generations'', ''freshness'', ''coverage'', ''verification'', ''nodes'', ''edges'',
     ''truncated'', ''next_cursor'', ''warnings'']"

definition fingerprint :: "pyval \<Rightarrow> string result" where
  "fingerprint v = sha256_text v EnvelopeInvalid"

section \<open>Verification\<close>

record verification =
  v_mode :: string
  v_verified_at :: "string option"
  v_source_fingerprint :: "string option"

definition make_verification :: "pyval \<Rightarrow> pyval \<Rightarrow> pyval \<Rightarrow> verification result" where
  "make_verification mode_v verified_at_v source_fingerprint_v =
     bind_result (in_tuple mode_v VERIFICATION_MODES EnvelopeInvalid) (\<lambda>mode.
     bind_result (optional_text verified_at_v (\<lambda>v. text_value v EnvelopeInvalid)) (\<lambda>verified_at.
     bind_result (optional_text source_fingerprint_v fingerprint) (\<lambda>source_fingerprint.
     bind_result (guard_result
       (if mode = VERIFICATION_NONE then verified_at = None \<and> source_fingerprint = None
        else if mode = VERIFICATION_INVENTORY then source_fingerprint \<noteq> None
        else verified_at \<noteq> None) EnvelopeInvalid) (\<lambda>_.
       Inr \<lparr>v_mode = mode, v_verified_at = verified_at, v_source_fingerprint = source_fingerprint\<rparr>))))"

definition no_verification :: verification where
  "no_verification =
     \<lparr>v_mode = VERIFICATION_NONE, v_verified_at = None, v_source_fingerprint = None\<rparr>"

definition verification_as_document :: "verification \<Rightarrow> (string, pyval) dict" where
  "verification_as_document v =
     [(''mode'', PStr (v_mode v))]
     @ (case v_verified_at v of None \<Rightarrow> [] | Some t \<Rightarrow> [(''verified_at'', PStr t)])
     @ (case v_source_fingerprint v of None \<Rightarrow> [] | Some t \<Rightarrow> [(''source_fingerprint'', PStr t)])"

section \<open>Freshness and coverage\<close>

definition resolve_freshness :: "pyval \<Rightarrow> verification \<Rightarrow> string \<times> warning list" where
  "resolve_freshness reported v =
     (case reported of
        PNone \<Rightarrow> (FRESHNESS_UNKNOWN, [Warning ''freshness_not_reported'' [] []])
      | PStr s \<Rightarrow>
          if s \<notin> set FRESHNESS then (FRESHNESS_UNKNOWN, [Warning ''freshness_unrecognised'' [s] []])
          else if s = FRESHNESS_FRESH \<and> v_mode v \<noteq> VERIFICATION_INVENTORY
          then (FRESHNESS_UNKNOWN, [Warning ''freshness_unverified'' [v_mode v] []])
          else (s, [])
      | _ \<Rightarrow> (FRESHNESS_UNKNOWN, [Warning ''freshness_unrecognised'' [dumps reported] []]))"

text \<open>\<open>COVERAGE_SEVERITY.index(status)\<close>, for a status of the allowlist.\<close>

definition severity :: "string \<Rightarrow> nat" where
  "severity status = length (takeWhile (\<lambda>s. s \<noteq> status) COVERAGE_SEVERITY)"

definition worst_member :: "nat \<Rightarrow> graph \<Rightarrow> nat result" where
  "worst_member worst g =
     (if g_coverage g = None \<or> g_coverage g = Some [] \<or> coverage_status g \<notin> set COVERAGE
      then Inl EnvelopeInvalid
      else Inr (max worst (severity (coverage_status g))))"

definition aggregate_coverage :: "scope \<Rightarrow> (string \<times> warning list) result" where
  "aggregate_coverage scope =
     bind_result (as_graph_set scope) (\<lambda>graphs.
     bind_result (fold_result worst_member 0 (gs_graphs graphs)) (\<lambda>worst.
       Inr (if gs_missing graphs \<noteq> [] then
              (COVERAGE_SEVERITY ! max worst (severity COVERAGE_PARTIAL),
               [Warning ''coverage_partial'' (gs_missing graphs) []])
            else
              (COVERAGE_SEVERITY ! worst,
               if project_ids graphs = [] then [Warning ''empty_scope'' [] []] else []))))"

section \<open>The envelope\<close>

definition catalog_text :: "graph_set \<Rightarrow> string" where
  "catalog_text graphs =
     dumps (PDict
       [(''schema_version'', PInt SCHEMA_VERSION),
        (''generations'', PList (map (\<lambda>p. PList [PStr (fst p), PStr (snd p)]) (generations graphs)))])"

definition catalog_generation_id :: "scope \<Rightarrow> string result" where
  "catalog_generation_id scope =
     bind_result (as_graph_set scope) (\<lambda>graphs. Inr (sha256_hex (catalog_text graphs)))"

definition envelope_items :: "pyval list \<Rightarrow> pyval list result" where
  "envelope_items values =
     map_result (\<lambda>v. bind_result (mapping_value v EnvelopeInvalid) (\<lambda>d. Inr (PDict d))) values"

definition envelope_warnings :: "pyval list \<Rightarrow> string list result" where
  "envelope_warnings values = map_result (\<lambda>v. text_value v EnvelopeInvalid) values"

definition build_envelope ::
    "(warning \<Rightarrow> string) \<Rightarrow> pyval \<Rightarrow> scope \<Rightarrow> pyval \<Rightarrow> verification option \<Rightarrow> pyval list \<Rightarrow> pyval list
       \<Rightarrow> pyval \<Rightarrow> pyval \<Rightarrow> pyval list \<Rightarrow> (string, pyval) dict result" where
  "build_envelope say solution_id scope freshness verified nodes edges truncated next_cursor warnings =
     bind_result (as_graph_set scope) (\<lambda>graphs.
     bind_result (identifier_text solution_id EnvelopeInvalid) (\<lambda>solution.
     let proof_of = (case verified of None \<Rightarrow> no_verification | Some v \<Rightarrow> v);
         (status, freshness_warnings) = resolve_freshness freshness proof_of
     in
     bind_result (aggregate_coverage (ScopeSet graphs)) (\<lambda>(coverage, coverage_warnings).
     bind_result (catalog_generation_id (ScopeSet graphs)) (\<lambda>catalog.
     bind_result (envelope_items nodes) (\<lambda>ns.
     bind_result (envelope_items edges) (\<lambda>es.
     bind_result (envelope_warnings
       (warnings @ map (\<lambda>w. PStr (say w)) (freshness_warnings @ coverage_warnings))) (\<lambda>texts.
     let document =
       [(''schema_version'', PInt SCHEMA_VERSION),
        (''solution_id'', PStr solution),
        (''catalog_generation_id'', PStr catalog),
        (''project_generations'',
           PList (map (\<lambda>p. PDict [(''project_id'', PStr (fst p)), (''generation_id'', PStr (snd p))])
                      (generations graphs))),
        (''freshness'', PStr status),
        (''coverage'', PStr coverage),
        (''verification'', PDict (verification_as_document proof_of)),
        (''nodes'', PList ns),
        (''edges'', PList es),
        (''truncated'', PBool (truthy truncated)),
        (''warnings'', PList (map PStr texts))]
     in
     bind_result (optional_text next_cursor (\<lambda>v. text_value v EnvelopeInvalid)) (\<lambda>cursor.
       Inr (document @ (case cursor of None \<Rightarrow> [] | Some c \<Rightarrow> [(''next_cursor'', PStr c)]))))))))))"

section \<open>What an envelope holds\<close>

definition project_generations_value :: "graph_set \<Rightarrow> pyval" where
  "project_generations_value gs =
     PList (map (\<lambda>p. PDict [(''project_id'', PStr (fst p)), (''generation_id'', PStr (snd p))])
       (generations gs))"

lemma build_envelope_Inr:
  assumes "build_envelope say sol scope fr ver ns es tr cur ws = Inr d"
  obtains gs solution coverage cws nodes edges texts cursor where "as_graph_set scope = Inr gs"
    and "sol = PStr solution" and "IDENTIFIER_RE solution"
    and "aggregate_coverage (ScopeSet gs) = Inr (coverage, cws)"
    and "envelope_items ns = Inr nodes" and "envelope_items es = Inr edges"
    and "d = [(''schema_version'', PInt SCHEMA_VERSION), (''solution_id'', PStr solution),
        (''catalog_generation_id'', PStr (sha256_hex (catalog_text gs))),
        (''project_generations'', project_generations_value gs),
        (''freshness'', PStr (fst (resolve_freshness fr (case ver of None \<Rightarrow> no_verification | Some v \<Rightarrow> v)))),
        (''coverage'', PStr coverage),
        (''verification'', PDict (verification_as_document (case ver of None \<Rightarrow> no_verification | Some v \<Rightarrow> v))),
        (''nodes'', PList nodes), (''edges'', PList edges), (''truncated'', PBool (truthy tr)),
        (''warnings'', PList (map PStr texts))]
        @ (case cursor of None \<Rightarrow> [] | Some c \<Rightarrow> [(''next_cursor'', PStr c)])"
proof -
  let ?v = "case ver of None \<Rightarrow> no_verification | Some v \<Rightarrow> v"
  obtain status fws where f: "resolve_freshness fr ?v = (status, fws)" by force
  from assms show thesis
    unfolding build_envelope_def
    by (clarsimp simp: bind_result_eq_Inr identifier_text_Inr f Let_def catalog_generation_id_def
        project_generations_value_def [symmetric])
      (rule that, (assumption | rule refl | simp add: f)+)
qed

lemma severity_index: "s \<in> set COVERAGE \<Longrightarrow> severity s < 3 \<and> COVERAGE_SEVERITY ! severity s = s"
  by (auto simp: severity_def COVERAGE_def COVERAGE_SEVERITY_def)

lemma worst_members:
  "fold_result worst_member w graphs = Inr worst \<Longrightarrow> w < 3 \<Longrightarrow>
     worst < 3 \<and> w \<le> worst
     \<and> (\<forall>g \<in> set graphs. coverage_status g \<in> set COVERAGE \<and> severity (coverage_status g) \<le> worst)
     \<and> (worst = w \<or> (\<exists>g \<in> set graphs. severity (coverage_status g) = worst))"
proof (induction graphs arbitrary: w)
  case (Cons g graphs)
  then obtain v where v: "worst_member w g = Inr v" "fold_result worst_member v graphs = Inr worst"
    by (auto simp: bind_result_eq_Inr)
  then have g: "coverage_status g \<in> set COVERAGE" "v = max w (severity (coverage_status g))"
    by (auto simp: worst_member_def split: if_splits)
  with severity_index Cons.prems(2) have "v < 3" by simp
  from Cons.IH [OF v(2) this] g show ?case by (auto simp: max_def split: if_splits)
qed simp

definition most_limiting :: "graph_set \<Rightarrow> string" where
  "most_limiting gs =
     (if \<exists>g \<in> set (gs_graphs gs). coverage_status g = ''unsupported'' then ''unsupported''
      else if gs_missing gs \<noteq> [] \<or> (\<exists>g \<in> set (gs_graphs gs). coverage_status g = ''partial'')
      then ''partial'' else ''complete_for_profile'')"

lemma COVERAGE_cases:
  "s \<in> set COVERAGE \<longleftrightarrow> s = ''complete_for_profile'' \<or> s = ''partial'' \<or> s = ''unsupported''"
  by (simp add: COVERAGE_def)

lemma severity_values:
  "severity ''complete_for_profile'' = 0" "severity ''partial'' = 1" "severity ''unsupported'' = 2"
  "severity COVERAGE_PARTIAL = 1"
  by (simp_all add: severity_def COVERAGE_SEVERITY_def COVERAGE_PARTIAL_def)

lemma severity_names:
  "COVERAGE_SEVERITY ! 0 = ''complete_for_profile''" "COVERAGE_SEVERITY ! Suc 0 = ''partial''"
  "COVERAGE_SEVERITY ! 2 = ''unsupported''" "COVERAGE_SEVERITY ! Suc (Suc 0) = ''unsupported''"
  by (simp_all add: COVERAGE_SEVERITY_def)

lemma severity_inject:
  assumes "s \<in> set COVERAGE"
  shows "severity s = 0 \<longleftrightarrow> s = ''complete_for_profile''" and "severity s = Suc 0 \<longleftrightarrow> s = ''partial''"
    and "severity s = 2 \<longleftrightarrow> s = ''unsupported''"
  using assms by (auto simp: COVERAGE_cases severity_values)

lemma aggregate_coverage_Inr:
  assumes "aggregate_coverage (ScopeSet gs) = Inr (c, ws)"
  shows "(\<forall>g \<in> set (gs_graphs gs). coverage_status g \<in> set COVERAGE) \<and> c = most_limiting gs"
proof -
  obtain worst where worst: "fold_result worst_member 0 (gs_graphs gs) = Inr worst"
    and c: "c = (if gs_missing gs \<noteq> [] then COVERAGE_SEVERITY ! max worst (severity COVERAGE_PARTIAL)
             else COVERAGE_SEVERITY ! worst)"
    using assms by (auto simp: aggregate_coverage_def bind_result_eq_Inr split: if_splits)
  have w: "worst < 3" "\<forall>g \<in> set (gs_graphs gs). coverage_status g \<in> set COVERAGE
      \<and> severity (coverage_status g) \<le> worst"
    "worst = 0 \<or> (\<exists>g \<in> set (gs_graphs gs). severity (coverage_status g) = worst)"
    using worst_members [OF worst] by simp_all
  from w(1) consider "worst = 0" | "worst = Suc 0" | "worst = 2" by linarith
  then have "c = most_limiting gs"
  proof cases
    case 1
    then have "coverage_status g = ''complete_for_profile''" if "g \<in> set (gs_graphs gs)" for g
      using w(2) that severity_inject by fastforce
    then show ?thesis using 1 by (auto simp: c most_limiting_def severity_values severity_names)
  next
    case 2
    then obtain g where "g \<in> set (gs_graphs gs)" "coverage_status g = ''partial''"
      using w(2,3) severity_inject by fastforce
    moreover have "coverage_status h \<noteq> ''unsupported''" if "h \<in> set (gs_graphs gs)" for h
      using w(2) that 2 severity_values(3) by force
    ultimately show ?thesis using 2 by (auto simp: c most_limiting_def severity_values severity_names)
  next
    case 3
    then obtain g where "g \<in> set (gs_graphs gs)" "coverage_status g = ''unsupported''"
      using w(2,3) severity_inject by fastforce
    then show ?thesis using 3 by (auto simp: c most_limiting_def severity_values severity_names)
  qed
  with w(2) show ?thesis by simp
qed

lemma resolve_freshness_allowed: "fst (resolve_freshness fr v) \<in> set FRESHNESS"
  by (auto simp: resolve_freshness_def FRESHNESS_UNKNOWN_def FRESHNESS_def split: pyval.split)

lemma resolve_freshness_fresh:
  "fst (resolve_freshness fr v) = FRESHNESS_FRESH \<longleftrightarrow>
     fr = PStr FRESHNESS_FRESH \<and> v_mode v = VERIFICATION_INVENTORY"
  by (auto simp: resolve_freshness_def FRESHNESS_UNKNOWN_def FRESHNESS_FRESH_def FRESHNESS_def
      split: pyval.splits if_splits)

text \<open>What \<open>Verification.__post_init__\<close> lets through.\<close>

definition verification_ok :: "verification \<Rightarrow> bool" where
  "verification_ok v =
     (v_mode v \<in> set VERIFICATION_MODES
      \<and> (v_mode v = VERIFICATION_NONE \<longrightarrow> v_verified_at v = None \<and> v_source_fingerprint v = None)
      \<and> (v_mode v = VERIFICATION_INVENTORY \<longrightarrow> v_source_fingerprint v \<noteq> None)
      \<and> (v_mode v = ''watcher_hint'' \<longrightarrow> v_verified_at v \<noteq> None)
      \<and> (\<forall>t. v_source_fingerprint v = Some t \<longrightarrow> SHA256_RE t)
      \<and> (\<forall>t. v_verified_at v = Some t \<longrightarrow> t \<noteq> []))"

lemma make_verification_ok: "make_verification m at fp = Inr v \<Longrightarrow> verification_ok v"
  by (auto simp: make_verification_def verification_ok_def bind_result_eq_Inr result_simps fingerprint_def
      VERIFICATION_NONE_def VERIFICATION_INVENTORY_def split: if_splits)

lemma no_verification_ok: "verification_ok no_verification"
  by (simp add: verification_ok_def no_verification_def VERIFICATION_MODES_def VERIFICATION_NONE_def
      VERIFICATION_INVENTORY_def)

lemma envelope_items_dicts:
  "envelope_items vs = Inr ds \<Longrightarrow> ds = vs \<and> list_all is_mapping vs"
proof (induction vs arbitrary: ds)
  case (Cons v vs)
  then show ?case by (auto simp: envelope_items_def bind_result_eq_Inr mapping_value_Inr)
qed (simp add: envelope_items_def)

section \<open>An example\<close>

definition ex_served :: graph_set where
  "ex_served =
     set_of_graph (make_graph ''app'' (ex_id CHR ''9'') [ex_node CHR ''a''] []
       (Some [(''status'', PStr ''partial'')]) (Some 1))"

definition ex_proof :: verification where
  "ex_proof = \<lparr>v_mode = VERIFICATION_INVENTORY, v_verified_at = None,
     v_source_fingerprint = Some (ex_id CHR ''7'')\<rparr>"

definition ex_envelope :: "(warning \<Rightarrow> string) \<Rightarrow> pyval list \<Rightarrow> (string, pyval) dict result" where
  "ex_envelope say nodes =
     build_envelope say (PStr ''shop'') (ScopeSet ex_served) (PStr ''fresh'') (Some ex_proof) nodes []
       (PBool False) PNone []"

lemma ex_envelope_Inr: "\<exists>d. ex_envelope say [PDict [(''id'', PInt 1)]] = Inr d"
proof -
  have "aggregate_coverage (ScopeSet ex_served) = Inr (''partial'', [])" by code_simp
  moreover have "resolve_freshness (PStr ''fresh'') ex_proof = (''fresh'', [])" by code_simp
  moreover have "identifier_text (PStr ''shop'') EnvelopeInvalid = Inr ''shop''" by code_simp
  ultimately show ?thesis
    by (simp add: ex_envelope_def build_envelope_def catalog_generation_id_def envelope_items_def
        mapping_value_def envelope_warnings_def optional_text_def Let_def)
qed

text \<open>The contract's type of an envelope over a graph set.\<close>

definition envelope_type :: "graph_set \<Rightarrow> (string, pyval) dict \<Rightarrow> bool" where
  "envelope_type gs d =
     (distinct (dict_keys d) \<and> set (dict_keys d) \<subseteq> set ENVELOPE_KEYS
      \<and> set ENVELOPE_KEYS - {''next_cursor''} \<subseteq> set (dict_keys d)
      \<and> dict_get d ''schema_version'' = Some (PInt 1)
      \<and> dict_get d ''catalog_generation_id'' = Some (PStr (sha256_hex (catalog_text gs)))
      \<and> dict_get d ''project_generations'' = Some (project_generations_value gs))"

section \<open>The properties of an envelope\<close>

text \<open>
  C34. Freshness is never flattered: an envelope says \<open>fresh\<close> only when the caller reported
  \<open>fresh\<close> and the verification it passed re-hashed the source inventory; whatever was reported, the
  freshness is one of the contract's five.
\<close>

theorem envelope_fresh_only_if_verified:
  assumes "build_envelope say sol scope reported verified nodes edges tr cur ws = Inr d"
  shows "\<exists>f. dict_get d ''freshness'' = Some (PStr f) \<and> f \<in> set FRESHNESS
       \<and> (f = ''fresh'' \<longleftrightarrow>
            reported = PStr ''fresh'' \<and> (\<exists>v. verified = Some v \<and> v_mode v = ''inventory_hash''))"
  using assms
proof (rule build_envelope_Inr, goal_cases)
  case (1 gs solution coverage cws ns es texts cursor)
  let ?v = "case verified of None \<Rightarrow> no_verification | Some v \<Rightarrow> v"
  have "v_mode ?v = ''inventory_hash'' \<longleftrightarrow> (\<exists>v. verified = Some v \<and> v_mode v = ''inventory_hash'')"
    by (auto simp: no_verification_def VERIFICATION_NONE_def split: option.split)
  with resolve_freshness_fresh [of reported ?v] resolve_freshness_allowed [of reported ?v] 1(7)
  show ?case by (simp add: FRESHNESS_FRESH_def VERIFICATION_INVENTORY_def)
qed

theorem envelope_fresh_only_if_verified_witness:
  "\<exists>d. ex_envelope (\<lambda>_. ''w'') [PDict [(''id'', PInt 1)]] = Inr d
     \<and> dict_get d ''freshness'' = Some (PStr ''fresh'')"
proof -
  obtain d where d: "ex_envelope (\<lambda>_. ''w'') [PDict [(''id'', PInt 1)]] = Inr d"
    using ex_envelope_Inr by blast
  with envelope_fresh_only_if_verified [OF d [unfolded ex_envelope_def]] show ?thesis
    by (auto simp: ex_proof_def VERIFICATION_INVENTORY_def)
qed

text \<open>
  Coverage is the most limiting member: every pinned project has a coverage status of the
  contract, the envelope reports the worst of them, and a requested project that is not pinned
  keeps it from being complete.
\<close>

theorem envelope_coverage_most_limiting:
  assumes "build_envelope say sol scope reported verified nodes edges tr cur ws = Inr d"
    and "as_graph_set scope = Inr gs"
  shows "(\<forall>g \<in> set (gs_graphs gs). coverage_status g \<in> set COVERAGE)
       \<and> dict_get d ''coverage'' = Some (PStr (most_limiting gs))
       \<and> (gs_missing gs \<noteq> [] \<longrightarrow> dict_get d ''coverage'' \<noteq> Some (PStr ''complete_for_profile''))"
  using assms(1)
proof (rule build_envelope_Inr, goal_cases)
  case (1 gs' solution coverage cws ns es texts cursor)
  with assms(2) aggregate_coverage_Inr [of gs coverage cws]
  have "(\<forall>g \<in> set (gs_graphs gs). coverage_status g \<in> set COVERAGE) \<and> coverage = most_limiting gs"
    by simp
  with 1(7) show ?case by (simp add: most_limiting_def)
qed

theorem envelope_coverage_most_limiting_witness:
  "\<exists>d. ex_envelope (\<lambda>_. ''w'') [PDict [(''id'', PInt 1)]] = Inr d
     \<and> dict_get d ''coverage'' = Some (PStr ''partial'')"
proof -
  obtain d where d: "ex_envelope (\<lambda>_. ''w'') [PDict [(''id'', PInt 1)]] = Inr d"
    using ex_envelope_Inr by blast
  have "most_limiting ex_served = ''partial''" by code_simp
  with d envelope_coverage_most_limiting [OF d [unfolded ex_envelope_def], of ex_served]
  show ?thesis by simp
qed

text \<open>
  An envelope has the contract's type: only the contract's keys, once each, every one but the
  cursor always present, its items JSON objects exactly as given, and the generation list that its
  catalog identity is the digest of.
\<close>

theorem envelope_has_contract_type:
  assumes "build_envelope say sol scope reported verified nodes edges tr cur ws = Inr d"
    and "as_graph_set scope = Inr gs"
  shows "envelope_type gs d
       \<and> dict_get d ''nodes'' = Some (PList nodes) \<and> list_all is_mapping nodes
       \<and> dict_get d ''edges'' = Some (PList edges) \<and> list_all is_mapping edges
       \<and> dict_get d ''truncated'' = Some (PBool (truthy tr))
       \<and> (\<exists>texts. dict_get d ''warnings'' = Some (PList (map PStr texts)))"
  using assms(1)
proof (rule build_envelope_Inr, goal_cases)
  case (1 gs' solution coverage cws ns es texts cursor)
  have "gs' = gs" using 1(1) assms(2) by simp
  moreover have "ns = nodes \<and> list_all is_mapping nodes" "es = edges \<and> list_all is_mapping edges"
    using envelope_items_dicts 1(5,6) by blast+
  ultimately show ?case using 1(7)
    by (cases cursor) (auto simp: envelope_type_def ENVELOPE_KEYS_def SCHEMA_VERSION_def)
qed

theorem envelope_has_contract_type_witness:
  "\<exists>d. ex_envelope (\<lambda>_. ''w'') [PDict [(''id'', PInt 1)]] = Inr d \<and> envelope_type ex_served d"
proof -
  obtain d where d: "ex_envelope (\<lambda>_. ''w'') [PDict [(''id'', PInt 1)]] = Inr d"
    using ex_envelope_Inr by blast
  with envelope_has_contract_type [OF d [unfolded ex_envelope_def], of ex_served] show ?thesis
    by simp
qed

end
