(* ===== verification/Store.thy ===== *)
theory Store
  imports Prelude
begin

text \<open>
  What the bounded stores of the program share: the order operations of \<open>collections.OrderedDict\<close>
  on association lists (oldest entry first), the abstract least-recently-used store they promise,
  and the interface \<open>keyed_store\<close> the readers of a store rely on.
\<close>

section \<open>Ordered dictionaries\<close>

text \<open>
  \<open>pop(key, None)\<close> is \<open>AList.delete\<close>, a store of an absent key appends, \<open>move_to_end\<close> deletes and
  appends, and \<open>popitem(last=False)\<close> takes the head.
\<close>

definition move_to_end :: "'k \<Rightarrow> ('k, 'v) dict \<Rightarrow> ('k, 'v) dict" where
  "move_to_end k d = (case map_of d k of None \<Rightarrow> d | Some v \<Rightarrow> AList.delete k d @ [(k, v)])"

definition total_weight :: "('k \<times> 'v \<Rightarrow> int) \<Rightarrow> ('k, 'v) dict \<Rightarrow> int" where
  "total_weight weight d = sum_list (map weight d)"

lemma total_weight_append [simp]:
  "total_weight w (d @ e) = total_weight w d + total_weight w e"
  by (simp add: total_weight_def)

lemma total_weight_Cons [simp]: "total_weight w (p # d) = w p + total_weight w d"
  by (simp add: total_weight_def)

lemma total_weight_Nil [simp]: "total_weight w [] = 0"
  by (simp add: total_weight_def)

lemma delete_absent: "map_of d k = None \<Longrightarrow> AList.delete k d = d"
  by (induction d) (auto split: if_splits)

lemma total_weight_delete:
  "distinct (dict_keys d) \<Longrightarrow> map_of d k = Some v \<Longrightarrow>
     total_weight w (AList.delete k d) = total_weight w d - w (k, v)"
proof (induction d)
  case (Cons p d)
  show ?case
  proof (cases "fst p = k")
    case True
    with Cons.prems have "map_of d k = None" by (auto simp: map_of_eq_None_iff)
    with True Cons.prems show ?thesis by (cases p) (auto simp: delete_absent)
  next
    case False
    with Cons show ?thesis by (cases p) auto
  qed
qed simp

lemma length_delete_present:
  "distinct (dict_keys d) \<Longrightarrow> map_of d k = Some v \<Longrightarrow> length (AList.delete k d) = length d - 1"
proof (induction d)
  case (Cons p d)
  show ?case
  proof (cases "fst p = k")
    case True
    with Cons.prems have "map_of d k = None" by (auto simp: map_of_eq_None_iff)
    with True show ?thesis by (cases p) (auto simp: delete_absent)
  next
    case False
    with Cons have "map_of d k = Some v" by (cases p) auto
    then have "0 < length d" by (cases d) auto
    with Cons False show ?thesis by (cases p) auto
  qed
qed simp

lemma map_of_delete: "map_of (AList.delete k d) x = (if x = k then None else map_of d x)"
  by (simp add: delete_conv')

lemma delete_keys_subset: "fst ` set (AList.delete k d) = fst ` set d - {k}"
  by (induction d) auto

lemma delete_subset: "set (AList.delete k d) \<subseteq> set d"
  by (induction d) auto

lemma map_of_append_last:
  "map_of (AList.delete k d @ [(k, v)]) x = (if x = k then Some v else map_of d x)"
  by (auto simp: map_of_delete map_add_def split: option.split)

lemma distinct_append_last:
  "distinct (dict_keys d) \<Longrightarrow> distinct (dict_keys (AList.delete k d @ [(k, v)]))"
  by (simp add: distinct_delete delete_keys_subset)

lemma move_to_end_get: "map_of (move_to_end k d) x = map_of d x"
  by (auto simp: move_to_end_def map_of_delete map_add_def split: option.split)

lemma move_to_end_distinct: "distinct (dict_keys d) \<Longrightarrow> distinct (dict_keys (move_to_end k d))"
  by (auto simp: move_to_end_def distinct_delete delete_keys_subset split: option.split)

lemma move_to_end_weight:
  "distinct (dict_keys d) \<Longrightarrow> total_weight w (move_to_end k d) = total_weight w d"
  by (auto simp: move_to_end_def total_weight_delete split: option.split)

lemma map_of_Some_length: "map_of d k = Some v \<Longrightarrow> 0 < length d"
  by (cases d) auto

lemma move_to_end_length: "distinct (dict_keys d) \<Longrightarrow> length (move_to_end k d) = length d"
  using length_delete_present [of d k] map_of_Some_length [of d k]
  by (cases "map_of d k") (simp_all add: move_to_end_def)

section \<open>The abstract store\<close>

text \<open>
  The promise: at most \<open>max_entries\<close> entries of at most \<open>max_bytes\<close> together, and whatever must go
  goes from the least recently used end. \<open>newest\<close> keeps the longest suffix within the limits.
\<close>

definition within :: "int \<Rightarrow> int \<Rightarrow> ('k \<times> 'v \<Rightarrow> int) \<Rightarrow> ('k, 'v) dict \<Rightarrow> bool" where
  "within max_entries max_bytes w d =
     (int (length d) \<le> max_entries \<and> total_weight w d \<le> max_bytes)"

fun newest :: "int \<Rightarrow> int \<Rightarrow> ('k \<times> 'v \<Rightarrow> int) \<Rightarrow> ('k, 'v) dict \<Rightarrow> ('k, 'v) dict" where
  "newest me mb w [] = []"
| "newest me mb w (p # d) = (if within me mb w (p # d) then p # d else newest me mb w d)"

lemma newest_within: "0 \<le> me \<Longrightarrow> 0 \<le> mb \<Longrightarrow> within me mb w (newest me mb w d)"
  by (induction d) (auto simp: within_def)

lemma newest_id: "within me mb w d \<Longrightarrow> newest me mb w d = d"
  by (cases d) auto

lemma newest_suffix: "\<exists>n. newest me mb w d = drop n d"
proof (induction d)
  case (Cons p d)
  then obtain n where "newest me mb w d = drop n d" ..
  then have "newest me mb w (p # d) = drop (if within me mb w (p # d) then 0 else Suc n) (p # d)" by simp
  then show ?case ..
qed simp

text \<open>Nothing is dropped that could have stayed: one more entry would break a limit.\<close>

lemma newest_longest:
  "d = front @ p # newest me mb w d \<Longrightarrow> \<not> within me mb w (p # newest me mb w d)"
proof (induction d arbitrary: front)
  case Nil
  then show ?case by simp
next
  case (Cons q d)
  show ?case
  proof (cases "within me mb w (q # d)")
    case True
    then have "newest me mb w (q # d) = q # d" by simp
    with Cons.prems have "length (q # d) = length front + 1 + length (q # d)"
      by (metis length_append length_Cons Suc_eq_plus1 add.assoc add.commute)
    then show ?thesis by simp
  next
    case False
    then have eq: "newest me mb w (q # d) = newest me mb w d" by simp
    have split: "q # d = front @ p # newest me mb w d" using Cons.prems unfolding eq .
    show ?thesis
    proof (cases front)
      case Nil
      with split False show ?thesis by (simp add: eq)
    next
      case (Cons f fs)
      with split have "d = fs @ p # newest me mb w d" by (simp del: newest.simps)
      then show ?thesis unfolding eq by (rule Cons.IH)
    qed
  qed
qed

lemma newest_keeps_last:
  "within me mb w [p] \<Longrightarrow> \<exists>front. newest me mb w (d @ [p]) = front @ [p]"
  by (induction d) auto

lemma newest_distinct: "distinct (dict_keys d) \<Longrightarrow> distinct (dict_keys (newest me mb w d))"
  using newest_suffix [of me mb w d] by (auto simp: drop_map [symmetric] distinct_drop)

lemma map_of_suffix:
  "distinct (dict_keys d) \<Longrightarrow> map_of (drop n d) k = Some v \<Longrightarrow> map_of d k = Some v"
  by (metis distinct_drop drop_map in_set_dropD map_of_SomeD map_of_is_SomeI)

lemma newest_get:
  "distinct (dict_keys d) \<Longrightarrow> map_of (newest me mb w d) k = Some v \<Longrightarrow> map_of d k = Some v"
  using newest_suffix [of me mb w d] map_of_suffix by metis

section \<open>Storing in the abstract store\<close>

text \<open>Storing refines the abstract store: drop an older copy, append, keep what the limits allow.\<close>

definition lru_put :: "int \<Rightarrow> int \<Rightarrow> ('k \<times> 'v \<Rightarrow> int) \<Rightarrow> 'k \<Rightarrow> 'v \<Rightarrow> ('k, 'v) dict \<Rightarrow> ('k, 'v) dict" where
  "lru_put me mb w k v d = newest me mb w (AList.delete k d @ [(k, v)])"

lemma lru_put_members:
  "(x, y) \<in> set (lru_put me mb w k v d) \<Longrightarrow> (x = k \<and> y = v) \<or> (x, y) \<in> set d"
proof -
  assume "(x, y) \<in> set (lru_put me mb w k v d)"
  moreover obtain n where "lru_put me mb w k v d = drop n (AList.delete k d @ [(k, v)])"
    using newest_suffix unfolding lru_put_def by blast
  ultimately have "(x, y) \<in> set (AList.delete k d @ [(k, v)])" by (metis in_set_dropD)
  then show ?thesis using delete_subset [of k d] by auto
qed

lemma lru_put_get:
  "distinct (dict_keys d) \<Longrightarrow> map_of (lru_put me mb w k v d) x = Some y \<Longrightarrow>
     (x = k \<and> y = v) \<or> map_of d x = Some y"
proof -
  assume "distinct (dict_keys d)" and "map_of (lru_put me mb w k v d) x = Some y"
  then have "map_of (AList.delete k d @ [(k, v)]) x = Some y"
    unfolding lru_put_def by (intro newest_get [OF distinct_append_last])
  then show ?thesis unfolding map_of_append_last by (auto split: if_splits)
qed

lemma delete_within:
  assumes "within me mb w d" and "distinct (dict_keys d)" and "\<And>p. 0 \<le> w p" and "0 \<le> me"
  shows "within me mb w (AList.delete k d)"
proof (cases "map_of d k")
  case None
  with assms(1) show ?thesis by (simp add: delete_absent)
next
  case (Some v)
  with assms(1,2) assms(3) [of "(k, v)"] show ?thesis
    by (auto simp: within_def total_weight_delete length_delete_present)
qed

lemma move_to_end_set: "distinct (dict_keys d) \<Longrightarrow> set (move_to_end k d) = set d"
proof (intro set_eqI)
  fix p assume d: "distinct (dict_keys d)"
  show "p \<in> set (move_to_end k d) \<longleftrightarrow> p \<in> set d"
    using d move_to_end_get [of k d "fst p"] move_to_end_distinct [OF d, of k]
    by (metis Some_eq_map_of_iff prod.collapse)
qed

lemma lru_put_distinct:
  "distinct (dict_keys d) \<Longrightarrow> distinct (dict_keys (lru_put me mb w k v d))"
  unfolding lru_put_def by (intro newest_distinct distinct_append_last)

lemma lru_put_within: "0 \<le> me \<Longrightarrow> 0 \<le> mb \<Longrightarrow> within me mb w (lru_put me mb w k v d)"
  unfolding lru_put_def by (rule newest_within)

lemma lru_put_newest:
  assumes "distinct (dict_keys d)" and "1 \<le> me" and "w (k, v) \<le> mb"
  shows "map_of (lru_put me mb w k v d) k = Some v"
proof -
  let ?d = "AList.delete k d @ [(k, v)]"
  have "within me mb w [(k, v)]" using assms(2,3) by (simp add: within_def)
  then obtain front where front: "lru_put me mb w k v d = front @ [(k, v)]"
    unfolding lru_put_def using newest_keeps_last by metis
  have "distinct (dict_keys (lru_put me mb w k v d))" by (rule lru_put_distinct) (rule assms(1))
  then show ?thesis by (simp add: front) (simp add: map_add_def map_of_eq_None_iff [THEN iffD2])
qed

section \<open>The interface of a store\<close>

datatype ('k, 'v) request = Get 'k | Put 'k 'v

locale keyed_store =
  fixes get :: "'s \<Rightarrow> 'k \<Rightarrow> 's \<times> 'v option"
    and put :: "'s \<Rightarrow> 'k \<Rightarrow> 'v \<Rightarrow> 's"
    and content :: "'s \<Rightarrow> 'k \<Rightarrow> 'v option"
    and ok :: "'s \<Rightarrow> bool"
    and kept :: "'v \<Rightarrow> 'v"
  assumes get_ok: "ok s \<Longrightarrow> ok (fst (get s k))"
    and put_ok: "ok s \<Longrightarrow> ok (put s k v)"
    and get_content: "ok s \<Longrightarrow> snd (get s k) = Some v \<Longrightarrow> content s k = Some v"
    and get_adds_nothing: "ok s \<Longrightarrow> content (fst (get s k)) x = Some v \<Longrightarrow> content s x = Some v"
    and put_adds_one: "ok s \<Longrightarrow> content (put s k v) x = Some y \<Longrightarrow>
          (x = k \<and> y = kept v) \<or> content s x = Some y"
begin

text \<open>A run of requests, with the answers it gave.\<close>

fun serve :: "'s \<Rightarrow> ('k, 'v) request list \<Rightarrow> 's \<times> ('k \<times> 'v) list" where
  "serve s [] = (s, [])"
| "serve s (Put k v # rs) = serve (put s k v) rs"
| "serve s (Get k # rs) =
     (case get s k of (t, answer) \<Rightarrow>
        case serve t rs of (u, answers) \<Rightarrow>
          (u, (case answer of None \<Rightarrow> [] | Some v \<Rightarrow> [(k, v)]) @ answers))"

lemma serve_ok: "ok s \<Longrightarrow> ok (fst (serve s rs))"
proof (induction s rs rule: serve.induct)
  case (3 s k rs)
  then show ?case using get_ok [of s k] by (auto split: prod.splits)
qed (simp_all add: put_ok)

lemma serve_answers:
  "ok s \<Longrightarrow> (k, v) \<in> set (snd (serve s rs)) \<Longrightarrow> content s k = Some v \<or> (\<exists>w. Put k w \<in> set rs \<and> v = kept w)"
proof (induction s rs rule: serve.induct)
  case (2 s j w rs)
  then show ?case using put_ok [of s j w] put_adds_one [of s j w k v] by auto
next
  case (3 s j rs)
  obtain t answer where t: "get s j = (t, answer)" by force
  obtain u answers where u: "serve t rs = (u, answers)" by force
  from 3(3) t u consider "answer = Some v" "k = j" | "(k, v) \<in> set answers"
    by (auto split: option.splits)
  then show ?case
  proof cases
    case 1
    then show ?thesis using get_content [of s j v] 3(2) t by simp
  next
    case 2
    have "ok t" using get_ok [of s j] 3(2) t by simp
    with 3(1) [OF t [symmetric]] 2 u have "content t k = Some v \<or> (\<exists>w. Put k w \<in> set rs \<and> v = kept w)" by simp
    then show ?thesis using get_adds_nothing [of s j k v] 3(2) t by auto
  qed
qed simp

text \<open>
  No answer is ever invented: from an empty store, what is served is the kept form of a value that
  was put under that key.
\<close>

lemma served_was_put:
  "ok s \<Longrightarrow> (\<And>x. content s x = None) \<Longrightarrow> (k, v) \<in> set (snd (serve s rs)) \<Longrightarrow>
     \<exists>w. Put k w \<in> set rs \<and> v = kept w"
  using serve_answers by fastforce

end

end
