(* ===== verification/Cache.thy ===== *)
theory Cache
  imports Store Hashing
begin

text \<open>
  \<open>cache.py\<close>: the bounded cache of shard bytes, keyed by the immutable identity of a generation. A
  payload is a byte string; an operation returns the new cache beside its result, so that the state
  left by a refusal is part of the model. The entries are the \<open>OrderedDict\<close>, oldest first.
\<close>

datatype cache_error = CacheError | CacheMismatch | CacheKeyRejected

definition DEFAULT_MAX_ENTRIES :: int where "DEFAULT_MAX_ENTRIES = 512"
definition DEFAULT_CACHE_BYTES :: int where "DEFAULT_CACHE_BYTES = 64 * 1024 * 1024"
definition DEFAULT_SHARD_SCHEMA :: string where "DEFAULT_SHARD_SCHEMA = ''graph-data.v1''"

section \<open>Keys\<close>

record cache_key =
  k_schema :: string
  k_profile :: string
  k_generation_id :: string
  k_shard_sha256 :: string
  k_path :: string

definition make_cache_key ::
    "string \<Rightarrow> string \<Rightarrow> string \<Rightarrow> string \<Rightarrow> string \<Rightarrow> cache_error + cache_key" where
  "make_cache_key schema profile generation_id shard_sha256 path =
     bind_result (guard_result (schema \<noteq> [] \<and> profile \<noteq> [] \<and> path \<noteq> []) CacheKeyRejected) (\<lambda>_.
     bind_result (guard_result (SHA256_RE generation_id \<and> SHA256_RE shard_sha256) CacheKeyRejected) (\<lambda>_.
       Inr \<lparr>k_schema = schema, k_profile = profile, k_generation_id = generation_id,
            k_shard_sha256 = shard_sha256, k_path = path\<rparr>))"

definition key_identity :: "cache_key \<Rightarrow> string \<times> string \<times> string \<times> string" where
  "key_identity k = (k_schema k, k_profile k, k_generation_id k, k_shard_sha256 k)"

definition key_as_document :: "cache_key \<Rightarrow> (string, pyval) dict" where
  "key_as_document k =
     [(''schema'', PStr (k_schema k)), (''profile'', PStr (k_profile k)),
      (''generation_id'', PStr (k_generation_id k)), (''shard_sha256'', PStr (k_shard_sha256 k)),
      (''path'', PStr (k_path k))]"

definition cache_key_of ::
    "string \<Rightarrow> string \<Rightarrow> string \<Rightarrow> string \<Rightarrow> string option \<Rightarrow> cache_error + cache_key" where
  "cache_key_of generation_id profile path sha256 schema =
     make_cache_key (case schema of None \<Rightarrow> DEFAULT_SHARD_SCHEMA | Some s \<Rightarrow> s) profile generation_id
       sha256 path"

section \<open>The cache\<close>

record snapshot_cache =
  max_entries :: int
  max_bytes :: int
  entries :: "(cache_key, string) dict"
  bytes_used :: int
  hits :: int
  misses :: int
  evictions :: int
  mismatches :: int

definition positive_limit :: "pyval \<Rightarrow> cache_error + int" where
  "positive_limit v = (case v of PInt i \<Rightarrow> if i < 1 then Inl CacheError else Inr i | _ \<Rightarrow> Inl CacheError)"

definition make_cache :: "pyval \<Rightarrow> pyval \<Rightarrow> cache_error + snapshot_cache" where
  "make_cache max_entries_v max_bytes_v =
     bind_result (positive_limit max_entries_v) (\<lambda>me.
     bind_result (positive_limit max_bytes_v) (\<lambda>mb.
       Inr \<lparr>max_entries = me, max_bytes = mb, entries = [], bytes_used = 0, hits = 0, misses = 0,
            evictions = 0, mismatches = 0\<rparr>))"

record cache_stats =
  st_hits :: int
  st_misses :: int
  st_evictions :: int
  st_mismatches :: int
  st_entries :: int
  st_bytes_used :: int

definition cache_stats_of :: "snapshot_cache \<Rightarrow> cache_stats" where
  "cache_stats_of c =
     \<lparr>st_hits = hits c, st_misses = misses c, st_evictions = evictions c, st_mismatches = mismatches c,
      st_entries = int (length (entries c)), st_bytes_used = bytes_used c\<rparr>"

definition cache_contains :: "snapshot_cache \<Rightarrow> cache_key \<Rightarrow> bool" where
  "cache_contains c k = dict_has (entries c) k"

text \<open>The loop of \<open>_evict\<close>: the oldest entry goes while a limit is broken.\<close>

fun evict_loop ::
    "int \<Rightarrow> int \<Rightarrow> (cache_key, string) dict \<Rightarrow> int \<Rightarrow> int \<Rightarrow> (cache_key, string) dict \<times> int \<times> int"
where
  "evict_loop me mb [] used evicted = ([], used, evicted)"
| "evict_loop me mb (p # d) used evicted =
     (if int (length (p # d)) > me \<or> used > mb
      then evict_loop me mb d (used - int (length (snd p))) (evicted + 1)
      else (p # d, used, evicted))"

definition evict :: "snapshot_cache \<Rightarrow> snapshot_cache" where
  "evict c =
     (case evict_loop (max_entries c) (max_bytes c) (entries c) (bytes_used c) (evictions c) of
        (d, used, evicted) \<Rightarrow> c\<lparr>entries := d, bytes_used := used, evictions := evicted\<rparr>)"

definition cache_put ::
    "snapshot_cache \<Rightarrow> cache_key \<Rightarrow> string \<Rightarrow> snapshot_cache \<times> (cache_error + bool)" where
  "cache_put c k data =
     (if sha256_hex data \<noteq> k_shard_sha256 k then (c, Inl CacheMismatch)
      else if int (length data) > max_bytes c then (c, Inr False)
      else
        (let used = (case map_of (entries c) k of None \<Rightarrow> bytes_used c
                     | Some previous \<Rightarrow> bytes_used c - int (length previous)) in
         (evict (c\<lparr>entries := AList.delete k (entries c) @ [(k, data)],
                  bytes_used := used + int (length data)\<rparr>), Inr True)))"

definition cache_get :: "snapshot_cache \<Rightarrow> cache_key \<Rightarrow> snapshot_cache \<times> string option" where
  "cache_get c k =
     (case map_of (entries c) k of
        None \<Rightarrow> (c\<lparr>misses := misses c + 1\<rparr>, None)
      | Some payload \<Rightarrow>
          if sha256_hex payload \<noteq> k_shard_sha256 k then
            (c\<lparr>entries := AList.delete k (entries c), bytes_used := bytes_used c - int (length payload),
               mismatches := mismatches c + 1, misses := misses c + 1\<rparr>, None)
          else (c\<lparr>entries := move_to_end k (entries c), hits := hits c + 1\<rparr>, Some payload))"

definition cache_invalidate :: "snapshot_cache \<Rightarrow> cache_key \<Rightarrow> snapshot_cache \<times> bool" where
  "cache_invalidate c k =
     (case map_of (entries c) k of
        None \<Rightarrow> (c, False)
      | Some payload \<Rightarrow>
          (c\<lparr>entries := AList.delete k (entries c),
             bytes_used := bytes_used c - int (length payload)\<rparr>, True))"

definition evict_generation :: "snapshot_cache \<Rightarrow> string \<Rightarrow> snapshot_cache \<times> nat" where
  "evict_generation c generation_id =
     (let doomed = filter (\<lambda>k. k_generation_id k = generation_id) (dict_keys (entries c)) in
      (fold (\<lambda>k c. fst (cache_invalidate c k)) doomed c, length doomed))"

definition cache_clear :: "snapshot_cache \<Rightarrow> snapshot_cache" where
  "cache_clear c = c\<lparr>entries := [], bytes_used := 0\<rparr>"

text \<open>\<open>loaded\<close> is what the loader returns; it is asked for only on a miss.\<close>

definition lookup ::
    "snapshot_cache \<Rightarrow> cache_key \<Rightarrow> string \<Rightarrow> snapshot_cache \<times> (cache_error + string \<times> bool)" where
  "lookup c k loaded =
     (case cache_get c k of
        (c', Some payload) \<Rightarrow> (c', Inr (payload, True))
      | (c', None) \<Rightarrow>
          (case cache_put c' k loaded of
             (c'', Inl e) \<Rightarrow> (c'', Inl e)
           | (c'', Inr _) \<Rightarrow> (c'', Inr (loaded, False))))"

section \<open>The invariant\<close>

definition payload_size :: "cache_key \<times> string \<Rightarrow> int" where
  "payload_size p = int (length (snd p))"

definition cache_ok :: "snapshot_cache \<Rightarrow> bool" where
  "cache_ok c =
     (1 \<le> max_entries c \<and> 1 \<le> max_bytes c \<and> distinct (dict_keys (entries c))
      \<and> bytes_used c = total_weight payload_size (entries c)
      \<and> within (max_entries c) (max_bytes c) payload_size (entries c)
      \<and> (\<forall>(k, data) \<in> set (entries c). sha256_hex data = k_shard_sha256 k))"

lemma payload_size_nonneg: "0 \<le> payload_size p"
  by (simp add: payload_size_def)

lemma evict_loop_newest:
  "used = total_weight payload_size d \<Longrightarrow>
     evict_loop me mb d used n =
       (newest me mb payload_size d, total_weight payload_size (newest me mb payload_size d),
        n + int (length d - length (newest me mb payload_size d)))"
proof (induction d arbitrary: used n)
  case (Cons p d)
  have "length (newest me mb payload_size d) \<le> length d"
    using newest_suffix [of me mb payload_size d] by auto
  with Cons show ?case
    by (auto simp: within_def payload_size_def [of p] Suc_diff_le)
qed simp

lemma cache_put_stored:
  assumes "cache_ok c" and "sha256_hex data = k_shard_sha256 k" and "int (length data) \<le> max_bytes c"
  defines "d \<equiv> lru_put (max_entries c) (max_bytes c) payload_size k data (entries c)"
  shows "\<exists>n. cache_put c k data =
     (c\<lparr>entries := d, bytes_used := total_weight payload_size d, evictions := n\<rparr>, Inr True)"
proof -
  let ?d = "AList.delete k (entries c) @ [(k, data)]"
  have inv: "distinct (dict_keys (entries c))" "bytes_used c = total_weight payload_size (entries c)"
    using assms(1) by (simp_all add: cache_ok_def)
  have "(case map_of (entries c) k of None \<Rightarrow> bytes_used c
     | Some previous \<Rightarrow> bytes_used c - int (length previous)) + int (length data)
     = total_weight payload_size ?d"
    using inv by (auto simp: total_weight_delete delete_absent payload_size_def split: option.split)
  moreover obtain n where "evict_loop (max_entries c) (max_bytes c) ?d (total_weight payload_size ?d)
      (evictions c) = (d, total_weight payload_size d, n)"
    using evict_loop_newest [of "total_weight payload_size ?d" ?d] by (simp add: d_def lru_put_def)
  ultimately have "cache_put c k data =
     (c\<lparr>entries := d, bytes_used := total_weight payload_size d, evictions := n\<rparr>, Inr True)"
    using assms(2,3) by (simp add: cache_put_def evict_def Let_def del: total_weight_append)
  then show ?thesis ..
qed

lemma cache_put_result:
  assumes "cache_ok c" and "sha256_hex data = k_shard_sha256 k" and "int (length data) \<le> max_bytes c"
  shows "snd (cache_put c k data) = Inr True"
    and "entries (fst (cache_put c k data))
           = lru_put (max_entries c) (max_bytes c) payload_size k data (entries c)"
    and "bytes_used (fst (cache_put c k data))
           = total_weight payload_size (entries (fst (cache_put c k data)))"
  by (rule exE [OF cache_put_stored [OF assms]], simp)+

lemma cache_put_cases:
  obtains (refused) e where "cache_put c k data = (c, e)"
  | (stored) "sha256_hex data = k_shard_sha256 k" and "int (length data) \<le> max_bytes c"
  by (cases "sha256_hex data = k_shard_sha256 k"; cases "int (length data) \<le> max_bytes c")
    (auto simp: cache_put_def)

lemma cache_put_ok: "cache_ok c \<Longrightarrow> cache_ok (fst (cache_put c k data))"
proof (rule cache_put_cases [of c k data])
  fix e assume "cache_ok c" and "cache_put c k data = (c, e)"
  then show ?thesis by simp
next
  let ?d = "lru_put (max_entries c) (max_bytes c) payload_size k data (entries c)"
  assume ok: "cache_ok c" and data: "sha256_hex data = k_shard_sha256 k"
    and size: "int (length data) \<le> max_bytes c"
  obtain n where put: "cache_put c k data =
     (c\<lparr>entries := ?d, bytes_used := total_weight payload_size ?d, evictions := n\<rparr>, Inr True)"
    using cache_put_stored [OF ok data size] by blast
  have "distinct (dict_keys ?d)"
    using ok by (intro lru_put_distinct) (simp add: cache_ok_def)
  moreover have "within (max_entries c) (max_bytes c) payload_size ?d"
    using ok by (intro lru_put_within) (simp_all add: cache_ok_def)
  moreover have "sha256_hex y = k_shard_sha256 x" if "(x, y) \<in> set ?d" for x y
    using lru_put_members [OF that] ok data by (auto simp: cache_ok_def)
  ultimately show ?thesis using ok by (auto simp: put cache_ok_def)
qed

lemma cache_drop_ok:
  assumes "cache_ok c" and "map_of (entries c) k = Some payload"
  shows "cache_ok (c\<lparr>entries := AList.delete k (entries c), bytes_used := bytes_used c - int (length payload)\<rparr>)"
proof -
  have "within (max_entries c) (max_bytes c) payload_size (AList.delete k (entries c))"
    using assms(1) payload_size_nonneg by (intro delete_within) (auto simp: cache_ok_def)
  moreover have "set (AList.delete k (entries c)) \<subseteq> set (entries c)" by (rule delete_subset)
  ultimately show ?thesis
    using assms total_weight_delete [of "entries c" k payload payload_size]
    by (auto simp: cache_ok_def distinct_delete payload_size_def)
qed

lemma cache_invalidate_ok: "cache_ok c \<Longrightarrow> cache_ok (fst (cache_invalidate c k))"
  by (auto simp: cache_invalidate_def cache_drop_ok split: option.split)

lemma cache_clear_ok: "cache_ok c \<Longrightarrow> cache_ok (cache_clear c)"
  by (simp add: cache_ok_def cache_clear_def within_def)

lemma evict_generation_ok: "cache_ok c \<Longrightarrow> cache_ok (fst (evict_generation c g))"
proof -
  have "cache_ok c \<Longrightarrow> cache_ok (fold (\<lambda>k c. fst (cache_invalidate c k)) ks c)" for ks
    by (induction ks arbitrary: c) (simp_all add: cache_invalidate_ok)
  then show "cache_ok c \<Longrightarrow> ?thesis" by (simp add: evict_generation_def Let_def)
qed

lemma cache_get_ok: "cache_ok c \<Longrightarrow> cache_ok (fst (cache_get c k))"
proof -
  assume ok: "cache_ok c"
  have counters: "cache_ok (x\<lparr>misses := m, mismatches := n\<rparr>) = cache_ok x" for x m n
    by (simp add: cache_ok_def)
  have touched: "cache_ok (c\<lparr>entries := move_to_end k (entries c), hits := h\<rparr>)" for h
    using ok by (simp add: cache_ok_def within_def move_to_end_distinct move_to_end_weight
        move_to_end_length move_to_end_set)
  show ?thesis
  proof (cases "map_of (entries c) k")
    case None
    with ok show ?thesis by (simp add: cache_get_def cache_ok_def)
  next
    case (Some payload)
    with cache_drop_ok [OF ok Some] touched show ?thesis
      by (simp add: cache_get_def) (simp add: cache_ok_def)
  qed
qed

lemma lookup_ok: "cache_ok c \<Longrightarrow> cache_ok (fst (lookup c k loaded))"
  using cache_get_ok [of c k] cache_put_ok [of "fst (cache_get c k)" k loaded]
  by (auto simp: lookup_def split: prod.splits option.splits sum.splits)

section \<open>The cache as a keyed store\<close>

lemma cache_get_found:
  "snd (cache_get c k) = Some v \<Longrightarrow> map_of (entries c) k = Some v \<and> sha256_hex v = k_shard_sha256 k"
  by (auto simp: cache_get_def split: option.splits if_splits)

lemma cache_get_keeps:
  "map_of (entries (fst (cache_get c k))) x = Some v \<Longrightarrow> map_of (entries c) x = Some v"
  by (auto simp: cache_get_def map_of_delete move_to_end_get split: option.splits if_splits)

lemma cache_put_keeps:
  assumes "cache_ok c" and "map_of (entries (fst (cache_put c k data))) x = Some y"
  shows "(x = k \<and> y = data) \<or> map_of (entries c) x = Some y"
proof (rule cache_put_cases [of c k data])
  fix e assume "cache_put c k data = (c, e)"
  with assms(2) show ?thesis by simp
next
  assume "sha256_hex data = k_shard_sha256 k" and "int (length data) \<le> max_bytes c"
  then have "entries (fst (cache_put c k data))
      = lru_put (max_entries c) (max_bytes c) payload_size k data (entries c)"
    using assms(1) by (intro cache_put_result(2))
  moreover have "distinct (dict_keys (entries c))" using assms(1) by (simp add: cache_ok_def)
  ultimately show ?thesis using assms(2) lru_put_get by metis
qed

interpretation shard_cache: keyed_store cache_get "\<lambda>c k v. fst (cache_put c k v)" "\<lambda>c. map_of (entries c)" cache_ok
  "\<lambda>data. data"
  by unfold_locales
    (erule cache_get_ok, erule cache_put_ok, rule conjunct1, erule cache_get_found,
     erule cache_get_keeps, erule (1) cache_put_keeps)

lemma cache_put_get:
  assumes "cache_ok c" and "sha256_hex data = k_shard_sha256 k" and "int (length data) \<le> max_bytes c"
  shows "map_of (entries (fst (cache_put c k data))) k = Some data"
  unfolding cache_put_result(2) [OF assms]
  by (rule lru_put_newest) (use assms in \<open>simp_all add: cache_ok_def payload_size_def\<close>)

section \<open>The reachable caches\<close>

inductive cache_step :: "snapshot_cache \<Rightarrow> snapshot_cache \<Rightarrow> bool" where
  stored: "cache_step c (fst (cache_put c k data))"
| read: "cache_step c (fst (cache_get c k))"
| invalidated: "cache_step c (fst (cache_invalidate c k))"
| generation_evicted: "cache_step c (fst (evict_generation c g))"
| cleared: "cache_step c (cache_clear c)"
| looked_up: "cache_step c (fst (lookup c k loaded))"

inductive reachable_cache :: "snapshot_cache \<Rightarrow> bool" where
  created: "make_cache me mb = Inr c \<Longrightarrow> reachable_cache c"
| stepped: "reachable_cache c \<Longrightarrow> cache_step c c' \<Longrightarrow> reachable_cache c'"

inductive_cases cache_stepE: "cache_step c c'"

lemma make_cache_ok: "make_cache me mb = Inr c \<Longrightarrow> cache_ok c \<and> entries c = []"
  by (auto simp: make_cache_def positive_limit_def bind_result_eq_Inr cache_ok_def within_def
      split: pyval.splits if_splits)

lemma cache_step_ok: "cache_step c c' \<Longrightarrow> cache_ok c \<Longrightarrow> cache_ok c'"
  by (erule cache_stepE)
    (simp_all add: cache_put_ok cache_get_ok cache_invalidate_ok evict_generation_ok cache_clear_ok lookup_ok)

lemma reachable_cache_ok: "reachable_cache c \<Longrightarrow> cache_ok c"
  by (induction rule: reachable_cache.induct) (simp_all add: make_cache_ok cache_step_ok)

section \<open>An example\<close>

definition ex_key :: "string \<Rightarrow> string \<Rightarrow> cache_key" where
  "ex_key path data = \<lparr>k_schema = DEFAULT_SHARD_SCHEMA, k_profile = ''default'',
     k_generation_id = replicate 64 CHR ''9'', k_shard_sha256 = sha256_hex data, k_path = path\<rparr>"

definition ex_cache :: snapshot_cache where
  "ex_cache = \<lparr>max_entries = 1, max_bytes = 8, entries = [], bytes_used = 0, hits = 0, misses = 0,
     evictions = 0, mismatches = 0\<rparr>"

lemma ex_cache_made: "make_cache (PInt 1) (PInt 8) = Inr ex_cache"
  by (simp add: make_cache_def positive_limit_def ex_cache_def)

definition ex_cache1 :: snapshot_cache where
  "ex_cache1 = fst (cache_put ex_cache (ex_key ''nodes/a.json'' ''[]'') ''[]'')"

lemma ex_cache1_reachable: "reachable_cache ex_cache1"
  unfolding ex_cache1_def
  by (rule reachable_cache.stepped [OF reachable_cache.created [OF ex_cache_made]]) (rule cache_step.stored)

lemma ex_cache1_eq:
  "ex_cache1 = ex_cache\<lparr>entries := [(ex_key ''nodes/a.json'' ''[]'', ''[]'')], bytes_used := 2\<rparr>"
  by (simp add: ex_cache1_def cache_put_def ex_cache_def ex_key_def evict_def)

section \<open>The properties of the cache\<close>

text \<open>
  C31. Storing refines the abstract least-recently-used store: bytes that do not hash to their label
  are refused and bytes that can never fit are not stored, both without touching an entry; any other
  payload becomes the newest entry, and the cache keeps exactly the longest newest part within its
  limits, with the running byte counter equal to what is held.
\<close>

theorem cache_put_refines_lru:
  assumes "cache_ok c"
  shows "if sha256_hex data \<noteq> k_shard_sha256 k then cache_put c k data = (c, Inl CacheMismatch)
     else if int (length data) > max_bytes c then cache_put c k data = (c, Inr False)
     else snd (cache_put c k data) = Inr True
        \<and> entries (fst (cache_put c k data))
            = lru_put (max_entries c) (max_bytes c) payload_size k data (entries c)
        \<and> bytes_used (fst (cache_put c k data))
            = total_weight payload_size (entries (fst (cache_put c k data)))
        \<and> map_of (entries (fst (cache_put c k data))) k = Some data"
proof -
  consider (mismatch) "sha256_hex data \<noteq> k_shard_sha256 k"
    | (large) "sha256_hex data = k_shard_sha256 k" "int (length data) > max_bytes c"
    | (stored) "sha256_hex data = k_shard_sha256 k" "int (length data) \<le> max_bytes c" by linarith
  then show ?thesis
  proof cases
    case mismatch
    then show ?thesis by (simp add: cache_put_def)
  next
    case large
    then show ?thesis by (simp add: cache_put_def)
  next
    case stored
    from cache_put_result [OF assms stored] cache_put_get [OF assms stored] show ?thesis
      using stored by simp
  qed
qed

theorem cache_put_refines_lru_witness:
  "entries (fst (cache_put ex_cache1 (ex_key ''nodes/b.json'' ''{}'') ''{}''))
     = [(ex_key ''nodes/b.json'' ''{}'', ''{}'')]"
proof -
  have "cache_ok ex_cache1" by (rule reachable_cache_ok) (rule ex_cache1_reachable)
  moreover have "max_entries ex_cache1 = 1" "max_bytes ex_cache1 = 8"
    by (simp_all add: ex_cache1_eq ex_cache_def)
  moreover have "k_shard_sha256 (ex_key ''nodes/b.json'' ''{}'') = sha256_hex ''{}''"
    by (simp add: ex_key_def)
  ultimately have "entries (fst (cache_put ex_cache1 (ex_key ''nodes/b.json'' ''{}'') ''{}''))
     = lru_put 1 8 payload_size (ex_key ''nodes/b.json'' ''{}'') ''{}'' (entries ex_cache1)"
    using cache_put_refines_lru [of ex_cache1 "''{}''" "ex_key ''nodes/b.json'' ''{}''"] by simp
  also have "\<dots> = [(ex_key ''nodes/b.json'' ''{}'', ''{}'')]"
    by (simp add: ex_cache1_eq lru_put_def ex_key_def within_def payload_size_def)
  finally show ?thesis .
qed

text \<open>
  C32. Every cache the operations can reach is within both of its limits, counts its bytes exactly,
  holds each identity once, and holds under each identity only bytes that hash to its digest.
\<close>

theorem cache_invariant:
  assumes "reachable_cache c"
  shows "int (length (entries c)) \<le> max_entries c \<and> bytes_used c \<le> max_bytes c
       \<and> bytes_used c = (\<Sum>p\<leftarrow>entries c. int (length (snd p)))
       \<and> distinct (dict_keys (entries c))
       \<and> (\<forall>(k, data) \<in> set (entries c). sha256_hex data = k_shard_sha256 k)"
proof -
  have "payload_size = (\<lambda>p. int (length (snd p)))" by (simp add: payload_size_def fun_eq_iff)
  with reachable_cache_ok [OF assms] show ?thesis
    by (auto simp: cache_ok_def within_def total_weight_def)
qed

theorem cache_invariant_witness:
  "bytes_used ex_cache1 \<le> 8 \<and> length (entries ex_cache1) = 1"
  using cache_invariant [OF ex_cache1_reachable] by (simp add: ex_cache1_eq ex_cache_def)

text \<open>
  No read is ever mislabelled: in any run of puts and gets on a new cache, whatever a get
  answers was put under that very key before, and hashes to the digest the key names.
\<close>

theorem cache_serves_only_what_was_put:
  assumes "make_cache me mb = Inr c" and "(k, v) \<in> set (snd (shard_cache.serve c requests))"
  shows "Put k v \<in> set requests \<and> sha256_hex v = k_shard_sha256 k"
proof -
  have ok: "cache_ok c" and empty: "\<And>x. map_of (entries c) x = None"
    using make_cache_ok [OF assms(1)] by simp_all
  have "sha256_hex v = k_shard_sha256 k" if "(k, v) \<in> set (snd (shard_cache.serve c requests))" for c
    using that
  proof (induction c requests rule: shard_cache.serve.induct)
    case (3 c j rs)
    then show ?case using cache_get_found [of c j] by (auto split: prod.splits option.splits)
  qed simp_all
  with shard_cache.served_was_put [OF ok empty assms(2)] assms(2) show ?thesis by blast
qed

theorem cache_serves_only_what_was_put_witness:
  "sha256_hex ''[]'' = k_shard_sha256 (ex_key ''nodes/a.json'' ''[]'')"
proof -
  let ?k = "ex_key ''nodes/a.json'' ''[]''"
  have "fst (cache_put ex_cache ?k ''[]'') = ex_cache1" by (simp add: ex_cache1_def)
  moreover have "snd (cache_get ex_cache1 ?k) = Some ''[]''"
    by (simp add: cache_get_def ex_cache1_eq) (simp add: ex_key_def)
  ultimately have "(?k, ''[]'') \<in> set (snd (shard_cache.serve ex_cache [Put ?k ''[]'', Get ?k]))"
    by (cases "cache_get ex_cache1 ?k") simp
  from cache_serves_only_what_was_put [OF ex_cache_made this] show ?thesis by simp
qed

end
