(* ===== verification/Retention.thy ===== *)
theory Retention
  imports Store Values
begin

text \<open>
  \<open>retention.py\<close>, with the records of \<open>shards.py\<close> and \<open>read_session.py\<close> it keeps: a least recently
  used store of parsed generations shared between queries. A parsed document is an object whose
  containers are ordinary or frozen; what a value weighs in memory (\<open>retained_size\<close>, over
  \<open>sys.getsizeof\<close> and object identity) is the argument \<open>footprint\<close>, a number per key and value. The
  lock only serialises the operations, each of which is one step here.
\<close>

datatype retention_error = PyValueError | PyKeyError

section \<open>Parsed documents\<close>

datatype obj = Scalar pyval | DictObj bool "(string \<times> obj) list" | ListObj bool "obj list"

text \<open>\<open>_freeze\<close>: the same content in containers whose mutating methods are denied.\<close>

fun freeze :: "obj \<Rightarrow> obj" where
  "freeze (DictObj _ items) = DictObj True (map (\<lambda>p. (fst p, freeze (snd p))) items)"
| "freeze (ListObj _ items) = ListObj True (map freeze items)"
| "freeze (Scalar v) = Scalar v"

fun frozen :: "obj \<Rightarrow> bool" where
  "frozen (DictObj b items) = (b \<and> list_all (\<lambda>p. frozen (snd p)) items)"
| "frozen (ListObj b items) = (b \<and> list_all frozen items)"
| "frozen (Scalar v) = True"

text \<open>The JSON value an object denotes, whatever its containers are.\<close>

fun denotes :: "obj \<Rightarrow> pyval" where
  "denotes (DictObj _ items) = PDict (map (\<lambda>p. (fst p, denotes (snd p))) items)"
| "denotes (ListObj _ items) = PList (map denotes items)"
| "denotes (Scalar v) = v"

record shard =
  sh_path :: string
  sh_role :: string
  sh_sha256 :: string
  sh_bytes :: int
  sh_records :: int
  sh_document :: obj

record loaded_snapshot =
  ls_solution_id :: string
  ls_project_id :: string
  ls_lane :: string
  ls_generation_id :: string
  ls_analysis_profile :: string
  ls_source_fingerprint :: string
  ls_coverage_status :: string
  ls_records :: int
  ls_shards :: "shard list"
  ls_bytes_copied :: int
  ls_copy_ms :: int
  ls_guard_held_during_copy :: bool
  ls_parsed_after_guard_release :: bool
  ls_verification :: string
  ls_freshness :: string

definition freeze_snapshot :: "loaded_snapshot \<Rightarrow> loaded_snapshot" where
  "freeze_snapshot v =
     v\<lparr>ls_shards := map (\<lambda>s. s\<lparr>sh_document := freeze (sh_document s)\<rparr>) (ls_shards v)\<rparr>"

section \<open>The retention\<close>

record 'k retention =
  r_max_bytes :: int
  r_max_entries :: int
  r_entries :: "('k, loaded_snapshot \<times> int) dict"
  r_bytes :: int
  r_hits :: int
  r_misses :: int
  r_evictions :: int

definition make_retention :: "pyval \<Rightarrow> pyval \<Rightarrow> retention_error + 'k retention" where
  "make_retention max_bytes max_entries =
     (case (max_bytes, max_entries) of
        (PInt mb, PInt me) \<Rightarrow>
          if min mb me < 1 then Inl PyValueError
          else Inr \<lparr>r_max_bytes = mb, r_max_entries = me, r_entries = [], r_bytes = 0, r_hits = 0,
                    r_misses = 0, r_evictions = 0\<rparr>
      | _ \<Rightarrow> Inl PyValueError)"

definition retention_get :: "'k retention \<Rightarrow> 'k \<Rightarrow> 'k retention \<times> loaded_snapshot option" where
  "retention_get r k =
     (case map_of (r_entries r) k of
        None \<Rightarrow> (r\<lparr>r_misses := r_misses r + 1\<rparr>, None)
      | Some value \<Rightarrow>
          (r\<lparr>r_entries := move_to_end k (r_entries r), r_hits := r_hits r + 1\<rparr>, Some (fst value)))"

text \<open>The eviction loop; \<open>popitem\<close> of an empty dictionary raises \<open>KeyError\<close>.\<close>

fun retire ::
    "int \<Rightarrow> int \<Rightarrow> ('k, loaded_snapshot \<times> int) dict \<Rightarrow> int \<Rightarrow> int
       \<Rightarrow> retention_error + ('k, loaded_snapshot \<times> int) dict \<times> int \<times> int" where
  "retire me mb [] bytes evicted = (if bytes > mb \<or> 0 > me then Inl PyKeyError else Inr ([], bytes, evicted))"
| "retire me mb (p # d) bytes evicted =
     (if bytes > mb \<or> int (length (p # d)) > me
      then retire me mb d (bytes - snd (snd p)) (evicted + 1)
      else Inr (p # d, bytes, evicted))"

definition retention_put ::
    "('k \<Rightarrow> loaded_snapshot \<Rightarrow> nat) \<Rightarrow> 'k retention \<Rightarrow> 'k \<Rightarrow> loaded_snapshot
       \<Rightarrow> retention_error + 'k retention" where
  "retention_put footprint r k value =
     (if int (footprint k value) > r_max_bytes r then Inr r
      else
        (let owned = freeze_snapshot value; size = int (footprint k owned) in
         if size > r_max_bytes r then Inr r
         else
           (let bytes = (case map_of (r_entries r) k of None \<Rightarrow> r_bytes r
                         | Some previous \<Rightarrow> r_bytes r - snd previous) in
            bind_result
              (retire (r_max_entries r) (r_max_bytes r)
                 (AList.delete k (r_entries r) @ [(k, (owned, size))]) (bytes + size) (r_evictions r))
              (\<lambda>(d, used, evicted).
                 Inr (r\<lparr>r_entries := d, r_bytes := used, r_evictions := evicted\<rparr>)))))"

definition retention_clear :: "'k retention \<Rightarrow> 'k retention" where
  "retention_clear r = r\<lparr>r_entries := [], r_bytes := 0\<rparr>"

definition retention_stats :: "'k retention \<Rightarrow> (string \<times> int) list" where
  "retention_stats r =
     [(''entries'', int (length (r_entries r))), (''bytes'', r_bytes r), (''hits'', r_hits r),
      (''misses'', r_misses r), (''evictions'', r_evictions r)]"

section \<open>The invariant\<close>

abbreviation entry_weight :: "'k \<times> loaded_snapshot \<times> int \<Rightarrow> int" where
  "entry_weight p \<equiv> snd (snd p)"

definition snapshot_frozen :: "loaded_snapshot \<Rightarrow> bool" where
  "snapshot_frozen v = list_all (\<lambda>s. frozen (sh_document s)) (ls_shards v)"

definition retention_ok :: "'k retention \<Rightarrow> bool" where
  "retention_ok r =
     (1 \<le> r_max_bytes r \<and> 1 \<le> r_max_entries r \<and> distinct (dict_keys (r_entries r))
      \<and> r_bytes r = total_weight entry_weight (r_entries r)
      \<and> within (r_max_entries r) (r_max_bytes r) entry_weight (r_entries r)
      \<and> list_all (\<lambda>p. 0 \<le> entry_weight p \<and> snapshot_frozen (fst (snd p))) (r_entries r))"

lemma freeze_frozen: "frozen (freeze v)"
  by (induction v) (auto simp: list_all_iff)

lemma freeze_denotes: "denotes (freeze v) = denotes v"
  by (induction v) auto

lemma freeze_snapshot_frozen: "snapshot_frozen (freeze_snapshot v)"
  by (simp add: snapshot_frozen_def freeze_snapshot_def list_all_iff freeze_frozen)

lemma retire_newest:
  "bytes = total_weight entry_weight d \<Longrightarrow> 0 \<le> me \<Longrightarrow> 0 \<le> mb \<Longrightarrow>
     \<exists>n. retire me mb d bytes evicted
       = Inr (newest me mb entry_weight d, total_weight entry_weight (newest me mb entry_weight d), n)"
proof (induction d arbitrary: bytes evicted)
  case (Cons p d)
  show ?case
  proof (cases "within me mb entry_weight (p # d)")
    case True
    with Cons.prems show ?thesis by (simp add: within_def)
  next
    case False
    have "bytes - entry_weight p = total_weight entry_weight d" using Cons.prems by simp
    from Cons.IH [OF this Cons.prems(2,3)] obtain n where
      "retire me mb d (bytes - entry_weight p) (evicted + 1)
       = Inr (newest me mb entry_weight d, total_weight entry_weight (newest me mb entry_weight d), n)"
      by blast
    with False Cons.prems(1) show ?thesis by (auto simp: within_def)
  qed
qed simp

lemma retention_put_cases:
  obtains (refused) "retention_put fp r k v = Inr r"
    and "int (fp k v) > r_max_bytes r \<or> int (fp k (freeze_snapshot v)) > r_max_bytes r"
  | (stored) "int (fp k v) \<le> r_max_bytes r" and "int (fp k (freeze_snapshot v)) \<le> r_max_bytes r"
  by (cases "int (fp k v) > r_max_bytes r"; cases "int (fp k (freeze_snapshot v)) > r_max_bytes r")
    (auto simp: retention_put_def Let_def)

text \<open>Retaining refines the abstract store, of the frozen value and its weight.\<close>

definition retained_entries :: "('k \<Rightarrow> loaded_snapshot \<Rightarrow> nat) \<Rightarrow> 'k retention \<Rightarrow> 'k \<Rightarrow> loaded_snapshot
    \<Rightarrow> ('k, loaded_snapshot \<times> int) dict" where
  "retained_entries fp r k v =
     lru_put (r_max_entries r) (r_max_bytes r) entry_weight k
       (freeze_snapshot v, int (fp k (freeze_snapshot v))) (r_entries r)"

lemma retention_put_stored:
  assumes "retention_ok r" and "int (fp k v) \<le> r_max_bytes r" and "int (fp k (freeze_snapshot v)) \<le> r_max_bytes r"
  shows "\<exists>n. retention_put fp r k v =
     Inr (r\<lparr>r_entries := retained_entries fp r k v,
            r_bytes := total_weight entry_weight (retained_entries fp r k v), r_evictions := n\<rparr>)"
proof -
  let ?v = "(freeze_snapshot v, int (fp k (freeze_snapshot v)))"
  let ?d = "AList.delete k (r_entries r) @ [(k, ?v)]"
  let ?bytes = "(case map_of (r_entries r) k of None \<Rightarrow> r_bytes r | Some previous \<Rightarrow> r_bytes r - snd previous)"
  have inv: "distinct (dict_keys (r_entries r))" "r_bytes r = total_weight entry_weight (r_entries r)"
    "0 \<le> r_max_entries r" "0 \<le> r_max_bytes r"
    using assms(1) by (simp_all add: retention_ok_def)
  have "?bytes + int (fp k (freeze_snapshot v)) = total_weight entry_weight ?d"
    using inv by (auto simp: total_weight_delete delete_absent split: option.split)
  from retire_newest [OF this inv(3,4)] obtain n where
    "retire (r_max_entries r) (r_max_bytes r) ?d (?bytes + int (fp k (freeze_snapshot v))) (r_evictions r)
     = Inr (retained_entries fp r k v, total_weight entry_weight (retained_entries fp r k v), n)"
    unfolding retained_entries_def lru_put_def by blast
  then have "retention_put fp r k v =
     Inr (r\<lparr>r_entries := retained_entries fp r k v,
            r_bytes := total_weight entry_weight (retained_entries fp r k v), r_evictions := n\<rparr>)"
    using assms(2,3) by (simp add: retention_put_def Let_def)
  then show ?thesis ..
qed

lemma retention_stored_ok:
  assumes "retention_ok r"
  shows "retention_ok (r\<lparr>r_entries := retained_entries fp r k v,
            r_bytes := total_weight entry_weight (retained_entries fp r k v), r_evictions := n\<rparr>)"
proof -
  let ?d = "retained_entries fp r k v"
  have inv: "distinct (dict_keys (r_entries r))" "1 \<le> r_max_entries r" "1 \<le> r_max_bytes r"
    "\<And>p. p \<in> set (r_entries r) \<Longrightarrow> 0 \<le> entry_weight p \<and> snapshot_frozen (fst (snd p))"
    using assms(1) by (simp_all add: retention_ok_def list_all_iff)
  have "distinct (dict_keys ?d)"
    unfolding retained_entries_def by (rule lru_put_distinct) (rule inv)
  moreover have "within (r_max_entries r) (r_max_bytes r) entry_weight ?d"
    unfolding retained_entries_def using inv by (intro lru_put_within) simp_all
  moreover have "0 \<le> entry_weight p \<and> snapshot_frozen (fst (snd p))" if "p \<in> set ?d" for p
  proof -
    obtain x y where Pair: "p = (x, y)" by (rule that [of "fst p" "snd p"]) simp
    with that have "(x = k \<and> y = (freeze_snapshot v, int (fp k (freeze_snapshot v)))) \<or> (x, y) \<in> set (r_entries r)"
      unfolding retained_entries_def by (intro lru_put_members) simp
    with inv(4) [of "(x, y)"] Pair show ?thesis by (auto simp: freeze_snapshot_frozen)
  qed
  ultimately show ?thesis using inv by (simp add: retention_ok_def list_all_iff)
qed

lemma retention_put_total:
  assumes "retention_ok r"
  shows "\<exists>r'. retention_put fp r k v = Inr r' \<and> retention_ok r'"
proof (rule retention_put_cases [of fp r k v])
  assume "retention_put fp r k v = Inr r"
  with assms(1) show ?thesis by simp
next
  assume "int (fp k v) \<le> r_max_bytes r" and "int (fp k (freeze_snapshot v)) \<le> r_max_bytes r"
  from retention_put_stored [where r = r and fp = fp, OF assms(1) this] retention_stored_ok [where r = r and fp = fp, OF assms(1)]
  show ?thesis by blast
qed

lemma retention_get_ok: "retention_ok r \<Longrightarrow> retention_ok (fst (retention_get r k))"
  by (simp add: retention_get_def retention_ok_def within_def move_to_end_distinct move_to_end_weight
      move_to_end_length list_all_iff move_to_end_set split: option.split)

lemma retention_clear_ok: "retention_ok r \<Longrightarrow> retention_ok (retention_clear r)"
  by (simp add: retention_clear_def retention_ok_def within_def)

section \<open>The retention as a keyed store\<close>

definition retained :: "'k retention \<Rightarrow> 'k \<Rightarrow> loaded_snapshot option" where
  "retained r k = map_option fst (map_of (r_entries r) k)"

definition put_or_keep ::
    "('k \<Rightarrow> loaded_snapshot \<Rightarrow> nat) \<Rightarrow> 'k retention \<Rightarrow> 'k \<Rightarrow> loaded_snapshot \<Rightarrow> 'k retention" where
  "put_or_keep fp r k v = (case retention_put fp r k v of Inl _ \<Rightarrow> r | Inr r' \<Rightarrow> r')"

lemma put_or_keep_ok: "retention_ok r \<Longrightarrow> retention_ok (put_or_keep fp r k v)"
  using retention_put_total [of r fp k v] by (auto simp: put_or_keep_def)

lemma retention_get_found: "snd (retention_get r k) = retained r k"
  by (simp add: retention_get_def retained_def split: option.split)

lemma retention_get_same: "retained (fst (retention_get r k)) x = retained r x"
  by (simp add: retention_get_def retained_def move_to_end_get split: option.split)

lemma put_or_keep_retained:
  assumes "retention_ok r" and "retained (put_or_keep fp r k v) x = Some y"
  shows "(x = k \<and> y = freeze_snapshot v) \<or> retained r x = Some y"
proof (rule retention_put_cases [of fp r k v])
  assume "retention_put fp r k v = Inr r"
  with assms(2) show ?thesis by (simp add: put_or_keep_def)
next
  assume "int (fp k v) \<le> r_max_bytes r" and "int (fp k (freeze_snapshot v)) \<le> r_max_bytes r"
  from retention_put_stored [where r = r and fp = fp, OF assms(1) this] obtain n where
    "put_or_keep fp r k v = r\<lparr>r_entries := retained_entries fp r k v,
            r_bytes := total_weight entry_weight (retained_entries fp r k v), r_evictions := n\<rparr>"
    by (auto simp: put_or_keep_def)
  with assms(2) obtain n where "map_of (retained_entries fp r k v) x = Some (y, n)"
    by (auto simp: retained_def)
  moreover have "distinct (dict_keys (r_entries r))" using assms(1) by (simp add: retention_ok_def)
  ultimately have "(x = k \<and> (y, n) = (freeze_snapshot v, int (fp k (freeze_snapshot v))))
      \<or> map_of (r_entries r) x = Some (y, n)"
    unfolding retained_entries_def by (intro lru_put_get)
  then show ?thesis by (auto simp: retained_def)
qed

interpretation snapshot_retention:
  keyed_store retention_get "put_or_keep fp" retained retention_ok freeze_snapshot
  for fp :: "'k \<Rightarrow> loaded_snapshot \<Rightarrow> nat"
  by unfold_locales
    (erule retention_get_ok, erule put_or_keep_ok, simp only: retention_get_found,
     simp only: retention_get_same, erule (1) put_or_keep_retained)

section \<open>An example\<close>

definition ex_snapshot :: loaded_snapshot where
  "ex_snapshot = \<lparr>ls_solution_id = ''shop'', ls_project_id = ''app'', ls_lane = ''main'',
     ls_generation_id = replicate 64 CHR ''9'', ls_analysis_profile = ''default'',
     ls_source_fingerprint = replicate 64 CHR ''8'', ls_coverage_status = ''partial'', ls_records = 1,
     ls_shards = [\<lparr>sh_path = ''nodes/a.json'', sh_role = ''nodes'', sh_sha256 = replicate 64 CHR ''7'',
        sh_bytes = 4, sh_records = 1, sh_document = ListObj False [DictObj False []]\<rparr>],
     ls_bytes_copied = 4, ls_copy_ms = 0, ls_guard_held_during_copy = True,
     ls_parsed_after_guard_release = True, ls_verification = ''manifest_hash'', ls_freshness = ''unknown''\<rparr>"

definition ex_retention :: "nat retention" where
  "ex_retention = \<lparr>r_max_bytes = 10, r_max_entries = 1, r_entries = [], r_bytes = 0, r_hits = 0,
     r_misses = 0, r_evictions = 0\<rparr>"

lemma ex_retention_made: "make_retention (PInt 10) (PInt 1) = Inr ex_retention"
  by (simp add: make_retention_def ex_retention_def)

lemma make_retention_ok:
  "make_retention mb me = Inr r \<Longrightarrow> retention_ok r \<and> r_entries r = []"
  by (auto simp: make_retention_def retention_ok_def within_def split: pyval.splits if_splits)

section \<open>The properties of the retention\<close>

text \<open>
  Retaining refines the abstract least-recently-used store and never raises: a generation too
  large for the budget, as given or once frozen, changes nothing; any other becomes the newest entry
  in its frozen form, and the retention keeps exactly the longest newest part within its limits with
  the running counter equal to the weight held.
\<close>

theorem retention_put_refines_lru:
  assumes "retention_ok r"
  shows "\<exists>r'. retention_put fp r k v = Inr r' \<and> retention_ok r'
     \<and> (if int (fp k v) > r_max_bytes r \<or> int (fp k (freeze_snapshot v)) > r_max_bytes r then r' = r
        else r_entries r' = lru_put (r_max_entries r) (r_max_bytes r) entry_weight k
                 (freeze_snapshot v, int (fp k (freeze_snapshot v))) (r_entries r)
             \<and> r_bytes r' = total_weight entry_weight (r_entries r')
             \<and> retained r' k = Some (freeze_snapshot v))"
proof (rule retention_put_cases [of fp r k v])
  assume "retention_put fp r k v = Inr r"
    and "int (fp k v) > r_max_bytes r \<or> int (fp k (freeze_snapshot v)) > r_max_bytes r"
  with assms show ?thesis by auto
next
  assume fits: "int (fp k v) \<le> r_max_bytes r" "int (fp k (freeze_snapshot v)) \<le> r_max_bytes r"
  from retention_put_stored [where r = r and fp = fp, OF assms fits] obtain n where
    put: "retention_put fp r k v = Inr (r\<lparr>r_entries := retained_entries fp r k v,
            r_bytes := total_weight entry_weight (retained_entries fp r k v), r_evictions := n\<rparr>)" by blast
  have "map_of (retained_entries fp r k v) k = Some (freeze_snapshot v, int (fp k (freeze_snapshot v)))"
    unfolding retained_entries_def using assms fits by (intro lru_put_newest) (simp_all add: retention_ok_def)
  with put fits retention_stored_ok [where r = r and fp = fp, OF assms] show ?thesis
    by (simp add: retained_def) (simp add: retained_entries_def)
qed

theorem retention_put_refines_lru_witness:
  "\<exists>r'. retention_put (\<lambda>_ _. 3) ex_retention 0 ex_snapshot = Inr r'
     \<and> retained r' 0 = Some (freeze_snapshot ex_snapshot)"
proof -
  have "retention_ok ex_retention" using make_retention_ok [OF ex_retention_made] by simp
  from retention_put_refines_lru [OF this, of "\<lambda>_ _. 3" 0 ex_snapshot] show ?thesis
    by (auto simp: ex_retention_def)
qed

text \<open>
  A retained generation cannot be changed by one query for another: in any run on a new
  retention, what a get answers is a generation that was put under that key, with every document
  frozen and every document denoting the same JSON as the one put.
\<close>

theorem retention_serves_frozen_copies:
  assumes "make_retention mb me = Inr r"
    and "(k, v) \<in> set (snd (snapshot_retention.serve fp r requests))"
  shows "snapshot_frozen v \<and> (\<exists>w. Put k w \<in> set requests \<and> v = freeze_snapshot w
       \<and> map (\<lambda>s. denotes (sh_document s)) (ls_shards v)
           = map (\<lambda>s. denotes (sh_document s)) (ls_shards w))"
proof -
  have ok: "retention_ok r" and empty: "\<And>x. retained r x = None"
    using make_retention_ok [OF assms(1)] by (simp_all add: retained_def)
  from snapshot_retention.served_was_put [OF ok empty assms(2)] obtain w where
    "Put k w \<in> set requests" "v = freeze_snapshot w" by blast
  then show ?thesis
    by (auto simp: freeze_snapshot_frozen) (auto simp: freeze_snapshot_def freeze_denotes)
qed

theorem retention_serves_frozen_copies_witness:
  "snapshot_frozen (freeze_snapshot ex_snapshot) \<and> \<not> snapshot_frozen ex_snapshot"
proof -
  have "(0, freeze_snapshot ex_snapshot)
      \<in> set (snd (snapshot_retention.serve (\<lambda>_ _. 3) ex_retention [Put 0 ex_snapshot, Get 0]))"
    by (simp add: put_or_keep_def retention_put_def ex_retention_def retention_get_def)
  from retention_serves_frozen_copies [OF ex_retention_made this]
  show ?thesis by (simp add: snapshot_frozen_def ex_snapshot_def)
qed

end
