(* ===== verification/Manifest.thy ===== *)
theory Manifest
  imports Hashing
begin

text \<open>
  \<open>manifest.py\<close>: the pointer, the manifest and the shards of a published generation, and the three
  digests that close over each other. Bytes and texts are lists of \<open>char\<close>; \<open>loads\<close> is
  \<open>json.loads\<close> on decoded text (\<open>None\<close> for a \<open>JSONDecodeError\<close>), an argument of every definition
  that parses: what is proved holds whatever the parser accepts. The messages of the errors are left
  out; \<open>raw\<close> is always a byte string.
\<close>

datatype manifest_error =
    CanonicalSerializationError
  | ManifestUnreadable
  | NotCanonicalBytes
  | UnsupportedSchemaMajor
  | ManifestInvalid
  | DuplicateManifestEntry
  | DigestMismatch
  | ByteSizeMismatch
  | RecordCountMismatch

type_synonym 'a checked = "manifest_error + 'a"

definition SUPPORTED_SCHEMA_MAJOR :: int where "SUPPORTED_SCHEMA_MAJOR = 1"
definition MANIFEST_FILENAME :: string where "MANIFEST_FILENAME = ''manifest.json''"
definition MAX_SHARD_BYTES :: int where "MAX_SHARD_BYTES = 16777216"

definition UTF8_BOM :: string where
  "UTF8_BOM = [CHR 0xEF, CHR 0xBB, CHR 0xBF]"

definition FILE_ROLES :: "string list" where
  "FILE_ROLES = [''nodes'', ''edges'', ''symbol_index'', ''outgoing_index'', ''incoming_index'',
     ''architecture_summary'', ''coverage'']"

definition COVERAGE_STATUSES :: "string list" where
  "COVERAGE_STATUSES = [''complete_for_profile'', ''partial'', ''unsupported'']"

definition MANIFEST_REQUIRED :: "string list" where
  "MANIFEST_REQUIRED = [''schema_version'', ''solution_id'', ''project_id'', ''analysis_profile'',
     ''generator_version'', ''analyzer_set_hash'', ''source_fingerprint'', ''config_fingerprint'',
     ''dependency_fingerprint'', ''coverage'', ''files'']"

definition MANIFEST_ENTRY_KEYS :: "string list" where
  "MANIFEST_ENTRY_KEYS = [''path'', ''role'', ''sha256'', ''bytes'', ''records'']"

definition MANIFEST_FINGERPRINTS :: "string list" where
  "MANIFEST_FINGERPRINTS = [''analyzer_set_hash'', ''source_fingerprint'', ''config_fingerprint'',
     ''dependency_fingerprint'']"

definition COVERAGE_KEYS :: "string list" where
  "COVERAGE_KEYS = [''status'', ''input_files'', ''processed_files'', ''unresolved_references'',
     ''unsupported_patterns'']"

definition POINTER_REQUIRED :: "string list" where
  "POINTER_REQUIRED = [''schema_version'', ''generation_id'', ''manifest_sha256'']"

definition SELF_HASH_FIELDS :: "string list" where
  "SELF_HASH_FIELDS = [''manifest_sha256'', ''generation_id'', ''manifest_id'', ''self_sha256'']"

definition is_sha256 :: "pyval \<Rightarrow> bool" where
  "is_sha256 v = (case v of PStr s \<Rightarrow> SHA256_RE s | _ \<Rightarrow> False)"

section \<open>Canonical bytes\<close>

function canonicalization_reasons :: "pyval \<Rightarrow> string list" where
  "canonicalization_reasons v =
     (case v of
        PFloat _ \<Rightarrow> [''float_not_allowed_in_canonical_metadata'']
      | PDict d \<Rightarrow> concat (map (\<lambda>p. canonicalization_reasons (snd p)) d)
      | PList xs \<Rightarrow> concat (map canonicalization_reasons xs)
      | _ \<Rightarrow> [])"
  by pat_completeness auto
termination
  by (relation "measure size") (auto dest: pyval_dict_size simp: less_Suc_eq_le size_list_estimation')

declare canonicalization_reasons.simps [simp del]

definition canonical_text :: "pyval \<Rightarrow> string checked" where
  "canonical_text v =
     (if canonicalization_reasons v \<noteq> [] then Inl CanonicalSerializationError
      else Inr (dumps v @ [newline]))"

definition canonical_bytes :: "pyval \<Rightarrow> string checked" where
  "canonical_bytes v = canonical_text v"

definition canonical_sha256 :: "pyval \<Rightarrow> string checked" where
  "canonical_sha256 v = bind_result (canonical_bytes v) (\<lambda>b. Inr (sha256_hex b))"

definition generation_id :: "(string, pyval) dict \<Rightarrow> string checked" where
  "generation_id m = canonical_sha256 (PDict m)"

text \<open>What \<open>bytes.decode("utf-8")\<close> accepts.\<close>

definition cont :: "nat \<Rightarrow> nat \<Rightarrow> nat \<Rightarrow> bool" where
  "cont lo hi b = (lo \<le> b \<and> b \<le> hi)"

fun utf8_ok :: "nat list \<Rightarrow> bool" where
  "utf8_ok [] = True"
| "utf8_ok (a # s) =
     (if a < 128 then utf8_ok s
      else if cont 194 223 a then (case s of b # t \<Rightarrow> cont 128 191 b \<and> utf8_ok t | _ \<Rightarrow> False)
      else if cont 224 239 a then
        (case s of
           b # c # t \<Rightarrow> cont (if a = 224 then 160 else 128) (if a = 237 then 159 else 191) b
             \<and> cont 128 191 c \<and> utf8_ok t
         | _ \<Rightarrow> False)
      else if cont 240 244 a then
        (case s of
           b # c # d # t \<Rightarrow> cont (if a = 240 then 144 else 128) (if a = 244 then 143 else 191) b
             \<and> cont 128 191 c \<and> cont 128 191 d \<and> utf8_ok t
         | _ \<Rightarrow> False)
      else False)"

lemma utf8_ok_ascii: "list_all (\<lambda>n. n < 128) s \<Longrightarrow> utf8_ok s"
  by (induction s) auto

definition decode_utf8 :: "string \<Rightarrow> string checked" where
  "decode_utf8 raw =
     (if take 3 raw = UTF8_BOM then Inl ManifestUnreadable
      else if utf8_ok (map of_char raw) then Inr raw else Inl ManifestUnreadable)"

definition parse_json :: "(string \<Rightarrow> pyval option) \<Rightarrow> string \<Rightarrow> pyval checked" where
  "parse_json loads text =
     (case loads text of None \<Rightarrow> Inl ManifestUnreadable | Some v \<Rightarrow> Inr v)"

definition is_canonical_bytes :: "(string \<Rightarrow> pyval option) \<Rightarrow> string \<Rightarrow> bool" where
  "is_canonical_bytes loads raw =
     (case bind_result (decode_utf8 raw) (parse_json loads) of
        Inl _ \<Rightarrow> False
      | Inr document \<Rightarrow> canonical_bytes document = Inr raw)"

section \<open>Field checks\<close>

definition require_object :: "pyval \<Rightarrow> (string, pyval) dict checked" where
  "require_object v = (case v of PDict d \<Rightarrow> Inr d | _ \<Rightarrow> Inl ManifestInvalid)"

definition require_exact_keys :: "(string, pyval) dict \<Rightarrow> string list \<Rightarrow> unit checked" where
  "require_exact_keys d expected =
     guard_result (set (dict_keys d) = set expected) ManifestInvalid"

definition get_field :: "(string, pyval) dict \<Rightarrow> string \<Rightarrow> pyval" where
  "get_field d name = (case dict_get d name of None \<Rightarrow> PNone | Some v \<Rightarrow> v)"

definition require_schema_major :: "(string, pyval) dict \<Rightarrow> int checked" where
  "require_schema_major d =
     (case get_field d ''schema_version'' of
        PInt i \<Rightarrow> if i \<noteq> SUPPORTED_SCHEMA_MAJOR then Inl UnsupportedSchemaMajor else Inr i
      | _ \<Rightarrow> Inl ManifestInvalid)"

definition require_canonical :: "string \<Rightarrow> pyval \<Rightarrow> unit checked" where
  "require_canonical raw document =
     (case canonical_bytes document of
        Inl _ \<Rightarrow> Inl NotCanonicalBytes
      | Inr rendered \<Rightarrow> guard_result (rendered = raw) NotCanonicalBytes)"

definition sha256_field :: "(string, pyval) dict \<Rightarrow> string \<Rightarrow> string checked" where
  "sha256_field d name =
     (case get_field d name of
        PStr s \<Rightarrow> if SHA256_RE s then Inr s else Inl ManifestInvalid
      | _ \<Rightarrow> Inl ManifestInvalid)"

definition identifier_field :: "(string, pyval) dict \<Rightarrow> string \<Rightarrow> string checked" where
  "identifier_field d name =
     (case get_field d name of
        PStr s \<Rightarrow> if IDENTIFIER_RE s then Inr s else Inl ManifestInvalid
      | _ \<Rightarrow> Inl ManifestInvalid)"

definition text_field :: "(string, pyval) dict \<Rightarrow> string \<Rightarrow> string checked" where
  "text_field d name =
     (case get_field d name of PStr s \<Rightarrow> if s = [] then Inl ManifestInvalid else Inr s
      | _ \<Rightarrow> Inl ManifestInvalid)"

definition integer_field :: "(string, pyval) dict \<Rightarrow> string \<Rightarrow> int \<Rightarrow> int option \<Rightarrow> int checked" where
  "integer_field d name minimum maximum =
     (case get_field d name of
        PInt i \<Rightarrow>
          if i < minimum \<or> (case maximum of None \<Rightarrow> False | Some m \<Rightarrow> i > m) then Inl ManifestInvalid
          else Inr i
      | _ \<Rightarrow> Inl ManifestInvalid)"

definition list_field :: "(string, pyval) dict \<Rightarrow> string \<Rightarrow> pyval list checked" where
  "list_field d name = (case get_field d name of PList xs \<Rightarrow> Inr xs | _ \<Rightarrow> Inl ManifestInvalid)"

definition portable_path :: "pyval \<Rightarrow> string checked" where
  "portable_path v =
     (case v of PStr s \<Rightarrow> if PORTABLE_RELATIVE_RE s then Inr s else Inl ManifestInvalid
      | _ \<Rightarrow> Inl ManifestInvalid)"

section \<open>The pointer\<close>

record pointer =
  p_generation_id :: string
  p_manifest_sha256 :: string
  p_schema_version :: int
  p_raw :: string

definition pointer_as_document :: "pointer \<Rightarrow> (string, pyval) dict" where
  "pointer_as_document p =
     [(''schema_version'', PInt (p_schema_version p)),
      (''generation_id'', PStr (p_generation_id p)),
      (''manifest_sha256'', PStr (p_manifest_sha256 p))]"

definition parse_document :: "(string \<Rightarrow> pyval option) \<Rightarrow> string \<Rightarrow> (string, pyval) dict checked" where
  "parse_document loads raw =
     bind_result (decode_utf8 raw) (\<lambda>text.
     bind_result (parse_json loads text) require_object)"

definition load_pointer_bytes :: "(string \<Rightarrow> pyval option) \<Rightarrow> string \<Rightarrow> pointer checked" where
  "load_pointer_bytes loads raw =
     bind_result (parse_document loads raw) (\<lambda>document.
     bind_result (require_schema_major document) (\<lambda>_.
     bind_result (require_canonical raw (PDict document)) (\<lambda>_.
     bind_result (require_exact_keys document POINTER_REQUIRED) (\<lambda>_.
     bind_result (sha256_field document ''generation_id'') (\<lambda>generation.
     bind_result (sha256_field document ''manifest_sha256'') (\<lambda>manifest_sha256.
     if generation \<noteq> manifest_sha256 then Inl ManifestInvalid
     else Inr \<lparr>p_generation_id = generation, p_manifest_sha256 = manifest_sha256,
               p_schema_version = SUPPORTED_SCHEMA_MAJOR, p_raw = raw\<rparr>))))))"

section \<open>The manifest\<close>

record manifest_entry =
  me_path :: string
  me_role :: string
  me_sha256 :: string
  me_bytes :: int
  me_records :: int

definition entry_as_document :: "manifest_entry \<Rightarrow> (string, pyval) dict" where
  "entry_as_document e =
     [(''path'', PStr (me_path e)), (''role'', PStr (me_role e)), (''sha256'', PStr (me_sha256 e)),
      (''bytes'', PInt (me_bytes e)), (''records'', PInt (me_records e))]"

record manifest =
  m_schema_version :: int
  m_solution_id :: string
  m_project_id :: string
  m_analysis_profile :: string
  m_generator_version :: string
  m_analyzer_set_hash :: string
  m_source_fingerprint :: string
  m_config_fingerprint :: string
  m_dependency_fingerprint :: string
  m_coverage :: "(string, pyval) dict"
  m_files :: "manifest_entry list"
  m_data :: string

definition manifest_generation_id :: "manifest \<Rightarrow> string" where
  "manifest_generation_id m = sha256_hex (m_data m)"

definition byte_size :: "manifest \<Rightarrow> nat" where
  "byte_size m = length (m_data m)"

definition total_bytes :: "manifest \<Rightarrow> int" where
  "total_bytes m = (\<Sum>e\<leftarrow>m_files m. me_bytes e)"

definition total_records :: "manifest \<Rightarrow> int" where
  "total_records m = (\<Sum>e\<leftarrow>m_files m. me_records e)"

definition roles :: "manifest \<Rightarrow> string list" where
  "roles m = map me_role (m_files m)"

fun find_entry :: "manifest_entry list \<Rightarrow> string \<Rightarrow> manifest_entry checked" where
  "find_entry [] path = Inl ManifestInvalid"
| "find_entry (e # es) path = (if me_path e = path then Inr e else find_entry es path)"

definition manifest_entry_of :: "manifest \<Rightarrow> string \<Rightarrow> manifest_entry checked" where
  "manifest_entry_of m path = find_entry (m_files m) path"

definition entries_for_role :: "manifest \<Rightarrow> string \<Rightarrow> manifest_entry list" where
  "entries_for_role m role = filter (\<lambda>e. me_role e = role) (m_files m)"

definition non_empty_text :: "pyval \<Rightarrow> bool" where
  "non_empty_text v = (case v of PStr s \<Rightarrow> s \<noteq> [] | _ \<Rightarrow> False)"

definition in_texts :: "pyval \<Rightarrow> string list \<Rightarrow> string checked" where
  "in_texts v allowed =
     (case v of PStr s \<Rightarrow> if s \<in> set allowed then Inr s else Inl ManifestInvalid
      | _ \<Rightarrow> Inl ManifestInvalid)"

definition validate_coverage :: "(string, pyval) dict \<Rightarrow> (string, pyval) dict checked" where
  "validate_coverage document =
     bind_result (require_object (get_field document ''coverage'')) (\<lambda>coverage.
     bind_result (require_exact_keys coverage COVERAGE_KEYS) (\<lambda>_.
     bind_result (in_texts (get_field coverage ''status'') COVERAGE_STATUSES) (\<lambda>_.
     bind_result (integer_field coverage ''input_files'' 0 None) (\<lambda>inputs.
     bind_result (integer_field coverage ''processed_files'' 0 None) (\<lambda>processed.
     bind_result (integer_field coverage ''unresolved_references'' 0 None) (\<lambda>_.
     bind_result (guard_result (processed \<le> inputs) ManifestInvalid) (\<lambda>_.
     bind_result (list_field coverage ''unsupported_patterns'') (\<lambda>patterns.
     bind_result (guard_result (list_all non_empty_text patterns) ManifestInvalid) (\<lambda>_.
       Inr coverage)))))))))"

definition validate_entry :: "pyval \<Rightarrow> manifest_entry checked" where
  "validate_entry v =
     bind_result (require_object v) (\<lambda>item.
     bind_result (require_exact_keys item MANIFEST_ENTRY_KEYS) (\<lambda>_.
     bind_result (portable_path (get_field item ''path'')) (\<lambda>path.
     bind_result (in_texts (get_field item ''role'') FILE_ROLES) (\<lambda>role.
     bind_result (sha256_field item ''sha256'') (\<lambda>digest.
     bind_result (integer_field item ''bytes'' 1 (Some MAX_SHARD_BYTES)) (\<lambda>size.
     bind_result (integer_field item ''records'' 0 None) (\<lambda>records.
       Inr \<lparr>me_path = path, me_role = role, me_sha256 = digest, me_bytes = size,
            me_records = records\<rparr>)))))))"

text \<open>One turn of the loop over \<open>files\<close>, with the entries accepted so far.\<close>

definition add_entry :: "manifest_entry list \<Rightarrow> pyval \<Rightarrow> manifest_entry list checked" where
  "add_entry seen v =
     bind_result (validate_entry v) (\<lambda>e.
     if me_path e \<in> me_path ` set seen then Inl DuplicateManifestEntry
     else if me_role e \<in> me_role ` set seen then Inl DuplicateManifestEntry
     else Inr (seen @ [e]))"

definition load_manifest_bytes :: "(string \<Rightarrow> pyval option) \<Rightarrow> string \<Rightarrow> manifest checked" where
  "load_manifest_bytes loads raw =
     bind_result (parse_document loads raw) (\<lambda>document.
     bind_result (require_schema_major document) (\<lambda>_.
     bind_result (require_canonical raw (PDict document)) (\<lambda>_.
     bind_result (guard_result (list_all (\<lambda>f. \<not> dict_has document f) SELF_HASH_FIELDS) ManifestInvalid) (\<lambda>_.
     bind_result (require_exact_keys document MANIFEST_REQUIRED) (\<lambda>_.
     bind_result (identifier_field document ''solution_id'') (\<lambda>solution.
     bind_result (identifier_field document ''project_id'') (\<lambda>project.
     bind_result (text_field document ''analysis_profile'') (\<lambda>profile.
     bind_result (text_field document ''generator_version'') (\<lambda>generator.
     bind_result (sha256_field document ''analyzer_set_hash'') (\<lambda>analyzer.
     bind_result (sha256_field document ''source_fingerprint'') (\<lambda>source.
     bind_result (sha256_field document ''config_fingerprint'') (\<lambda>config.
     bind_result (sha256_field document ''dependency_fingerprint'') (\<lambda>dependency.
     bind_result (validate_coverage document) (\<lambda>coverage.
     bind_result (list_field document ''files'') (\<lambda>items.
     bind_result (guard_result (items \<noteq> []) ManifestInvalid) (\<lambda>_.
     bind_result (fold_result add_entry [] items) (\<lambda>files.
       Inr \<lparr>m_schema_version = SUPPORTED_SCHEMA_MAJOR, m_solution_id = solution,
              m_project_id = project, m_analysis_profile = profile, m_generator_version = generator,
              m_analyzer_set_hash = analyzer, m_source_fingerprint = source,
              m_config_fingerprint = config, m_dependency_fingerprint = dependency,
              m_coverage = coverage, m_files = files, m_data = raw\<rparr>)))))))))))))))))"

section \<open>Verification\<close>

definition record_count :: "pyval \<Rightarrow> int checked" where
  "record_count v =
     (case v of PList xs \<Rightarrow> Inr (int (length xs)) | PDict _ \<Rightarrow> Inr 1 | _ \<Rightarrow> Inl ManifestInvalid)"

definition verify_shard :: "(string \<Rightarrow> pyval option) \<Rightarrow> manifest_entry \<Rightarrow> string \<Rightarrow> pyval checked" where
  "verify_shard loads e payload =
     bind_result (guard_result (int (length payload) = me_bytes e) ByteSizeMismatch) (\<lambda>_.
     bind_result (guard_result (sha256_hex payload = me_sha256 e) DigestMismatch) (\<lambda>_.
     bind_result (decode_utf8 payload) (\<lambda>text.
     bind_result (parse_json loads text) (\<lambda>document.
     bind_result (record_count document) (\<lambda>records.
     bind_result (guard_result (records = me_records e) RecordCountMismatch) (\<lambda>_.
       Inr document))))))"

record closure_report =
  cr_entries :: nat
  cr_bytes :: int
  cr_records :: int
  cr_paths :: "string list"

text \<open>\<open>read\<close> gives the bytes of a manifest-relative path, or \<open>None\<close> for an \<open>OSError\<close>.\<close>

definition close_entry ::
    "(string \<Rightarrow> pyval option) \<Rightarrow> (string \<Rightarrow> string option) \<Rightarrow> closure_report \<Rightarrow> manifest_entry
       \<Rightarrow> closure_report checked" where
  "close_entry loads read report e =
     (case read (me_path e) of
        None \<Rightarrow> Inl ManifestUnreadable
      | Some data \<Rightarrow>
          bind_result (verify_shard loads e data) (\<lambda>_.
            Inr \<lparr>cr_entries = cr_entries report + 1, cr_bytes = cr_bytes report + me_bytes e,
                 cr_records = cr_records report + me_records e,
                 cr_paths = cr_paths report @ [me_path e]\<rparr>))"

definition verify_closure ::
    "(string \<Rightarrow> pyval option) \<Rightarrow> manifest \<Rightarrow> (string \<Rightarrow> string option) \<Rightarrow> closure_report checked" where
  "verify_closure loads m read =
     fold_result (close_entry loads read)
       \<lparr>cr_entries = 0, cr_bytes = 0, cr_records = 0, cr_paths = []\<rparr> (sort_key me_path (m_files m))"

definition verify_pointer :: "manifest \<Rightarrow> pointer \<Rightarrow> unit checked" where
  "verify_pointer m p =
     (let digest = manifest_generation_id m in
      if p_generation_id p \<noteq> digest then Inl DigestMismatch
      else if p_manifest_sha256 p \<noteq> digest then Inl DigestMismatch
      else if p_schema_version p \<noteq> m_schema_version m then Inl ManifestInvalid
      else Inr ())"

definition read_bytes :: "string option \<Rightarrow> string checked" where
  "read_bytes content = (case content of None \<Rightarrow> Inl ManifestUnreadable | Some b \<Rightarrow> Inr b)"

text \<open>
  \<open>pointer_file\<close> is the content of the pointer file, and \<open>manifest_file\<close> of the manifest in the
  generation directory of a name beside it.
\<close>

definition load_generation ::
    "(string \<Rightarrow> pyval option) \<Rightarrow> string option \<Rightarrow> (string \<Rightarrow> string option)
       \<Rightarrow> (pointer \<times> manifest \<times> string) checked" where
  "load_generation loads pointer_file manifest_file =
     bind_result (read_bytes pointer_file) (\<lambda>raw.
     bind_result (load_pointer_bytes loads raw) (\<lambda>p.
     let directory = p_generation_id p in
     bind_result (read_bytes (manifest_file directory)) (\<lambda>data.
     bind_result (load_manifest_bytes loads data) (\<lambda>m.
     if directory \<noteq> manifest_generation_id m then Inl DigestMismatch
     else bind_result (verify_pointer m p) (\<lambda>_. Inr (p, m, directory))))))"

section \<open>What is accepted\<close>

lemma decode_utf8_Inr:
  "decode_utf8 raw = Inr t \<longleftrightarrow> t = raw \<and> take 3 raw \<noteq> UTF8_BOM \<and> utf8_ok (map of_char raw)"
  by (auto simp: decode_utf8_def)

lemma parse_json_Inr: "parse_json loads t = Inr v \<longleftrightarrow> loads t = Some v"
  by (auto simp: parse_json_def split: option.split)

lemma require_object_Inr: "require_object v = Inr d \<longleftrightarrow> v = PDict d"
  by (auto simp: require_object_def split: pyval.split)

lemma require_schema_major_Inr:
  "require_schema_major d = Inr i \<longleftrightarrow> get_field d ''schema_version'' = PInt i \<and> i = SUPPORTED_SCHEMA_MAJOR"
  by (auto simp: require_schema_major_def split: pyval.split)

lemma require_canonical_Inr: "require_canonical raw v = Inr u \<longleftrightarrow> canonical_bytes v = Inr raw"
  by (auto simp: require_canonical_def guard_result_def split: sum.split)

lemma sha256_field_Inr: "sha256_field d n = Inr s \<longleftrightarrow> get_field d n = PStr s \<and> SHA256_RE s"
  by (auto simp: sha256_field_def split: pyval.splits if_splits)

lemma identifier_field_Inr: "identifier_field d n = Inr s \<longleftrightarrow> get_field d n = PStr s \<and> IDENTIFIER_RE s"
  by (auto simp: identifier_field_def split: pyval.splits if_splits)

lemma text_field_Inr: "text_field d n = Inr s \<longleftrightarrow> get_field d n = PStr s \<and> s \<noteq> []"
  by (auto simp: text_field_def split: pyval.splits if_splits)

lemma integer_field_Inr:
  "integer_field d n lo hi = Inr i \<longleftrightarrow>
     get_field d n = PInt i \<and> lo \<le> i \<and> (\<forall>m. hi = Some m \<longrightarrow> i \<le> m)"
  by (auto simp: integer_field_def split: pyval.splits if_splits option.splits)

lemma portable_path_Inr: "portable_path v = Inr s \<longleftrightarrow> v = PStr s \<and> PORTABLE_RELATIVE_RE s"
  by (auto simp: portable_path_def split: pyval.splits if_splits)

lemma in_texts_Inr: "in_texts v allowed = Inr s \<longleftrightarrow> v = PStr s \<and> s \<in> set allowed"
  by (auto simp: in_texts_def split: pyval.splits if_splits)

lemma list_field_Inr: "list_field d n = Inr xs \<longleftrightarrow> get_field d n = PList xs"
  by (auto simp: list_field_def split: pyval.splits)

lemmas field_simps' = list_field_Inr decode_utf8_Inr parse_json_Inr require_object_Inr require_schema_major_Inr
  require_canonical_Inr sha256_field_Inr identifier_field_Inr text_field_Inr integer_field_Inr
  portable_path_Inr in_texts_Inr bind_result_eq_Inr guard_result_eq_Inr

text \<open>Bytes that are the canonical form of the object they parse to.\<close>

definition canonical_of :: "(string \<Rightarrow> pyval option) \<Rightarrow> string \<Rightarrow> (string, pyval) dict \<Rightarrow> bool" where
  "canonical_of loads raw d =
     (loads raw = Some (PDict d) \<and> canonical_bytes (PDict d) = Inr raw
      \<and> take 3 raw \<noteq> UTF8_BOM \<and> utf8_ok (map of_char raw))"

definition entry_ok :: "manifest_entry \<Rightarrow> bool" where
  "entry_ok e =
     (PORTABLE_RELATIVE_RE (me_path e) \<and> me_role e \<in> set FILE_ROLES \<and> SHA256_RE (me_sha256 e)
      \<and> 1 \<le> me_bytes e \<and> me_bytes e \<le> MAX_SHARD_BYTES \<and> 0 \<le> me_records e)"

definition coverage_ok :: "(string, pyval) dict \<Rightarrow> bool" where
  "coverage_ok c =
     (set (dict_keys c) = set COVERAGE_KEYS
      \<and> (\<exists>status inputs processed unresolved patterns.
           get_field c ''status'' = PStr status \<and> status \<in> set COVERAGE_STATUSES
           \<and> get_field c ''input_files'' = PInt inputs \<and> get_field c ''processed_files'' = PInt processed
           \<and> 0 \<le> processed \<and> processed \<le> inputs
           \<and> get_field c ''unresolved_references'' = PInt unresolved \<and> 0 \<le> unresolved
           \<and> get_field c ''unsupported_patterns'' = PList patterns \<and> list_all non_empty_text patterns))"

definition files_ok :: "manifest_entry list \<Rightarrow> bool" where
  "files_ok es = (distinct (map me_path es) \<and> distinct (map me_role es) \<and> list_all entry_ok es)"

definition manifest_ok :: "manifest \<Rightarrow> bool" where
  "manifest_ok m =
     (m_schema_version m = SUPPORTED_SCHEMA_MAJOR
      \<and> IDENTIFIER_RE (m_solution_id m) \<and> IDENTIFIER_RE (m_project_id m)
      \<and> m_analysis_profile m \<noteq> [] \<and> m_generator_version m \<noteq> []
      \<and> list_all SHA256_RE [m_analyzer_set_hash m, m_source_fingerprint m, m_config_fingerprint m,
          m_dependency_fingerprint m]
      \<and> coverage_ok (m_coverage m) \<and> m_files m \<noteq> [] \<and> files_ok (m_files m))"

lemma validate_entry_ok: "validate_entry v = Inr e \<Longrightarrow> entry_ok e"
  by (auto simp: validate_entry_def entry_ok_def field_simps')

lemma validate_coverage_ok: "validate_coverage d = Inr c \<Longrightarrow> coverage_ok c"
  by (auto simp: validate_coverage_def coverage_ok_def field_simps' require_exact_keys_def)

lemma add_entry_ok: "add_entry es v = Inr es' \<Longrightarrow> files_ok es \<Longrightarrow> files_ok es' \<and> es' \<noteq> []"
  by (auto simp: add_entry_def bind_result_eq_Inr files_ok_def validate_entry_ok split: if_splits)

lemma add_entries_ok:
  "fold_result add_entry es vs = Inr es' \<Longrightarrow> files_ok es \<Longrightarrow> files_ok es' \<and> length es' = length es + length vs"
proof (induction vs arbitrary: es)
  case (Cons v vs)
  then obtain fs where fs: "add_entry es v = Inr fs" "fold_result add_entry fs vs = Inr es'"
    by (auto simp: bind_result_eq_Inr)
  have "length fs = length es + 1"
    using fs(1) by (auto simp: add_entry_def bind_result_eq_Inr split: if_splits)
  with Cons.IH [OF fs(2)] add_entry_ok [OF fs(1) Cons.prems(2)] show ?case by simp
qed simp

lemma parse_document_Inr:
  "parse_document loads raw = Inr d \<longleftrightarrow>
     loads raw = Some (PDict d) \<and> take 3 raw \<noteq> UTF8_BOM \<and> utf8_ok (map of_char raw)"
  by (auto simp: parse_document_def field_simps')

lemma load_manifest_bytes_ok:
  assumes "load_manifest_bytes loads raw = Inr m"
  shows "manifest_ok m \<and> m_data m = raw
     \<and> (\<exists>d. canonical_of loads raw d \<and> set (dict_keys d) = set MANIFEST_REQUIRED)"
proof -
  from assms obtain d items where d: "parse_document loads raw = Inr d"
    "canonical_bytes (PDict d) = Inr raw" "set (dict_keys d) = set MANIFEST_REQUIRED"
    and items: "items \<noteq> []" "fold_result add_entry [] items = Inr (m_files m)"
    and m: "m_data m = raw" "m_schema_version m = SUPPORTED_SCHEMA_MAJOR"
      "IDENTIFIER_RE (m_solution_id m)" "IDENTIFIER_RE (m_project_id m)"
      "m_analysis_profile m \<noteq> []" "m_generator_version m \<noteq> []"
      "SHA256_RE (m_analyzer_set_hash m)" "SHA256_RE (m_source_fingerprint m)"
      "SHA256_RE (m_config_fingerprint m)" "SHA256_RE (m_dependency_fingerprint m)"
      "validate_coverage d = Inr (m_coverage m)"
    by (auto simp: load_manifest_bytes_def field_simps' require_exact_keys_def)
  have "files_ok (m_files m) \<and> length (m_files m) = length items"
    using add_entries_ok [OF items(2)] by (simp add: files_ok_def)
  with items(1) have "files_ok (m_files m)" "m_files m \<noteq> []" by auto
  then have "manifest_ok m"
    using m validate_coverage_ok [OF m(11)] by (simp add: manifest_ok_def)
  with d m(1) show ?thesis by (auto simp: parse_document_Inr canonical_of_def)
qed

lemma load_pointer_bytes_ok:
  assumes "load_pointer_bytes loads raw = Inr p"
  shows "p_raw p = raw \<and> p_manifest_sha256 p = p_generation_id p \<and> SHA256_RE (p_generation_id p)
     \<and> (\<exists>d. canonical_of loads raw d)"
  using assms
  by (auto simp: load_pointer_bytes_def field_simps' parse_document_Inr canonical_of_def split: if_splits)

section \<open>Shards and their closure\<close>

lemma verify_shard_Inr:
  "verify_shard loads e data = Inr v \<longleftrightarrow>
     int (length data) = me_bytes e \<and> sha256_hex data = me_sha256 e
     \<and> take 3 data \<noteq> UTF8_BOM \<and> utf8_ok (map of_char data) \<and> loads data = Some v
     \<and> record_count v = Inr (me_records e)"
  by (auto simp: verify_shard_def field_simps')

definition shard_verified ::
    "(string \<Rightarrow> pyval option) \<Rightarrow> (string \<Rightarrow> string option) \<Rightarrow> manifest_entry \<Rightarrow> bool" where
  "shard_verified loads read e =
     (case read (me_path e) of None \<Rightarrow> False | Some data \<Rightarrow> is_ok (verify_shard loads e data))"

lemma close_entry_Inr:
  "close_entry loads read report e = Inr report' \<longleftrightarrow>
     shard_verified loads read e
     \<and> report' = \<lparr>cr_entries = cr_entries report + 1, cr_bytes = cr_bytes report + me_bytes e,
          cr_records = cr_records report + me_records e, cr_paths = cr_paths report @ [me_path e]\<rparr>"
  by (auto simp: close_entry_def shard_verified_def bind_result_eq_Inr is_ok_iff split: option.split)

lemma close_entries_Inr:
  "fold_result (close_entry loads read) report es = Inr report' \<longleftrightarrow>
     list_all (shard_verified loads read) es
     \<and> report' = \<lparr>cr_entries = cr_entries report + length es,
          cr_bytes = cr_bytes report + (\<Sum>e\<leftarrow>es. me_bytes e),
          cr_records = cr_records report + (\<Sum>e\<leftarrow>es. me_records e),
          cr_paths = cr_paths report @ map me_path es\<rparr>"
proof (induction es arbitrary: report)
  case Nil
  show ?case by (cases report; cases report') auto
next
  case (Cons e es)
  then show ?case by (auto simp: bind_result_eq_Inr close_entry_Inr add.assoc)
qed

lemma sum_sort_key: "(\<Sum>x\<leftarrow>sort_key k xs. f x) = (\<Sum>x\<leftarrow>xs. (f x :: int))"
  by (metis mset_map mset_sort sum_mset_sum_list)

lemma map_sort_key: "map k (sort_key k xs) = sort (map k xs)"
proof (rule sym, rule properties_for_sort)
  show "mset (map k (sort_key k xs)) = mset (map k xs)" by simp
  show "sorted (map k (sort_key k xs))" by simp
qed

section \<open>ASCII texts\<close>

definition ascii :: "string \<Rightarrow> bool" where
  "ascii s = list_all (\<lambda>c. (of_char c :: nat) < 128) s"

lemma ascii_append [simp]: "ascii (s @ t) \<longleftrightarrow> ascii s \<and> ascii t"
  by (simp add: ascii_def)

lemma ascii_Cons [simp]: "ascii (c # s) \<longleftrightarrow> (of_char c :: nat) < 128 \<and> ascii s"
  by (simp add: ascii_def)

lemma ascii_Nil [simp]: "ascii []"
  by (simp add: ascii_def)

lemma ascii_utf8: "ascii s \<Longrightarrow> utf8_ok (map of_char s)"
  by (rule utf8_ok_ascii) (simp add: ascii_def list_all_iff)

lemma hex_digit_ascii: "n < 16 \<Longrightarrow> (of_char (hex_digit n) :: nat) < 128"
  by (simp add: hex_digit_def)

lemma json_char_ascii: "(of_char c :: nat) < 128 \<Longrightarrow> ascii (json_char c)"
  by (auto simp: json_char_def newline_def hex_digit_ascii less_mult_imp_div_less)

lemma json_string_ascii: "ascii s \<Longrightarrow> ascii (json_string s)"
proof -
  have "ascii s \<Longrightarrow> ascii (concat (map json_char s))"
    by (induction s) (simp_all add: json_char_ascii)
  then show "ascii s \<Longrightarrow> ascii (json_string s)" by (simp add: json_string_def)
qed

lemma nat_digits_ascii: "ascii (nat_digits n)"
  by (induction n rule: nat_digits.induct) (subst nat_digits.simps, auto)

lemma int_repr_ascii: "ascii (int_repr i)"
  by (simp add: int_repr_def nat_digits_ascii)

lemma join_with_ascii: "ascii sep \<Longrightarrow> list_all ascii ss \<Longrightarrow> ascii (join_with sep ss)"
  by (induction sep ss rule: join_with.induct) simp_all

fun ascii_value :: "pyval \<Rightarrow> bool" where
  "ascii_value (PStr s) = ascii s"
| "ascii_value (PFloat r) = ascii r"
| "ascii_value (PList xs) = list_all ascii_value xs"
| "ascii_value (PDict d) = list_all (\<lambda>p. ascii (fst p) \<and> ascii_value (snd p)) d"
| "ascii_value _ = True"

lemma dumps_ascii: "ascii_value v \<Longrightarrow> ascii (dumps v)"
proof (induction v rule: dumps.induct)
  case (6 xs)
  then show ?case by (auto intro!: join_with_ascii simp: list_all_iff)
next
  case (7 d)
  have "ascii (json_string (fst p) @ '':'' @ dumps (snd p))" if "p \<in> set d" for p
    using 7 that by (auto simp: list_all_iff json_string_ascii)
  then show ?case by (auto intro!: join_with_ascii simp: list_all_iff)
qed (simp_all add: int_repr_ascii json_string_ascii)

lemma dumps_dict_no_bom: "take 3 (dumps (PDict d) @ [newline]) \<noteq> UTF8_BOM"
  by (simp add: UTF8_BOM_def)

lemma sha256_hex_ascii: "ascii (sha256_hex s)"
proof -
  have "is_hex c \<Longrightarrow> (of_char c :: nat) < 128" for c
    by (auto simp: is_hex_def is_digit_def in_range_def less_eq_char_def)
  with sha256_hex_hex [of s] show ?thesis by (auto simp: ascii_def list_all_iff)
qed

lemma canonical_parse:
  assumes "ascii_value (PDict d)" and "canonicalization_reasons (PDict d) = []"
  shows "canonical_bytes (PDict d) = Inr (dumps (PDict d) @ [newline])"
    and "loads (dumps (PDict d) @ [newline]) = Some (PDict d)
      \<Longrightarrow> parse_document loads (dumps (PDict d) @ [newline]) = Inr d"
  using assms dumps_ascii [OF assms(1)] dumps_dict_no_bom
  by (simp_all add: canonical_bytes_def canonical_text_def parse_document_Inr ascii_utf8 newline_def
      del: dumps.simps map_append)

lemma load_generation_Inr:
  assumes "load_generation loads pointer_file manifest_file = Inr (p, m, directory)"
  shows "\<exists>raw data. pointer_file = Some raw \<and> load_pointer_bytes loads raw = Inr p
     \<and> directory = p_generation_id p \<and> directory = manifest_generation_id m
     \<and> manifest_file directory = Some data \<and> load_manifest_bytes loads data = Inr m"
proof -
  from assms obtain raw where raw: "pointer_file = Some raw"
    by (cases pointer_file) (simp_all add: load_generation_def read_bytes_def)
  with assms obtain q where q: "load_pointer_bytes loads raw = Inr q"
    by (cases "load_pointer_bytes loads raw") (simp_all add: load_generation_def read_bytes_def)
  with assms raw obtain data where data: "manifest_file (p_generation_id q) = Some data"
    by (cases "manifest_file (p_generation_id q)")
      (simp_all add: load_generation_def read_bytes_def Let_def)
  with assms raw q obtain k where k: "load_manifest_bytes loads data = Inr k"
    by (cases "load_manifest_bytes loads data") (simp_all add: load_generation_def read_bytes_def Let_def)
  have "p_generation_id q = manifest_generation_id k"
    "bind_result (verify_pointer k q) (\<lambda>_. Inr (q, k, p_generation_id q)) = Inr (p, m, directory)"
    using assms raw q data k by (simp_all add: load_generation_def read_bytes_def Let_def split: if_splits)
  then have "q = p" "k = m" "directory = p_generation_id p" "p_generation_id q = manifest_generation_id k"
    unfolding bind_result_eq_Inr by (elim exE conjE sum.inject(2) [THEN iffD1, elim_format], simp)+
  with raw q data k show ?thesis by blast
qed

section \<open>An example generation\<close>

definition ex_digest :: string where "ex_digest = replicate 64 CHR ''7''"

definition ex_coverage :: "(string, pyval) dict" where
  "ex_coverage = [(''status'', PStr ''partial''), (''input_files'', PInt 3), (''processed_files'', PInt 2),
     (''unresolved_references'', PInt 0), (''unsupported_patterns'', PList [])]"

definition ex_files :: pyval where
  "ex_files = PList [PDict [(''path'', PStr ''nodes/a.json''), (''role'', PStr ''nodes''),
     (''sha256'', PStr ex_digest), (''bytes'', PInt 2), (''records'', PInt 0)]]"

definition ex_manifest_document :: "(string, pyval) dict" where
  "ex_manifest_document = [(''schema_version'', PInt 1), (''solution_id'', PStr ''shop''),
     (''project_id'', PStr ''app''), (''analysis_profile'', PStr ''default''),
     (''generator_version'', PStr ''1.0''), (''analyzer_set_hash'', PStr ex_digest),
     (''source_fingerprint'', PStr ex_digest), (''config_fingerprint'', PStr ex_digest),
     (''dependency_fingerprint'', PStr ex_digest), (''coverage'', PDict ex_coverage), (''files'', ex_files)]"

definition ex_manifest_raw :: string where
  "ex_manifest_raw = dumps (PDict ex_manifest_document) @ [newline]"

definition ex_pointer_document :: "(string, pyval) dict" where
  "ex_pointer_document = [(''schema_version'', PInt 1),
     (''generation_id'', PStr (sha256_hex ex_manifest_raw)),
     (''manifest_sha256'', PStr (sha256_hex ex_manifest_raw))]"

definition ex_pointer_raw :: string where
  "ex_pointer_raw = dumps (PDict ex_pointer_document) @ [newline]"

definition ex_loads :: "string \<Rightarrow> pyval option" where
  "ex_loads t = (if t = ex_manifest_raw then Some (PDict ex_manifest_document)
     else if t = ex_pointer_raw then Some (PDict ex_pointer_document) else None)"

lemma ex_raw_differ: "ex_pointer_raw \<noteq> ex_manifest_raw"
proof -
  have "plain (sha256_hex s)" for s
    using sha256_hex_hex [of s] hex_plain by (auto simp: plain_def list_all_iff)
  moreover have "plain ''schema_version''" "plain ''generation_id''" "plain ''manifest_sha256''"
    by code_simp+
  moreover have "item_size (PInt 1) = 1" by code_simp
  ultimately have "length ex_pointer_raw < 200"
    by (simp add: ex_pointer_raw_def ex_pointer_document_def item_size_def [symmetric] item_size_PDict
        entry_size_def length_json_string item_size_PStr length_sha256_hex del: dumps.simps)
  moreover have "200 < length ex_manifest_raw"
  proof -
    have p: "plain ex_digest" by code_simp
    have "4 * 66 \<le> item_size (PDict ex_manifest_document)"
      by (simp add: item_size_PDict ex_manifest_document_def entry_size_def item_size_PStr [OF p])
         (simp add: ex_digest_def)
    then show ?thesis by (simp add: ex_manifest_raw_def item_size_def del: dumps.simps)
  qed
  ultimately show ?thesis by auto
qed

lemma ex_manifest_parsed: "parse_document ex_loads ex_manifest_raw = Inr ex_manifest_document"
proof -
  have "ascii_value (PDict ex_manifest_document)" by code_simp
  moreover have "canonicalization_reasons (PDict ex_manifest_document) = []" by code_simp
  ultimately show ?thesis
    using canonical_parse(2) [of ex_manifest_document ex_loads]
    by (simp add: ex_loads_def ex_manifest_raw_def [symmetric] del: dumps.simps)
qed

lemma ex_pointer_parsed: "parse_document ex_loads ex_pointer_raw = Inr ex_pointer_document"
proof -
  have "ascii_value (PDict ex_pointer_document)"
    by (simp add: ex_pointer_document_def sha256_hex_ascii)
  moreover have "canonicalization_reasons (PDict ex_pointer_document) = []"
    by (simp add: ex_pointer_document_def canonicalization_reasons.simps)
  ultimately show ?thesis
    using canonical_parse(2) [of ex_pointer_document ex_loads] ex_raw_differ
    by (simp add: ex_loads_def ex_pointer_raw_def [symmetric] del: dumps.simps)
qed

definition ex_manifest :: manifest where
  "ex_manifest = \<lparr>m_schema_version = 1, m_solution_id = ''shop'', m_project_id = ''app'',
     m_analysis_profile = ''default'', m_generator_version = ''1.0'', m_analyzer_set_hash = ex_digest,
     m_source_fingerprint = ex_digest, m_config_fingerprint = ex_digest,
     m_dependency_fingerprint = ex_digest, m_coverage = ex_coverage,
     m_files = [\<lparr>me_path = ''nodes/a.json'', me_role = ''nodes'', me_sha256 = ex_digest, me_bytes = 2,
        me_records = 0\<rparr>], m_data = ex_manifest_raw\<rparr>"

lemma ex_manifest_loaded: "load_manifest_bytes ex_loads ex_manifest_raw = Inr ex_manifest"
proof -
  have "canonical_bytes (PDict ex_manifest_document) = Inr ex_manifest_raw"
    unfolding ex_manifest_raw_def by (rule canonical_parse(1)) code_simp+
  then have "require_canonical ex_manifest_raw (PDict ex_manifest_document) = Inr ()"
    by (simp add: require_canonical_def)
  moreover have "require_schema_major ex_manifest_document = Inr 1"
    "list_all (\<lambda>f. \<not> dict_has ex_manifest_document f) SELF_HASH_FIELDS"
    "require_exact_keys ex_manifest_document MANIFEST_REQUIRED = Inr ()"
    "identifier_field ex_manifest_document ''solution_id'' = Inr ''shop''"
    "identifier_field ex_manifest_document ''project_id'' = Inr ''app''"
    "text_field ex_manifest_document ''analysis_profile'' = Inr ''default''"
    "text_field ex_manifest_document ''generator_version'' = Inr ''1.0''" by code_simp+
  moreover have "sha256_field ex_manifest_document ''analyzer_set_hash'' = Inr ex_digest"
    "sha256_field ex_manifest_document ''source_fingerprint'' = Inr ex_digest"
    "sha256_field ex_manifest_document ''config_fingerprint'' = Inr ex_digest"
    "sha256_field ex_manifest_document ''dependency_fingerprint'' = Inr ex_digest" by code_simp+
  moreover have "validate_coverage ex_manifest_document = Inr ex_coverage" by code_simp
  moreover have "list_field ex_manifest_document ''files'' =
      Inr [PDict [(''path'', PStr ''nodes/a.json''), (''role'', PStr ''nodes''),
        (''sha256'', PStr ex_digest), (''bytes'', PInt 2), (''records'', PInt 0)]]"
    by (simp add: list_field_def get_field_def ex_manifest_document_def ex_files_def)
  moreover have "add_entry [] (PDict [(''path'', PStr ''nodes/a.json''), (''role'', PStr ''nodes''),
        (''sha256'', PStr ex_digest), (''bytes'', PInt 2), (''records'', PInt 0)])
      = Inr [\<lparr>me_path = ''nodes/a.json'', me_role = ''nodes'', me_sha256 = ex_digest, me_bytes = 2,
        me_records = 0\<rparr>]" by code_simp
  ultimately show ?thesis
    by (simp add: load_manifest_bytes_def ex_manifest_parsed) (simp add: ex_manifest_def SUPPORTED_SCHEMA_MAJOR_def)
qed

definition ex_pointer :: pointer where
  "ex_pointer = \<lparr>p_generation_id = sha256_hex ex_manifest_raw, p_manifest_sha256 = sha256_hex ex_manifest_raw,
     p_schema_version = 1, p_raw = ex_pointer_raw\<rparr>"

lemma ex_pointer_loaded: "load_pointer_bytes ex_loads ex_pointer_raw = Inr ex_pointer"
proof -
  have "ascii_value (PDict ex_pointer_document)"
    by (simp add: ex_pointer_document_def sha256_hex_ascii)
  moreover have "canonicalization_reasons (PDict ex_pointer_document) = []"
    by (simp add: ex_pointer_document_def canonicalization_reasons.simps)
  ultimately have "canonical_bytes (PDict ex_pointer_document) = Inr ex_pointer_raw"
    unfolding ex_pointer_raw_def by (rule canonical_parse(1))
  then show ?thesis
    unfolding load_pointer_bytes_def ex_pointer_parsed
    by (simp add: require_canonical_def require_schema_major_def get_field_def sha256_field_def
        require_exact_keys_def)
      (simp add: ex_pointer_document_def ex_pointer_def SUPPORTED_SCHEMA_MAJOR_def POINTER_REQUIRED_def
        sha256_hex_RE guard_result_def insert_commute)
qed

lemma ex_generation_loaded:
  "load_generation ex_loads (Some ex_pointer_raw) (\<lambda>_. Some ex_manifest_raw)
     = Inr (ex_pointer, ex_manifest, p_generation_id ex_pointer)"
  by (simp add: load_generation_def read_bytes_def ex_pointer_loaded ex_manifest_loaded Let_def)
    (simp add: ex_pointer_def ex_manifest_def verify_pointer_def manifest_generation_id_def)

section \<open>The properties of a generation\<close>

text \<open>
  A manifest that loads is a valid one, and its bytes are its identity: they are the canonical
  form of the object they parse to, with exactly the contract's fields; its paths and its roles are
  distinct, every entry is portable, of a known role and size, and its coverage is consistent.
\<close>

theorem manifest_loaded_is_valid:
  assumes "load_manifest_bytes loads raw = Inr m"
  shows "manifest_ok m \<and> m_data m = raw \<and> manifest_generation_id m = sha256_hex raw
       \<and> (\<exists>d. canonical_of loads raw d \<and> raw = dumps (PDict d) @ [newline]
            \<and> set (dict_keys d) = set MANIFEST_REQUIRED)"
  using load_manifest_bytes_ok [OF assms]
  by (auto simp: manifest_generation_id_def canonical_of_def canonical_bytes_def canonical_text_def
      split: if_splits)

theorem manifest_loaded_is_valid_witness:
  "manifest_ok ex_manifest \<and> manifest_generation_id ex_manifest = sha256_hex ex_manifest_raw"
  using manifest_loaded_is_valid [OF ex_manifest_loaded] by simp

text \<open>
  C12. A generation that loads is closed: the directory that was read, the generation the pointer
  names and the manifest digest it carries are all the SHA-256 of the manifest bytes in that
  directory, and both documents are the canonical bytes of their own values.
\<close>

theorem generation_is_closed:
  assumes "load_generation loads pointer_file manifest_file = Inr (p, m, directory)"
  shows "directory = sha256_hex (m_data m) \<and> p_generation_id p = directory
       \<and> p_manifest_sha256 p = directory \<and> manifest_file directory = Some (m_data m)
       \<and> pointer_file = Some (p_raw p) \<and> manifest_ok m
       \<and> (\<exists>d. canonical_of loads (p_raw p) d) \<and> (\<exists>d. canonical_of loads (m_data m) d)"
proof -
  from load_generation_Inr [OF assms] obtain raw data where
    raw: "pointer_file = Some raw" "load_pointer_bytes loads raw = Inr p"
    and dir: "directory = p_generation_id p" "directory = manifest_generation_id m"
    and data: "manifest_file directory = Some data" "load_manifest_bytes loads data = Inr m"
    by blast
  from load_manifest_bytes_ok [OF data(2)] obtain d where
    m: "manifest_ok m" "m_data m = data" "canonical_of loads data d" by blast
  from load_pointer_bytes_ok [OF raw(2)] obtain e where
    p: "p_raw p = raw" "p_manifest_sha256 p = p_generation_id p" "canonical_of loads raw e" by blast
  have "directory = sha256_hex data" using dir(2) m(2) by (simp add: manifest_generation_id_def)
  with p m dir(1) raw(1) data(1) show ?thesis by (intro conjI) (simp | blast)+
qed

theorem generation_is_closed_witness:
  "p_manifest_sha256 ex_pointer = sha256_hex ex_manifest_raw \<and> manifest_ok ex_manifest"
  using generation_is_closed [OF ex_generation_loaded] by (simp add: ex_manifest_def ex_pointer_def)

text \<open>
  The closure check accepts exactly the complete generations: it succeeds if and only if every
  declared shard can be read and is its declared length, digest, and record count, and its report
  then counts exactly the declared entries, bytes and records, in path order.
\<close>

theorem closure_verified_iff:
  "verify_closure loads m read = Inr report \<longleftrightarrow>
     (\<forall>e \<in> set (m_files m). \<exists>data v. read (me_path e) = Some data
        \<and> int (length data) = me_bytes e \<and> sha256_hex data = me_sha256 e
        \<and> take 3 data \<noteq> UTF8_BOM \<and> utf8_ok (map of_char data) \<and> loads data = Some v
        \<and> record_count v = Inr (me_records e))
     \<and> report = \<lparr>cr_entries = length (m_files m), cr_bytes = total_bytes m,
          cr_records = total_records m, cr_paths = sort (map me_path (m_files m))\<rparr>"
proof -
  have "shard_verified loads read e \<longleftrightarrow> (\<exists>data v. read (me_path e) = Some data
        \<and> int (length data) = me_bytes e \<and> sha256_hex data = me_sha256 e
        \<and> take 3 data \<noteq> UTF8_BOM \<and> utf8_ok (map of_char data) \<and> loads data = Some v
        \<and> record_count v = Inr (me_records e))" for e
    by (simp add: shard_verified_def is_ok_iff verify_shard_Inr split: option.split)
  then show ?thesis
    by (simp add: verify_closure_def close_entries_Inr list_all_iff sum_sort_key map_sort_key
        total_bytes_def total_records_def)
qed

theorem closure_verified_iff_witness:
  "verify_closure (\<lambda>t. if t = ''[]'' then Some (PList []) else None)
     (ex_manifest\<lparr>m_files := [\<lparr>me_path = ''nodes/a.json'', me_role = ''nodes'',
        me_sha256 = sha256_hex ''[]'', me_bytes = 2, me_records = 0\<rparr>]\<rparr>) (\<lambda>_. Some ''[]'')
   = Inr \<lparr>cr_entries = 1, cr_bytes = 2, cr_records = 0, cr_paths = [''nodes/a.json'']\<rparr>"
  by (subst closure_verified_iff)
    (simp add: total_bytes_def total_records_def record_count_def UTF8_BOM_def)

end
