(* ===== verification/Paths.thy ===== *)
theory Paths
  imports Texts
begin

text \<open>
  \<open>paths.py\<close>: a wire path is a text, checked character by character; a native path is a root and its
  components, as \<open>pathlib\<close> keeps it on a POSIX host. What the file system answers (\<open>resolve\<close>, \<open>stat\<close>,
  \<open>lstat\<close>, reading a file) is the record \<open>host\<close>, the machine an operation runs on; \<open>None\<close> is an
  \<open>OSError\<close>. \<open>str.casefold\<close> is the argument \<open>cf\<close>, as in the query theories.
\<close>

datatype path_error =
    WirePathRejected
  | NativeBindingRejected
  | PathEscape
  | PathUnresolvable

section \<open>Native paths\<close>

text \<open>The root is empty, one slash, or the two slashes POSIX keeps apart.\<close>

datatype npath = NPath (path_root: string) (path_parts: "string list")

definition root_of :: "string \<Rightarrow> string" where
  "root_of s =
     (if take 1 s \<noteq> ''/'' then [] else if take 2 s = ''//'' \<and> take 3 s \<noteq> ''///'' then ''//'' else ''/'')"

definition pure_parts :: "string \<Rightarrow> string list" where
  "pure_parts s = filter (\<lambda>c. c \<noteq> [] \<and> c \<noteq> ''.'') (split_on (CHR ''/'') s)"

definition pure_path :: "string \<Rightarrow> npath" where
  "pure_path s = NPath (root_of s) (pure_parts s)"

definition is_absolute :: "npath \<Rightarrow> bool" where
  "is_absolute p = (path_root p \<noteq> [])"

definition joinpath :: "npath \<Rightarrow> string \<Rightarrow> npath" where
  "joinpath p s =
     (if is_absolute (pure_path s) then pure_path s else NPath (path_root p) (path_parts p @ pure_parts s))"

definition path_name :: "npath \<Rightarrow> string" where
  "path_name p = (if path_parts p = [] then [] else last (path_parts p))"

text \<open>\<open>a in b.parents\<close>.\<close>

definition in_parents :: "npath \<Rightarrow> npath \<Rightarrow> bool" where
  "in_parents a b =
     (path_root a = path_root b \<and> length (path_parts a) < length (path_parts b)
      \<and> take (length (path_parts a)) (path_parts b) = path_parts a)"

datatype file_kind = Regular | Directory | Symlink | OtherFile

record host =
  h_resolve :: "npath \<Rightarrow> npath option"
  h_stat :: "npath \<Rightarrow> file_kind option"
  h_lstat :: "npath \<Rightarrow> file_kind option"
  h_read :: "npath \<Rightarrow> string option"

section \<open>Wire paths\<close>

definition SUPERSCRIPTS :: "string list" where
  "SUPERSCRIPTS = [[CHR 0xC2, CHR 0xB9], [CHR 0xC2, CHR 0xB2], [CHR 0xC2, CHR 0xB3]]"

definition RESERVED_WIRE_COMPONENTS :: "string list" where
  "RESERVED_WIRE_COMPONENTS =
     [''con'', ''prn'', ''aux'', ''nul'']
     @ concat (map (\<lambda>device. map (\<lambda>d. device @ [d]) ''0123456789'' @ map (\<lambda>d. device @ d) SUPERSCRIPTS)
         [''com'', ''lpt''])"

definition UNPORTABLE_WIRE_CHARACTERS :: string where
  "UNPORTABLE_WIRE_CHARACTERS = [CHR ''<'', CHR ''>'', CHR '':'', CHR 0x22, CHR ''|'', CHR ''?'', CHR ''*'']"

text \<open>
  Some character for which \<open>_is_control\<close> holds: a C0 control or DEL is one byte, a C1 control is
  \<open>0xC2\<close> and a byte up to \<open>0x9F\<close>.
\<close>

fun has_control :: "string \<Rightarrow> bool" where
  "has_control [] = False"
| "has_control (c # s) =
     ((of_char c :: nat) < 32 \<or> c = CHR 0x7F
      \<or> (c = CHR 0xC2 \<and> (case s of [] \<Rightarrow> False | d # _ \<Rightarrow> 128 \<le> (of_char d :: nat) \<and> (of_char d :: nat) \<le> 159))
      \<or> has_control s)"

record wire_path =
  w_spelling :: string
  w_parts :: "string list"

definition stem :: "string \<Rightarrow> string" where
  "stem component = takeWhile (\<lambda>c. c \<noteq> CHR ''.'') component"

definition require_wire_component :: "(string \<Rightarrow> string) \<Rightarrow> string \<Rightarrow> path_error + unit" where
  "require_wire_component cf component =
     (if component = [] then Inl WirePathRejected
      else if component = ''.'' then Inl WirePathRejected
      else if component = ''..'' then Inl WirePathRejected
      else if list_ex (\<lambda>c. c \<in> set UNPORTABLE_WIRE_CHARACTERS) component then Inl WirePathRejected
      else if last component = CHR ''.'' \<or> last component = CHR '' '' then Inl WirePathRejected
      else if cf (stem component) \<in> set RESERVED_WIRE_COMPONENTS then Inl WirePathRejected
      else Inr ())"

definition parse_wire_path :: "(string \<Rightarrow> string) \<Rightarrow> pyval \<Rightarrow> path_error + wire_path" where
  "parse_wire_path cf v =
     (case v of
        PStr reference \<Rightarrow>
          if reference = [] then Inl WirePathRejected
          else if has_control reference then Inl WirePathRejected
          else if CHR 0x5C \<in> set reference then Inl WirePathRejected
          else if hd reference = CHR ''/'' then Inl WirePathRejected
          else if drive_prefix reference then Inl WirePathRejected
          else
            (let parts = split_on (CHR ''/'') reference in
             bind_result (map_result (require_wire_component cf) parts) (\<lambda>_.
               Inr \<lparr>w_spelling = reference, w_parts = parts\<rparr>))
      | _ \<Rightarrow> Inl WirePathRejected)"

section \<open>Binding and resolving\<close>

text \<open>A native root is a text, a path object or something else; a path object is never empty text.\<close>

datatype native_arg = TextRoot string | PathRoot npath | OtherRoot

definition native_path_of :: "native_arg \<Rightarrow> path_error + npath" where
  "native_path_of root =
     (case root of
        TextRoot s \<Rightarrow> if s = [] then Inl NativeBindingRejected else Inr (pure_path s)
      | PathRoot p \<Rightarrow> Inr p
      | OtherRoot \<Rightarrow> Inl NativeBindingRejected)"

definition bind_native_root :: "host \<Rightarrow> native_arg \<Rightarrow> path_error + npath" where
  "bind_native_root h root =
     bind_result (native_path_of root) (\<lambda>candidate.
       if \<not> is_absolute candidate then Inl NativeBindingRejected
       else (case h_resolve h candidate of
           None \<Rightarrow> Inl PathUnresolvable
         | Some resolved \<Rightarrow>
             (case h_stat h resolved of
                None \<Rightarrow> Inr resolved
              | Some Directory \<Rightarrow> Inr resolved
              | Some _ \<Rightarrow> Inl NativeBindingRejected)))"

definition contained :: "npath \<Rightarrow> npath \<Rightarrow> bool" where
  "contained resolved_root resolved_candidate =
     (resolved_candidate = resolved_root \<or> in_parents resolved_root resolved_candidate)"

definition resolve_wire_path ::
    "(string \<Rightarrow> string) \<Rightarrow> host \<Rightarrow> native_arg \<Rightarrow> pyval \<Rightarrow> path_error + npath" where
  "resolve_wire_path cf h root reference =
     bind_result (parse_wire_path cf reference) (\<lambda>wire.
     bind_result (bind_native_root h root) (\<lambda>native.
       (case h_resolve h (fold (\<lambda>part p. joinpath p part) (w_parts wire) native) of
          None \<Rightarrow> Inl PathUnresolvable
        | Some resolved \<Rightarrow> if contained native resolved then Inr resolved else Inl PathEscape)))"

section \<open>What the two checks accept\<close>

text \<open>A component the portable profile accepts.\<close>

definition portable_component :: "(string \<Rightarrow> string) \<Rightarrow> string \<Rightarrow> bool" where
  "portable_component cf c =
     (c \<noteq> [] \<and> c \<noteq> ''.'' \<and> c \<noteq> ''..'' \<and> set c \<inter> set UNPORTABLE_WIRE_CHARACTERS = {}
      \<and> last c \<noteq> CHR ''.'' \<and> last c \<noteq> CHR '' '' \<and> cf (stem c) \<notin> set RESERVED_WIRE_COMPONENTS)"

lemma require_wire_component_Inr:
  "require_wire_component cf c = Inr u \<longleftrightarrow> portable_component cf c"
  by (auto simp: require_wire_component_def portable_component_def list_ex_iff)

lemma map_result_unit: "map_result f xs = Inr us \<Longrightarrow> \<forall>x \<in> set xs. f x = Inr ()"
  by (induction xs arbitrary: us) (auto simp: result_simps)

lemma map_result_units: "\<forall>x \<in> set xs. f x = Inr () \<Longrightarrow> map_result f xs = Inr (map (\<lambda>_. ()) xs)"
  by (induction xs) auto

lemma require_parts:
  "(\<exists>us. map_result (require_wire_component cf) parts = Inr us) \<longleftrightarrow> list_all (portable_component cf) parts"
  unfolding list_all_iff
  using map_result_unit [of "require_wire_component cf" parts]
    map_result_units [of parts "require_wire_component cf"] require_wire_component_Inr [of cf] by blast

lemma parse_wire_path_Inr:
  "parse_wire_path cf v = Inr w \<longleftrightarrow>
     (\<exists>s. v = PStr s \<and> s \<noteq> [] \<and> \<not> has_control s \<and> CHR 0x5C \<notin> set s \<and> hd s \<noteq> CHR ''/''
        \<and> \<not> drive_prefix s \<and> list_all (portable_component cf) (split_on (CHR ''/'') s)
        \<and> w = \<lparr>w_spelling = s, w_parts = split_on (CHR ''/'') s\<rparr>)"
  unfolding require_parts [symmetric]
  by (auto simp: parse_wire_path_def Let_def bind_result_eq_Inr split: pyval.splits if_splits)

text \<open>An accepted reference is in particular portable in the sense of the registry and the manifest.\<close>

lemma no_control_no_newline: "\<not> has_control s \<Longrightarrow> newline \<notin> set s"
  by (induction s) (auto simp: newline_def)

lemma wire_path_portable:
  assumes "parse_wire_path cf (PStr s) = Inr w"
  shows "PORTABLE_RELATIVE_RE s"
proof -
  have s: "s \<noteq> []" "\<not> has_control s" "CHR 0x5C \<notin> set s" "hd s \<noteq> CHR ''/''" "\<not> drive_prefix s"
    "list_all (portable_component cf) (split_on (CHR ''/'') s)"
    using assms by (simp_all add: parse_wire_path_Inr)
  have line: "takeWhile (\<lambda>c. c \<noteq> newline) s = s" "dropWhile (\<lambda>c. c \<noteq> newline) s = []"
    using no_control_no_newline [OF s(2)] by auto
  moreover have "''..'' \<notin> set (split_on (CHR ''/'') s)"
    using s(6) by (auto simp: list_all_iff portable_component_def)
  ultimately show ?thesis
    using s unfolding PORTABLE_RELATIVE_RE_def Let_def at_dollar_def line by simp
qed

lemma joinpath_component:
  assumes "portable_component cf c" "CHR ''/'' \<notin> set c"
  shows "joinpath p c = NPath (path_root p) (path_parts p @ [c])"
proof -
  have "c \<noteq> []" "c \<noteq> ''.''" using assms(1) by (auto simp: portable_component_def)
  moreover have "hd c \<noteq> CHR ''/''" using assms(2) \<open>c \<noteq> []\<close> by (cases c) auto
  ultimately show ?thesis
    using split_on_single [OF assms(2)]
    by (cases c) (auto simp: joinpath_def pure_path_def pure_parts_def is_absolute_def root_of_def)
qed

lemma join_parts:
  assumes "list_all (\<lambda>c. portable_component cf c \<and> CHR ''/'' \<notin> set c) parts"
  shows "fold (\<lambda>part p. joinpath p part) parts p = NPath (path_root p) (path_parts p @ parts)"
  using assms by (induction parts arbitrary: p) (auto simp: joinpath_component)

lemma wire_parts:
  assumes "parse_wire_path cf v = Inr w"
  shows "list_all (\<lambda>c. portable_component cf c \<and> CHR ''/'' \<notin> set c) (w_parts w)"
    and "join_with ''/'' (w_parts w) = w_spelling w" and "v = PStr (w_spelling w)" and "w_parts w \<noteq> []"
  using assms split_on_parts [of _ "CHR ''/''" "w_spelling w"] split_on_join [of "CHR ''/''" "w_spelling w"]
  unfolding parse_wire_path_Inr list_all_iff by (auto simp del: split_on.simps) blast

text \<open>
  C29. A reference that resolves is a portable relative text whose own segments, none of them empty,
  \<open>.\<close>, \<open>..\<close>, reserved or absolute, were appended to the resolved absolute root and resolved by the
  host; the answer is that path, and it is the resolved root or inside it.
\<close>

theorem wire_path_resolves_inside:
  assumes "resolve_wire_path cf h root reference = Inr p"
  shows "\<exists>s w native. reference = PStr s \<and> parse_wire_path cf reference = Inr w
     \<and> bind_native_root h root = Inr native
     \<and> PORTABLE_RELATIVE_RE s \<and> join_with ''/'' (w_parts w) = s \<and> list_all (portable_component cf) (w_parts w)
     \<and> h_resolve h (NPath (path_root native) (path_parts native @ w_parts w)) = Some p
     \<and> (p = native \<or> in_parents native p)"
proof -
  from assms obtain w native where w: "parse_wire_path cf reference = Inr w" "bind_native_root h root = Inr native"
    "h_resolve h (fold (\<lambda>part p. joinpath p part) (w_parts w) native) = Some p" "contained native p"
    by (auto simp: resolve_wire_path_def bind_result_eq_Inr split: option.splits if_splits)
  note parts = wire_parts [OF w(1)]
  have "PORTABLE_RELATIVE_RE (w_spelling w)"
    using w(1) parts(3) wire_path_portable by simp
  moreover have "list_all (portable_component cf) (w_parts w)"
    using parts(1) by (auto simp: list_all_iff)
  moreover have "h_resolve h (NPath (path_root native) (path_parts native @ w_parts w)) = Some p"
    using w(3) by (simp add: join_parts [OF parts(1)])
  ultimately show ?thesis
    using w(1,2,4) parts(2,3) unfolding contained_def by blast
qed

definition ex_host :: "string \<Rightarrow> host" where
  "ex_host content = \<lparr>h_resolve = Some, h_stat = (\<lambda>_. Some Directory), h_lstat = (\<lambda>_. Some Regular),
     h_read = (\<lambda>_. Some content)\<rparr>"

theorem wire_path_resolves_inside_witness:
  "in_parents (NPath ''/'' [''r'']) (NPath ''/'' [''r'', ''a'', ''b.json''])
   \<and> resolve_wire_path (\<lambda>s. s) (ex_host []) (TextRoot ''/r'') (PStr ''a/b.json'') = Inr (NPath ''/'' [''r'', ''a'', ''b.json''])"
proof -
  have r: "resolve_wire_path (\<lambda>s. s) (ex_host []) (TextRoot ''/r'') (PStr ''a/b.json'')
      = Inr (NPath ''/'' [''r'', ''a'', ''b.json''])"
    by code_simp
  have "bind_native_root (ex_host []) (TextRoot ''/r'') = Inr (NPath ''/'' [''r''])" by code_simp
  with wire_path_resolves_inside [OF r] r show ?thesis by auto
qed

end
