(* ===== verification/Registry.thy ===== *)
theory Registry
  imports Paths
begin

text \<open>
  \<open>registry.py\<close>: the machine-local bindings from logical names to directories, the parser of the
  registry document, and the locations a snapshot or a catalog is read from. The messages of the
  errors are left out. \<open>PureWindowsPath(text).is_absolute()\<close> is the argument \<open>wa\<close>, and the text of the
  registry file is parsed by the argument \<open>loads\<close>, \<open>json.loads\<close>.
\<close>

datatype registry_error =
    RegistryError
  | RelativeAxiomHome
  | RegistryUnreadable
  | UnsupportedRegistryMajor
  | UnknownBinding
  | UntrustedPath

definition REGISTRY_SCHEMA_VERSION :: int where "REGISTRY_SCHEMA_VERSION = 1"
definition REGISTRY_DIRNAME :: string where "REGISTRY_DIRNAME = ''config''"
definition REGISTRY_FILENAME :: string where "REGISTRY_FILENAME = ''registry.json''"
definition INSTANCES_DIRNAME :: string where "INSTANCES_DIRNAME = ''instances''"
definition GUARD_DIRNAME :: string where "GUARD_DIRNAME = ''solution.guard''"
definition LOCK_ROLES :: "string list" where "LOCK_ROLES = [''admission'', ''data'']"

definition LOCK_FILE_OF_ROLE :: "(string, string) dict" where
  "LOCK_FILE_OF_ROLE = [(''admission'', ''admission.lock''), (''data'', ''data.lock'')]"

definition GRAPH_OUTPUT_ROOT :: string where "GRAPH_OUTPUT_ROOT = ''.axiom/graph''"
definition CATALOG_DIRNAME :: string where "CATALOG_DIRNAME = ''_catalog''"
definition LANES :: "string list" where "LANES = [''live'', ''checkpoint'']"
definition CURRENT_POINTER_NAME :: string where "CURRENT_POINTER_NAME = ''current.json''"
definition GENERATIONS_DIRNAME :: string where "GENERATIONS_DIRNAME = ''generations''"
definition STAGING_DIRNAME :: string where "STAGING_DIRNAME = ''.staging''"

definition absolute_text :: "(string \<Rightarrow> bool) \<Rightarrow> string \<Rightarrow> bool" where
  "absolute_text wa s = (is_absolute (pure_path s) \<or> wa s)"

definition portable_id :: "pyval \<Rightarrow> registry_error + string" where
  "portable_id v =
     (case v of PStr s \<Rightarrow> if IDENTIFIER_RE s then Inr s else Inl RegistryUnreadable
      | _ \<Rightarrow> Inl RegistryUnreadable)"

section \<open>AXIOM_HOME\<close>

definition env_get :: "(string, string) dict \<Rightarrow> string \<Rightarrow> string" where
  "env_get env name = (case dict_get env name of None \<Rightarrow> [] | Some v \<Rightarrow> v)"

definition home_dir :: "(string, string) dict \<Rightarrow> registry_error + npath" where
  "home_dir env =
     (let home = (if env_get env ''HOME'' \<noteq> [] then env_get env ''HOME'' else env_get env ''USERPROFILE'') in
      if home = [] then Inl RegistryError else Inr (pure_path home))"

definition default_axiom_home :: "(string, string) dict \<Rightarrow> string \<Rightarrow> registry_error + npath" where
  "default_axiom_home env platform =
     (if take 3 platform = ''win'' then
        (if env_get env ''LOCALAPPDATA'' \<noteq> [] then Inr (joinpath (pure_path (env_get env ''LOCALAPPDATA'')) ''Axiom'')
         else bind_result (home_dir env) (\<lambda>h. Inr (joinpath (joinpath (joinpath h ''AppData'') ''Local'') ''Axiom'')))
      else if platform = ''darwin'' then
        bind_result (home_dir env) (\<lambda>h.
          Inr (joinpath (joinpath (joinpath h ''Library'') ''Application Support'') ''Axiom''))
      else if env_get env ''XDG_STATE_HOME'' \<noteq> [] then Inr (joinpath (pure_path (env_get env ''XDG_STATE_HOME'')) ''axiom'')
      else bind_result (home_dir env) (\<lambda>h. Inr (joinpath (joinpath (joinpath h ''.local'') ''state'') ''axiom'')))"

definition axiom_home :: "(string \<Rightarrow> bool) \<Rightarrow> (string, string) dict \<Rightarrow> string \<Rightarrow> registry_error + npath" where
  "axiom_home wa env platform =
     (let override = env_get env ''AXIOM_HOME'' in
      if override = [] then default_axiom_home env platform
      else if \<not> absolute_text wa override then Inl RelativeAxiomHome
      else Inr (pure_path override))"

definition registry_path :: "npath \<Rightarrow> npath" where
  "registry_path home = joinpath (joinpath home REGISTRY_DIRNAME) REGISTRY_FILENAME"

definition portable_relative :: "pyval \<Rightarrow> registry_error + string" where
  "portable_relative v =
     (case v of PStr s \<Rightarrow> if PORTABLE_RELATIVE_RE s then Inr s else Inl UntrustedPath
      | _ \<Rightarrow> Inl UntrustedPath)"

definition generation_directory_name :: "string \<Rightarrow> registry_error + string" where
  "generation_directory_name g = (if SHA256_RE g then Inr g else Inl UntrustedPath)"

definition check_lane :: "string \<Rightarrow> registry_error + string" where
  "check_lane lane = (if lane \<in> set LANES then Inr lane else Inl RegistryUnreadable)"

section \<open>Locations\<close>

record snapshot_location =
  sl_solution_id :: string
  sl_project_id :: string
  sl_lane :: string
  sl_root :: npath

record catalog_location =
  cl_solution_id :: string
  cl_lane :: string
  cl_root :: npath

definition pointer_path :: "npath \<Rightarrow> npath" where
  "pointer_path root = joinpath root CURRENT_POINTER_NAME"

definition generations_root :: "npath \<Rightarrow> npath" where
  "generations_root root = joinpath root GENERATIONS_DIRNAME"

definition staging_root :: "snapshot_location \<Rightarrow> npath" where
  "staging_root l = joinpath (sl_root l) STAGING_DIRNAME"

definition generation_root :: "npath \<Rightarrow> string \<Rightarrow> registry_error + npath" where
  "generation_root root g =
     bind_result (generation_directory_name g) (\<lambda>name. Inr (joinpath (generations_root root) name))"

definition location_resolve ::
    "(string \<Rightarrow> string) \<Rightarrow> host \<Rightarrow> npath \<Rightarrow> string \<Rightarrow> registry_error + npath" where
  "location_resolve cf h root relative =
     (case resolve_wire_path cf h (PathRoot root) (PStr relative) of
        Inl _ \<Rightarrow> Inl UntrustedPath | Inr p \<Rightarrow> Inr p)"

section \<open>Bindings\<close>

record project_binding =
  pb_solution_id :: string
  pb_project_id :: string
  pb_repo_id :: string
  pb_repo_root :: npath

definition graph_root :: "project_binding \<Rightarrow> npath" where
  "graph_root b = joinpath (joinpath (joinpath (pb_repo_root b) GRAPH_OUTPUT_ROOT) (pb_solution_id b)) (pb_project_id b)"

definition binding_location :: "project_binding \<Rightarrow> string \<Rightarrow> registry_error + snapshot_location" where
  "binding_location b lane =
     bind_result (check_lane lane) (\<lambda>checked.
       Inr \<lparr>sl_solution_id = pb_solution_id b, sl_project_id = pb_project_id b, sl_lane = checked,
            sl_root = joinpath (graph_root b) checked\<rparr>)"

record repository_binding =
  rb_repo_id :: string
  rb_repo_root :: npath
  rb_project_ids :: "string list"

record solution_binding =
  sb_solution_id :: string
  sb_instance_id :: string
  sb_catalog_host_repo :: string
  sb_repositories :: "repository_binding list"

definition repo_ids :: "solution_binding \<Rightarrow> string list" where
  "repo_ids s = map rb_repo_id (sb_repositories s)"

definition repository :: "solution_binding \<Rightarrow> string \<Rightarrow> registry_error + repository_binding" where
  "repository s repo_id =
     (case find (\<lambda>r. rb_repo_id r = repo_id) (sb_repositories s) of
        None \<Rightarrow> Inl UnknownBinding | Some r \<Rightarrow> Inr r)"

definition catalog_repository :: "solution_binding \<Rightarrow> registry_error + repository_binding" where
  "catalog_repository s = repository s (sb_catalog_host_repo s)"

record snapshot_registry =
  sr_axiom_home :: npath
  sr_solutions :: "solution_binding list"

definition is_empty_registry :: "snapshot_registry \<Rightarrow> bool" where
  "is_empty_registry r = (sr_solutions r = [])"

definition find_solution :: "snapshot_registry \<Rightarrow> string \<Rightarrow> registry_error + solution_binding" where
  "find_solution r solution_id =
     (case find (\<lambda>s. sb_solution_id s = solution_id) (sr_solutions r) of
        None \<Rightarrow> Inl UnknownBinding | Some s \<Rightarrow> Inr s)"

definition find_project :: "snapshot_registry \<Rightarrow> string \<Rightarrow> string \<Rightarrow> registry_error + project_binding" where
  "find_project r solution_id project_id =
     bind_result (find_solution r solution_id) (\<lambda>entry.
       case find (\<lambda>repo. project_id \<in> set (rb_project_ids repo)) (sb_repositories entry) of
         None \<Rightarrow> Inl UnknownBinding
       | Some repo \<Rightarrow> Inr \<lparr>pb_solution_id = solution_id, pb_project_id = project_id,
                          pb_repo_id = rb_repo_id repo, pb_repo_root = rb_repo_root repo\<rparr>)"

definition find_location ::
    "snapshot_registry \<Rightarrow> string \<Rightarrow> string \<Rightarrow> string \<Rightarrow> registry_error + snapshot_location" where
  "find_location r solution_id project_id lane =
     bind_result (find_project r solution_id project_id) (\<lambda>b. binding_location b lane)"

definition find_catalog_location :: "snapshot_registry \<Rightarrow> string \<Rightarrow> string \<Rightarrow> registry_error + catalog_location" where
  "find_catalog_location r solution_id lane =
     bind_result (find_solution r solution_id) (\<lambda>entry.
     bind_result (check_lane lane) (\<lambda>checked.
     bind_result (catalog_repository entry) (\<lambda>repo.
       Inr \<lparr>cl_solution_id = solution_id, cl_lane = checked,
            cl_root = joinpath (joinpath (joinpath (joinpath (rb_repo_root repo) GRAPH_OUTPUT_ROOT)
              (sb_solution_id entry)) CATALOG_DIRNAME) checked\<rparr>)))"

definition instance_ids :: "snapshot_registry \<Rightarrow> string list" where
  "instance_ids r = dict_keys (dict_fill (map (\<lambda>s. (sb_instance_id s, ())) (sr_solutions r)) [])"

definition registry_guard_directory :: "npath \<Rightarrow> string \<Rightarrow> npath" where
  "registry_guard_directory home instance_id =
     joinpath (joinpath (joinpath home INSTANCES_DIRNAME) instance_id) GUARD_DIRNAME"

definition lock_path :: "snapshot_registry \<Rightarrow> string \<Rightarrow> string \<Rightarrow> registry_error + npath" where
  "lock_path r instance_id role =
     (if role \<notin> set LOCK_ROLES then Inl RegistryError
      else Inr (joinpath (registry_guard_directory (sr_axiom_home r) instance_id)
             (the (dict_get LOCK_FILE_OF_ROLE role))))"

definition registry_lock_paths :: "snapshot_registry \<Rightarrow> string \<Rightarrow> registry_error + (string, npath) dict" where
  "registry_lock_paths r instance_id =
     map_result (\<lambda>role. bind_result (lock_path r instance_id role) (\<lambda>p. Inr (role, p))) LOCK_ROLES"

section \<open>The registry document\<close>

definition as_mapping :: "pyval \<Rightarrow> registry_error + (string, pyval) dict" where
  "as_mapping v = (case v of PDict d \<Rightarrow> Inr d | _ \<Rightarrow> Inl RegistryUnreadable)"

definition as_sequence :: "pyval \<Rightarrow> registry_error + pyval list" where
  "as_sequence v = (case v of PList xs \<Rightarrow> Inr xs | _ \<Rightarrow> Inl RegistryUnreadable)"

text \<open>\<open>body.get(name)\<close> and \<open>body.get(name, [])\<close>.\<close>

definition item_field :: "(string, pyval) dict \<Rightarrow> string \<Rightarrow> pyval" where
  "item_field d name = (case dict_get d name of None \<Rightarrow> PNone | Some v \<Rightarrow> v)"

definition item_list :: "(string, pyval) dict \<Rightarrow> string \<Rightarrow> pyval" where
  "item_list d name = (case dict_get d name of None \<Rightarrow> PList [] | Some v \<Rightarrow> v)"

text \<open>An optional declared path must be absolute and be the expected one.\<close>

definition declared_path :: "(string \<Rightarrow> bool) \<Rightarrow> pyval \<Rightarrow> npath \<Rightarrow> registry_error + unit" where
  "declared_path wa v expected =
     (case v of
        PNone \<Rightarrow> Inr ()
      | PStr s \<Rightarrow> guard_result (absolute_text wa s \<and> pure_path s = expected) RegistryUnreadable
      | _ \<Rightarrow> Inl RegistryUnreadable)"

definition add_instance ::
    "(string \<Rightarrow> bool) \<Rightarrow> npath \<Rightarrow> (string, npath) dict \<Rightarrow> pyval \<Rightarrow> registry_error + (string, npath) dict" where
  "add_instance wa base instances entry =
     bind_result (as_mapping entry) (\<lambda>item.
     bind_result (portable_id (item_field item ''instance_id'')) (\<lambda>instance_id.
     if dict_has instances instance_id then Inl RegistryUnreadable
     else
       (let expected = registry_guard_directory base instance_id in
        bind_result (declared_path wa (item_field item ''guard_directory'') expected) (\<lambda>_.
          Inr (dict_set instance_id expected instances)))))"

definition add_project :: "string list \<times> string list \<Rightarrow> pyval \<Rightarrow> registry_error + string list \<times> string list" where
  "add_project acc raw_project =
     (case acc of (seen_projects, project_ids) \<Rightarrow>
        bind_result (as_mapping raw_project) (\<lambda>project.
        bind_result (portable_id (item_field project ''project_id'')) (\<lambda>project_id.
        if project_id \<in> set seen_projects then Inl RegistryUnreadable
        else Inr (project_id # seen_projects, project_ids @ [project_id]))))"

definition absolute_root :: "(string \<Rightarrow> bool) \<Rightarrow> pyval \<Rightarrow> registry_error + npath" where
  "absolute_root wa v =
     (case v of
        PStr s \<Rightarrow> if absolute_text wa s then Inr (pure_path s) else Inl RegistryUnreadable
      | _ \<Rightarrow> Inl RegistryUnreadable)"

text \<open>The state of the loop over repositories: the repositories so far and the projects seen.\<close>

definition add_repository ::
    "(string \<Rightarrow> bool) \<Rightarrow> npath \<Rightarrow> repository_binding list \<times> string list \<Rightarrow> pyval
       \<Rightarrow> registry_error + repository_binding list \<times> string list" where
  "add_repository wa base acc raw_repo =
     (case acc of (repositories, seen_projects) \<Rightarrow>
        bind_result (as_mapping raw_repo) (\<lambda>repo.
        bind_result (portable_id (item_field repo ''repo_id'')) (\<lambda>repo_id.
        if repo_id \<in> set (map rb_repo_id repositories) then Inl RegistryUnreadable
        else
          bind_result (absolute_root wa (item_field repo ''repo_root'')) (\<lambda>repo_root.
          if base = repo_root \<or> in_parents base repo_root then Inl RegistryUnreadable
          else
            bind_result (as_sequence (item_list repo ''projects'')) (\<lambda>projects.
            bind_result (fold_result add_project (seen_projects, []) projects) (\<lambda>ps.
              Inr (repositories @ [\<lparr>rb_repo_id = repo_id, rb_repo_root = repo_root, rb_project_ids = snd ps\<rparr>],
                   fst ps)))))))"

definition catalog_host_of :: "(string, pyval) dict \<Rightarrow> repository_binding list \<Rightarrow> registry_error + string" where
  "catalog_host_of item repositories =
     bind_result
       (portable_id (case item_field item ''catalog_host_repo'' of PNone \<Rightarrow> PStr (rb_repo_id (hd repositories)) | v \<Rightarrow> v))
       (\<lambda>host. if host \<notin> set (map rb_repo_id repositories) then Inl RegistryUnreadable else Inr host)"

definition add_solution ::
    "(string \<Rightarrow> bool) \<Rightarrow> npath \<Rightarrow> (string, npath) dict \<Rightarrow> solution_binding list \<Rightarrow> pyval
       \<Rightarrow> registry_error + solution_binding list" where
  "add_solution wa base instances solutions entry =
     bind_result (as_mapping entry) (\<lambda>item.
     bind_result (portable_id (item_field item ''solution_id'')) (\<lambda>solution_id.
     if solution_id \<in> set (map sb_solution_id solutions) then Inl RegistryUnreadable
     else
       bind_result (portable_id (item_field item ''instance_id'')) (\<lambda>instance_id.
       if \<not> dict_has instances instance_id then Inl RegistryUnreadable
       else
         bind_result (as_sequence (item_list item ''repositories'')) (\<lambda>raw_repos.
         bind_result (fold_result (add_repository wa base) ([], []) raw_repos) (\<lambda>acc.
         if fst acc = [] then Inl RegistryUnreadable
         else
           bind_result (catalog_host_of item (fst acc)) (\<lambda>host.
             Inr (solutions @ [\<lparr>sb_solution_id = solution_id, sb_instance_id = instance_id,
                                sb_catalog_host_repo = host, sb_repositories = fst acc\<rparr>])))))))"

definition require_registry_major :: "(string, pyval) dict \<Rightarrow> registry_error + unit" where
  "require_registry_major body =
     (case item_field body ''schema_version'' of
        PInt i \<Rightarrow> guard_result (i = REGISTRY_SCHEMA_VERSION) UnsupportedRegistryMajor
      | _ \<Rightarrow> Inl RegistryUnreadable)"

definition parse_registry :: "(string \<Rightarrow> bool) \<Rightarrow> npath \<Rightarrow> pyval \<Rightarrow> registry_error + snapshot_registry" where
  "parse_registry wa base document =
     bind_result (as_mapping document) (\<lambda>body.
     bind_result (declared_path wa (item_field body ''axiom_home'') base) (\<lambda>_.
     bind_result (require_registry_major body) (\<lambda>_.
     bind_result (as_sequence (item_list body ''instances'')) (\<lambda>raw_instances.
     bind_result (fold_result (add_instance wa base) [] raw_instances) (\<lambda>instances.
     bind_result (as_sequence (item_list body ''solutions'')) (\<lambda>raw_solutions.
     bind_result (fold_result (add_solution wa base instances) [] raw_solutions) (\<lambda>solutions.
       Inr \<lparr>sr_axiom_home = base, sr_solutions = solutions\<rparr>)))))))"

text \<open>
  \<open>path\<close> is the explicit registry path, if one was given. A file that exists but cannot be read is
  \<open>Some None\<close>. \<open>read_text\<close> raises \<open>UnicodeDecodeError\<close> on bytes that are not UTF-8, which the code does
  not catch; such a file is outside of this definition's domain of decoded texts.
\<close>

definition load_registry ::
    "(string \<Rightarrow> bool) \<Rightarrow> (string \<Rightarrow> pyval option) \<Rightarrow> (npath \<Rightarrow> string option option) \<Rightarrow> npath option
       \<Rightarrow> (string, string) dict \<Rightarrow> string \<Rightarrow> registry_error + snapshot_registry" where
  "load_registry wa loads file path env platform =
     bind_result (axiom_home wa env platform) (\<lambda>base.
     (let target = (case path of Some p \<Rightarrow> p | None \<Rightarrow> registry_path base) in
      case file target of
        None \<Rightarrow> Inr \<lparr>sr_axiom_home = base, sr_solutions = []\<rparr>
      | Some None \<Rightarrow> Inl RegistryUnreadable
      | Some (Some raw) \<Rightarrow>
          (case loads raw of
             None \<Rightarrow> Inl RegistryUnreadable
           | Some document \<Rightarrow> parse_registry wa base document)))"

section \<open>What a parsed registry guarantees\<close>

lemma portable_id_Inr: "portable_id v = Inr s \<longleftrightarrow> v = PStr s \<and> IDENTIFIER_RE s"
  by (auto simp: portable_id_def split: pyval.splits if_splits)

lemma as_mapping_Inr: "as_mapping v = Inr d \<longleftrightarrow> v = PDict d"
  by (auto simp: as_mapping_def split: pyval.splits)

lemma as_sequence_Inr: "as_sequence v = Inr xs \<longleftrightarrow> v = PList xs"
  by (auto simp: as_sequence_def split: pyval.splits)

lemma absolute_root_Inr: "absolute_root wa v = Inr p \<longleftrightarrow> (\<exists>s. v = PStr s \<and> absolute_text wa s \<and> p = pure_path s)"
  by (auto simp: absolute_root_def split: pyval.splits if_splits)

lemmas registry_simps = portable_id_Inr as_mapping_Inr as_sequence_Inr absolute_root_Inr bind_result_eq_Inr
  guard_result_eq_Inr

definition repository_ok :: "(string \<Rightarrow> bool) \<Rightarrow> npath \<Rightarrow> repository_binding \<Rightarrow> bool" where
  "repository_ok wa base r =
     (IDENTIFIER_RE (rb_repo_id r) \<and> list_all IDENTIFIER_RE (rb_project_ids r)
      \<and> (\<exists>s. absolute_text wa s \<and> rb_repo_root r = pure_path s)
      \<and> rb_repo_root r \<noteq> base \<and> \<not> in_parents base (rb_repo_root r))"

definition repositories_ok :: "(string \<Rightarrow> bool) \<Rightarrow> npath \<Rightarrow> repository_binding list \<Rightarrow> bool" where
  "repositories_ok wa base rs =
     (distinct (map rb_repo_id rs) \<and> distinct (concat (map rb_project_ids rs))
      \<and> list_all (repository_ok wa base) rs)"

definition solution_ok :: "(string \<Rightarrow> bool) \<Rightarrow> npath \<Rightarrow> solution_binding \<Rightarrow> bool" where
  "solution_ok wa base s =
     (IDENTIFIER_RE (sb_solution_id s) \<and> IDENTIFIER_RE (sb_instance_id s)
      \<and> sb_repositories s \<noteq> [] \<and> repositories_ok wa base (sb_repositories s)
      \<and> sb_catalog_host_repo s \<in> set (repo_ids s))"

definition registry_ok :: "(string \<Rightarrow> bool) \<Rightarrow> snapshot_registry \<Rightarrow> bool" where
  "registry_ok wa r =
     (distinct (map sb_solution_id (sr_solutions r)) \<and> list_all (solution_ok wa (sr_axiom_home r)) (sr_solutions r))"

lemma add_project_Inr:
  "add_project (seen, ids) v = Inr acc \<longleftrightarrow>
     (\<exists>d p. v = PDict d \<and> item_field d ''project_id'' = PStr p \<and> IDENTIFIER_RE p \<and> p \<notin> set seen
        \<and> acc = (p # seen, ids @ [p]))"
  by (auto simp: add_project_def registry_simps)

lemma add_projects_ok:
  assumes "fold_result add_project (seen, ids) ps = Inr (seen', ids')"
    "distinct ids" "set ids \<subseteq> set seen" "list_all IDENTIFIER_RE ids"
  shows "distinct ids' \<and> set ids \<subseteq> set ids' \<and> set seen' = set seen \<union> set ids' \<and> set ids' \<inter> (set seen - set ids) = {}
     \<and> list_all IDENTIFIER_RE ids'"
  using assms
proof (induction ps arbitrary: seen ids)
  case (Cons v ps)
  then obtain p where p: "p \<notin> set seen" "IDENTIFIER_RE p"
    "fold_result add_project (p # seen, ids @ [p]) ps = Inr (seen', ids')"
    by (auto simp: bind_result_eq_Inr add_project_Inr)
  have new: "p \<notin> set ids" "set ids \<subseteq> insert p (set seen)" using p(1) Cons.prems(3) by auto
  then have "distinct (ids @ [p])" "set (ids @ [p]) \<subseteq> set (p # seen)" "list_all IDENTIFIER_RE (ids @ [p])"
    using Cons.prems(2,4) p(2) by auto
  from Cons.IH [OF p(3) this] show ?case using p(1) new by auto
qed auto

lemma add_repository_ok:
  assumes "add_repository wa base (rs, seen) v = Inr (rs', seen')" "repositories_ok wa base rs"
    "set seen = set (concat (map rb_project_ids rs))"
  shows "repositories_ok wa base rs' \<and> set seen' = set (concat (map rb_project_ids rs'))"
proof -
  from assms(1) obtain i root ids where r: "IDENTIFIER_RE i" "i \<notin> set (map rb_repo_id rs)"
    "\<exists>s. absolute_text wa s \<and> root = pure_path s" "base \<noteq> root" "\<not> in_parents base root"
    "rs' = rs @ [\<lparr>rb_repo_id = i, rb_repo_root = root, rb_project_ids = ids\<rparr>]"
    and "\<exists>ps. fold_result add_project (seen, []) ps = Inr (seen', ids)"
    by (auto simp: add_repository_def registry_simps split: if_splits)
  then obtain ps where "fold_result add_project (seen, []) ps = Inr (seen', ids)" by blast
  from add_projects_ok [OF this] have ids: "distinct ids" "set seen' = set seen \<union> set ids"
    "set ids \<inter> set seen = {}" "list_all IDENTIFIER_RE ids" by simp_all
  have "distinct (concat (map rb_project_ids rs @ [ids]))"
    using assms(2,3) ids by (auto simp: repositories_ok_def)
  with assms(2,3) r ids show ?thesis
    by (auto simp: repositories_ok_def repository_ok_def)
qed

lemma add_repositories_ok:
  assumes "fold_result (add_repository wa base) (rs, seen) vs = Inr (rs', seen')" "repositories_ok wa base rs"
    "set seen = set (concat (map rb_project_ids rs))"
  shows "repositories_ok wa base rs'"
  using assms
proof (induction vs arbitrary: rs seen)
  case (Cons v vs)
  then obtain rs1 seen1 where 1: "add_repository wa base (rs, seen) v = Inr (rs1, seen1)"
    "fold_result (add_repository wa base) (rs1, seen1) vs = Inr (rs', seen')"
    by (auto simp: bind_result_eq_Inr)
  from add_repository_ok [OF 1(1) Cons.prems(2,3)] Cons.IH [OF 1(2)] show ?case by blast
qed auto

lemma catalog_host_of_ok: "catalog_host_of item rs = Inr host \<Longrightarrow> host \<in> set (map rb_repo_id rs)"
  by (auto simp: catalog_host_of_def bind_result_eq_Inr split: if_splits)

lemma add_solution_ok:
  assumes "add_solution wa base instances ss v = Inr ss'"
    "distinct (map sb_solution_id ss)" "list_all (solution_ok wa base) ss"
  shows "distinct (map sb_solution_id ss') \<and> list_all (solution_ok wa base) ss'"
proof -
  from assms(1) obtain i j rs seen item host vs where s: "i \<notin> set (map sb_solution_id ss)" "IDENTIFIER_RE i"
    "IDENTIFIER_RE j" "fold_result (add_repository wa base) ([], []) vs = Inr (rs, seen)" "rs \<noteq> []"
    "catalog_host_of item rs = Inr host"
    "ss' = ss @ [\<lparr>sb_solution_id = i, sb_instance_id = j, sb_catalog_host_repo = host, sb_repositories = rs\<rparr>]"
    by (auto simp: add_solution_def registry_simps split: if_splits)
  have "repositories_ok wa base rs"
    using add_repositories_ok [OF s(4)] by (simp add: repositories_ok_def)
  with s assms(2,3) catalog_host_of_ok [OF s(6)] show ?thesis
    by (auto simp: solution_ok_def repo_ids_def)
qed

lemma add_solutions_ok:
  assumes "fold_result (add_solution wa base instances) ss vs = Inr ss'"
    "distinct (map sb_solution_id ss)" "list_all (solution_ok wa base) ss"
  shows "distinct (map sb_solution_id ss') \<and> list_all (solution_ok wa base) ss'"
  using assms
proof (induction vs arbitrary: ss)
  case (Cons v vs)
  then obtain ss1 where 1: "add_solution wa base instances ss v = Inr ss1"
    "fold_result (add_solution wa base instances) ss1 vs = Inr ss'"
    by (auto simp: bind_result_eq_Inr)
  from add_solution_ok [OF 1(1) Cons.prems(2,3)] Cons.IH [OF 1(2)] show ?case by blast
qed auto

lemma parse_registry_valid:
  assumes "parse_registry wa base v = Inr r"
  shows "registry_ok wa r" and "sr_axiom_home r = base"
  using assms add_solutions_ok [of wa base _ "[]"]
  by (auto simp: parse_registry_def registry_simps registry_ok_def)

section \<open>What a lookup answers\<close>

lemma find_Some_unique:
  assumes "distinct (map key xs)" "x \<in> set xs"
  shows "find (\<lambda>y. key y = key x) xs = Some x"
proof -
  have "\<exists>y. find (\<lambda>y. key y = key x) xs = Some y"
    using assms(2) by (cases "find (\<lambda>y. key y = key x) xs") (auto simp: find_None_iff)
  then obtain y where y: "find (\<lambda>y. key y = key x) xs = Some y" ..
  then have "y \<in> set xs" "key y = key x" by (auto simp: find_Some_iff)
  with assms have "y = x" by (auto simp: distinct_map dest: inj_onD)
  with y show ?thesis by simp
qed

lemma find_Some_member: "find P xs = Some x \<Longrightarrow> x \<in> set xs \<and> P x"
  by (auto simp: find_Some_iff)

lemma find_repository_of_project:
  assumes "distinct (concat (map rb_project_ids rs))" "r \<in> set rs" "p \<in> set (rb_project_ids r)"
  shows "find (\<lambda>repo. p \<in> set (rb_project_ids repo)) rs = Some r"
  using assms
proof (induction rs)
  case (Cons q rs)
  show ?case
  proof (cases "p \<in> set (rb_project_ids q)")
    case True
    with Cons.prems have "r = q" by auto
    with True show ?thesis by simp
  next
    case False
    with Cons.prems Cons.IH show ?thesis by auto
  qed
qed simp

text \<open>A project is declared by a registry: the solution and the repository that host it.\<close>

definition declares :: "snapshot_registry \<Rightarrow> string \<Rightarrow> string \<Rightarrow> repository_binding \<Rightarrow> bool" where
  "declares r solution project repo =
     (\<exists>s \<in> set (sr_solutions r). sb_solution_id s = solution \<and> repo \<in> set (sb_repositories s)
        \<and> project \<in> set (rb_project_ids repo))"

lemma find_project_iff:
  assumes "registry_ok wa r"
  shows "find_project r solution project = Inr b \<longleftrightarrow>
     (\<exists>repo. declares r solution project repo
        \<and> b = \<lparr>pb_solution_id = solution, pb_project_id = project, pb_repo_id = rb_repo_id repo,
              pb_repo_root = rb_repo_root repo\<rparr>)"
proof
  assume "find_project r solution project = Inr b"
  then obtain s repo where "find (\<lambda>s. sb_solution_id s = solution) (sr_solutions r) = Some s"
    "find (\<lambda>repo. project \<in> set (rb_project_ids repo)) (sb_repositories s) = Some repo"
    "b = \<lparr>pb_solution_id = solution, pb_project_id = project, pb_repo_id = rb_repo_id repo,
          pb_repo_root = rb_repo_root repo\<rparr>"
    by (auto simp: find_project_def find_solution_def bind_result_eq_Inr split: option.splits)
  then show "\<exists>repo. declares r solution project repo
        \<and> b = \<lparr>pb_solution_id = solution, pb_project_id = project, pb_repo_id = rb_repo_id repo,
              pb_repo_root = rb_repo_root repo\<rparr>"
    by (auto simp: declares_def dest!: find_Some_member)
next
  assume "\<exists>repo. declares r solution project repo
        \<and> b = \<lparr>pb_solution_id = solution, pb_project_id = project, pb_repo_id = rb_repo_id repo,
              pb_repo_root = rb_repo_root repo\<rparr>"
  then obtain s repo where s: "s \<in> set (sr_solutions r)" "sb_solution_id s = solution"
    "repo \<in> set (sb_repositories s)" "project \<in> set (rb_project_ids repo)"
    and b: "b = \<lparr>pb_solution_id = solution, pb_project_id = project, pb_repo_id = rb_repo_id repo,
          pb_repo_root = rb_repo_root repo\<rparr>"
    by (auto simp: declares_def)
  have "find (\<lambda>s. sb_solution_id s = solution) (sr_solutions r) = Some s"
    using find_Some_unique [of sb_solution_id "sr_solutions r" s] assms s(1,2) by (simp add: registry_ok_def)
  moreover have "distinct (concat (map rb_project_ids (sb_repositories s)))"
    using assms s(1) by (auto simp: registry_ok_def solution_ok_def repositories_ok_def list_all_iff)
  ultimately show "find_project r solution project = Inr b"
    using find_repository_of_project [OF _ s(3,4)] by (simp add: find_project_def find_solution_def b)
qed

section \<open>Where a location is\<close>

text \<open>A name that stays one component when joined to a path.\<close>

definition segment :: "string \<Rightarrow> bool" where
  "segment s = (s \<noteq> [] \<and> s \<noteq> ''.'' \<and> CHR ''/'' \<notin> set s)"

lemma joinpath_segment: "segment s \<Longrightarrow> joinpath p s = NPath (path_root p) (path_parts p @ [s])"
  by (cases s) (auto simp: segment_def joinpath_def pure_path_def pure_parts_def is_absolute_def root_of_def
      split_on_single)

lemma hex_not_slash: "is_hex c \<Longrightarrow> c \<noteq> CHR ''/''"
  by (auto simp: is_hex_def is_digit_def in_range_def less_eq_char_def)

lemma at_dollar_not_slash: "at_dollar s \<Longrightarrow> CHR ''/'' \<notin> set s"
  by (auto simp: at_dollar_def newline_def)

lemma SHA256_RE_segment: "SHA256_RE s \<Longrightarrow> segment s"
proof -
  assume s: "SHA256_RE s"
  have "CHR ''/'' \<notin> set (take 64 s @ drop 64 s)"
    using s hex_not_slash by (auto simp: SHA256_RE_def at_dollar_def list_all_iff newline_def simp del: append_take_drop_id)
  then show "segment s" using SHA256_RE_length [OF s] by (auto simp: segment_def)
qed

lemma identifier_not_slash: "identifier_char c \<Longrightarrow> c \<noteq> CHR ''/''"
  by (auto simp: identifier_char_def is_lower_def is_digit_def in_range_def less_eq_char_def)

lemma IDENTIFIER_RE_segment: "IDENTIFIER_RE s \<Longrightarrow> segment s"
proof -
  assume s: "IDENTIFIER_RE s"
  then obtain c t where ct: "s = c # t" "is_lower c" "at_dollar (dropWhile identifier_char t)"
    by (cases s) (auto simp: IDENTIFIER_RE_def)
  have "CHR ''/'' \<notin> set (takeWhile identifier_char t)" using identifier_not_slash by (auto dest: set_takeWhileD)
  then have "CHR ''/'' \<notin> set (takeWhile identifier_char t @ dropWhile identifier_char t)"
    unfolding set_append using at_dollar_not_slash [OF ct(3)] by blast
  then have "CHR ''/'' \<notin> set t" unfolding takeWhile_dropWhile_id .
  moreover have "c \<noteq> CHR ''/''" "c \<noteq> CHR ''.''"
    using ct(2) by (auto simp: is_lower_def in_range_def less_eq_char_def)
  ultimately show "segment s" using ct(1) by (auto simp: segment_def)
qed

lemma lane_segment: "lane \<in> set LANES \<Longrightarrow> segment lane"
  by (auto simp: LANES_def segment_def)

lemma joinpath_graph_output:
  "joinpath p GRAPH_OUTPUT_ROOT = NPath (path_root p) (path_parts p @ [''.axiom'', ''graph''])"
  by (simp add: joinpath_def GRAPH_OUTPUT_ROOT_def pure_path_def pure_parts_def is_absolute_def root_of_def)

lemma declares_ids:
  assumes "registry_ok wa r" "declares r solution project repo"
  shows "IDENTIFIER_RE solution \<and> IDENTIFIER_RE project"
  using assms
  by (auto simp: declares_def registry_ok_def list_all_iff solution_ok_def repositories_ok_def repository_ok_def)

lemma find_location_root:
  assumes "registry_ok wa r" "find_location r solution project lane = Inr l"
  shows "\<exists>repo. declares r solution project repo \<and> lane \<in> set LANES
     \<and> l = \<lparr>sl_solution_id = solution, sl_project_id = project, sl_lane = lane,
           sl_root = NPath (path_root (rb_repo_root repo))
             (path_parts (rb_repo_root repo) @ [''.axiom'', ''graph'', solution, project, lane])\<rparr>"
proof -
  from assms(2) obtain b where b: "find_project r solution project = Inr b" "binding_location b lane = Inr l"
    by (auto simp: find_location_def bind_result_eq_Inr)
  with find_project_iff [OF assms(1)] obtain repo where repo: "declares r solution project repo"
    and b': "b = \<lparr>pb_solution_id = solution, pb_project_id = project, pb_repo_id = rb_repo_id repo,
              pb_repo_root = rb_repo_root repo\<rparr>" by blast
  have ids: "segment solution" "segment project"
    using declares_ids [OF assms(1) repo] IDENTIFIER_RE_segment by blast+
  have lane: "lane \<in> set LANES"
    using b(2) by (auto simp: binding_location_def check_lane_def bind_result_eq_Inr split: if_splits)
  have "graph_root b = NPath (path_root (rb_repo_root repo))
      (path_parts (rb_repo_root repo) @ [''.axiom'', ''graph'', solution, project])"
    by (simp add: graph_root_def b' joinpath_graph_output joinpath_segment ids)
  with b(2) lane repo show ?thesis
    by (intro exI [of _ repo])
      (auto simp: binding_location_def check_lane_def b' joinpath_segment lane_segment)
qed

text \<open>
  An accepted registry document yields unambiguous bindings: a logical project resolves exactly
  when one repository of its solution declares it, to that repository's root, which lies outside
  \<open>AXIOM_HOME\<close>; ids are unique where they must be and the catalog is hosted by a declared repository.
\<close>

theorem registry_resolves_declared:
  assumes "parse_registry wa base v = Inr r"
  shows "registry_ok wa r
    \<and> (find_project r solution project = Inr b \<longleftrightarrow>
        (\<exists>repo. declares r solution project repo
          \<and> b = \<lparr>pb_solution_id = solution, pb_project_id = project, pb_repo_id = rb_repo_id repo,
                pb_repo_root = rb_repo_root repo\<rparr>))
    \<and> (\<forall>repo. declares r solution project repo \<longrightarrow> rb_repo_root repo \<noteq> base \<and> \<not> in_parents base (rb_repo_root repo))"
proof -
  note ok = parse_registry_valid [OF assms]
  have "rb_repo_root repo \<noteq> base \<and> \<not> in_parents base (rb_repo_root repo)" if "declares r solution project repo" for repo
    using ok that
    by (auto simp: declares_def registry_ok_def list_all_iff solution_ok_def repositories_ok_def repository_ok_def)
  with ok(1) find_project_iff [OF ok(1)] show ?thesis by blast
qed

text \<open>
  Every location a registry hands out is the directory of that solution, project and lane below
  the graph output root of the declaring repository, and two locations in one repository are the same
  or lie apart: neither is inside the other.
\<close>

theorem locations_disjoint:
  assumes "parse_registry wa base v = Inr r"
    "find_location r solution project lane = Inr l" "find_location r solution' project' lane' = Inr l'"
  shows "\<exists>repo repo'. declares r solution project repo \<and> declares r solution' project' repo'
    \<and> path_parts (sl_root l) = path_parts (rb_repo_root repo) @ [''.axiom'', ''graph'', solution, project, lane]
    \<and> (rb_repo_root repo = rb_repo_root repo' \<longrightarrow>
        (contained (sl_root l) (sl_root l') \<longleftrightarrow> solution = solution' \<and> project = project' \<and> lane = lane'))"
proof -
  note ok = parse_registry_valid(1) [OF assms(1)]
  obtain repo repo' where l: "declares r solution project repo" "declares r solution' project' repo'"
    "sl_root l = NPath (path_root (rb_repo_root repo))
       (path_parts (rb_repo_root repo) @ [''.axiom'', ''graph'', solution, project, lane])"
    "sl_root l' = NPath (path_root (rb_repo_root repo'))
       (path_parts (rb_repo_root repo') @ [''.axiom'', ''graph'', solution', project', lane'])"
    using find_location_root [OF ok assms(2)] find_location_root [OF ok assms(3)] by auto
  then show ?thesis
    by (intro exI [of _ repo] exI [of _ repo']) (auto simp: contained_def in_parents_def)
qed

definition ex_registry_document :: pyval where
  "ex_registry_document = PDict
     [(''schema_version'', PInt 1), (''instances'', PList [PDict [(''instance_id'', PStr ''main'')]]),
      (''solutions'', PList [PDict [(''solution_id'', PStr ''shop''), (''instance_id'', PStr ''main''),
         (''repositories'', PList [PDict [(''repo_id'', PStr ''web''), (''repo_root'', PStr ''/src/web''),
            (''projects'', PList [PDict [(''project_id'', PStr ''app'')]])]])]])]"

definition ex_registry :: snapshot_registry where
  "ex_registry = \<lparr>sr_axiom_home = NPath ''/'' [''home''],
     sr_solutions = [\<lparr>sb_solution_id = ''shop'', sb_instance_id = ''main'', sb_catalog_host_repo = ''web'',
       sb_repositories = [\<lparr>rb_repo_id = ''web'', rb_repo_root = NPath ''/'' [''src'', ''web''],
         rb_project_ids = [''app'']\<rparr>]\<rparr>]\<rparr>"

lemma ex_registry_parsed:
  "parse_registry drive_prefix (NPath ''/'' [''home'']) ex_registry_document = Inr ex_registry"
  by code_simp

theorem registry_resolves_declared_witness:
  "\<exists>b. find_project ex_registry ''shop'' ''app'' = Inr b \<and> registry_ok drive_prefix ex_registry"
proof -
  have "is_ok (find_project ex_registry ''shop'' ''app'')" by code_simp
  with registry_resolves_declared [OF ex_registry_parsed] show ?thesis by (auto simp: is_ok_iff)
qed

theorem locations_disjoint_witness:
  "\<exists>l l'. find_location ex_registry ''shop'' ''app'' ''live'' = Inr l
     \<and> find_location ex_registry ''shop'' ''app'' ''checkpoint'' = Inr l' \<and> \<not> contained (sl_root l) (sl_root l')"
proof -
  have "is_ok (find_location ex_registry ''shop'' ''app'' ''live'')"
    "is_ok (find_location ex_registry ''shop'' ''app'' ''checkpoint'')" by code_simp+
  then obtain l l' where l: "find_location ex_registry ''shop'' ''app'' ''live'' = Inr l"
    "find_location ex_registry ''shop'' ''app'' ''checkpoint'' = Inr l'" by (auto simp: is_ok_iff)
  have one: "declares ex_registry ''shop'' ''app'' repo \<Longrightarrow> declares ex_registry ''shop'' ''app'' repo'
      \<Longrightarrow> repo = repo'" for repo repo'
    by (auto simp: declares_def ex_registry_def)
  from locations_disjoint [OF ex_registry_parsed l] one l show ?thesis by auto
qed

text \<open>
  An override that is absolute only in Windows syntax passes the absolute-path check on a POSIX
  host and becomes a relative home there, although the code documents that a relative override is
  refused instead of being resolved against the working directory.
\<close>

theorem axiom_home_accepts_foreign_syntax:
  assumes "wa ''C:/axiom''"
  shows "\<exists>home. axiom_home wa [(''AXIOM_HOME'', ''C:/axiom'')] ''linux'' = Inr home \<and> \<not> is_absolute home"
  using assms
  by (simp add: axiom_home_def env_get_def absolute_text_def pure_path_def is_absolute_def root_of_def Let_def)

theorem axiom_home_accepts_foreign_syntax_witness:
  "\<exists>home. axiom_home drive_prefix [(''AXIOM_HOME'', ''C:/axiom'')] ''linux'' = Inr home \<and> \<not> is_absolute home"
  by (rule axiom_home_accepts_foreign_syntax) code_simp

end
