(* ===== verification/Guard.thy ===== *)
theory Guard
  imports Paths Complex_Main
begin

text \<open>
  \<open>guard/protocol.py\<close>, \<open>guard/errors.py\<close> and \<open>guard/engine.py\<close>: the two solution guards, admission and
  data. The engine of one process is the ordered dictionary of the guards it holds; what the
  operating system and the clock do during a bounded wait is the argument \<open>env\<close>. The processes of a
  workspace share the locks: the step relation \<open>guard_step\<close> interleaves the engine's operations of
  any number of them, and a lock is granted as \<open>flock\<close> and \<open>LockFileEx\<close> grant it (any number of shared
  holders, or one exclusive).
\<close>

section \<open>The protocol\<close>

definition LOCK_FILE_NAMES :: "string list" where
  "LOCK_FILE_NAMES = [''admission.lock'', ''data.lock'']"

definition ACQUISITION_ORDER :: "string list" where
  "ACQUISITION_ORDER = LOCK_FILE_NAMES"

definition RELEASE_ORDER :: "string list" where
  "RELEASE_ORDER = rev LOCK_FILE_NAMES"

definition DEFAULT_TIMEOUT_MS :: int where "DEFAULT_TIMEOUT_MS = 5000"
definition MAX_TIMEOUT_MS :: int where "MAX_TIMEOUT_MS = 60000"
definition RETRY_INITIAL_MS :: int where "RETRY_INITIAL_MS = 25"
definition RETRY_MAX_MS :: int where "RETRY_MAX_MS = 250"

datatype lock_mode = Shared | Exclusive

datatype guard_error = GuardError string | GuardTimeout | GuardCancelled

text \<open>The guard directory of an instance; \<open>None\<close> is the \<open>ValueError\<close> of an id that is not one segment.\<close>

definition INSTANCES_DIRECTORY_NAME :: string where "INSTANCES_DIRECTORY_NAME = ''instances''"
definition GUARD_DIRECTORY_NAME :: string where "GUARD_DIRECTORY_NAME = ''solution.guard''"

definition guard_directory :: "npath \<Rightarrow> pyval \<Rightarrow> npath option" where
  "guard_directory home workspace_instance_id =
     (case workspace_instance_id of
        PStr i \<Rightarrow>
          if strip i = [] then None
          else if i \<noteq> strip i then None
          else if i = ''.'' \<or> i = ''..'' \<or> CHR ''/'' \<in> set i \<or> CHR 0x5C \<in> set i then None
          else Some (joinpath (joinpath (joinpath home INSTANCES_DIRECTORY_NAME) i) GUARD_DIRECTORY_NAME)
      | _ \<Rightarrow> None)"

definition guard_lock_paths :: "npath \<Rightarrow> (string, npath) dict" where
  "guard_lock_paths directory = map (\<lambda>name. (name, joinpath directory name)) LOCK_FILE_NAMES"

text \<open>The backend a platform declares; \<open>None\<close> is \<open>GuardUnsupported\<close>.\<close>

definition POSIX_PLATFORMS :: "string list" where
  "POSIX_PLATFORMS = [''linux'', ''darwin'', ''freebsd'', ''openbsd'', ''netbsd'', ''dragonfly'', ''sunos'',
     ''aix'', ''cygwin'']"

definition platform_backend_name :: "string \<Rightarrow> string option" where
  "platform_backend_name name =
     (if starts_with ''win'' name then Some ''windows''
      else if list_ex (\<lambda>p. starts_with p name) POSIX_PLATFORMS then Some ''posix''
      else None)"

definition resolve_timeout_ms :: "pyval \<Rightarrow> guard_error + int" where
  "resolve_timeout_ms v =
     (case v of
        PNone \<Rightarrow> Inr DEFAULT_TIMEOUT_MS
      | PInt i \<Rightarrow>
          if i \<le> 0 then Inl (GuardError ''invalid_timeout'')
          else if i > MAX_TIMEOUT_MS then Inl (GuardError ''invalid_timeout'')
          else Inr i
      | _ \<Rightarrow> Inl (GuardError ''invalid_timeout''))"

section \<open>The bounded wait\<close>

text \<open>
  One wait: in turn \<open>i\<close> the caller's cancellation is asked, the primitive is tried, and on a busy lock
  the clock is read again, \<open>lag i\<close> milliseconds after the turn began; the sleep that follows lasts
  \<open>oversleep i\<close> milliseconds longer than it was asked to, so the next turn may begin after the deadline. The
  result carries the time its turn began, or the clock read that ended it. The loop of the code has no bound
  of its own, so this one has fuel: \<open>None\<close> is a wait that has not ended.
\<close>

record wait_env =
  cancelled :: "nat \<Rightarrow> bool"
  busy :: "nat \<Rightarrow> bool"
  lag :: "nat \<Rightarrow> rat"
  oversleep :: "nat \<Rightarrow> rat"

datatype wait_result = Acquired | TimedOut | WaitCancelled

fun wait_loop :: "nat \<Rightarrow> wait_env \<Rightarrow> nat \<Rightarrow> rat \<Rightarrow> rat \<Rightarrow> rat \<Rightarrow> (wait_result \<times> rat) option" where
  "wait_loop 0 env i t deadline delay = None"
| "wait_loop (Suc fuel) env i t deadline delay =
     (if cancelled env i then Some (WaitCancelled, t)
      else if \<not> busy env i then Some (Acquired, t)
      else
        (let now = t + lag env i; remaining = deadline - now in
         if remaining \<le> 0 then Some (TimedOut, now)
         else wait_loop fuel env (i + 1) (now + min delay remaining + oversleep env i) deadline
                (min (delay * 2) (of_int RETRY_MAX_MS))))"

definition wait_fuel :: "int \<Rightarrow> nat" where
  "wait_fuel timeout_ms = nat (timeout_ms div RETRY_INITIAL_MS) + 3"

definition bounded_wait :: "wait_env \<Rightarrow> int \<Rightarrow> rat \<Rightarrow> (wait_result \<times> rat) option" where
  "bounded_wait env timeout_ms started =
     wait_loop (wait_fuel timeout_ms) env 0 started (started + of_int timeout_ms) (of_int RETRY_INITIAL_MS)"

section \<open>The engine of one process\<close>

record guard =
  held :: "(string, lock_mode) dict"
  closed :: bool

definition new_guard :: guard where
  "new_guard = \<lparr>held = [], closed = False\<rparr>"

definition held_names :: "guard \<Rightarrow> string list" where
  "held_names g = dict_keys (held g)"

definition held_mode :: "guard \<Rightarrow> string \<Rightarrow> lock_mode option" where
  "held_mode g name = dict_get (held g) name"

definition position :: "string \<Rightarrow> nat" where
  "position name = length (takeWhile (\<lambda>n. n \<noteq> name) ACQUISITION_ORDER)"

text \<open>The refusals that come before the guard file is opened.\<close>

definition may_acquire :: "guard \<Rightarrow> string \<Rightarrow> lock_mode \<Rightarrow> guard_error + unit" where
  "may_acquire g name mode =
     (if name \<notin> set LOCK_FILE_NAMES then Inl (GuardError ''unknown_lock'')
      else if closed g then Inl (GuardError ''closed'')
      else (case dict_get (held g) name of
          Some m \<Rightarrow> Inl (GuardError (if m \<noteq> mode then ''lock_upgrade'' else ''recursive_acquire''))
        | None \<Rightarrow>
            if \<exists>already \<in> set (held_names g). position already > position name
            then Inl (GuardError ''order_violation'') else Inr ()))"

text \<open>
  \<open>_open_verified\<close>: turn \<open>i\<close> opens the path and reads the identity of the handle and of the path; a
  path replaced in between is opened again, at most \<open>IDENTITY_OPEN_ATTEMPTS\<close> times.
\<close>

datatype identity_read = Unreadable | Ids string string

definition IDENTITY_OPEN_ATTEMPTS :: nat where "IDENTITY_OPEN_ATTEMPTS = 3"

fun open_verified :: "nat \<Rightarrow> (nat \<Rightarrow> identity_read) \<Rightarrow> nat \<Rightarrow> guard_error + nat" where
  "open_verified 0 ids i = Inl (GuardError ''identity_mismatch'')"
| "open_verified (Suc n) ids i =
     (case ids i of
        Unreadable \<Rightarrow> Inl (GuardError ''identity_unreadable'')
      | Ids opened current \<Rightarrow> if opened = current then Inr i else open_verified n ids (i + 1))"

text \<open>What the operating system and the clock do in one acquisition, and how it then ends.\<close>

datatype attempt = Unverified guard_error | Waited wait_result

definition attempt_outcome :: "(nat \<Rightarrow> identity_read) \<Rightarrow> wait_env \<Rightarrow> int \<Rightarrow> rat \<Rightarrow> attempt option" where
  "attempt_outcome ids env timeout_ms started =
     (case open_verified IDENTITY_OPEN_ATTEMPTS ids 0 of
        Inl e \<Rightarrow> Some (Unverified e)
      | Inr _ \<Rightarrow> map_option (\<lambda>p. Waited (fst p)) (bounded_wait env timeout_ms started))"

definition acquire_one :: "guard \<Rightarrow> string \<Rightarrow> lock_mode \<Rightarrow> attempt \<Rightarrow> guard \<times> (guard_error + unit)" where
  "acquire_one g name mode outcome =
     (case may_acquire g name mode of
        Inl e \<Rightarrow> (g, Inl e)
      | Inr _ \<Rightarrow>
          (case outcome of
             Unverified e \<Rightarrow> (g, Inl e)
           | Waited TimedOut \<Rightarrow> (g, Inl GuardTimeout)
           | Waited WaitCancelled \<Rightarrow> (g, Inl GuardCancelled)
           | Waited Acquired \<Rightarrow> (g\<lparr>held := dict_set name mode (held g)\<rparr>, Inr ())))"

definition release :: "guard \<Rightarrow> string \<Rightarrow> guard \<times> (guard_error + unit)" where
  "release g name =
     (case dict_get (held g) name of
        None \<Rightarrow> (g, Inl (GuardError ''not_held''))
      | Some _ \<Rightarrow> (g\<lparr>held := AList.delete name (held g)\<rparr>, Inr ()))"

text \<open>The guards to release, in order; the second part is empty for the two declared guards.\<close>

definition release_order :: "guard \<Rightarrow> string list" where
  "release_order g =
     (let order = filter (\<lambda>n. n \<in> set (held_names g)) RELEASE_ORDER in
      order @ filter (\<lambda>n. n \<notin> set order) (rev (held_names g)))"

definition release_all :: "guard \<Rightarrow> guard" where
  "release_all g = fold (\<lambda>name g. fst (release g name)) (release_order g) g"

definition close :: "guard \<Rightarrow> guard" where
  "close g = (release_all g)\<lparr>closed := True\<rparr>"

section \<open>Acquiring in order\<close>

text \<open>One attempt: each guard in turn, then the early releases. The first error ends it.\<close>

fun acquire_specs ::
    "guard \<Rightarrow> (string \<times> lock_mode) list \<Rightarrow> (string \<Rightarrow> attempt) \<Rightarrow> guard \<times> (guard_error + unit)" where
  "acquire_specs g [] outcome = (g, Inr ())"
| "acquire_specs g ((name, mode) # specs) outcome =
     (case acquire_one g name mode (outcome name) of
        (g', Inl e) \<Rightarrow> (g', Inl e)
      | (g', Inr _) \<Rightarrow> acquire_specs g' specs outcome)"

fun release_names :: "guard \<Rightarrow> string list \<Rightarrow> guard \<times> (guard_error + unit)" where
  "release_names g [] = (g, Inr ())"
| "release_names g (name # names) =
     (case release g name of (g', Inl e) \<Rightarrow> (g', Inl e) | (g', Inr _) \<Rightarrow> release_names g' names)"

definition attempt_once ::
    "guard \<Rightarrow> (string \<times> lock_mode) list \<Rightarrow> string list \<Rightarrow> (string \<Rightarrow> attempt) \<Rightarrow> guard \<times> (guard_error + unit)"
where
  "attempt_once g specs release_early outcome =
     (case acquire_specs g specs outcome of
        (g', Inl e) \<Rightarrow> (g', Inl e)
      | (g', Inr _) \<Rightarrow> release_names g' release_early)"

text \<open>
  The entry of \<open>ordered\<close>: the guard as the body sees it, or as the error leaves it. Only a timeout and
  a cancellation release and retry; any other error passes through. \<open>outcome i name\<close> is how the
  acquisition of a guard ends in attempt \<open>i\<close>.
\<close>

fun ordered_loop ::
    "nat \<Rightarrow> nat \<Rightarrow> guard \<Rightarrow> (string \<times> lock_mode) list \<Rightarrow> string list \<Rightarrow> (nat \<Rightarrow> string \<Rightarrow> attempt)
       \<Rightarrow> guard_error \<Rightarrow> guard \<times> (guard_error + unit)" where
  "ordered_loop 0 i g specs release_early outcome failure = (g, Inl failure)"
| "ordered_loop (Suc n) i g specs release_early outcome failure =
     (case attempt_once g specs release_early (outcome i) of
        (g', Inr _) \<Rightarrow> (g', Inr ())
      | (g', Inl (GuardError r)) \<Rightarrow> (g', Inl (GuardError r))
      | (g', Inl e) \<Rightarrow> ordered_loop n (i + 1) (release_all g') specs release_early outcome e)"

definition ordered_enter ::
    "guard \<Rightarrow> (string \<times> lock_mode) list \<Rightarrow> string list \<Rightarrow> pyval \<Rightarrow> (nat \<Rightarrow> string \<Rightarrow> attempt)
       \<Rightarrow> guard \<times> (guard_error + unit)" where
  "ordered_enter g specs release_early attempts outcome =
     (case attempts of
        PInt n \<Rightarrow>
          if n < 1 then (g, Inl (GuardError ''invalid_attempts''))
          else ordered_loop (nat n) 0 g specs release_early outcome (GuardError ''attempts_exhausted'')
      | _ \<Rightarrow> (g, Inl (GuardError ''invalid_attempts'')))"

definition READER_SPECS :: "(string \<times> lock_mode) list" where
  "READER_SPECS = [(''admission.lock'', Shared), (''data.lock'', Shared)]"

definition PUBLISHER_SPECS :: "(string \<times> lock_mode) list" where
  "PUBLISHER_SPECS = [(''admission.lock'', Exclusive), (''data.lock'', Exclusive)]"

definition reader_enter :: "guard \<Rightarrow> pyval \<Rightarrow> (nat \<Rightarrow> string \<Rightarrow> attempt) \<Rightarrow> guard \<times> (guard_error + unit)" where
  "reader_enter g attempts outcome = ordered_enter g READER_SPECS [''admission.lock''] attempts outcome"

definition publisher_enter :: "guard \<Rightarrow> pyval \<Rightarrow> (nat \<Rightarrow> string \<Rightarrow> attempt) \<Rightarrow> guard \<times> (guard_error + unit)" where
  "publisher_enter g attempts outcome = ordered_enter g PUBLISHER_SPECS [] attempts outcome"

text \<open>The whole of \<open>ordered\<close>: the body runs on the guard held, and everything is released after it.\<close>

definition ordered ::
    "(guard_error \<Rightarrow> 'e) \<Rightarrow> guard \<Rightarrow> (string \<times> lock_mode) list \<Rightarrow> string list \<Rightarrow> pyval
       \<Rightarrow> (nat \<Rightarrow> string \<Rightarrow> attempt) \<Rightarrow> (guard \<Rightarrow> guard \<times> ('e + 'a)) \<Rightarrow> guard \<times> ('e + 'a)" where
  "ordered raise g specs release_early attempts outcome body =
     (case ordered_enter g specs release_early attempts outcome of
        (g', Inl e) \<Rightarrow> (g', Inl (raise e))
      | (g', Inr _) \<Rightarrow> (case body g' of (g'', r) \<Rightarrow> (release_all g'', r)))"

section \<open>The processes of a workspace\<close>

definition compatible :: "lock_mode \<Rightarrow> lock_mode \<Rightarrow> bool" where
  "compatible m n = (m = Shared \<and> n = Shared)"

definition grantable :: "(nat \<Rightarrow> guard) \<Rightarrow> nat \<Rightarrow> string \<Rightarrow> lock_mode \<Rightarrow> bool" where
  "grantable gs p name mode =
     (\<forall>q n. q \<noteq> p \<longrightarrow> dict_get (held (gs q)) name = Some n \<longrightarrow> compatible mode n)"

inductive guard_step :: "(nat \<Rightarrow> guard) \<Rightarrow> (nat \<Rightarrow> guard) \<Rightarrow> bool" where
  acquires: "acquire_one (gs p) name mode (Waited Acquired) = (g, Inr ()) \<Longrightarrow> grantable gs p name mode \<Longrightarrow>
     guard_step gs (gs(p := g))"
| gives_up: "acquire_one (gs p) name mode outcome = (g, Inl e) \<Longrightarrow> guard_step gs (gs(p := g))"
| releases: "release (gs p) name = (g, r) \<Longrightarrow> guard_step gs (gs(p := g))"
| releases_all: "guard_step gs (gs(p := release_all (gs p)))"
| closes: "guard_step gs (gs(p := close (gs p)))"
| crashes: "guard_step gs (gs(p := new_guard))"

inductive reachable_guards :: "(nat \<Rightarrow> guard) \<Rightarrow> bool" where
  start: "reachable_guards (\<lambda>_. new_guard)"
| step: "reachable_guards gs \<Longrightarrow> guard_step gs gs' \<Longrightarrow> reachable_guards gs'"

inductive_cases guard_stepE: "guard_step gs gs'"

section \<open>What one engine holds\<close>

text \<open>The guards a process holds are some of the two, in acquisition order.\<close>

definition guard_ok :: "guard \<Rightarrow> bool" where
  "guard_ok g =
     (held_names g = [] \<or> held_names g = [''admission.lock''] \<or> held_names g = [''data.lock'']
      \<or> held_names g = [''admission.lock'', ''data.lock''])"

lemma position_values: "position ''admission.lock'' = 0" "position ''data.lock'' = 1"
  by (simp_all add: position_def ACQUISITION_ORDER_def LOCK_FILE_NAMES_def)

lemma may_acquire_Inr:
  assumes "guard_ok g"
  shows "may_acquire g name mode = Inr u \<longleftrightarrow>
     \<not> closed g \<and> (held_names g = [] \<and> name \<in> set LOCK_FILE_NAMES
        \<or> held_names g = [''admission.lock''] \<and> name = ''data.lock'')"
proof -
  have get: "dict_get (held g) name = None \<longleftrightarrow> name \<notin> set (held_names g)"
    by (auto simp: held_names_def map_of_eq_None_iff)
  from assms consider "held_names g = []" | "held_names g = [''admission.lock'']"
    | "held_names g = [''data.lock'']" | "held_names g = [''admission.lock'', ''data.lock'']"
    by (auto simp: guard_ok_def)
  then show ?thesis
    using get by cases
      (auto simp: may_acquire_def LOCK_FILE_NAMES_def position_values split: option.splits)
qed

lemma acquire_one_held:
  assumes "guard_ok g" and "acquire_one g name mode outcome = (g', Inr u)"
  shows "guard_ok g' \<and> held g' = held g @ [(name, mode)]"
proof -
  have may: "may_acquire g name mode = Inr ()" and g': "g' = g\<lparr>held := dict_set name mode (held g)\<rparr>"
    using assms(2) by (auto simp: acquire_one_def split: sum.splits attempt.splits wait_result.splits)
  then have names: "held_names g = [] \<and> name \<in> set LOCK_FILE_NAMES
      \<or> held_names g = [''admission.lock''] \<and> name = ''data.lock''"
    using may_acquire_Inr [OF assms(1)] by blast
  then have "name \<notin> fst ` set (held g)" by (auto simp: held_names_def)
  then have "held g' = held g @ [(name, mode)]" by (simp add: g' dict_set_length_new)
  moreover from this names have "guard_ok g'"
    by (auto simp: guard_ok_def held_names_def LOCK_FILE_NAMES_def)
  ultimately show ?thesis by blast
qed

lemma acquire_one_fails: "acquire_one g name mode outcome = (g', Inl e) \<Longrightarrow> g' = g"
  by (auto simp: acquire_one_def split: sum.splits attempt.splits wait_result.splits)

lemma release_held: "fst (release g name) = g\<lparr>held := AList.delete name (held g)\<rparr>"
  by (auto simp: release_def map_of_eq_None_iff AList.delete_id split: option.split)

lemma release_held_filter: "held (fst (release g name)) = filter (\<lambda>p. fst p \<noteq> name) (held g)"
  by (simp add: release_held AList.delete_eq split_beta) (rule filter_cong, auto)

lemma release_closed: "closed (fst (release g name)) = closed g"
  by (simp add: release_held)

lemma held_names_filter: "held_names (fst (release g name)) = filter (\<lambda>n. n \<noteq> name) (held_names g)"
  by (simp add: held_names_def release_held_filter filter_map comp_def)

lemma release_ok: "guard_ok g \<Longrightarrow> guard_ok (fst (release g name))"
  unfolding guard_ok_def held_names_filter by (elim disjE) simp_all

lemma fold_release_held:
  "held (fold (\<lambda>name g. fst (release g name)) ns g) = filter (\<lambda>p. fst p \<notin> set ns) (held g)"
proof (induction ns arbitrary: g)
  case (Cons n ns)
  show ?case by (simp only: fold_Cons comp_apply Cons release_held_filter filter_filter list.set)
      (rule filter_cong, auto)
qed simp

lemma release_all_held: "held (release_all g) = []"
proof -
  have "set (held_names g) \<subseteq> set (release_order g)"
    by (auto simp: release_order_def Let_def)
  then show ?thesis
    by (auto simp: release_all_def fold_release_held held_names_def filter_empty_conv)
qed

lemma guard_ok_empty: "held g = [] \<Longrightarrow> guard_ok g"
  by (simp add: guard_ok_def held_names_def)

section \<open>The reachable workspaces\<close>

definition workspace_ok :: "(nat \<Rightarrow> guard) \<Rightarrow> bool" where
  "workspace_ok gs =
     ((\<forall>p. guard_ok (gs p))
      \<and> (\<forall>p q name m n. p \<noteq> q \<longrightarrow> dict_get (held (gs p)) name = Some m
            \<longrightarrow> dict_get (held (gs q)) name = Some n \<longrightarrow> compatible m n))"

lemma workspace_ok_compatible:
  "workspace_ok gs \<Longrightarrow> p \<noteq> q \<Longrightarrow> dict_get (held (gs p)) name = Some m
     \<Longrightarrow> dict_get (held (gs q)) name = Some n \<Longrightarrow> compatible m n"
  unfolding workspace_ok_def by blast

lemma workspace_ok_guard: "workspace_ok gs \<Longrightarrow> guard_ok (gs p)"
  by (simp add: workspace_ok_def)

lemma compatible_sym: "compatible m n \<Longrightarrow> compatible n m"
  by (simp add: compatible_def)

text \<open>A process that comes to hold less keeps the workspace well.\<close>

lemma workspace_ok_less:
  assumes "workspace_ok gs" and "guard_ok g"
    and "\<And>name m. dict_get (held g) name = Some m \<Longrightarrow> dict_get (held (gs p)) name = Some m"
  shows "workspace_ok (gs(p := g))"
proof -
  have "compatible m n"
    if "x \<noteq> y" "dict_get (held ((gs(p := g)) x)) nm = Some m" "dict_get (held ((gs(p := g)) y)) nm = Some n"
    for x y nm m n
  proof -
    have "dict_get (held (gs x)) nm = Some m" using that(2) assms(3) by (cases "x = p") auto
    moreover have "dict_get (held (gs y)) nm = Some n" using that(3) assms(3) by (cases "y = p") auto
    ultimately show ?thesis by (rule workspace_ok_compatible [OF assms(1) that(1)])
  qed
  then show ?thesis using assms(1,2) unfolding workspace_ok_def by simp
qed

lemma workspace_ok_acquire:
  assumes "workspace_ok gs" and "acquire_one (gs p) name mode outcome = (g, Inr u)"
    and "grantable gs p name mode"
  shows "workspace_ok (gs(p := g))"
proof -
  have g: "guard_ok g" "held g = held (gs p) @ [(name, mode)]"
    using acquire_one_held [OF _ assms(2)] assms(1) by (simp_all add: workspace_ok_def)
  have get: "dict_get (held g) x = Some m \<Longrightarrow> dict_get (held (gs p)) x = Some m \<or> x = name \<and> m = mode" for x m
    by (auto simp: g(2) map_add_def split: option.splits if_splits)
  have new: "compatible m n"
    if "q \<noteq> p" "dict_get (held g) x = Some m" "dict_get (held (gs q)) x = Some n" for q x m n
    using get [OF that(2)]
  proof
    assume "dict_get (held (gs p)) x = Some m"
    from workspace_ok_compatible [OF assms(1) _ this that(3)] that(1) show ?thesis by blast
  next
    assume "x = name \<and> m = mode"
    with that(1,3) assms(3) show ?thesis by (auto simp: grantable_def)
  qed
  have "compatible m n"
    if neq: "x \<noteq> y" and that: "dict_get (held ((gs(p := g)) x)) nm = Some m" "dict_get (held ((gs(p := g)) y)) nm = Some n"
    for x y nm m n
  proof -
    consider "x = p" "y \<noteq> p" | "y = p" "x \<noteq> p" | "x \<noteq> p" "y \<noteq> p" using neq by blast
    then show ?thesis
    proof cases
      case 1
      with that show ?thesis by (intro new [of y nm]) simp_all
    next
      case 2
      with that show ?thesis by (intro compatible_sym [OF new [of x nm]]) simp_all
    next
      case 3
      with that have "dict_get (held (gs x)) nm = Some m" "dict_get (held (gs y)) nm = Some n" by simp_all
      from workspace_ok_compatible [OF assms(1) neq this] show ?thesis .
    qed
  qed
  then show ?thesis using assms(1) g(1) unfolding workspace_ok_def by simp
qed

lemma guard_step_ok: "guard_step gs gs' \<Longrightarrow> workspace_ok gs \<Longrightarrow> workspace_ok gs'"
proof (erule guard_stepE, goal_cases)
  case (1 p name mode g)
  show ?case unfolding 1(2) by (rule workspace_ok_acquire [OF 1(1,3,4)])
next
  case (2 p name mode outcome g e)
  then have "g = gs p" by (auto dest: acquire_one_fails)
  with 2 show ?case by simp
next
  case (3 p name g r)
  then have g: "g = fst (release (gs p) name)" by simp
  show ?case unfolding 3(2) g
  proof (rule workspace_ok_less [OF 3(1)])
    show "guard_ok (fst (release (gs p) name))"
      using 3(1) by (intro release_ok) (simp add: workspace_ok_def)
  qed (simp add: release_held AList.delete_conv' split: if_splits)
next
  case (4 p)
  have "held (release_all (gs p)) = []" by (rule release_all_held)
  with 4 show ?case by (auto intro: workspace_ok_less guard_ok_empty)
next
  case (5 p)
  have "held (close (gs p)) = []"
    by (simp add: close_def release_all_held)
  with 5 show ?case by (auto intro: workspace_ok_less guard_ok_empty)
next
  case (6 p)
  have "held new_guard = []" by (simp add: new_guard_def)
  with 6 show ?case by (auto intro: workspace_ok_less guard_ok_empty)
qed

lemma reachable_workspace_ok: "reachable_guards gs \<Longrightarrow> workspace_ok gs"
proof (induction rule: reachable_guards.induct)
  case start
  show ?case by (simp add: workspace_ok_def new_guard_def guard_ok_def held_names_def)
next
  case (step gs gs')
  then show ?case by (auto intro: guard_step_ok)
qed

section \<open>Readers and writers\<close>

lemma guard_ok_sorted: "guard_ok g \<Longrightarrow> sorted_wrt (\<lambda>a b. position a < position b) (held_names g)"
  by (auto simp: guard_ok_def position_values)

text \<open>
  C9. In every workspace the processes can reach, a process that holds a guard exclusively is its only
  holder, and what a process holds it holds in acquisition order.
\<close>

theorem guards_exclude:
  assumes "reachable_guards gs"
  shows "(dict_get (held (gs p)) name = Some Exclusive \<longrightarrow> (\<forall>q. q \<noteq> p \<longrightarrow> dict_get (held (gs q)) name = None))
     \<and> sorted_wrt (\<lambda>a b. position a < position b) (held_names (gs p))
     \<and> set (held_names (gs p)) \<subseteq> set LOCK_FILE_NAMES"
proof -
  have ok: "workspace_ok gs" by (rule reachable_workspace_ok [OF assms])
  have "dict_get (held (gs q)) name = None" if "dict_get (held (gs p)) name = Some Exclusive" "q \<noteq> p" for q
    using workspace_ok_compatible [OF ok that(2) _ that(1)]
    by (cases "dict_get (held (gs q)) name") (auto simp: compatible_def)
  moreover have "set (held_names (gs p)) \<subseteq> set LOCK_FILE_NAMES"
    using workspace_ok_guard [OF ok, of p] by (auto simp: guard_ok_def LOCK_FILE_NAMES_def)
  ultimately show ?thesis using guard_ok_sorted [OF workspace_ok_guard [OF ok]] by blast
qed

text \<open>A publisher that holds both guards, reached in two steps.\<close>

definition ex_publisher :: guard where
  "ex_publisher = \<lparr>held = PUBLISHER_SPECS, closed = False\<rparr>"

definition ex_admitted :: guard where
  "ex_admitted = \<lparr>held = [(''admission.lock'', Exclusive)], closed = False\<rparr>"

lemma ex_publisher_steps:
  "acquire_one new_guard ''admission.lock'' Exclusive (Waited Acquired) = (ex_admitted, Inr ())"
  "acquire_one ex_admitted ''data.lock'' Exclusive (Waited Acquired) = (ex_publisher, Inr ())"
  by code_simp+

lemma ex_publisher_reachable: "reachable_guards ((\<lambda>_. new_guard)(0 :: nat := ex_publisher))"
proof -
  have free: "grantable ((\<lambda>_. new_guard)(0 :: nat := g)) 0 name mode" for g name mode
    by (simp add: grantable_def new_guard_def)
  have "guard_step (\<lambda>_. new_guard) ((\<lambda>_. new_guard)(0 :: nat := ex_admitted))"
    by (rule guard_step.acquires [where gs = "\<lambda>_. new_guard" and p = 0, OF ex_publisher_steps(1)])
      (simp add: grantable_def new_guard_def)
  moreover have "acquire_one (((\<lambda>_. new_guard)(0 :: nat := ex_admitted)) 0) ''data.lock'' Exclusive (Waited Acquired)
      = (ex_publisher, Inr ())"
    unfolding fun_upd_same by (rule ex_publisher_steps(2))
  then have "guard_step ((\<lambda>_. new_guard)(0 := ex_admitted)) (((\<lambda>_. new_guard)(0 := ex_admitted))(0 := ex_publisher))"
    by (rule guard_step.acquires [where gs = "(\<lambda>_. new_guard)(0 := ex_admitted)" and p = 0, OF _ free])
  ultimately have "reachable_guards (((\<lambda>_. new_guard)(0 :: nat := ex_admitted))(0 :: nat := ex_publisher))"
    using reachable_guards.step [OF reachable_guards.step [OF reachable_guards.start]] by blast
  then show ?thesis unfolding fun_upd_upd .
qed

theorem guards_exclude_witness:
  "dict_get (held (((\<lambda>_. new_guard)(0 :: nat := ex_publisher)) 1)) ''data.lock'' = None"
proof -
  have "dict_get (held (((\<lambda>_. new_guard)(0 :: nat := ex_publisher)) 0)) ''data.lock'' = Some Exclusive"
    by (simp add: ex_publisher_def PUBLISHER_SPECS_def)
  with conjunct1 [OF guards_exclude [OF ex_publisher_reachable, of 0 "''data.lock''"]]
  have "\<forall>q. q \<noteq> 0 \<longrightarrow> dict_get (held (((\<lambda>_. new_guard)(0 :: nat := ex_publisher)) q)) ''data.lock'' = None" by (rule mp)
  then show ?thesis by (rule allE [where x = 1]) simp
qed

section \<open>No deadlock\<close>

text \<open>Process \<open>p\<close> waits for \<open>q\<close>: \<open>q\<close> holds what \<open>p\<close> may wait for, in a mode that excludes it.\<close>

definition waits_for :: "(nat \<Rightarrow> guard) \<Rightarrow> (nat \<Rightarrow> (string \<times> lock_mode) option) \<Rightarrow> (nat \<times> nat) set" where
  "waits_for gs want =
     {(p, q). \<exists>name m n. want p = Some (name, m) \<and> may_acquire (gs p) name m = Inr ()
        \<and> dict_get (held (gs q)) name = Some n \<and> \<not> compatible m n}"

definition wait_rank :: "(nat \<Rightarrow> guard) \<Rightarrow> (nat \<Rightarrow> (string \<times> lock_mode) option) \<Rightarrow> nat \<Rightarrow> nat" where
  "wait_rank gs want p =
     (case want p of None \<Rightarrow> 2
      | Some (name, m) \<Rightarrow> if may_acquire (gs p) name m = Inr () then position name else 2)"

lemma waits_for_rank:
  assumes "\<And>p. guard_ok (gs p)" and "(p, q) \<in> waits_for gs want"
  shows "wait_rank gs want p < wait_rank gs want q"
proof -
  obtain name m n where w: "want p = Some (name, m)" "may_acquire (gs p) name m = Inr ()"
    "dict_get (held (gs q)) name = Some n"
    using assms(2) by (auto simp: waits_for_def)
  have name: "name \<in> set LOCK_FILE_NAMES"
    using w(2) may_acquire_Inr [OF assms(1)] by (auto simp: LOCK_FILE_NAMES_def)
  then have p: "wait_rank gs want p = position name" and "position name < 2"
    using w by (auto simp: wait_rank_def LOCK_FILE_NAMES_def position_values)
  have holds: "name \<in> set (held_names (gs q))"
    using w(3) by (auto simp: held_names_def dest!: map_of_SomeD intro: rev_image_eqI)
  have "position name < position name'" if "may_acquire (gs q) name' m' = Inr ()" for name' m'
    using that holds may_acquire_Inr [OF assms(1)] by (auto simp: position_values)
  then show ?thesis
    unfolding p using \<open>position name < 2\<close> by (auto simp: wait_rank_def split: option.split)
qed

text \<open>
  C27. Whatever the processes of a reachable workspace wait for, they do not wait for one another: the
  waits-for relation has no cycle, so admission before data rules out deadlock.
\<close>

theorem guards_no_deadlock:
  assumes "reachable_guards gs"
  shows "acyclic (waits_for gs want)"
proof -
  have ok: "guard_ok (gs p)" for p by (rule workspace_ok_guard [OF reachable_workspace_ok [OF assms]])
  have "waits_for gs want \<subseteq> measure (wait_rank gs want)"
    using waits_for_rank [where gs = gs, OF ok] by auto
  then show ?thesis by (rule acyclic_subset [OF wf_acyclic [OF wf_measure]])
qed

theorem guards_no_deadlock_witness:
  "acyclic (waits_for ((\<lambda>_. new_guard)(0 :: nat := ex_publisher)) (\<lambda>p. if p = 0 then None else Some (''admission.lock'', Shared)))
   \<and> (1, 0) \<in> waits_for ((\<lambda>_. new_guard)(0 :: nat := ex_publisher)) (\<lambda>p. if p = 0 then None else Some (''admission.lock'', Shared))"
proof -
  have "may_acquire new_guard ''admission.lock'' Shared = Inr ()" by code_simp
  then have "(1, 0) \<in> waits_for ((\<lambda>_. new_guard)(0 :: nat := ex_publisher)) (\<lambda>p. if p = 0 then None else Some (''admission.lock'', Shared))"
    by (simp add: waits_for_def ex_publisher_def PUBLISHER_SPECS_def compatible_def)
  with guards_no_deadlock [OF ex_publisher_reachable] show ?thesis by blast
qed

section \<open>The bounded wait returns\<close>

text \<open>How a wait ends in turn \<open>k\<close>: every earlier turn found the lock busy and no cancellation.\<close>

definition ends_in_turn :: "wait_env \<Rightarrow> nat \<Rightarrow> nat \<Rightarrow> wait_result \<Rightarrow> bool" where
  "ends_in_turn env i k r =
     ((\<forall>j. i \<le> j \<and> j < k \<longrightarrow> busy env j \<and> \<not> cancelled env j)
      \<and> (case r of Acquired \<Rightarrow> \<not> cancelled env k \<and> \<not> busy env k | WaitCancelled \<Rightarrow> cancelled env k
         | TimedOut \<Rightarrow> \<not> cancelled env k \<and> busy env k))"

lemma ends_in_turn_Suc:
  "ends_in_turn env (Suc i) k r \<Longrightarrow> busy env i \<Longrightarrow> \<not> cancelled env i \<Longrightarrow> ends_in_turn env i k r"
  unfolding ends_in_turn_def by (metis Suc_leI le_neq_implies_less)

lemma wait_loop_ends:
  assumes "\<And>i. 0 \<le> lag env i" "\<And>i. lag env i \<le> slow" "\<And>i. 0 \<le> oversleep env i" "\<And>i. oversleep env i \<le> late"
    "25 \<le> delay" "t \<le> deadline + late" "deadline - t \<le> 25 * of_nat n" "n < fuel"
  shows "\<exists>r t' k. wait_loop fuel env i t deadline delay = Some (r, t') \<and> i \<le> k \<and> k < i + fuel \<and> ends_in_turn env i k r
     \<and> t \<le> t' \<and> (r = TimedOut \<longrightarrow> deadline \<le> t' \<and> t' \<le> deadline + late + slow)
     \<and> (r \<noteq> TimedOut \<longrightarrow> t' \<le> deadline + late)"
  using assms(5-)
proof (induction fuel arbitrary: n i t delay)
  case (Suc fuel)
  define now where "now = t + lag env i"
  define left where "left = deadline - now"
  have now: "t \<le> now" "now \<le> t + slow" using assms(1,2) by (simp_all add: now_def)
  consider (stopped) r t' where "wait_loop (Suc fuel) env i t deadline delay = Some (r, t')" "ends_in_turn env i i r"
      "t \<le> t'" "r = TimedOut \<longrightarrow> deadline \<le> t' \<and> t' \<le> t + slow" "r \<noteq> TimedOut \<longrightarrow> t' = t"
    | (slept) "\<not> cancelled env i" "busy env i" "0 < left"
  proof -
    consider "cancelled env i" | "\<not> cancelled env i" "\<not> busy env i" | "\<not> cancelled env i" "busy env i" "left \<le> 0"
      | "\<not> cancelled env i" "busy env i" "0 < left" by fastforce
    then show thesis
    proof cases
      case 1
      then show thesis by (intro stopped [of WaitCancelled t]) (auto simp: ends_in_turn_def)
    next
      case 2
      then show thesis by (intro stopped [of Acquired t]) (auto simp: ends_in_turn_def)
    next
      case 3
      with now show thesis
        by (intro stopped [of TimedOut now]) (auto simp: ends_in_turn_def left_def now_def Let_def)
    qed (rule slept)
  qed
  then show ?case
  proof cases
    case stopped
    with Suc.prems(2) show ?thesis by (intro exI [of _ r] exI [of _ t'] exI [of _ i]) auto
  next
    case slept
    define t1 where "t1 = now + min delay left + oversleep env i"
    have t1: "t1 \<le> deadline + late" "t \<le> t1"
      using slept now Suc.prems(1) assms(3) [of i] assms(4) [of i] by (simp_all add: t1_def left_def min_def)
    obtain m where m: "deadline - t1 \<le> 25 * of_nat m" "m < fuel"
    proof (cases n)
      case 0
      with Suc.prems(3) slept(3) now show ?thesis by (simp add: left_def)
    next
      case (Suc k)
      have "deadline - t1 \<le> 25 * of_nat k"
        using Suc.prems(1,3) Suc now assms(3) [of i] by (auto simp: t1_def left_def min_def)
      with that [of k] Suc.prems(4) Suc show ?thesis by simp
    qed
    have step: "wait_loop (Suc fuel) env i t deadline delay
        = wait_loop fuel env (i + 1) t1 deadline (min (delay * 2) (of_int RETRY_MAX_MS))"
      using slept by (simp add: t1_def left_def now_def Let_def)
    have "25 \<le> min (delay * 2) (of_int RETRY_MAX_MS)" using Suc.prems(1) by (simp add: RETRY_MAX_MS_def min_def)
    from Suc.IH [OF this t1(1) m, of "i + 1"] obtain r t' k where
      r: "wait_loop fuel env (i + 1) t1 deadline (min (delay * 2) (of_int RETRY_MAX_MS)) = Some (r, t')"
      "i + 1 \<le> k" "k < i + 1 + fuel" "ends_in_turn env (i + 1) k r" "t1 \<le> t'"
      "r = TimedOut \<longrightarrow> deadline \<le> t' \<and> t' \<le> deadline + late + slow" "r \<noteq> TimedOut \<longrightarrow> t' \<le> deadline + late"
      by blast
    moreover have "ends_in_turn env i k r" using r(4) slept(1,2) by (simp add: ends_in_turn_Suc)
    ultimately show ?thesis unfolding step using t1(2)
      by (intro exI [of _ r] exI [of _ t'] exI [of _ k]) auto
  qed
qed simp

text \<open>
  C28. A wait with an accepted budget always ends, within so many turns as its fuel allows, whatever the other
  processes and the clock do: in a turn in which the lock was free, or a cancellation was seen, or the lock was
  busy and the deadline had passed, every turn before having found it busy. It times out never before the
  deadline, and it is late only by what one sleep overslept and one turn took: after an overlong sleep it still
  tries once, and may acquire past the deadline.
\<close>

theorem bounded_wait_returns:
  assumes "resolve_timeout_ms v = Inr timeout" "\<forall>i. 0 \<le> lag env i \<and> lag env i \<le> slow"
    "\<forall>i. 0 \<le> oversleep env i \<and> oversleep env i \<le> late"
  shows "\<exists>r t k. bounded_wait env timeout started = Some (r, t) \<and> k < wait_fuel timeout \<and> ends_in_turn env 0 k r
     \<and> started \<le> t
     \<and> (r = TimedOut \<longrightarrow> started + of_int timeout \<le> t \<and> t \<le> started + of_int timeout + late + slow)
     \<and> (r \<noteq> TimedOut \<longrightarrow> t \<le> started + of_int timeout + late)"
proof -
  have pos: "0 < timeout"
    using assms(1) by (auto simp: resolve_timeout_ms_def DEFAULT_TIMEOUT_MS_def split: pyval.splits if_splits)
  define n where "n = nat (timeout div 25) + 1"
  have "timeout \<le> 25 * int n" using pos by (simp add: n_def) presburger
  then have "(of_int timeout :: rat) \<le> of_int (25 * int n)" by (simp only: of_int_le_iff)
  then have "started + of_int timeout - started \<le> 25 * (of_nat n :: rat)" by simp
  moreover have "n < wait_fuel timeout" by (simp add: n_def wait_fuel_def RETRY_INITIAL_MS_def)
  moreover have "0 \<le> late" using assms(3) order_trans by blast
  then have "started \<le> started + of_int timeout + late" using pos by simp
  ultimately show ?thesis
    using wait_loop_ends [of env slow late 25 started "started + of_int timeout" n "wait_fuel timeout" 0] assms(2,3)
    unfolding bounded_wait_def RETRY_INITIAL_MS_def by simp
qed

definition ex_wait :: wait_env where
  "ex_wait = \<lparr>cancelled = (\<lambda>_. False), busy = (\<lambda>i. i < 2), lag = (\<lambda>_. 1), oversleep = (\<lambda>_. 7)\<rparr>"

theorem bounded_wait_returns_witness:
  "\<exists>r t. bounded_wait ex_wait 5000 0 = Some (r, t) \<and> (r \<noteq> TimedOut \<longrightarrow> 0 \<le> t \<and> t \<le> 5007)"
  using bounded_wait_returns [of PNone 5000 ex_wait 1 7 0]
  by (simp add: resolve_timeout_ms_def DEFAULT_TIMEOUT_MS_def ex_wait_def) blast

text \<open>A wait of 25 milliseconds whose one sleep lasts a second acquires the lock long after its deadline.\<close>

theorem acquired_past_the_deadline:
  "bounded_wait \<lparr>cancelled = (\<lambda>_. False), busy = (\<lambda>i. i = 0), lag = (\<lambda>_. 0), oversleep = (\<lambda>_. 1000)\<rparr> 25 0 = Some (Acquired, 1025)"
  by code_simp

section \<open>Entering in order\<close>

lemma attempt_once_reader:
  assumes "held g = []" "attempt_once g READER_SPECS [''admission.lock''] outcome = (g', Inr u)"
  shows "held g' = [(''data.lock'', Shared)]"
  using assms
  by (auto simp: attempt_once_def READER_SPECS_def acquire_one_def may_acquire_def release_def position_values
      held_names_def split: sum.splits attempt.splits wait_result.splits if_splits prod.splits option.splits)

lemma attempt_once_publisher:
  assumes "held g = []" "attempt_once g PUBLISHER_SPECS [] outcome = (g', Inr u)"
  shows "held g' = PUBLISHER_SPECS"
  using assms
  by (auto simp: attempt_once_def PUBLISHER_SPECS_def acquire_one_def may_acquire_def position_values
      held_names_def split: sum.splits attempt.splits wait_result.splits if_splits prod.splits option.splits)

lemma ordered_loop_held:
  assumes once: "\<And>g g' outcome. held g = [] \<Longrightarrow> attempt_once g specs early outcome = (g', Inr ()) \<Longrightarrow> held g' = goal"
    and "held g = []" "ordered_loop n i g specs early outcome failure = (g', r)"
  shows "(r = Inr () \<longrightarrow> held g' = goal) \<and> (r = Inl GuardTimeout \<or> r = Inl GuardCancelled \<longrightarrow> held g' = [])"
  using assms(2,3)
proof (induction n arbitrary: i g failure)
  case (Suc n)
  obtain g1 r1 where r1: "attempt_once g specs early (outcome i) = (g1, r1)" by fastforce
  show ?case
  proof (cases r1)
    case (Inl e)
    with r1 Suc.prems Suc.IH [OF release_all_held, of "i + 1" g1 e] show ?thesis
      by (cases e) auto
  next
    case (Inr u)
    with r1 Suc.prems once [OF Suc.prems(1)] show ?thesis by auto
  qed
qed auto

lemma ordered_enter_held:
  assumes "\<And>g g' outcome. held g = [] \<Longrightarrow> attempt_once g specs early outcome = (g', Inr ()) \<Longrightarrow> held g' = goal"
    and "held g = []" "ordered_enter g specs early attempts outcome = (g', r)"
  shows "(r = Inr () \<longrightarrow> held g' = goal) \<and> (r = Inl GuardTimeout \<or> r = Inl GuardCancelled \<longrightarrow> held g' = [])"
proof -
  from assms(3) consider "r = Inl (GuardError ''invalid_attempts'')"
    | n failure where "ordered_loop n 0 g specs early outcome failure = (g', r)"
    unfolding ordered_enter_def by (auto split: pyval.splits if_splits)
  then show ?thesis
  proof cases
    case 2
    show ?thesis by (rule ordered_loop_held [OF assms(1,2) 2])
  qed simp
qed

lemma reader_enter_held:
  assumes "held g = []" "reader_enter g attempts outcome = (g', r)"
  shows "(r = Inr () \<longrightarrow> held g' = [(''data.lock'', Shared)])
    \<and> (r = Inl GuardTimeout \<or> r = Inl GuardCancelled \<longrightarrow> held g' = [])"
  by (rule ordered_enter_held [OF _ assms(1) assms(2) [unfolded reader_enter_def]]) (rule attempt_once_reader)

lemma publisher_enter_held:
  assumes "held g = []" "publisher_enter g attempts outcome = (g', r)"
  shows "(r = Inr () \<longrightarrow> held g' = PUBLISHER_SPECS)
    \<and> (r = Inl GuardTimeout \<or> r = Inl GuardCancelled \<longrightarrow> held g' = [])"
  by (rule ordered_enter_held [OF _ assms(1) assms(2) [unfolded publisher_enter_def]]) (rule attempt_once_publisher)

text \<open>
  A reader that gets in holds exactly the data guard, shared: admission is already free for a
  publisher. A publisher that gets in holds both, exclusively. A wait that timed out or was cancelled
  leaves nothing held, whatever attempt it was.
\<close>

theorem entry_all_or_nothing:
  assumes "held g = []"
  shows "(reader_enter g attempts outcome = (g', Inr ()) \<longrightarrow> held g' = [(''data.lock'', Shared)])
    \<and> (publisher_enter g attempts outcome = (g', Inr ())
        \<longrightarrow> held g' = [(''admission.lock'', Exclusive), (''data.lock'', Exclusive)])
    \<and> (e \<in> {GuardTimeout, GuardCancelled} \<longrightarrow>
        reader_enter g attempts outcome = (g', Inl e) \<or> publisher_enter g attempts outcome = (g', Inl e) \<longrightarrow> held g' = [])"
  using reader_enter_held [OF assms] publisher_enter_held [OF assms]
  unfolding PUBLISHER_SPECS_def by blast

theorem entry_all_or_nothing_witness:
  "\<exists>g'. reader_enter new_guard (PInt 2) (\<lambda>i name. if i = 0 \<and> name = ''data.lock'' then Waited TimedOut else Waited Acquired)
     = (g', Inr ()) \<and> held g' = [(''data.lock'', Shared)]"
proof -
  have "snd (reader_enter new_guard (PInt 2)
      (\<lambda>i name. if i = 0 \<and> name = ''data.lock'' then Waited TimedOut else Waited Acquired)) = Inr ()"
    by code_simp
  then obtain g' where "reader_enter new_guard (PInt 2)
      (\<lambda>i name. if i = 0 \<and> name = ''data.lock'' then Waited TimedOut else Waited Acquired) = (g', Inr ())"
    by (metis prod.collapse)
  moreover from this entry_all_or_nothing [of new_guard] have "held g' = [(''data.lock'', Shared)]"
    by (simp add: new_guard_def)
  ultimately show ?thesis by blast
qed

text \<open>
  The error module's promise that every guard already taken is released before any guard error is
  raised does not hold of an identity mismatch: when data cannot be verified, admission stays held,
  and the next entry of the same guard is refused as recursive.
\<close>

theorem entry_keeps_admission:
  "\<exists>g'. reader_enter new_guard (PInt 1)
       (\<lambda>_ name. if name = ''data.lock'' then Unverified (GuardError ''identity_mismatch'') else Waited Acquired)
     = (g', Inl (GuardError ''identity_mismatch'')) \<and> held g' = [(''admission.lock'', Shared)]
     \<and> reader_enter g' (PInt 1) (\<lambda>_ _. Waited Acquired) = (g', Inl (GuardError ''recursive_acquire''))"
proof -
  define g' where "g' = \<lparr>held = [(''admission.lock'', Shared)], closed = False\<rparr>"
  have "reader_enter new_guard (PInt 1)
       (\<lambda>_ name. if name = ''data.lock'' then Unverified (GuardError ''identity_mismatch'') else Waited Acquired)
     = (g', Inl (GuardError ''identity_mismatch''))"
    "reader_enter g' (PInt 1) (\<lambda>_ _. Waited Acquired) = (g', Inl (GuardError ''recursive_acquire''))"
    unfolding g'_def by code_simp+
  then show ?thesis by (intro exI [of _ g']) (simp add: g'_def)
qed

end
