(* ===== verification/Shards.thy ===== *)
theory Shards
  imports Manifest Retention Registry Guard
begin

text \<open>
  \<open>shards.py\<close>: copying the shards of a generation into memory under hard caps, and verifying and
  parsing the copies. The errors of a read are collected in \<open>read_failure\<close>, one case per module that
  raises them; \<open>FileNotFound\<close> is a \<open>FileNotFoundError\<close>, which a tool catches though no read of this
  module raises it, and \<open>OsFailed\<close> another \<open>OSError\<close> the code does not catch. \<open>read\<close> is the bounded byte source,
  an argument as in the code; \<open>read_bounded\<close> is the default one.
\<close>

datatype shard_error = ShardError | ShardPathRejected | ShardTooLarge | ShardSizeMismatch | ShardUnreadable

datatype session_error = ReadSessionError | BoundedCopyExceeded | GuardStillHeld

datatype read_failure =
    ShardFailed shard_error
  | RegistryFailed registry_error
  | ManifestFailed manifest_error
  | GuardFailed guard_error
  | SessionFailed session_error
  | FileNotFound
  | OsFailed

text \<open>The errors of another module, passed through.\<close>

definition raising :: "('a \<Rightarrow> 'e) \<Rightarrow> 'a + 'b \<Rightarrow> 'e + 'b" where
  "raising f r = (case r of Inl e \<Rightarrow> Inl (f e) | Inr x \<Rightarrow> Inr x)"

lemma raising_Inr [simp]: "raising f r = Inr x \<longleftrightarrow> r = Inr x"
  by (cases r) (simp_all add: raising_def)

definition ROLE_DIRECTORIES :: "(string, string) dict" where
  "ROLE_DIRECTORIES = [(''nodes'', ''nodes/''), (''edges'', ''edges/''), (''symbol_index'', ''indexes/symbols/''),
     (''outgoing_index'', ''indexes/outgoing/''), (''incoming_index'', ''indexes/incoming/''),
     (''architecture_summary'', ''architecture/'')]"

definition COVERAGE_ROLE :: string where "COVERAGE_ROLE = ''coverage''"
definition COVERAGE_PATH :: string where "COVERAGE_PATH = ''coverage.json''"

record shard_limits =
  lim_max_shard_bytes :: int
  lim_max_shards :: int
  lim_max_total_bytes :: int

definition positive :: "pyval \<Rightarrow> shard_error + int" where
  "positive v = (case v of PInt i \<Rightarrow> if i < 1 then Inl ShardError else Inr i | _ \<Rightarrow> Inl ShardError)"

definition make_shard_limits :: "pyval \<Rightarrow> pyval \<Rightarrow> pyval \<Rightarrow> shard_error + shard_limits" where
  "make_shard_limits max_shard_bytes max_shards max_total_bytes =
     bind_result (positive max_shard_bytes) (\<lambda>shard_bytes.
     bind_result (positive max_shards) (\<lambda>shards.
     bind_result (positive max_total_bytes) (\<lambda>total.
       if shard_bytes > MAX_SHARD_BYTES then Inl ShardError
       else if total < shard_bytes then Inl ShardError
       else Inr \<lparr>lim_max_shard_bytes = shard_bytes, lim_max_shards = shards, lim_max_total_bytes = total\<rparr>)))"

definition default_shard_limits :: shard_limits where
  "default_shard_limits = \<lparr>lim_max_shard_bytes = MAX_SHARD_BYTES, lim_max_shards = 512,
     lim_max_total_bytes = 64 * 1024 * 1024\<rparr>"

record copied_shard =
  cs_path :: string
  cs_role :: string
  cs_sha256 :: string
  cs_bytes :: int
  cs_records :: int
  cs_raw :: string

section \<open>Before a file is opened\<close>

definition role_permitted_path :: "string \<Rightarrow> string \<Rightarrow> bool" where
  "role_permitted_path role path =
     (if role = COVERAGE_ROLE then path = COVERAGE_PATH
      else (case dict_get ROLE_DIRECTORIES role of
          None \<Rightarrow> False
        | Some directory \<Rightarrow>
            starts_with directory path
            \<and> (let remainder = drop (length directory) path in
               ends_with ''.json'' remainder \<and> CHR ''/'' \<notin> set remainder \<and> remainder \<noteq> ''.json'')))"

definition require_role_path :: "manifest_entry \<Rightarrow> read_failure + unit" where
  "require_role_path e =
     (if me_role e \<notin> set FILE_ROLES then Inl (ShardFailed ShardPathRejected)
      else if \<not> role_permitted_path (me_role e) (me_path e) then Inl (ShardFailed ShardPathRejected)
      else Inr ())"

definition require_declared_cap :: "manifest_entry \<Rightarrow> shard_limits \<Rightarrow> read_failure + unit" where
  "require_declared_cap e limits =
     guard_result (\<not> me_bytes e > lim_max_shard_bytes limits) (ShardFailed ShardTooLarge)"

definition read_bounded :: "host \<Rightarrow> npath \<Rightarrow> int \<Rightarrow> read_failure + string" where
  "read_bounded h path limit =
     (if limit < 0 then Inl (ShardFailed ShardError)
      else (case h_read h path of
          None \<Rightarrow> Inl (ShardFailed ShardUnreadable)
        | Some data \<Rightarrow> Inr (take (nat (limit + 1)) data)))"

definition shard_path ::
    "(string \<Rightarrow> string) \<Rightarrow> host \<Rightarrow> snapshot_location \<Rightarrow> manifest \<Rightarrow> manifest_entry \<Rightarrow> read_failure + npath" where
  "shard_path cf h location m e =
     bind_result (require_role_path e) (\<lambda>_.
     bind_result (raising RegistryFailed (generation_root (sl_root location) (manifest_generation_id m)))
       (\<lambda>generation_dir.
     (let relative = GENERATIONS_DIRNAME @ ''/'' @ manifest_generation_id m @ ''/'' @ me_path e in
      bind_result (raising (\<lambda>_. ShardFailed ShardPathRejected) (portable_relative (PStr relative))) (\<lambda>_.
      (let candidate = fold (\<lambda>part p. joinpath p part) (pure_parts (me_path e)) generation_dir in
       case h_lstat h candidate of
         None \<Rightarrow> Inl (ShardFailed ShardUnreadable)
       | Some kind \<Rightarrow>
           if kind = Symlink then Inl (ShardFailed ShardPathRejected)
           else if kind \<noteq> Regular then Inl (ShardFailed ShardPathRejected)
           else
             bind_result (raising (\<lambda>_. ShardFailed ShardPathRejected)
                 (location_resolve cf h (sl_root location) relative)) (\<lambda>resolved.
             case h_resolve h generation_dir of
               None \<Rightarrow> Inl OsFailed
             | Some real_root \<Rightarrow>
                 if \<not> in_parents real_root resolved then Inl (ShardFailed ShardPathRejected)
                 else Inr resolved))))))"

definition selected_entries :: "manifest \<Rightarrow> string list option \<Rightarrow> read_failure + manifest_entry list" where
  "selected_entries m wanted =
     bind_result
       (case wanted of
          None \<Rightarrow> Inr (m_files m)
        | Some rs \<Rightarrow>
            if list_ex (\<lambda>r. r \<notin> set FILE_ROLES) rs then Inl (ShardFailed ShardError)
            else Inr (filter (\<lambda>e. me_role e \<in> set rs) (m_files m)))
       (\<lambda>entries. if entries = [] then Inl (ShardFailed ShardError) else Inr (sort_key me_path entries))"

definition require_plan_cap :: "manifest_entry list \<Rightarrow> shard_limits \<Rightarrow> read_failure + unit" where
  "require_plan_cap entries limits =
     (if int (length entries) > lim_max_shards limits then Inl (ShardFailed ShardTooLarge)
      else if (\<Sum>e\<leftarrow>entries. me_bytes e) > lim_max_total_bytes limits then Inl (ShardFailed ShardTooLarge)
      else Inr ())"

section \<open>Copying\<close>

text \<open>The limits in force: the given ones, or the defaults.\<close>

definition effective_limits :: "shard_limits option \<Rightarrow> shard_limits" where
  "effective_limits limits = (case limits of None \<Rightarrow> default_shard_limits | Some l \<Rightarrow> l)"

type_synonym byte_source = "npath \<Rightarrow> int \<Rightarrow> read_failure + string"

definition copy_shard ::
    "(string \<Rightarrow> string) \<Rightarrow> host \<Rightarrow> byte_source \<Rightarrow> snapshot_location \<Rightarrow> manifest \<Rightarrow> shard_limits option
       \<Rightarrow> manifest_entry \<Rightarrow> read_failure + copied_shard" where
  "copy_shard cf h read location m limits e =
     (let effective = effective_limits limits in
      bind_result (require_role_path e) (\<lambda>_.
      bind_result (require_declared_cap e effective) (\<lambda>_.
      bind_result (shard_path cf h location m e) (\<lambda>resolved.
      bind_result (read resolved (lim_max_shard_bytes effective)) (\<lambda>payload.
        if int (length payload) > lim_max_shard_bytes effective then Inl (ShardFailed ShardTooLarge)
        else if int (length payload) \<noteq> me_bytes e then Inl (ShardFailed ShardSizeMismatch)
        else Inr \<lparr>cs_path = me_path e, cs_role = me_role e, cs_sha256 = me_sha256 e, cs_bytes = me_bytes e,
                  cs_records = me_records e, cs_raw = payload\<rparr>)))))"

definition copy_shards ::
    "(string \<Rightarrow> string) \<Rightarrow> host \<Rightarrow> byte_source \<Rightarrow> snapshot_location \<Rightarrow> manifest \<Rightarrow> string list option
       \<Rightarrow> shard_limits option \<Rightarrow> read_failure + copied_shard list" where
  "copy_shards cf h read location m wanted limits =
     bind_result (selected_entries m wanted) (\<lambda>entries.
     bind_result (require_plan_cap entries (effective_limits limits)) (\<lambda>_.
       map_result (copy_shard cf h read location m limits) entries))"

section \<open>Verifying the copies\<close>

text \<open>A freshly parsed document: ordinary containers.\<close>

fun parsed :: "pyval \<Rightarrow> obj" where
  "parsed (PDict d) = DictObj False (map (\<lambda>p. (fst p, parsed (snd p))) d)"
| "parsed (PList xs) = ListObj False (map parsed xs)"
| "parsed v = Scalar v"

definition verify_one :: "(string \<Rightarrow> pyval option) \<Rightarrow> manifest \<Rightarrow> copied_shard \<Rightarrow> read_failure + shard" where
  "verify_one loads m c =
     bind_result (raising ManifestFailed (manifest_entry_of m (cs_path c))) (\<lambda>e.
     bind_result (raising ManifestFailed (verify_shard loads e (cs_raw c))) (\<lambda>document.
       Inr \<lparr>sh_path = cs_path c, sh_role = cs_role c, sh_sha256 = cs_sha256 c, sh_bytes = cs_bytes c,
            sh_records = cs_records c, sh_document = parsed document\<rparr>))"

definition verify_copied ::
    "(string \<Rightarrow> pyval option) \<Rightarrow> manifest \<Rightarrow> copied_shard list \<Rightarrow> read_failure + shard list" where
  "verify_copied loads m copied = map_result (verify_one loads m) copied"

definition load_shard ::
    "(string \<Rightarrow> string) \<Rightarrow> (string \<Rightarrow> pyval option) \<Rightarrow> host \<Rightarrow> byte_source \<Rightarrow> snapshot_location \<Rightarrow> manifest
       \<Rightarrow> shard_limits option \<Rightarrow> manifest_entry \<Rightarrow> read_failure + shard" where
  "load_shard cf loads h read location m limits e =
     bind_result (copy_shard cf h read location m limits e) (\<lambda>copied.
     bind_result (verify_copied loads m [copied]) (\<lambda>shards. Inr (hd shards)))"

definition load_shards ::
    "(string \<Rightarrow> string) \<Rightarrow> (string \<Rightarrow> pyval option) \<Rightarrow> host \<Rightarrow> byte_source \<Rightarrow> snapshot_location \<Rightarrow> manifest
       \<Rightarrow> string list option \<Rightarrow> shard_limits option \<Rightarrow> read_failure + shard list" where
  "load_shards cf loads h read location m wanted limits =
     bind_result (copy_shards cf h read location m wanted limits) (verify_copied loads m)"

section \<open>What a copy is\<close>

lemma shard_path_Inr:
  assumes "shard_path cf h location m e = Inr p"
  shows "me_role e \<in> set FILE_ROLES \<and> role_permitted_path (me_role e) (me_path e)
    \<and> (\<exists>generation_dir real_root. generation_root (sl_root location) (manifest_generation_id m) = Inr generation_dir
        \<and> h_lstat h (fold (\<lambda>part p. joinpath p part) (pure_parts (me_path e)) generation_dir) = Some Regular
        \<and> h_resolve h generation_dir = Some real_root \<and> in_parents real_root p)"
proof -
  have r: "me_role e \<in> set FILE_ROLES" "role_permitted_path (me_role e) (me_path e)"
    using assms by (auto simp: shard_path_def bind_result_eq_Inr require_role_path_def split: if_splits)
  obtain g where g: "generation_root (sl_root location) (manifest_generation_id m) = Inr g"
    using assms by (auto simp: shard_path_def bind_result_eq_Inr)
  let ?candidate = "fold (\<lambda>part p. joinpath p part) (pure_parts (me_path e)) g"
  obtain kind where k: "h_lstat h ?candidate = Some kind"
    using assms g by (cases "h_lstat h ?candidate") (auto simp: shard_path_def bind_result_eq_Inr Let_def)
  then have "kind = Regular"
    using assms g by (auto simp: shard_path_def bind_result_eq_Inr Let_def split: if_splits)
  moreover obtain real_root where "h_resolve h g = Some real_root" "in_parents real_root p"
    using assms g k \<open>kind = Regular\<close>
    by (cases "h_resolve h g") (auto simp: shard_path_def bind_result_eq_Inr Let_def split: if_splits)
  ultimately show ?thesis using r g k by blast
qed

text \<open>The file a copy is read from: a regular file at its declared place, reached through the registered location.\<close>

definition shard_file ::
    "(string \<Rightarrow> string) \<Rightarrow> host \<Rightarrow> snapshot_location \<Rightarrow> manifest \<Rightarrow> manifest_entry \<Rightarrow> npath \<Rightarrow> bool" where
  "shard_file cf h location m e p =
     (role_permitted_path (me_role e) (me_path e)
      \<and> (\<exists>generation_dir real_root.
           generation_root (sl_root location) (manifest_generation_id m) = Inr generation_dir
           \<and> h_lstat h (fold (\<lambda>part p. joinpath p part) (pure_parts (me_path e)) generation_dir) = Some Regular
           \<and> location_resolve cf h (sl_root location)
               (GENERATIONS_DIRNAME @ ''/'' @ manifest_generation_id m @ ''/'' @ me_path e) = Inr p
           \<and> h_resolve h generation_dir = Some real_root \<and> in_parents real_root p))"

lemma shard_path_file:
  assumes "shard_path cf h location m e = Inr p"
  shows "shard_file cf h location m e p"
proof -
  obtain generation_dir real_root where g: "role_permitted_path (me_role e) (me_path e)"
    "generation_root (sl_root location) (manifest_generation_id m) = Inr generation_dir"
    "h_lstat h (fold (\<lambda>part p. joinpath p part) (pure_parts (me_path e)) generation_dir) = Some Regular"
    "h_resolve h generation_dir = Some real_root" "in_parents real_root p"
    using shard_path_Inr [OF assms] by blast
  moreover from g(2-4) have "location_resolve cf h (sl_root location)
      (GENERATIONS_DIRNAME @ ''/'' @ manifest_generation_id m @ ''/'' @ me_path e) = Inr p"
    using assms by (auto simp: shard_path_def bind_result_eq_Inr Let_def split: if_splits)
  ultimately show ?thesis unfolding shard_file_def by blast
qed

lemma read_bounded_whole:
  assumes "read_bounded h p limit = Inr data" "int (length data) \<le> limit"
  shows "h_read h p = Some data"
  using assms by (auto simp: read_bounded_def min_def split: if_splits option.splits)

lemma read_bounded_length: "read_bounded h p limit = Inr data \<Longrightarrow> int (length data) \<le> limit + 1"
  by (auto simp: read_bounded_def min_def split: if_splits option.splits)

text \<open>The copy of an entry: its fields, and bytes of the declared length within the cap.\<close>

definition copy_of :: "shard_limits \<Rightarrow> manifest_entry \<Rightarrow> copied_shard \<Rightarrow> bool" where
  "copy_of limits e c =
     (cs_path c = me_path e \<and> cs_role c = me_role e \<and> cs_sha256 c = me_sha256 e \<and> cs_bytes c = me_bytes e
      \<and> cs_records c = me_records e \<and> int (length (cs_raw c)) = me_bytes e
      \<and> me_bytes e \<le> lim_max_shard_bytes limits)"

lemma copy_shard_Inr:
  assumes "copy_shard cf h read location m limits e = Inr c"
  shows "copy_of (effective_limits limits) e c
    \<and> (\<exists>p. shard_path cf h location m e = Inr p
          \<and> read p (lim_max_shard_bytes (effective_limits limits)) = Inr (cs_raw c))"
  using assms
  by (auto simp: copy_shard_def copy_of_def Let_def bind_result_eq_Inr require_declared_cap_def
      guard_result_eq_Inr split: if_splits)

lemma map_result_list_all2: "map_result f xs = Inr ys \<longleftrightarrow> list_all2 (\<lambda>x y. f x = Inr y) xs ys"
  by (induction xs arbitrary: ys) (auto simp: bind_result_eq_Inr list_all2_Cons1)

lemma list_all2_member_right: "list_all2 P xs ys \<Longrightarrow> y \<in> set ys \<Longrightarrow> \<exists>x \<in> set xs. P x y"
  by (induction rule: list_all2_induct) auto

lemma copy_shards_Inr:
  assumes "copy_shards cf h read location m wanted limits = Inr cs"
  shows "\<exists>entries. selected_entries m wanted = Inr entries
    \<and> int (length entries) \<le> lim_max_shards (effective_limits limits)
    \<and> (\<Sum>e\<leftarrow>entries. me_bytes e) \<le> lim_max_total_bytes (effective_limits limits)
    \<and> list_all2 (\<lambda>e c. copy_shard cf h read location m limits e = Inr c) entries cs"
  using assms
  by (auto simp: copy_shards_def bind_result_eq_Inr require_plan_cap_def map_result_list_all2 split: if_splits)

lemma sort_key_empty: "sort_key f xs = [] \<longleftrightarrow> xs = []"
  by (metis length_0_conv length_sort)

lemma selected_entries_Inr:
  assumes "selected_entries m wanted = Inr entries"
  shows "entries \<noteq> [] \<and> sorted (map me_path entries)
    \<and> set entries = {e \<in> set (m_files m). \<forall>rs. wanted = Some rs \<longrightarrow> me_role e \<in> set rs}
    \<and> mset entries \<subseteq># mset (m_files m)"
  using assms
  by (auto simp: selected_entries_def bind_result_eq_Inr sort_key_empty multiset_filter_subset
      split: option.splits if_splits)

lemma sum_list_all2:
  "list_all2 (\<lambda>x y. f x = g y) xs ys \<Longrightarrow> sum_list (map f xs) = sum_list (map g ys)"
  by (induction rule: list_all2_induct) simp_all

lemma copy_shards_bytes:
  assumes "copy_shards cf h read location m wanted limits = Inr cs"
  shows "(\<Sum>c\<leftarrow>cs. cs_bytes c) \<le> lim_max_total_bytes (effective_limits limits)"
proof -
  obtain es where es: "(\<Sum>e\<leftarrow>es. me_bytes e) \<le> lim_max_total_bytes (effective_limits limits)"
    "list_all2 (\<lambda>e c. copy_shard cf h read location m limits e = Inr c) es cs"
    using copy_shards_Inr [OF assms] by blast
  have "list_all2 (\<lambda>e c. me_bytes e = cs_bytes c) es cs"
    using es(2) by (rule list_all2_mono) (simp add: copy_of_def copy_shard_Inr [THEN conjunct1, unfolded copy_of_def])
  from sum_list_all2 [OF this] es(1) show ?thesis by simp
qed

text \<open>
  C30. A copied plan stays within every cap: at most \<open>max_shards\<close> shards, each of exactly its declared
  size and at most \<open>max_shard_bytes\<close>, at most \<open>max_total_bytes\<close> together. Each copy is one selected
  entry of the manifest, in path order, and its bytes are the whole content of a file at the place the entry's
  role owns: what is there is a regular file, not a link, and it resolves through the registered location to a
  path inside the resolved directory of the manifest's own generation.
\<close>

theorem copy_bounded_and_contained:
  assumes "copy_shards cf h (read_bounded h) location m wanted limits = Inr cs"
  shows "int (length cs) \<le> lim_max_shards (effective_limits limits)
    \<and> (\<Sum>c\<leftarrow>cs. int (length (cs_raw c))) \<le> lim_max_total_bytes (effective_limits limits)
    \<and> sorted (map cs_path cs)
    \<and> cs_path ` set cs = me_path ` {e \<in> set (m_files m). \<forall>rs. wanted = Some rs \<longrightarrow> me_role e \<in> set rs}
    \<and> (\<forall>c \<in> set cs. \<exists>e \<in> set (m_files m). copy_of (effective_limits limits) e c
        \<and> (\<exists>p. shard_file cf h location m e p \<and> h_read h p = Some (cs_raw c)))"
proof -
  obtain entries where entries: "selected_entries m wanted = Inr entries"
    "int (length entries) \<le> lim_max_shards (effective_limits limits)"
    "(\<Sum>e\<leftarrow>entries. me_bytes e) \<le> lim_max_total_bytes (effective_limits limits)"
    "list_all2 (\<lambda>e c. copy_shard cf h (read_bounded h) location m limits e = Inr c) entries cs"
    using copy_shards_Inr [OF assms] by blast
  have copies: "list_all2 (copy_of (effective_limits limits)) entries cs"
    using entries(4) by (rule list_all2_mono) (rule conjunct1 [OF copy_shard_Inr])
  have "(\<Sum>e\<leftarrow>entries. me_bytes e) = (\<Sum>c\<leftarrow>cs. int (length (cs_raw c)))"
    by (rule sum_list_all2) (rule list_all2_mono [OF copies], simp add: copy_of_def)
  moreover have "map cs_path cs = map me_path entries"
    using copies by (induction rule: list_all2_induct) (simp_all add: copy_of_def)
  moreover have "\<exists>e \<in> set (m_files m). copy_of (effective_limits limits) e c
        \<and> (\<exists>p. shard_file cf h location m e p \<and> h_read h p = Some (cs_raw c))" if c: "c \<in> set cs" for c
  proof -
    obtain e where e: "e \<in> set entries" "copy_shard cf h (read_bounded h) location m limits e = Inr c"
      using list_all2_member_right [OF entries(4) c] by blast
    then have "e \<in> set (m_files m)" using selected_entries_Inr [OF entries(1)] by blast
    moreover obtain p where p: "shard_path cf h location m e = Inr p" "copy_of (effective_limits limits) e c"
      "read_bounded h p (lim_max_shard_bytes (effective_limits limits)) = Inr (cs_raw c)"
      using copy_shard_Inr [OF e(2)] by blast
    moreover have "h_read h p = Some (cs_raw c)"
      using read_bounded_whole [OF p(3)] p(2) by (simp add: copy_of_def)
    ultimately show ?thesis using shard_path_file [OF p(1)] by blast
  qed
  ultimately show ?thesis
    using entries(2,3) selected_entries_Inr [OF entries(1)] list_all2_lengthD [OF entries(4)]
    by (metis (no_types, lifting) list.set_map)
qed

text \<open>
  A plan over its caps is refused whatever the disk holds: the answer is the same for every host
  and byte source, so nothing was read to find it out.
\<close>

theorem plan_refused_unread:
  assumes "selected_entries m wanted = Inr entries"
    "int (length entries) > lim_max_shards (effective_limits limits)
     \<or> (\<Sum>e\<leftarrow>entries. me_bytes e) > lim_max_total_bytes (effective_limits limits)"
  shows "copy_shards cf h read location m wanted limits = Inl (ShardFailed ShardTooLarge)"
  using assms by (auto simp: copy_shards_def require_plan_cap_def)

section \<open>What a verified shard is\<close>

lemma denotes_parsed: "denotes (parsed v) = v"
proof (induction v rule: parsed.induct)
  case (1 d)
  then have "map (\<lambda>p. (fst p, denotes (parsed (snd p)))) d = d" by (intro map_idI) auto
  then show ?case by (simp add: comp_def)
next
  case (2 xs)
  then have "map (\<lambda>x. denotes (parsed x)) xs = xs" by (intro map_idI) auto
  then show ?case by (simp add: comp_def)
qed simp_all

lemma find_entry_Inr: "find_entry es path = Inr e \<Longrightarrow> e \<in> set es \<and> me_path e = path"
  by (induction es) (auto split: if_splits)

text \<open>The shard of an entry: its fields, and the document its bytes parse to.\<close>

definition shard_of :: "(string \<Rightarrow> pyval option) \<Rightarrow> manifest_entry \<Rightarrow> string \<Rightarrow> shard \<Rightarrow> bool" where
  "shard_of loads e raw s =
     (sh_path s = me_path e \<and> sh_role s = me_role e \<and> sh_sha256 s = me_sha256 e \<and> sh_bytes s = me_bytes e
      \<and> sh_records s = me_records e \<and> int (length raw) = me_bytes e \<and> sha256_hex raw = me_sha256 e
      \<and> loads raw = Some (denotes (sh_document s)) \<and> record_count (denotes (sh_document s)) = Inr (me_records e))"

lemma verify_one_Inr:
  assumes "verify_one loads m c = Inr s" "copy_of limits e c" "e \<in> set (m_files m)" "distinct (map me_path (m_files m))"
  shows "shard_of loads e (cs_raw c) s"
proof -
  obtain e' v where e': "manifest_entry_of m (cs_path c) = Inr e'" "verify_shard loads e' (cs_raw c) = Inr v"
    "s = \<lparr>sh_path = cs_path c, sh_role = cs_role c, sh_sha256 = cs_sha256 c, sh_bytes = cs_bytes c,
            sh_records = cs_records c, sh_document = parsed v\<rparr>"
    using assms(1) by (auto simp: verify_one_def bind_result_eq_Inr)
  have "e' = e"
    using find_entry_Inr [of "m_files m" "cs_path c" e'] e'(1) assms(2-)
    by (auto simp: manifest_entry_of_def copy_of_def distinct_map dest: inj_onD)
  with e' assms(2) show ?thesis
    by (auto simp: shard_of_def copy_of_def verify_shard_Inr denotes_parsed)
qed

lemma verify_copied_Inr:
  assumes "verify_copied loads m cs = Inr ss" "distinct (map me_path (m_files m))"
    "list_all2 (copy_of limits) es cs" "set es \<subseteq> set (m_files m)"
  shows "list_all2 (\<lambda>(e, c) s. shard_of loads e (cs_raw c) s) (zip es cs) ss"
proof -
  have v: "list_all2 (\<lambda>c s. verify_one loads m c = Inr s) cs ss"
    using assms(1) by (simp add: verify_copied_def map_result_list_all2)
  have len: "length es = length cs" using list_all2_lengthD [OF assms(3)] .
  show ?thesis
    unfolding list_all2_conv_all_nth
  proof (intro conjI allI impI)
    show "length (zip es cs) = length ss" using len list_all2_lengthD [OF v] by simp
    fix i assume i: "i < length (zip es cs)"
    then have "verify_one loads m (cs ! i) = Inr (ss ! i)" "copy_of limits (es ! i) (cs ! i)" "es ! i \<in> set (m_files m)"
      using v assms(3,4) len by (auto simp: list_all2_conv_all_nth)
    from verify_one_Inr [OF this assms(2)] i len
    show "(\<lambda>(e, c) s. shard_of loads e (cs_raw c) s) (zip es cs ! i) (ss ! i)" by simp
  qed
qed

end
