(* ===== verification/Session.thy ===== *)
theory Session
  imports Shards
begin

text \<open>
  \<open>read_session.py\<close>: one bounded copy under the shared data guard, then parsing and rendering with no
  lock held. The guard is the engine state of theory \<open>Guard\<close>, and how its acquisitions end is the
  argument \<open>outcome\<close>; the two readings of the clock are \<open>t0\<close> and \<open>t1\<close>. What \<open>isinstance\<close> checks of the
  constructor's arguments is their type here.
\<close>

definition VERIFICATION_MANIFEST_HASH :: string where "VERIFICATION_MANIFEST_HASH = ''manifest_hash''"
definition SESSION_FRESHNESS_UNKNOWN :: string where "SESSION_FRESHNESS_UNKNOWN = ''unknown''"
definition DEFAULT_CHUNK_BYTES :: int where "DEFAULT_CHUNK_BYTES = 4096"

record read_limits =
  rl_max_pointer_bytes :: int
  rl_max_manifest_bytes :: int
  rl_shard_limits :: shard_limits

definition make_read_limits :: "pyval \<Rightarrow> pyval \<Rightarrow> shard_limits \<Rightarrow> session_error + read_limits" where
  "make_read_limits max_pointer_bytes max_manifest_bytes limits =
     (case (max_pointer_bytes, max_manifest_bytes) of
        (PInt p, PInt m) \<Rightarrow>
          if p < 1 \<or> m < 1 then Inl ReadSessionError
          else Inr \<lparr>rl_max_pointer_bytes = p, rl_max_manifest_bytes = m, rl_shard_limits = limits\<rparr>
      | _ \<Rightarrow> Inl ReadSessionError)"

definition default_read_limits :: read_limits where
  "default_read_limits = \<lparr>rl_max_pointer_bytes = 64 * 1024, rl_max_manifest_bytes = 4 * 1024 * 1024,
     rl_shard_limits = default_shard_limits\<rparr>"

record copied_generation =
  cg_solution_id :: string
  cg_project_id :: string
  cg_lane :: string
  cg_generation_id :: string
  cg_pointer_bytes :: string
  cg_manifest :: manifest
  cg_shards :: "copied_shard list"
  cg_bytes_copied :: int

record read_session =
  se_guard :: guard
  se_location :: snapshot_location
  se_limits :: read_limits
  se_roles :: "string list option"
  se_attempts :: pyval
  se_pinned :: "string option"

section \<open>The copy\<close>

definition bounded_read :: "byte_source \<Rightarrow> npath \<Rightarrow> int \<Rightarrow> read_failure + string" where
  "bounded_read read path cap =
     bind_result (read path cap) (\<lambda>payload.
       if int (length payload) > cap then Inl (SessionFailed BoundedCopyExceeded) else Inr payload)"

text \<open>The pointer bytes, the pointer and the generation directory the session reads.\<close>

definition selected_generation ::
    "(string \<Rightarrow> pyval option) \<Rightarrow> byte_source \<Rightarrow> read_session \<Rightarrow> read_failure + string \<times> pointer option \<times> npath" where
  "selected_generation loads read s =
     (case se_pinned s of
        None \<Rightarrow>
          bind_result (bounded_read read (pointer_path (sl_root (se_location s))) (rl_max_pointer_bytes (se_limits s)))
            (\<lambda>pointer_bytes.
          bind_result (raising ManifestFailed (load_pointer_bytes loads pointer_bytes)) (\<lambda>p.
          bind_result (raising RegistryFailed (generation_root (sl_root (se_location s)) (p_generation_id p))) (\<lambda>d.
            Inr (pointer_bytes, Some p, d))))
      | Some g \<Rightarrow>
          bind_result (raising RegistryFailed (generation_root (sl_root (se_location s)) g)) (\<lambda>d.
            Inr ([], None, d)))"

definition check_selected :: "read_session \<Rightarrow> pointer option \<Rightarrow> npath \<Rightarrow> manifest \<Rightarrow> read_failure + unit" where
  "check_selected s p generation_dir m =
     (if path_name generation_dir \<noteq> manifest_generation_id m then Inl (ManifestFailed DigestMismatch)
      else (case p of
          Some q \<Rightarrow> raising ManifestFailed (verify_pointer m q)
        | None \<Rightarrow>
            if Some (manifest_generation_id m) \<noteq> se_pinned s then Inl (ManifestFailed DigestMismatch) else Inr ()))"

definition copy_generation ::
    "(string \<Rightarrow> string) \<Rightarrow> (string \<Rightarrow> pyval option) \<Rightarrow> host \<Rightarrow> byte_source \<Rightarrow> read_session
       \<Rightarrow> read_failure + copied_generation" where
  "copy_generation cf loads h read s =
     bind_result (selected_generation loads read s) (\<lambda>sel.
     (case sel of (pointer_bytes, p, generation_dir) \<Rightarrow>
        bind_result (bounded_read read (joinpath generation_dir MANIFEST_FILENAME) (rl_max_manifest_bytes (se_limits s)))
          (\<lambda>manifest_bytes.
        bind_result (raising ManifestFailed (load_manifest_bytes loads manifest_bytes)) (\<lambda>m.
        bind_result (check_selected s p generation_dir m) (\<lambda>_.
        bind_result (copy_shards cf h read (se_location s) m (se_roles s) (Some (rl_shard_limits (se_limits s))))
          (\<lambda>copied.
          Inr \<lparr>cg_solution_id = m_solution_id m, cg_project_id = m_project_id m,
               cg_lane = sl_lane (se_location s), cg_generation_id = manifest_generation_id m,
               cg_pointer_bytes = pointer_bytes, cg_manifest = m, cg_shards = copied,
               cg_bytes_copied = int (length pointer_bytes) + int (length manifest_bytes)
                 + (\<Sum>c\<leftarrow>copied. cs_bytes c)\<rparr>))))))"

section \<open>Loading\<close>

definition manifest_coverage_status :: "manifest \<Rightarrow> string" where
  "manifest_coverage_status m = (case get_field (m_coverage m) ''status'' of PStr s \<Rightarrow> s | v \<Rightarrow> dumps v)"

definition snapshot_of ::
    "copied_generation \<Rightarrow> shard list \<Rightarrow> rat \<Rightarrow> rat \<Rightarrow> loaded_snapshot" where
  "snapshot_of c verified t0 t1 =
     \<lparr>ls_solution_id = cg_solution_id c, ls_project_id = cg_project_id c, ls_lane = cg_lane c,
      ls_generation_id = cg_generation_id c, ls_analysis_profile = m_analysis_profile (cg_manifest c),
      ls_source_fingerprint = m_source_fingerprint (cg_manifest c),
      ls_coverage_status = manifest_coverage_status (cg_manifest c),
      ls_records = (\<Sum>x\<leftarrow>verified. sh_records x), ls_shards = verified, ls_bytes_copied = cg_bytes_copied c,
      ls_copy_ms = max \<lfloor>(t1 - t0) * 1000\<rfloor> 0, ls_guard_held_during_copy = True,
      ls_parsed_after_guard_release = True, ls_verification = VERIFICATION_MANIFEST_HASH,
      ls_freshness = SESSION_FRESHNESS_UNKNOWN\<rparr>"

definition copy_under_guard ::
    "(string \<Rightarrow> string) \<Rightarrow> (string \<Rightarrow> pyval option) \<Rightarrow> host \<Rightarrow> byte_source \<Rightarrow> read_session \<Rightarrow> guard
       \<Rightarrow> guard \<times> (read_failure + copied_generation)" where
  "copy_under_guard cf loads h read s g =
     (g, if ''data.lock'' \<notin> set (held_names g) then Inl (SessionFailed ReadSessionError)
         else copy_generation cf loads h read s)"

definition session_load ::
    "(string \<Rightarrow> string) \<Rightarrow> (string \<Rightarrow> pyval option) \<Rightarrow> host \<Rightarrow> byte_source \<Rightarrow> read_session
       \<Rightarrow> (nat \<Rightarrow> string \<Rightarrow> attempt) \<Rightarrow> rat \<Rightarrow> rat \<Rightarrow> guard \<times> (read_failure + loaded_snapshot)" where
  "session_load cf loads h read s outcome t0 t1 =
     (case ordered GuardFailed (se_guard s) READER_SPECS [''admission.lock''] (se_attempts s) outcome
         (copy_under_guard cf loads h read s) of
        (g, Inl e) \<Rightarrow> (g, Inl e)
      | (g, Inr copied) \<Rightarrow>
          if held_names g \<noteq> [] then (g, Inl (SessionFailed ReadSessionError))
          else (g, bind_result (verify_copied loads (cg_manifest copied) (cg_shards copied)) (\<lambda>verified.
                     Inr (snapshot_of copied verified t0 t1))))"

section \<open>Rendering\<close>

definition snapshot_as_document :: "loaded_snapshot \<Rightarrow> (string, pyval) dict" where
  "snapshot_as_document v =
     [(''solution_id'', PStr (ls_solution_id v)), (''project_id'', PStr (ls_project_id v)),
      (''generation_id'', PStr (ls_generation_id v)), (''lane'', PStr (ls_lane v)),
      (''analysis_profile'', PStr (ls_analysis_profile v)),
      (''source_fingerprint'', PStr (ls_source_fingerprint v)), (''coverage'', PStr (ls_coverage_status v)),
      (''freshness'', PStr (ls_freshness v)), (''verification'', PStr (ls_verification v)),
      (''shards'', PList (map (\<lambda>s. PDict [(''path'', PStr (sh_path s)), (''role'', PStr (sh_role s)),
         (''records'', PInt (sh_records s))]) (ls_shards v)))]"

definition snapshot_shard :: "loaded_snapshot \<Rightarrow> string \<Rightarrow> session_error + shard" where
  "snapshot_shard v path =
     (case find (\<lambda>s. sh_path s = path) (ls_shards v) of None \<Rightarrow> Inl ReadSessionError | Some s \<Rightarrow> Inr s)"

definition render :: "guard \<Rightarrow> loaded_snapshot \<Rightarrow> session_error + (string, pyval) dict" where
  "render g v = (if held_names g \<noteq> [] then Inl GuardStillHeld else Inr (snapshot_as_document v))"

text \<open>The chunks \<open>stream\<close> yields, in order.\<close>

definition stream :: "guard \<Rightarrow> loaded_snapshot \<Rightarrow> pyval \<Rightarrow> session_error + string list" where
  "stream g v chunk_bytes =
     (case chunk_bytes of
        PInt n \<Rightarrow>
          if n < 1 then Inl ReadSessionError
          else bind_result (render g v) (\<lambda>document. Inr (chunks (nat n) (dumps (PDict document))))
      | _ \<Rightarrow> Inl ReadSessionError)"

section \<open>What a load leaves and answers\<close>

lemma ordered_cases:
  assumes "ordered raise g specs early attempts outcome body = (g', r)"
  obtains e where "ordered_enter g specs early attempts outcome = (g', Inl e)" "r = Inl (raise e)"
    | g1 g2 where "ordered_enter g specs early attempts outcome = (g1, Inr ())" "body g1 = (g2, r)" "g' = release_all g2"
  using assms by (auto simp: ordered_def split: prod.splits sum.splits)

lemma session_load_Inr:
  assumes "session_load cf loads h read s outcome t0 t1 = (g', Inr snap)"
  obtains g1 c verified where "reader_enter (se_guard s) (se_attempts s) outcome = (g1, Inr ())"
    "''data.lock'' \<in> set (held_names g1)" "copy_generation cf loads h read s = Inr c" "g' = release_all g1"
    "held_names g' = []" "verify_copied loads (cg_manifest c) (cg_shards c) = Inr verified"
    "snap = snapshot_of c verified t0 t1"
proof -
  obtain r where r: "ordered GuardFailed (se_guard s) READER_SPECS [''admission.lock''] (se_attempts s) outcome
      (copy_under_guard cf loads h read s) = (g', r)"
    using assms by (auto simp: session_load_def split: prod.splits sum.splits if_splits)
  then show ?thesis
  proof (cases rule: ordered_cases)
    case (1 e)
    with assms r show ?thesis by (simp add: session_load_def)
  next
    case (2 g1 g2)
    from assms r obtain c verified where c: "r = Inr c" "held_names g' = []"
      "verify_copied loads (cg_manifest c) (cg_shards c) = Inr verified" "snap = snapshot_of c verified t0 t1"
      by (auto simp: session_load_def bind_result_eq_Inr split: sum.splits if_splits)
    with 2 show ?thesis
      by (intro that [of g1 c verified]) (auto simp: copy_under_guard_def bind_result_eq_Inr reader_enter_def split: if_splits)
  qed
qed

text \<open>The files a session reads: the manifest of the generation directory, named by its own digest.\<close>

lemma bounded_read_Inr:
  assumes "bounded_read (read_bounded h) p cap = Inr data"
  shows "h_read h p = Some data \<and> int (length data) \<le> cap"
  using assms by (auto simp: bounded_read_def bind_result_eq_Inr read_bounded_whole split: if_splits)

lemma path_name_generation: "generation_root p g = Inr d \<Longrightarrow> path_name d = g"
  by (auto simp: generation_root_def generation_directory_name_def bind_result_eq_Inr joinpath_segment
      SHA256_RE_segment path_name_def split: if_splits)

lemma copy_generation_Inr:
  assumes "copy_generation cf loads h (read_bounded h) s = Inr c"
  shows "\<exists>d m data. generation_root (sl_root (se_location s)) (cg_generation_id c) = Inr d
    \<and> h_read h (joinpath d MANIFEST_FILENAME) = Some data \<and> load_manifest_bytes loads data = Inr m
    \<and> cg_manifest c = m \<and> cg_generation_id c = sha256_hex data \<and> cg_project_id c = m_project_id m
    \<and> int (length data) \<le> rl_max_manifest_bytes (se_limits s)
    \<and> (\<forall>g. se_pinned s = Some g \<longrightarrow> cg_generation_id c = g \<and> cg_pointer_bytes c = [])
    \<and> (se_pinned s = None \<longrightarrow> h_read h (pointer_path (sl_root (se_location s))) = Some (cg_pointer_bytes c)
        \<and> int (length (cg_pointer_bytes c)) \<le> rl_max_pointer_bytes (se_limits s)
        \<and> (\<exists>p. load_pointer_bytes loads (cg_pointer_bytes c) = Inr p \<and> p_generation_id p = cg_generation_id c))
    \<and> copy_shards cf h (read_bounded h) (se_location s) m (se_roles s) (Some (rl_shard_limits (se_limits s)))
        = Inr (cg_shards c)
    \<and> cg_bytes_copied c = int (length (cg_pointer_bytes c)) + int (length data) + (\<Sum>x\<leftarrow>cg_shards c. cs_bytes x)"
proof -
  from assms obtain pb p d data m where
    sel: "selected_generation loads (read_bounded h) s = Inr (pb, p, d)"
    and data: "bounded_read (read_bounded h) (joinpath d MANIFEST_FILENAME) (rl_max_manifest_bytes (se_limits s)) = Inr data"
    and m: "load_manifest_bytes loads data = Inr m"
    and check: "check_selected s p d m = Inr ()"
    and copied: "copy_shards cf h (read_bounded h) (se_location s) m (se_roles s) (Some (rl_shard_limits (se_limits s)))
        = Inr (cg_shards c)"
    and c: "cg_manifest c = m" "cg_generation_id c = manifest_generation_id m" "cg_project_id c = m_project_id m"
      "cg_pointer_bytes c = pb"
      "cg_bytes_copied c = int (length pb) + int (length data) + (\<Sum>x\<leftarrow>cg_shards c. cs_bytes x)"
    by (auto simp: copy_generation_def bind_result_eq_Inr)
  have id: "manifest_generation_id m = sha256_hex data"
    using load_manifest_bytes_ok [OF m] by (simp add: manifest_generation_id_def)
  have name: "path_name d = manifest_generation_id m"
    using check by (auto simp: check_selected_def split: if_splits)
  show ?thesis
  proof (cases "se_pinned s")
    case None
    with sel obtain q where q: "bounded_read (read_bounded h) (pointer_path (sl_root (se_location s)))
        (rl_max_pointer_bytes (se_limits s)) = Inr pb" "load_pointer_bytes loads pb = Inr q"
      "generation_root (sl_root (se_location s)) (p_generation_id q) = Inr d"
      by (auto simp: selected_generation_def bind_result_eq_Inr)
    have "p_generation_id q = manifest_generation_id m" using path_name_generation [OF q(3)] name by simp
    then have "\<exists>p. load_pointer_bytes loads (cg_pointer_bytes c) = Inr p \<and> p_generation_id p = cg_generation_id c"
      using q(2) c by auto
    moreover have "generation_root (sl_root (se_location s)) (cg_generation_id c) = Inr d"
      using q(3) \<open>p_generation_id q = _\<close> c by simp
    ultimately show ?thesis
      using None c id m copied bounded_read_Inr [OF data] bounded_read_Inr [OF q(1)]
      by (intro exI [of _ d] exI [of _ m] exI [of _ data] conjI) simp_all
  next
    case (Some g)
    with sel have g: "generation_root (sl_root (se_location s)) g = Inr d" "pb = []"
      by (auto simp: selected_generation_def bind_result_eq_Inr)
    have "g = manifest_generation_id m" using path_name_generation [OF g(1)] name by simp
    with g Some show ?thesis
      using c id m copied bounded_read_Inr [OF data]
      by (intro exI [of _ d] exI [of _ m] exI [of _ data] conjI) simp_all
  qed
qed

lemma copied_entries:
  assumes "copy_shards cf h read location m wanted limits = Inr cs"
  shows "\<exists>es. list_all2 (copy_of (effective_limits limits)) es cs \<and> set es \<subseteq> set (m_files m)"
proof -
  obtain es where es: "selected_entries m wanted = Inr es"
    "list_all2 (\<lambda>e c. copy_shard cf h read location m limits e = Inr c) es cs"
    using copy_shards_Inr [OF assms] by blast
  have "list_all2 (copy_of (effective_limits limits)) es cs"
    using es(2) by (rule list_all2_mono) (rule conjunct1 [OF copy_shard_Inr])
  moreover have "set es \<subseteq> set (m_files m)" using selected_entries_Inr [OF es(1)] by auto
  ultimately show ?thesis by (intro exI [of _ es] conjI)
qed

text \<open>
  C8. A session that loads holds nothing afterwards, and what it answers is the generation it was asked
  for: the pinned one, or the one the pointer names. The answer's id is the SHA-256 of the manifest's
  bytes in that generation's directory, every shard is the parsed, counted content of bytes whose
  digest that manifest declares, and the bytes copied are within the sum of the three caps.
\<close>

theorem session_loads_what_it_pins:
  assumes "session_load cf loads h (read_bounded h) s outcome t0 t1 = (g', Inr snap)"
    "0 \<le> rl_max_pointer_bytes (se_limits s)"
  shows "held_names g' = []
    \<and> ls_bytes_copied snap \<le> rl_max_pointer_bytes (se_limits s) + rl_max_manifest_bytes (se_limits s)
        + lim_max_total_bytes (rl_shard_limits (se_limits s))
    \<and> (\<exists>d m. generation_root (sl_root (se_location s)) (ls_generation_id snap) = Inr d
        \<and> h_read h (joinpath d MANIFEST_FILENAME) = Some (m_data m) \<and> manifest_ok m
        \<and> ls_generation_id snap = sha256_hex (m_data m) \<and> ls_project_id snap = m_project_id m
        \<and> (\<forall>g. se_pinned s = Some g \<longrightarrow> ls_generation_id snap = g)
        \<and> (se_pinned s = None \<longrightarrow> (\<exists>raw p. h_read h (pointer_path (sl_root (se_location s))) = Some raw
              \<and> load_pointer_bytes loads raw = Inr p \<and> ls_generation_id snap = p_generation_id p))
        \<and> (\<forall>x \<in> set (ls_shards snap). \<exists>e \<in> set (m_files m). \<exists>raw. shard_of loads e raw x))"
proof -
  obtain g1 c verified where load: "copy_generation cf loads h (read_bounded h) s = Inr c" "held_names g' = []"
    "verify_copied loads (cg_manifest c) (cg_shards c) = Inr verified" "snap = snapshot_of c verified t0 t1"
    using assms(1) by (rule session_load_Inr) blast
  obtain d m data where c: "generation_root (sl_root (se_location s)) (cg_generation_id c) = Inr d"
    "h_read h (joinpath d MANIFEST_FILENAME) = Some data" "load_manifest_bytes loads data = Inr m"
    "cg_manifest c = m" "cg_generation_id c = sha256_hex data" "cg_project_id c = m_project_id m"
    "int (length data) \<le> rl_max_manifest_bytes (se_limits s)"
    "\<forall>g. se_pinned s = Some g \<longrightarrow> cg_generation_id c = g \<and> cg_pointer_bytes c = []"
    "se_pinned s = None \<longrightarrow> h_read h (pointer_path (sl_root (se_location s))) = Some (cg_pointer_bytes c)
        \<and> int (length (cg_pointer_bytes c)) \<le> rl_max_pointer_bytes (se_limits s)
        \<and> (\<exists>p. load_pointer_bytes loads (cg_pointer_bytes c) = Inr p \<and> p_generation_id p = cg_generation_id c)"
    and shards: "copy_shards cf h (read_bounded h) (se_location s) m (se_roles s) (Some (rl_shard_limits (se_limits s)))
        = Inr (cg_shards c)"
    and bytes: "cg_bytes_copied c = int (length (cg_pointer_bytes c)) + int (length data) + (\<Sum>x\<leftarrow>cg_shards c. cs_bytes x)"
    using copy_generation_Inr [OF load(1)] by (elim exE conjE) (rule that)
  have m: "manifest_ok m" "m_data m = data" using load_manifest_bytes_ok [OF c(3)] by simp_all
  have "int (length (cg_pointer_bytes c)) \<le> rl_max_pointer_bytes (se_limits s)"
    using c(8,9) assms(2) by (cases "se_pinned s") auto
  moreover have "(\<Sum>x\<leftarrow>cg_shards c. cs_bytes x) \<le> lim_max_total_bytes (rl_shard_limits (se_limits s))"
    using copy_shards_bytes [OF shards] by (simp add: effective_limits_def)
  ultimately have "ls_bytes_copied snap \<le> rl_max_pointer_bytes (se_limits s) + rl_max_manifest_bytes (se_limits s)
        + lim_max_total_bytes (rl_shard_limits (se_limits s))"
    using c(7) by (simp add: load(4) snapshot_of_def bytes)
  moreover obtain es where es: "list_all2 (copy_of (effective_limits (Some (rl_shard_limits (se_limits s))))) es (cg_shards c)"
    "set es \<subseteq> set (m_files m)"
    using copied_entries [OF shards] by blast
  have "distinct (map me_path (m_files m))" using m(1) by (simp add: manifest_ok_def files_ok_def)
  from verify_copied_Inr [OF load(3) [unfolded c(4)] this es]
  have "\<exists>e \<in> set (m_files m). \<exists>raw. shard_of loads e raw x" if x: "x \<in> set verified" for x
    using list_all2_member_right [OF _ x] es(2) by (fastforce dest: set_zip_leftD)
  ultimately show ?thesis
    using load(2) c m by (intro conjI exI [of _ d] exI [of _ m]) (auto simp: load(4) snapshot_of_def)
qed

text \<open>
  A load never leaves a guard held by a session that held none, except when the guard itself was
  refused for another reason than time or cancellation.
\<close>

theorem session_releases:
  assumes "session_load cf loads h read s outcome t0 t1 = (g', r)" "held (se_guard s) = []"
    "\<forall>reason. r \<noteq> Inl (GuardFailed (GuardError reason))"
  shows "held g' = []"
proof -
  obtain r1 where r1: "ordered GuardFailed (se_guard s) READER_SPECS [''admission.lock''] (se_attempts s) outcome
      (copy_under_guard cf loads h read s) = (g', r1)"
    using assms(1) by (auto simp: session_load_def split: prod.splits sum.splits if_splits)
  then show ?thesis
  proof (cases rule: ordered_cases)
    case (1 e)
    with assms(1) r1 have "r = Inl (GuardFailed e)" by (simp add: session_load_def)
    with assms(3) have "e = GuardTimeout \<or> e = GuardCancelled" by (cases e) auto
    with reader_enter_held [OF assms(2), of "se_attempts s" outcome g' "Inl e"] 1 show ?thesis
      by (auto simp: reader_enter_def)
  next
    case (2 g1 g2)
    then show ?thesis by (simp add: release_all_held)
  qed
qed

section \<open>Streaming\<close>

lemma concat_chunks: "0 < n \<Longrightarrow> concat (chunks n xs) = xs"
proof (induction n xs rule: chunks.induct)
  case (1 n xs)
  then show ?case by (subst chunks.simps) (auto simp: append_take_drop_id)
qed

lemma chunks_size: "0 < n \<Longrightarrow> c \<in> set (chunks n xs) \<Longrightarrow> c \<noteq> [] \<and> length c \<le> n"
proof (induction n xs rule: chunks.induct)
  case (1 n xs)
  from 1(3) show ?case
    using 1 by (subst (asm) (2) chunks.simps) (auto split: if_splits)
qed

text \<open>
  The streamed chunks put together are exactly the rendered document, each chunk is non-empty and
  within the requested size, and nothing is streamed while a guard is held.
\<close>

theorem stream_is_the_document:
  assumes "stream g v (PInt n) = Inr cs"
  shows "concat cs = dumps (PDict (snapshot_as_document v)) \<and> held_names g = []
    \<and> (\<forall>c \<in> set cs. c \<noteq> [] \<and> int (length c) \<le> n)"
proof -
  have n: "1 \<le> n" "held_names g = []" "cs = chunks (nat n) (dumps (PDict (snapshot_as_document v)))"
    using assms by (auto simp: stream_def render_def bind_result_eq_Inr simp del: dumps.simps split: if_splits)
  then have "0 < nat n" by simp
  from concat_chunks [OF this] chunks_size [OF this] n show ?thesis by fastforce
qed

end
