(* ===== verification/SessionExample.thy ===== *)
theory SessionExample
  imports Session
begin

text \<open>
  A generation on an example host, for the witnesses of the read path: one project whose manifest
  declares one shard, of coverage. The digests stay symbolic, so nothing is hashed to check it.
\<close>

section \<open>Paths of a generation\<close>

lemma split_on_append: "sep \<notin> set s \<Longrightarrow> split_on sep (s @ sep # t) = s # split_on sep t"
  by (induction s) auto

lemma printable_no_control:
  "list_all (\<lambda>c. 32 \<le> (of_char c :: nat) \<and> (of_char c :: nat) < 127) s \<Longrightarrow> \<not> has_control s"
  by (induction s) auto

lemma hex_printable: "is_hex c \<Longrightarrow> 32 \<le> (of_char c :: nat) \<and> (of_char c :: nat) < 127"
  by (auto simp: is_hex_def is_digit_def in_range_def less_eq_char_def)

lemma hex_distinct:
  "is_hex c \<Longrightarrow> c \<noteq> CHR ''/'' \<and> c \<noteq> CHR ''.'' \<and> c \<noteq> CHR '' '' \<and> c \<notin> set UNPORTABLE_WIRE_CHARACTERS
     \<and> c \<noteq> CHR 0x5C \<and> c \<noteq> newline"
  by (auto simp: is_hex_def is_digit_def in_range_def less_eq_char_def UNPORTABLE_WIRE_CHARACTERS_def newline_def)

lemma hex_component:
  assumes "list_all is_hex g" "length g = 64"
  shows "portable_component (\<lambda>s. s) g"
proof -
  have g: "g \<noteq> []" using assms(2) by auto
  then have "last g \<in> set g" by simp
  then have last: "last g \<noteq> CHR ''.''" "last g \<noteq> CHR '' ''"
    using assms(1) hex_distinct by (auto simp: list_all_iff)
  have "takeWhile (\<lambda>c. c \<noteq> CHR ''.'') g = g" using assms(1) hex_distinct by (auto simp: list_all_iff)
  then have "stem g = g" by (simp add: stem_def)
  moreover have "list_all (\<lambda>r. length r < 64) RESERVED_WIRE_COMPONENTS" by code_simp
  then have "g \<notin> set RESERVED_WIRE_COMPONENTS" using assms(2) by (auto simp: list_all_iff)
  moreover have "set g \<inter> set UNPORTABLE_WIRE_CHARACTERS = {}" using assms(1) hex_distinct by (auto simp: list_all_iff)
  moreover have "g \<noteq> ''.''" "g \<noteq> ''..''" using assms(2) by auto
  ultimately show ?thesis using g last by (simp add: portable_component_def)
qed

lemma generation_wire_path:
  assumes "list_all is_hex g" "length g = 64"
  shows "parse_wire_path (\<lambda>s. s) (PStr (''generations/'' @ g @ ''/coverage.json''))
     = Inr \<lparr>w_spelling = ''generations/'' @ g @ ''/coverage.json'', w_parts = [''generations'', g, ''coverage.json'']\<rparr>"
proof -
  have not_slash: "CHR ''/'' \<notin> set g" using assms(1) hex_distinct by (auto simp: list_all_iff)
  have "split_on CHR ''/'' (''generations'' @ CHR ''/'' # g @ CHR ''/'' # ''coverage.json'')
      = [''generations'', g, ''coverage.json'']"
    by (subst split_on_append, simp)+ (simp add: split_on_append [OF not_slash])
  then have split: "split_on CHR ''/'' (''generations/'' @ g @ ''/coverage.json'') = [''generations'', g, ''coverage.json'']"
    by simp
  have "\<not> has_control (''generations/'' @ g @ ''/coverage.json'')"
    by (rule printable_no_control) (use assms(1) hex_printable in \<open>auto simp: list_all_iff\<close>)
  moreover have "CHR 0x5C \<notin> set (''generations/'' @ g @ ''/coverage.json'')"
    using assms(1) hex_distinct by (auto simp: list_all_iff)
  moreover have "list_all (portable_component (\<lambda>s. s)) [''generations'', ''coverage.json'']" by code_simp
  ultimately show ?thesis
    unfolding parse_wire_path_Inr using split hex_component [OF assms] by simp
qed

section \<open>The example manifest\<close>

definition exs_coverage :: "(string, pyval) dict" where
  "exs_coverage = [(''status'', PStr ''partial'')]"

definition exs_text :: string where
  "exs_text = dumps (PDict exs_coverage)"

lemma exs_text_facts: "length exs_text = 20" "utf8_ok (map of_char exs_text)" "take 3 exs_text \<noteq> UTF8_BOM"
  "take 2 exs_text = CHR ''{'' # [CHR 0x22]" "exs_text ! 2 = CHR ''s''"
  by code_simp+

definition exs_shard_document :: "(string, pyval) dict" where
  "exs_shard_document = [(''path'', PStr ''coverage.json''), (''role'', PStr ''coverage''),
     (''sha256'', PStr (sha256_hex exs_text)), (''bytes'', PInt 20), (''records'', PInt 1)]"

definition exs_document :: "(string, pyval) dict" where
  "exs_document = [(''schema_version'', PInt 1), (''solution_id'', PStr ''shop''),
     (''project_id'', PStr ''app''), (''analysis_profile'', PStr ''default''),
     (''generator_version'', PStr ''1.0''), (''analyzer_set_hash'', PStr ex_digest),
     (''source_fingerprint'', PStr ex_digest), (''config_fingerprint'', PStr ex_digest),
     (''dependency_fingerprint'', PStr ex_digest), (''coverage'', PDict ex_coverage),
     (''files'', PList [PDict exs_shard_document])]"

definition exs_raw :: string where
  "exs_raw = dumps (PDict exs_document) @ [newline]"

definition exs_id :: string where
  "exs_id = sha256_hex exs_raw"

text \<open>The lane pointer of the catalog, and the catalog whose one member is the manifest above.\<close>

definition exs_catalog_document :: "(string, pyval) dict" where
  "exs_catalog_document = [(''schema_version'', PInt 1), (''solution_id'', PStr ''shop''),
     (''analysis_profile'', PStr ''catalog''),
     (''projects'', PList [PDict [(''project_id'', PStr ''app''), (''generation_id'', PStr exs_id),
        (''source_fingerprint'', PStr ex_digest)]]),
     (''coverage'', PStr ''complete_for_profile'')]"

definition exs_catalog_raw :: string where
  "exs_catalog_raw = dumps (PDict exs_catalog_document) @ [newline]"

definition exs_pointer_document :: "(string, pyval) dict" where
  "exs_pointer_document = [(''schema_version'', PInt 1), (''generation_id'', PStr (sha256_hex exs_catalog_raw)),
     (''manifest_sha256'', PStr (sha256_hex exs_catalog_raw))]"

definition exs_pointer_raw :: string where
  "exs_pointer_raw = dumps (PDict exs_pointer_document) @ [newline]"

definition exs_loads :: "string \<Rightarrow> pyval option" where
  "exs_loads t =
     (if t = exs_raw then Some (PDict exs_document) else if t = exs_text then Some (PDict exs_coverage)
      else if t = exs_catalog_raw then Some (PDict exs_catalog_document)
      else if t = exs_pointer_raw then Some (PDict exs_pointer_document) else None)"

definition exs_entry :: manifest_entry where
  "exs_entry = \<lparr>me_path = ''coverage.json'', me_role = ''coverage'', me_sha256 = sha256_hex exs_text, me_bytes = 20,
     me_records = 1\<rparr>"

definition exs_manifest :: manifest where
  "exs_manifest = ex_manifest\<lparr>m_files := [exs_entry], m_data := exs_raw\<rparr>"

lemma json_string_parts:
  "json_string ''analysis_profile'' = CHR 0x22 # ''analysis_profile'' @ [CHR 0x22]"
  "json_string ''generation_id'' = CHR 0x22 # ''generation_id'' @ [CHR 0x22]"
  "json_string ''default'' = CHR 0x22 # ''default'' @ [CHR 0x22]"
  "json_string ''catalog'' = CHR 0x22 # ''catalog'' @ [CHR 0x22]"
  by code_simp+

text \<open>The texts of the files differ within their first characters.\<close>

lemma exs_texts_start:
  "exs_raw ! 2 = CHR ''a''" "exs_raw ! 21 = CHR ''d''" "exs_catalog_raw ! 2 = CHR ''a''" "exs_catalog_raw ! 21 = CHR ''c''"
  "exs_pointer_raw ! 2 = CHR ''g''"
  by (simp_all add: exs_raw_def exs_document_def exs_shard_document_def exs_catalog_raw_def exs_catalog_document_def
      exs_pointer_raw_def exs_pointer_document_def json_string_parts)

lemma exs_texts_differ:
  "exs_raw \<noteq> exs_text" "exs_catalog_raw \<noteq> exs_raw" "exs_pointer_raw \<noteq> exs_raw" "exs_pointer_raw \<noteq> exs_catalog_raw"
  "exs_catalog_raw \<noteq> exs_text" "exs_pointer_raw \<noteq> exs_text"
  using exs_texts_start exs_text_facts(5) by auto

lemma ex_digest_RE: "SHA256_RE ex_digest"
  by code_simp

lemma exs_ascii: "ascii_value (PDict exs_document)"
proof -
  have "ascii_value (PDict ex_coverage)" "ascii ex_digest" by code_simp+
  then show ?thesis
    by (simp add: exs_document_def exs_shard_document_def sha256_hex_ascii del: ascii_value.simps(4))
      (simp add: sha256_hex_ascii)
qed

lemma exs_reasons: "canonicalization_reasons (PDict exs_document) = []"
proof -
  have "canonicalization_reasons (PDict ex_coverage) = []" by code_simp
  then show ?thesis
    by (simp add: exs_document_def exs_shard_document_def canonicalization_reasons.simps)
qed

lemma exs_parsed: "parse_document exs_loads exs_raw = Inr exs_document"
  using canonical_parse(2) [OF exs_ascii exs_reasons, of exs_loads]
  by (simp add: exs_loads_def exs_raw_def [symmetric] del: dumps.simps)

lemma exs_entry_valid: "validate_entry (PDict exs_shard_document) = Inr exs_entry"
proof -
  have "PORTABLE_RELATIVE_RE ''coverage.json''" by code_simp
  then show ?thesis
    by (simp add: validate_entry_def require_object_def require_exact_keys_def portable_path_def in_texts_def
        sha256_field_def integer_field_def get_field_def exs_shard_document_def MANIFEST_ENTRY_KEYS_def FILE_ROLES_def
        sha256_hex_RE MAX_SHARD_BYTES_def exs_entry_def guard_result_def)
qed

lemma exs_loaded: "load_manifest_bytes exs_loads exs_raw = Inr exs_manifest"
proof -
  have "canonical_bytes (PDict exs_document) = Inr exs_raw"
    unfolding exs_raw_def by (rule canonical_parse(1) [OF exs_ascii exs_reasons])
  then have "require_canonical exs_raw (PDict exs_document) = Inr ()"
    by (simp add: require_canonical_def)
  moreover have "require_schema_major exs_document = Inr 1"
    by (simp add: require_schema_major_def get_field_def exs_document_def SUPPORTED_SCHEMA_MAJOR_def)
  moreover have "list_all (\<lambda>f. \<not> dict_has exs_document f) SELF_HASH_FIELDS"
    by (simp add: SELF_HASH_FIELDS_def dict_has_iff exs_document_def)
  moreover have "require_exact_keys exs_document MANIFEST_REQUIRED = Inr ()"
    by (simp add: require_exact_keys_def exs_document_def MANIFEST_REQUIRED_def)
  moreover have "IDENTIFIER_RE ''shop''" "IDENTIFIER_RE ''app''" by code_simp+
  then have "identifier_field exs_document ''solution_id'' = Inr ''shop''"
    "identifier_field exs_document ''project_id'' = Inr ''app''"
    by (simp_all add: identifier_field_def get_field_def exs_document_def)
  moreover have "text_field exs_document ''analysis_profile'' = Inr ''default''"
    "text_field exs_document ''generator_version'' = Inr ''1.0''"
    by (simp_all add: text_field_def get_field_def exs_document_def)
  moreover have "sha256_field exs_document ''analyzer_set_hash'' = Inr ex_digest"
    "sha256_field exs_document ''source_fingerprint'' = Inr ex_digest"
    "sha256_field exs_document ''config_fingerprint'' = Inr ex_digest"
    "sha256_field exs_document ''dependency_fingerprint'' = Inr ex_digest"
    by (simp_all add: sha256_field_def get_field_def exs_document_def ex_digest_RE)
  moreover have "validate_coverage [(''coverage'', PDict ex_coverage)] = Inr ex_coverage" by code_simp
  then have "validate_coverage exs_document = Inr ex_coverage"
    by (simp add: validate_coverage_def get_field_def exs_document_def)
  moreover have "list_field exs_document ''files'' = Inr [PDict exs_shard_document]"
    by (simp add: list_field_def get_field_def exs_document_def)
  moreover have "add_entry [] (PDict exs_shard_document) = Inr [exs_entry]"
    by (simp add: add_entry_def exs_entry_valid)
  ultimately show ?thesis
    by (simp add: load_manifest_bytes_def exs_parsed)
      (simp add: exs_manifest_def ex_manifest_def SUPPORTED_SCHEMA_MAJOR_def)
qed

section \<open>The example read\<close>

definition exs_host :: host where
  "exs_host = \<lparr>h_resolve = Some, h_stat = (\<lambda>_. Some Directory), h_lstat = (\<lambda>_. Some Regular),
     h_read = (\<lambda>p. if path_name p = ''current.json'' then Some exs_pointer_raw
       else if path_name p \<noteq> ''manifest.json'' then Some exs_text
       else if ''app'' \<in> set (path_parts p) then Some exs_raw else Some exs_catalog_raw)\<rparr>"

text \<open>The location of the example project in the example registry.\<close>

definition exs_dir :: "string list" where
  "exs_dir = [''src'', ''web'', ''.axiom'', ''graph'', ''shop'', ''app'', ''live'']"

lemma exs_dir_app: "''app'' \<in> set exs_dir"
  by (simp add: exs_dir_def)

definition exs_location :: snapshot_location where
  "exs_location = \<lparr>sl_solution_id = ''shop'', sl_project_id = ''app'', sl_lane = ''live'', sl_root = NPath ''/'' exs_dir\<rparr>"

definition exs_session :: read_session where
  "exs_session = \<lparr>se_guard = new_guard, se_location = exs_location, se_limits = default_read_limits,
     se_roles = None, se_attempts = PInt 1, se_pinned = Some exs_id\<rparr>"

lemma exs_id_hex: "list_all is_hex exs_id" "length exs_id = 64" "SHA256_RE exs_id"
  by (simp_all add: exs_id_def sha256_hex_hex length_sha256_hex sha256_hex_RE)

lemma exs_manifest_id: "manifest_generation_id exs_manifest = exs_id"
  by (simp add: manifest_generation_id_def exs_manifest_def exs_id_def)

lemma exs_generation_root:
  "generation_root (sl_root exs_location) exs_id = Inr (NPath ''/'' (exs_dir @ [''generations'', exs_id]))"
proof -
  have "segment ''generations''" by (simp add: segment_def)
  then show ?thesis
    using exs_id_hex(3) SHA256_RE_segment [OF exs_id_hex(3)]
    by (simp add: generation_root_def generation_directory_name_def generations_root_def exs_location_def
        GENERATIONS_DIRNAME_def joinpath_segment)
qed

lemma exs_raw_short: "length exs_raw < 4000"
proof -
  have p: "plain ex_digest" by code_simp
  have q: "plain (sha256_hex exs_text)" using sha256_hex_hex [of "exs_text"] hex_plain by (auto simp: plain_def list_all_iff)
  have c: "item_size (PDict ex_coverage) < 1000" by code_simp
  have "list_all plain [''schema_version'', ''solution_id'', ''project_id'', ''analysis_profile'', ''generator_version'',
      ''analyzer_set_hash'', ''source_fingerprint'', ''config_fingerprint'', ''dependency_fingerprint'', ''coverage'',
      ''files'', ''shop'', ''app'', ''default'', ''1.0'', ''path'', ''role'', ''sha256'', ''bytes'', ''records'',
      ''coverage.json'', ''coverage'']" by code_simp
  moreover have "item_size (PInt 1) = 1" "item_size (PInt 20) = 2" by code_simp+
  ultimately have "item_size (PDict exs_document) < 3000"
    using c by (simp add: item_size_PDict item_size_PList exs_document_def exs_shard_document_def entry_size_def
        item_size_PStr length_json_string p q length_sha256_hex) (simp add: ex_digest_def)
  then show ?thesis by (simp add: exs_raw_def item_size_def del: dumps.simps)
qed

lemma exs_wire:
  "parse_wire_path (\<lambda>s. s) (PStr (''generations/'' @ exs_id @ ''/coverage.json''))
     = Inr \<lparr>w_spelling = ''generations/'' @ exs_id @ ''/coverage.json'', w_parts = [''generations'', exs_id, ''coverage.json'']\<rparr>"
  by (rule generation_wire_path [OF exs_id_hex(1,2)])

lemma exs_resolves:
  "location_resolve (\<lambda>s. s) exs_host (sl_root exs_location) (''generations/'' @ exs_id @ ''/coverage.json'')
     = Inr (NPath ''/'' (exs_dir @ [''generations'', exs_id, ''coverage.json'']))"
proof -
  have "segment exs_id" by (rule SHA256_RE_segment [OF exs_id_hex(3)])
  moreover have "segment ''generations''" "segment ''coverage.json''" by (simp_all add: segment_def)
  moreover have "bind_native_root exs_host (PathRoot (sl_root exs_location)) = Inr (NPath ''/'' exs_dir)"
    by (simp add: bind_native_root_def native_path_of_def is_absolute_def exs_host_def exs_location_def)
  ultimately show ?thesis
    unfolding location_resolve_def resolve_wire_path_def exs_wire
    by (simp add: joinpath_segment Paths.contained_def in_parents_def) (simp add: exs_host_def Paths.contained_def in_parents_def)
qed

lemma exs_shard_path:
  "shard_path (\<lambda>s. s) exs_host exs_location exs_manifest exs_entry
     = Inr (NPath ''/'' (exs_dir @ [''generations'', exs_id, ''coverage.json'']))"
proof -
  have "role_permitted_path ''coverage'' ''coverage.json''" by code_simp
  then have "require_role_path exs_entry = Inr ()"
    by (simp add: require_role_path_def exs_entry_def FILE_ROLES_def)
  moreover have "PORTABLE_RELATIVE_RE (''generations/'' @ exs_id @ ''/coverage.json'')"
    by (rule wire_path_portable [OF exs_wire])
  then have "portable_relative (PStr (GENERATIONS_DIRNAME @ ''/'' @ manifest_generation_id exs_manifest @ ''/'' @ me_path exs_entry))
      = Inr (''generations/'' @ exs_id @ ''/coverage.json'')"
    by (simp add: portable_relative_def exs_manifest_id GENERATIONS_DIRNAME_def exs_entry_def)
  ultimately show ?thesis
    using exs_resolves
    by (simp add: shard_path_def exs_manifest_id exs_generation_root Let_def raising_def)
      (simp add: GENERATIONS_DIRNAME_def exs_entry_def exs_host_def in_parents_def raising_def)
qed

definition exs_copy :: copied_shard where
  "exs_copy = \<lparr>cs_path = ''coverage.json'', cs_role = ''coverage'', cs_sha256 = sha256_hex exs_text, cs_bytes = 20,
     cs_records = 1, cs_raw = exs_text\<rparr>"

lemma exs_copied:
  "copy_shards (\<lambda>s. s) exs_host (read_bounded exs_host) exs_location exs_manifest None
     (Some default_shard_limits) = Inr [exs_copy]"
proof -
  have sel: "selected_entries exs_manifest None = Inr [exs_entry]"
    by (simp add: selected_entries_def exs_manifest_def exs_entry_def FILE_ROLES_def)
  have "role_permitted_path ''coverage'' ''coverage.json''" by code_simp
  then have role: "require_role_path exs_entry = Inr ()"
    by (simp add: require_role_path_def exs_entry_def FILE_ROLES_def)
  have cap: "require_declared_cap exs_entry default_shard_limits = Inr ()"
    by (simp add: require_declared_cap_def exs_entry_def default_shard_limits_def MAX_SHARD_BYTES_def)
  have read: "read_bounded exs_host (NPath ''/'' (exs_dir @ [''generations'', exs_id, ''coverage.json'']))
      (lim_max_shard_bytes default_shard_limits) = Inr exs_text"
    by (simp add: read_bounded_def exs_host_def path_name_def default_shard_limits_def MAX_SHARD_BYTES_def exs_text_facts)
  have "copy_shard (\<lambda>s. s) exs_host (read_bounded exs_host) exs_location exs_manifest (Some default_shard_limits) exs_entry
      = Inr exs_copy"
    by (simp add: copy_shard_def effective_limits_def role cap exs_shard_path read Let_def)
      (simp add: exs_entry_def exs_copy_def default_shard_limits_def MAX_SHARD_BYTES_def exs_text_facts)
  then show ?thesis
    by (simp add: copy_shards_def sel effective_limits_def require_plan_cap_def)
      (simp add: default_shard_limits_def exs_entry_def)
qed

definition exs_generation :: copied_generation where
  "exs_generation = \<lparr>cg_solution_id = ''shop'', cg_project_id = ''app'', cg_lane = ''live'', cg_generation_id = exs_id,
     cg_pointer_bytes = [], cg_manifest = exs_manifest, cg_shards = [exs_copy],
     cg_bytes_copied = int (length exs_raw) + 20\<rparr>"

lemma exs_copy_generation:
  "copy_generation (\<lambda>s. s) exs_loads exs_host (read_bounded exs_host) exs_session = Inr exs_generation"
proof -
  have sel: "selected_generation exs_loads (read_bounded exs_host) exs_session
      = Inr ([], None, NPath ''/'' (exs_dir @ [''generations'', exs_id]))"
    by (simp add: selected_generation_def exs_session_def exs_generation_root raising_def)
  have path: "joinpath (NPath ''/'' (exs_dir @ [''generations'', exs_id])) MANIFEST_FILENAME
      = NPath ''/'' (exs_dir @ [''generations'', exs_id, ''manifest.json''])"
    using joinpath_segment [of "''manifest.json''"] by (simp add: segment_def MANIFEST_FILENAME_def)
  have data: "bounded_read (read_bounded exs_host) (NPath ''/'' (exs_dir @ [''generations'', exs_id, ''manifest.json'']))
      (rl_max_manifest_bytes (se_limits exs_session)) = Inr exs_raw"
    using exs_raw_short
    by (simp add: bounded_read_def read_bounded_def exs_host_def path_name_def exs_session_def default_read_limits_def
        exs_dir_app)
  have check: "check_selected exs_session None (NPath ''/'' (exs_dir @ [''generations'', exs_id])) exs_manifest = Inr ()"
    by (simp add: check_selected_def exs_manifest_id path_name_def exs_session_def)
  have shards: "copy_shards (\<lambda>s. s) exs_host (read_bounded exs_host) (se_location exs_session) exs_manifest
      (se_roles exs_session) (Some (rl_shard_limits (se_limits exs_session))) = Inr [exs_copy]"
    using exs_copied by (simp add: exs_session_def default_read_limits_def)
  show ?thesis
    apply (simp add: copy_generation_def sel path data exs_loaded raising_def check shards)
    apply (simp add: exs_generation_def exs_manifest_id exs_session_def exs_location_def exs_copy_def)
    apply (simp add: exs_manifest_def ex_manifest_def manifest_generation_id_def exs_id_def)
    done
qed

definition exs_shard :: shard where
  "exs_shard = \<lparr>sh_path = ''coverage.json'', sh_role = ''coverage'', sh_sha256 = sha256_hex exs_text, sh_bytes = 20,
     sh_records = 1, sh_document = DictObj False [(''status'', Scalar (PStr ''partial''))]\<rparr>"

lemma exs_verified: "verify_copied exs_loads exs_manifest [exs_copy] = Inr [exs_shard]"
  using exs_texts_differ(1) exs_text_facts
  by (simp add: verify_copied_def verify_one_def manifest_entry_of_def exs_manifest_def exs_copy_def exs_entry_def
      verify_shard_def decode_utf8_def UTF8_BOM_def parse_json_def exs_loads_def exs_coverage_def record_count_def raising_def exs_shard_def
      guard_result_def)

definition exs_snapshot :: loaded_snapshot where
  "exs_snapshot = snapshot_of exs_generation [exs_shard] 0 1"

abbreviation exs_outcome :: "nat \<Rightarrow> string \<Rightarrow> attempt" where
  "exs_outcome \<equiv> (\<lambda>_ _. Waited Acquired)"

lemma exs_load:
  "session_load (\<lambda>s. s) exs_loads exs_host (read_bounded exs_host) exs_session exs_outcome 0 1 = (new_guard, Inr exs_snapshot)"
proof -
  define g where "g = \<lparr>held = [(''data.lock'', Shared)], closed = False\<rparr>"
  have "ordered_enter new_guard READER_SPECS [''admission.lock''] (PInt 1) exs_outcome = (g, Inr ())"
    unfolding g_def by code_simp
  moreover have "release_all g = new_guard" unfolding g_def by code_simp
  moreover have "held_names g = [''data.lock'']" "held_names new_guard = []"
    by (simp_all add: g_def held_names_def new_guard_def)
  ultimately have "ordered GuardFailed (se_guard exs_session) READER_SPECS [''admission.lock''] (se_attempts exs_session)
      exs_outcome (copy_under_guard (\<lambda>s. s) exs_loads exs_host (read_bounded exs_host) exs_session)
    = (new_guard, Inr exs_generation)"
    by (simp add: ordered_def copy_under_guard_def exs_copy_generation) (simp add: exs_session_def ordered_def copy_under_guard_def exs_copy_generation [unfolded exs_session_def])
  moreover have "held_names new_guard = []" by (simp add: held_names_def new_guard_def)
  moreover have "cg_manifest exs_generation = exs_manifest" "cg_shards exs_generation = [exs_copy]"
    by (simp_all add: exs_generation_def)
  ultimately show ?thesis
    by (simp add: session_load_def exs_verified exs_snapshot_def)
qed

section \<open>The witnesses\<close>

theorem session_loads_what_it_pins_witness:
  "ls_generation_id exs_snapshot = exs_id \<and> ls_bytes_copied exs_snapshot \<le> 71368704"
proof -
  have "0 \<le> rl_max_pointer_bytes (se_limits exs_session)" by (simp add: exs_session_def default_read_limits_def)
  from session_loads_what_it_pins [OF exs_load this] show ?thesis
    by (auto simp: exs_session_def default_read_limits_def default_shard_limits_def)
qed

theorem session_releases_witness: "held new_guard = []"
  by (rule session_releases [OF exs_load]) (simp_all add: exs_session_def new_guard_def)

theorem copy_bounded_and_contained_witness:
  "\<exists>e p. e \<in> set (m_files exs_manifest) \<and> h_read exs_host p = Some (cs_raw exs_copy)
     \<and> (\<exists>real_root. in_parents real_root p \<and> role_permitted_path (me_role e) (me_path e))"
  using copy_bounded_and_contained [OF exs_copied] unfolding shard_file_def by auto

theorem stream_is_the_document_witness:
  "\<exists>cs. stream new_guard exs_snapshot (PInt 16) = Inr cs \<and> concat cs = dumps (PDict (snapshot_as_document exs_snapshot))"
proof -
  have "stream new_guard exs_snapshot (PInt 16) = Inr (chunks 16 (dumps (PDict (snapshot_as_document exs_snapshot))))"
    by (simp add: stream_def render_def held_names_def new_guard_def del: dumps.simps)
  from this stream_is_the_document [OF this] show ?thesis by blast
qed

end
