(* ===== verification/Catalog.thy ===== *)
theory Catalog
  imports Manifest Registry
begin

text \<open>
  \<open>catalog.py\<close>: the solution catalog, the pinned generation vector of a query, and the opener that
  resolves a member to its exact generation. A \<open>CatalogMemberMissing\<close> carries why the member is
  missing, as \<open>missing_reason\<close>; its wording is the argument \<open>say\<close>. Errors of the modules below pass
  through as cases of \<open>catalog_failure\<close>.
\<close>

definition CATALOG_FILENAME :: string where "CATALOG_FILENAME = ''manifest.json''"
definition CATALOG_SCHEMA_VERSION :: int where "CATALOG_SCHEMA_VERSION = 1"

definition CATALOG_REQUIRED :: "string list" where
  "CATALOG_REQUIRED = [''schema_version'', ''solution_id'', ''analysis_profile'', ''projects'', ''coverage'']"

definition CATALOG_MEMBER_KEYS :: "string list" where
  "CATALOG_MEMBER_KEYS = [''project_id'', ''generation_id'', ''source_fingerprint'']"

definition NAME_ONLY_KEYS :: "string list" where
  "NAME_ONLY_KEYS = [''name'', ''project_name'', ''path'', ''directory'']"

definition CATALOG_COVERAGE_STATUSES :: "string list" where
  "CATALOG_COVERAGE_STATUSES = [''complete_for_profile'', ''partial'', ''unsupported'']"

definition AVAILABLE :: string where "AVAILABLE = ''available''"
definition MISSING :: string where "MISSING = ''missing''"

datatype missing_reason =
    NoBinding
  | ManifestAbsent
  | HoldsGeneration string
  | DeclaresFingerprint string
  | VectorPartial

datatype catalog_failure =
    CatalogInvalid
  | CatalogUnreadable
  | UnsupportedCatalogMajor
  | CatalogMemberMissing string missing_reason
  | CatalogRegistry registry_error
  | CatalogManifest manifest_error

record catalog_member =
  cm_project_id :: string
  cm_generation_id :: string
  cm_source_fingerprint :: string

definition member_as_document :: "catalog_member \<Rightarrow> (string, pyval) dict" where
  "member_as_document c =
     [(''project_id'', PStr (cm_project_id c)), (''generation_id'', PStr (cm_generation_id c)),
      (''source_fingerprint'', PStr (cm_source_fingerprint c))]"

record catalog =
  ca_schema_version :: int
  ca_solution_id :: string
  ca_analysis_profile :: string
  ca_coverage :: string
  ca_members :: "catalog_member list"
  ca_data :: string

definition ca_generation_id :: "catalog \<Rightarrow> string" where
  "ca_generation_id c = sha256_hex (ca_data c)"

definition ca_member :: "catalog \<Rightarrow> string \<Rightarrow> catalog_failure + catalog_member" where
  "ca_member c project_id =
     (case find (\<lambda>m. cm_project_id m = project_id) (ca_members c) of
        None \<Rightarrow> Inl CatalogInvalid | Some m \<Rightarrow> Inr m)"

definition ca_vector :: "catalog \<Rightarrow> catalog_member list" where
  "ca_vector c = sort_key cm_project_id (ca_members c)"

section \<open>The catalog document\<close>

definition catalog_object :: "pyval \<Rightarrow> catalog_failure + (string, pyval) dict" where
  "catalog_object v = (case v of PDict d \<Rightarrow> Inr d | _ \<Rightarrow> Inl CatalogInvalid)"

definition catalog_exact_keys :: "(string, pyval) dict \<Rightarrow> string list \<Rightarrow> catalog_failure + unit" where
  "catalog_exact_keys d expected = guard_result (set (dict_keys d) = set expected) CatalogInvalid"

definition catalog_text_field :: "(string, pyval) dict \<Rightarrow> string \<Rightarrow> catalog_failure + string" where
  "catalog_text_field d name =
     (case get_field d name of PStr s \<Rightarrow> if s = [] then Inl CatalogInvalid else Inr s | _ \<Rightarrow> Inl CatalogInvalid)"

definition catalog_identifier :: "(string, pyval) dict \<Rightarrow> string \<Rightarrow> catalog_failure + string" where
  "catalog_identifier d name =
     (case get_field d name of PStr s \<Rightarrow> if IDENTIFIER_RE s then Inr s else Inl CatalogInvalid
      | _ \<Rightarrow> Inl CatalogInvalid)"

definition catalog_sha256 :: "(string, pyval) dict \<Rightarrow> string \<Rightarrow> catalog_failure + string" where
  "catalog_sha256 d name =
     (case get_field d name of PStr s \<Rightarrow> if SHA256_RE s then Inr s else Inl CatalogInvalid
      | _ \<Rightarrow> Inl CatalogInvalid)"

definition catalog_major :: "(string, pyval) dict \<Rightarrow> catalog_failure + unit" where
  "catalog_major d =
     (case get_field d ''schema_version'' of
        PInt i \<Rightarrow> guard_result (i = CATALOG_SCHEMA_VERSION) UnsupportedCatalogMajor
      | _ \<Rightarrow> Inl CatalogInvalid)"

definition catalog_coverage :: "(string, pyval) dict \<Rightarrow> catalog_failure + string" where
  "catalog_coverage d =
     (case get_field d ''coverage'' of
        PStr s \<Rightarrow> if s \<in> set CATALOG_COVERAGE_STATUSES then Inr s else Inl CatalogInvalid
      | _ \<Rightarrow> Inl CatalogInvalid)"

definition catalog_projects :: "(string, pyval) dict \<Rightarrow> catalog_failure + pyval list" where
  "catalog_projects d =
     (case get_field d ''projects'' of
        PList xs \<Rightarrow> if xs = [] then Inl CatalogInvalid else Inr xs
      | _ \<Rightarrow> Inl CatalogInvalid)"

text \<open>One turn of the loop over \<open>projects\<close>, with the members so far.\<close>

definition add_member :: "catalog_member list \<Rightarrow> pyval \<Rightarrow> catalog_failure + catalog_member list" where
  "add_member members item =
     bind_result (catalog_object item) (\<lambda>entry.
     bind_result (guard_result (list_all (\<lambda>k. \<not> dict_has entry k) NAME_ONLY_KEYS) CatalogInvalid) (\<lambda>_.
     bind_result (catalog_exact_keys entry CATALOG_MEMBER_KEYS) (\<lambda>_.
     bind_result (catalog_identifier entry ''project_id'') (\<lambda>project_id.
     if project_id \<in> set (map cm_project_id members) then Inl CatalogInvalid
     else
       bind_result (catalog_sha256 entry ''generation_id'') (\<lambda>g.
       bind_result (catalog_sha256 entry ''source_fingerprint'') (\<lambda>f.
         Inr (members @ [\<lparr>cm_project_id = project_id, cm_generation_id = g, cm_source_fingerprint = f\<rparr>])))))))"

definition load_catalog_bytes :: "(string \<Rightarrow> pyval option) \<Rightarrow> string \<Rightarrow> catalog_failure + catalog" where
  "load_catalog_bytes loads payload =
     (if \<not> utf8_ok (map of_char payload) then Inl CatalogInvalid
      else (case loads payload of
          None \<Rightarrow> Inl CatalogInvalid
        | Some v \<Rightarrow>
            bind_result (catalog_object v) (\<lambda>document.
            bind_result (catalog_major document) (\<lambda>_.
            bind_result (guard_result (is_canonical_bytes loads payload) CatalogInvalid) (\<lambda>_.
            bind_result (catalog_exact_keys document CATALOG_REQUIRED) (\<lambda>_.
            bind_result (catalog_identifier document ''solution_id'') (\<lambda>solution_id.
            bind_result (catalog_text_field document ''analysis_profile'') (\<lambda>analysis_profile.
            bind_result (catalog_coverage document) (\<lambda>coverage.
            bind_result (catalog_projects document) (\<lambda>projects.
            bind_result (fold_result add_member [] projects) (\<lambda>members.
              Inr \<lparr>ca_schema_version = CATALOG_SCHEMA_VERSION, ca_solution_id = solution_id,
                   ca_analysis_profile = analysis_profile, ca_coverage = coverage, ca_members = members,
                   ca_data = payload\<rparr>)))))))))))"

definition load_catalog :: "(string \<Rightarrow> pyval option) \<Rightarrow> host \<Rightarrow> npath \<Rightarrow> catalog_failure + catalog" where
  "load_catalog loads h path =
     (case h_read h path of None \<Rightarrow> Inl CatalogUnreadable | Some raw \<Rightarrow> load_catalog_bytes loads raw)"

definition load_pinned_catalog_generation ::
    "(string \<Rightarrow> pyval option) \<Rightarrow> host \<Rightarrow> catalog_location \<Rightarrow> catalog_failure + catalog \<times> npath" where
  "load_pinned_catalog_generation loads h location =
     (case bind_result (read_bytes (h_read h (pointer_path (cl_root location)))) (load_pointer_bytes loads) of
        Inl e \<Rightarrow> Inl (CatalogManifest e)
      | Inr p \<Rightarrow>
          (case generation_root (cl_root location) (p_generation_id p) of
             Inl e \<Rightarrow> Inl (CatalogRegistry e)
           | Inr directory \<Rightarrow>
               bind_result (load_catalog loads h (joinpath directory CATALOG_FILENAME)) (\<lambda>c.
                 if path_name directory \<noteq> ca_generation_id c then Inl CatalogInvalid
                 else if p_generation_id p \<noteq> ca_generation_id c then Inl CatalogInvalid
                 else Inr (c, directory))))"

definition load_solution_catalog ::
    "(string \<Rightarrow> pyval option) \<Rightarrow> host \<Rightarrow> catalog_location \<Rightarrow> catalog_failure + catalog" where
  "load_solution_catalog loads h location =
     bind_result (load_pinned_catalog_generation loads h location) (\<lambda>p. Inr (fst p))"

section \<open>The pinned vector\<close>

record member_pin =
  mp_member :: catalog_member
  mp_status :: string
  mp_generation_dir :: "npath option"
  mp_manifest :: "manifest option"
  mp_reason :: "missing_reason option"

definition pin_available :: "member_pin \<Rightarrow> bool" where
  "pin_available p = (mp_status p = AVAILABLE)"

definition pin_as_document :: "(missing_reason \<Rightarrow> string) \<Rightarrow> member_pin \<Rightarrow> (string, pyval) dict" where
  "pin_as_document say p =
     [(''project_id'', PStr (cm_project_id (mp_member p))), (''generation_id'', PStr (cm_generation_id (mp_member p))),
      (''source_fingerprint'', PStr (cm_source_fingerprint (mp_member p))), (''status'', PStr (mp_status p))]
     @ (case mp_reason p of None \<Rightarrow> [] | Some r \<Rightarrow> [(''reason'', PStr (say r))])"

record catalog_vector =
  cv_catalog_generation_id :: string
  cv_solution_id :: string
  cv_coverage :: string
  cv_pins :: "member_pin list"

definition cv_available :: "catalog_vector \<Rightarrow> member_pin list" where
  "cv_available v = filter pin_available (cv_pins v)"

definition cv_missing :: "catalog_vector \<Rightarrow> member_pin list" where
  "cv_missing v = filter (\<lambda>p. \<not> pin_available p) (cv_pins v)"

definition cv_is_complete :: "catalog_vector \<Rightarrow> bool" where
  "cv_is_complete v = (cv_missing v = [])"

definition effective_coverage :: "catalog_vector \<Rightarrow> string" where
  "effective_coverage v =
     (if cv_missing v \<noteq> [] \<and> cv_coverage v \<noteq> ''unsupported'' then ''partial'' else cv_coverage v)"

definition cv_generations :: "catalog_vector \<Rightarrow> (string \<times> string) list" where
  "cv_generations v = map (\<lambda>p. (cm_project_id (mp_member p), cm_generation_id (mp_member p))) (cv_available v)"

definition require_complete :: "catalog_vector \<Rightarrow> catalog_failure + unit" where
  "require_complete v =
     (if cv_missing v \<noteq> []
      then Inl (CatalogMemberMissing (join_with '', '' (map (\<lambda>p. cm_project_id (mp_member p)) (cv_missing v))) VectorPartial)
      else Inr ())"

type_synonym member_opener = "catalog_member \<Rightarrow> catalog_failure + manifest \<times> npath"

definition pin_member :: "member_opener \<Rightarrow> catalog_member \<Rightarrow> catalog_failure + member_pin" where
  "pin_member open_member c =
     (case open_member c of
        Inl (CatalogMemberMissing _ r) \<Rightarrow>
          Inr \<lparr>mp_member = c, mp_status = MISSING, mp_generation_dir = None, mp_manifest = None, mp_reason = Some r\<rparr>
      | Inl e \<Rightarrow> Inl e
      | Inr (found, directory) \<Rightarrow>
          Inr \<lparr>mp_member = c, mp_status = AVAILABLE, mp_generation_dir = Some directory,
               mp_manifest = Some found, mp_reason = None\<rparr>)"

definition pin_catalog :: "member_opener \<Rightarrow> catalog \<Rightarrow> catalog_failure + catalog_vector" where
  "pin_catalog open_member c =
     bind_result (map_result (pin_member open_member) (ca_vector c)) (\<lambda>pins.
       Inr \<lparr>cv_catalog_generation_id = ca_generation_id c, cv_solution_id = ca_solution_id c,
            cv_coverage = ca_coverage c, cv_pins = pins\<rparr>)"

definition project_member_opener ::
    "(string \<Rightarrow> pyval option) \<Rightarrow> host \<Rightarrow> (string \<Rightarrow> registry_error + snapshot_location) \<Rightarrow> member_opener" where
  "project_member_opener loads h location_for c =
     (case location_for (cm_project_id c) of
        Inl UnknownBinding \<Rightarrow> Inl (CatalogMemberMissing (cm_project_id c) NoBinding)
      | Inl e \<Rightarrow> Inl (CatalogRegistry e)
      | Inr location \<Rightarrow>
          (case generation_root (sl_root location) (cm_generation_id c) of
             Inl e \<Rightarrow> Inl (CatalogRegistry e)
           | Inr directory \<Rightarrow>
               (case read_bytes (h_read h (joinpath directory MANIFEST_FILENAME)) of
                  Inl _ \<Rightarrow> Inl (CatalogMemberMissing (cm_project_id c) ManifestAbsent)
                | Inr raw \<Rightarrow>
                    (case load_manifest_bytes loads raw of
                       Inl e \<Rightarrow> Inl (CatalogManifest e)
                     | Inr found \<Rightarrow>
                         if manifest_generation_id found \<noteq> cm_generation_id c
                         then Inl (CatalogMemberMissing (cm_project_id c) (HoldsGeneration (manifest_generation_id found)))
                         else if m_source_fingerprint found \<noteq> cm_source_fingerprint c
                         then Inl (CatalogMemberMissing (cm_project_id c) (DeclaresFingerprint (m_source_fingerprint found)))
                         else Inr (found, directory)))))"

section \<open>What a catalog that loads is\<close>

definition member_ok :: "catalog_member \<Rightarrow> bool" where
  "member_ok c = (IDENTIFIER_RE (cm_project_id c) \<and> SHA256_RE (cm_generation_id c) \<and> SHA256_RE (cm_source_fingerprint c))"

definition catalog_ok :: "catalog \<Rightarrow> bool" where
  "catalog_ok c =
     (ca_schema_version c = CATALOG_SCHEMA_VERSION \<and> IDENTIFIER_RE (ca_solution_id c) \<and> ca_analysis_profile c \<noteq> []
      \<and> ca_coverage c \<in> set CATALOG_COVERAGE_STATUSES \<and> ca_members c \<noteq> []
      \<and> distinct (map cm_project_id (ca_members c)) \<and> list_all member_ok (ca_members c))"

lemma catalog_object_Inr: "catalog_object v = Inr d \<longleftrightarrow> v = PDict d"
  by (auto simp: catalog_object_def split: pyval.split)

lemma catalog_text_field_Inr: "catalog_text_field d n = Inr s \<longleftrightarrow> get_field d n = PStr s \<and> s \<noteq> []"
  by (auto simp: catalog_text_field_def split: pyval.splits if_splits)

lemma catalog_identifier_Inr: "catalog_identifier d n = Inr s \<longleftrightarrow> get_field d n = PStr s \<and> IDENTIFIER_RE s"
  by (auto simp: catalog_identifier_def split: pyval.splits if_splits)

lemma catalog_sha256_Inr: "catalog_sha256 d n = Inr s \<longleftrightarrow> get_field d n = PStr s \<and> SHA256_RE s"
  by (auto simp: catalog_sha256_def split: pyval.splits if_splits)

lemma catalog_coverage_Inr:
  "catalog_coverage d = Inr s \<longleftrightarrow> get_field d ''coverage'' = PStr s \<and> s \<in> set CATALOG_COVERAGE_STATUSES"
  by (auto simp: catalog_coverage_def split: pyval.splits if_splits)

lemma catalog_projects_Inr: "catalog_projects d = Inr xs \<longleftrightarrow> get_field d ''projects'' = PList xs \<and> xs \<noteq> []"
  by (auto simp: catalog_projects_def split: pyval.splits if_splits)

lemmas catalog_simps = catalog_object_Inr catalog_text_field_Inr catalog_identifier_Inr catalog_sha256_Inr
  catalog_coverage_Inr catalog_projects_Inr bind_result_eq_Inr guard_result_eq_Inr

definition members_ok :: "catalog_member list \<Rightarrow> bool" where
  "members_ok cs = (distinct (map cm_project_id cs) \<and> list_all member_ok cs)"

lemma add_member_Inr:
  "add_member cs v = Inr cs' \<Longrightarrow> members_ok cs \<Longrightarrow> members_ok cs' \<and> length cs' = length cs + 1"
  by (auto simp: add_member_def catalog_simps members_ok_def member_ok_def split: if_splits)

lemma add_members_Inr:
  "fold_result add_member cs vs = Inr cs' \<Longrightarrow> members_ok cs \<Longrightarrow> members_ok cs' \<and> length cs' = length cs + length vs"
proof (induction vs arbitrary: cs)
  case (Cons v vs)
  then obtain ds where "add_member cs v = Inr ds" "fold_result add_member ds vs = Inr cs'"
    by (auto simp: bind_result_eq_Inr)
  with add_member_Inr [OF this(1) Cons.prems(2)] Cons.IH show ?case by fastforce
qed simp

lemma is_canonical_bytes_iff:
  "is_canonical_bytes loads raw \<longleftrightarrow>
     (\<exists>v. loads raw = Some v \<and> canonical_bytes v = Inr raw \<and> take 3 raw \<noteq> UTF8_BOM \<and> utf8_ok (map of_char raw))"
proof (cases "bind_result (decode_utf8 raw) (parse_json loads)")
  case (Inl e)
  then show ?thesis by (auto simp: is_canonical_bytes_def decode_utf8_def parse_json_def split: option.splits if_splits)
next
  case (Inr v)
  then have "loads raw = Some v" "take 3 raw \<noteq> UTF8_BOM" "utf8_ok (map of_char raw)"
    by (auto simp: bind_result_eq_Inr decode_utf8_Inr parse_json_Inr)
  with Inr show ?thesis by (simp add: is_canonical_bytes_def)
qed

lemma load_catalog_bytes_ok:
  assumes "load_catalog_bytes loads raw = Inr c"
  shows "catalog_ok c \<and> ca_data c = raw
    \<and> (\<exists>d. canonical_of loads raw d \<and> set (dict_keys d) = set CATALOG_REQUIRED)"
proof -
  from assms obtain d items where d: "loads raw = Some (PDict d)" "is_canonical_bytes loads raw"
    "set (dict_keys d) = set CATALOG_REQUIRED"
    and items: "items \<noteq> []" "fold_result add_member [] items = Inr (ca_members c)"
    and c: "ca_schema_version c = CATALOG_SCHEMA_VERSION" "IDENTIFIER_RE (ca_solution_id c)"
      "ca_analysis_profile c \<noteq> []" "ca_coverage c \<in> set CATALOG_COVERAGE_STATUSES" "ca_data c = raw"
    by (auto simp: load_catalog_bytes_def catalog_simps catalog_exact_keys_def split: if_splits option.splits)
  have "members_ok (ca_members c) \<and> length (ca_members c) = length items"
    using add_members_Inr [OF items(2)] by (simp add: members_ok_def)
  with items(1) c have "catalog_ok c" by (auto simp: catalog_ok_def members_ok_def)
  moreover have "canonical_of loads raw d" using d(1,2) by (auto simp: is_canonical_bytes_iff canonical_of_def)
  ultimately show ?thesis using c d by blast
qed

lemma load_solution_catalog_Inr:
  assumes "load_solution_catalog loads h location = Inr c"
  obtains raw p d where "h_read h (pointer_path (cl_root location)) = Some raw" "load_pointer_bytes loads raw = Inr p"
    "generation_root (cl_root location) (p_generation_id p) = Inr d"
    "h_read h (joinpath d CATALOG_FILENAME) = Some (ca_data c)" "load_catalog_bytes loads (ca_data c) = Inr c"
    "ca_generation_id c = p_generation_id p" "path_name d = p_generation_id p"
proof -
  from assms obtain q where "load_pinned_catalog_generation loads h location = Inr (c, q)"
    by (auto simp: load_solution_catalog_def bind_result_eq_Inr)
  then obtain raw p d where *: "h_read h (pointer_path (cl_root location)) = Some raw" "load_pointer_bytes loads raw = Inr p"
    "generation_root (cl_root location) (p_generation_id p) = Inr d"
    "load_catalog loads h (joinpath d CATALOG_FILENAME) = Inr c"
    "path_name d = ca_generation_id c" "p_generation_id p = ca_generation_id c"
    by (auto simp: load_pinned_catalog_generation_def bind_result_eq_Inr read_bytes_def split: sum.splits option.splits if_splits)
  from *(4) obtain data where data: "h_read h (joinpath d CATALOG_FILENAME) = Some data"
    "load_catalog_bytes loads data = Inr c"
    by (auto simp: load_catalog_def split: option.splits)
  then have "ca_data c = data" using load_catalog_bytes_ok by blast
  with * data show ?thesis by (intro that [of raw p d]) simp_all
qed

section \<open>What a pin is\<close>

text \<open>A pin that is available: the manifest of exactly that generation, at its own place.\<close>

definition pinned_manifest ::
    "(string \<Rightarrow> pyval option) \<Rightarrow> host \<Rightarrow> (string \<Rightarrow> registry_error + snapshot_location) \<Rightarrow> catalog_member
       \<Rightarrow> npath \<Rightarrow> manifest \<Rightarrow> bool" where
  "pinned_manifest loads h location_for c d m =
     (\<exists>l. location_for (cm_project_id c) = Inr l \<and> generation_root (sl_root l) (cm_generation_id c) = Inr d
        \<and> h_read h (joinpath d MANIFEST_FILENAME) = Some (m_data m) \<and> load_manifest_bytes loads (m_data m) = Inr m
        \<and> sha256_hex (m_data m) = cm_generation_id c \<and> m_source_fingerprint m = cm_source_fingerprint c)"

lemma project_member_opener_Inr:
  assumes "project_member_opener loads h location_for c = Inr (m, d)"
  shows "pinned_manifest loads h location_for c d m"
proof (cases "location_for (cm_project_id c)")
  case (Inl e)
  with assms show ?thesis by (cases e) (simp_all add: project_member_opener_def)
next
  case l: (Inr l)
  with assms obtain g where g: "generation_root (sl_root l) (cm_generation_id c) = Inr g"
    by (cases "generation_root (sl_root l) (cm_generation_id c)") (simp_all add: project_member_opener_def)
  with assms l obtain raw where raw: "h_read h (joinpath g MANIFEST_FILENAME) = Some raw"
    by (cases "h_read h (joinpath g MANIFEST_FILENAME)") (simp_all add: project_member_opener_def read_bytes_def)
  with assms l g obtain n where n: "load_manifest_bytes loads raw = Inr n"
    by (cases "load_manifest_bytes loads raw") (simp_all add: project_member_opener_def read_bytes_def)
  moreover have "m_data n = raw" using load_manifest_bytes_ok [OF n] by simp
  ultimately show ?thesis
    using assms l g raw
    by (simp add: project_member_opener_def read_bytes_def pinned_manifest_def manifest_generation_id_def split: if_splits)
qed

lemma pin_member_Inr:
  "pin_member open_member c = Inr p \<longleftrightarrow>
     (\<exists>m d. open_member c = Inr (m, d)
        \<and> p = \<lparr>mp_member = c, mp_status = AVAILABLE, mp_generation_dir = Some d, mp_manifest = Some m, mp_reason = None\<rparr>)
     \<or> (\<exists>i r. open_member c = Inl (CatalogMemberMissing i r)
        \<and> p = \<lparr>mp_member = c, mp_status = MISSING, mp_generation_dir = None, mp_manifest = None, mp_reason = Some r\<rparr>)"
  by (auto simp: pin_member_def split: sum.splits catalog_failure.splits)

lemma pin_member_member: "pin_member open_member c = Inr p \<Longrightarrow> mp_member p = c"
  by (auto simp: pin_member_Inr)

lemma pin_member_cases:
  assumes "pin_member open_member c = Inr p"
  shows "(\<exists>m d. open_member c = Inr (m, d) \<and> mp_status p = AVAILABLE \<and> mp_generation_dir p = Some d \<and> mp_manifest p = Some m)
     \<or> mp_status p = MISSING \<and> mp_manifest p = None \<and> mp_reason p \<noteq> None"
  using assms unfolding pin_member_Inr by auto

lemma map_result_cong: "(\<And>x. x \<in> set xs \<Longrightarrow> f x = g x) \<Longrightarrow> map_result f xs = map_result g xs"
  by (induction xs) simp_all

lemma pin_catalog_pins:
  assumes "pin_catalog open_member c = Inr v"
  shows "map mp_member (cv_pins v) = ca_vector c \<and> cv_catalog_generation_id v = ca_generation_id c
    \<and> cv_coverage v = ca_coverage c
    \<and> (\<forall>p \<in> set (cv_pins v). pin_member open_member (mp_member p) = Inr p)"
proof -
  from assms obtain ps where ps: "map_result (pin_member open_member) (ca_vector c) = Inr ps" "cv_pins v = ps"
    "cv_catalog_generation_id v = ca_generation_id c" "cv_coverage v = ca_coverage c"
    by (auto simp: pin_catalog_def bind_result_eq_Inr)
  have "map mp_member ps = ca_vector c"
    by (rule map_result_image [OF ps(1)]) (rule pin_member_member)
  moreover have "pin_member open_member (mp_member p) = Inr p" if "p \<in> set ps" for p
    using map_result_set [OF ps(1) that] pin_member_member by metis
  ultimately show ?thesis using ps by simp
qed

text \<open>
  C17. The vector a query pins is the one its catalog names: the catalog is the bytes whose digest the
  lane pointer holds, every member appears once, in order; an available member is the manifest, at the
  member's own generation directory, whose bytes hash to the pinned generation and whose source
  fingerprint is the pinned one; a missing member carries a reason and no manifest, and makes the
  coverage incomplete.
\<close>

theorem catalog_vector_is_pinned:
  assumes "load_solution_catalog loads h location = Inr c"
    "pin_catalog (project_member_opener loads h location_for) c = Inr v"
  shows "(\<exists>raw p. h_read h (pointer_path (cl_root location)) = Some raw \<and> load_pointer_bytes loads raw = Inr p
        \<and> cv_catalog_generation_id v = p_generation_id p \<and> p_generation_id p = sha256_hex (ca_data c))
    \<and> map (\<lambda>p. cm_project_id (mp_member p)) (cv_pins v) = sort (map cm_project_id (ca_members c))
    \<and> distinct (map (\<lambda>p. cm_project_id (mp_member p)) (cv_pins v))
    \<and> (\<forall>p \<in> set (cv_available v). \<exists>d m. mp_generation_dir p = Some d \<and> mp_manifest p = Some m
          \<and> pinned_manifest loads h location_for (mp_member p) d m)
    \<and> (\<forall>p \<in> set (cv_missing v). mp_manifest p = None \<and> mp_reason p \<noteq> None)
    \<and> (cv_missing v \<noteq> [] \<longrightarrow> effective_coverage v \<noteq> ''complete_for_profile'')"
proof -
  obtain raw p d where load: "h_read h (pointer_path (cl_root location)) = Some raw" "load_pointer_bytes loads raw = Inr p"
    "load_catalog_bytes loads (ca_data c) = Inr c" "ca_generation_id c = p_generation_id p"
    using assms(1) by (rule load_solution_catalog_Inr)
  note pins = pin_catalog_pins [OF assms(2)]
  have names: "map (\<lambda>p. cm_project_id (mp_member p)) (cv_pins v) = map cm_project_id (ca_vector c)"
    unfolding conjunct1 [OF pins, symmetric] by simp
  then have sorted: "map (\<lambda>p. cm_project_id (mp_member p)) (cv_pins v) = sort (map cm_project_id (ca_members c))"
    by (simp add: ca_vector_def map_sort_key)
  have "distinct (map cm_project_id (ca_members c))"
    using load_catalog_bytes_ok [OF load(3)] by (simp add: catalog_ok_def)
  with sorted have "distinct (map (\<lambda>p. cm_project_id (mp_member p)) (cv_pins v))" by simp
  moreover have "\<exists>d m. mp_generation_dir q = Some d \<and> mp_manifest q = Some m
      \<and> pinned_manifest loads h location_for (mp_member q) d m" if q: "q \<in> set (cv_available v)" for q
  proof -
    have "pin_member (project_member_opener loads h location_for) (mp_member q) = Inr q"
      using q pins by (simp add: cv_available_def)
    from pin_member_cases [OF this] q project_member_opener_Inr show ?thesis
      by (auto simp: cv_available_def pin_available_def AVAILABLE_def MISSING_def)
  qed
  moreover have "mp_manifest q = None \<and> mp_reason q \<noteq> None" if q: "q \<in> set (cv_missing v)" for q
  proof -
    have "pin_member (project_member_opener loads h location_for) (mp_member q) = Inr q"
      using q pins by (simp add: cv_missing_def)
    from pin_member_cases [OF this] q show ?thesis
      by (auto simp: cv_missing_def pin_available_def AVAILABLE_def MISSING_def)
  qed
  moreover have "effective_coverage v \<noteq> ''complete_for_profile''" if "cv_missing v \<noteq> []"
    using that by (simp add: effective_coverage_def)
  ultimately show ?thesis
    using load sorted pins by (intro conjI exI [of _ raw] exI [of _ p]) (simp_all add: ca_generation_id_def)
qed

text \<open>
  The same catalog selects the same vector on every host that holds the same bytes under the pinned
  generations: nothing else, a project's own pointer in particular, has a say.
\<close>

theorem pinning_ignores_project_pointers:
  assumes "\<forall>member \<in> set (ca_members c). \<forall>l d. location_for (cm_project_id member) = Inr l
      \<longrightarrow> generation_root (sl_root l) (cm_generation_id member) = Inr d
      \<longrightarrow> h_read h (joinpath d MANIFEST_FILENAME) = h_read h' (joinpath d MANIFEST_FILENAME)"
  shows "pin_catalog (project_member_opener loads h location_for) c
    = pin_catalog (project_member_opener loads h' location_for) c"
proof -
  have "project_member_opener loads h location_for m = project_member_opener loads h' location_for m"
    if "m \<in> set (ca_members c)" for m
    using assms that by (auto simp: project_member_opener_def split: sum.splits registry_error.splits)
  then have "map_result (pin_member (project_member_opener loads h location_for)) (ca_vector c)
      = map_result (pin_member (project_member_opener loads h' location_for)) (ca_vector c)"
    by (intro map_result_cong) (simp_all add: ca_vector_def pin_member_def)
  then show ?thesis by (simp add: pin_catalog_def)
qed

text \<open>
  A member whose manifest bytes are corrupt, and so do not load, is not recorded as missing: it fails
  the whole read, although the module says an absent or corrupt member is reported and the vector is
  partial.
\<close>

theorem corrupt_member_fails_read:
  assumes "location_for (cm_project_id member) = Inr l" "generation_root (sl_root l) (cm_generation_id member) = Inr d"
    "h_read h (joinpath d MANIFEST_FILENAME) = Some raw" "load_manifest_bytes loads raw = Inl e"
    "ca_members c = [member]"
  shows "pin_catalog (project_member_opener loads h location_for) c = Inl (CatalogManifest e)"
  using assms by (simp add: pin_catalog_def ca_vector_def pin_member_def project_member_opener_def read_bytes_def)

end
