(* ===== verification/Source.thy ===== *)
theory Source
  imports Session Retention
begin

text \<open>
  Where a tool's generations come from: \<open>GuardedSnapshotSource\<close> of \<open>tools/context.py\<close>, a read session on
  a fresh guard that is closed whatever happens, and \<open>RegisteredSource\<close> of \<open>runtime.py\<close>, which resolves
  the instance's guard, revalidates the selected manifest on every request and reuses retained
  generations. What the machine does during one load is a \<open>read_world\<close>: the files, how the guard waits
  end, and the clock. The two reads of one load see the same files.
\<close>

record read_world =
  rw_fold :: "string \<Rightarrow> string"
  rw_loads :: "string \<Rightarrow> pyval option"
  rw_host :: host
  rw_waits :: "nat \<Rightarrow> nat \<Rightarrow> string \<Rightarrow> attempt"
  rw_started :: rat
  rw_ended :: rat

record guarded_source =
  gd_guard_dir :: npath
  gd_timeout_ms :: pyval
  gd_limits :: "read_limits option"

section \<open>One guarded load\<close>

definition source_session :: "guarded_source \<Rightarrow> snapshot_location \<Rightarrow> string option \<Rightarrow> read_session" where
  "source_session src location pinned =
     \<lparr>se_guard = new_guard, se_location = location,
      se_limits = (case gd_limits src of None \<Rightarrow> default_read_limits | Some l \<Rightarrow> l),
      se_roles = None, se_attempts = PInt 1, se_pinned = pinned\<rparr>"

text \<open>The guard as the \<open>finally\<close> leaves it, and the outcome.\<close>

definition guarded_load ::
    "read_world \<Rightarrow> guarded_source \<Rightarrow> snapshot_location \<Rightarrow> string option \<Rightarrow> guard \<times> (read_failure + loaded_snapshot)" where
  "guarded_load w src location pinned =
     (case resolve_timeout_ms (gd_timeout_ms src) of
        Inl e \<Rightarrow> (new_guard, Inl (GuardFailed e))
      | Inr _ \<Rightarrow>
          (case session_load (rw_fold w) (rw_loads w) (rw_host w) (read_bounded (rw_host w))
              (source_session src location pinned) (rw_waits w 0) (rw_started w) (rw_ended w) of
             (g, r) \<Rightarrow> (close g, r)))"

section \<open>The registered source\<close>

definition DEFAULT_SOURCE_TIMEOUT_MS :: pyval where "DEFAULT_SOURCE_TIMEOUT_MS = PInt 5000"

definition source_for :: "snapshot_registry \<Rightarrow> snapshot_location \<Rightarrow> read_failure + guarded_source" where
  "source_for registry location =
     bind_result (raising RegistryFailed (find_solution registry (sl_solution_id location))) (\<lambda>binding.
       Inr \<lparr>gd_guard_dir = registry_guard_directory (sr_axiom_home registry) (sb_instance_id binding),
            gd_timeout_ms = DEFAULT_SOURCE_TIMEOUT_MS, gd_limits = None\<rparr>)"

text \<open>What a reader context computes, the guard being closed afterwards.\<close>

definition under_reader :: "read_world \<Rightarrow> nat \<Rightarrow> (read_failure + 'a) \<Rightarrow> read_failure + 'a" where
  "under_reader w turn body =
     snd (ordered GuardFailed new_guard READER_SPECS [''admission.lock''] (PInt 1) (rw_waits w turn) (\<lambda>g. (g, body)))"

definition selected_manifest :: "read_world \<Rightarrow> snapshot_location \<Rightarrow> string \<Rightarrow> read_failure + manifest" where
  "selected_manifest w location g =
     bind_result (raising RegistryFailed (generation_root (sl_root location) g)) (\<lambda>d.
     bind_result (read_bounded (rw_host w) (joinpath d MANIFEST_FILENAME) (4 * 1024 * 1024)) (\<lambda>raw.
     bind_result (raising ManifestFailed (load_manifest_bytes (rw_loads w) raw)) (\<lambda>m.
       if manifest_generation_id m \<noteq> g \<or> m_solution_id m \<noteq> sl_solution_id location
          \<or> m_project_id m \<noteq> sl_project_id location
       then Inl (ManifestFailed DigestMismatch) else Inr m)))"

type_synonym source_key = "npath \<times> npath \<times> string \<times> string \<times> string \<times> int \<times> string \<times> string"

definition retention_key ::
    "npath \<Rightarrow> npath \<Rightarrow> snapshot_location \<Rightarrow> manifest \<Rightarrow> string \<Rightarrow> source_key" where
  "retention_key real_root real_guard location m g =
     (real_root, real_guard, sl_solution_id location, sl_project_id location, sl_lane location,
      SUPPORTED_SCHEMA_MAJOR, m_analysis_profile m, g)"

text \<open>
  A hit, or a load that is then retained. The \<open>KeyError\<close> of \<open>put\<close>, which never happens on a valid
  retention (\<open>retention_put_total\<close>), has no case of its own.
\<close>

definition cached_load ::
    "(source_key \<Rightarrow> loaded_snapshot \<Rightarrow> nat) \<Rightarrow> read_world \<Rightarrow> guarded_source \<Rightarrow> source_key retention
       \<Rightarrow> snapshot_location \<Rightarrow> string \<Rightarrow> source_key \<Rightarrow> source_key retention \<times> (read_failure + loaded_snapshot)" where
  "cached_load footprint w src r location g key =
     (case retention_get r key of
        (r', Some cached) \<Rightarrow> (r', Inr cached)
      | (r', None) \<Rightarrow>
          (case snd (guarded_load w src location (Some g)) of
             Inl e \<Rightarrow> (r', Inl e)
           | Inr loaded \<Rightarrow>
               (case retention_put footprint r' key loaded of
                  Inl _ \<Rightarrow> (r', Inl OsFailed)
                | Inr r'' \<Rightarrow> (r'', Inr loaded))))"

definition registered_load_pinned ::
    "(source_key \<Rightarrow> loaded_snapshot \<Rightarrow> nat) \<Rightarrow> read_world \<Rightarrow> snapshot_registry \<Rightarrow> source_key retention option
       \<Rightarrow> snapshot_location \<Rightarrow> string \<Rightarrow> source_key retention option \<times> (read_failure + loaded_snapshot)" where
  "registered_load_pinned footprint w registry kept location g =
     (case source_for registry location of
        Inl e \<Rightarrow> (kept, Inl e)
      | Inr src \<Rightarrow>
          (case kept of
             None \<Rightarrow> (None, snd (guarded_load w src location (Some g)))
           | Some r \<Rightarrow>
               (case under_reader w 1 (selected_manifest w location g) of
                  Inl e \<Rightarrow> (Some r, Inl e)
                | Inr m \<Rightarrow>
                    (case (h_resolve (rw_host w) (sl_root location), h_resolve (rw_host w) (gd_guard_dir src)) of
                       (Some real_root, Some real_guard) \<Rightarrow>
                         map_prod Some id
                           (cached_load footprint w src r location g (retention_key real_root real_guard location m g))
                     | _ \<Rightarrow> (Some r, Inl OsFailed)))))"

definition registered_load ::
    "(source_key \<Rightarrow> loaded_snapshot \<Rightarrow> nat) \<Rightarrow> read_world \<Rightarrow> snapshot_registry \<Rightarrow> source_key retention option
       \<Rightarrow> snapshot_location \<Rightarrow> source_key retention option \<times> (read_failure + loaded_snapshot)" where
  "registered_load footprint w registry kept location =
     (case source_for registry location of
        Inl e \<Rightarrow> (kept, Inl e)
      | Inr src \<Rightarrow>
          (case kept of
             None \<Rightarrow> (None, snd (guarded_load w src location None))
           | Some r \<Rightarrow>
               (case under_reader w 2
                   (bind_result (read_bounded (rw_host w) (pointer_path (sl_root location)) (64 * 1024)) (\<lambda>raw.
                      raising ManifestFailed (load_pointer_bytes (rw_loads w) raw))) of
                  Inl e \<Rightarrow> (Some r, Inl e)
                | Inr p \<Rightarrow> registered_load_pinned footprint w registry kept location (p_generation_id p))))"

section \<open>What a source serves\<close>

text \<open>
  The content of a generation: the manifest whose bytes hash to it, its identity, and one verified shard
  for every file the manifest declares. It does not matter whether the documents are frozen.
\<close>

definition content_of :: "(string \<Rightarrow> pyval option) \<Rightarrow> string \<Rightarrow> loaded_snapshot \<Rightarrow> manifest \<Rightarrow> bool" where
  "content_of loads g v m =
     (load_manifest_bytes loads (m_data m) = Inr m \<and> sha256_hex (m_data m) = g
      \<and> ls_generation_id v = g \<and> ls_solution_id v = m_solution_id m \<and> ls_project_id v = m_project_id m
      \<and> list_all2 (\<lambda>e x. \<exists>raw. shard_of loads e raw x) (sort_key me_path (m_files m)) (ls_shards v))"

lemma shard_of_freeze: "shard_of loads e raw (x\<lparr>sh_document := freeze (sh_document x)\<rparr>) = shard_of loads e raw x"
  by (simp add: shard_of_def freeze_denotes)

lemma content_of_freeze: "content_of loads g (freeze_snapshot v) m = content_of loads g v m"
  by (simp add: content_of_def freeze_snapshot_def list_all2_map2 shard_of_freeze)

lemma freeze_snapshot_ids [simp]:
  "ls_project_id (freeze_snapshot v) = ls_project_id v" "ls_solution_id (freeze_snapshot v) = ls_solution_id v"
  by (simp_all add: freeze_snapshot_def)

lemma copy_generation_solution:
  "copy_generation cf loads h read s = Inr c \<Longrightarrow> cg_solution_id c = m_solution_id (cg_manifest c)"
  by (auto simp: copy_generation_def bind_result_eq_Inr)

lemma copied_all_entries:
  assumes "copy_shards cf h read location m None limits = Inr cs"
  shows "list_all2 (copy_of (effective_limits limits)) (sort_key me_path (m_files m)) cs"
proof -
  obtain es where es: "selected_entries m None = Inr es"
    "list_all2 (\<lambda>e c. copy_shard cf h read location m limits e = Inr c) es cs"
    using copy_shards_Inr [OF assms] by blast
  have "es = sort_key me_path (m_files m)" using es(1) by (simp add: selected_entries_def split: if_splits)
  moreover have "list_all2 (copy_of (effective_limits limits)) es cs"
    using es(2) by (rule list_all2_mono) (rule conjunct1 [OF copy_shard_Inr])
  ultimately show ?thesis by simp
qed

text \<open>The manifest file of a location's generation, as the machine has it.\<close>

definition manifest_file :: "read_world \<Rightarrow> snapshot_location \<Rightarrow> string \<Rightarrow> string option" where
  "manifest_file w location g =
     (case generation_root (sl_root location) g of Inl _ \<Rightarrow> None | Inr d \<Rightarrow> h_read (rw_host w) (joinpath d MANIFEST_FILENAME))"

lemma guarded_load_content:
  assumes "snd (guarded_load w src location (Some g)) = Inr v"
  shows "\<exists>m. content_of (rw_loads w) g v m \<and> manifest_file w location g = Some (m_data m)
    \<and> int (length (m_data m)) \<le> rl_max_manifest_bytes (se_limits (source_session src location (Some g)))"
proof -
  let ?s = "source_session src location (Some g)"
  obtain g' where "session_load (rw_fold w) (rw_loads w) (rw_host w) (read_bounded (rw_host w)) ?s (rw_waits w 0)
      (rw_started w) (rw_ended w) = (g', Inr v)"
    using assms by (auto simp: guarded_load_def split: sum.splits prod.splits)
  then obtain c verified where load: "copy_generation (rw_fold w) (rw_loads w) (rw_host w) (read_bounded (rw_host w)) ?s = Inr c"
    "verify_copied (rw_loads w) (cg_manifest c) (cg_shards c) = Inr verified"
    "v = snapshot_of c verified (rw_started w) (rw_ended w)"
    by (rule session_load_Inr) blast
  obtain d m data where c: "generation_root (sl_root location) (cg_generation_id c) = Inr d"
    "h_read (rw_host w) (joinpath d MANIFEST_FILENAME) = Some data" "load_manifest_bytes (rw_loads w) data = Inr m"
    "cg_manifest c = m" "cg_generation_id c = sha256_hex data" "cg_project_id c = m_project_id m" "cg_generation_id c = g"
    "int (length data) \<le> rl_max_manifest_bytes (se_limits ?s)"
    and shards: "copy_shards (rw_fold w) (rw_host w) (read_bounded (rw_host w)) location m None
        (Some (rl_shard_limits (se_limits ?s))) = Inr (cg_shards c)"
    using copy_generation_Inr [OF load(1)] by (auto simp: source_session_def)
  have m: "m_data m = data" "manifest_ok m" using load_manifest_bytes_ok [OF c(3)] by simp_all
  have dist: "distinct (map me_path (m_files m))" using m(2) by (simp add: manifest_ok_def files_ok_def)
  note all = copied_all_entries [OF shards]
  have "list_all2 (\<lambda>(e, c) s. shard_of (rw_loads w) e (cs_raw c) s) (zip (sort_key me_path (m_files m)) (cg_shards c)) verified"
    by (rule verify_copied_Inr [OF load(2) [unfolded c(4)] dist all]) simp
  then have "list_all2 (\<lambda>e x. \<exists>raw. shard_of (rw_loads w) e raw x) (sort_key me_path (m_files m)) verified"
    using list_all2_lengthD [OF all] by (auto simp: list_all2_conv_all_nth)
  then have "content_of (rw_loads w) g v m"
    using c m copy_generation_solution [OF load(1)] by (simp add: content_of_def load(3) snapshot_of_def)
  moreover have "manifest_file w location g = Some (m_data m)" using c m by (simp add: manifest_file_def)
  ultimately show ?thesis using c(8) m(1) by blast
qed

section \<open>The contract of a source\<close>

text \<open>
  What the tools rely on: a state-passing load keeps its source valid, and serves only what \<open>holds\<close> of
  the location and the generation asked for. A registered source also serves the location's own project.
\<close>

locale pinned_source =
  fixes load :: "'s \<Rightarrow> snapshot_location \<Rightarrow> string \<Rightarrow> 's \<times> (read_failure + loaded_snapshot)"
    and ok :: "'s \<Rightarrow> bool"
    and holds :: "snapshot_location \<Rightarrow> string \<Rightarrow> loaded_snapshot \<Rightarrow> bool"
  assumes load_ok: "ok s \<Longrightarrow> ok (fst (load s l g))"
    and load_holds: "ok s \<Longrightarrow> snd (load s l g) = Inr v \<Longrightarrow> holds l g v"
    and holds_generation: "holds l g v \<Longrightarrow> ls_generation_id v = g"

locale project_source = pinned_source +
  assumes holds_project: "holds l g v \<Longrightarrow> ls_project_id v = sl_project_id l"

definition serves :: "(string \<Rightarrow> pyval option) \<Rightarrow> snapshot_location \<Rightarrow> string \<Rightarrow> loaded_snapshot \<Rightarrow> bool" where
  "serves loads l g v = (\<exists>m. content_of loads g v m)"

definition serves_own :: "(string \<Rightarrow> pyval option) \<Rightarrow> snapshot_location \<Rightarrow> string \<Rightarrow> loaded_snapshot \<Rightarrow> bool" where
  "serves_own loads l g v =
     ((\<exists>m. content_of loads g v m) \<and> ls_project_id v = sl_project_id l \<and> ls_solution_id v = sl_solution_id l)"

definition guarded_step ::
    "read_world \<Rightarrow> guarded_source \<Rightarrow> unit \<Rightarrow> snapshot_location \<Rightarrow> string \<Rightarrow> unit \<times> (read_failure + loaded_snapshot)" where
  "guarded_step w src s l g = (s, snd (guarded_load w src l (Some g)))"

interpretation guarded: pinned_source "guarded_step w src" "\<lambda>_. True" "serves (rw_loads w)" for w src
proof unfold_locales
  show "snd (guarded_step w src s l g) = Inr v \<Longrightarrow> serves (rw_loads w) l g v" for s l g v
    using guarded_load_content [of w src l g v] by (auto simp: guarded_step_def serves_def)
  show "serves (rw_loads w) l g v \<Longrightarrow> ls_generation_id v = g" for l g v
    by (auto simp: serves_def content_of_def)
qed simp_all

section \<open>The retained generations\<close>

text \<open>Every retained value is the content of the generation its key names, of the key's project.\<close>

definition entry_right :: "(string \<Rightarrow> pyval option) \<Rightarrow> source_key \<Rightarrow> loaded_snapshot \<Rightarrow> bool" where
  "entry_right loads k v =
     (case k of (_, _, solution, project, _, _, _, g) \<Rightarrow>
        (\<exists>m. content_of loads g v m) \<and> ls_solution_id v = solution \<and> ls_project_id v = project)"

definition kept_right :: "(string \<Rightarrow> pyval option) \<Rightarrow> source_key retention option \<Rightarrow> bool" where
  "kept_right loads kept =
     (\<exists>r. kept = Some r \<and> retention_ok r \<and> (\<forall>k v. retained r k = Some v \<longrightarrow> entry_right loads k v))"

lemma entry_right_freeze: "entry_right loads k (freeze_snapshot v) = entry_right loads k v"
  by (simp add: entry_right_def content_of_freeze split: prod.split)

lemma kept_right_put:
  assumes "kept_right loads (Some r)" "entry_right loads k v" "retention_put fp r k v = Inr r'"
  shows "kept_right loads (Some r')"
proof -
  have r: "retention_ok r" "\<And>x y. retained r x = Some y \<Longrightarrow> entry_right loads x y"
    using assms(1) by (auto simp: kept_right_def)
  have "put_or_keep fp r k v = r'" using assms(3) by (simp add: put_or_keep_def)
  moreover have "entry_right loads x y" if "retained (put_or_keep fp r k v) x = Some y" for x y
    using put_or_keep_retained [OF r(1) that] r(2) [of x y] assms(2) entry_right_freeze [of loads k v] by blast
  ultimately show ?thesis using put_or_keep_ok [OF r(1), of fp k v] unfolding kept_right_def by blast
qed

lemma kept_right_get: "kept_right loads (Some r) \<Longrightarrow> kept_right loads (Some (fst (retention_get r k)))"
  by (auto simp: kept_right_def retention_get_ok retention_get_same)

lemma under_reader_Inr:
  assumes "under_reader w turn body = Inr x"
  shows "body = Inr x"
proof -
  have "ordered GuardFailed new_guard READER_SPECS [''admission.lock''] (PInt 1) (rw_waits w turn) (\<lambda>g. (g, body))
      = (fst (ordered GuardFailed new_guard READER_SPECS [''admission.lock''] (PInt 1) (rw_waits w turn) (\<lambda>g. (g, body))), Inr x)"
    using assms by (simp add: under_reader_def prod_eq_iff)
  then show ?thesis by (cases rule: ordered_cases) auto
qed

lemma selected_manifest_Inr:
  assumes "selected_manifest w location g = Inr m"
  shows "\<exists>data. manifest_file w location g = Some data \<and> m_data m = take (4 * 1024 * 1024 + 1) data
    \<and> load_manifest_bytes (rw_loads w) (m_data m) = Inr m \<and> sha256_hex (m_data m) = g
    \<and> m_solution_id m = sl_solution_id location \<and> m_project_id m = sl_project_id location"
proof -
  obtain d raw where d: "generation_root (sl_root location) g = Inr d"
    "read_bounded (rw_host w) (joinpath d MANIFEST_FILENAME) (4 * 1024 * 1024) = Inr raw"
    "load_manifest_bytes (rw_loads w) raw = Inr m"
    and m: "manifest_generation_id m = g" "m_solution_id m = sl_solution_id location" "m_project_id m = sl_project_id location"
    using assms by (auto simp: selected_manifest_def bind_result_eq_Inr split: if_splits)
  from d(2) obtain data where data: "h_read (rw_host w) (joinpath d MANIFEST_FILENAME) = Some data"
    "raw = take (4 * 1024 * 1024 + 1) data"
    by (auto simp: read_bounded_def split: option.splits)
  have "m_data m = raw" using load_manifest_bytes_ok [OF d(3)] by simp
  then show ?thesis using d data m by (auto simp: manifest_file_def manifest_generation_id_def)
qed

lemma loaded_entry_right:
  assumes "selected_manifest w location g = Inr m" "snd (guarded_load w src location (Some g)) = Inr v" "gd_limits src = None"
  shows "entry_right (rw_loads w) (retention_key real_root real_guard location m g) v"
proof -
  obtain data where sel: "manifest_file w location g = Some data" "m_data m = take (4 * 1024 * 1024 + 1) data"
    "load_manifest_bytes (rw_loads w) (m_data m) = Inr m"
    "m_solution_id m = sl_solution_id location" "m_project_id m = sl_project_id location"
    using selected_manifest_Inr [OF assms(1)] by blast
  obtain n where n: "content_of (rw_loads w) g v n" "manifest_file w location g = Some (m_data n)"
    "int (length (m_data n)) \<le> 4 * 1024 * 1024"
    using guarded_load_content [OF assms(2)] assms(3) by (auto simp: source_session_def default_read_limits_def)
  then have "m_data m = m_data n" using sel(1,2) by simp
  then have "n = m" using sel(3) n(1) by (simp add: content_of_def)
  with n(1) sel(4,5) show ?thesis by (auto simp: entry_right_def retention_key_def content_of_def)
qed

lemma cached_load_right:
  assumes "kept_right (rw_loads w) (Some r)" "selected_manifest w location g = Inr m" "gd_limits src = None"
    "key = retention_key real_root real_guard location m g"
  shows "kept_right (rw_loads w) (Some (fst (cached_load fp w src r location g key)))
    \<and> (\<forall>v. snd (cached_load fp w src r location g key) = Inr v \<longrightarrow> entry_right (rw_loads w) key v)"
proof -
  obtain r' hit where get: "retention_get r key = (r', hit)" by force
  have ok: "kept_right (rw_loads w) (Some r')" using kept_right_get [OF assms(1), of key] get by simp
  show ?thesis
  proof (cases hit)
    case (Some v)
    have "retained r key = Some v" using retention_get_found [of r key] get Some by simp
    with assms(1) have "entry_right (rw_loads w) key v" unfolding kept_right_def by blast
    with ok get Some show ?thesis by (simp add: cached_load_def)
  next
    case None
    show ?thesis
    proof (cases "snd (guarded_load w src location (Some g))")
      case (Inl e)
      with ok get None show ?thesis by (simp add: cached_load_def)
    next
      case (Inr v)
      have right: "entry_right (rw_loads w) key v"
        unfolding assms(4) by (rule loaded_entry_right [OF assms(2) Inr assms(3)])
      show ?thesis
        using get None Inr ok right kept_right_put [OF ok right, of fp]
        by (cases "retention_put fp r' key v") (simp_all add: cached_load_def)
    qed
  qed
qed

lemma source_for_limits: "source_for registry location = Inr src \<Longrightarrow> gd_limits src = None"
  by (auto simp: source_for_def bind_result_eq_Inr)

lemma registered_load_right:
  assumes "kept_right (rw_loads w) kept"
  shows "kept_right (rw_loads w) (fst (registered_load_pinned fp w registry kept location g))
    \<and> (\<forall>v. snd (registered_load_pinned fp w registry kept location g) = Inr v \<longrightarrow> serves_own (rw_loads w) location g v)"
proof -
  obtain r where r: "kept = Some r" using assms by (auto simp: kept_right_def)
  show ?thesis
  proof (cases "source_for registry location")
    case (Inl e)
    with assms show ?thesis by (simp add: registered_load_pinned_def)
  next
    case src: (Inr src)
    show ?thesis
    proof (cases "under_reader w 1 (selected_manifest w location g)")
      case (Inl e)
      with assms src r show ?thesis by (simp add: registered_load_pinned_def)
    next
      case (Inr m)
      note cached = cached_load_right [OF assms [unfolded r] under_reader_Inr [OF Inr] source_for_limits [OF src] refl]
      show ?thesis
        using assms src r Inr cached
        by (cases "h_resolve (rw_host w) (sl_root location)"; cases "h_resolve (rw_host w) (gd_guard_dir src)")
          (simp_all add: registered_load_pinned_def entry_right_def retention_key_def serves_own_def)
    qed
  qed
qed

lemma serves_own_generation: "serves_own loads l g v \<Longrightarrow> ls_generation_id v = g"
  by (auto simp: serves_own_def content_of_def)

interpretation registered: project_source "registered_load_pinned fp w registry" "kept_right (rw_loads w)" "serves_own (rw_loads w)"
  for fp w registry
  by unfold_locales
    (simp add: registered_load_right, use registered_load_right in blast,
     auto simp: serves_own_def content_of_def)

section \<open>Nothing stays locked\<close>

text \<open>
  However a load by the guarded source ends, refused, failed or served, the guard it used holds
  nothing afterwards and is closed: also where entering the guard was refused half way, which alone
  would leave the admission guard held.
\<close>

theorem guarded_load_releases:
  "held (fst (guarded_load w src location pinned)) = []
   \<and> (closed (fst (guarded_load w src location pinned)) \<longleftrightarrow> is_ok (resolve_timeout_ms (gd_timeout_ms src)))"
  by (cases "resolve_timeout_ms (gd_timeout_ms src)")
    (simp_all add: guarded_load_def close_def release_all_held new_guard_def split: prod.split)

text \<open>
  C16. What the registered source serves, from disk or from the retention, is the content of exactly the
  generation asked for and of the location's own solution and project; and it keeps every retained
  generation so. The retention never turns into another answer.
\<close>

theorem registered_source_serves_pinned:
  assumes "kept_right (rw_loads w) kept" "registered_load_pinned fp w registry kept location g = (kept', r)"
  shows "kept_right (rw_loads w) kept'
    \<and> (\<forall>v. r = Inr v \<longrightarrow> (\<exists>m. content_of (rw_loads w) g v m) \<and> ls_generation_id v = g
          \<and> ls_project_id v = sl_project_id location \<and> ls_solution_id v = sl_solution_id location)"
proof -
  have "kept_right (rw_loads w) kept'"
    using registered.load_ok [OF assms(1), of fp registry location g] assms(2) by simp
  moreover have "serves_own (rw_loads w) location g v" if "r = Inr v" for v
    using registered.load_holds [OF assms(1), of fp registry location g] assms(2) that by simp
  ultimately show ?thesis using serves_own_generation [of "rw_loads w" location g] by (simp add: serves_own_def)
qed

end
