(* ===== verification/Tools.thy ===== *)
theory Tools
  imports Source Catalog Cursor Facts
begin

text \<open>
  \<open>tools/context.py\<close> and \<open>tools/catalog.py\<close>: the closed arguments of a tool call, the caller it is
  re-authorised for, and the context every handler runs in. The arguments are a JSON object. An
  \<open>AxiomError\<close> is its code, its message and details left out; an exception that is not one passes
  through the handler as a case of its own. The snapshot source is an argument \<open>load\<close> with a state, as
  the code takes any \<open>SnapshotSource\<close>.
\<close>

datatype tool_failure =
    AxiomError string
  | ReadFailed read_failure
  | CatalogFailed catalog_failure
  | QueryFailed query_error
  | RegistryRaised registry_error

definition CAPABILITY_READ :: string where "CAPABILITY_READ = ''read''"
definition CAPABILITY_RECONCILE :: string where "CAPABILITY_RECONCILE = ''reconcile''"
definition CAPABILITY_CHECKPOINT :: string where "CAPABILITY_CHECKPOINT = ''checkpoint''"

definition validation :: tool_failure where "validation = AxiomError ''VALIDATION_ERROR''"
definition not_found :: tool_failure where "not_found = AxiomError ''NOT_FOUND''"
definition forbidden :: tool_failure where "forbidden = AxiomError ''FORBIDDEN''"
definition limit_exceeded :: tool_failure where "limit_exceeded = AxiomError ''LIMIT_EXCEEDED''"
definition snapshot_unavailable :: tool_failure where "snapshot_unavailable = AxiomError ''SNAPSHOT_UNAVAILABLE''"

section \<open>The tool catalog\<close>

record tool_spec =
  ts_name :: string
  ts_capability :: string
  ts_registering_task :: string
  ts_read_only :: bool
  ts_destructive :: bool
  ts_open_world :: bool

definition tool_annotations :: "tool_spec \<Rightarrow> (string, bool) dict" where
  "tool_annotations t =
     [(''readOnlyHint'', ts_read_only t), (''destructiveHint'', ts_destructive t), (''openWorldHint'', ts_open_world t)]"

definition tool_entry :: "string \<Rightarrow> string \<Rightarrow> string \<Rightarrow> bool \<Rightarrow> bool \<Rightarrow> tool_spec" where
  "tool_entry name capability task read_only open_world =
     \<lparr>ts_name = name, ts_capability = capability, ts_registering_task = task, ts_read_only = read_only,
      ts_destructive = False, ts_open_world = open_world\<rparr>"

definition TOOL_SPECS :: "tool_spec list" where
  "TOOL_SPECS =
     [tool_entry ''graph_status'' CAPABILITY_READ ''C-028'' True False,
      tool_entry ''graph_query'' CAPABILITY_READ ''C-029'' True False,
      tool_entry ''graph_reconcile'' CAPABILITY_RECONCILE ''C-030'' False True,
      tool_entry ''graph_job'' CAPABILITY_RECONCILE ''C-031'' False True,
      tool_entry ''graph_verify'' CAPABILITY_CHECKPOINT ''C-032'' False True,
      tool_entry ''graph_version'' CAPABILITY_READ ''C-033'' True True]"

definition tool_names :: "string list" where
  "tool_names = map ts_name TOOL_SPECS"

text \<open>\<open>None\<close> is \<open>UnknownTool\<close>.\<close>

definition spec_for :: "string \<Rightarrow> tool_spec option" where
  "spec_for name = find (\<lambda>t. ts_name t = name) TOOL_SPECS"

section \<open>Arguments\<close>

type_synonym arguments = "(string, pyval) dict"

definition closed_arguments :: "arguments \<Rightarrow> string list \<Rightarrow> tool_failure + unit" where
  "closed_arguments args allowed = guard_result (list_all (\<lambda>k. k \<in> set allowed) (dict_keys args)) validation"

definition require_text :: "arguments \<Rightarrow> string \<Rightarrow> tool_failure + string" where
  "require_text args key =
     (case get_field args key of
        PStr s \<Rightarrow> if strip s = [] then Inl validation else Inr (strip s)
      | _ \<Rightarrow> Inl validation)"

definition identifier_argument :: "arguments \<Rightarrow> string \<Rightarrow> tool_failure + string" where
  "identifier_argument args key =
     bind_result (require_text args key) (\<lambda>raw.
       raising (\<lambda>_. validation) (identifier_text (PStr raw) QueryModelError))"

definition optional_int :: "arguments \<Rightarrow> string \<Rightarrow> int option \<Rightarrow> int option \<Rightarrow> int option \<Rightarrow> tool_failure + int option" where
  "optional_int args key dflt minimum maximum =
     (case get_field args key of
        PNone \<Rightarrow> Inr dflt
      | PInt i \<Rightarrow>
          if (case minimum of None \<Rightarrow> False | Some m \<Rightarrow> i < m) then Inl limit_exceeded
          else if (case maximum of None \<Rightarrow> False | Some m \<Rightarrow> i > m) then Inl limit_exceeded
          else Inr (Some i)
      | _ \<Rightarrow> Inl validation)"

definition optional_bool :: "arguments \<Rightarrow> string \<Rightarrow> bool \<Rightarrow> tool_failure + bool" where
  "optional_bool args key dflt =
     (case get_field args key of PNone \<Rightarrow> Inr dflt | PBool b \<Rightarrow> Inr b | _ \<Rightarrow> Inl validation)"

definition add_requested :: "string list \<Rightarrow> pyval \<Rightarrow> tool_failure + string list" where
  "add_requested seen item =
     (case item of
        PStr s \<Rightarrow>
          if strip s = [] then Inl validation
          else bind_result (raising (\<lambda>_. validation) (identifier_text (PStr s) QueryModelError)) (\<lambda>resolved.
            Inr (if resolved \<in> set seen then seen else seen @ [resolved]))
      | _ \<Rightarrow> Inl validation)"

definition project_scope :: "arguments \<Rightarrow> tool_failure + string list option" where
  "project_scope args =
     (let single = get_field args ''project_id''; many = get_field args ''project_ids'' in
      if single \<noteq> PNone \<and> many \<noteq> PNone then Inl validation
      else if single \<noteq> PNone then bind_result (identifier_argument args ''project_id'') (\<lambda>p. Inr (Some [p]))
      else if many \<noteq> PNone then
        (case many of
           PList items \<Rightarrow>
             bind_result (fold_result add_requested [] items) (\<lambda>seen.
               if seen = [] then Inl validation else Inr (Some seen))
         | _ \<Rightarrow> Inl validation)
      else Inr None)"

section \<open>The caller\<close>

record principal =
  pr_token_id :: string
  pr_capabilities :: "string list"
  pr_solution_ids :: "string list"
  pr_project_ids :: "string list option"

definition visible :: "principal \<Rightarrow> string \<Rightarrow> bool" where
  "visible p solution_id = (solution_id \<in> set (pr_solution_ids p))"

definition require_access ::
    "principal \<Rightarrow> string \<Rightarrow> string option \<Rightarrow> string list option \<Rightarrow> tool_failure + unit" where
  "require_access p capability solution_id project_ids =
     (if capability \<notin> set (pr_capabilities p) then Inl forbidden
      else (case solution_id of
          None \<Rightarrow> Inr ()
        | Some s \<Rightarrow>
            if \<not> visible p s then Inl not_found
            else (case (pr_project_ids p, project_ids) of
                (Some permitted, Some wanted) \<Rightarrow>
                  if wanted \<noteq> [] \<and> \<not> set wanted \<subseteq> set permitted then Inl forbidden else Inr ()
              | _ \<Rightarrow> Inr ())))"

section \<open>The context\<close>

datatype control_answer = Accepted pyval | Refused string | Broken string

text \<open>
  The control plane is what each of its operations answers: a payload, an \<open>AxiomError\<close> of a code, or any
  other exception, named by its type.
\<close>

record control_plane =
  cp_status :: "string \<Rightarrow> control_answer"
  cp_reconcile :: "(string, pyval) dict \<Rightarrow> control_answer"
  cp_job :: "string \<Rightarrow> string \<Rightarrow> int \<Rightarrow> control_answer"
  cp_verify :: "(string, pyval) dict \<Rightarrow> control_answer"

record tool_context =
  tc_registry :: snapshot_registry
  tc_principal :: principal
  tc_control :: "control_plane option"
  tc_clock :: rat
  tc_cursors :: cursor_store

definition add_new :: "string list \<Rightarrow> string \<Rightarrow> string list" where
  "add_new acc p = (if p \<in> set acc then acc else acc @ [p])"

definition solution_projects :: "tool_context \<Rightarrow> string \<Rightarrow> tool_failure + string list" where
  "solution_projects ctx solution_id =
     bind_result (raising RegistryRaised (find_solution (tc_registry ctx) solution_id)) (\<lambda>binding.
       Inr (foldl add_new [] (concat (map rb_project_ids (sb_repositories binding)))))"

definition resolve_projects ::
    "tool_context \<Rightarrow> string \<Rightarrow> string list option \<Rightarrow> tool_failure + string list" where
  "resolve_projects ctx solution_id requested =
     bind_result (solution_projects ctx solution_id) (\<lambda>available.
       (case (requested, pr_project_ids (tc_principal ctx)) of
          (None, Some granted) \<Rightarrow> Inr (filter (\<lambda>p. p \<in> set granted) available)
        | (None, None) \<Rightarrow> Inr available
        | (Some wanted, granted) \<Rightarrow>
            if list_all (\<lambda>p. p \<in> set available \<and> (case granted of None \<Rightarrow> True | Some g \<Rightarrow> p \<in> set g)) wanted
            then Inr wanted else Inl not_found))"

definition open_solution :: "tool_context \<Rightarrow> string \<Rightarrow> tool_failure + unit" where
  "open_solution ctx solution_id =
     bind_result (require_access (tc_principal ctx) CAPABILITY_READ (Some solution_id) None) (\<lambda>_.
     bind_result (raising (\<lambda>_. not_found) (find_solution (tc_registry ctx) solution_id)) (\<lambda>_. Inr ()))"

text \<open>How a load's failure leaves the handler.\<close>

definition load_failure :: "read_failure \<Rightarrow> tool_failure" where
  "load_failure e =
     (case e of RegistryFailed _ \<Rightarrow> not_found | FileNotFound \<Rightarrow> snapshot_unavailable | _ \<Rightarrow> ReadFailed e)"

definition load_pinned_project ::
    "('s \<Rightarrow> snapshot_location \<Rightarrow> string \<Rightarrow> 's \<times> (read_failure + loaded_snapshot)) \<Rightarrow> tool_context \<Rightarrow> 's
       \<Rightarrow> string \<Rightarrow> string \<Rightarrow> string \<Rightarrow> string \<Rightarrow> 's \<times> (tool_failure + loaded_snapshot)" where
  "load_pinned_project load ctx s solution_id project_id lane g =
     (case require_access (tc_principal ctx) CAPABILITY_READ (Some solution_id) (Some [project_id]) of
        Inl e \<Rightarrow> (s, Inl e)
      | Inr _ \<Rightarrow>
          (case find_location (tc_registry ctx) solution_id project_id lane of
             Inl _ \<Rightarrow> (s, Inl not_found)
           | Inr location \<Rightarrow> map_prod id (raising load_failure) (load s location g)))"

text \<open>\<open>load_project\<close>: the pointer's generation. Here a \<open>RegistryError\<close> of the load itself passes through.\<close>

definition load_project ::
    "('s \<Rightarrow> snapshot_location \<Rightarrow> 's \<times> (read_failure + loaded_snapshot)) \<Rightarrow> tool_context \<Rightarrow> 's
       \<Rightarrow> string \<Rightarrow> string \<Rightarrow> string \<Rightarrow> 's \<times> (tool_failure + loaded_snapshot)" where
  "load_project load ctx s solution_id project_id lane =
     (case require_access (tc_principal ctx) CAPABILITY_READ (Some solution_id) (Some [project_id]) of
        Inl e \<Rightarrow> (s, Inl e)
      | Inr _ \<Rightarrow>
          (case find_location (tc_registry ctx) solution_id project_id lane of
             Inl _ \<Rightarrow> (s, Inl not_found)
           | Inr location \<Rightarrow>
               map_prod id (raising (\<lambda>e. if e = FileNotFound then snapshot_unavailable else ReadFailed e)) (load s location)))"

section \<open>Authorisation\<close>

lemma require_access_Inr:
  "require_access p capability (Some s) projects = Inr () \<longleftrightarrow>
     capability \<in> set (pr_capabilities p) \<and> s \<in> set (pr_solution_ids p)
     \<and> (\<forall>granted wanted. pr_project_ids p = Some granted \<longrightarrow> projects = Some wanted \<longrightarrow> set wanted \<subseteq> set granted)"
  by (auto simp: require_access_def visible_def split: option.splits)

lemma set_add_new: "set (foldl add_new acc ps) = set acc \<union> set ps"
  by (induction ps arbitrary: acc) (auto simp: add_new_def)

lemma distinct_add_new: "distinct acc \<Longrightarrow> distinct (foldl add_new acc ps)"
  by (induction ps arbitrary: acc) (auto simp: add_new_def)

text \<open>What a caller may read of a solution: the projects the registry declares, within its own scope.\<close>

definition granted :: "tool_context \<Rightarrow> string \<Rightarrow> string set" where
  "granted ctx solution_id =
     {p. CAPABILITY_READ \<in> set (pr_capabilities (tc_principal ctx)) \<and> solution_id \<in> set (pr_solution_ids (tc_principal ctx))
        \<and> (\<forall>ps. pr_project_ids (tc_principal ctx) = Some ps \<longrightarrow> p \<in> set ps)
        \<and> (\<exists>repo. declares (tc_registry ctx) solution_id p repo)}"

lemma solution_projects_Inr:
  assumes "solution_projects ctx solution_id = Inr ps"
  shows "distinct ps \<and> (\<exists>b. find_solution (tc_registry ctx) solution_id = Inr b
    \<and> set ps = (\<Union>repo \<in> set (sb_repositories b). set (rb_project_ids repo)))"
  using assms by (auto simp: solution_projects_def bind_result_eq_Inr set_add_new distinct_add_new)

lemma resolve_projects_granted:
  assumes "open_solution ctx solution = Inr u" "resolve_projects ctx solution requested = Inr ps"
  shows "set ps \<subseteq> granted ctx solution"
proof -
  have access: "CAPABILITY_READ \<in> set (pr_capabilities (tc_principal ctx))"
    "solution \<in> set (pr_solution_ids (tc_principal ctx))"
    using assms(1) by (auto simp: open_solution_def bind_result_eq_Inr require_access_Inr)
  obtain available where av: "solution_projects ctx solution = Inr available"
    using assms(2) by (auto simp: resolve_projects_def bind_result_eq_Inr)
  obtain b where b: "find_solution (tc_registry ctx) solution = Inr b"
    "set available = (\<Union>repo \<in> set (sb_repositories b). set (rb_project_ids repo))"
    using solution_projects_Inr [OF av] by blast
  have "b \<in> set (sr_solutions (tc_registry ctx)) \<and> sb_solution_id b = solution"
    using b(1) by (auto simp: find_solution_def dest!: find_Some_member split: option.splits)
  then have "\<exists>repo. declares (tc_registry ctx) solution p repo" if "p \<in> set available" for p
    using that b(2) unfolding declares_def by blast
  moreover have "p \<in> set available \<and> (\<forall>ps. pr_project_ids (tc_principal ctx) = Some ps \<longrightarrow> p \<in> set ps)" if "p \<in> set ps" for p
    using assms(2) that av by (auto simp: resolve_projects_def list_all_iff split: option.splits if_splits)
  ultimately show ?thesis using access by (auto simp: granted_def)
qed

end
