(* ===== verification/Query.thy ===== *)
theory Query
  imports Tools PathFacts Callers Search Changes Envelope Budget
begin

text \<open>
  \<open>tools/query.py\<close>, with \<open>graph_from_snapshot\<close> of \<open>query/model.py\<close>: the \<open>graph_query\<close> tool from its
  arguments to the packed answer. A warning keeps its tag and values until the envelope words it. The
  tool returns the source it leaves, the reconcile requests it sent to the control plane, and the
  answer or the failure.
\<close>

section \<open>The pinned scope\<close>

text \<open>The nodes, edges and coverage collected from the shards so far.\<close>

definition add_shard ::
    "pyval list \<times> pyval list \<times> (string, pyval) dict option \<Rightarrow> shard
       \<Rightarrow> (pyval list \<times> pyval list \<times> (string, pyval) dict option) result" where
  "add_shard acc x =
     (case acc of (nodes, edges, coverage) \<Rightarrow>
        if sh_role x = ''nodes'' then
          bind_result (tuple_of (denotes (sh_document x))) (\<lambda>items. Inr (nodes @ items, edges, coverage))
        else if sh_role x = ''edges'' then
          bind_result (tuple_of (denotes (sh_document x))) (\<lambda>items. Inr (nodes, edges @ items, coverage))
        else if sh_role x = ''coverage'' then
          bind_result (dict_of_item (denotes (sh_document x))) (\<lambda>c. Inr (nodes, edges, Some c))
        else Inr acc)"

definition graph_from_snapshot :: "loaded_snapshot \<Rightarrow> graph result" where
  "graph_from_snapshot v =
     bind_result (fold_result add_shard ([], [], None) (ls_shards v)) (\<lambda>acc.
       (case acc of (nodes, edges, coverage) \<Rightarrow>
          graph_from_documents (ls_project_id v) (ls_generation_id v) nodes edges coverage None))"

text \<open>\<open>GraphSet(graph_from_snapshot(snapshot) for snapshot in snapshots)\<close>: each graph is built when the set takes it.\<close>

definition scope_of_snapshots :: "loaded_snapshot list \<Rightarrow> graph_set result" where
  "scope_of_snapshots vs =
     bind_result (fold_result (\<lambda>acc v. bind_result (graph_from_snapshot v) (set_add_graph acc)) empty_graph_set vs)
       (\<lambda>gs. set_missing gs [])"

definition QUERY_LANE :: string where "QUERY_LANE = ''live''"

type_synonym 's loader = "'s \<Rightarrow> snapshot_location \<Rightarrow> string \<Rightarrow> 's \<times> (read_failure + loaded_snapshot)"

fun load_members ::
    "'s loader \<Rightarrow> tool_context \<Rightarrow> string \<Rightarrow> member_pin list \<Rightarrow> 's \<Rightarrow> string list
       \<Rightarrow> 's \<times> (tool_failure + loaded_snapshot list)" where
  "load_members load ctx solution_id pins s [] = (s, Inr [])"
| "load_members load ctx solution_id pins s (p # ps) =
     (case find (\<lambda>pin. cm_project_id (mp_member pin) = p) pins of
        None \<Rightarrow> (s, Inl snapshot_unavailable)
      | Some pin \<Rightarrow>
          if \<not> pin_available pin then (s, Inl snapshot_unavailable)
          else
            (case load_pinned_project load ctx s solution_id p QUERY_LANE (cm_generation_id (mp_member pin)) of
               (s', Inl e) \<Rightarrow> (s', Inl e)
             | (s', Inr v) \<Rightarrow>
                 (case load_members load ctx solution_id pins s' ps of
                    (s'', Inl e) \<Rightarrow> (s'', Inl e)
                  | (s'', Inr vs) \<Rightarrow> (s'', Inr (v # vs)))))"

text \<open>The vector the catalog pins now, for every project the registry binds.\<close>

definition query_vector :: "read_world \<Rightarrow> tool_context \<Rightarrow> string \<Rightarrow> tool_failure + catalog_vector" where
  "query_vector w ctx solution_id =
     bind_result (raising RegistryRaised (find_catalog_location (tc_registry ctx) solution_id QUERY_LANE)) (\<lambda>location.
     bind_result (raising CatalogFailed (load_solution_catalog (rw_loads w) (rw_host w) location)) (\<lambda>c.
       raising CatalogFailed
         (pin_catalog (project_member_opener (rw_loads w) (rw_host w)
            (\<lambda>p. find_location (tc_registry ctx) solution_id p QUERY_LANE)) c)))"

definition load_scope ::
    "'s loader \<Rightarrow> read_world \<Rightarrow> tool_context \<Rightarrow> 's \<Rightarrow> string \<Rightarrow> string list \<Rightarrow> 's \<times> (tool_failure + graph_set)" where
  "load_scope load w ctx s solution_id projects =
     (case query_vector w ctx solution_id of
        Inl e \<Rightarrow> (s, Inl e)
      | Inr v \<Rightarrow>
          map_prod id (\<lambda>r. bind_result r (\<lambda>vs. raising QueryFailed (scope_of_snapshots vs)))
            (load_members load ctx solution_id (cv_pins v) s projects))"

section \<open>The request\<close>

definition QUERY_OPERATIONS :: "string list" where
  "QUERY_OPERATIONS = [''search'', ''context'', ''neighbors'', ''callers'', ''dependencies'', ''impact'',
     ''path'', ''changes'']"

definition GLOBAL_ARGUMENTS :: "string list" where
  "GLOBAL_ARGUMENTS = [''solution_id'', ''operation'', ''project_id'', ''project_ids'', ''max_bytes'',
     ''consistency'', ''cursor'', ''catalog_generation_id'']"

definition OPERATION_ARGUMENTS :: "(string, string list) dict" where
  "OPERATION_ARGUMENTS =
     [(''search'', [''query'', ''max_nodes'']),
      (''context'', [''target'', ''depth'', ''direction'', ''edge_kinds'', ''projection'', ''max_nodes'', ''max_edges'']),
      (''neighbors'', [''target'', ''depth'', ''direction'', ''edge_kinds'', ''projection'', ''max_nodes'', ''max_edges'']),
      (''dependencies'', [''target'', ''depth'', ''edge_kinds'', ''projection'', ''max_nodes'', ''max_edges'']),
      (''callers'', [''target'', ''depth'', ''edge_kinds'', ''projection'', ''max_nodes'', ''max_edges'']),
      (''impact'', [''target'', ''depth'', ''edge_kinds'', ''projection'', ''max_nodes'', ''max_edges'']),
      (''path'', [''target'', ''target_to'', ''depth'', ''direction'', ''edge_kinds'', ''projection'', ''max_nodes'',
         ''max_edges'']),
      (''changes'', [''baseline_catalog_generation_id''])]"

definition operation_arguments :: "string \<Rightarrow> string list" where
  "operation_arguments operation = (case dict_get OPERATION_ARGUMENTS operation of None \<Rightarrow> [] | Some ks \<Rightarrow> ks)"

definition PROJECTION_OPERATIONS :: "string list" where
  "PROJECTION_OPERATIONS = [''context'', ''neighbors'', ''dependencies'', ''callers'', ''impact'', ''path'']"

definition ALLOW_STALE :: string where "ALLOW_STALE = ''allow_stale''"
definition REQUIRE_FRESH :: string where "REQUIRE_FRESH = ''require_fresh''"
definition PINNED :: string where "PINNED = ''pinned''"
definition CONSISTENCIES :: "string list" where "CONSISTENCIES = [ALLOW_STALE, REQUIRE_FRESH, PINNED]"

definition operation_argument :: "arguments \<Rightarrow> tool_failure + string" where
  "operation_argument args =
     bind_result (require_text args ''operation'') (\<lambda>op.
       if op \<notin> set QUERY_OPERATIONS then Inl (AxiomError ''UNSUPPORTED_OPERATION'') else Inr op)"

definition add_choice :: "string list \<Rightarrow> string list \<Rightarrow> pyval \<Rightarrow> tool_failure + string list" where
  "add_choice allowed chosen item =
     (case item of
        PStr s \<Rightarrow> if s \<notin> set allowed then Inl validation else Inr (if s \<in> set chosen then chosen else chosen @ [s])
      | _ \<Rightarrow> Inl validation)"

definition choice_list_argument :: "arguments \<Rightarrow> string \<Rightarrow> string list \<Rightarrow> tool_failure + string list option" where
  "choice_list_argument args key allowed =
     (case get_field args key of
        PNone \<Rightarrow> Inr None
      | PList items \<Rightarrow> bind_result (fold_result (add_choice allowed) [] items) (\<lambda>chosen. Inr (Some chosen))
      | _ \<Rightarrow> Inl validation)"

definition consistency_argument :: "arguments \<Rightarrow> tool_failure + string" where
  "consistency_argument args =
     (case get_field args ''consistency'' of
        PNone \<Rightarrow> Inr ALLOW_STALE
      | PStr s \<Rightarrow> if s \<in> set CONSISTENCIES then Inr s else Inl validation
      | _ \<Rightarrow> Inl validation)"

definition pinned_generation :: "arguments \<Rightarrow> string \<Rightarrow> tool_failure + string option" where
  "pinned_generation args consistency =
     (let value = get_field args ''catalog_generation_id'' in
      if value = PNone then (if consistency = PINNED then Inl validation else Inr None)
      else bind_result (raising (\<lambda>_. validation) (sha256_text value QueryModelError)) (\<lambda>g. Inr (Some g)))"

text \<open>The sections a projection must ask for.\<close>

definition check_projection :: "arguments \<Rightarrow> string \<Rightarrow> tool_failure + unit" where
  "check_projection args operation =
     (if operation \<in> set PROJECTION_OPERATIONS \<and> get_field args ''projection'' \<noteq> PNone then
        bind_result (choice_list_argument args ''projection'' PROJECTIONS) (\<lambda>chosen.
          guard_result (''source_locations'' \<in> set (case chosen of None \<Rightarrow> [] | Some ss \<Rightarrow> ss)) validation)
      else Inr ())"

record budgets =
  bu_depth :: int
  bu_max_nodes :: int
  bu_max_edges :: int
  bu_max_bytes :: int

definition budget_argument :: "arguments \<Rightarrow> string \<Rightarrow> int \<Rightarrow> int \<Rightarrow> int \<Rightarrow> tool_failure + int" where
  "budget_argument args key dflt minimum maximum =
     bind_result (optional_int args key (Some dflt) (Some minimum) (Some maximum)) (\<lambda>v.
       Inr (case v of None \<Rightarrow> dflt | Some i \<Rightarrow> i))"

definition budgets_of :: "arguments \<Rightarrow> tool_failure + budgets" where
  "budgets_of args =
     bind_result (budget_argument args ''depth'' DEFAULT_DEPTH 0 MAX_DEPTH) (\<lambda>depth.
     bind_result (budget_argument args ''max_nodes'' DEFAULT_MAX_NODES 1 MAX_NODES) (\<lambda>nodes.
     bind_result (budget_argument args ''max_edges'' DEFAULT_MAX_EDGES 0 MAX_EDGES) (\<lambda>edges.
     bind_result (budget_argument args ''max_bytes'' DEFAULT_MAX_BYTES MIN_BYTES MAX_BYTES) (\<lambda>bytes.
       Inr \<lparr>bu_depth = depth, bu_max_nodes = nodes, bu_max_edges = edges, bu_max_bytes = bytes\<rparr>))))"

section \<open>Freshness and cursors\<close>

text \<open>The requests sent, and the failure \<open>require_fresh\<close> always ends in.\<close>

definition require_fresh ::
    "tool_context \<Rightarrow> string \<Rightarrow> string list \<Rightarrow> (string, pyval) dict list \<times> tool_failure" where
  "require_fresh ctx solution_id projects =
     (if CAPABILITY_RECONCILE \<notin> set (pr_capabilities (tc_principal ctx)) then ([], forbidden)
      else (case tc_control ctx of
          None \<Rightarrow> ([], AxiomError ''DAEMON_UNAVAILABLE'')
        | Some control \<Rightarrow>
            (let request = [(''solution_id'', PStr solution_id), (''project_ids'', strings projects),
                            (''scope'', PStr ''solution''), (''reason'', PStr ''require_fresh'')]
             in ([request],
                 (case cp_reconcile control request of
                    Refused code \<Rightarrow> AxiomError code
                  | Broken _ \<Rightarrow> AxiomError ''DAEMON_UNAVAILABLE''
                  | Accepted _ \<Rightarrow> AxiomError ''NOT_READY'')))))"

definition is_model_error :: "query_error \<Rightarrow> bool" where
  "is_model_error e = (e \<notin> {PyTypeError, PyValueError, Diverges, OutsideModel})"

definition CURSOR_CODES :: "(string, string) dict" where
  "CURSOR_CODES = [(''unknown'', ''NOT_FOUND''), (''expired'', ''CONFLICT''), (''generation'', ''SNAPSHOT_EXPIRED''),
     (''scope'', ''FORBIDDEN''), (''query'', ''VALIDATION_ERROR''), (''capability'', ''FORBIDDEN'')]"

definition cursor_failure :: "query_error \<Rightarrow> tool_failure" where
  "cursor_failure e =
     (case e of
        CursorError reason \<Rightarrow>
          AxiomError (case dict_get CURSOR_CODES reason of None \<Rightarrow> ''VALIDATION_ERROR'' | Some code \<Rightarrow> code)
      | _ \<Rightarrow> if is_model_error e then not_found else QueryFailed e)"

definition cursor_query :: "arguments \<Rightarrow> string \<Rightarrow> (string, pyval) dict" where
  "cursor_query args operation =
     concat (map (\<lambda>f. case dict_get args f of None \<Rightarrow> [] | Some v \<Rightarrow> [(f, v)]) (operation_arguments operation))"

definition check_cursor ::
    "tool_context \<Rightarrow> arguments \<Rightarrow> string \<Rightarrow> string \<Rightarrow> string list \<Rightarrow> tool_failure + unit" where
  "check_cursor ctx args operation generation projects =
     (if get_field args ''cursor'' = PNone then Inr ()
      else
        bind_result (require_text args ''cursor'') (\<lambda>cursor_id.
        bind_result (raising cursor_failure
            (resolve_cursor (tc_clock ctx) (tc_cursors ctx) (PStr cursor_id) (PStr generation) (PStr operation)
               (Some (cursor_query args operation)) (map PStr projects) (PStr CAPABILITY_READ) None)) (\<lambda>_. Inr ())))"

section \<open>One operation, one engine call\<close>

datatype engine_result =
    Found search_result
  | Compared change_result
  | Contextual context_result
  | Neighbourly neighbor_result
  | Called callers_result
  | Impacted impact_result
  | Traced path_result

definition query_failure :: "query_error \<Rightarrow> tool_failure" where
  "query_failure e =
     (case e of
        TargetAmbiguous _ _ \<Rightarrow> not_found
      | TargetNotFound \<Rightarrow> not_found
      | LimitRejected \<Rightarrow> limit_exceeded
      | BudgetExceeded \<Rightarrow> limit_exceeded
      | _ \<Rightarrow> if is_model_error e then validation else QueryFailed e)"

definition compare_changes :: "graph_set \<Rightarrow> arguments \<Rightarrow> tool_failure + change_result" where
  "compare_changes gs args =
     (let baseline = get_field args ''baseline_catalog_generation_id'' in
      if baseline = PNone then raising query_failure (changes (ScopeSet gs) None None)
      else
        bind_result (raising (\<lambda>_. validation) (sha256_text baseline QueryModelError)) (\<lambda>b.
        bind_result (raising query_failure (catalog_generation_id (ScopeSet gs))) (\<lambda>current.
          raising query_failure (changes (ScopeSet gs) (if b \<noteq> current then None else Some (ScopeSet gs)) None))))"

definition engine_call ::
    "(string \<Rightarrow> string) \<Rightarrow> string \<Rightarrow> arguments \<Rightarrow> graph_set \<Rightarrow> budgets \<Rightarrow> string list option \<Rightarrow> string list option
       \<Rightarrow> pyval \<Rightarrow> tool_failure + engine_result" where
  "engine_call cf operation args gs b projection edge_kinds direction =
     (let depth = PInt (bu_depth b); nodes = PInt (bu_max_nodes b); edges = PInt (bu_max_edges b);
          kinds = kinds_value edge_kinds; sections = kinds_value projection
      in
      if operation = ''search'' then
        bind_result (require_text args ''query'') (\<lambda>q.
          raising query_failure (map_sum id Found (search_symbols cf (ScopeSet gs) (PStr q) None None PNone nodes)))
      else if operation = ''changes'' then map_sum id Compared (compare_changes gs args)
      else
        bind_result (require_text args ''target'') (\<lambda>target.
        if operation = ''path'' then
          bind_result (require_text args ''target_to'') (\<lambda>target_to.
            raising query_failure (map_sum id Traced
              (path cf (ScopeSet gs) target target_to None depth direction kinds sections nodes edges)))
        else if operation = ''context'' then
          raising query_failure (map_sum id Contextual
            (context_op cf (ScopeSet gs) target None depth direction kinds sections nodes edges))
        else if operation = ''dependencies'' then
          raising query_failure (map_sum id Neighbourly
            (dependencies cf (ScopeSet gs) target None depth kinds sections nodes edges))
        else if operation = ''neighbors'' then
          raising query_failure (map_sum id Neighbourly
            (neighbors cf (ScopeSet gs) target None depth direction kinds sections nodes edges))
        else if operation = ''callers'' then
          raising query_failure (map_sum id Called
            (callers cf (ScopeSet gs) target None depth kinds sections nodes edges))
        else
          raising query_failure (map_sum id Impacted
            (impact cf (ScopeSet gs) target None depth kinds sections nodes edges))))"

text \<open>The attributes an engine result has, with the defaults \<open>getattr\<close> gives where it has none.\<close>

record engine_view =
  ev_nodes :: "pyval list"
  ev_edges :: "pyval list"
  ev_candidates :: "pyval list"
  ev_target :: "string option"
  ev_status :: string
  ev_truncated :: bool
  ev_reasons :: "string list"
  ev_budget_exhausted :: bool
  ev_warnings :: "warning list"

fun engine_view_of :: "engine_result \<Rightarrow> engine_view" where
  "engine_view_of (Contextual r) =
     \<lparr>ev_nodes = c_nodes r, ev_edges = c_edges r, ev_candidates = c_candidates r, ev_target = c_target r,
      ev_status = c_status r, ev_truncated = c_truncated r, ev_reasons = c_reasons r, ev_budget_exhausted = False,
      ev_warnings = c_warnings r\<rparr>"
| "engine_view_of (Neighbourly r) =
     \<lparr>ev_nodes = nb_nodes r, ev_edges = nb_edges r, ev_candidates = nb_candidates r, ev_target = nb_target r,
      ev_status = nb_status r, ev_truncated = nb_truncated r, ev_reasons = nb_reasons r, ev_budget_exhausted = False,
      ev_warnings = nb_warnings r\<rparr>"
| "engine_view_of (Called r) =
     \<lparr>ev_nodes = cl_nodes r, ev_edges = cl_edges r, ev_candidates = cl_candidates r, ev_target = cl_target r,
      ev_status = cl_status r, ev_truncated = cl_truncated r, ev_reasons = cl_reasons r, ev_budget_exhausted = False,
      ev_warnings = cl_warnings r\<rparr>"
| "engine_view_of (Impacted r) =
     \<lparr>ev_nodes = im_nodes r, ev_edges = im_edges r, ev_candidates = im_candidates r, ev_target = im_target r,
      ev_status = im_status r, ev_truncated = im_truncated r, ev_reasons = im_reasons r, ev_budget_exhausted = False,
      ev_warnings = im_warnings r\<rparr>"
| "engine_view_of (Traced r) =
     \<lparr>ev_nodes = p_nodes r, ev_edges = p_edges r, ev_candidates = p_candidates r, ev_target = p_target r,
      ev_status = p_status r, ev_truncated = False, ev_reasons = p_reasons r, ev_budget_exhausted = p_budget_exhausted r,
      ev_warnings = p_warnings r\<rparr>"
| "engine_view_of r =
     \<lparr>ev_nodes = [], ev_edges = [], ev_candidates = [], ev_target = None, ev_status = ''ok'', ev_truncated = False,
      ev_reasons = [], ev_budget_exhausted = False, ev_warnings = []\<rparr>"

text \<open>Nodes, edges, the truncated flag and the warnings of an answer.\<close>

type_synonym answer_parts = "pyval list \<times> pyval list \<times> bool \<times> warning list"

definition tool_ambiguous :: "string \<Rightarrow> nat \<Rightarrow> warning" where
  "tool_ambiguous target n = Warning ''tool_ambiguous_target'' [target] [int n]"

definition walk_parts :: "engine_result \<Rightarrow> answer_parts" where
  "walk_parts r =
     (let v = engine_view_of r;
          ambiguous = (ev_status v = ''ambiguous_target'');
          nodes = (if ambiguous then ev_candidates v else ev_nodes v);
          edges = (if ambiguous then [] else ev_edges v);
          warnings = ev_warnings v
            @ (if ambiguous
               then [tool_ambiguous (case ev_target v of None \<Rightarrow> [] | Some t \<Rightarrow> t) (length nodes)] else [])
            @ (if ev_truncated v then [Warning ''tool_truncated'' (ev_reasons v) []] else [])
            @ (case r of
                 Called c \<Rightarrow> if \<not> cl_complete c then [Warning ''incomplete'' [] []] else []
               | Impacted i \<Rightarrow> if \<not> im_exhaustive i then [Warning ''potential_impact'' [] []] else []
               | Traced p \<Rightarrow>
                   if \<not> p_found p \<and> \<not> p_proven_absent p then [Warning ''path_not_proven'' [] []] else []
               | _ \<Rightarrow> []);
          unproven = (case r of Traced p \<Rightarrow> \<not> p_found p \<and> \<not> p_proven_absent p | _ \<Rightarrow> False)
      in (nodes, edges, unproven \<or> ev_truncated v \<or> ev_budget_exhausted v, warnings))"

definition merge_after :: "(string, pyval) dict \<Rightarrow> pyval \<Rightarrow> pyval" where
  "merge_after d after = PDict (fold (\<lambda>p acc. dict_set (fst p) (snd p) acc) (mapping_items after) d)"

text \<open>The head side of a comparable diff.\<close>

definition changed_nodes :: "string \<times> change_set \<times> change_set \<Rightarrow> pyval list" where
  "changed_nodes p =
     ch_added (fst (snd p))
     @ map (\<lambda>m. merge_after [(''id'', PStr (fst m)), (''project_id'', PStr (fst p))] (snd (snd m)))
         (ch_modified (fst (snd p)))"

definition changed_edges :: "string \<times> change_set \<times> change_set \<Rightarrow> pyval list" where
  "changed_edges p =
     ch_added (snd (snd p)) @ map (\<lambda>m. merge_after [(''id'', PStr (fst m))] (snd (snd m))) (ch_modified (snd (snd p)))"

definition change_facts :: "change_result \<Rightarrow> pyval list \<times> pyval list" where
  "change_facts r = (concat (map changed_nodes (chr_projects r)), concat (map changed_edges (chr_projects r)))"

definition not_comparable_reason :: "string \<Rightarrow> arguments \<Rightarrow> warning" where
  "not_comparable_reason status args =
     (if status \<noteq> ''missing_baseline'' then Warning ''not_comparable'' [status] []
      else if get_field args ''baseline_catalog_generation_id'' \<noteq> PNone then Warning ''baseline_not_pinnable'' [] []
      else Warning ''baseline_not_named'' [] [])"

definition change_parts :: "arguments \<Rightarrow> change_result \<Rightarrow> answer_parts" where
  "change_parts args r =
     (if \<not> chr_comparable r then ([], [], False, chr_warnings r @ [not_comparable_reason (chr_status r) args])
      else (fst (change_facts r), snd (change_facts r), False, chr_warnings r))"

definition search_parts :: "arguments \<Rightarrow> graph_set \<Rightarrow> search_result \<Rightarrow> tool_failure + answer_parts" where
  "search_parts args gs r =
     bind_result (raising QueryFailed
       (map_result (\<lambda>c. bind_result (gs_node gs (sc_node c)) (\<lambda>n. Inr (node_as_document n))) (s_candidates r))) (\<lambda>nodes.
     bind_result (if search_ambiguous r
                  then bind_result (require_text args ''query'') (\<lambda>q. Inr [tool_ambiguous q (length nodes)])
                  else Inr []) (\<lambda>more.
       Inr (nodes, [], s_truncated r, s_warnings r @ more)))"

definition answer_of ::
    "(string \<Rightarrow> string) \<Rightarrow> string \<Rightarrow> arguments \<Rightarrow> graph_set \<Rightarrow> tool_failure + answer_parts" where
  "answer_of cf operation args gs =
     bind_result (budgets_of args) (\<lambda>b.
     bind_result (choice_list_argument args ''projection'' PROJECTIONS) (\<lambda>projection.
     bind_result (choice_list_argument args ''edge_kinds'' (sort EDGE_KINDS)) (\<lambda>edge_kinds.
     (let direction = get_field args ''direction'' in
      bind_result (guard_result (direction = PNone \<or> direction \<in> set (map PStr DIRECTIONS)) validation) (\<lambda>_.
      bind_result (engine_call cf operation args gs b projection edge_kinds direction) (\<lambda>result.
        (case result of
           Compared r \<Rightarrow> Inr (change_parts args r)
         | Found r \<Rightarrow> search_parts args gs r
         | r \<Rightarrow> Inr (walk_parts r))))))))"

section \<open>The tool\<close>

definition envelope_failure :: "query_error \<Rightarrow> tool_failure" where
  "envelope_failure e = (if e = EnvelopeInvalid then AxiomError ''SNAPSHOT_CORRUPT'' else QueryFailed e)"

definition pack_failure :: "query_error \<Rightarrow> tool_failure" where
  "pack_failure e =
     (case e of BudgetExceeded \<Rightarrow> limit_exceeded | BudgetInvalid \<Rightarrow> validation | _ \<Rightarrow> QueryFailed e)"

definition packed_answer :: "(string, pyval) dict \<Rightarrow> int \<Rightarrow> tool_failure + (string, pyval) dict" where
  "packed_answer document max_bytes =
     bind_result (raising pack_failure (pack_response (PDict document) (PInt max_bytes))) (\<lambda>r.
       Inr (if b_truncated r then dict_set ''truncated'' (PBool True) (b_document r) else b_document r))"

text \<open>The answer once the scope is loaded.\<close>

definition scoped_answer ::
    "read_world \<Rightarrow> (warning \<Rightarrow> string) \<Rightarrow> tool_context \<Rightarrow> arguments \<Rightarrow> string \<Rightarrow> string \<Rightarrow> string list
       \<Rightarrow> string option \<Rightarrow> graph_set \<Rightarrow> tool_failure + (string, pyval) dict" where
  "scoped_answer w say ctx args operation solution_id projects wanted gs =
     bind_result (raising QueryFailed (catalog_generation_id (ScopeSet gs))) (\<lambda>generation.
     if wanted \<noteq> None \<and> wanted \<noteq> Some generation then Inl (AxiomError ''SNAPSHOT_EXPIRED'')
     else
       bind_result (budgets_of args) (\<lambda>b.
       bind_result (check_cursor ctx args operation generation projects) (\<lambda>_.
       bind_result (answer_of (rw_fold w) operation args gs) (\<lambda>parts.
         (case parts of (nodes, edges, truncated, warnings) \<Rightarrow>
            bind_result (raising envelope_failure
              (build_envelope say (PStr solution_id) (ScopeSet gs) PNone (Some no_verification) nodes edges
                 (PBool truncated) PNone (map (\<lambda>x. PStr (say x)) warnings))) (\<lambda>document.
              packed_answer document (bu_max_bytes b)))))))"

record checked_request =
  cq_operation :: string
  cq_solution :: string
  cq_consistency :: string
  cq_pinned :: "string option"
  cq_projects :: "string list"

text \<open>Everything that is refused before a file is read.\<close>

definition check_request :: "tool_context \<Rightarrow> arguments \<Rightarrow> tool_failure + checked_request" where
  "check_request ctx args =
     bind_result (operation_argument args) (\<lambda>operation.
     bind_result (closed_arguments args (GLOBAL_ARGUMENTS @ operation_arguments operation)) (\<lambda>_.
     bind_result (identifier_argument args ''solution_id'') (\<lambda>solution_id.
     bind_result (consistency_argument args) (\<lambda>consistency.
     bind_result (pinned_generation args consistency) (\<lambda>wanted.
     bind_result (check_projection args operation) (\<lambda>_.
     bind_result (open_solution ctx solution_id) (\<lambda>_.
     bind_result (project_scope args) (\<lambda>requested.
     bind_result (resolve_projects ctx solution_id requested) (\<lambda>projects.
       if projects = [] then Inl not_found
       else Inr \<lparr>cq_operation = operation, cq_solution = solution_id, cq_consistency = consistency,
                 cq_pinned = wanted, cq_projects = projects\<rparr>)))))))))"

definition graph_query ::
    "'s loader \<Rightarrow> read_world \<Rightarrow> (warning \<Rightarrow> string) \<Rightarrow> tool_context \<Rightarrow> 's \<Rightarrow> arguments
       \<Rightarrow> 's \<times> (string, pyval) dict list \<times> (tool_failure + (string, pyval) dict)" where
  "graph_query load w say ctx s args =
     (case check_request ctx args of
        Inl e \<Rightarrow> (s, [], Inl e)
      | Inr q \<Rightarrow>
          if cq_consistency q = REQUIRE_FRESH then
            (case require_fresh ctx (cq_solution q) (cq_projects q) of (sent, e) \<Rightarrow> (s, sent, Inl e))
          else
            (case load_scope load w ctx s (cq_solution q) (cq_projects q) of
               (s', r) \<Rightarrow>
                 (s', [], bind_result r
                    (scoped_answer w say ctx args (cq_operation q) (cq_solution q) (cq_projects q) (cq_pinned q)))))"

end
