(* ===== verification/QueryFacts.thy ===== *)
theory QueryFacts
  imports Query
begin

text \<open>
  What \<open>graph_query\<close> answers: from the members the catalog pins to the packed envelope. The lemmas on
  loading are proved once in the contracts of a source and used through their interpretations.
\<close>

section \<open>From snapshots to the scope\<close>

lemma map_result_Inl_fold:
  "fold_result (\<lambda>acc v. bind_result (f v) (g acc)) s vs = Inr r \<longleftrightarrow>
     (\<exists>ys. map_result f vs = Inr ys \<and> fold_result g s ys = Inr r)"
  by (induction vs arbitrary: s) (auto simp: bind_result_eq_Inr)

lemma scope_of_snapshots_Inr:
  "scope_of_snapshots vs = Inr gs \<longleftrightarrow>
     (\<exists>graphs. map_result graph_from_snapshot vs = Inr graphs \<and> make_graph_set graphs [] = Inr gs)"
  by (auto simp: scope_of_snapshots_def make_graph_set_def map_result_Inl_fold bind_result_eq_Inr)

lemma graph_from_documents_ids:
  "graph_from_documents p g ns es c m = Inr gr \<Longrightarrow> g_project gr = p \<and> g_generation gr = g \<and> g_schema_major gr = m
     \<and> g_coverage gr = c \<and> map_result node_from_document ns = Inr (g_nodes gr)
     \<and> map_result edge_from_document es = Inr (g_edges gr)"
  by (auto simp: graph_from_documents_def make_graph_def bind_result_eq_Inr split: prod.splits)

lemma graph_from_snapshot_ids:
  "graph_from_snapshot v = Inr gr \<Longrightarrow>
     g_project gr = ls_project_id v \<and> g_generation gr = ls_generation_id v \<and> g_schema_major gr = None"
  by (auto simp: graph_from_snapshot_def bind_result_eq_Inr dest: graph_from_documents_ids split: prod.splits)

lemma scope_of_snapshots_members:
  assumes "scope_of_snapshots vs = Inr gs"
  shows "gs_inv gs \<and> gs_missing gs = [] \<and> dict_keys (gs_by_project gs) = map ls_project_id vs
    \<and> (\<forall>v \<in> set vs. \<exists>gr. graph_from_snapshot v = Inr gr \<and> map_of (gs_by_project gs) (ls_project_id v) = Some gr)
    \<and> (\<forall>gr \<in> snd ` set (gs_by_project gs). g_schema_major gr = None)"
proof -
  obtain graphs where g: "map_result graph_from_snapshot vs = Inr graphs" "make_graph_set graphs [] = Inr gs"
    using assms by (auto simp: scope_of_snapshots_Inr)
  note inv = make_graph_set_inv [OF g(2)]
  have all: "list_all2 (\<lambda>v gr. graph_from_snapshot v = Inr gr) vs graphs" using g(1) by (simp add: map_result_list_all2)
  then have keys: "map g_project graphs = map ls_project_id vs"
    by (induction rule: list_all2_induct) (auto dest: graph_from_snapshot_ids)
  have graphs: "gs_by_project gs = map (\<lambda>g. (g_project g, g)) graphs" using inv by blast
  then have dk: "dict_keys (gs_by_project gs) = map ls_project_id vs" using keys by (simp add: comp_def)
  have dist: "distinct (dict_keys (gs_by_project gs))" using inv unfolding gs_inv_def keyed_by_def by blast
  have "\<exists>gr. graph_from_snapshot v = Inr gr \<and> map_of (gs_by_project gs) (ls_project_id v) = Some gr" if v: "v \<in> set vs" for v
  proof -
    obtain i where i: "i < length vs" "v = vs ! i" using v by (metis in_set_conv_nth)
    then have gr: "graph_from_snapshot v = Inr (graphs ! i)" using all by (auto simp: list_all2_conv_all_nth)
    have "i < length graphs" using i list_all2_lengthD [OF all] by simp
    then have "(g_project (graphs ! i), graphs ! i) \<in> set (gs_by_project gs)" by (simp add: graphs)
    then have "map_of (gs_by_project gs) (g_project (graphs ! i)) = Some (graphs ! i)"
      using dist by simp
    with gr graph_from_snapshot_ids [OF gr] show ?thesis by auto
  qed
  moreover have "g_schema_major gr = None" if "gr \<in> snd ` set (gs_by_project gs)" for gr
  proof -
    have "gr \<in> set graphs" using that inv by auto
    from list_all2_member_right [OF all this] show ?thesis using graph_from_snapshot_ids by blast
  qed
  ultimately show ?thesis using inv dk by (simp add: sorted_set_def)
qed

lemma scope_generations:
  assumes "scope_of_snapshots vs = Inr gs"
  shows "project_ids gs = sort (map ls_project_id vs)
    \<and> (\<forall>p g. (p, g) \<in> set (generations gs) \<longleftrightarrow> (\<exists>v \<in> set vs. ls_project_id v = p \<and> ls_generation_id v = g))"
proof -
  note m = scope_of_snapshots_members [OF assms]
  have ids: "project_ids gs = sort (map ls_project_id vs)" using m by (simp add: project_ids_def)
  have "g_generation (the (map_of (gs_by_project gs) (ls_project_id v))) = ls_generation_id v" if v: "v \<in> set vs" for v
    using m v graph_from_snapshot_ids by fastforce
  then have "(p, g) \<in> set (generations gs) \<longleftrightarrow> (\<exists>v \<in> set vs. ls_project_id v = p \<and> ls_generation_id v = g)" for p g
    by (auto simp: generations_def ids)
  with ids show ?thesis by blast
qed

section \<open>Loading the members\<close>

text \<open>A member as it was loaded: its pin is available, and what was loaded holds of its location.\<close>

definition loaded_member ::
    "(snapshot_location \<Rightarrow> string \<Rightarrow> loaded_snapshot \<Rightarrow> bool) \<Rightarrow> tool_context \<Rightarrow> string \<Rightarrow> member_pin list \<Rightarrow> string
       \<Rightarrow> loaded_snapshot \<Rightarrow> bool" where
  "loaded_member holds ctx solution_id pins p v =
     (\<exists>pin l. find (\<lambda>pin. cm_project_id (mp_member pin) = p) pins = Some pin \<and> pin_available pin
        \<and> find_location (tc_registry ctx) solution_id p QUERY_LANE = Inr l
        \<and> holds l (cm_generation_id (mp_member pin)) v)"

context pinned_source
begin

lemma load_pinned_project_holds:
  assumes "ok s" "load_pinned_project load ctx s solution_id p lane g = (s', r)"
  shows "ok s' \<and> (\<forall>v. r = Inr v \<longrightarrow> (\<exists>l. find_location (tc_registry ctx) solution_id p lane = Inr l \<and> holds l g v))"
proof (cases "require_access (tc_principal ctx) CAPABILITY_READ (Some solution_id) (Some [p])")
  case (Inl e)
  with assms show ?thesis by (auto simp: load_pinned_project_def)
next
  case access: (Inr u)
  show ?thesis
  proof (cases "find_location (tc_registry ctx) solution_id p lane")
    case (Inl e)
    with assms access show ?thesis by (auto simp: load_pinned_project_def)
  next
    case (Inr l)
    obtain s1 r1 where one: "load s l g = (s1, r1)" by force
    have "ok s1" using load_ok [OF assms(1), of l g] one by simp
    moreover have "holds l g v" if "r1 = Inr v" for v using load_holds [OF assms(1), of l g v] one that by simp
    ultimately show ?thesis
      using assms(2) access Inr one by (cases r1) (auto simp: load_pinned_project_def)
  qed
qed

lemma load_members_hold:
  assumes "ok s" "load_members load ctx solution_id pins s ps = (s', r)"
  shows "ok s' \<and> (\<forall>vs. r = Inr vs \<longrightarrow> list_all2 (loaded_member holds ctx solution_id pins) ps vs)"
  using assms
proof (induction ps arbitrary: s s' r)
  case (Cons p ps)
  show ?case
  proof (cases "find (\<lambda>pin. cm_project_id (mp_member pin) = p) pins")
    case None
    with Cons.prems show ?thesis by auto
  next
    case pin: (Some pin)
    show ?thesis
    proof (cases "pin_available pin")
      case False
      with Cons.prems pin show ?thesis by auto
    next
      case True
      obtain s1 r1 where one: "load_pinned_project load ctx s solution_id p QUERY_LANE (cm_generation_id (mp_member pin)) = (s1, r1)"
        by force
      note h = load_pinned_project_holds [OF Cons.prems(1) one]
      show ?thesis
      proof (cases r1)
        case (Inl e)
        with Cons.prems pin True one h show ?thesis by auto
      next
        case (Inr v)
        obtain s2 r2 where rest: "load_members load ctx solution_id pins s1 ps = (s2, r2)" by force
        have "loaded_member holds ctx solution_id pins p v" using h Inr pin True by (auto simp: loaded_member_def)
        with Cons.prems(2) Cons.IH [OF _ rest] h pin True one Inr rest show ?thesis
          by (auto split: sum.splits)
      qed
    qed
  qed
qed auto

end

context project_source
begin

lemma loaded_member_project:
  assumes "registry_ok wa (tc_registry ctx)" "loaded_member holds ctx solution_id pins p v"
  shows "ls_project_id v = p"
proof -
  from assms(2) obtain g l where l: "find_location (tc_registry ctx) solution_id p QUERY_LANE = Inr l" "holds l g v"
    unfolding loaded_member_def by blast
  from find_location_root [OF assms(1) l(1)] have "sl_project_id l = p" by auto
  with holds_project [OF l(2)] show ?thesis by simp
qed

lemma load_members_projects:
  assumes "registry_ok wa (tc_registry ctx)" "list_all2 (loaded_member holds ctx solution_id pins) ps vs"
  shows "map ls_project_id vs = ps"
  using assms(2) loaded_member_project [OF assms(1)] by (induction rule: list_all2_induct) auto

end

section \<open>From the scope to the answer\<close>

text \<open>An answered request: what was checked, pinned, loaded and built on the way.\<close>

lemma graph_query_Inr:
  assumes "graph_query load w say ctx s args = (s', sent, Inr d)"
  obtains q v vs gs where "check_request ctx args = Inr q" and "cq_consistency q \<noteq> REQUIRE_FRESH" and "sent = []"
    and "query_vector w ctx (cq_solution q) = Inr v"
    and "load_members load ctx (cq_solution q) (cv_pins v) s (cq_projects q) = (s', Inr vs)"
    and "scope_of_snapshots vs = Inr gs"
    and "scoped_answer w say ctx args (cq_operation q) (cq_solution q) (cq_projects q) (cq_pinned q) gs = Inr d"
proof (cases "check_request ctx args")
  case (Inl e)
  with assms show thesis by (simp add: graph_query_def)
next
  case q: (Inr q)
  have stale: "cq_consistency q \<noteq> REQUIRE_FRESH"
    using assms q by (auto simp: graph_query_def split: prod.splits)
  show thesis
  proof (cases "query_vector w ctx (cq_solution q)")
    case (Inl e)
    with assms q stale show thesis by (simp add: graph_query_def load_scope_def)
  next
    case (Inr v)
    obtain s1 r where r: "load_members load ctx (cq_solution q) (cv_pins v) s (cq_projects q) = (s1, r)" by force
    have "s' = s1 \<and> sent = [] \<and> (\<exists>vs gs. r = Inr vs \<and> scope_of_snapshots vs = Inr gs
        \<and> scoped_answer w say ctx args (cq_operation q) (cq_solution q) (cq_projects q) (cq_pinned q) gs = Inr d)"
      using assms q stale Inr r by (auto simp: graph_query_def load_scope_def bind_result_eq_Inr)
    with r show thesis using that [OF q stale _ Inr] by blast
  qed
qed

lemma scoped_answer_Inr:
  assumes "scoped_answer w say ctx args operation solution projects wanted gs = Inr d"
  obtains b nodes edges truncated warnings document where "wanted = None \<or> wanted = Some (sha256_hex (catalog_text gs))"
    and "check_cursor ctx args operation (sha256_hex (catalog_text gs)) projects = Inr ()"
    and "budgets_of args = Inr b" and "answer_of (rw_fold w) operation args gs = Inr (nodes, edges, truncated, warnings)"
    and "build_envelope say (PStr solution) (ScopeSet gs) PNone (Some no_verification) nodes edges (PBool truncated) PNone
           (map (\<lambda>x. PStr (say x)) warnings) = Inr document"
    and "packed_answer document (bu_max_bytes b) = Inr d"
  using assms
  by (auto simp: scoped_answer_def catalog_generation_id_def bind_result_eq_Inr split: if_splits prod.splits)

lemma pack_marks_truncated:
  assumes "pack_response (PDict d) m = Inr r" "b_truncated r"
  shows "dict_get (b_document r) ''truncated'' = Some (PBool True)"
proof (rule pack_response_cases [OF assms(1)], goal_cases)
  case (2 cap final)
  let ?s = "trim_all cap d"
  from 2 assms(2) have "dropped ?s \<noteq> []" by simp
  with 2(4) have "attach_warnings (dict_set ''truncated'' (PBool True) (packed ?s)) (pack_warnings ?s cap) cap = Inr final"
    by simp
  from attach_warnings_other [OF this, of "''truncated''"] 2(5) show ?case by (simp add: dict_get_set)
qed (use assms(2) in simp)

lemma packed_answer_Inr:
  assumes "packed_answer document m = Inr d"
  obtains r where "pack_response (PDict document) (PInt m) = Inr r" and "d = b_document r"
proof -
  from assms obtain r where r: "pack_response (PDict document) (PInt m) = Inr r"
    "d = (if b_truncated r then dict_set ''truncated'' (PBool True) (b_document r) else b_document r)"
    by (auto simp: packed_answer_def bind_result_eq_Inr)
  moreover have "d = b_document r" using r dict_set_same [OF pack_marks_truncated [OF r(1)]] by auto
  ultimately show thesis using that by blast
qed

text \<open>What packing keeps of an envelope, and how large it may be.\<close>

definition identity_keys :: "string list" where
  "identity_keys = [''schema_version'', ''solution_id'', ''catalog_generation_id'', ''project_generations'', ''freshness'',
     ''coverage'', ''verification'']"

lemma packed_envelope:
  assumes "build_envelope say sol scope fr ver ns es tr cur ws = Inr document" "packed_answer document m = Inr d"
  shows "encoded_size d \<le> m \<and> m \<le> MAX_BYTES \<and> MIN_BYTES \<le> m
    \<and> (\<forall>key \<in> set identity_keys. dict_get d key = dict_get document key)"
proof -
  obtain r where r: "pack_response (PDict document) (PInt m) = Inr r" "d = b_document r"
    using assms(2) by (rule packed_answer_Inr)
  from assms(1) have "dict_get document ''truncated'' = Some (PBool (truthy tr))
      \<and> (\<exists>texts. dict_get document ''warnings'' = Some (PList texts))"
  proof (rule build_envelope_Inr, goal_cases)
    case (1 gs solution coverage cws nodes edges texts cursor)
    show ?case unfolding 1(7) by simp
  qed
  then obtain texts where "dict_get document ''truncated'' = Some (PBool (truthy tr))"
    "dict_get document ''warnings'' = Some (PList texts)" by blast
  from pack_within_cap [OF r(1) this] r(2) have "encoded_size d \<le> b_max_bytes r" by simp
  moreover have "b_max_bytes r = m \<and> m \<le> MAX_BYTES \<and> MIN_BYTES \<le> m"
    by (rule pack_response_cases [OF r(1)]) (auto simp: bounded_int_Inr)
  moreover have "dict_get d key = dict_get document key" if "key \<in> set identity_keys" for key
    unfolding r(2) by (rule pack_keeps_key [OF r(1)]) (use that in \<open>auto simp: TRIMMABLE_def identity_keys_def\<close>)
  ultimately show ?thesis by blast
qed

lemma envelope_identity:
  assumes "build_envelope say (PStr solution) (ScopeSet gs) PNone (Some no_verification) ns es tr cur ws = Inr document"
    "packed_answer document m = Inr d"
  shows "dict_get d ''solution_id'' = Some (PStr solution)"
    "dict_get d ''catalog_generation_id'' = Some (PStr (sha256_hex (catalog_text gs)))"
    "dict_get d ''project_generations'' = Some (project_generations_value gs)"
    "dict_get d ''freshness'' = Some (PStr ''unknown'')"
proof -
  note keep = packed_envelope [OF assms]
  from assms(1) have "dict_get document ''solution_id'' = Some (PStr solution)
      \<and> dict_get document ''catalog_generation_id'' = Some (PStr (sha256_hex (catalog_text gs)))
      \<and> dict_get document ''project_generations'' = Some (project_generations_value gs)
      \<and> dict_get document ''freshness'' = Some (PStr ''unknown'')"
  proof (rule build_envelope_Inr, goal_cases)
    case (1 gs' sol coverage cws nodes edges texts cursor)
    then have "gs' = gs" by simp
    with 1(2) show ?case unfolding 1(7) by (simp add: resolve_freshness_def FRESHNESS_UNKNOWN_def)
  qed
  with keep show "dict_get d ''solution_id'' = Some (PStr solution)"
    "dict_get d ''catalog_generation_id'' = Some (PStr (sha256_hex (catalog_text gs)))"
    "dict_get d ''project_generations'' = Some (project_generations_value gs)"
    "dict_get d ''freshness'' = Some (PStr ''unknown'')"
    by (simp_all add: identity_keys_def)
qed

section \<open>What a request may ask for\<close>

lemma resolve_projects_all:
  assumes "registry_ok wa (tc_registry ctx)" "open_solution ctx solution = Inr u" "resolve_projects ctx solution None = Inr ps"
  shows "set ps = granted ctx solution"
proof
  show "set ps \<subseteq> granted ctx solution" by (rule resolve_projects_granted [OF assms(2,3)])
  obtain available where av: "solution_projects ctx solution = Inr available"
    "ps = (case pr_project_ids (tc_principal ctx) of None \<Rightarrow> available | Some g \<Rightarrow> filter (\<lambda>p. p \<in> set g) available)"
    using assms(3) by (auto simp: resolve_projects_def bind_result_eq_Inr split: option.splits)
  obtain b where b: "find_solution (tc_registry ctx) solution = Inr b"
    "set available = (\<Union>repo \<in> set (sb_repositories b). set (rb_project_ids repo))"
    using solution_projects_Inr [OF av(1)] by blast
  have found: "b \<in> set (sr_solutions (tc_registry ctx)) \<and> sb_solution_id b = solution"
    using b(1) by (auto simp: find_solution_def dest!: find_Some_member split: option.splits)
  have "distinct (map sb_solution_id (sr_solutions (tc_registry ctx)))" using assms(1) by (simp add: registry_ok_def)
  then have "x = b" if "x \<in> set (sr_solutions (tc_registry ctx))" "sb_solution_id x = solution" for x
    using that found by (metis (no_types, lifting) distinct_map inj_onD)
  then have "p \<in> set available" if "declares (tc_registry ctx) solution p repo" for p repo
    using that b(2) unfolding declares_def by blast
  then show "granted ctx solution \<subseteq> set ps" using av(2) by (auto simp: granted_def split: option.splits)
qed

lemma check_request_Inr:
  assumes "check_request ctx args = Inr q"
  shows "cq_operation q \<in> set QUERY_OPERATIONS
    \<and> set (dict_keys args) \<subseteq> set (GLOBAL_ARGUMENTS @ operation_arguments (cq_operation q))
    \<and> consistency_argument args = Inr (cq_consistency q)
    \<and> pinned_generation args (cq_consistency q) = Inr (cq_pinned q)
    \<and> cq_projects q \<noteq> [] \<and> set (cq_projects q) \<subseteq> granted ctx (cq_solution q)"
    and "operation_argument args = Inr (cq_operation q)" "identifier_argument args ''solution_id'' = Inr (cq_solution q)"
    and "\<exists>requested. project_scope args = Inr requested
      \<and> resolve_projects ctx (cq_solution q) requested = Inr (cq_projects q)"
    and "\<exists>u. open_solution ctx (cq_solution q) = Inr u"
proof -
  from assms obtain u requested where u: "open_solution ctx (cq_solution q) = Inr u" "project_scope args = Inr requested"
    "resolve_projects ctx (cq_solution q) requested = Inr (cq_projects q)"
    and op: "operation_argument args = Inr (cq_operation q)" "identifier_argument args ''solution_id'' = Inr (cq_solution q)"
    and rest: "closed_arguments args (GLOBAL_ARGUMENTS @ operation_arguments (cq_operation q)) = Inr ()"
    "consistency_argument args = Inr (cq_consistency q)"
    "pinned_generation args (cq_consistency q) = Inr (cq_pinned q)" "cq_projects q \<noteq> []"
    by (auto simp: check_request_def bind_result_eq_Inr split: if_splits)
  then show "operation_argument args = Inr (cq_operation q)" "identifier_argument args ''solution_id'' = Inr (cq_solution q)"
    "\<exists>requested. project_scope args = Inr requested
      \<and> resolve_projects ctx (cq_solution q) requested = Inr (cq_projects q)"
    "\<exists>u. open_solution ctx (cq_solution q) = Inr u" by blast+
  show "cq_operation q \<in> set QUERY_OPERATIONS
    \<and> set (dict_keys args) \<subseteq> set (GLOBAL_ARGUMENTS @ operation_arguments (cq_operation q))
    \<and> consistency_argument args = Inr (cq_consistency q)
    \<and> pinned_generation args (cq_consistency q) = Inr (cq_pinned q)
    \<and> cq_projects q \<noteq> [] \<and> set (cq_projects q) \<subseteq> granted ctx (cq_solution q)"
    using u op rest resolve_projects_granted [OF u(1,3)]
    by (auto simp: operation_argument_def closed_arguments_def bind_result_eq_Inr guard_result_eq_Inr list_all_iff
        split: if_splits)
qed

text \<open>The projects a request names, read off its arguments.\<close>

lemma fold_add_requested:
  "fold_result add_requested seen items = Inr ps \<Longrightarrow> PStr ` set ps = PStr ` set seen \<union> set items"
proof (induction items arbitrary: seen)
  case (Cons item items)
  then obtain seen' where s: "add_requested seen item = Inr seen'" "fold_result add_requested seen' items = Inr ps"
    by (auto simp: bind_result_eq_Inr)
  from s(1) have "PStr ` set seen' = insert item (PStr ` set seen)"
    by (auto simp: add_requested_def bind_result_eq_Inr identifier_text_Inr split: pyval.splits if_splits)
  with Cons.IH [OF s(2)] show ?case by auto
qed simp

definition names_projects :: "arguments \<Rightarrow> string list \<Rightarrow> bool" where
  "names_projects args ps =
     (case get_field args ''project_id'' of
        PStr s \<Rightarrow> ps = [strip s]
      | _ \<Rightarrow> (case get_field args ''project_ids'' of PList items \<Rightarrow> PStr ` set ps = set items | _ \<Rightarrow> False))"

lemma project_scope_Inr:
  assumes "project_scope args = Inr requested"
  shows "case requested of
      None \<Rightarrow> get_field args ''project_id'' = PNone \<and> get_field args ''project_ids'' = PNone
    | Some ps \<Rightarrow> names_projects args ps"
  using assms
  by (auto simp: project_scope_def Let_def identifier_argument_def require_text_def bind_result_eq_Inr identifier_text_Inr
      names_projects_def dest!: fold_add_requested split: pyval.splits if_splits)

lemma selected_projects:
  assumes "registry_ok wa (tc_registry ctx)" "check_request ctx args = Inr q"
  shows "if get_field args ''project_id'' = PNone \<and> get_field args ''project_ids'' = PNone
    then set (cq_projects q) = granted ctx (cq_solution q) else names_projects args (cq_projects q)"
proof -
  obtain u requested where r: "open_solution ctx (cq_solution q) = Inr u" "project_scope args = Inr requested"
    "resolve_projects ctx (cq_solution q) requested = Inr (cq_projects q)"
    using check_request_Inr(4,5) [OF assms(2)] by blast
  show ?thesis
  proof (cases requested)
    case None
    with resolve_projects_all [OF assms(1) r(1)] r(3) project_scope_Inr [OF r(2)] show ?thesis by simp
  next
    case (Some ps)
    with r(3) have "cq_projects q = ps" by (auto simp: resolve_projects_def bind_result_eq_Inr split: if_splits)
    with Some project_scope_Inr [OF r(2)] show ?thesis by (auto simp: names_projects_def)
  qed
qed

lemma pinned_generation_Inr:
  "pinned_generation args consistency = Inr wanted \<Longrightarrow>
     (get_field args ''catalog_generation_id'' = PNone \<longrightarrow> consistency \<noteq> PINNED \<and> wanted = None)
     \<and> (get_field args ''catalog_generation_id'' \<noteq> PNone \<longrightarrow>
          (\<exists>g. get_field args ''catalog_generation_id'' = PStr g \<and> SHA256_RE g \<and> wanted = Some g))"
  by (auto simp: pinned_generation_def Let_def bind_result_eq_Inr sha256_text_Inr split: if_splits)

section \<open>The contract of an answer\<close>

text \<open>An answer by a source that keeps its contract comes from pins of the vector the catalog pins.\<close>

context project_source
begin

lemma query_answer:
  assumes "registry_ok wa (tc_registry ctx)" "ok s" "graph_query load w say ctx s args = (s', sent, Inr d)"
  obtains q v vs gs where "check_request ctx args = Inr q" and "query_vector w ctx (cq_solution q) = Inr v"
    and "ok s'" and "sent = []" and "scope_of_snapshots vs = Inr gs" and "map ls_project_id vs = cq_projects q"
    and "list_all2 (loaded_member holds ctx (cq_solution q) (cv_pins v)) (cq_projects q) vs"
    and "scoped_answer w say ctx args (cq_operation q) (cq_solution q) (cq_projects q) (cq_pinned q) gs = Inr d"
proof -
  from assms(3) show thesis
  proof (rule graph_query_Inr)
    fix q v vs gs
    assume q: "check_request ctx args = Inr q" "query_vector w ctx (cq_solution q) = Inr v" "sent = []"
      "scope_of_snapshots vs = Inr gs"
      "scoped_answer w say ctx args (cq_operation q) (cq_solution q) (cq_projects q) (cq_pinned q) gs = Inr d"
      and load: "load_members load ctx (cq_solution q) (cv_pins v) s (cq_projects q) = (s', Inr vs)"
    note h = load_members_hold [OF assms(2) load]
    then have all: "list_all2 (loaded_member holds ctx (cq_solution q) (cv_pins v)) (cq_projects q) vs" by blast
    show thesis
      by (rule that [OF q(1,2) _ q(3,4) load_members_projects [OF assms(1) all] all q(5)]) (use h in blast)
  qed
qed

end

lemma project_generations_scope:
  assumes "scope_of_snapshots vs = Inr gs" "map ls_project_id vs = ps"
  shows "map fst (generations gs) = sort ps"
  using scope_generations [OF assms(1)] assms(2) by (simp add: generations_def comp_def)

lemma scope_projects_distinct: "scope_of_snapshots vs = Inr gs \<Longrightarrow> distinct (map ls_project_id vs)"
  using scope_of_snapshots_members [of vs gs] unfolding gs_inv_def keyed_by_def by metis

lemma names_projects_sort: "names_projects args ps \<Longrightarrow> names_projects args (sort ps)"
  by (auto simp: names_projects_def split: pyval.splits)

lemma names_projects_sorted:
  "(if none then set ps = every else names_projects args ps)
    \<Longrightarrow> if none then set (sort ps) = every else names_projects args (sort ps)"
  using names_projects_sort by (cases none) (simp_all only: if_True if_False set_sort)

section \<open>The nodes and the edges of an answer\<close>

lemma envelope_items_same: "envelope_items vs = Inr xs \<Longrightarrow> xs = vs"
proof (induction vs arbitrary: xs)
  case (Cons v vs)
  then show ?case
    by (auto simp: envelope_items_def bind_result_eq_Inr mapping_value_def split: pyval.splits)
qed (simp add: envelope_items_def)

lemma packed_items:
  assumes "packed_answer document m = Inr d" "dict_get document key = Some (PList items)" "key \<in> {''nodes'', ''edges''}"
  shows "\<exists>n. dict_get d key = Some (PList (take n items))
    \<and> (n < length items \<longrightarrow> dict_get d ''truncated'' = Some (PBool True))"
proof -
  obtain r where r: "pack_response (PDict document) (PInt m) = Inr r" "d = b_document r"
    using assms(1) by (rule packed_answer_Inr)
  from r(1) show ?thesis
  proof (rule pack_response_cases, goal_cases)
    case (1 cap)
    with assms(2) r(2) show ?case by (intro exI [of _ "length items"]) simp
  next
    case (2 cap final)
    let ?s = "trim_all cap document"
    have key: "key \<in> set TRIMMABLE" "key \<noteq> ''warnings''" "key \<noteq> ''truncated''" using assms(3) by (auto simp: TRIMMABLE_def)
    have old: "collection document key = items" using assms(2) by (simp add: collection_def)
    obtain n where n: "collection (packed ?s) key = take n items"
      "dict_get (dropped ?s) key = (if n < length items then Some (length items - n) else None)"
      using trim_all_accounts(1) [OF key(1), of document cap] old by (auto simp: accounts_def)
    obtain ys where "dict_get (packed ?s) key = Some (PList ys)" using trim_all_list [OF assms(2)] by blast
    with n(1) have "dict_get (packed ?s) key = Some (PList (take n items))" by (simp add: collection_def)
    then have "dict_get final key = Some (PList (take n items))"
      using attach_warnings_other [OF 2(4) key(2)] key(3) by (simp add: dict_get_set split: if_splits)
    moreover have "dict_get d ''truncated'' = Some (PBool True)" if "n < length items"
    proof -
      have "dropped ?s \<noteq> []" using n(2) that by auto
      then have "b_truncated r" using 2(8,9) by simp
      with pack_marks_truncated [OF r(1)] r(2) show ?thesis by simp
    qed
    ultimately show ?case using 2(5) r(2) by blast
  qed
qed

lemma packed_truncated:
  assumes "packed_answer document m = Inr d" "dict_get document ''truncated'' = Some (PBool True)"
  shows "dict_get d ''truncated'' = Some (PBool True)"
proof -
  obtain r where r: "pack_response (PDict document) (PInt m) = Inr r" "d = b_document r"
    using assms(1) by (rule packed_answer_Inr)
  show ?thesis
  proof (cases "b_truncated r")
    case True
    with pack_marks_truncated [OF r(1)] r(2) show ?thesis by simp
  next
    case False
    from r(1) show ?thesis
    proof (rule pack_response_cases, goal_cases)
      case (1 cap)
      with assms(2) r(2) show ?case by simp
    next
      case (2 cap final)
      with False have "dropped (trim_all cap document) = []" by simp
      then have "dict_get final ''truncated'' = dict_get (packed (trim_all cap document)) ''truncated''"
        using attach_warnings_other [OF 2(4), of "''truncated''"] by simp
      moreover have "dict_get (packed (trim_all cap document)) ''truncated'' = dict_get document ''truncated''"
        using trim_all_accounts(2) [of "''truncated''" document cap] by (simp add: untouched_def TRIMMABLE_def)
      ultimately show ?case using assms(2) 2(5) r(2) by simp
    qed
  qed
qed

text \<open>What the tool answers of the parts the operation found.\<close>

lemma answer_items:
  assumes "build_envelope say sol (ScopeSet gs) fr ver nodes edges (PBool truncated) cur ws = Inr document"
    "packed_answer document m = Inr d"
  shows "\<exists>n k. dict_get d ''nodes'' = Some (PList (take n nodes)) \<and> dict_get d ''edges'' = Some (PList (take k edges))
    \<and> (truncated \<or> n < length nodes \<or> k < length edges \<longrightarrow> dict_get d ''truncated'' = Some (PBool True))"
proof -
  from assms(1) have doc: "dict_get document ''nodes'' = Some (PList nodes) \<and> dict_get document ''edges'' = Some (PList edges)
      \<and> dict_get document ''truncated'' = Some (PBool truncated)"
  proof (rule build_envelope_Inr, goal_cases)
    case (1 gs' solution coverage cws ns es texts cursor)
    with envelope_items_same [OF 1(5)] envelope_items_same [OF 1(6)] show ?case unfolding 1(7) by simp
  qed
  obtain n where "dict_get d ''nodes'' = Some (PList (take n nodes))"
    "n < length nodes \<longrightarrow> dict_get d ''truncated'' = Some (PBool True)"
    using packed_items [OF assms(2), of "''nodes''" nodes] doc by auto
  moreover obtain k where "dict_get d ''edges'' = Some (PList (take k edges))"
    "k < length edges \<longrightarrow> dict_get d ''truncated'' = Some (PBool True)"
    using packed_items [OF assms(2), of "''edges''" edges] doc by auto
  moreover have "truncated \<longrightarrow> dict_get d ''truncated'' = Some (PBool True)"
    using packed_truncated [OF assms(2)] doc by simp
  ultimately show ?thesis by blast
qed

section \<open>The tool\<close>

text \<open>
  C15. An answer covers exactly what was asked for of what the caller was granted: the request had only arguments
  its operation takes, and the projects listed in the answer, once each and in order, are the ones its
  \<open>project_id\<close> or \<open>project_ids\<close> name, or all the caller was granted of the solution it names when it names none;
  there is at least one, each is declared by the registry, in the caller's solutions and project scope, and the
  caller may read.
\<close>

theorem graph_query_answers_granted:
  assumes "registry_ok wa (tc_registry ctx)" "kept_right (rw_loads w) kept"
    "graph_query (registered_load_pinned fp w (tc_registry ctx)) w say ctx kept args = (kept', sent, Inr d)"
  shows "\<exists>solution gens operation. identifier_argument args ''solution_id'' = Inr solution
    \<and> operation_argument args = Inr operation
    \<and> dict_get d ''solution_id'' = Some (PStr solution)
    \<and> dict_get d ''project_generations''
        = Some (PList (map (\<lambda>p. PDict [(''project_id'', PStr (fst p)), (''generation_id'', PStr (snd p))]) gens))
    \<and> gens \<noteq> [] \<and> set (map fst gens) \<subseteq> granted ctx solution
    \<and> sorted (map fst gens) \<and> distinct (map fst gens)
    \<and> (if get_field args ''project_id'' = PNone \<and> get_field args ''project_ids'' = PNone
       then set (map fst gens) = granted ctx solution else names_projects args (map fst gens))
    \<and> operation \<in> set QUERY_OPERATIONS
    \<and> set (dict_keys args) \<subseteq> set (GLOBAL_ARGUMENTS @ operation_arguments operation) \<and> sent = []"
  using assms
proof (rule registered.query_answer)
  fix q v vs gs
  assume q: "check_request ctx args = Inr q" "sent = []" "scope_of_snapshots vs = Inr gs"
    "map ls_project_id vs = cq_projects q"
    "scoped_answer w say ctx args (cq_operation q) (cq_solution q) (cq_projects q) (cq_pinned q) gs = Inr d"
  note req = check_request_Inr [OF q(1)]
  have gens: "map fst (generations gs) = sort (cq_projects q)" by (rule project_generations_scope [OF q(3,4)])
  have sets: "set (map fst (generations gs)) = set (cq_projects q)" unfolding gens by simp
  have "distinct (cq_projects q)" using scope_projects_distinct [OF q(3)] q(4) by simp
  then have "sorted (map fst (generations gs))" "distinct (map fst (generations gs))" by (simp_all add: gens)
  moreover have "set (map fst (generations gs)) \<subseteq> granted ctx (cq_solution q)" "generations gs \<noteq> []"
    using req(1) sets arg_cong [OF gens, of length] by auto
  moreover have "if get_field args ''project_id'' = PNone \<and> get_field args ''project_ids'' = PNone
      then set (map fst (generations gs)) = granted ctx (cq_solution q) else names_projects args (map fst (generations gs))"
    unfolding gens by (rule names_projects_sorted [OF selected_projects [OF assms(1) q(1)]])
  moreover from q(5) have "dict_get d ''solution_id'' = Some (PStr (cq_solution q))
      \<and> dict_get d ''project_generations'' = Some (project_generations_value gs)"
    by (rule scoped_answer_Inr) (simp add: envelope_identity)
  ultimately show ?thesis using req(1-3) q(2)
    by (intro exI [of _ "cq_solution q"] exI [of _ "generations gs"] exI [of _ "cq_operation q"])
      (simp add: project_generations_value_def)
qed

text \<open>
  C2. An answer is the pinned state, end to end: for every project asked for it loaded a snapshot whose manifest
  bytes hash to the generation of an available pin, of that project, in the vector read through the catalog the
  lane pointer names; the operation was run on the graph set of exactly those snapshots, and the nodes and the
  edges of the answer are what it found there, in order, cut short only where the answer says it is truncated.
  The generations listed are those of the snapshots; a request that pins a catalog generation is answered by
  that generation or not at all, and no answer claims to be fresh.
\<close>

theorem graph_query_answers_pinned:
  assumes "registry_ok wa (tc_registry ctx)" "kept_right (rw_loads w) kept"
    "graph_query (registered_load_pinned fp w (tc_registry ctx)) w say ctx kept args = (kept', sent, Inr d)"
  shows "kept_right (rw_loads w) kept' \<and> dict_get d ''freshness'' = Some (PStr ''unknown'')
    \<and> (\<exists>solution operation v snapshots gs nodes edges truncated warnings.
        identifier_argument args ''solution_id'' = Inr solution \<and> operation_argument args = Inr operation
        \<and> dict_get d ''solution_id'' = Some (PStr solution) \<and> query_vector w ctx solution = Inr v
        \<and> (if get_field args ''project_id'' = PNone \<and> get_field args ''project_ids'' = PNone
           then set (map ls_project_id snapshots) = granted ctx solution else names_projects args (map ls_project_id snapshots))
        \<and> (\<forall>x \<in> set snapshots. \<exists>pin \<in> set (cv_available v). \<exists>m. cm_project_id (mp_member pin) = ls_project_id x
             \<and> content_of (rw_loads w) (cm_generation_id (mp_member pin)) x m \<and> m_project_id m = ls_project_id x)
        \<and> scope_of_snapshots snapshots = Inr gs
        \<and> dict_get d ''project_generations'' = Some (project_generations_value gs)
        \<and> dict_get d ''catalog_generation_id'' = Some (PStr (sha256_hex (catalog_text gs)))
        \<and> (get_field args ''catalog_generation_id'' \<noteq> PNone \<longrightarrow>
             get_field args ''catalog_generation_id'' = PStr (sha256_hex (catalog_text gs)))
        \<and> (\<forall>p g. (p, g) \<in> set (generations gs) \<longleftrightarrow> (\<exists>x \<in> set snapshots. ls_project_id x = p \<and> ls_generation_id x = g))
        \<and> answer_of (rw_fold w) operation args gs = Inr (nodes, edges, truncated, warnings)
        \<and> (\<exists>n k. dict_get d ''nodes'' = Some (PList (take n nodes)) \<and> dict_get d ''edges'' = Some (PList (take k edges))
             \<and> (truncated \<or> n < length nodes \<or> k < length edges \<longrightarrow> dict_get d ''truncated'' = Some (PBool True))))"
  using assms
proof (rule registered.query_answer)
  fix q v vs gs
  assume q: "check_request ctx args = Inr q" "query_vector w ctx (cq_solution q) = Inr v" "kept_right (rw_loads w) kept'"
    "scope_of_snapshots vs = Inr gs" "map ls_project_id vs = cq_projects q"
    "scoped_answer w say ctx args (cq_operation q) (cq_solution q) (cq_projects q) (cq_pinned q) gs = Inr d"
    and all: "list_all2 (loaded_member (serves_own (rw_loads w)) ctx (cq_solution q) (cv_pins v)) (cq_projects q) vs"
  have member: "\<exists>pin \<in> set (cv_available v). \<exists>m. cm_project_id (mp_member pin) = ls_project_id x
      \<and> content_of (rw_loads w) (cm_generation_id (mp_member pin)) x m \<and> m_project_id m = ls_project_id x"
    if x: "x \<in> set vs" for x
  proof -
    obtain p where "loaded_member (serves_own (rw_loads w)) ctx (cq_solution q) (cv_pins v) p x"
      using list_all2_member_right [OF all x] by blast
    then obtain pin l where pin: "find (\<lambda>pin. cm_project_id (mp_member pin) = p) (cv_pins v) = Some pin" "pin_available pin"
      "find_location (tc_registry ctx) (cq_solution q) p QUERY_LANE = Inr l"
      "serves_own (rw_loads w) l (cm_generation_id (mp_member pin)) x"
      unfolding loaded_member_def by blast
    have "p = ls_project_id x" using find_location_root [OF assms(1) pin(3)] pin(4) by (auto simp: serves_own_def)
    moreover obtain m where "content_of (rw_loads w) (cm_generation_id (mp_member pin)) x m"
      using pin(4) by (auto simp: serves_own_def)
    ultimately show ?thesis using pin(1,2)
      by (auto simp: content_of_def cv_available_def dest!: find_Some_member)
  qed
  note req = check_request_Inr [OF q(1)]
  obtain b :: budgets and nodes edges truncated warnings document where
    pinned: "cq_pinned q = None \<or> cq_pinned q = Some (sha256_hex (catalog_text gs))"
    and answer: "answer_of (rw_fold w) (cq_operation q) args gs = Inr (nodes, edges, truncated, warnings)"
    and envelope: "build_envelope say (PStr (cq_solution q)) (ScopeSet gs) PNone (Some no_verification) nodes edges (PBool truncated)
        PNone (map (\<lambda>x. PStr (say x)) warnings) = Inr document" "packed_answer document (bu_max_bytes b) = Inr d"
    using q(6) by (rule scoped_answer_Inr) (rule that, assumption+)
  have keys: "dict_get d ''freshness'' = Some (PStr ''unknown'')" "dict_get d ''solution_id'' = Some (PStr (cq_solution q))"
      "dict_get d ''project_generations'' = Some (project_generations_value gs)"
      "dict_get d ''catalog_generation_id'' = Some (PStr (sha256_hex (catalog_text gs)))"
    by (rule envelope_identity [OF envelope])+
  have items: "\<exists>n k. dict_get d ''nodes'' = Some (PList (take n nodes)) \<and> dict_get d ''edges'' = Some (PList (take k edges))
             \<and> (truncated \<or> n < length nodes \<or> k < length edges \<longrightarrow> dict_get d ''truncated'' = Some (PBool True))"
    by (rule answer_items [OF envelope])
  have "get_field args ''catalog_generation_id'' \<noteq> PNone \<longrightarrow>
      get_field args ''catalog_generation_id'' = PStr (sha256_hex (catalog_text gs))"
    using pinned_generation_Inr pinned req(1) by fastforce
  moreover have "\<forall>p g. (p, g) \<in> set (generations gs) \<longleftrightarrow> (\<exists>x \<in> set vs. ls_project_id x = p \<and> ls_generation_id x = g)"
    using scope_generations [OF q(4)] by blast
  moreover note selected_projects [OF assms(1) q(1), folded q(5)]
  ultimately show ?thesis using q(2-4) keys items answer req(2,3) member
    by (intro conjI exI [of _ "cq_solution q"] exI [of _ "cq_operation q"] exI [of _ v] exI [of _ vs] exI [of _ gs]
        exI [of _ nodes] exI [of _ edges] exI [of _ truncated] exI [of _ warnings]) (assumption | blast)+
qed

text \<open>
  C18. An answer fits the byte budget of its request, and so the contract's 32768 bytes, whatever the
  query found, however many projects it spans and whichever source it read.
\<close>

theorem graph_query_within_budget:
  assumes "graph_query load w say ctx s args = (s', sent, Inr d)"
  shows "\<exists>b. budgets_of args = Inr b \<and> encoded_size d \<le> bu_max_bytes b \<and> bu_max_bytes b \<le> 32768
    \<and> (\<forall>n. get_field args ''max_bytes'' = PInt n \<longrightarrow> bu_max_bytes b = n)"
  using assms
proof (rule graph_query_Inr)
  fix q gs
  assume "scoped_answer w say ctx args (cq_operation q) (cq_solution q) (cq_projects q) (cq_pinned q) gs = Inr d"
  then show ?thesis
  proof (rule scoped_answer_Inr, goal_cases)
    case (1 b nodes edges truncated warnings document)
    have "\<forall>n. get_field args ''max_bytes'' = PInt n \<longrightarrow> bu_max_bytes b = n"
      using 1(3) by (auto simp: budgets_of_def budget_argument_def optional_int_def bind_result_eq_Inr split: if_splits)
    with packed_envelope [OF 1(5,6)] 1(3) show ?case by (auto simp: MAX_BYTES_def)
  qed
qed

text \<open>
  C19. The control plane hears of a query only when the request insists on fresh facts and its caller may
  reconcile: then of this request's projects, all granted, once; and such a query is never answered from
  what is there. A request refused by its arguments or its caller's scope reads nothing either.
\<close>

theorem graph_query_reconciles_only_if_allowed:
  assumes "graph_query load w say ctx s args = (s', sent, r)"
  shows "(sent \<noteq> [] \<longrightarrow> CAPABILITY_RECONCILE \<in> set (pr_capabilities (tc_principal ctx))
        \<and> get_field args ''consistency'' = PStr REQUIRE_FRESH
        \<and> (\<exists>solution projects. set projects \<subseteq> granted ctx solution \<and> sent =
             [[(''solution_id'', PStr solution), (''project_ids'', strings projects),
               (''scope'', PStr ''solution''), (''reason'', PStr ''require_fresh'')]]))
    \<and> (get_field args ''consistency'' = PStr REQUIRE_FRESH \<longrightarrow> \<not> is_ok r \<and> s' = s)
    \<and> (\<not> is_ok (check_request ctx args) \<longrightarrow> \<not> is_ok r \<and> s' = s \<and> sent = [])"
proof (cases "check_request ctx args")
  case (Inl e)
  with assms show ?thesis by (auto simp: graph_query_def)
next
  case (Inr q)
  note req = check_request_Inr(1) [OF Inr]
  have consistency: "get_field args ''consistency'' = PStr REQUIRE_FRESH \<longleftrightarrow> cq_consistency q = REQUIRE_FRESH"
    using req by (auto simp: consistency_argument_def ALLOW_STALE_def REQUIRE_FRESH_def split: pyval.splits if_splits)
  show ?thesis
  proof (cases "cq_consistency q = REQUIRE_FRESH")
    case True
    with assms Inr req consistency show ?thesis
      by (auto simp: graph_query_def require_fresh_def Let_def split: if_splits option.splits)
  next
    case False
    with assms Inr req consistency show ?thesis by (auto simp: graph_query_def split: prod.splits)
  qed
qed

section \<open>Where the tool falls short of its operation\<close>

lemma map_sum_Inr: "map_sum id f r = Inr y \<longleftrightarrow> (\<exists>x. r = Inr x \<and> y = f x)"
  by (cases r) auto

lemma schema_of_none:
  assumes "\<forall>gr \<in> snd ` set (gs_by_project gs). g_schema_major gr = None"
  shows "schema_of gs = None"
proof -
  have "g_schema_major gr = None" if gr: "gr \<in> set (gs_graphs gs)" for gr
  proof (rule bspec [OF assms])
    obtain k where k: "k \<in> fst ` set (gs_by_project gs)" "gr = the (map_of (gs_by_project gs) k)"
      using gr by (auto simp: gs_graphs_def values_by_key_def)
    then obtain x where "map_of (gs_by_project gs) k = Some x" by (metis map_of_eq_None_iff not_None_eq)
    with k(2) show "gr \<in> snd ` set (gs_by_project gs)" by (auto dest!: map_of_SomeD intro: rev_image_eqI)
  qed
  then have "set (map g_schema_major (gs_graphs gs)) \<subseteq> {None}" by auto
  then have "set (remdups (map g_schema_major (gs_graphs gs))) \<subseteq> {None}" by (simp only: set_remdups)
  then show ?thesis unfolding schema_of_def
    by (cases "remdups (map g_schema_major (gs_graphs gs))") (simp_all only: list.set, simp_all split: list.split)
qed

text \<open>
  The \<open>changes\<close> operation of the tool never compares anything: a graph read from a snapshot has no schema
  major, so even a baseline that is the scope itself is refused as \<open>unknown_schema\<close>, and the answer
  carries no facts, although the operation is documented to answer the head side of a comparable diff.
\<close>

theorem changes_tool_never_compares:
  assumes "scope_of_snapshots vs = Inr gs" "answer_of cf ''changes'' args gs = Inr (nodes, edges, truncated, warnings)"
  shows "nodes = [] \<and> edges = [] \<and> warnings \<noteq> []"
proof -
  have none: "schema_of gs = None"
    using scope_of_snapshots_members [OF assms(1)] by (intro schema_of_none) (elim conjE)
  have refused: "\<not> chr_comparable r" if "changes (ScopeSet gs) b None = Inr r" "b = None \<or> b = Some (ScopeSet gs)" for b r
    using that none by (auto simp: changes_def head_subset_def refused_def bind_result_eq_Inr)
  obtain r where "compare_changes gs args = Inr r" "(nodes, edges, truncated, warnings) = change_parts args r"
    using assms(2) by (auto simp: answer_of_def engine_call_def bind_result_eq_Inr Let_def map_sum_Inr)
  then show ?thesis
    using refused
    by (auto simp: compare_changes_def change_parts_def bind_result_eq_Inr Let_def split: if_splits)
qed

lemma fold_result_steps: "fold_result f a xs = Inr b \<Longrightarrow> x \<in> set xs \<Longrightarrow> \<exists>c d. f c x = Inr d"
  by (induction xs arbitrary: a) (auto simp: bind_result_eq_Inr)

lemma fold_add_shard_coverage:
  "fold_result add_shard acc shards = Inr (ns, es, c) \<Longrightarrow> \<forall>x \<in> set shards. sh_role x \<noteq> ''coverage'' \<Longrightarrow> c = snd (snd acc)"
  by (induction shards arbitrary: acc) (auto simp: bind_result_eq_Inr add_shard_def split: prod.splits if_splits)

text \<open>
  A generation that publishes no coverage shard is never answered from, whatever is asked: its graph has
  no coverage and the envelope refuses it as a corrupt snapshot, although a manifest without such a shard
  is valid and carries the coverage itself, and the reader is documented to read only nodes and edges.
\<close>

theorem snapshot_without_coverage_is_refused:
  assumes "scope_of_snapshots vs = Inr gs" "v \<in> set vs" "\<forall>x \<in> set (ls_shards v). sh_role x \<noteq> ''coverage''"
  shows "scoped_answer w say ctx args operation solution projects wanted gs \<noteq> Inr d"
proof
  assume "scoped_answer w say ctx args operation solution projects wanted gs = Inr d"
  then show False
  proof (rule scoped_answer_Inr, goal_cases)
    case (1 b nodes edges truncated warnings document)
    obtain gr where gr: "graph_from_snapshot v = Inr gr" "map_of (gs_by_project gs) (ls_project_id v) = Some gr"
      using scope_of_snapshots_members [OF assms(1)] assms(2) by auto
    from gr(1) obtain ns es c where "fold_result add_shard ([], [], None) (ls_shards v) = Inr (ns, es, c)" "g_coverage gr = c"
      by (auto simp: graph_from_snapshot_def bind_result_eq_Inr dest: graph_from_documents_ids split: prod.splits)
    with fold_add_shard_coverage [OF _ assms(3)] have none: "g_coverage gr = None" by fastforce
    have "ls_project_id v \<in> fst ` set (gs_by_project gs)" using map_of_SomeD [OF gr(2)] by force
    then have "gr \<in> set (gs_graphs gs)"
      using gr(2) by (auto simp: gs_graphs_def values_by_key_def intro!: rev_image_eqI [of "ls_project_id v"])
    moreover obtain r where "aggregate_coverage (ScopeSet gs) = Inr r"
      using 1(5) by (rule build_envelope_Inr) simp
    then obtain worst where "fold_result worst_member 0 (gs_graphs gs) = Inr worst"
      by (auto simp: aggregate_coverage_def bind_result_eq_Inr)
    ultimately obtain x y where "worst_member x gr = Inr y" using fold_result_steps [of worst_member] by metis
    with none show False by (simp add: worst_member_def)
  qed
qed

end
