(* ===== verification/QueryExample.thy ===== *)
theory QueryExample
  imports QueryFacts SessionExample
begin

text \<open>
  A query on the example host, for the witnesses of the catalog, the registered source and the
  \<open>graph_query\<close> tool: the registry of \<open>Registry\<close>, the catalog and the generation of \<open>SessionExample\<close>.
\<close>

section \<open>The catalog of the example\<close>

definition exq_member :: catalog_member where
  "exq_member = \<lparr>cm_project_id = ''app'', cm_generation_id = exs_id, cm_source_fingerprint = ex_digest\<rparr>"

definition exq_catalog :: catalog where
  "exq_catalog = \<lparr>ca_schema_version = 1, ca_solution_id = ''shop'', ca_analysis_profile = ''catalog'',
     ca_coverage = ''complete_for_profile'', ca_members = [exq_member], ca_data = exs_catalog_raw\<rparr>"

lemma exs_catalog_parses:
  "exs_loads exs_catalog_raw = Some (PDict exs_catalog_document)"
  "exs_loads exs_pointer_raw = Some (PDict exs_pointer_document)"
  using exs_texts_differ by (auto simp: exs_loads_def)

lemma exq_documents:
  "ascii_value (PDict exs_catalog_document)" "canonicalization_reasons (PDict exs_catalog_document) = []"
  "ascii_value (PDict exs_pointer_document)" "canonicalization_reasons (PDict exs_pointer_document) = []"
proof -
  have "ascii ex_digest" by code_simp
  then show "ascii_value (PDict exs_catalog_document)"
    by (simp add: exs_catalog_document_def exs_id_def sha256_hex_ascii)
qed (simp_all add: exs_catalog_document_def exs_pointer_document_def canonicalization_reasons.simps sha256_hex_ascii)

lemma exq_member_added: "add_member [] (PDict [(''project_id'', PStr ''app''), (''generation_id'', PStr exs_id),
    (''source_fingerprint'', PStr ex_digest)]) = Inr [exq_member]"
proof -
  have "IDENTIFIER_RE ''app''" by code_simp
  then show ?thesis
    by (simp add: add_member_def catalog_object_def guard_result_def NAME_ONLY_KEYS_def dict_has_iff catalog_exact_keys_def
        CATALOG_MEMBER_KEYS_def catalog_identifier_def catalog_sha256_def get_field_def exs_id_hex ex_digest_RE exq_member_def)
qed

lemma exq_catalog_loaded: "load_catalog_bytes exs_loads exs_catalog_raw = Inr exq_catalog"
proof -
  have can: "canonical_bytes (PDict exs_catalog_document) = Inr exs_catalog_raw"
    unfolding exs_catalog_raw_def by (rule canonical_parse(1) [OF exq_documents(1,2)])
  have ascii: "ascii exs_catalog_raw" using dumps_ascii [OF exq_documents(1)]
    by (simp add: exs_catalog_raw_def newline_def del: dumps.simps)
  then have utf: "utf8_ok (map of_char exs_catalog_raw)" by (rule ascii_utf8)
  have "take 3 exs_catalog_raw \<noteq> UTF8_BOM"
    unfolding exs_catalog_raw_def by (rule dumps_dict_no_bom)
  with can utf have "is_canonical_bytes exs_loads exs_catalog_raw"
    by (simp add: is_canonical_bytes_iff exs_catalog_parses)
  moreover have "IDENTIFIER_RE ''shop''" by code_simp
  ultimately show ?thesis
    using utf exq_member_added
    by (simp add: load_catalog_bytes_def exs_catalog_parses catalog_object_def)
      (simp add: exs_catalog_document_def catalog_major_def catalog_exact_keys_def guard_result_def catalog_identifier_def
        catalog_text_field_def catalog_coverage_def catalog_projects_def get_field_def CATALOG_REQUIRED_def
        CATALOG_SCHEMA_VERSION_def CATALOG_COVERAGE_STATUSES_def exq_catalog_def)
qed

section \<open>The pinned vector of the example\<close>

definition exq_pointer :: pointer where
  "exq_pointer = \<lparr>p_generation_id = sha256_hex exs_catalog_raw, p_manifest_sha256 = sha256_hex exs_catalog_raw,
     p_schema_version = 1, p_raw = exs_pointer_raw\<rparr>"

lemma exq_pointer_loaded: "load_pointer_bytes exs_loads exs_pointer_raw = Inr exq_pointer"
proof -
  have "canonical_bytes (PDict exs_pointer_document) = Inr exs_pointer_raw"
    unfolding exs_pointer_raw_def by (rule canonical_parse(1) [OF exq_documents(3,4)])
  moreover have "parse_document exs_loads exs_pointer_raw = Inr exs_pointer_document"
    using canonical_parse(2) [OF exq_documents(3,4), of exs_loads]
    by (simp add: exs_pointer_raw_def [symmetric] exs_catalog_parses del: dumps.simps)
  ultimately show ?thesis
    by (simp add: load_pointer_bytes_def require_canonical_def)
      (simp add: exs_pointer_document_def require_schema_major_def get_field_def SUPPORTED_SCHEMA_MAJOR_def
        require_exact_keys_def POINTER_REQUIRED_def guard_result_def sha256_field_def sha256_hex_RE exq_pointer_def)
qed

definition exq_catalog_dir :: "string list" where
  "exq_catalog_dir = [''src'', ''web'', ''.axiom'', ''graph'', ''shop'', ''_catalog'', ''live'']"

definition exq_catalog_location :: catalog_location where
  "exq_catalog_location = \<lparr>cl_solution_id = ''shop'', cl_lane = ''live'', cl_root = NPath ''/'' exq_catalog_dir\<rparr>"

lemma exq_locations:
  "find_catalog_location ex_registry ''shop'' QUERY_LANE = Inr exq_catalog_location"
  "find_location ex_registry ''shop'' ''app'' QUERY_LANE = Inr exs_location"
  unfolding exq_catalog_location_def exq_catalog_dir_def exs_location_def exs_dir_def by code_simp+

lemma generation_root_of:
  assumes "SHA256_RE g"
  shows "generation_root (NPath ''/'' ps) g = Inr (NPath ''/'' (ps @ [''generations'', g]))"
proof -
  have "segment ''generations''" by (simp add: segment_def)
  then show ?thesis
    using assms SHA256_RE_segment [OF assms]
    by (simp add: generation_root_def generation_directory_name_def generations_root_def GENERATIONS_DIRNAME_def
        joinpath_segment)
qed

lemma joinpath_names:
  "joinpath p ''manifest.json'' = NPath (path_root p) (path_parts p @ [''manifest.json''])"
  "joinpath p ''current.json'' = NPath (path_root p) (path_parts p @ [''current.json''])"
  using joinpath_segment [of "''manifest.json''"] joinpath_segment [of "''current.json''"] by (simp_all add: segment_def)

lemma exq_catalog_served: "load_solution_catalog exs_loads exs_host exq_catalog_location = Inr exq_catalog"
proof -
  let ?g = "sha256_hex exs_catalog_raw"
  have "?g \<noteq> ''app''" using length_sha256_hex [of exs_catalog_raw] by auto
  moreover have "''app'' \<notin> set exq_catalog_dir" by (simp add: exq_catalog_dir_def)
  ultimately have catalog: "load_catalog exs_loads exs_host (NPath ''/'' (exq_catalog_dir @ [''generations'', ?g, ''manifest.json'']))
      = Inr exq_catalog"
    by (simp add: load_catalog_def exs_host_def path_name_def exq_catalog_loaded)
  have "ca_generation_id exq_catalog = ?g" by (simp add: ca_generation_id_def exq_catalog_def)
  moreover have "h_read exs_host (NPath ''/'' (exq_catalog_dir @ [''current.json''])) = Some exs_pointer_raw"
    by (simp add: exs_host_def path_name_def)
  moreover have "p_generation_id exq_pointer = ?g" by (simp add: exq_pointer_def)
  moreover have "generation_root (NPath ''/'' exq_catalog_dir) ?g = Inr (NPath ''/'' (exq_catalog_dir @ [''generations'', ?g]))"
    by (rule generation_root_of) (rule sha256_hex_RE)
  ultimately have "load_pinned_catalog_generation exs_loads exs_host exq_catalog_location
      = Inr (exq_catalog, NPath ''/'' (exq_catalog_dir @ [''generations'', ?g]))"
    using catalog
    by (simp add: load_pinned_catalog_generation_def exq_catalog_location_def pointer_path_def CURRENT_POINTER_NAME_def
        joinpath_names CATALOG_FILENAME_def read_bytes_def exq_pointer_loaded path_name_def)
  then show ?thesis by (simp add: load_solution_catalog_def)
qed

definition exq_pin :: member_pin where
  "exq_pin = \<lparr>mp_member = exq_member, mp_status = AVAILABLE,
     mp_generation_dir = Some (NPath ''/'' (exs_dir @ [''generations'', exs_id])), mp_manifest = Some exs_manifest,
     mp_reason = None\<rparr>"

definition exq_vector :: catalog_vector where
  "exq_vector = \<lparr>cv_catalog_generation_id = ca_generation_id exq_catalog, cv_solution_id = ''shop'',
     cv_coverage = ''complete_for_profile'', cv_pins = [exq_pin]\<rparr>"

lemma exq_member_opened:
  "project_member_opener exs_loads exs_host (\<lambda>p. find_location ex_registry ''shop'' p QUERY_LANE) exq_member
     = Inr (exs_manifest, NPath ''/'' (exs_dir @ [''generations'', exs_id]))"
proof -
  have "read_bytes (h_read exs_host (NPath ''/'' (exs_dir @ [''generations'', exs_id, ''manifest.json'']))) = Inr exs_raw"
    by (simp add: read_bytes_def exs_host_def path_name_def exs_dir_app)
  moreover have "m_source_fingerprint exs_manifest = ex_digest" by (simp add: exs_manifest_def ex_manifest_def)
  ultimately show ?thesis
    by (simp add: project_member_opener_def exq_member_def exq_locations exs_generation_root MANIFEST_FILENAME_def
        joinpath_names exs_loaded exs_manifest_id)
qed

lemma exq_pinned:
  "pin_catalog (project_member_opener exs_loads exs_host (\<lambda>p. find_location ex_registry ''shop'' p QUERY_LANE)) exq_catalog
     = Inr exq_vector"
proof -
  have "ca_vector exq_catalog = [exq_member]" by (simp add: ca_vector_def exq_catalog_def)
  then show ?thesis
    by (simp add: pin_catalog_def pin_member_def exq_member_opened exq_vector_def exq_pin_def)
      (simp add: exq_catalog_def)
qed

section \<open>The registered source on the example\<close>

definition exq_world :: read_world where
  "exq_world = \<lparr>rw_fold = (\<lambda>s. s), rw_loads = exs_loads, rw_host = exs_host, rw_waits = (\<lambda>_. exs_outcome),
     rw_started = 0, rw_ended = 1\<rparr>"

definition exq_retention :: "source_key retention" where
  "exq_retention = \<lparr>r_max_bytes = 64, r_max_entries = 4, r_entries = [], r_bytes = 0, r_hits = 0, r_misses = 0,
     r_evictions = 0\<rparr>"

lemma exq_kept: "kept_right exs_loads (Some exq_retention)"
  by (simp add: kept_right_def retention_ok_def retained_def exq_retention_def Store.within_def)

abbreviation exq_load ::
  "source_key retention option \<Rightarrow> snapshot_location \<Rightarrow> string \<Rightarrow> source_key retention option \<times> (read_failure + loaded_snapshot)" where
  "exq_load \<equiv> registered_load_pinned (\<lambda>_ _. 1) exq_world ex_registry"

lemma exq_guarded:
  assumes "gd_timeout_ms src = DEFAULT_SOURCE_TIMEOUT_MS" "gd_limits src = None"
  shows "snd (guarded_load exq_world src exs_location (Some exs_id)) = Inr exs_snapshot"
proof -
  have "source_session src exs_location (Some exs_id) = exs_session"
    by (simp add: source_session_def exs_session_def assms)
  moreover have "is_ok (resolve_timeout_ms (PInt 5000))" by code_simp
  then obtain t where "resolve_timeout_ms (PInt 5000) = Inr t" by (auto simp: is_ok_iff)
  ultimately show ?thesis
    by (simp add: guarded_load_def assms DEFAULT_SOURCE_TIMEOUT_MS_def exq_world_def exs_load)
qed

lemma exq_selected: "under_reader exq_world 1 (selected_manifest exq_world exs_location exs_id) = Inr exs_manifest"
proof -
  have "read_bounded exs_host (NPath ''/'' (exs_dir @ [''generations'', exs_id, ''manifest.json''])) 4194304 = Inr exs_raw"
    using exs_raw_short by (simp add: read_bounded_def exs_host_def path_name_def exs_dir_app)
  then have "selected_manifest exq_world exs_location exs_id = Inr exs_manifest"
    by (simp add: selected_manifest_def exs_generation_root exq_world_def MANIFEST_FILENAME_def joinpath_names exs_loaded
        exs_manifest_id raising_def)
      (simp add: exs_location_def exs_manifest_def ex_manifest_def)
  moreover have "ordered_enter new_guard READER_SPECS [''admission.lock''] (PInt 1) exs_outcome
      = (\<lparr>held = [(''data.lock'', Shared)], closed = False\<rparr>, Inr ())" by code_simp
  ultimately show ?thesis by (simp add: under_reader_def ordered_def exq_world_def)
qed

lemma exq_loaded: "\<exists>kept. exq_load (Some exq_retention) exs_location exs_id = (Some kept, Inr exs_snapshot)"
proof -
  have "is_ok (source_for ex_registry exs_location)" unfolding exs_location_def exs_dir_def by code_simp
  then obtain src where src: "source_for ex_registry exs_location = Inr src" by (auto simp: is_ok_iff)
  then have "gd_timeout_ms src = DEFAULT_SOURCE_TIMEOUT_MS" "gd_limits src = None"
    by (auto simp: source_for_def bind_result_eq_Inr)
  from exq_guarded [OF this] src exq_selected show ?thesis
    by (simp add: registered_load_pinned_def)
      (simp add: exq_world_def exs_host_def cached_load_def retention_get_def exq_retention_def retention_put_def Let_def)
qed

section \<open>The query of the example\<close>

definition exq_principal :: principal where
  "exq_principal = \<lparr>pr_token_id = ''t'', pr_capabilities = [CAPABILITY_READ], pr_solution_ids = [''shop''],
     pr_project_ids = Some [''app'']\<rparr>"

definition exq_context :: tool_context where
  "exq_context = \<lparr>tc_registry = ex_registry, tc_principal = exq_principal, tc_control = None, tc_clock = 0,
     tc_cursors = empty_store\<rparr>"

definition exq_arguments :: arguments where
  "exq_arguments = [(''solution_id'', PStr ''shop''), (''operation'', PStr ''search''), (''query'', PStr ''main'')]"

definition exq_request :: checked_request where
  "exq_request = \<lparr>cq_operation = ''search'', cq_solution = ''shop'', cq_consistency = ALLOW_STALE, cq_pinned = None,
     cq_projects = [''app'']\<rparr>"

lemma exq_checked: "check_request exq_context exq_arguments = Inr exq_request"
  by code_simp

lemma exq_query_vector: "query_vector exq_world exq_context ''shop'' = Inr exq_vector"
  by (simp add: query_vector_def exq_context_def exq_locations exq_world_def exq_catalog_served exq_pinned raising_def)

definition exq_graph :: graph where
  "exq_graph = \<lparr>g_project = ''app'', g_generation = exs_id, g_nodes = [], g_edges = [], g_coverage = Some exs_coverage,
     g_schema_major = None, g_by_id = [], g_outgoing = [], g_incoming = []\<rparr>"

lemma exq_graph_read: "graph_from_snapshot exs_snapshot = Inr exq_graph"
proof -
  have "IDENTIFIER_RE ''app''" by code_simp
  moreover have "ls_project_id exs_snapshot = ''app''" "ls_generation_id exs_snapshot = exs_id" "ls_shards exs_snapshot = [exs_shard]"
    by (simp_all add: exs_snapshot_def snapshot_of_def exs_generation_def)
  ultimately show ?thesis
    by (simp add: graph_from_snapshot_def add_shard_def exs_shard_def graph_from_documents_def
        make_graph_def identifier_text_def sha256_text_def exs_id_hex exq_graph_def exs_coverage_def)
qed

definition exq_scope :: graph_set where
  "exq_scope = \<lparr>gs_by_project = [(''app'', exq_graph)], gs_missing = [], gs_nodes = [], gs_outgoing = [], gs_incoming = []\<rparr>"

lemma exq_scope_built: "scope_of_snapshots [exs_snapshot] = Inr exq_scope"
  by (simp add: scope_of_snapshots_def exq_graph_read set_add_graph_def empty_graph_set_def set_missing_def exq_scope_def
      sorted_set_def) (simp add: exq_graph_def dict_has_iff)

lemma exq_members_loaded:
  "\<exists>kept. load_members exq_load exq_context ''shop'' (cv_pins exq_vector) (Some exq_retention) [''app''] = (kept, Inr [exs_snapshot])"
proof -
  have "is_ok (require_access exq_principal CAPABILITY_READ (Some ''shop'') (Some [''app'']))" by code_simp
  then have "require_access exq_principal CAPABILITY_READ (Some ''shop'') (Some [''app'']) = Inr ()" by (simp add: is_ok_iff)
  with exq_loaded show ?thesis
    by (auto simp: exq_vector_def exq_pin_def exq_member_def pin_available_def load_pinned_project_def exq_context_def
        exq_locations raising_def)
qed

text \<open>Nothing is found: the scope is empty, and the answer says so.\<close>

definition exq_warnings :: "warning list" where
  "exq_warnings = [Warning ''no_symbol_matched'' [] []]"

definition exq_index :: symbol_index where
  "exq_index = \<lparr>si_projects = [''app''], si_count = 0, si_by_id = [], si_by_qualified = [], si_by_name = [],
     si_by_folded_qualified = [], si_by_folded_name = [], si_scan = []\<rparr>"

lemma exq_index_built: "build_symbol_index (\<lambda>s. s) exq_scope = exq_index"
  by (simp add: build_symbol_index_def nodes_sorted_def exq_scope_def project_ids_def index_nodes_def in_scan_order_def
      values_by_key_def Let_def exq_index_def)

definition exq_found :: search_result where
  "exq_found = \<lparr>s_query = ''main'', s_candidates = [], s_scanned = 0, s_pinned = 0, s_limit = DEFAULT_MAX_NODES,
     s_max_nodes = DEFAULT_MAX_NODES, s_truncated = False, s_warnings = exq_warnings\<rparr>"

lemma exq_symbols:
  "search_symbols (\<lambda>s. s) (ScopeSet exq_scope) (PStr ''main'') None None PNone (PInt DEFAULT_MAX_NODES) = Inr exq_found"
proof -
  have "strip ''main'' = ''main''" by code_simp
  moreover have "exact_lookup (\<lambda>s. s) exq_index ''main'' = []"
    by (simp add: exq_index_def exact_lookup_def exact_hits_def dict_items_def)
  moreover have "bounded_int (PInt DEFAULT_MAX_NODES) 1 MAX_NODES (Some DEFAULT_MAX_NODES) = Inr DEFAULT_MAX_NODES"
    "bounded_int PNone 1 MAX_NODES (Some DEFAULT_MAX_NODES) = Inr DEFAULT_MAX_NODES" "0 < DEFAULT_MAX_NODES" by code_simp+
  moreover have "si_scan exq_index = []" "si_count exq_index = 0" by (simp_all add: exq_index_def)
  ultimately show ?thesis
    by (simp add: search_symbols_def narrow_scope_def exq_index_built gather_def search_ambiguous_def dict_fill_def Let_def)
      (simp add: exq_found_def exq_warnings_def)
qed

lemma exq_search: "answer_of (\<lambda>s. s) ''search'' exq_arguments exq_scope = Inr ([], [], False, exq_warnings)"
proof -
  have "budgets_of exq_arguments = Inr \<lparr>bu_depth = DEFAULT_DEPTH, bu_max_nodes = DEFAULT_MAX_NODES,
      bu_max_edges = DEFAULT_MAX_EDGES, bu_max_bytes = DEFAULT_MAX_BYTES\<rparr>"
    "choice_list_argument exq_arguments ''projection'' PROJECTIONS = Inr None"
    "choice_list_argument exq_arguments ''edge_kinds'' (sort EDGE_KINDS) = Inr None"
    "get_field exq_arguments ''direction'' = PNone" "require_text exq_arguments ''query'' = Inr ''main''"
    by code_simp+
  then show ?thesis
    by (simp add: answer_of_def guard_result_def engine_call_def exq_symbols search_parts_def search_ambiguous_def raising_def
        Let_def) (simp add: exq_found_def)
qed

lemma exq_scope_lists: "project_ids exq_scope = [''app'']" "gs_graphs exq_scope = [exq_graph]"
    "generations exq_scope = [(''app'', exs_id)]" "gs_missing exq_scope = []"
  by (simp_all add: project_ids_def gs_graphs_def values_by_key_def generations_def exq_scope_def)
    (simp add: exq_graph_def)

definition exq_document :: "(string, pyval) dict" where
  "exq_document =
     [(''schema_version'', PInt 1), (''solution_id'', PStr ''shop''),
      (''catalog_generation_id'', PStr (sha256_hex (catalog_text exq_scope))),
      (''project_generations'', PList [PDict [(''project_id'', PStr ''app''), (''generation_id'', PStr exs_id)]]),
      (''freshness'', PStr ''unknown''), (''coverage'', PStr ''partial''),
      (''verification'', PDict (verification_as_document no_verification)), (''nodes'', PList []), (''edges'', PList []),
      (''truncated'', PBool False), (''warnings'', PList [PStr ''w'', PStr ''w''])]"

lemma exq_envelope:
  "build_envelope (\<lambda>_. ''w'') (PStr ''shop'') (ScopeSet exq_scope) PNone (Some no_verification) [] [] (PBool False) PNone
     [PStr ''w''] = Inr exq_document"
proof -
  have "coverage_status exq_graph = ''partial''"
    by (simp add: coverage_status_def exq_graph_def exs_coverage_def)
  moreover have "''partial'' \<in> set COVERAGE" "COVERAGE_SEVERITY ! severity ''partial'' = ''partial''" by code_simp+
  moreover have "g_coverage exq_graph = Some exs_coverage" "exs_coverage \<noteq> []" by (simp_all add: exq_graph_def exs_coverage_def)
  ultimately have "aggregate_coverage (ScopeSet exq_scope) = Inr (''partial'', [])"
    by (simp add: aggregate_coverage_def exq_scope_lists worst_member_def)
  moreover have "IDENTIFIER_RE ''shop''" by code_simp
  ultimately show ?thesis
    by (simp add: build_envelope_def identifier_text_def resolve_freshness_def FRESHNESS_UNKNOWN_def catalog_generation_id_def
        envelope_items_def envelope_warnings_def exq_scope_lists optional_text_def SCHEMA_VERSION_def exq_document_def
        text_value_def Let_def)
qed

lemma exq_small: "encoded_size exq_document \<le> DEFAULT_MAX_BYTES"
proof -
  have "plain (sha256_hex s)" for s
    using sha256_hex_hex [of s] hex_plain by (auto simp: plain_def list_all_iff)
  moreover have "list_all plain [''schema_version'', ''solution_id'', ''shop'', ''catalog_generation_id'', ''project_generations'',
      ''project_id'', ''app'', ''generation_id'', ''freshness'', ''unknown'', ''coverage'', ''partial'', ''verification'',
      ''nodes'', ''edges'', ''truncated'', ''warnings'', ''w'', ''mode'', ''none'']" by code_simp
  moreover have "item_size (PInt 1) = 1" "item_size (PBool False) = 5" by code_simp+
  ultimately have "item_size (PDict exq_document) < 8000"
    by (simp add: exq_document_def item_size_PDict item_size_PList entry_size_def item_size_PStr length_json_string
        length_sha256_hex exs_id_def verification_as_document_def no_verification_def VERIFICATION_NONE_def)
  then show ?thesis by (simp add: encoded_size_item DEFAULT_MAX_BYTES_def del: dumps.simps)
qed

lemma exq_answered:
  "\<exists>kept. graph_query exq_load exq_world (\<lambda>_. ''w'') exq_context (Some exq_retention) exq_arguments = (kept, [], Inr exq_document)"
proof -
  have budgets: "budgets_of exq_arguments = Inr \<lparr>bu_depth = DEFAULT_DEPTH, bu_max_nodes = DEFAULT_MAX_NODES,
      bu_max_edges = DEFAULT_MAX_EDGES, bu_max_bytes = DEFAULT_MAX_BYTES\<rparr>" "get_field exq_arguments ''cursor'' = PNone"
    "bounded_int (PInt DEFAULT_MAX_BYTES) MIN_BYTES MAX_BYTES (Some DEFAULT_MAX_BYTES) = Inr DEFAULT_MAX_BYTES"
    by code_simp+
  have packed: "packed_answer exq_document DEFAULT_MAX_BYTES = Inr exq_document"
    using exq_small by (simp add: packed_answer_def pack_response_def mapping_value_def budgets fits_def raising_def)
  have answer: "scoped_answer exq_world (\<lambda>_. ''w'') exq_context exq_arguments ''search'' ''shop'' [''app''] None exq_scope = Inr exq_document"
    using exq_search exq_envelope
    by (simp add: scoped_answer_def catalog_generation_id_def check_cursor_def budgets exq_world_def exq_warnings_def packed
        raising_def)
  obtain kept where "load_members exq_load exq_context ''shop'' (cv_pins exq_vector) (Some exq_retention) [''app''] = (kept, Inr [exs_snapshot])"
    using exq_members_loaded by blast
  then show ?thesis
    by (simp add: graph_query_def exq_checked exq_request_def ALLOW_STALE_def REQUIRE_FRESH_def load_scope_def
        exq_query_vector exq_scope_built answer raising_def)
qed

section \<open>The witnesses\<close>

lemma exq_registry_ok: "registry_ok drive_prefix (tc_registry exq_context)"
  using parse_registry_valid(1) [OF ex_registry_parsed] by (simp add: exq_context_def)

lemma exq_kept_world: "kept_right (rw_loads exq_world) (Some exq_retention)"
  using exq_kept by (simp add: exq_world_def)

lemma exq_document_keys:
  "dict_get exq_document ''solution_id'' = Some (PStr ''shop'')"
  "dict_get exq_document ''project_generations''
     = Some (PList [PDict [(''project_id'', PStr ''app''), (''generation_id'', PStr exs_id)]])"
  by (simp_all add: exq_document_def)

theorem graph_query_answers_granted_witness: "granted exq_context ''shop'' = {''app''}"
proof -
  obtain kept where q: "graph_query exq_load exq_world (\<lambda>_. ''w'') exq_context (Some exq_retention) exq_arguments
      = (kept, [], Inr exq_document)" using exq_answered by blast
  have r: "tc_registry exq_context = ex_registry" by (simp add: exq_context_def)
  have none: "get_field exq_arguments ''project_id'' = PNone" "get_field exq_arguments ''project_ids'' = PNone" by code_simp+
  from graph_query_answers_granted [OF exq_registry_ok exq_kept_world, unfolded r, OF q] none obtain solution gens where
    "dict_get exq_document ''solution_id'' = Some (PStr solution)"
    "dict_get exq_document ''project_generations''
       = Some (PList (map (\<lambda>p. PDict [(''project_id'', PStr (fst p)), (''generation_id'', PStr (snd p))]) gens))"
    "set (map fst gens) = granted exq_context solution" by auto
  then show ?thesis unfolding exq_document_keys by (auto simp: map_eq_Cons_conv)
qed

theorem graph_query_answers_pinned_witness:
  "\<exists>snapshot m. content_of exs_loads exs_id snapshot m \<and> m_project_id m = ''app''
     \<and> (\<exists>gs. scope_of_snapshots [snapshot] = Inr gs \<and> is_ok (answer_of (\<lambda>s. s) ''search'' exq_arguments gs))"
proof -
  obtain kept where q: "graph_query exq_load exq_world (\<lambda>_. ''w'') exq_context (Some exq_retention) exq_arguments
      = (kept, [], Inr exq_document)" using exq_answered by blast
  have r: "tc_registry exq_context = ex_registry" "rw_loads exq_world = exs_loads" "rw_fold exq_world = (\<lambda>s. s)"
    by (simp_all add: exq_context_def exq_world_def)
  from graph_query_answers_pinned [OF exq_registry_ok exq_kept_world, unfolded r, OF q]
  obtain operation snapshots gs nodes edges truncated warnings where gs:
    "operation_argument exq_arguments = Inr operation"
    "\<forall>x \<in> set snapshots. \<exists>g m. content_of exs_loads g x m \<and> m_project_id m = ls_project_id x"
    "scope_of_snapshots snapshots = Inr gs"
    "dict_get exq_document ''project_generations'' = Some (project_generations_value gs)"
    "\<forall>p g. (p, g) \<in> set (generations gs) \<longleftrightarrow> (\<exists>x \<in> set snapshots. ls_project_id x = p \<and> ls_generation_id x = g)"
    "answer_of (\<lambda>s. s) operation exq_arguments gs = Inr (nodes, edges, truncated, warnings)"
    by (elim conjE exE) (rule that, (assumption | blast)+)
  have exq_operation: "operation_argument exq_arguments = Inr ''search''" by code_simp
  have op: "operation = ''search''" using gs(1) exq_operation by simp
  from gs(4) have gens: "generations gs = [(''app'', exs_id)]"
    unfolding exq_document_keys project_generations_value_def by (auto simp: map_eq_Cons_conv)
  have "length (project_ids gs) = length snapshots" using scope_generations [OF gs(3)] by simp
  moreover have "length (project_ids gs) = 1" using arg_cong [OF gens, of length] by (simp add: generations_def)
  ultimately have "length snapshots = 1" by simp
  then obtain x where x: "snapshots = [x]" by (auto simp: length_Suc_conv)
  with gs(5) gens have ids: "ls_project_id x = ''app'' \<and> ls_generation_id x = exs_id" by auto
  from gs(2) x obtain g m where "content_of exs_loads g x m" "m_project_id m = ls_project_id x" by auto
  with ids have "content_of exs_loads exs_id x m \<and> m_project_id m = ''app''" by (simp add: content_of_def)
  moreover have "is_ok (answer_of (\<lambda>s. s) ''search'' exq_arguments gs)" using gs(6) op by simp
  ultimately show ?thesis using gs(3) x by blast
qed

theorem graph_query_within_budget_witness: "encoded_size exq_document \<le> 32768"
proof -
  obtain kept where "graph_query exq_load exq_world (\<lambda>_. ''w'') exq_context (Some exq_retention) exq_arguments
      = (kept, [], Inr exq_document)" using exq_answered by blast
  from graph_query_within_budget [OF this] show ?thesis by auto
qed

text \<open>A request for fresh facts by a caller that may not reconcile.\<close>

theorem graph_query_reconciles_only_if_allowed_witness:
  "\<exists>r. graph_query exq_load exq_world (\<lambda>_. ''w'') exq_context None ((''consistency'', PStr REQUIRE_FRESH) # exq_arguments)
       = (None, [], r) \<and> \<not> is_ok r"
proof -
  let ?args = "(''consistency'', PStr REQUIRE_FRESH) # exq_arguments"
  obtain s' sent r where q: "graph_query exq_load exq_world (\<lambda>_. ''w'') exq_context None ?args = (s', sent, r)"
    using prod_cases3 by blast
  have "get_field ?args ''consistency'' = PStr REQUIRE_FRESH" by (simp add: get_field_def)
  moreover have "CAPABILITY_RECONCILE \<notin> set (pr_capabilities (tc_principal exq_context))" by code_simp
  ultimately have "s' = None \<and> sent = [] \<and> \<not> is_ok r"
    using graph_query_reconciles_only_if_allowed [OF q] by blast
  with q show ?thesis by blast
qed

theorem registered_source_serves_pinned_witness: "\<exists>m. content_of exs_loads exs_id exs_snapshot m"
proof -
  obtain kept where "exq_load (Some exq_retention) exs_location exs_id = (Some kept, Inr exs_snapshot)"
    using exq_loaded by blast
  from registered_source_serves_pinned [OF exq_kept_world this] show ?thesis by (auto simp: exq_world_def)
qed

theorem catalog_vector_is_pinned_witness:
  "\<exists>d m. pinned_manifest exs_loads exs_host (\<lambda>p. find_location ex_registry ''shop'' p QUERY_LANE) exq_member d m"
proof -
  have "exq_pin \<in> set (cv_available exq_vector)"
    by (simp add: cv_available_def exq_vector_def pin_available_def exq_pin_def)
  moreover have "mp_member exq_pin = exq_member" by (simp add: exq_pin_def)
  ultimately show ?thesis
    using catalog_vector_is_pinned [OF exq_catalog_served exq_pinned] by metis
qed

end
