(* ===== verification/Hosts.thy ===== *)
theory Hosts
  imports Texts
begin

text \<open>
  The \<open>Host\<close> and \<open>Origin\<close> policy of \<open>security.py\<close>. \<open>lower\<close> is \<open>str.lower\<close> and \<open>isdigit\<close> is
  \<open>str.isdigit\<close>, which need the tables of Unicode; what is proved holds for every such pair, under the
  named laws where one is needed. An allowlist is the list of its entries.
\<close>

section \<open>Headers\<close>

text \<open>\<open>str.partition\<close>: what stands before and after the first occurrence.\<close>

fun partition_at :: "string \<Rightarrow> string \<Rightarrow> (string \<times> string) option" where
  "partition_at p [] = (if p = [] then Some ([], []) else None)"
| "partition_at p (c # s) =
     (if starts_with p (c # s) then Some ([], drop (length p) (c # s))
      else map_option (\<lambda>(a, b). (c # a, b)) (partition_at p s))"

definition has_wildcard :: "string \<Rightarrow> bool" where
  "has_wildcard s = (CHR ''*'' \<in> set s)"

definition normalize_host_header :: "(string \<Rightarrow> string) \<Rightarrow> (string \<Rightarrow> bool) \<Rightarrow> string \<Rightarrow> string" where
  "normalize_host_header lower isdigit value =
     (let candidate = lower (strip value) in
      if candidate = [] then []
      else if starts_with ''['' candidate then
        (case partition_at '']'' candidate of
           None \<Rightarrow> []
         | Some (inside, rest) \<Rightarrow>
             if rest = [] then inside @ '']''
             else if starts_with '':'' rest \<and> isdigit (drop 1 rest) then inside @ '']'' @ '':'' @ drop 1 rest
             else [])
      else if \<exists>c \<in> set ''@/?#'' \<union> {CHR 0x5C}. c \<in> set candidate then []
      else if length (filter (\<lambda>c. c = CHR '':'') candidate) > 1 then []
      else
        (let (host, port) = (case partition_at '':'' candidate of None \<Rightarrow> (candidate, []) | Some p \<Rightarrow> p) in
         if host = [] then []
         else if port \<noteq> [] \<and> \<not> isdigit port then []
         else candidate))"

definition split_host_port :: "string \<Rightarrow> string \<times> string" where
  "split_host_port value =
     (if starts_with ''['' value then
        (case partition_at '']'' value of
           None \<Rightarrow> ([], [])
         | Some (inside, rest) \<Rightarrow> (inside @ '']'', if starts_with '':'' rest then drop 1 rest else []))
      else (case partition_at '':'' value of None \<Rightarrow> (value, []) | Some p \<Rightarrow> p))"

text \<open>The body of the loop over the allowlist: whether one entry admits the header.\<close>

definition entry_admits :: "(string \<Rightarrow> string) \<Rightarrow> (string \<Rightarrow> bool) \<Rightarrow> string \<times> string \<Rightarrow> string \<Rightarrow> bool" where
  "entry_admits lower isdigit target entry =
     (let candidate = lower (strip entry) in
      if candidate = [] \<or> has_wildcard candidate then False
      else
        (let entry_norm = normalize_host_header lower isdigit candidate in
         if entry_norm = [] then False
         else
           (let (entry_host, entry_port) = split_host_port entry_norm in
            entry_host = fst target \<and> (entry_port = [] \<or> entry_port = snd target))))"

definition host_allowed :: "(string \<Rightarrow> string) \<Rightarrow> (string \<Rightarrow> bool) \<Rightarrow> string \<Rightarrow> string list \<Rightarrow> bool" where
  "host_allowed lower isdigit host_header allowed_hosts =
     (let normalized = normalize_host_header lower isdigit host_header in
      if normalized = [] then False
      else list_ex (entry_admits lower isdigit (split_host_port normalized)) allowed_hosts)"

definition normalize_origin :: "(string \<Rightarrow> string) \<Rightarrow> (string \<Rightarrow> bool) \<Rightarrow> string \<Rightarrow> string" where
  "normalize_origin lower isdigit value =
     (let candidate = lower (strip value) in
      if candidate = [] \<or> candidate = ''null'' \<or> has_wildcard candidate then []
      else (case partition_at ''://'' candidate of
          None \<Rightarrow> []
        | Some (scheme, rest) \<Rightarrow>
            if scheme \<notin> {''http'', ''https''} then []
            else if rest = [] \<or> (\<exists>c \<in> set ''/?#@''. c \<in> set rest) then []
            else
              (let (host, port) = split_host_port rest in
               if host = [] then []
               else if port \<noteq> [] \<and> \<not> isdigit port then []
               else if port \<noteq> [] then scheme @ ''://'' @ host @ '':'' @ port
               else scheme @ ''://'' @ host)))"

definition origin_allowed :: "(string \<Rightarrow> string) \<Rightarrow> (string \<Rightarrow> bool) \<Rightarrow> string option \<Rightarrow> string list \<Rightarrow> bool" where
  "origin_allowed lower isdigit origin allowed_origins =
     (case origin of
        None \<Rightarrow> True
      | Some given \<Rightarrow>
          if strip given = [] then True
          else
            (let normalized = normalize_origin lower isdigit given in
             if normalized = [] then False
             else list_ex (\<lambda>entry. normalize_origin lower isdigit entry = normalized) allowed_origins))"

section \<open>The policy\<close>

record security_policy =
  sp_allowed_hosts :: "string list"
  sp_allowed_origins :: "string list"

text \<open>\<open>SecurityPolicy.__post_init__\<close>; a refusal is a \<open>VALIDATION_ERROR\<close>.\<close>

definition policy_ok :: "(string \<Rightarrow> string) \<Rightarrow> (string \<Rightarrow> bool) \<Rightarrow> security_policy \<Rightarrow> bool" where
  "policy_ok lower isdigit p =
     (sp_allowed_hosts p \<noteq> [] \<and> sp_allowed_origins p \<noteq> []
      \<and> list_all (\<lambda>h. \<not> has_wildcard h \<and> normalize_host_header lower isdigit h \<noteq> []) (sp_allowed_hosts p)
      \<and> list_all (\<lambda>g. \<not> has_wildcard g \<and> normalize_origin lower isdigit g \<noteq> []) (sp_allowed_origins p))"

definition build_policy ::
    "(string \<Rightarrow> string) \<Rightarrow> (string \<Rightarrow> bool) \<Rightarrow> string list \<Rightarrow> string list \<Rightarrow> string + security_policy" where
  "build_policy lower isdigit hosts origins =
     (let p = \<lparr>sp_allowed_hosts = map (\<lambda>h. lower (strip h)) (filter (\<lambda>h. strip h \<noteq> []) hosts),
               sp_allowed_origins = map (\<lambda>g. lower (strip g)) (filter (\<lambda>g. strip g \<noteq> []) origins)\<rparr>
      in if policy_ok lower isdigit p then Inr p else Inl ''VALIDATION_ERROR'')"

definition policy_allows ::
    "(string \<Rightarrow> string) \<Rightarrow> (string \<Rightarrow> bool) \<Rightarrow> security_policy \<Rightarrow> string option \<Rightarrow> string option \<Rightarrow> bool" where
  "policy_allows lower isdigit p host_header origin =
     (host_allowed lower isdigit (case host_header of None \<Rightarrow> [] | Some h \<Rightarrow> h) (sp_allowed_hosts p)
      \<and> origin_allowed lower isdigit origin (sp_allowed_origins p))"

definition loopback_policy ::
    "(string \<Rightarrow> string) \<Rightarrow> (string \<Rightarrow> bool) \<Rightarrow> int \<Rightarrow> string list option \<Rightarrow> string list option \<Rightarrow> string + security_policy" where
  "loopback_policy lower isdigit port hosts origins =
     (let at = (\<lambda>prefix. prefix @ int_repr port) in
      build_policy lower isdigit
        (case hosts of Some hs \<Rightarrow> hs | None \<Rightarrow> map at [''127.0.0.1:'', ''localhost:'', ''[::1]:''])
        (case origins of Some gs \<Rightarrow> gs
         | None \<Rightarrow> map at [''http://127.0.0.1:'', ''http://localhost:'', ''http://[::1]:'']))"

section \<open>What is let in\<close>

lemma partition_at_Some: "partition_at p s = Some (a, b) \<Longrightarrow> s = a @ p @ b"
proof (induction s arbitrary: a)
  case (Cons c s)
  then show ?case by (fastforce simp: starts_with_iff split: if_splits)
qed (auto split: if_splits)

lemma partition_at_char:
  "partition_at [c] s = (if c \<in> set s then Some (takeWhile (\<lambda>x. x \<noteq> c) s, drop 1 (dropWhile (\<lambda>x. x \<noteq> c) s)) else None)"
  by (induction s) (auto simp: starts_with_def)

lemma partition_at_first: "c \<notin> set a \<Longrightarrow> partition_at [c] (a @ c # b) = Some (a, b)"
  by (induction a) (auto simp: starts_with_def)

lemma starts_with_char: "starts_with [c] s \<longleftrightarrow> (\<exists>t. s = c # t)"
  by (auto simp: starts_with_iff)

text \<open>A normal host header is its host, or its host and port.\<close>

lemma normalize_host_split:
  assumes "normalize_host_header L D v = n" "n \<noteq> []"
  obtains host port where "split_host_port n = (host, port)" "host \<noteq> []"
    "n = host \<and> port = [] \<or> n = host @ '':'' @ port \<and> (port = [] \<or> D port)"
proof (cases "starts_with ''['' (L (strip v))")
  case True
  with assms obtain inside rest where p: "partition_at '']'' (L (strip v)) = Some (inside, rest)"
    and n: "if rest = [] then n = inside @ '']'' else starts_with '':'' rest \<and> D (drop 1 rest) \<and> n = inside @ '']'' @ '':'' @ drop 1 rest"
    by (fastforce simp: normalize_host_header_def Let_def split: if_splits option.splits)
  from p have inside: "CHR '']'' \<notin> set inside"
    by (auto simp: partition_at_char split: if_splits dest: set_takeWhileD)
  have "starts_with ''['' inside"
    using True partition_at_Some [OF p] by (cases inside) (auto simp: starts_with_char)
  then have s: "starts_with ''['' (inside @ t)" for t by (auto simp: starts_with_char)
  show thesis
  proof (cases "rest = []")
    case rest: True
    then have "split_host_port n = (inside @ '']'', [])"
      using n s [of "'']''"] partition_at_first [OF inside, of "[]"] by (simp add: split_host_port_def starts_with_def)
    with n rest show thesis by (intro that [of "inside @ '']''" "[]"]) auto
  next
    case False
    then have n': "n = (inside @ '']'') @ '':'' @ drop 1 rest" "D (drop 1 rest)" using n by auto
    then have "split_host_port n = (inside @ '']'', drop 1 rest)"
      using s [of "CHR '']'' # CHR '':'' # drop 1 rest"] partition_at_first [OF inside, of "CHR '':'' # drop 1 rest"]
      by (simp add: split_host_port_def starts_with_def)
    with n' show thesis by (intro that [of "inside @ '']''" "drop 1 rest"]) auto
  qed
next
  case False
  let ?c = "L (strip v)"
  from assms False have n: "n = ?c" and port: "case partition_at '':'' ?c of None \<Rightarrow> True
      | Some (host, port) \<Rightarrow> host \<noteq> [] \<and> (port = [] \<or> D port)"
    by (auto simp: normalize_host_header_def Let_def split: if_splits option.splits)
  show thesis
  proof (cases "partition_at '':'' ?c")
    case None
    with False n assms(2) show thesis by (intro that [of ?c "[]"]) (auto simp: split_host_port_def)
  next
    case (Some hp)
    obtain h p where hp: "hp = (h, p)" by force
    with False n port Some partition_at_Some [of "'':''" ?c h p] show thesis
      by (intro that [of h p]) (auto simp: split_host_port_def)
  qed
qed

lemma host_allowed_listed:
  assumes "host_allowed L D h hosts"
  shows "\<exists>e \<in> set hosts. \<exists>host port. split_host_port (normalize_host_header L D (L (strip e))) = (host, port) \<and> host \<noteq> []
    \<and> \<not> has_wildcard (L (strip e))
    \<and> (if port \<noteq> [] then normalize_host_header L D h = normalize_host_header L D (L (strip e))
       else normalize_host_header L D h = host
         \<or> (\<exists>q. (q = [] \<or> D q) \<and> normalize_host_header L D h = host @ '':'' @ q))"
proof -
  let ?n = "normalize_host_header L D h"
  from assms have n: "?n \<noteq> []" and ex: "list_ex (entry_admits L D (split_host_port ?n)) hosts"
    by (auto simp: host_allowed_def Let_def split: if_splits)
  from ex obtain e where e: "e \<in> set hosts" "entry_admits L D (split_host_port ?n) e" by (auto simp: list_ex_iff)
  let ?m = "normalize_host_header L D (L (strip e))"
  from e(2) have m: "?m \<noteq> []" "\<not> has_wildcard (L (strip e))"
    and same: "fst (split_host_port ?m) = fst (split_host_port ?n)"
      "snd (split_host_port ?m) = [] \<or> snd (split_host_port ?m) = snd (split_host_port ?n)"
    by (auto simp: entry_admits_def Let_def split: if_splits prod.splits)
  obtain eh ep where me: "split_host_port ?m = (eh, ep)" "eh \<noteq> []" "?m = eh \<and> ep = [] \<or> ?m = eh @ '':'' @ ep \<and> (ep = [] \<or> D ep)"
    by (rule normalize_host_split [OF refl m(1)])
  obtain nh np where ne: "split_host_port ?n = (nh, np)" "nh \<noteq> []" "?n = nh \<and> np = [] \<or> ?n = nh @ '':'' @ np \<and> (np = [] \<or> D np)"
    by (rule normalize_host_split [OF refl n])
  have "eh = nh" "ep = [] \<or> ep = np" using same me(1) ne(1) by auto
  then have "if ep \<noteq> [] then ?n = ?m else ?n = eh \<or> (\<exists>q. (q = [] \<or> D q) \<and> ?n = eh @ '':'' @ q)"
    using me(3) ne(3) by auto
  with e(1) me(1,2) m(2) show ?thesis by blast
qed

lemma normalize_origin_plain:
  assumes "normalize_origin L D g \<noteq> []" "CHR ''['' \<notin> set (L (strip g))"
  shows "L (strip g) = normalize_origin L D g \<or> L (strip g) = normalize_origin L D g @ '':''"
proof -
  obtain scheme rest where p: "partition_at ''://'' (L (strip g)) = Some (scheme, rest)"
    and n: "normalize_origin L D g = (let (host, port) = split_host_port rest in
      if host = [] then [] else if port \<noteq> [] \<and> \<not> D port then []
      else if port \<noteq> [] then scheme @ ''://'' @ host @ '':'' @ port else scheme @ ''://'' @ host)"
    using assms(1) by (auto simp: normalize_origin_def Let_def split: if_splits option.splits)
  have whole: "L (strip g) = scheme @ ''://'' @ rest" by (rule partition_at_Some [OF p])
  with assms(2) have "\<not> starts_with ''['' rest" by (auto simp: starts_with_char)
  then have "split_host_port rest = (case partition_at '':'' rest of None \<Rightarrow> (rest, []) | Some q \<Rightarrow> q)"
    by (simp add: split_host_port_def)
  with n assms(1) whole show ?thesis
    by (auto simp: Let_def split: option.splits prod.splits if_splits dest!: partition_at_Some)
qed

text \<open>
  A request is let in only by name. It has a host header which, in normal form, is an entry of the allowlist, or the
  host of an entry that names no port, with whatever port; a wildcard entry admits nothing. A present
  origin without brackets is, lower-cased, an entry in normal form, up to an empty port.
\<close>

theorem policy_admits_only_listed:
  assumes "policy_allows L D p host origin" "L [] = []"
  shows "(\<exists>h. host = Some h \<and> (\<exists>e \<in> set (sp_allowed_hosts p). \<exists>name port.
        split_host_port (normalize_host_header L D (L (strip e))) = (name, port) \<and> name \<noteq> [] \<and> \<not> has_wildcard (L (strip e))
        \<and> (if port \<noteq> [] then normalize_host_header L D h = normalize_host_header L D (L (strip e))
           else normalize_host_header L D h = name
             \<or> (\<exists>q. (q = [] \<or> D q) \<and> normalize_host_header L D h = name @ '':'' @ q))))
    \<and> (\<forall>g. origin = Some g \<longrightarrow> strip g \<noteq> [] \<longrightarrow> CHR ''['' \<notin> set (L (strip g)) \<longrightarrow>
        (\<exists>e \<in> set (sp_allowed_origins p). normalize_origin L D e \<noteq> []
           \<and> (L (strip g) = normalize_origin L D e \<or> L (strip g) = normalize_origin L D e @ '':'')))"
proof -
  have host: "host_allowed L D (case host of None \<Rightarrow> [] | Some h \<Rightarrow> h) (sp_allowed_hosts p)"
    and origin: "origin_allowed L D origin (sp_allowed_origins p)"
    using assms(1) by (simp_all add: policy_allows_def)
  have "strip [] = []" by code_simp
  then have "\<not> host_allowed L D [] hosts" for hosts
    using assms(2) by (simp add: host_allowed_def normalize_host_header_def)
  with host obtain h where h: "host = Some h" "host_allowed L D h (sp_allowed_hosts p)" by (cases host) auto
  have "\<exists>e \<in> set (sp_allowed_origins p). normalize_origin L D e \<noteq> []
      \<and> (L (strip g) = normalize_origin L D e \<or> L (strip g) = normalize_origin L D e @ '':'')"
    if "origin = Some g" "strip g \<noteq> []" "CHR ''['' \<notin> set (L (strip g))" for g
  proof -
    have "normalize_origin L D g \<noteq> []" "list_ex (\<lambda>e. normalize_origin L D e = normalize_origin L D g) (sp_allowed_origins p)"
      using origin that by (auto simp: origin_allowed_def Let_def split: if_splits)
    with normalize_origin_plain [of L D g] that(3) show ?thesis unfolding list_ex_iff by metis
  qed
  with h host_allowed_listed [OF h(2)] show ?thesis by blast
qed

definition ascii_lower :: "string \<Rightarrow> string" where
  "ascii_lower = map (\<lambda>c. if 65 \<le> (of_char c :: nat) \<and> (of_char c :: nat) \<le> 90
     then char_of ((of_char c :: nat) + 32) else c)"

definition ascii_isdigit :: "string \<Rightarrow> bool" where
  "ascii_isdigit s = (s \<noteq> [] \<and> list_all is_digit s)"

theorem policy_admits_only_listed_witness:
  "\<exists>p. build_policy ascii_lower ascii_isdigit ['' h:1 ''] [''http://h:1''] = Inr p
     \<and> (\<exists>e \<in> set (sp_allowed_origins p). ''http://h:1'' = normalize_origin ascii_lower ascii_isdigit e)"
proof -
  let ?p = "\<lparr>sp_allowed_hosts = [''h:1''], sp_allowed_origins = [''http://h:1'']\<rparr>"
  have p: "build_policy ascii_lower ascii_isdigit ['' h:1 ''] [''http://h:1''] = Inr ?p" by code_simp
  have allowed: "policy_allows ascii_lower ascii_isdigit ?p (Some ''H:1'') (Some ''HTTP://h:1'')" by code_simp
  have plain: "ascii_lower [] = []" "strip ''HTTP://h:1'' \<noteq> []"
    "ascii_lower (strip ''HTTP://h:1'') = ''http://h:1''" by code_simp+
  from policy_admits_only_listed [OF allowed plain(1)] plain(2,3)
  obtain e where "e \<in> set (sp_allowed_origins ?p)" "''http://h:1'' = normalize_origin ascii_lower ascii_isdigit e
      \<or> ''http://h:1'' = normalize_origin ascii_lower ascii_isdigit e @ '':''" by auto
  with p show ?thesis by (intro exI [of _ ?p]) auto
qed

text \<open>
  A bracketed origin is not compared as a whole: whatever follows the bracket, other than a port, is
  dropped. So an allowlist with the origin \<open>http://[::1]\<close> admits an origin that merely starts with it,
  although a lookalike host is documented to be refused rather than folded into the match.
\<close>

theorem origin_after_bracket_is_dropped:
  assumes "L (strip g) = ''http://[::1]'' @ rest" "\<not> starts_with '':'' rest"
    "set rest \<inter> {CHR ''/'', CHR ''?'', CHR ''#'', CHR ''@'', CHR ''*''} = {}"
  shows "normalize_origin L D g = ''http://[::1]''"
proof -
  have "partition_at ''://'' (''http://[::1]'' @ rest) = Some (''http'', ''[::1]'' @ rest)"
    by (simp add: starts_with_def)
  moreover have "partition_at '']'' (''[::1]'' @ rest) = Some (''[::1'', rest)"
    using partition_at_first [of "CHR '']''" "''[::1''" rest] by simp
  then have "split_host_port (''[::1]'' @ rest) = (''[::1]'', [])"
    using assms(2) by (simp add: split_host_port_def starts_with_def)
  ultimately show ?thesis
    using assms(1,3) by (auto simp: normalize_origin_def has_wildcard_def Let_def)
qed

end
