(* ===== verification/Security.thy ===== *)
theory Security
  imports Hosts Tools Source Graphs
begin

text \<open>
  The bearer tokens of \<open>security.py\<close> and the middleware that guards the endpoint. A token value lives
  only as its digest. The tables of a registry are association lists; the environment is a dictionary
  and a credential file what the host answers. A request body arrives in messages; the JSON parser is the
  argument \<open>loads\<close>, \<open>lower\<close>, \<open>upper\<close> and \<open>isdigit\<close> are the Unicode operations of \<open>str\<close>.
\<close>

section \<open>Errors and tables\<close>

definition MCP_AUDIENCE :: string where "MCP_AUDIENCE = ''axiom-mcp''"
definition CONTROL_AUDIENCE :: string where "CONTROL_AUDIENCE = ''axiom-graphd-control''"

definition KNOWN_CAPABILITIES :: "string list" where
  "KNOWN_CAPABILITIES = [CAPABILITY_READ, CAPABILITY_RECONCILE, CAPABILITY_CHECKPOINT]"

definition MUTATION_CAPABILITIES :: "string list" where
  "MUTATION_CAPABILITIES = [CAPABILITY_RECONCILE, CAPABILITY_CHECKPOINT]"

definition TOOL_CAPABILITY :: "(string, string) dict" where
  "TOOL_CAPABILITY =
     [(''graph_status'', CAPABILITY_READ), (''graph_query'', CAPABILITY_READ), (''graph_version'', CAPABILITY_READ),
      (''graph_reconcile'', CAPABILITY_RECONCILE), (''graph_job'', CAPABILITY_RECONCILE),
      (''graph_verify'', CAPABILITY_CHECKPOINT)]"

definition ERROR_STATUS :: "(string, int) dict" where
  "ERROR_STATUS =
     [(''VALIDATION_ERROR'', 400), (''UNAUTHENTICATED'', 401), (''FORBIDDEN'', 403), (''NOT_FOUND'', 404),
      (''CONFLICT'', 409), (''INCOMPATIBLE_INPUT'', 422), (''RATE_LIMITED'', 429), (''NOT_READY'', 503)]"

definition DEFAULT_MAX_BODY_BYTES :: int where "DEFAULT_MAX_BODY_BYTES = 262144"
definition MCP_ENDPOINT_PATH :: string where "MCP_ENDPOINT_PATH = ''/mcp''"

text \<open>
  A \<open>SecurityError\<close> of a registered code; \<open>UnicodeFailed\<close> is the \<open>UnicodeDecodeError\<close> of a credential
  file that is not UTF-8, which no caller turns into one.
\<close>

datatype security_error = SecurityError string string | UnicodeFailed

definition security_status :: "security_error \<Rightarrow> int option" where
  "security_status e = (case e of SecurityError code _ \<Rightarrow> dict_get ERROR_STATUS code | UnicodeFailed \<Rightarrow> None)"

definition error_as_dict :: "security_error \<Rightarrow> string \<Rightarrow> (string, pyval) dict" where
  "error_as_dict e request_id =
     (case e of
        SecurityError code message \<Rightarrow>
          [(''code'', PStr code), (''message'', PStr message), (''retryable'', PBool False), (''details'', PDict []),
           (''request_id'', PStr request_id)]
      | UnicodeFailed \<Rightarrow> [])"

section \<open>Tokens\<close>

record scoped_token =
  tk_token_id :: string
  tk_audience :: string
  tk_capabilities :: "string list"
  tk_solution_ids :: "string list"
  tk_project_ids :: "string list option"

text \<open>\<open>ScopedToken.__post_init__\<close>: what a constructed token satisfies.\<close>

definition token_ok :: "scoped_token \<Rightarrow> bool" where
  "token_ok t =
     (strip (tk_token_id t) \<noteq> [] \<and> strip (tk_audience t) \<noteq> [] \<and> tk_capabilities t \<noteq> []
      \<and> set (tk_capabilities t) \<subseteq> set KNOWN_CAPABILITIES
      \<and> tk_solution_ids t \<noteq> [] \<and> list_all (\<lambda>s. strip s \<noteq> []) (tk_solution_ids t)
      \<and> (case tk_project_ids t of None \<Rightarrow> True | Some ps \<Rightarrow> list_all (\<lambda>p. strip p \<noteq> []) ps))"

definition make_token ::
    "string \<Rightarrow> string \<Rightarrow> string list \<Rightarrow> string list \<Rightarrow> string list option \<Rightarrow> security_error + scoped_token" where
  "make_token token_id audience capabilities solution_ids projects =
     (let invalid = (\<lambda>m. Inl (SecurityError ''VALIDATION_ERROR'' m)) in
      if strip token_id = [] then invalid ''token_id must not be empty''
      else if strip audience = [] then invalid ''token audience must not be empty''
      else if capabilities = [] then invalid ''token must carry at least one capability''
      else if \<not> set capabilities \<subseteq> set KNOWN_CAPABILITIES then invalid ''token carries an unregistered capability''
      else if solution_ids = [] \<or> list_ex (\<lambda>s. strip s = []) solution_ids
      then invalid ''token must be scoped to at least one solution''
      else if (case projects of None \<Rightarrow> False | Some ps \<Rightarrow> list_ex (\<lambda>p. strip p = []) ps)
      then invalid ''project scope entries must not be empty''
      else Inr \<lparr>tk_token_id = token_id, tk_audience = audience, tk_capabilities = capabilities,
                tk_solution_ids = solution_ids, tk_project_ids = projects\<rparr>)"

definition token_read_only :: "scoped_token \<Rightarrow> bool" where
  "token_read_only t = (set (tk_capabilities t) \<inter> set MUTATION_CAPABILITIES = {})"

definition token_allows :: "scoped_token \<Rightarrow> string \<Rightarrow> string option \<Rightarrow> string option \<Rightarrow> bool" where
  "token_allows t capability solution_id project_id =
     (if capability \<notin> set (tk_capabilities t) then False
      else if (case solution_id of None \<Rightarrow> False | Some s \<Rightarrow> s \<notin> set (tk_solution_ids t)) then False
      else (case (project_id, tk_project_ids t) of (Some p, Some ps) \<Rightarrow> p \<in> set ps | _ \<Rightarrow> True))"

definition principal_of :: "scoped_token \<Rightarrow> principal" where
  "principal_of t =
     \<lparr>pr_token_id = tk_token_id t, pr_capabilities = tk_capabilities t, pr_solution_ids = tk_solution_ids t,
      pr_project_ids = tk_project_ids t\<rparr>"

section \<open>Token references\<close>

datatype token_reference = EnvTokenReference string | FileTokenReference npath

text \<open>\<open>str.splitlines\<close> ends a line at each of these; the first line is what stands before the first one.\<close>

definition LINE_ENDS :: "string list" where
  "LINE_ENDS = map (\<lambda>c. [c]) [CHR 0x0A, CHR 0x0B, CHR 0x0C, CHR 0x0D, CHR 0x1C, CHR 0x1D, CHR 0x1E]
     @ [[CHR 0xC2, CHR 0x85], [CHR 0xE2, CHR 0x80, CHR 0xA8], [CHR 0xE2, CHR 0x80, CHR 0xA9]]"

fun first_line :: "string \<Rightarrow> string" where
  "first_line [] = []"
| "first_line (c # s) = (if list_ex (\<lambda>e. starts_with e (c # s)) LINE_ENDS then [] else c # first_line s)"

definition some_text :: "string \<Rightarrow> string option" where
  "some_text s = (if s = [] then None else Some s)"

definition resolve_reference ::
    "(string, string) dict \<Rightarrow> host \<Rightarrow> token_reference \<Rightarrow> security_error + string option" where
  "resolve_reference env h r =
     (case r of
        EnvTokenReference v \<Rightarrow>
          Inr (case dict_get env v of None \<Rightarrow> None | Some value \<Rightarrow> some_text (strip value))
      | FileTokenReference p \<Rightarrow>
          (case h_read h p of
             None \<Rightarrow> Inr None
           | Some text \<Rightarrow>
               if \<not> utf8_ok (map of_char text) then Inl UnicodeFailed
               else Inr (some_text (strip (first_line text)))))"

text \<open>\<open>str\<close> of a path: never empty, as the path without parts prints as a dot.\<close>

definition path_str :: "npath \<Rightarrow> string" where
  "path_str p = (let s = path_root p @ join_with ''/'' (path_parts p) in if s = [] then ''.'' else s)"

definition token_reference_from_config ::
    "(string \<Rightarrow> string) \<Rightarrow> (string, pyval) dict \<Rightarrow> security_error + token_reference" where
  "token_reference_from_config lower config =
     (let invalid = (\<lambda>m. Inl (SecurityError ''VALIDATION_ERROR'' m));
          text = (\<lambda>k. case dict_get config k of None \<Rightarrow> [] | Some v \<Rightarrow> py_str v)
      in
      if list_ex (dict_has config) [''token'', ''value'', ''secret'']
      then invalid ''configuration must carry a token reference, not a token value''
      else
        (let kind = lower (strip (text ''kind'')) in
         if kind = ''env'' then
           (if strip (text ''variable'') = [] then invalid ''token reference variable must not be empty''
            else Inr (EnvTokenReference (text ''variable'')))
         else if kind = ''file'' then
           (if strip (path_str (pure_path (text ''path''))) = [] then invalid ''token reference path must not be empty''
            else Inr (FileTokenReference (pure_path (text ''path''))))
         else invalid (''token reference kind must be '' @ [CHR 0x27] @ ''env'' @ [CHR 0x27] @ '' or '' @ [CHR 0x27] @ ''file'' @ [CHR 0x27])))"

section \<open>The registry of tokens\<close>

record token_registry =
  tr_audience :: string
  tr_ids_by_digest :: "(string, string) dict"
  tr_tokens_by_id :: "(string, scoped_token) dict"

definition new_token_registry :: "string \<Rightarrow> security_error + token_registry" where
  "new_token_registry audience =
     (if strip audience = [] then Inl (SecurityError ''VALIDATION_ERROR'' ''registry audience must not be empty'')
      else Inr \<lparr>tr_audience = audience, tr_ids_by_digest = [], tr_tokens_by_id = []\<rparr>)"

definition registry_size :: "token_registry \<Rightarrow> nat" where
  "registry_size r = length (tr_tokens_by_id r)"

definition register_token ::
    "(string, string) dict \<Rightarrow> host \<Rightarrow> token_registry \<Rightarrow> token_reference \<Rightarrow> scoped_token
       \<Rightarrow> security_error + token_registry \<times> string" where
  "register_token env h r reference scope =
     (if tk_audience scope \<noteq> tr_audience r
      then Inl (SecurityError ''VALIDATION_ERROR'' ''registered token audience does not match the registry audience'')
      else
        bind_result (resolve_reference env h reference) (\<lambda>value.
          (case value of
             None \<Rightarrow> Inl (SecurityError ''UNAUTHENTICATED'' ''token reference did not resolve to a value'')
           | Some v \<Rightarrow>
               if dict_has (tr_ids_by_digest r) (sha256_hex v)
               then Inl (SecurityError ''VALIDATION_ERROR'' ''token reference is already registered'')
               else Inr (r\<lparr>tr_ids_by_digest := dict_set (sha256_hex v) (tk_token_id scope) (tr_ids_by_digest r),
                           tr_tokens_by_id := dict_set (tk_token_id scope) scope (tr_tokens_by_id r)\<rparr>,
                         tk_token_id scope))))"

definition authenticate :: "token_registry \<Rightarrow> string option \<Rightarrow> security_error + scoped_token" where
  "authenticate r presented =
     (case presented of
        None \<Rightarrow> Inl (SecurityError ''UNAUTHENTICATED'' ''a bearer token is required'')
      | Some p \<Rightarrow>
          if strip p = [] then Inl (SecurityError ''UNAUTHENTICATED'' ''a bearer token is required'')
          else (case dict_get (tr_ids_by_digest r) (sha256_hex (strip p)) of
              None \<Rightarrow> Inl (SecurityError ''UNAUTHENTICATED'' ''the presented bearer token is not recognised'')
            | Some token_id \<Rightarrow> Inr (the (dict_get (tr_tokens_by_id r) token_id))))"

definition authorize ::
    "token_registry \<Rightarrow> string option \<Rightarrow> string \<Rightarrow> string option \<Rightarrow> string option \<Rightarrow> security_error + scoped_token" where
  "authorize r presented capability solution_id project_id =
     bind_result (authenticate r presented) (\<lambda>t.
       if \<not> token_allows t capability solution_id project_id
       then Inl (SecurityError ''FORBIDDEN'' ''the bearer token does not permit this capability'')
       else Inr t)"

definition parse_authorization ::
    "(string \<Rightarrow> string) \<Rightarrow> (string \<times> string) list \<Rightarrow> security_error + string option" where
  "parse_authorization lower headers =
     (case find (\<lambda>p. lower (fst p) = ''authorization'') headers of
        None \<Rightarrow> Inr None
      | Some (_, raw) \<Rightarrow>
          (let (scheme, credentials) = (case partition_at '' '' raw of None \<Rightarrow> (raw, []) | Some p \<Rightarrow> p) in
           if lower (strip scheme) \<noteq> ''bearer'' \<or> strip credentials = []
           then Inl (SecurityError ''UNAUTHENTICATED'' ''authorization must use the Bearer scheme'')
           else Inr (Some (strip credentials))))"

definition authorize_headers ::
    "(string \<Rightarrow> string) \<Rightarrow> token_registry \<Rightarrow> (string \<times> string) list \<Rightarrow> string \<Rightarrow> string option \<Rightarrow> string option
       \<Rightarrow> security_error + scoped_token" where
  "authorize_headers lower r headers capability solution_id project_id =
     bind_result (parse_authorization lower headers) (\<lambda>presented.
       authorize r presented capability solution_id project_id)"

section \<open>What a call asks for\<close>

definition required_capability :: "(string, pyval) dict \<Rightarrow> string option" where
  "required_capability payload =
     (if get_field payload ''method'' \<noteq> PStr ''tools/call'' then None
      else (case get_field payload ''params'' of
          PDict params \<Rightarrow>
            (case get_field params ''name'' of
               PStr name \<Rightarrow>
                 if name = [] then None
                 else Some (case dict_get TOOL_CAPABILITY name of None \<Rightarrow> CAPABILITY_READ | Some c \<Rightarrow> c)
             | _ \<Rightarrow> None)
        | _ \<Rightarrow> None))"

definition nonempty_text :: "pyval \<Rightarrow> string option" where
  "nonempty_text v = (case v of PStr s \<Rightarrow> some_text s | _ \<Rightarrow> None)"

definition call_scope :: "(string, pyval) dict \<Rightarrow> string option \<times> string list" where
  "call_scope payload =
     (case get_field payload ''params'' of
        PDict params \<Rightarrow>
          (case get_field params ''arguments'' of
             PDict args \<Rightarrow>
               (nonempty_text (get_field args ''solution_id''),
                (case nonempty_text (get_field args ''project_id'') of None \<Rightarrow> [] | Some p \<Rightarrow> [p])
                @ (case get_field args ''project_ids'' of
                     PList items \<Rightarrow> filter (\<lambda>s. s \<noteq> []) (map py_str items) | _ \<Rightarrow> []))
           | _ \<Rightarrow> (None, []))
      | _ \<Rightarrow> (None, []))"

section \<open>The body of a request\<close>

text \<open>
  What \<open>receive\<close> yields, and what the wrapped application will read: the replayed parts, the last of
  them marked as the end, then whatever the client still sends. \<open>None\<close> is a client that never ends its
  body: the middleware waits.
\<close>

datatype asgi_message = Chunk string bool | Disconnect

fun replay :: "string list \<Rightarrow> asgi_message list \<Rightarrow> asgi_message list" where
  "replay [] rest = rest"
| "replay (c # cs) rest = Chunk c (cs \<noteq> []) # replay cs rest"

fun buffer_body ::
    "int \<Rightarrow> string list \<Rightarrow> asgi_message list \<Rightarrow> (string option \<times> asgi_message list) option" where
  "buffer_body limit parts [] = None"
| "buffer_body limit parts (Disconnect # rest) = Some (Some (concat parts), replay parts rest)"
| "buffer_body limit parts (Chunk body more_body # rest) =
     (if int (length (concat (parts @ [body]))) > limit then Some (None, replay (parts @ [body]) rest)
      else if \<not> more_body then Some (Some (concat (parts @ [body])), replay (parts @ [body]) rest)
      else buffer_body limit (parts @ [body]) rest)"

text \<open>\<open>bytes.strip\<close> removes these.\<close>

definition BYTE_SPACES :: "char list" where
  "BYTE_SPACES = [CHR 0x09, CHR 0x0A, CHR 0x0B, CHR 0x0C, CHR 0x0D, CHR 0x20]"

definition decode_json :: "(string \<Rightarrow> pyval option) \<Rightarrow> string \<Rightarrow> (string, pyval) dict option" where
  "decode_json loads body =
     (if set body \<subseteq> set BYTE_SPACES then None
      else (case loads body of Some (PDict d) \<Rightarrow> Some d | _ \<Rightarrow> None))"

section \<open>The middleware\<close>

record security_middleware =
  mw_policy :: security_policy
  mw_authenticator :: token_registry
  mw_protected_path :: string
  mw_max_body_bytes :: int

record http_request =
  rq_type :: string
  rq_path :: string
  rq_method :: string
  rq_headers :: "(string \<times> string) list"
  rq_messages :: "asgi_message list"

record str_tables =
  st_lower :: "string \<Rightarrow> string"
  st_upper :: "string \<Rightarrow> string"
  st_isdigit :: "string \<Rightarrow> bool"


definition header_value :: "(string \<times> string) list \<Rightarrow> string \<Rightarrow> string option" where
  "header_value headers name = map_option snd (find (\<lambda>p. fst p = name) headers)"

definition is_protected :: "security_middleware \<Rightarrow> string \<Rightarrow> bool" where
  "is_protected mw path =
     (path = mw_protected_path mw
      \<or> starts_with (rev (dropWhile (\<lambda>c. c = CHR ''/'') (rev (mw_protected_path mw))) @ ''/'') path)"

definition check_host_origin ::
    "str_tables \<Rightarrow> security_middleware \<Rightarrow> (string \<times> string) list \<Rightarrow> security_error option" where
  "check_host_origin st mw headers =
     (if \<not> host_allowed (st_lower st) (st_isdigit st)
           (case header_value headers ''host'' of None \<Rightarrow> [] | Some h \<Rightarrow> h) (sp_allowed_hosts (mw_policy mw))
      then Some (SecurityError ''FORBIDDEN'' ''the Host header is not on the transport allowlist'')
      else if \<not> origin_allowed (st_lower st) (st_isdigit st) (header_value headers ''origin'')
                (sp_allowed_origins (mw_policy mw))
      then Some (SecurityError ''FORBIDDEN'' ''the Origin header is not on the transport allowlist'')
      else None)"

text \<open>The scope and capability of a parsed call, for an authenticated token.\<close>

definition check_call :: "scoped_token \<Rightarrow> (string, pyval) dict \<Rightarrow> security_error option" where
  "check_call t payload =
     (case required_capability payload of
        None \<Rightarrow> None
      | Some capability \<Rightarrow>
          (case call_scope payload of (solution_id, projects) \<Rightarrow>
             if (case solution_id of None \<Rightarrow> False | Some s \<Rightarrow> s \<notin> set (tk_solution_ids t))
             then Some (SecurityError ''FORBIDDEN'' ''the bearer token is not scoped to this solution'')
             else if (case tk_project_ids t of None \<Rightarrow> False | Some ps \<Rightarrow> list_ex (\<lambda>p. p \<notin> set ps) projects)
             then Some (SecurityError ''FORBIDDEN'' ''the bearer token is not scoped to this project'')
             else if capability \<notin> set (tk_capabilities t)
             then Some (SecurityError ''FORBIDDEN'' ''the bearer token lacks the required capability'')
             else None))"



section \<open>What the registry holds\<close>

text \<open>
  Every registered digest names a token of the table, under its own id, valid and of the registry's
  audience.
\<close>

definition registry_right :: "token_registry \<Rightarrow> bool" where
  "registry_right r =
     ((\<forall>digest i. dict_get (tr_ids_by_digest r) digest = Some i \<longrightarrow> (\<exists>t. dict_get (tr_tokens_by_id r) i = Some t))
      \<and> (\<forall>i t. dict_get (tr_tokens_by_id r) i = Some t \<longrightarrow>
           tk_token_id t = i \<and> tk_audience t = tr_audience r \<and> token_ok t))"

inductive registry_reachable :: "string \<Rightarrow> token_registry \<Rightarrow> bool" for audience where
  reg_new: "new_token_registry audience = Inr r \<Longrightarrow> registry_reachable audience r"
| reg_register: "registry_reachable audience r \<Longrightarrow> token_ok scope
    \<Longrightarrow> register_token env h r reference scope = Inr (r', i) \<Longrightarrow> registry_reachable audience r'"

lemma make_token_ok: "make_token i a cs ss ps = Inr t \<Longrightarrow> token_ok t"
  by (auto simp: make_token_def token_ok_def Let_def list_ex_iff list_all_iff split: if_splits option.splits)

lemma register_token_Inr:
  assumes "register_token env h r reference scope = Inr (r', i)"
  obtains v where "resolve_reference env h reference = Inr (Some v)" and "tk_audience scope = tr_audience r"
    and "\<not> dict_has (tr_ids_by_digest r) (sha256_hex v)" and "i = tk_token_id scope"
    and "r' = r\<lparr>tr_ids_by_digest := dict_set (sha256_hex v) (tk_token_id scope) (tr_ids_by_digest r),
                tr_tokens_by_id := dict_set (tk_token_id scope) scope (tr_tokens_by_id r)\<rparr>"
  using assms by (auto simp: register_token_def bind_result_eq_Inr split: if_splits option.splits)

lemma registry_right_register:
  assumes "registry_right r" "token_ok scope" "register_token env h r reference scope = Inr (r', i)"
  shows "registry_right r' \<and> tr_audience r' = tr_audience r"
  using assms(3)
proof (rule register_token_Inr)
  fix v
  assume "r' = r\<lparr>tr_ids_by_digest := dict_set (sha256_hex v) (tk_token_id scope) (tr_ids_by_digest r),
      tr_tokens_by_id := dict_set (tk_token_id scope) scope (tr_tokens_by_id r)\<rparr>"
    and "tk_audience scope = tr_audience r"
  with assms(1,2) show ?thesis by (auto simp: registry_right_def update_conv')
qed

lemma registry_reachable_right: "registry_reachable audience r \<Longrightarrow> registry_right r \<and> tr_audience r = audience"
proof (induction rule: registry_reachable.induct)
  case (reg_new r)
  then show ?case by (auto simp: new_token_registry_def registry_right_def split: if_splits)
next
  case (reg_register r scope env h reference r' i)
  with registry_right_register show ?case by metis
qed

lemma authenticate_Inr:
  "authenticate r presented = Inr t \<longleftrightarrow>
     (\<exists>p i. presented = Some p \<and> strip p \<noteq> [] \<and> dict_get (tr_ids_by_digest r) (sha256_hex (strip p)) = Some i
        \<and> t = the (dict_get (tr_tokens_by_id r) i))"
  by (auto simp: authenticate_def split: option.splits if_splits)

lemma authenticate_valid:
  assumes "registry_right r" "authenticate r presented = Inr t"
  shows "\<exists>p. presented = Some p \<and> dict_get (tr_ids_by_digest r) (sha256_hex (strip p)) = Some (tk_token_id t)
    \<and> dict_get (tr_tokens_by_id r) (tk_token_id t) = Some t \<and> tk_audience t = tr_audience r \<and> token_ok t"
proof -
  obtain p i where p: "presented = Some p" "dict_get (tr_ids_by_digest r) (sha256_hex (strip p)) = Some i"
    "t = the (dict_get (tr_tokens_by_id r) i)"
    using assms(2) by (auto simp: authenticate_Inr)
  with assms(1) obtain u where u: "dict_get (tr_tokens_by_id r) i = Some u" unfolding registry_right_def by blast
  with assms(1) have "tk_token_id u = i \<and> tk_audience u = tr_audience r \<and> token_ok u" unfolding registry_right_def by blast
  with p u show ?thesis by simp
qed

text \<open>
  C23. Who is authorised. In every registry that registrations build, a request is authorised exactly when the
  digest of its credential is registered and the token under that id carries the capability and, where
  they are named, the solution and the project; that token is valid and of the registry's audience, so a
  credential of another audience never authorises anything.
\<close>

theorem authorized_iff_registered_and_scoped:
  assumes "registry_reachable audience r"
  shows "(authorize r presented capability solution_id project_id = Inr t \<longleftrightarrow>
      (\<exists>p. presented = Some p \<and> strip p \<noteq> [] \<and> dict_get (tr_ids_by_digest r) (sha256_hex (strip p)) = Some (tk_token_id t)
         \<and> dict_get (tr_tokens_by_id r) (tk_token_id t) = Some t)
      \<and> capability \<in> set (tk_capabilities t)
      \<and> (\<forall>s. solution_id = Some s \<longrightarrow> s \<in> set (tk_solution_ids t))
      \<and> (\<forall>p ps. project_id = Some p \<longrightarrow> tk_project_ids t = Some ps \<longrightarrow> p \<in> set ps))
    \<and> (authorize r presented capability solution_id project_id = Inr t \<longrightarrow> tk_audience t = audience \<and> token_ok t)"
proof -
  note right = registry_reachable_right [OF assms]
  have auth: "authenticate r presented = Inr t \<longleftrightarrow>
      (\<exists>p. presented = Some p \<and> strip p \<noteq> [] \<and> dict_get (tr_ids_by_digest r) (sha256_hex (strip p)) = Some (tk_token_id t)
         \<and> dict_get (tr_tokens_by_id r) (tk_token_id t) = Some t)"
    using authenticate_valid [of r presented t] right by (fastforce simp: authenticate_Inr)
  have "token_allows t capability solution_id project_id \<longleftrightarrow> capability \<in> set (tk_capabilities t)
      \<and> (\<forall>s. solution_id = Some s \<longrightarrow> s \<in> set (tk_solution_ids t))
      \<and> (\<forall>p ps. project_id = Some p \<longrightarrow> tk_project_ids t = Some ps \<longrightarrow> p \<in> set ps)"
    by (auto simp: token_allows_def split: option.splits)
  moreover have "authorize r presented capability solution_id project_id = Inr t \<longleftrightarrow>
      authenticate r presented = Inr t \<and> token_allows t capability solution_id project_id"
    by (auto simp: authorize_def bind_result_eq_Inr)
  ultimately show ?thesis
    using authenticate_valid [of r presented t] right by (simp only: auth) blast
qed

section \<open>What the middleware lets through\<close>




lemma check_call_None:
  "check_call t payload = None \<longleftrightarrow>
     (\<forall>capability. required_capability payload = Some capability \<longrightarrow> capability \<in> set (tk_capabilities t)
        \<and> (\<forall>s. fst (call_scope payload) = Some s \<longrightarrow> s \<in> set (tk_solution_ids t))
        \<and> (\<forall>ps. tk_project_ids t = Some ps \<longrightarrow> set (snd (call_scope payload)) \<subseteq> set ps))"
  by (auto simp: check_call_def list_ex_iff split: option.splits prod.splits if_splits)

text \<open>What an admitted request to the protected path carries, for the token it authenticated.\<close>

definition call_permitted :: "(string \<Rightarrow> pyval option) \<Rightarrow> scoped_token \<Rightarrow> string \<Rightarrow> bool" where
  "call_permitted loads t body =
     (\<forall>payload capability. decode_json loads body = Some payload \<longrightarrow> required_capability payload = Some capability \<longrightarrow>
        capability \<in> set (tk_capabilities t)
        \<and> (\<forall>s. fst (call_scope payload) = Some s \<longrightarrow> s \<in> set (tk_solution_ids t))
        \<and> (\<forall>ps. tk_project_ids t = Some ps \<longrightarrow> set (snd (call_scope payload)) \<subseteq> set ps))"







text \<open>
  The middleware and the handlers agree on every tool of the catalog: a call the middleware permits has
  the capability its tool is registered with, and the handler's own check of the declared solution and
  projects passes.
\<close>

theorem middleware_agrees_with_handlers:
  assumes "check_call t payload = None" "get_field payload ''method'' = PStr ''tools/call''"
    "get_field payload ''params'' = PDict params" "get_field params ''name'' = PStr (ts_name tool)" "tool \<in> set TOOL_SPECS"
  shows "require_access (principal_of t) (ts_capability tool) (fst (call_scope payload)) (Some (snd (call_scope payload))) = Inr ()"
proof -
  have tables: "\<forall>tool \<in> set TOOL_SPECS. ts_name tool \<noteq> [] \<and> dict_get TOOL_CAPABILITY (ts_name tool) = Some (ts_capability tool)"
    by code_simp
  with assms(2-5) have "required_capability payload = Some (ts_capability tool)"
    by (simp add: required_capability_def)
  with assms(1) have "ts_capability tool \<in> set (tk_capabilities t)"
    "\<forall>s. fst (call_scope payload) = Some s \<longrightarrow> s \<in> set (tk_solution_ids t)"
    "\<forall>ps. tk_project_ids t = Some ps \<longrightarrow> set (snd (call_scope payload)) \<subseteq> set ps"
    unfolding check_call_None by blast+
  then show ?thesis by (auto simp: require_access_def visible_def principal_of_def split: option.splits)
qed

section \<open>Where the registry and the middleware fall short\<close>

text \<open>
  Registering a second credential under the same token id replaces the scope of the first one: whoever
  presents the first credential is then authorised with the second token's capabilities. Only the digest
  is checked for a duplicate, not the id.
\<close>

theorem second_reference_rescopes_first:
  assumes "register_token env h r reference scope = Inr (r', i)" "resolve_reference env h reference = Inr (Some v)"
    "register_token env' h' r' reference' scope' = Inr (r'', i)" "strip v = v" "v \<noteq> []"
  shows "authenticate r'' (Some v) = Inr scope'"
proof -
  from assms(3) have ids: "tk_token_id scope' = i" by (auto elim: register_token_Inr)
  from assms(1,2) have "dict_get (tr_ids_by_digest r') (sha256_hex v) = Some i"
    by (auto elim!: register_token_Inr simp: update_conv')
  moreover from assms(3) obtain v' where v': "\<not> dict_has (tr_ids_by_digest r') (sha256_hex v')"
    "r'' = r'\<lparr>tr_ids_by_digest := dict_set (sha256_hex v') i (tr_ids_by_digest r'),
       tr_tokens_by_id := dict_set i scope' (tr_tokens_by_id r')\<rparr>"
    using ids by (auto elim!: register_token_Inr)
  ultimately have "dict_get (tr_ids_by_digest r'') (sha256_hex v) = Some i"
    by (auto simp: update_conv' dict_has_def split: if_splits)
  with v'(2) assms(4,5) show ?thesis by (simp add: authenticate_def update_conv')
qed

text \<open>
  A body that is not one JSON object is passed on without a capability check, so a batch of calls, a JSON
  array, gets through the middleware with any registered token.
\<close>

theorem batch_is_not_checked:
  assumes "loads body = Some (PList calls)"
  shows "decode_json loads body = None \<and> call_permitted loads t body"
  using assms by (simp add: decode_json_def call_permitted_def)

text \<open>
  A client that disconnects in the middle of its body leaves what it sent so far, replayed to the
  application as a complete body.
\<close>

theorem disconnect_completes_the_body:
  assumes "int (length body) \<le> limit"
  shows "buffer_body limit [] [Chunk body True, Disconnect] = Some (Some body, [Chunk body False])"
  using assms by simp

text \<open>A file reference with an empty path is accepted: \<open>Path('')\<close> prints as a dot.\<close>

theorem empty_path_reference_accepted:
  "is_ok (token_reference_from_config ascii_lower [(''kind'', PStr ''file''), (''path'', PStr [])])"
  by code_simp

section \<open>An example\<close>

definition ext_token :: scoped_token where
  "ext_token = \<lparr>tk_token_id = ''t'', tk_audience = MCP_AUDIENCE, tk_capabilities = [CAPABILITY_READ],
     tk_solution_ids = [''s''], tk_project_ids = None\<rparr>"

definition ext_registry :: token_registry where
  "ext_registry = \<lparr>tr_audience = MCP_AUDIENCE, tr_ids_by_digest = [(sha256_hex ''k'', ''t'')],
     tr_tokens_by_id = [(''t'', ext_token)]\<rparr>"

lemma ext_reachable: "registry_reachable MCP_AUDIENCE ext_registry"
proof -
  let ?empty = "\<lparr>tr_audience = MCP_AUDIENCE, tr_ids_by_digest = [], tr_tokens_by_id = []\<rparr>"
  have "new_token_registry MCP_AUDIENCE = Inr ?empty" by code_simp
  then have new: "registry_reachable MCP_AUDIENCE ?empty" by (rule reg_new)
  have ok: "token_ok ext_token" by code_simp
  have "strip ''k'' = ''k''" by code_simp
  then have "resolve_reference [(''T'', ''k'')] h (EnvTokenReference ''T'') = Inr (Some ''k'')" for h
    by (simp add: resolve_reference_def some_text_def)
  then have "register_token [(''T'', ''k'')] h ?empty (EnvTokenReference ''T'') ext_token = Inr (ext_registry, ''t'')" for h
    by (simp add: register_token_def dict_has_iff ext_registry_def) (simp add: ext_token_def)
  from reg_register [OF new ok this] show ?thesis .
qed

definition ext_tables :: str_tables where
  "ext_tables = \<lparr>st_lower = ascii_lower, st_upper = (\<lambda>s. s), st_isdigit = ascii_isdigit\<rparr>"

definition ext_middleware :: security_middleware where
  "ext_middleware = \<lparr>mw_policy = \<lparr>sp_allowed_hosts = [''h:1''], sp_allowed_origins = [''http://h:1'']\<rparr>,
     mw_authenticator = ext_registry, mw_protected_path = MCP_ENDPOINT_PATH, mw_max_body_bytes = DEFAULT_MAX_BODY_BYTES\<rparr>"

definition ext_payload :: "(string, pyval) dict" where
  "ext_payload = [(''method'', PStr ''tools/call''), (''params'', PDict [(''name'', PStr ''graph_query''),
     (''arguments'', PDict [(''solution_id'', PStr ''s'')])])]"

definition ext_loads :: "string \<Rightarrow> pyval option" where
  "ext_loads t = (if t = ''{}'' then Some (PDict ext_payload) else None)"

definition ext_request :: http_request where
  "ext_request = \<lparr>rq_type = ''http'', rq_path = ''/mcp'', rq_method = ''POST'',
     rq_headers = [(''host'', ''H:1''), (''authorization'', ''Bearer k'')], rq_messages = [Chunk ''{'' True, Chunk ''}'' False]\<rparr>"

lemma ext_checks:
  "check_host_origin ext_tables ext_middleware (rq_headers ext_request) = None"
  "parse_authorization ascii_lower (rq_headers ext_request) = Inr (Some ''k'')"
  "buffer_body DEFAULT_MAX_BODY_BYTES [] (rq_messages ext_request) = Some (Some ''{}'', [Chunk ''{'' True, Chunk ''}'' False])"
  "decode_json ext_loads ''{}'' = Some ext_payload" "check_call ext_token ext_payload = None"
  "strip ''k'' = ''k''" "is_protected ext_middleware ''/mcp''"
proof -
  have "host_allowed ascii_lower ascii_isdigit ''H:1'' [''h:1'']" by code_simp
  then show "check_host_origin ext_tables ext_middleware (rq_headers ext_request) = None"
    by (simp add: check_host_origin_def ext_tables_def ext_middleware_def ext_request_def header_value_def origin_allowed_def)
  show "is_protected ext_middleware ''/mcp''" by (simp add: is_protected_def ext_middleware_def MCP_ENDPOINT_PATH_def)
  show "buffer_body DEFAULT_MAX_BODY_BYTES [] (rq_messages ext_request) = Some (Some ''{}'', [Chunk ''{'' True, Chunk ''}'' False])"
    by (simp add: ext_request_def DEFAULT_MAX_BODY_BYTES_def)
qed code_simp+



theorem authorized_iff_registered_and_scoped_witness:
  "authorize ext_registry (Some ''k'') CAPABILITY_READ (Some ''s'') None = Inr ext_token
     \<and> authorize ext_registry (Some ''k'') CAPABILITY_RECONCILE (Some ''s'') None \<noteq> Inr ext_token"
proof -
  have "tk_capabilities ext_token = [CAPABILITY_READ]" "tk_solution_ids ext_token = [''s'']" "CAPABILITY_RECONCILE \<noteq> CAPABILITY_READ"
    "tk_token_id ext_token = ''t''"
    by (simp_all add: ext_token_def CAPABILITY_READ_def CAPABILITY_RECONCILE_def)
  moreover have "dict_get (tr_ids_by_digest ext_registry) (sha256_hex ''k'') = Some ''t''"
    "dict_get (tr_tokens_by_id ext_registry) ''t'' = Some ext_token" by (simp_all add: ext_registry_def)
  ultimately show ?thesis
    using authorized_iff_registered_and_scoped [OF ext_reachable, of "Some ''k''" CAPABILITY_READ "Some ''s''" None ext_token]
      authorized_iff_registered_and_scoped [OF ext_reachable, of "Some ''k''" CAPABILITY_RECONCILE "Some ''s''" None ext_token]
      ext_checks(6)
    by simp
qed


theorem middleware_agrees_with_handlers_witness:
  "require_access (principal_of ext_token) CAPABILITY_READ (Some ''s'') (Some []) = Inr ()"
proof -
  let ?tool = "tool_entry ''graph_query'' CAPABILITY_READ ''C-029'' True False"
  have "?tool \<in> set TOOL_SPECS" by (simp add: TOOL_SPECS_def)
  moreover have "get_field ext_payload ''method'' = PStr ''tools/call''" "ts_name ?tool = ''graph_query''"
    "ts_capability ?tool = CAPABILITY_READ"
    "get_field ext_payload ''params'' = PDict [(''name'', PStr ''graph_query''), (''arguments'', PDict [(''solution_id'', PStr ''s'')])]"
    by (simp_all add: get_field_def ext_payload_def tool_entry_def)
  moreover have "call_scope ext_payload = (Some ''s'', [])" by code_simp
  ultimately show ?thesis
    using middleware_agrees_with_handlers [of ext_token ext_payload _ ?tool, OF ext_checks(5)] by (simp add: get_field_def)
qed

end
