(* ===== verification/Points.thy ===== *)
theory Points
  imports Texts
begin

text \<open>
  Length and slices of a text in code points. A text is its UTF-8 bytes, so a code point is a byte that
  does not continue one, with the continuation bytes after it. \<open>len\<close> counts them and \<open>text[:n]\<close> keeps
  the first \<open>n\<close>.
\<close>

definition continues :: "char \<Rightarrow> bool" where
  "continues c = (128 \<le> (of_char c :: nat) \<and> (of_char c :: nat) < 192)"

definition code_points :: "string \<Rightarrow> nat" where
  "code_points s = length (filter (\<lambda>c. \<not> continues c) s)"

fun take_points :: "nat \<Rightarrow> string \<Rightarrow> string" where
  "take_points n [] = []"
| "take_points n (c # s) =
     (if continues c then c # take_points n s
      else (case n of 0 \<Rightarrow> [] | Suc m \<Rightarrow> c # take_points m s))"

lemma code_points_simps [simp]:
  "code_points [] = 0"
  "code_points (c # s) = (if continues c then code_points s else Suc (code_points s))"
  by (simp_all add: code_points_def)

lemma code_points_append: "code_points (s @ t) = code_points s + code_points t"
  by (simp add: code_points_def)

lemma code_points_take: "code_points (take_points n s) = min n (code_points s)"
  by (induction n s rule: take_points.induct) (auto split: nat.splits if_splits)

lemma take_points_all: "code_points s \<le> n \<Longrightarrow> take_points n s = s"
  by (induction n s rule: take_points.induct) (auto split: nat.splits if_splits)

lemma take_points_prefix: "\<exists>rest. s = take_points n s @ rest"
  by (induction n s rule: take_points.induct) (auto split: nat.splits if_splits)

lemma set_take_points: "set (take_points n s) \<subseteq> set s"
  using take_points_prefix [of s n] by (metis set_append Un_upper1)

lemma code_points_ascii: "list_all (\<lambda>c. (of_char c :: nat) < 128) s \<Longrightarrow> code_points s = length s"
  by (induction s) (auto simp: continues_def)

end
