(* ===== verification/Control.thy ===== *)
theory Control
  imports Tools Points Envelope Hosts
begin

text \<open>
  The tools that delegate to the daemon: \<open>tools/reconcile.py\<close>, \<open>tools/job.py\<close> and \<open>tools/verify.py\<close>.
  Each handler returns the calls it makes on the control plane, in order, beside its answer. What the
  daemon says is an argument of the model (\<open>control_plane\<close> in \<open>Tools\<close>); the handlers project it through
  closed lists of fields.
\<close>

section \<open>Shared by the handlers\<close>

datatype control_call =
    StatusCall string
  | ReconcileCall "(string, pyval) dict"
  | JobCall string string int
  | VerifyCall "(string, pyval) dict"

definition daemon_unavailable :: tool_failure where "daemon_unavailable = AxiomError ''DAEMON_UNAVAILABLE''"

definition JOB_STATES :: "string list" where
  "JOB_STATES = [''PENDING'', ''LEASED'', ''RUNNING'', ''RETRY_WAIT'', ''SUCCEEDED'', ''FAILED'',
     ''CANCEL_REQUESTED'', ''CANCELLED'', ''SUPERSEDED'']"

definition MAX_WAIT_MS :: int where "MAX_WAIT_MS = 30000"

text \<open>What a handler does with an answer before it reads a field of it.\<close>

definition answer_object :: "control_answer \<Rightarrow> tool_failure + (string, pyval) dict" where
  "answer_object a =
     (case a of
        Refused code \<Rightarrow> Inl (AxiomError code)
      | Broken _ \<Rightarrow> Inl daemon_unavailable
      | Accepted v \<Rightarrow> (case v of PDict d \<Rightarrow> Inr d | _ \<Rightarrow> Inl daemon_unavailable))"

definition require_control :: "tool_context \<Rightarrow> tool_failure + control_plane" where
  "require_control ctx = (case tc_control ctx of None \<Rightarrow> Inl daemon_unavailable | Some c \<Rightarrow> Inr c)"

definition non_negative_int :: "pyval \<Rightarrow> int option" where
  "non_negative_int v = (case v of PInt i \<Rightarrow> if i < 0 then None else Some i | _ \<Rightarrow> None)"

text \<open>The fields of an answer that are counts, copied in the order the handler names them.\<close>

definition counted_fields :: "string list \<Rightarrow> (string, pyval) dict \<Rightarrow> (string, pyval) dict" where
  "counted_fields names answer =
     concat (map (\<lambda>key. case non_negative_int (get_field answer key) of None \<Rightarrow> [] | Some i \<Rightarrow> [(key, PInt i)]) names)"

text \<open>A field that has to be a text which is not blank.\<close>

definition answer_text :: "(string, pyval) dict \<Rightarrow> string \<Rightarrow> tool_failure + string" where
  "answer_text answer key =
     (case get_field answer key of
        PStr s \<Rightarrow> if strip s = [] then Inl daemon_unavailable else Inr (strip s)
      | _ \<Rightarrow> Inl daemon_unavailable)"

definition answer_state :: "(string, pyval) dict \<Rightarrow> tool_failure + string" where
  "answer_state answer =
     (case get_field answer ''state'' of
        PStr s \<Rightarrow> if s \<in> set JOB_STATES then Inr s else Inl daemon_unavailable
      | _ \<Rightarrow> Inl daemon_unavailable)"

text \<open>An optional choice of a closed list.\<close>

definition choice_argument :: "arguments \<Rightarrow> string \<Rightarrow> string list \<Rightarrow> string \<Rightarrow> tool_failure + string" where
  "choice_argument args key allowed dflt =
     (case get_field args key of
        PNone \<Rightarrow> Inr dflt
      | PStr s \<Rightarrow> if s \<in> set allowed then Inr s else Inl validation
      | _ \<Rightarrow> Inl validation)"

definition bounded_wait_argument :: "arguments \<Rightarrow> string \<Rightarrow> tool_failure + int" where
  "bounded_wait_argument args key =
     bind_result (optional_int args key (Some 0) (Some 0) (Some MAX_WAIT_MS)) (\<lambda>v.
       Inr (case v of None \<Rightarrow> 0 | Some i \<Rightarrow> i))"

text \<open>The registered solution and the projects of a request that names some.\<close>

definition registered_projects :: "tool_context \<Rightarrow> string \<Rightarrow> string list option \<Rightarrow> tool_failure + string list" where
  "registered_projects ctx solution_id requested =
     bind_result (raising (\<lambda>_. not_found) (find_solution (tc_registry ctx) solution_id)) (\<lambda>_.
       (case requested of None \<Rightarrow> Inr [] | Some _ \<Rightarrow> resolve_projects ctx solution_id requested))"

definition named_projects :: "string list \<Rightarrow> (string, pyval) dict" where
  "named_projects projects = (if projects = [] then [] else [(''project_ids'', strings projects)])"

definition maybe_object :: "(string, pyval) dict option \<Rightarrow> pyval" where
  "maybe_object d = (case d of None \<Rightarrow> PNone | Some d \<Rightarrow> PDict d)"

section \<open>\<open>graph_reconcile\<close>\<close>

definition RECONCILE_SCOPES :: "string list" where
  "RECONCILE_SCOPES = [''dirty'', ''project'', ''full'']"

definition RECONCILE_FIELDS :: "string list" where
  "RECONCILE_FIELDS = [''schema_version'', ''solution_id'', ''scope'', ''project_ids'', ''job'', ''publication'',
     ''warnings'']"

definition RECONCILE_ARGUMENTS :: "string list" where
  "RECONCILE_ARGUMENTS = [''solution_id'', ''project_id'', ''project_ids'', ''scope'', ''wait_timeout_ms'', ''reason'']"

definition MAX_REASON_LENGTH :: nat where "MAX_REASON_LENGTH = 200"

definition scope_argument :: "arguments \<Rightarrow> tool_failure + string" where
  "scope_argument args = choice_argument args ''scope'' RECONCILE_SCOPES ''dirty''"

definition reason_argument :: "arguments \<Rightarrow> tool_failure + string" where
  "reason_argument args =
     bind_result (require_text args ''reason'') (\<lambda>reason.
       if code_points reason > MAX_REASON_LENGTH then Inl limit_exceeded else Inr reason)"

definition queued_job_view :: "string list \<Rightarrow> (string, pyval) dict \<Rightarrow> tool_failure + (string, pyval) dict" where
  "queued_job_view counts answer =
     bind_result (answer_text answer ''job_id'') (\<lambda>job_id.
     bind_result (answer_state answer) (\<lambda>state.
       Inr ([(''job_id'', PStr job_id), (''state'', PStr state)] @ counted_fields counts answer)))"

definition reconcile_job_view :: "(string, pyval) dict \<Rightarrow> tool_failure + (string, pyval) dict" where
  "reconcile_job_view = queued_job_view [''target_event_seq'', ''retry_after_ms'']"

definition publication_view :: "(string, pyval) dict \<Rightarrow> tool_failure + (string, pyval) dict" where
  "publication_view answer =
     bind_result (answer_text answer ''catalog_generation_id'') (\<lambda>generation.
       Inr ([(''catalog_generation_id'', PStr generation)]
         @ (case get_field answer ''verification'' of
              PDict verification \<Rightarrow>
                (case get_field verification ''mode'' of
                   PStr mode \<Rightarrow>
                     if mode \<in> set VERIFICATION_MODES
                     then [(''verification'', PDict [(''mode'', PStr mode)])] else []
                 | _ \<Rightarrow> [])
            | _ \<Rightarrow> [])
         @ (case get_field answer ''dirty'' of
              PDict dirty \<Rightarrow>
                (let counted = concat (map (\<lambda>(key, v). case non_negative_int v of None \<Rightarrow> [] | Some i \<Rightarrow> [(key, PInt i)]) dirty)
                 in if counted = [] then [] else [(''dirty'', PDict counted)])
            | _ \<Rightarrow> [])))"

record reconcile_request =
  rr_solution :: string
  rr_scope :: string
  rr_reason :: string
  rr_wait_ms :: int
  rr_projects :: "string list"

definition reconcile_checked :: "tool_context \<Rightarrow> arguments \<Rightarrow> tool_failure + reconcile_request" where
  "reconcile_checked ctx args =
     bind_result (closed_arguments args RECONCILE_ARGUMENTS) (\<lambda>_.
     bind_result (identifier_argument args ''solution_id'') (\<lambda>solution_id.
     bind_result (scope_argument args) (\<lambda>scope.
     bind_result (reason_argument args) (\<lambda>reason.
     bind_result (bounded_wait_argument args ''wait_timeout_ms'') (\<lambda>wait_ms.
     bind_result (project_scope args) (\<lambda>requested.
     bind_result (guard_result (\<not> (scope = ''project'' \<and> requested \<in> {None, Some []})) validation) (\<lambda>_.
     bind_result (guard_result (\<not> (scope \<noteq> ''project'' \<and> requested \<notin> {None, Some []})) validation) (\<lambda>_.
     bind_result (require_access (tc_principal ctx) CAPABILITY_RECONCILE (Some solution_id) None) (\<lambda>_.
     bind_result (registered_projects ctx solution_id requested) (\<lambda>projects.
       Inr \<lparr>rr_solution = solution_id, rr_scope = scope, rr_reason = reason, rr_wait_ms = wait_ms,
            rr_projects = projects\<rparr>))))))))))"

definition reconcile_body :: "reconcile_request \<Rightarrow> (string, pyval) dict" where
  "reconcile_body q =
     [(''solution_id'', PStr (rr_solution q)), (''scope'', PStr (rr_scope q)), (''reason'', PStr (rr_reason q)),
      (''wait_timeout_ms'', PInt (rr_wait_ms q))] @ named_projects (rr_projects q)"

definition reconcile_answer :: "reconcile_request \<Rightarrow> (string, pyval) dict \<Rightarrow> tool_failure + (string, pyval) dict" where
  "reconcile_answer q answer =
     bind_result
       (if dict_has answer ''job_id'' then map_sum id (\<lambda>v. (Some v, None)) (reconcile_job_view answer)
        else if dict_has answer ''catalog_generation_id''
        then map_sum id (\<lambda>v. (None, Some v)) (publication_view answer)
        else Inl daemon_unavailable)
       (\<lambda>(job, publication).
         Inr [(''schema_version'', PInt SCHEMA_VERSION), (''solution_id'', PStr (rr_solution q)),
              (''scope'', PStr (rr_scope q)), (''project_ids'', strings (rr_projects q)), (''job'', maybe_object job),
              (''publication'', maybe_object publication), (''warnings'', PList [])])"

definition graph_reconcile ::
    "tool_context \<Rightarrow> arguments \<Rightarrow> control_call list \<times> (tool_failure + (string, pyval) dict)" where
  "graph_reconcile ctx args =
     (case reconcile_checked ctx args of
        Inl e \<Rightarrow> ([], Inl e)
      | Inr q \<Rightarrow>
          (case require_control ctx of
             Inl e \<Rightarrow> ([], Inl e)
           | Inr control \<Rightarrow>
               ([ReconcileCall (reconcile_body q)],
                bind_result (answer_object (cp_reconcile control (reconcile_body q))) (reconcile_answer q))))"

section \<open>\<open>graph_job\<close>\<close>

definition JOB_ACTIONS :: "string list" where "JOB_ACTIONS = [''status'', ''cancel'']"

definition PROGRESS_UNITS :: "string list" where
  "PROGRESS_UNITS = [''units_done'', ''units_total'', ''projects_done'', ''projects_total'', ''files_scanned'',
     ''shards_written'']"

definition MAX_JOB_CALLS :: nat where "MAX_JOB_CALLS = 1"

definition JOB_FIELDS :: "string list" where
  "JOB_FIELDS = [''schema_version'', ''action'', ''solution_id'', ''job'', ''warnings'']"

definition JOB_ARGUMENTS :: "string list" where "JOB_ARGUMENTS = [''job_id'', ''action'', ''wait_ms'']"

definition NON_TERMINAL_STATES :: "string list" where
  "NON_TERMINAL_STATES = [''PENDING'', ''LEASED'', ''RUNNING'', ''RETRY_WAIT'', ''CANCEL_REQUESTED'']"

definition is_alnum :: "char \<Rightarrow> bool" where
  "is_alnum c = (is_digit c \<or> in_range CHR ''a'' CHR ''z'' c \<or> in_range CHR ''A'' CHR ''Z'' c)"

definition JOB_ID :: "string \<Rightarrow> bool" where
  "JOB_ID s =
     (case s of [] \<Rightarrow> False
      | c # rest \<Rightarrow> is_alnum c \<and> length rest \<le> 127
          \<and> list_all (\<lambda>d. is_alnum d \<or> d \<in> {CHR ''.'', CHR ''_'', CHR '':'', CHR ''-''}) rest)"

definition job_id_argument :: "arguments \<Rightarrow> tool_failure + string" where
  "job_id_argument args =
     bind_result (require_text args ''job_id'') (\<lambda>v. if JOB_ID v then Inr v else Inl validation)"

definition action_argument :: "arguments \<Rightarrow> tool_failure + string" where
  "action_argument args = choice_argument args ''action'' JOB_ACTIONS ''status''"

text \<open>One entry of the daemon's progress: a unit to report, or a percentage to warn about.\<close>

definition add_progress ::
    "(string, pyval) dict \<times> string list \<Rightarrow> string \<times> pyval \<Rightarrow> (string, pyval) dict \<times> string list" where
  "add_progress acc entry =
     (case (acc, entry) of ((units, warnings), (name, v)) \<Rightarrow>
        (case non_negative_int v of
           None \<Rightarrow> (units, warnings)
         | Some i \<Rightarrow>
             if name \<in> set PROGRESS_UNITS then (dict_set name (PInt i) units, warnings)
             else if contains_text ''percent'' name \<or> name = ''pct'' \<or> name = ''percentage''
             then (units, warnings @ [''percentage_not_carried:'' @ name])
             else (units, warnings)))"

definition progress_view :: "(string, pyval) dict \<Rightarrow> (string, pyval) dict \<times> string list" where
  "progress_view answer =
     (case get_field answer ''progress'' of
        PDict progress \<Rightarrow>
          (case foldl add_progress ([], []) progress of (units, warnings) \<Rightarrow>
             (if units = [] then [] else [(''progress'', PDict units)], warnings))
      | _ \<Rightarrow> ([], []))"

definition error_code_view :: "(string, pyval) dict \<Rightarrow> (string, pyval) dict" where
  "error_code_view answer =
     (case get_field answer ''error_code'' of
        PStr s \<Rightarrow> if strip s = [] then [] else [(''error_code'', PStr (take_points 128 (strip s)))]
      | _ \<Rightarrow> [])"

record job_seen =
  js_solution :: string
  js_state :: string
  js_view :: "(string, pyval) dict"
  js_warnings :: "string list"

definition job_view :: "(string, pyval) dict \<Rightarrow> tool_failure + job_seen" where
  "job_view answer =
     bind_result (answer_text answer ''job_id'') (\<lambda>job_id.
     bind_result (answer_state answer) (\<lambda>state.
     bind_result (answer_text answer ''solution_id'') (\<lambda>solution_id.
     bind_result (answer_text answer ''kind'') (\<lambda>kind.
       (case progress_view answer of (progress, warnings) \<Rightarrow>
          Inr \<lparr>js_solution = solution_id, js_state = state,
               js_view = [(''job_id'', PStr job_id), (''kind'', PStr kind), (''state'', PStr state),
                  (''solution_id'', PStr solution_id)]
                 @ counted_fields [''attempt'', ''fence'', ''target_event_seq'', ''retry_after_ms''] answer
                 @ error_code_view answer @ progress,
               js_warnings = warnings\<rparr>)))))"

record job_request =
  jr_job_id :: string
  jr_action :: string
  jr_wait_ms :: int

definition job_checked :: "tool_context \<Rightarrow> arguments \<Rightarrow> tool_failure + job_request" where
  "job_checked ctx args =
     bind_result (closed_arguments args JOB_ARGUMENTS) (\<lambda>_.
     bind_result (job_id_argument args) (\<lambda>job_id.
     bind_result (action_argument args) (\<lambda>action.
     bind_result (bounded_wait_argument args ''wait_ms'') (\<lambda>wait_ms.
     bind_result (guard_result (\<not> (action = ''cancel'' \<and> wait_ms \<noteq> 0)) validation) (\<lambda>_.
     bind_result
       (if action = ''cancel'' then require_access (tc_principal ctx) CAPABILITY_RECONCILE None None else Inr ()) (\<lambda>_.
       Inr \<lparr>jr_job_id = job_id, jr_action = action, jr_wait_ms = wait_ms\<rparr>))))))"

definition job_answer ::
    "tool_context \<Rightarrow> job_request \<Rightarrow> (string, pyval) dict \<Rightarrow> tool_failure + (string, pyval) dict" where
  "job_answer ctx q answer =
     bind_result (job_view answer) (\<lambda>job.
     bind_result (guard_result (visible (tc_principal ctx) (js_solution job)) not_found) (\<lambda>_.
     bind_result (raising (\<lambda>_. not_found) (find_solution (tc_registry ctx) (js_solution job))) (\<lambda>_.
       Inr [(''schema_version'', PInt SCHEMA_VERSION), (''action'', PStr (jr_action q)),
            (''solution_id'', PStr (js_solution job)),
            (''job'', PDict (js_view job @ [(''terminal'', PBool (js_state job \<notin> set NON_TERMINAL_STATES))])),
            (''warnings'', strings (js_warnings job))])))"

definition graph_job :: "tool_context \<Rightarrow> arguments \<Rightarrow> control_call list \<times> (tool_failure + (string, pyval) dict)" where
  "graph_job ctx args =
     (case job_checked ctx args of
        Inl e \<Rightarrow> ([], Inl e)
      | Inr q \<Rightarrow>
          (case require_control ctx of
             Inl e \<Rightarrow> ([], Inl e)
           | Inr control \<Rightarrow>
               ([JobCall (jr_job_id q) (jr_action q) (jr_wait_ms q)],
                bind_result (answer_object (cp_job control (jr_job_id q) (jr_action q) (jr_wait_ms q))) (job_answer ctx q))))"

section \<open>\<open>graph_verify\<close>\<close>

definition BASES :: "string list" where "BASES = [''archive'', ''working_tree'']"
definition DIMENSIONS :: "string list" where "DIMENSIONS = [''hash'', ''schema'', ''catalog'', ''source'']"

definition DIMENSION_MODES :: "(string, string list) dict" where
  "DIMENSION_MODES =
     [(''hash'', [''recomputed'', ''verified'', ''mismatch'', ''not_run'', ''unknown'']),
      (''schema'', [''declared'', ''missing'', ''mismatch'', ''not_run'', ''unknown'']),
      (''catalog'', [''matched'', ''mismatch'', ''not_run'', ''unknown'']),
      (''source'', [''archive_contents'', ''current'', ''not_run'', ''unknown''])]"

definition VERIFY_FIELDS :: "string list" where
  "VERIFY_FIELDS = [''schema_version'', ''solution_id'', ''project_ids'', ''basis'', ''verification'', ''job'',
     ''warnings'']"

definition VERIFY_ARGUMENTS :: "string list" where
  "VERIFY_ARGUMENTS = [''solution_id'', ''project_id'', ''project_ids'', ''expected_fingerprint'', ''target_event_seq'']"

definition MAX_EVENT_SEQ :: int where "MAX_EVENT_SEQ = 2 ^ 53 - 1"

text \<open>The pattern of a fingerprint, with \<open>fullmatch\<close>: 64 hexadecimal digits of either case.\<close>

definition FINGERPRINT :: "string \<Rightarrow> bool" where
  "FINGERPRINT s =
     (length s = 64 \<and> list_all (\<lambda>c. is_digit c \<or> c \<in> set ''abcdefABCDEF'') s)"

definition fingerprint_argument :: "arguments \<Rightarrow> tool_failure + string option" where
  "fingerprint_argument args =
     (case get_field args ''expected_fingerprint'' of
        PNone \<Rightarrow> Inr None
      | PStr s \<Rightarrow> if FINGERPRINT (strip s) then Inr (Some (ascii_lower (strip s))) else Inl validation
      | _ \<Rightarrow> Inl validation)"

text \<open>One fingerprint of a dimension: the field it becomes and the warning it leaves.\<close>

definition dimension_fingerprint ::
    "string \<Rightarrow> (string, pyval) dict \<Rightarrow> string \<Rightarrow> (string, pyval) dict \<times> string list" where
  "dimension_fingerprint name raw key =
     (case get_field raw key of
        PNone \<Rightarrow> ([], [])
      | PStr s \<Rightarrow>
          if FINGERPRINT (strip s) then ([(key, PStr (ascii_lower (strip s)))], [])
          else ([], [''unusable_fingerprint:'' @ name @ ''.'' @ key])
      | _ \<Rightarrow> ([], [''unusable_fingerprint:'' @ name @ ''.'' @ key]))"

record dimension_seen =
  dm_mode :: string
  dm_view :: "(string, pyval) dict"
  dm_warnings :: "string list"

definition dimension :: "string \<Rightarrow> pyval \<Rightarrow> dimension_seen" where
  "dimension name raw =
     (case raw of
        PDict d \<Rightarrow>
          (let allowed = (case dict_get DIMENSION_MODES name of None \<Rightarrow> [] | Some ms \<Rightarrow> ms);
               unknown = \<lparr>dm_mode = ''unknown'', dm_view = [(''mode'', PStr ''unknown'')],
                          dm_warnings = [''unrecognised_mode:'' @ name]\<rparr>
           in case get_field d ''mode'' of
                PStr mode \<Rightarrow>
                  if mode \<notin> set allowed then unknown
                  else
                    (case (dimension_fingerprint name d ''expected'', dimension_fingerprint name d ''observed'') of
                       ((expected, w1), (observed, w2)) \<Rightarrow>
                         \<lparr>dm_mode = mode,
                          dm_view = [(''mode'', PStr mode)] @ expected @ observed
                            @ (case get_field d ''matched'' of PBool b \<Rightarrow> [(''matched'', PBool b)] | _ \<Rightarrow> []),
                          dm_warnings = w1 @ w2\<rparr>)
              | _ \<Rightarrow> unknown)
      | _ \<Rightarrow> \<lparr>dm_mode = ''not_run'', dm_view = [(''mode'', PStr ''not_run'')],
               dm_warnings = [''dimension_not_reported:'' @ name]\<rparr>)"

definition verify_job_view :: "(string, pyval) dict \<Rightarrow> tool_failure + (string, pyval) dict" where
  "verify_job_view = queued_job_view [''retry_after_ms'']"

record verify_request =
  vr_solution :: string
  vr_expected :: "string option"
  vr_barrier :: "int option"
  vr_projects :: "string list"

definition verify_checked :: "tool_context \<Rightarrow> arguments \<Rightarrow> tool_failure + verify_request" where
  "verify_checked ctx args =
     bind_result (closed_arguments args VERIFY_ARGUMENTS) (\<lambda>_.
     bind_result (identifier_argument args ''solution_id'') (\<lambda>solution_id.
     bind_result (fingerprint_argument args) (\<lambda>expected.
     bind_result (optional_int args ''target_event_seq'' None (Some 0) (Some MAX_EVENT_SEQ)) (\<lambda>barrier.
     bind_result (guard_result (\<not> (expected = None \<and> barrier = None)) validation) (\<lambda>_.
     bind_result (project_scope args) (\<lambda>requested.
     bind_result (require_access (tc_principal ctx) CAPABILITY_CHECKPOINT (Some solution_id) None) (\<lambda>_.
     bind_result (registered_projects ctx solution_id requested) (\<lambda>projects.
       Inr \<lparr>vr_solution = solution_id, vr_expected = expected, vr_barrier = barrier, vr_projects = projects\<rparr>))))))))"

definition verify_body :: "verify_request \<Rightarrow> (string, pyval) dict" where
  "verify_body q =
     [(''solution_id'', PStr (vr_solution q))] @ named_projects (vr_projects q)
     @ (case vr_expected q of None \<Rightarrow> [] | Some f \<Rightarrow> [(''expected_fingerprint'', PStr f)])
     @ (case vr_barrier q of None \<Rightarrow> [] | Some n \<Rightarrow> [(''target_event_seq'', PInt n)])"

definition verify_document ::
    "verify_request \<Rightarrow> pyval \<Rightarrow> pyval \<Rightarrow> pyval \<Rightarrow> string list \<Rightarrow> (string, pyval) dict" where
  "verify_document q basis verification job warnings =
     [(''schema_version'', PInt SCHEMA_VERSION), (''solution_id'', PStr (vr_solution q)),
      (''project_ids'', strings (vr_projects q)), (''basis'', basis), (''verification'', verification), (''job'', job),
      (''warnings'', strings warnings)]"

definition verify_answer :: "verify_request \<Rightarrow> (string, pyval) dict \<Rightarrow> tool_failure + (string, pyval) dict" where
  "verify_answer q answer =
     (if dict_has answer ''job_id'' then
        bind_result (verify_job_view answer) (\<lambda>job.
          Inr (verify_document q PNone PNone (PDict job)
            (if dict_has answer ''basis'' \<or> dict_has answer ''verification'' then [''verification_incomplete''] else [])))
      else
        (case get_field answer ''basis'' of
           PStr basis \<Rightarrow>
             if basis \<notin> set BASES then Inl daemon_unavailable
             else
               (case get_field answer ''verification'' of
                  PDict block \<Rightarrow>
                    (let seen = map (\<lambda>name. (name, dimension name (get_field block name))) DIMENSIONS in
                     if basis = ''archive'' \<and> dm_mode (dimension ''source'' (get_field block ''source'')) = ''current''
                     then Inl daemon_unavailable
                     else Inr (verify_document q (PStr basis) (PDict (map (\<lambda>(name, d). (name, PDict (dm_view d))) seen))
                       PNone (concat (map (\<lambda>(_, d). dm_warnings d) seen))))
                | _ \<Rightarrow> Inl daemon_unavailable)
         | _ \<Rightarrow> Inl daemon_unavailable))"

definition graph_verify :: "tool_context \<Rightarrow> arguments \<Rightarrow> control_call list \<times> (tool_failure + (string, pyval) dict)" where
  "graph_verify ctx args =
     (case verify_checked ctx args of
        Inl e \<Rightarrow> ([], Inl e)
      | Inr q \<Rightarrow>
          (case require_control ctx of
             Inl e \<Rightarrow> ([], Inl e)
           | Inr control \<Rightarrow>
               ([VerifyCall (verify_body q)],
                bind_result (answer_object (cp_verify control (verify_body q))) (verify_answer q))))"

section \<open>What a checked request satisfies\<close>

lemma access_some:
  "require_access p capability (Some s) None = Inr () \<longleftrightarrow> capability \<in> set (pr_capabilities p) \<and> visible p s"
  by (auto simp: require_access_def split: option.splits)

lemma bounded_wait_Inr: "bounded_wait_argument args key = Inr n \<Longrightarrow> 0 \<le> n \<and> n \<le> MAX_WAIT_MS"
  by (auto simp: bounded_wait_argument_def optional_int_def bind_result_eq_Inr MAX_WAIT_MS_def
      split: pyval.splits if_splits option.splits)

lemma choice_argument_Inr:
  "choice_argument args key allowed dflt = Inr c \<Longrightarrow> c = dflt \<or> c \<in> set allowed"
  by (auto simp: choice_argument_def split: pyval.splits if_splits)

lemma require_text_Inr: "require_text args key = Inr s \<Longrightarrow> s \<noteq> []"
  by (auto simp: require_text_def split: pyval.splits if_splits)

lemma project_scope_nonempty: "project_scope args = Inr requested \<Longrightarrow> requested \<noteq> Some []"
  by (auto simp: project_scope_def bind_result_eq_Inr Let_def split: pyval.splits if_splits)

text \<open>The projects a request names are declared by its solution and inside the caller's scope.\<close>

definition nameable :: "tool_context \<Rightarrow> string \<Rightarrow> string set" where
  "nameable ctx solution_id =
     {p. (\<exists>ps. solution_projects ctx solution_id = Inr ps \<and> p \<in> set ps)
        \<and> (\<forall>ps. pr_project_ids (tc_principal ctx) = Some ps \<longrightarrow> p \<in> set ps)}"

lemma resolve_projects_nameable:
  "resolve_projects ctx solution_id requested = Inr projects \<Longrightarrow>
     set projects \<subseteq> nameable ctx solution_id \<and> (\<forall>wanted. requested = Some wanted \<longrightarrow> projects = wanted)"
  by (auto simp: resolve_projects_def nameable_def bind_result_eq_Inr list_all_iff split: option.splits if_splits)

lemma registered_projects_Inr:
  assumes "registered_projects ctx solution_id requested = Inr projects" "requested \<noteq> Some []"
  shows "is_ok (find_solution (tc_registry ctx) solution_id) \<and> set projects \<subseteq> nameable ctx solution_id
    \<and> (projects = [] \<longleftrightarrow> requested = None)"
  using assms resolve_projects_nameable [of ctx solution_id requested projects]
  by (auto simp: registered_projects_def bind_result_eq_Inr is_ok_iff split: option.splits)

lemma reconcile_checked_Inr:
  assumes "reconcile_checked ctx args = Inr q"
  shows "CAPABILITY_RECONCILE \<in> set (pr_capabilities (tc_principal ctx)) \<and> visible (tc_principal ctx) (rr_solution q)
    \<and> is_ok (find_solution (tc_registry ctx) (rr_solution q)) \<and> rr_scope q \<in> set RECONCILE_SCOPES
    \<and> (rr_scope q = ''project'' \<longleftrightarrow> rr_projects q \<noteq> []) \<and> set (rr_projects q) \<subseteq> nameable ctx (rr_solution q)
    \<and> rr_reason q \<noteq> [] \<and> code_points (rr_reason q) \<le> MAX_REASON_LENGTH
    \<and> 0 \<le> rr_wait_ms q \<and> rr_wait_ms q \<le> MAX_WAIT_MS"
proof -
  obtain solution scope reason wait requested projects where parts:
    "scope_argument args = Inr scope" "reason_argument args = Inr reason"
    "bounded_wait_argument args ''wait_timeout_ms'' = Inr wait" "project_scope args = Inr requested"
    "scope = ''project'' \<longleftrightarrow> requested \<noteq> None"
    "require_access (tc_principal ctx) CAPABILITY_RECONCILE (Some solution) None = Inr ()"
    "registered_projects ctx solution requested = Inr projects"
    "q = \<lparr>rr_solution = solution, rr_scope = scope, rr_reason = reason, rr_wait_ms = wait, rr_projects = projects\<rparr>"
    using assms project_scope_nonempty [of args]
    by (fastforce simp: reconcile_checked_def bind_result_eq_Inr guard_result_eq_Inr)
  have "scope \<in> set RECONCILE_SCOPES"
    using choice_argument_Inr parts(1) unfolding scope_argument_def by (fastforce simp: RECONCILE_SCOPES_def)
  moreover have "reason \<noteq> []" "code_points reason \<le> MAX_REASON_LENGTH"
    using parts(2) by (auto simp: reason_argument_def bind_result_eq_Inr split: if_splits dest: require_text_Inr)
  ultimately show ?thesis
    using parts registered_projects_Inr [OF parts(7) project_scope_nonempty [OF parts(4)]] bounded_wait_Inr [OF parts(3)]
    by (auto simp: access_some)
qed

lemma verify_checked_Inr:
  assumes "verify_checked ctx args = Inr q"
  shows "CAPABILITY_CHECKPOINT \<in> set (pr_capabilities (tc_principal ctx)) \<and> visible (tc_principal ctx) (vr_solution q)
    \<and> is_ok (find_solution (tc_registry ctx) (vr_solution q)) \<and> set (vr_projects q) \<subseteq> nameable ctx (vr_solution q)
    \<and> (vr_expected q \<noteq> None \<or> vr_barrier q \<noteq> None)"
proof -
  obtain solution requested where
    "require_access (tc_principal ctx) CAPABILITY_CHECKPOINT (Some solution) None = Inr ()"
    "registered_projects ctx solution requested = Inr (vr_projects q)" "project_scope args = Inr requested"
    "vr_solution q = solution" "vr_expected q \<noteq> None \<or> vr_barrier q \<noteq> None"
    using assms by (auto simp: verify_checked_def bind_result_eq_Inr guard_result_eq_Inr)
  then show ?thesis
    using registered_projects_Inr project_scope_nonempty by (auto simp: access_some)
qed

lemma answer_object_Inr: "answer_object a = Inr d \<longleftrightarrow> a = Accepted (PDict d)"
  by (auto simp: answer_object_def split: control_answer.splits pyval.splits)

lemma answer_text_Inr: "answer_text d key = Inr s \<longleftrightarrow> (\<exists>raw. get_field d key = PStr raw \<and> s = strip raw \<and> s \<noteq> [])"
  by (auto simp: answer_text_def split: pyval.splits if_splits)

lemma answer_state_Inr: "answer_state d = Inr s \<longleftrightarrow> get_field d ''state'' = PStr s \<and> s \<in> set JOB_STATES"
  by (auto simp: answer_state_def split: pyval.splits if_splits)

lemma counted_fields_keys: "set (dict_keys (counted_fields names d)) \<subseteq> set names"
  by (auto simp: counted_fields_def split: option.splits)

lemmas answer_simps = answer_object_Inr answer_text_Inr answer_state_Inr bind_result_eq_Inr guard_result_eq_Inr

section \<open>What a delegation does and answers\<close>

text \<open>A job handle of an answer: an identifier, a state of the job schema, and counts, nothing else.\<close>

definition job_handle :: "string list \<Rightarrow> pyval \<Rightarrow> bool" where
  "job_handle counts v =
     (\<exists>job i s extra. v = PDict job \<and> job = [(''job_id'', PStr i), (''state'', PStr s)] @ extra \<and> i \<noteq> []
        \<and> s \<in> set JOB_STATES \<and> set (dict_keys extra) \<subseteq> set counts \<and> (\<forall>n \<in> snd ` set extra. \<exists>m \<ge> 0. n = PInt m))"

lemma non_negative_int_Some: "non_negative_int v = Some i \<longleftrightarrow> v = PInt i \<and> 0 \<le> i"
  by (auto simp: non_negative_int_def split: pyval.splits if_splits)

lemma counted_fields_members: "(key, n) \<in> set (counted_fields names d) \<Longrightarrow> key \<in> set names \<and> (\<exists>m \<ge> 0. n = PInt m)"
  by (auto simp: counted_fields_def eq_commute [of "Some _"] non_negative_int_Some split: option.splits)

lemma map_sum_eq_Inr: "map_sum id f r = Inr y \<longleftrightarrow> (\<exists>x. r = Inr x \<and> y = f x)"
  by (cases r) auto

lemma queued_job_view_handle: "queued_job_view counts answer = Inr v \<Longrightarrow> job_handle counts (PDict v)"
  unfolding job_handle_def
  by (rule exI [of _ v])
    (auto simp: queued_job_view_def answer_simps dest!: counted_fields_members)

text \<open>
  C21. A reconcile reaches the daemon at most once, and only for a caller that holds the capability and sees
  the solution; the request names a registered solution, projects exactly when its scope is
  \<open>project\<close>, all of them inside the caller's scope, an audit reason within its length and a wait within its
  bound. An answer carries the closed fields, and exactly one of a job handle and a publication.
\<close>

theorem reconcile_delegates_authorized:
  assumes "graph_reconcile ctx args = (sent, r)"
  shows "(sent = [] \<and> \<not> is_ok r) \<or>
    (\<exists>q control. sent = [ReconcileCall (reconcile_body q)] \<and> tc_control ctx = Some control
      \<and> CAPABILITY_RECONCILE \<in> set (pr_capabilities (tc_principal ctx)) \<and> visible (tc_principal ctx) (rr_solution q)
      \<and> is_ok (find_solution (tc_registry ctx) (rr_solution q)) \<and> rr_scope q \<in> set RECONCILE_SCOPES
      \<and> (rr_scope q = ''project'' \<longleftrightarrow> rr_projects q \<noteq> []) \<and> set (rr_projects q) \<subseteq> nameable ctx (rr_solution q)
      \<and> rr_reason q \<noteq> [] \<and> code_points (rr_reason q) \<le> 200 \<and> 0 \<le> rr_wait_ms q \<and> rr_wait_ms q \<le> 30000
      \<and> (\<forall>d. r = Inr d \<longrightarrow> dict_keys d = RECONCILE_FIELDS \<and> get_field d ''solution_id'' = PStr (rr_solution q)
          \<and> get_field d ''project_ids'' = strings (rr_projects q)
          \<and> (if get_field d ''publication'' = PNone
             then job_handle [''target_event_seq'', ''retry_after_ms''] (get_field d ''job'')
             else get_field d ''job'' = PNone)))"
proof (cases "reconcile_checked ctx args")
  case (Inl e)
  with assms show ?thesis by (auto simp: graph_reconcile_def)
next
  case (Inr q)
  show ?thesis
  proof (cases "tc_control ctx")
    case None
    with assms Inr show ?thesis by (auto simp: graph_reconcile_def require_control_def)
  next
    case (Some control)
    with assms Inr have sent: "sent = [ReconcileCall (reconcile_body q)]"
      and r: "r = bind_result (answer_object (cp_reconcile control (reconcile_body q))) (reconcile_answer q)"
      by (auto simp: graph_reconcile_def require_control_def)
    have "dict_keys d = RECONCILE_FIELDS \<and> get_field d ''solution_id'' = PStr (rr_solution q)
        \<and> get_field d ''project_ids'' = strings (rr_projects q)
        \<and> (if get_field d ''publication'' = PNone
           then job_handle [''target_event_seq'', ''retry_after_ms''] (get_field d ''job'')
           else get_field d ''job'' = PNone)" if d: "r = Inr d" for d
    proof -
      from d r obtain answer where a: "reconcile_answer q answer = Inr d" by (auto simp: bind_result_eq_Inr)
      then show ?thesis
        by (auto simp: reconcile_answer_def bind_result_eq_Inr map_sum_eq_Inr RECONCILE_FIELDS_def get_field_def
            maybe_object_def reconcile_job_view_def split: if_splits dest: queued_job_view_handle)
    qed
    with sent Some reconcile_checked_Inr [OF Inr] show ?thesis
      unfolding MAX_REASON_LENGTH_def MAX_WAIT_MS_def by blast
  qed
qed

lemma add_progress_keys:
  assumes "set (dict_keys units) \<subseteq> set PROGRESS_UNITS"
  shows "set (dict_keys (fst (foldl add_progress (units, ws) entries))) \<subseteq> set PROGRESS_UNITS"
  using assms
proof (induction entries arbitrary: units ws)
  case Nil
  then show ?case by simp
next
  case (Cons e entries)
  obtain units' ws' where step: "add_progress (units, ws) e = (units', ws')" by force
  have "set (dict_keys units') \<subseteq> set PROGRESS_UNITS"
    using step Cons.prems by (auto simp: add_progress_def split: prod.splits option.splits if_splits dest!: subsetD [OF dict_set_members])
  with Cons.IH [of units' ws'] step show ?case by simp
qed

text \<open>What \<open>graph_job\<close> shows of a job: its identity, counts, a bounded error code and the documented units.\<close>

definition shown_job :: "pyval \<Rightarrow> string \<Rightarrow> bool" where
  "shown_job v solution_id =
     (\<exists>job. v = PDict job \<and> get_field job ''solution_id'' = PStr solution_id
        \<and> (\<exists>s \<in> set JOB_STATES. get_field job ''state'' = PStr s
             \<and> get_field job ''terminal'' = PBool (s \<notin> set NON_TERMINAL_STATES))
        \<and> set (dict_keys job) \<subseteq> {''job_id'', ''kind'', ''state'', ''solution_id'', ''attempt'', ''fence'',
             ''target_event_seq'', ''retry_after_ms'', ''error_code'', ''progress'', ''terminal''}
        \<and> (\<forall>units. get_field job ''progress'' = PDict units \<longrightarrow> set (dict_keys units) \<subseteq> set PROGRESS_UNITS)
        \<and> (\<forall>code. get_field job ''error_code'' = PStr code \<longrightarrow> code_points code \<le> 128))"

lemma get_field_cons: "get_field ((k, v) # d) key = (if key = k then v else get_field d key)"
  by (simp add: get_field_def)

lemma get_field_skip: "key \<notin> set (dict_keys d) \<Longrightarrow> get_field (d @ e) key = get_field e key"
  by (induction d) (auto simp: get_field_def)

lemma get_field_append: "get_field (d @ e) key = (if key \<in> set (dict_keys d) then get_field d key else get_field e key)"
  by (induction d) (auto simp: get_field_def)

lemma get_field_Nil [simp]: "get_field [] key = PNone"
  by (simp add: get_field_def)

lemma get_field_member: "get_field d key = v \<Longrightarrow> v \<noteq> PNone \<Longrightarrow> (key, v) \<in> set d"
  by (auto simp: get_field_def split: option.splits dest: map_of_SomeD)

lemma progress_view_members:
  assumes "progress_view answer = (progress, ws)" "(key, v) \<in> set progress"
  shows "key = ''progress'' \<and> (\<forall>units. v = PDict units \<longrightarrow> set (dict_keys units) \<subseteq> set PROGRESS_UNITS)"
proof (cases "get_field answer ''progress''")
  case (PDict entries)
  obtain units more_ws where f: "foldl add_progress ([], []) entries = (units, more_ws)" by force
  with add_progress_keys [of "[]" "[]" entries] have "set (dict_keys units) \<subseteq> set PROGRESS_UNITS" by simp
  moreover have "progress = (if units = [] then [] else [(''progress'', PDict units)])"
    using assms(1) PDict f by (simp add: progress_view_def)
  ultimately show ?thesis using assms(2) by (simp split: if_splits)
qed (use assms in \<open>auto simp: progress_view_def\<close>)

lemma error_code_view_members:
  "(key, v) \<in> set (error_code_view answer) \<Longrightarrow> key = ''error_code'' \<and> (\<forall>code. v = PStr code \<longrightarrow> code_points code \<le> 128)"
  by (auto simp: error_code_view_def code_points_take split: pyval.splits if_splits)

lemma union_of_parts:
  "A \<subseteq> {e, f, g, h} \<Longrightarrow> B \<subseteq> {i} \<Longrightarrow> C \<subseteq> {j} \<Longrightarrow> {a, b, c, d} \<union> A \<union> B \<union> C \<subseteq> {a, b, c, d, e, f, g, h, i, j}"
  by blast

lemma job_view_shown:
  assumes "job_view answer = Inr job"
  shows "shown_job (PDict (js_view job @ [(''terminal'', PBool (js_state job \<notin> set NON_TERMINAL_STATES))])) (js_solution job)"
proof -
  let ?counts = "[''attempt'', ''fence'', ''target_event_seq'', ''retry_after_ms'']"
  let ?job = "js_view job @ [(''terminal'', PBool (js_state job \<notin> set NON_TERMINAL_STATES))]"
  obtain progress ws where p: "progress_view answer = (progress, ws)" by force
  with assms obtain i k where v: "js_view job = [(''job_id'', PStr i), (''kind'', PStr k), (''state'', PStr (js_state job)),
      (''solution_id'', PStr (js_solution job))] @ counted_fields ?counts answer @ error_code_view answer @ progress"
    and state: "js_state job \<in> set JOB_STATES"
    by (auto simp: job_view_def answer_simps)
  have members: "(key, x) \<in> {(''job_id'', PStr i), (''kind'', PStr k),
        (''state'', PStr (js_state job)), (''solution_id'', PStr (js_solution job))}
      \<or> (key \<in> set ?counts \<and> (\<exists>m \<ge> 0. x = PInt m))
      \<or> (key = ''error_code'' \<and> (\<forall>code. x = PStr code \<longrightarrow> code_points code \<le> 128))
      \<or> (key = ''progress'' \<and> (\<forall>units. x = PDict units \<longrightarrow> set (dict_keys units) \<subseteq> set PROGRESS_UNITS))"
    if "(key, x) \<in> set (js_view job)" for key x
  proof -
    from that consider "(key, x) \<in> set [(''job_id'', PStr i), (''kind'', PStr k), (''state'', PStr (js_state job)),
        (''solution_id'', PStr (js_solution job))]" | "(key, x) \<in> set (counted_fields ?counts answer)"
      | "(key, x) \<in> set (error_code_view answer)" | "(key, x) \<in> set progress"
      unfolding v set_append Un_iff by blast
    then show ?thesis
    proof cases
      case 1
      then show ?thesis unfolding list.set by blast
    next
      case 2
      show ?thesis by (rule disjI2, rule disjI1, rule counted_fields_members [OF 2])
    next
      case 3
      show ?thesis by (rule disjI2, rule disjI2, rule disjI1, rule error_code_view_members [OF 3])
    next
      case 4
      show ?thesis by (rule disjI2, rule disjI2, rule disjI2, rule progress_view_members [OF p 4])
    qed
  qed
  have "set (dict_keys (js_view job)) = {''job_id'', ''kind'', ''state'', ''solution_id''}
      \<union> set (dict_keys (counted_fields ?counts answer)) \<union> set (dict_keys (error_code_view answer)) \<union> set (dict_keys progress)"
    by (simp add: v image_Un Un_assoc)
  moreover have "set (dict_keys (error_code_view answer)) \<subseteq> {''error_code''}" "set (dict_keys progress) \<subseteq> {''progress''}"
    using error_code_view_members progress_view_members [OF p] by fastforce+
  ultimately have keys: "set (dict_keys (js_view job)) \<subseteq> {''job_id'', ''kind'', ''state'', ''solution_id'', ''attempt'', ''fence'',
      ''target_event_seq'', ''retry_after_ms'', ''error_code'', ''progress''}"
    using counted_fields_keys [of ?counts answer] by (simp only:) (rule union_of_parts; simp only: list.set)
  then have "''terminal'' \<notin> set (dict_keys (js_view job))" by auto
  then have terminal: "get_field ?job ''terminal'' = PBool (js_state job \<notin> set NON_TERMINAL_STATES)"
    unfolding get_field_append get_field_cons by (simp only: if_False if_True simp_thms)
  have head: "get_field ?job ''solution_id'' = PStr (js_solution job)" "get_field ?job ''state'' = PStr (js_state job)"
    by (simp_all add: v get_field_cons)
  have progress: "set (dict_keys units) \<subseteq> set PROGRESS_UNITS" if "get_field ?job ''progress'' = PDict units" for units
    using get_field_member [OF that] members [of "''progress''" "PDict units"] by simp
  have code: "code_points c \<le> 128" if "get_field ?job ''error_code'' = PStr c" for c
    using get_field_member [OF that] members [of "''error_code''" "PStr c"] by simp
  from keys have "set (dict_keys ?job) \<subseteq> {''job_id'', ''kind'', ''state'', ''solution_id'', ''attempt'', ''fence'',
      ''target_event_seq'', ''retry_after_ms'', ''error_code'', ''progress'', ''terminal''}" by auto
  with terminal head progress code state show ?thesis unfolding shown_job_def by blast
qed

lemma job_checked_Inr:
  assumes "job_checked ctx args = Inr q"
  shows "JOB_ID (jr_job_id q) \<and> jr_action q \<in> set JOB_ACTIONS \<and> 0 \<le> jr_wait_ms q \<and> jr_wait_ms q \<le> MAX_WAIT_MS
    \<and> (jr_action q = ''cancel'' \<longrightarrow> jr_wait_ms q = 0 \<and> CAPABILITY_RECONCILE \<in> set (pr_capabilities (tc_principal ctx)))"
proof -
  obtain action where parts: "job_id_argument args = Inr (jr_job_id q)" "action_argument args = Inr (jr_action q)"
    "bounded_wait_argument args ''wait_ms'' = Inr (jr_wait_ms q)" "jr_action q = ''cancel'' \<longrightarrow> jr_wait_ms q = 0"
    "(if jr_action q = ''cancel'' then require_access (tc_principal ctx) CAPABILITY_RECONCILE None None else Inr ()) = Inr ()"
    using assms by (auto simp: job_checked_def bind_result_eq_Inr guard_result_eq_Inr)
  have "jr_action q \<in> set JOB_ACTIONS"
    using choice_argument_Inr parts(2) unfolding action_argument_def by (fastforce simp: JOB_ACTIONS_def)
  moreover have "JOB_ID (jr_job_id q)"
    using parts(1) by (auto simp: job_id_argument_def bind_result_eq_Inr split: if_splits)
  ultimately show ?thesis
    using parts(4,5) bounded_wait_Inr [OF parts(3)] by (auto simp: require_access_def split: if_splits)
qed

text \<open>
  A job request is one bounded call: the identifier is a job id, the wait is within its bound, and a
  cancel is sent only for a caller that may reconcile. An answer shows a job of a registered solution the
  caller sees, in a state of the schema, its finality told by that state, with closed fields, counted
  progress in the documented units and no percentage.
\<close>

theorem job_answers_visible_jobs:
  assumes "graph_job ctx args = (sent, r)"
  shows "(sent = [] \<and> \<not> is_ok r) \<or>
    (\<exists>job_id action wait control. sent = [JobCall job_id action wait] \<and> tc_control ctx = Some control \<and> JOB_ID job_id
      \<and> action \<in> set JOB_ACTIONS \<and> 0 \<le> wait \<and> wait \<le> 30000
      \<and> (action = ''cancel'' \<longrightarrow> CAPABILITY_RECONCILE \<in> set (pr_capabilities (tc_principal ctx)))
      \<and> (\<forall>d. r = Inr d \<longrightarrow> dict_keys d = JOB_FIELDS \<and>
          (\<exists>solution. get_field d ''solution_id'' = PStr solution \<and> visible (tc_principal ctx) solution
             \<and> is_ok (find_solution (tc_registry ctx) solution) \<and> shown_job (get_field d ''job'') solution)))"
proof (cases "job_checked ctx args")
  case (Inl e)
  with assms show ?thesis by (auto simp: graph_job_def)
next
  case (Inr q)
  show ?thesis
  proof (cases "tc_control ctx")
    case None
    with assms Inr show ?thesis by (auto simp: graph_job_def require_control_def)
  next
    case (Some control)
    with assms Inr have sent: "sent = [JobCall (jr_job_id q) (jr_action q) (jr_wait_ms q)]"
      and r: "r = bind_result (answer_object (cp_job control (jr_job_id q) (jr_action q) (jr_wait_ms q))) (job_answer ctx q)"
      by (auto simp: graph_job_def require_control_def)
    have "dict_keys d = JOB_FIELDS \<and> (\<exists>solution. get_field d ''solution_id'' = PStr solution
        \<and> visible (tc_principal ctx) solution \<and> is_ok (find_solution (tc_registry ctx) solution)
        \<and> shown_job (get_field d ''job'') solution)" if d: "r = Inr d" for d
    proof -
      from d r obtain answer job where a: "job_view answer = Inr job" "visible (tc_principal ctx) (js_solution job)"
        "is_ok (find_solution (tc_registry ctx) (js_solution job))"
        "d = [(''schema_version'', PInt SCHEMA_VERSION), (''action'', PStr (jr_action q)),
            (''solution_id'', PStr (js_solution job)),
            (''job'', PDict (js_view job @ [(''terminal'', PBool (js_state job \<notin> set NON_TERMINAL_STATES))])),
            (''warnings'', strings (js_warnings job))]"
        by (auto simp: bind_result_eq_Inr job_answer_def guard_result_eq_Inr is_ok_iff)
      have "dict_keys d = JOB_FIELDS" by (simp add: a(4) JOB_FIELDS_def)
      moreover have "get_field d ''solution_id'' = PStr (js_solution job)"
        "get_field d ''job'' = PDict (js_view job @ [(''terminal'', PBool (js_state job \<notin> set NON_TERMINAL_STATES))])"
        by (simp_all add: a(4) get_field_cons)
      ultimately show ?thesis using a(2,3) job_view_shown [OF a(1)] by auto
    qed
    with sent Some job_checked_Inr [OF Inr] show ?thesis unfolding MAX_WAIT_MS_def by blast
  qed
qed

section \<open>Verification modes\<close>

lemma dimension_mode:
  assumes "name \<in> set DIMENSIONS"
  shows "\<exists>modes. dict_get DIMENSION_MODES name = Some modes \<and> dm_mode (dimension name raw) \<in> set modes
    \<and> get_field (dm_view (dimension name raw)) ''mode'' = PStr (dm_mode (dimension name raw))
    \<and> ((\<forall>d. raw \<noteq> PDict d) \<longrightarrow> dm_mode (dimension name raw) = ''not_run'' \<and> dm_warnings (dimension name raw) \<noteq> [])"
proof -
  have "\<forall>name \<in> set DIMENSIONS. case dict_get DIMENSION_MODES name of None \<Rightarrow> False
      | Some modes \<Rightarrow> ''unknown'' \<in> set modes \<and> ''not_run'' \<in> set modes" by code_simp
  with assms obtain modes where "dict_get DIMENSION_MODES name = Some modes" "''unknown'' \<in> set modes" "''not_run'' \<in> set modes"
    by (auto split: option.splits)
  then show ?thesis
    by (auto simp: dimension_def get_field_cons Let_def split: pyval.splits prod.splits)
qed

text \<open>The four dimensions of an answer, each apart, each with a mode of its own list.\<close>

definition reports_dimensions :: "pyval \<Rightarrow> bool" where
  "reports_dimensions v =
     (\<exists>d. v = PDict d \<and> dict_keys d = DIMENSIONS
        \<and> (\<forall>name \<in> set DIMENSIONS. \<exists>view mode modes. get_field d name = PDict view \<and> get_field view ''mode'' = PStr mode
             \<and> dict_get DIMENSION_MODES name = Some modes \<and> mode \<in> set modes))"

lemma get_field_map:
  "key \<in> set names \<Longrightarrow> get_field (map (\<lambda>name. (name, f name)) names) key = f key"
  by (induction names) (auto simp: get_field_def)

lemma dimensions_reported:
  "reports_dimensions (PDict (map (\<lambda>name. (name, PDict (dm_view (dimension name (raw name))))) DIMENSIONS))"
  unfolding reports_dimensions_def
proof (rule exI [of _ "map (\<lambda>name. (name, PDict (dm_view (dimension name (raw name))))) DIMENSIONS"], intro conjI ballI refl)
  show "dict_keys (map (\<lambda>name. (name, PDict (dm_view (dimension name (raw name))))) DIMENSIONS) = DIMENSIONS"
    by (simp add: comp_def)
next
  fix name assume name: "name \<in> set DIMENSIONS"
  from dimension_mode [OF this, of "raw name"] obtain modes where "dict_get DIMENSION_MODES name = Some modes"
    "dm_mode (dimension name (raw name)) \<in> set modes"
    "get_field (dm_view (dimension name (raw name))) ''mode'' = PStr (dm_mode (dimension name (raw name)))" by blast
  with get_field_map [OF name, of "\<lambda>name. PDict (dm_view (dimension name (raw name)))"]
  show "\<exists>view mode modes. get_field (map (\<lambda>name. (name, PDict (dm_view (dimension name (raw name))))) DIMENSIONS) name
        = PDict view \<and> get_field view ''mode'' = PStr mode \<and> dict_get DIMENSION_MODES name = Some modes \<and> mode \<in> set modes"
    by blast
qed

text \<open>
  C22. A verification reaches the daemon at most once, for a caller with the checkpoint capability that sees
  the registered solution, and only with a fingerprint or a barrier to verify against. An answer is a job
  handle with no verdict, or a verdict on a named basis that reports all four dimensions apart, each with
  an allowed mode; a verdict on an archive never claims the current working tree.
\<close>

theorem verify_reports_modes_apart:
  assumes "graph_verify ctx args = (sent, r)"
  shows "(sent = [] \<and> \<not> is_ok r) \<or>
    (\<exists>q control. sent = [VerifyCall (verify_body q)] \<and> tc_control ctx = Some control
      \<and> CAPABILITY_CHECKPOINT \<in> set (pr_capabilities (tc_principal ctx)) \<and> visible (tc_principal ctx) (vr_solution q)
      \<and> is_ok (find_solution (tc_registry ctx) (vr_solution q)) \<and> set (vr_projects q) \<subseteq> nameable ctx (vr_solution q)
      \<and> (vr_expected q \<noteq> None \<or> vr_barrier q \<noteq> None)
      \<and> (\<forall>d. r = Inr d \<longrightarrow> dict_keys d = VERIFY_FIELDS \<and>
          (if get_field d ''job'' \<noteq> PNone
           then job_handle [''retry_after_ms''] (get_field d ''job'') \<and> get_field d ''verification'' = PNone
           else (\<exists>basis \<in> set BASES. get_field d ''basis'' = PStr basis \<and> reports_dimensions (get_field d ''verification'')
             \<and> (basis = ''archive'' \<longrightarrow> (\<forall>block view. get_field d ''verification'' = PDict block \<longrightarrow>
                  get_field block ''source'' = PDict view \<longrightarrow> get_field view ''mode'' \<noteq> PStr ''current''))))))"
proof (cases "verify_checked ctx args")
  case (Inl e)
  with assms show ?thesis by (auto simp: graph_verify_def)
next
  case (Inr q)
  show ?thesis
  proof (cases "tc_control ctx")
    case None
    with assms Inr show ?thesis by (auto simp: graph_verify_def require_control_def)
  next
    case (Some control)
    with assms Inr have sent: "sent = [VerifyCall (verify_body q)]"
      and r: "r = bind_result (answer_object (cp_verify control (verify_body q))) (verify_answer q)"
      by (auto simp: graph_verify_def require_control_def)
    have "dict_keys d = VERIFY_FIELDS \<and>
          (if get_field d ''job'' \<noteq> PNone
           then job_handle [''retry_after_ms''] (get_field d ''job'') \<and> get_field d ''verification'' = PNone
           else (\<exists>basis \<in> set BASES. get_field d ''basis'' = PStr basis \<and> reports_dimensions (get_field d ''verification'')
             \<and> (basis = ''archive'' \<longrightarrow> (\<forall>block view. get_field d ''verification'' = PDict block \<longrightarrow>
                  get_field block ''source'' = PDict view \<longrightarrow> get_field view ''mode'' \<noteq> PStr ''current''))))"
      if d: "r = Inr d" for d
    proof -
      from d r obtain answer where a: "verify_answer q answer = Inr d" by (auto simp: bind_result_eq_Inr)
      show ?thesis
      proof (cases "dict_has answer ''job_id''")
        case True
        with a show ?thesis
          by (auto simp: verify_answer_def bind_result_eq_Inr verify_document_def VERIFY_FIELDS_def get_field_cons
              verify_job_view_def dest: queued_job_view_handle)
      next
        case False
        let ?view = "\<lambda>block. map (\<lambda>name. (name, PDict (dm_view (dimension name (get_field block name))))) DIMENSIONS"
        from False a obtain basis block ws where b: "basis \<in> set BASES"
          "basis = ''archive'' \<longrightarrow> dm_mode (dimension ''source'' (get_field block ''source'')) \<noteq> ''current''"
          "d = verify_document q (PStr basis) (PDict (?view block)) PNone ws"
          by (auto simp: verify_answer_def Let_def comp_def split: pyval.splits if_splits)
        have source: "''source'' \<in> set DIMENSIONS" by code_simp
        have "get_field (?view block) ''source'' = PDict (dm_view (dimension ''source'' (get_field block ''source'')))"
          by (rule get_field_map [OF source])
        moreover have "get_field (dm_view (dimension ''source'' (get_field block ''source''))) ''mode''
            = PStr (dm_mode (dimension ''source'' (get_field block ''source'')))"
          using dimension_mode [OF source] by blast
        moreover have "dict_keys d = VERIFY_FIELDS" "get_field d ''job'' = PNone" "get_field d ''basis'' = PStr basis"
          "get_field d ''verification'' = PDict (?view block)"
          by (simp_all add: b(3) verify_document_def VERIFY_FIELDS_def get_field_cons)
        ultimately show ?thesis
          using b(1,2) dimensions_reported [of "get_field block"] by simp
      qed
    qed
    with sent Some verify_checked_Inr [OF Inr] show ?thesis by blast
  qed
qed

section \<open>Where a handler falls short\<close>

text \<open>
  A cancel reaches the daemon before the owner of the job is known: a caller that may reconcile any one
  solution cancels a job of a solution it cannot see, and is told the job was not found.
\<close>

theorem cancel_before_ownership:
  assumes "JOB_ID (strip job_id)" "CAPABILITY_RECONCILE \<in> set (pr_capabilities (tc_principal ctx))"
    "tc_control ctx = Some control" "cp_job control (strip job_id) ''cancel'' 0 = Accepted (PDict answer)"
    "job_view answer = Inr job" "\<not> visible (tc_principal ctx) (js_solution job)"
  shows "graph_job ctx [(''job_id'', PStr job_id), (''action'', PStr ''cancel'')]
    = ([JobCall (strip job_id) ''cancel'' 0], Inl not_found)"
proof -
  have "strip job_id \<noteq> []" using assms(1) by (auto simp: JOB_ID_def)
  then have "job_checked ctx [(''job_id'', PStr job_id), (''action'', PStr ''cancel'')]
      = Inr \<lparr>jr_job_id = strip job_id, jr_action = ''cancel'', jr_wait_ms = 0\<rparr>"
    using assms(1,2)
    by (simp add: job_checked_def closed_arguments_def JOB_ARGUMENTS_def job_id_argument_def require_text_def get_field_cons
        action_argument_def choice_argument_def JOB_ACTIONS_def bounded_wait_argument_def optional_int_def
        require_access_def)
  with assms(3-6) show ?thesis
    by (simp add: graph_job_def require_control_def answer_object_def job_answer_def guard_result_def)
qed

end
