(* ===== verification/Status.thy ===== *)
theory Status
  imports Control Query
begin

text \<open>
  \<open>tools/status.py\<close>: what a solution has pinned in a lane, what the caller may do and, when asked, what
  the daemon says. The snapshots come from any source, \<open>load\<close> with its state; the daemon's report is
  read field by field and never trusted for freshness without the fingerprint that proves it.
\<close>

section \<open>The daemon's report\<close>

definition STATUS_FIELDS :: "string list" where
  "STATUS_FIELDS = [''schema_version'', ''solution_id'', ''lane'', ''catalog_generation_id'', ''freshness'',
     ''coverage'', ''projects'', ''capabilities'', ''daemon'', ''warnings'']"

definition STATUS_ARGUMENTS :: "string list" where
  "STATUS_ARGUMENTS = [''solution_id'', ''project_id'', ''project_ids'', ''lane'', ''include_daemon'']"

definition LIVE_LANE :: string where "LIVE_LANE = ''live''"

definition lane_argument :: "arguments \<Rightarrow> tool_failure + string" where
  "lane_argument args = choice_argument args ''lane'' LANES LIVE_LANE"

definition REPORT_FIELDS :: "string list" where
  "REPORT_FIELDS = [''reason'', ''freshness'', ''verification'', ''verification_source_fingerprint'', ''jobs_in_flight'']"

definition unavailable_because :: "string \<Rightarrow> (string, pyval) dict" where
  "unavailable_because reason = [(''available'', PBool False), (''reason'', PStr reason)]"

definition daemon_section :: "control_answer \<Rightarrow> (string, pyval) dict" where
  "daemon_section a =
     (case a of
        Refused code \<Rightarrow> unavailable_because code
      | Broken name \<Rightarrow> unavailable_because name
      | Accepted v \<Rightarrow>
          (case v of
             PNone \<Rightarrow> unavailable_because ''no_status_reported''
           | PDict report \<Rightarrow>
               (''available'', PBool (truthy (get_field report ''available'')))
               # concat (map (\<lambda>key. if get_field report key = PNone then [] else [(key, get_field report key)]) REPORT_FIELDS)
           | _ \<Rightarrow> unavailable_because ''status_not_an_object''))"

text \<open>\<open>Verification(\<dots>)\<close>, or no evidence where its checks refuse it.\<close>

definition evidence :: "pyval \<Rightarrow> pyval \<Rightarrow> pyval \<Rightarrow> verification" where
  "evidence mode verified_at fp =
     (case make_verification mode verified_at fp of Inl _ \<Rightarrow> no_verification | Inr v \<Rightarrow> v)"

fun is_text :: "pyval \<Rightarrow> bool" where
  "is_text (PStr _) = True"
| "is_text _ = False"

definition verification_from_daemon :: "(string, pyval) dict option \<Rightarrow> verification" where
  "verification_from_daemon daemon =
     (case daemon of
        None \<Rightarrow> no_verification
      | Some d \<Rightarrow>
          if \<not> truthy (get_field d ''available'') then no_verification
          else
            (let mode = get_field d ''verification''; fp = get_field d ''verification_source_fingerprint'' in
             if mode = PStr ''inventory_hash'' \<and> is_text fp then evidence (PStr ''inventory_hash'') PNone fp
             else if mode = PStr ''watcher_hint'' \<and> is_text (get_field d ''verified_at'')
             then evidence (PStr ''watcher_hint'') (get_field d ''verified_at'') PNone
             else no_verification))"

section \<open>The answer\<close>

definition project_entry :: "loaded_snapshot \<Rightarrow> string \<Rightarrow> (string, pyval) dict" where
  "project_entry v coverage =
     [(''project_id'', PStr (ls_project_id v)), (''lane'', PStr (ls_lane v)),
      (''generation_id'', PStr (ls_generation_id v)), (''analysis_profile'', PStr (ls_analysis_profile v)),
      (''records'', PInt (ls_records v)), (''bytes_copied'', PInt (ls_bytes_copied v)),
      (''source_fingerprint'', PStr (ls_source_fingerprint v)), (''verification'', PStr (ls_verification v)),
      (''freshness'', PStr (ls_freshness v)), (''coverage'', PStr coverage),
      (''guard_held_during_copy'', PBool (ls_guard_held_during_copy v)),
      (''parsed_after_guard_release'', PBool (ls_parsed_after_guard_release v))]"

text \<open>Every project loaded and parsed before the next one is loaded.\<close>

fun load_status ::
    "('s \<Rightarrow> snapshot_location \<Rightarrow> 's \<times> (read_failure + loaded_snapshot)) \<Rightarrow> tool_context \<Rightarrow> string \<Rightarrow> string
       \<Rightarrow> 's \<Rightarrow> string list \<Rightarrow> 's \<times> (tool_failure + (loaded_snapshot \<times> graph) list)" where
  "load_status load ctx solution_id lane s [] = (s, Inr [])"
| "load_status load ctx solution_id lane s (p # ps) =
     (case load_project load ctx s solution_id p lane of
        (s', Inl e) \<Rightarrow> (s', Inl e)
      | (s', Inr v) \<Rightarrow>
          (case graph_from_snapshot v of
             Inl e \<Rightarrow> (s', Inl (QueryFailed e))
           | Inr gr \<Rightarrow>
               (case load_status load ctx solution_id lane s' ps of
                  (s'', Inl e) \<Rightarrow> (s'', Inl e)
                | (s'', Inr rest) \<Rightarrow> (s'', Inr ((v, gr) # rest)))))"

definition capability_flags :: "tool_context \<Rightarrow> (string, pyval) dict" where
  "capability_flags ctx =
     map (\<lambda>c. (c, PBool (c \<in> set (pr_capabilities (tc_principal ctx)))))
       [CAPABILITY_CHECKPOINT, CAPABILITY_READ, CAPABILITY_RECONCILE]"

definition daemon_of :: "tool_context \<Rightarrow> string \<Rightarrow> bool \<Rightarrow> tool_failure + (string, pyval) dict option" where
  "daemon_of ctx solution_id asked =
     (if \<not> asked then Inr None
      else bind_result (require_control ctx) (\<lambda>control. Inr (Some (daemon_section (cp_status control solution_id)))))"

definition daemon_calls :: "tool_context \<Rightarrow> string \<Rightarrow> bool \<Rightarrow> control_call list" where
  "daemon_calls ctx solution_id asked = (if asked \<and> tc_control ctx \<noteq> None then [StatusCall solution_id] else [])"

definition reported_freshness :: "(string, pyval) dict option \<Rightarrow> pyval" where
  "reported_freshness daemon =
     (case daemon of
        None \<Rightarrow> PNone
      | Some d \<Rightarrow>
          if truthy (get_field d ''available'')
          then (case get_field d ''freshness'' of PStr s \<Rightarrow> PStr s | _ \<Rightarrow> PNone) else PNone)"

text \<open>\<open>_warnings\<close>: the groups in order, each text once.\<close>

definition joined_warnings :: "string list list \<Rightarrow> string list" where
  "joined_warnings groups = foldl add_new [] (concat groups)"

record status_request =
  sq_solution :: string
  sq_lane :: string
  sq_daemon :: bool
  sq_projects :: "string list"

definition status_checked :: "tool_context \<Rightarrow> arguments \<Rightarrow> tool_failure + status_request" where
  "status_checked ctx args =
     bind_result (closed_arguments args STATUS_ARGUMENTS) (\<lambda>_.
     bind_result (identifier_argument args ''solution_id'') (\<lambda>solution_id.
     bind_result (lane_argument args) (\<lambda>lane.
     bind_result (optional_bool args ''include_daemon'' False) (\<lambda>asked.
     bind_result (open_solution ctx solution_id) (\<lambda>_.
     bind_result (project_scope args) (\<lambda>requested.
     bind_result (resolve_projects ctx solution_id requested) (\<lambda>projects.
     bind_result (guard_result (projects \<noteq> []) not_found) (\<lambda>_.
       Inr \<lparr>sq_solution = solution_id, sq_lane = lane, sq_daemon = asked, sq_projects = projects\<rparr>))))))))"

definition status_document ::
    "(warning \<Rightarrow> string) \<Rightarrow> tool_context \<Rightarrow> status_request \<Rightarrow> (loaded_snapshot \<times> graph) list \<Rightarrow> graph_set
       \<Rightarrow> string \<times> warning list \<Rightarrow> (string, pyval) dict option \<Rightarrow> tool_failure + (string, pyval) dict" where
  "status_document say ctx q members gs covered daemon =
     (case resolve_freshness (reported_freshness daemon) (verification_from_daemon daemon) of
        (freshness, doubts) \<Rightarrow>
          bind_result (raising QueryFailed (catalog_generation_id (ScopeSet gs))) (\<lambda>catalog.
            Inr [(''schema_version'', PInt SCHEMA_VERSION), (''solution_id'', PStr (sq_solution q)),
                 (''lane'', PStr (sq_lane q)), (''catalog_generation_id'', PStr catalog),
                 (''freshness'', PStr freshness), (''coverage'', PStr (fst covered)),
                 (''projects'', PList (map (\<lambda>(v, gr). PDict (project_entry v (coverage_status gr))) members)),
                 (''capabilities'', PDict (capability_flags ctx)), (''daemon'', maybe_object daemon),
                 (''warnings'', strings (joined_warnings [map say (snd covered), map say doubts]))]))"

text \<open>
  The handler after its arguments. Coverage of a project is that of its own graph: \<open>GraphSet\<close> has found
  the projects distinct, so the code's dictionary by project is the pairing here.
\<close>

definition status_answer ::
    "(warning \<Rightarrow> string) \<Rightarrow> tool_context \<Rightarrow> status_request \<Rightarrow> (loaded_snapshot \<times> graph) list
       \<Rightarrow> control_call list \<times> (tool_failure + (string, pyval) dict)" where
  "status_answer say ctx q members =
     (case bind_result (raising QueryFailed (make_graph_set (map snd members) [])) (\<lambda>gs.
            bind_result (raising (\<lambda>_. AxiomError ''SNAPSHOT_CORRUPT'') (aggregate_coverage (ScopeSet gs))) (\<lambda>covered.
              Inr (gs, covered))) of
        Inl e \<Rightarrow> ([], Inl e)
      | Inr (gs, covered) \<Rightarrow>
          (daemon_calls ctx (sq_solution q) (sq_daemon q),
           bind_result (daemon_of ctx (sq_solution q) (sq_daemon q)) (status_document say ctx q members gs covered)))"

definition graph_status ::
    "('s \<Rightarrow> snapshot_location \<Rightarrow> 's \<times> (read_failure + loaded_snapshot)) \<Rightarrow> (warning \<Rightarrow> string) \<Rightarrow> tool_context \<Rightarrow> 's
       \<Rightarrow> arguments \<Rightarrow> 's \<times> control_call list \<times> (tool_failure + (string, pyval) dict)" where
  "graph_status load say ctx s args =
     (case status_checked ctx args of
        Inl e \<Rightarrow> (s, [], Inl e)
      | Inr q \<Rightarrow>
          (case load_status load ctx (sq_solution q) (sq_lane q) s (sq_projects q) of
             (s', Inl e) \<Rightarrow> (s', [], Inl e)
           | (s', Inr members) \<Rightarrow> (s', status_answer say ctx q members)))"

section \<open>What a status says\<close>

lemma status_checked_Inr:
  assumes "status_checked ctx args = Inr q"
  shows "sq_lane q \<in> set LANES \<and> sq_projects q \<noteq> [] \<and> set (sq_projects q) \<subseteq> granted ctx (sq_solution q)
    \<and> (sq_daemon q \<longrightarrow> get_field args ''include_daemon'' = PBool True)"
proof -
  obtain u requested where parts: "lane_argument args = Inr (sq_lane q)" "open_solution ctx (sq_solution q) = Inr u"
    "optional_bool args ''include_daemon'' False = Inr (sq_daemon q)"
    "resolve_projects ctx (sq_solution q) requested = Inr (sq_projects q)" "sq_projects q \<noteq> []"
    using assms by (auto simp: status_checked_def bind_result_eq_Inr guard_result_eq_Inr)
  have "sq_lane q \<in> set LANES"
    using choice_argument_Inr parts(1) unfolding lane_argument_def by (fastforce simp: LANES_def LIVE_LANE_def)
  moreover have "sq_daemon q \<longrightarrow> get_field args ''include_daemon'' = PBool True"
    using parts(3) by (auto simp: optional_bool_def split: pyval.splits)
  ultimately show ?thesis using parts resolve_projects_granted by blast
qed

text \<open>Each member is what the source loaded for its project, parsed.\<close>

lemma load_status_members:
  "load_status load ctx solution lane s ps = (s', Inr members) \<Longrightarrow>
     list_all2 (\<lambda>p m. graph_from_snapshot (fst m) = Inr (snd m)
       \<and> (\<exists>location t t'. find_location (tc_registry ctx) solution p lane = Inr location \<and> load t location = (t', Inr (fst m))))
       ps members"
proof (induction ps arbitrary: s s' members)
  case Nil
  then show ?case by simp
next
  case (Cons p ps)
  then obtain t v gr rest where step: "load_project load ctx s solution p lane = (t, Inr v)" "graph_from_snapshot v = Inr gr"
    "load_status load ctx solution lane t ps = (s', Inr rest)" "members = (v, gr) # rest"
    by (auto split: prod.splits sum.splits)
  from step(1) obtain location where found: "find_location (tc_registry ctx) solution p lane = Inr location"
    "map_prod id (raising (\<lambda>e. if e = FileNotFound then snapshot_unavailable else ReadFailed e)) (load s location) = (t, Inr v)"
    by (auto simp: load_project_def split: sum.splits)
  then have "\<exists>t'. load s location = (t', Inr v)" by (cases "load s location") auto
  with Cons.IH [OF step(3)] step(2,4) found(1) show ?case by auto
qed

text \<open>What the daemon has to have reported before a status may say fresh.\<close>

definition proves_fresh :: "control_answer \<Rightarrow> bool" where
  "proves_fresh a =
     (\<exists>report f. a = Accepted (PDict report) \<and> truthy (get_field report ''available'')
        \<and> get_field report ''freshness'' = PStr ''fresh'' \<and> get_field report ''verification'' = PStr ''inventory_hash''
        \<and> get_field report ''verification_source_fingerprint'' = PStr f \<and> SHA256_RE f)"

lemma get_field_concat:
  "get_field (concat (map (\<lambda>key. if f key = PNone then [] else [(key, f key)]) keys)) key
     = (if key \<in> set keys then f key else PNone)"
  by (induction keys) (auto simp: get_field_append get_field_cons)

lemma daemon_section_fields:
  assumes "truthy (get_field (daemon_section a) ''available'')"
  shows "\<exists>report. a = Accepted (PDict report) \<and> truthy (get_field report ''available'')
    \<and> (\<forall>key \<in> set REPORT_FIELDS. get_field (daemon_section a) key = get_field report key)"
proof -
  from assms obtain report where report: "a = Accepted (PDict report)"
    by (auto simp: daemon_section_def unavailable_because_def get_field_cons split: control_answer.splits pyval.splits)
  with assms have "truthy (get_field report ''available'')" by (simp add: daemon_section_def get_field_cons)
  moreover have "\<forall>key \<in> set REPORT_FIELDS. key \<noteq> ''available''" by code_simp
  ultimately show ?thesis
    using report by (auto simp: daemon_section_def get_field_cons get_field_concat)
qed

lemma evidence_inventory:
  "v_mode (evidence (PStr ''inventory_hash'') PNone fp) = VERIFICATION_INVENTORY \<Longrightarrow> \<exists>f. fp = PStr f \<and> SHA256_RE f"
  by (auto simp: evidence_def make_verification_def bind_result_eq_Inr guard_result_eq_Inr optional_text_def fingerprint_def
      sha256_text_Inr no_verification_def VERIFICATION_NONE_def VERIFICATION_INVENTORY_def
      split: sum.splits if_splits pyval.splits)

lemma evidence_other: "mode \<noteq> VERIFICATION_INVENTORY \<Longrightarrow> v_mode (evidence (PStr mode) moment fp) \<noteq> VERIFICATION_INVENTORY"
  by (auto simp: evidence_def make_verification_def bind_result_eq_Inr in_tuple_def no_verification_def
      VERIFICATION_NONE_def VERIFICATION_INVENTORY_def split: sum.splits if_splits)

lemma fresh_needs_proof:
  assumes "fst (resolve_freshness (reported_freshness daemon) (verification_from_daemon daemon)) = ''fresh''"
    "daemon = map_option daemon_section answer"
  shows "\<exists>a. answer = Some a \<and> proves_fresh a"
proof -
  have reported: "reported_freshness daemon = PStr ''fresh''"
    and mode: "v_mode (verification_from_daemon daemon) = VERIFICATION_INVENTORY"
    using assms(1) resolve_freshness_fresh [of "reported_freshness daemon" "verification_from_daemon daemon"]
    by (simp_all add: FRESHNESS_FRESH_def)
  from reported obtain d where d: "daemon = Some d" "truthy (get_field d ''available'')" "get_field d ''freshness'' = PStr ''fresh''"
    by (auto simp: reported_freshness_def split: option.splits if_splits pyval.splits)
  from mode d have "get_field d ''verification'' = PStr ''inventory_hash''
      \<and> v_mode (evidence (PStr ''inventory_hash'') PNone (get_field d ''verification_source_fingerprint'')) = VERIFICATION_INVENTORY"
    using evidence_other [of "''watcher_hint''"]
    by (auto simp: verification_from_daemon_def Let_def no_verification_def VERIFICATION_NONE_def VERIFICATION_INVENTORY_def
        split: if_splits)
  with evidence_inventory obtain f where f: "get_field d ''verification'' = PStr ''inventory_hash''"
    "get_field d ''verification_source_fingerprint'' = PStr f" "SHA256_RE f" by blast
  from d(1) assms(2) obtain a where a: "answer = Some a" "d = daemon_section a" by auto
  have keys: "''freshness'' \<in> set REPORT_FIELDS" "''verification'' \<in> set REPORT_FIELDS"
    "''verification_source_fingerprint'' \<in> set REPORT_FIELDS" by code_simp+
  from daemon_section_fields [of a] d(2) a(2) obtain report where "a = Accepted (PDict report)"
    "truthy (get_field report ''available'')" "\<forall>key \<in> set REPORT_FIELDS. get_field d key = get_field report key" by blast
  with a(1) f d(3) keys show ?thesis unfolding proves_fresh_def by metis
qed

text \<open>
  C20. An answer of \<open>graph_status\<close> covers projects the caller was granted, at least one, each shown with the
  facts of the snapshot its registered location loaded. It says fresh only when the daemon was asked and
  reported a fresh state with an inventory hash and a well-formed fingerprint; the daemon is asked at most
  once, and only on request.
\<close>

theorem status_answers_granted:
  assumes "graph_status load say ctx s args = (s', sent, Inr d)"
  shows "\<exists>solution lane projects members. get_field d ''solution_id'' = PStr solution
    \<and> get_field d ''lane'' = PStr lane \<and> lane \<in> set LANES \<and> projects \<noteq> [] \<and> set projects \<subseteq> granted ctx solution
    \<and> get_field d ''projects'' = PList (map (\<lambda>m. PDict (project_entry (fst m) (coverage_status (snd m)))) members)
    \<and> list_all2 (\<lambda>p m. graph_from_snapshot (fst m) = Inr (snd m) \<and> (\<exists>location t t'.
          find_location (tc_registry ctx) solution p lane = Inr location \<and> load t location = (t', Inr (fst m)))) projects members
    \<and> (sent \<noteq> [] \<longrightarrow> sent = [StatusCall solution] \<and> get_field args ''include_daemon'' = PBool True)
    \<and> (get_field d ''freshness'' = PStr ''fresh'' \<longrightarrow>
         sent \<noteq> [] \<and> (\<exists>control. tc_control ctx = Some control \<and> proves_fresh (cp_status control solution)))"
proof -
  obtain q t members where q: "status_checked ctx args = Inr q"
    "load_status load ctx (sq_solution q) (sq_lane q) s (sq_projects q) = (t, Inr members)"
    "status_answer say ctx q members = (sent, Inr d)"
    using assms by (auto simp: graph_status_def split: sum.splits prod.splits)
  then obtain gs covered daemon where a: "sent = daemon_calls ctx (sq_solution q) (sq_daemon q)"
    "daemon_of ctx (sq_solution q) (sq_daemon q) = Inr daemon" "status_document say ctx q members gs covered daemon = Inr d"
    by (auto simp: status_answer_def bind_result_eq_Inr split: sum.splits prod.splits)
  let ?freshness = "fst (resolve_freshness (reported_freshness daemon) (verification_from_daemon daemon))"
  have shown: "get_field d ''solution_id'' = PStr (sq_solution q)" "get_field d ''lane'' = PStr (sq_lane q)"
    "get_field d ''projects'' = PList (map (\<lambda>m. PDict (project_entry (fst m) (coverage_status (snd m)))) members)"
    "get_field d ''freshness'' = PStr ?freshness"
    using a(3) by (auto simp: status_document_def bind_result_eq_Inr get_field_cons split_beta split: prod.splits)
  have fresh: "sent \<noteq> [] \<and> (\<exists>control. tc_control ctx = Some control \<and> proves_fresh (cp_status control (sq_solution q)))"
    if "?freshness = ''fresh''"
  proof (cases "sq_daemon q \<and> tc_control ctx \<noteq> None")
    case True
    then obtain control where c: "tc_control ctx = Some control" by auto
    with a(2) True have "daemon = map_option daemon_section (Some (cp_status control (sq_solution q)))"
      by (simp add: daemon_of_def require_control_def)
    from fresh_needs_proof [OF that this] c a(1) True show ?thesis by (simp add: daemon_calls_def)
  next
    case False
    with a(2) have "daemon = map_option daemon_section None"
      by (auto simp: daemon_of_def require_control_def split: if_splits)
    from fresh_needs_proof [OF that this] show ?thesis by simp
  qed
  note req = status_checked_Inr [OF q(1)]
  show ?thesis
    by (rule exI [of _ "sq_solution q"], rule exI [of _ "sq_lane q"], rule exI [of _ "sq_projects q"], rule exI [of _ members])
      (use shown req load_status_members [OF q(2)] fresh a(1) in \<open>auto simp: daemon_calls_def split: if_splits\<close>)
qed

text \<open>
  The branch for a watcher hint never runs: it reads the time of the hint from the section, and the
  section has no such field.
\<close>

theorem watcher_hint_never_reported:
  "v_mode (verification_from_daemon (Some (daemon_section a))) \<noteq> ''watcher_hint''"
proof -
  have "get_field (daemon_section a) ''verified_at'' = PNone"
    by (auto simp: daemon_section_def unavailable_because_def get_field_cons get_field_concat REPORT_FIELDS_def
        split: control_answer.splits pyval.splits)
  then show ?thesis
    by (auto simp: verification_from_daemon_def Let_def no_verification_def VERIFICATION_NONE_def VERIFICATION_INVENTORY_def evidence_def
        make_verification_def bind_result_eq_Inr in_tuple_def split: sum.splits if_splits)
qed

end
