(* ===== verification/ControlExample.thy ===== *)
theory ControlExample
  imports Status QueryExample
begin

text \<open>
  The daemon of the example, and the delegating tools run against it: a caller with every capability on
  the solution of \<open>SessionExample\<close>.
\<close>

definition exc_principal :: principal where
  "exc_principal = \<lparr>pr_token_id = ''t'', pr_capabilities = [CAPABILITY_READ, CAPABILITY_RECONCILE, CAPABILITY_CHECKPOINT],
     pr_solution_ids = [''shop''], pr_project_ids = Some [''app'']\<rparr>"

definition exc_job :: "(string, pyval) dict" where
  "exc_job = [(''job_id'', PStr ''j1''), (''state'', PStr ''RUNNING''), (''solution_id'', PStr ''shop''),
     (''kind'', PStr ''k''), (''attempt'', PInt 1), (''progress'', PDict [(''units_done'', PInt 2), (''pct'', PInt 9)])]"

definition exc_verdict :: "(string, pyval) dict" where
  "exc_verdict = [(''basis'', PStr ''archive''), (''verification'',
     PDict [(''hash'', PDict [(''mode'', PStr ''verified'')]), (''source'', PDict [(''mode'', PStr ''archive_contents'')])])]"

definition exc_report :: "(string, pyval) dict" where
  "exc_report = [(''available'', PBool True), (''freshness'', PStr ''fresh''), (''verification'', PStr ''inventory_hash''),
     (''verification_source_fingerprint'', PStr (ex_id CHR ''7''))]"

definition exc_control :: control_plane where
  "exc_control = \<lparr>cp_status = (\<lambda>_. Accepted (PDict exc_report)), cp_reconcile = (\<lambda>_. Accepted (PDict exc_job)),
     cp_job = (\<lambda>_ _ _. Accepted (PDict exc_job)), cp_verify = (\<lambda>_. Accepted (PDict exc_verdict))\<rparr>"

definition exc_context :: tool_context where
  "exc_context = \<lparr>tc_registry = ex_registry, tc_principal = exc_principal, tc_control = Some exc_control, tc_clock = 0,
     tc_cursors = empty_store\<rparr>"

definition exc_reconcile :: arguments where
  "exc_reconcile = [(''solution_id'', PStr ''shop''), (''scope'', PStr ''project''), (''project_id'', PStr ''app''),
     (''reason'', PStr ''r'')]"

theorem reconcile_delegates_authorized_witness:
  "\<exists>body d. graph_reconcile exc_context exc_reconcile = ([ReconcileCall body], Inr d)
     \<and> dict_keys d = RECONCILE_FIELDS \<and> get_field d ''project_ids'' = strings [''app'']
     \<and> job_handle [''target_event_seq'', ''retry_after_ms''] (get_field d ''job'')"
proof -
  let ?run = "graph_reconcile exc_context exc_reconcile"
  have run: "is_ok (snd ?run)" "length (fst ?run) = 1"
    "case snd ?run of Inl _ \<Rightarrow> False | Inr d \<Rightarrow> get_field d ''publication'' = PNone \<and> get_field d ''project_ids'' = strings [''app'']"
    by code_simp+
  then obtain d sent where d: "?run = (sent, Inr d)" "get_field d ''publication'' = PNone"
    "get_field d ''project_ids'' = strings [''app'']" "length sent = 1"
    by (cases ?run) (auto simp: is_ok_iff)
  from reconcile_delegates_authorized [OF d(1)] d show ?thesis by auto
qed

theorem job_answers_visible_jobs_witness:
  "\<exists>sent d. graph_job exc_context [(''job_id'', PStr ''j1'')] = (sent, Inr d) \<and> dict_keys d = JOB_FIELDS
     \<and> shown_job (get_field d ''job'') ''shop''"
proof -
  let ?run = "graph_job exc_context [(''job_id'', PStr ''j1'')]"
  have "case snd ?run of Inl _ \<Rightarrow> False | Inr d \<Rightarrow> get_field d ''solution_id'' = PStr ''shop''" by code_simp
  then obtain d sent where d: "?run = (sent, Inr d)" "get_field d ''solution_id'' = PStr ''shop''"
    by (cases ?run) (auto split: sum.splits)
  from job_answers_visible_jobs [OF d(1)] d show ?thesis by auto
qed

definition exc_verify :: arguments where
  "exc_verify = [(''solution_id'', PStr ''shop''), (''target_event_seq'', PInt 3)]"

theorem verify_reports_modes_apart_witness:
  "\<exists>sent d. graph_verify exc_context exc_verify = (sent, Inr d) \<and> dict_keys d = VERIFY_FIELDS
     \<and> get_field d ''basis'' = PStr ''archive'' \<and> reports_dimensions (get_field d ''verification'')"
proof -
  let ?run = "graph_verify exc_context exc_verify"
  have "case snd ?run of Inl _ \<Rightarrow> False | Inr d \<Rightarrow> get_field d ''basis'' = PStr ''archive'' \<and> get_field d ''job'' = PNone"
    by code_simp
  then obtain d sent where d: "?run = (sent, Inr d)" "get_field d ''basis'' = PStr ''archive''" "get_field d ''job'' = PNone"
    by (cases ?run) (auto split: sum.splits)
  from verify_reports_modes_apart [OF d(1)] d show ?thesis by auto
qed

section \<open>A status that is fresh\<close>

definition exc_load :: "unit \<Rightarrow> snapshot_location \<Rightarrow> unit \<times> (read_failure + loaded_snapshot)" where
  "exc_load u location = ((), Inr exs_snapshot)"

definition exc_status :: arguments where
  "exc_status = [(''solution_id'', PStr ''shop''), (''include_daemon'', PBool True)]"

definition exc_request :: status_request where
  "exc_request = \<lparr>sq_solution = ''shop'', sq_lane = ''live'', sq_daemon = True, sq_projects = [''app'']\<rparr>"

lemma exc_checked: "status_checked exc_context exc_status = Inr exc_request"
  by code_simp

lemma exc_loaded: "load_status exc_load exc_context ''shop'' ''live'' () [''app''] = ((), Inr [(exs_snapshot, exq_graph)])"
proof -
  have "is_ok (require_access exc_principal CAPABILITY_READ (Some ''shop'') (Some [''app'']))"
    "is_ok (find_location ex_registry ''shop'' ''app'' ''live'')" by code_simp+
  then show ?thesis by (auto simp: is_ok_iff load_project_def exc_context_def exc_load_def exq_graph_read raising_def)
qed

lemma exc_covered: "aggregate_coverage (ScopeSet exq_scope) = Inr (''partial'', [])"
proof -
  have "gs_graphs exq_scope = [exq_graph]" "project_ids exq_scope = [''app'']" "gs_missing exq_scope = []"
    by (simp_all add: exq_scope_lists)
  moreover have "g_coverage exq_graph = Some exs_coverage" by (simp add: exq_graph_def)
  moreover have "exs_coverage \<noteq> []" "''partial'' \<in> set COVERAGE" "COVERAGE_SEVERITY ! severity ''partial'' = ''partial''"
    by code_simp+
  moreover have "coverage_status exq_graph = ''partial''" by (simp add: coverage_status_def exq_graph_def exs_coverage_def)
  ultimately show ?thesis by (simp add: aggregate_coverage_def worst_member_def)
qed

lemma exc_set: "make_graph_set [exq_graph] [] = Inr exq_scope"
  using exq_scope_built exq_graph_read by (simp add: scope_of_snapshots_def make_graph_set_def)

theorem status_answers_granted_witness:
  "\<exists>sent d (control :: control_plane). graph_status exc_load (\<lambda>_. ''w'') exc_context () exc_status = ((), sent, Inr d)
     \<and> get_field d ''freshness'' = PStr ''fresh'' \<and> sent = [StatusCall ''shop'']
     \<and> proves_fresh (cp_status control ''shop'')"
proof -
  let ?daemon = "Some (daemon_section (Accepted (PDict exc_report)))"
  have fresh: "fst (resolve_freshness (reported_freshness ?daemon) (verification_from_daemon ?daemon)) = ''fresh''" by code_simp
  obtain doubts where "resolve_freshness (reported_freshness ?daemon) (verification_from_daemon ?daemon) = (''fresh'', doubts)"
    using fresh by (cases "resolve_freshness (reported_freshness ?daemon) (verification_from_daemon ?daemon)") simp
  then obtain d where d: "status_document (\<lambda>_. ''w'') exc_context exc_request [(exs_snapshot, exq_graph)] exq_scope
      (''partial'', []) ?daemon = Inr d" "get_field d ''freshness'' = PStr ''fresh''"
    "get_field d ''solution_id'' = PStr ''shop''"
    by (simp add: status_document_def catalog_generation_id_def exc_request_def get_field_cons raising_def)
  have control: "tc_control exc_context = Some exc_control" "cp_status exc_control x = Accepted (PDict exc_report)" for x
    by (simp_all add: exc_context_def exc_control_def)
  have run: "graph_status exc_load (\<lambda>_. ''w'') exc_context () exc_status = ((), [StatusCall ''shop''], Inr d)"
    using d(1) exc_loaded
    by (simp add: graph_status_def exc_checked exc_request_def status_answer_def exc_set exc_covered daemon_calls_def
        daemon_of_def require_control_def control raising_def)
  from status_answers_granted [OF run] d(2,3) obtain control :: control_plane where "proves_fresh (cp_status control ''shop'')" by auto
  with run d(2) show ?thesis by blast
qed

end
