(* ===== verification/Redaction.thy ===== *)
theory Redaction
  imports Points Hosts "HOL-Library.Multiset"
begin

text \<open>
  \<open>errors.py\<close>, redaction. A text is the list of its code points, each the bytes of its encoding. The
  pattern table is a list of regular expressions, matched by backtracking as \<open>re\<close> does: \<open>ends\<close> lists
  where a match can end, in the order \<open>re\<close> tries them, so the first is the match. Which code points
  are word characters (\<open>\w\<close>) is an argument, as is \<open>str.lower\<close>.
\<close>

section \<open>Regular expressions\<close>

datatype regex =
    One "string \<Rightarrow> bool"
  | Edge
  | NotAfter "string \<Rightarrow> bool"
  | Nothing
  | Cat regex regex
  | Alt regex regex
  | Rep nat "nat option" regex
  | Lazy nat nat regex

text \<open>A position in a text: the code point before it, where there is one, and the text after it.\<close>

type_synonym place = "string option \<times> string list"

definition is_word :: "(string \<Rightarrow> bool) \<Rightarrow> string option \<Rightarrow> bool" where
  "is_word w c = (case c of None \<Rightarrow> False | Some p \<Rightarrow> w p)"

definition next_point :: "place \<Rightarrow> string option" where
  "next_point at_place = (case snd at_place of [] \<Rightarrow> None | c # _ \<Rightarrow> Some c)"

text \<open>
  A repetition, over what one round of its body can reach. A round that consumes nothing is not repeated;
  no body of the table can match the empty text. The fuel is the length of the rest.
\<close>

fun rounds :: "(place \<Rightarrow> place list) \<Rightarrow> nat \<Rightarrow> nat \<Rightarrow> nat option \<Rightarrow> place \<Rightarrow> place list" where
  "rounds body 0 lo hi p = (if lo = 0 then [p] else [])"
| "rounds body (Suc fuel) lo hi p =
     (if hi = Some 0 then []
      else concat (map (rounds body fuel (lo - 1) (map_option (\<lambda>n. n - 1) hi))
             (filter (\<lambda>q. length (snd q) < length (snd p)) (body p))))
     @ (if lo = 0 then [p] else [])"

fun lazy_rounds :: "(place \<Rightarrow> place list) \<Rightarrow> nat \<Rightarrow> nat \<Rightarrow> nat \<Rightarrow> place \<Rightarrow> place list" where
  "lazy_rounds body 0 lo hi p = (if lo = 0 then [p] else [])"
| "lazy_rounds body (Suc fuel) lo hi p =
     (if lo = 0 then [p] else [])
     @ (if hi = 0 then []
        else concat (map (lazy_rounds body fuel (lo - 1) (hi - 1))
               (filter (\<lambda>q. length (snd q) < length (snd p)) (body p))))"

fun ends :: "(string \<Rightarrow> bool) \<Rightarrow> regex \<Rightarrow> place \<Rightarrow> place list" where
  "ends w (One f) p = (case snd p of [] \<Rightarrow> [] | c # rest \<Rightarrow> if f c then [(Some c, rest)] else [])"
| "ends w Edge p = (if is_word w (fst p) \<noteq> is_word w (next_point p) then [p] else [])"
| "ends w (NotAfter f) p = (case fst p of None \<Rightarrow> [p] | Some c \<Rightarrow> if f c then [] else [p])"
| "ends w Nothing p = [p]"
| "ends w (Cat a b) p = concat (map (ends w b) (ends w a p))"
| "ends w (Alt a b) p = ends w a p @ ends w b p"
| "ends w (Rep lo hi r) p = rounds (ends w r) (length (snd p)) lo hi p"
| "ends w (Lazy lo hi r) p = lazy_rounds (ends w r) (length (snd p)) lo hi p"

section \<open>The pattern table\<close>

definition one_of :: "string \<Rightarrow> string \<Rightarrow> bool" where
  "one_of cs p = list_ex (\<lambda>c. p = [c]) cs"

definition between :: "char \<Rightarrow> char \<Rightarrow> string \<Rightarrow> bool" where
  "between lo hi p = (case p of [c] \<Rightarrow> in_range lo hi c | _ \<Rightarrow> False)"

definition alnum :: "string \<Rightarrow> bool" where
  "alnum p = (between CHR ''a'' CHR ''z'' p \<or> between CHR ''A'' CHR ''Z'' p \<or> between CHR ''0'' CHR ''9'' p)"

definition space :: "string \<Rightarrow> bool" where
  "space p = (p \<in> set SPACES)"

text \<open>
  Under \<open>re.I\<close> a letter also matches its other case and, over Unicode, the code points that fold to it: the
  Kelvin sign, the long s, and the dotted and dotless i.
\<close>

definition CASE_EXTRAS :: "(char \<times> string) list" where
  "CASE_EXTRAS =
     [(CHR ''k'', [CHR 0xE2, CHR 0x84, CHR 0xAA]), (CHR ''s'', [CHR 0xC5, CHR 0xBF]),
      (CHR ''i'', [CHR 0xC4, CHR 0xB0]), (CHR ''i'', [CHR 0xC4, CHR 0xB1])]"

definition same_letter :: "char \<Rightarrow> string \<Rightarrow> bool" where
  "same_letter c p =
     (ascii_lower p = ascii_lower [c] \<or> list_ex (\<lambda>e. ascii_lower [c] = [fst e] \<and> p = snd e) CASE_EXTRAS)"

definition any_letter :: "string \<Rightarrow> bool" where
  "any_letter p =
     (between CHR ''a'' CHR ''z'' p \<or> between CHR ''A'' CHR ''Z'' p \<or> p \<in> set (map snd CASE_EXTRAS))"

fun literal :: "string \<Rightarrow> regex" where
  "literal [] = Nothing"
| "literal (c # s) = Cat (One (\<lambda>p. p = [c])) (literal s)"

fun literal_i :: "string \<Rightarrow> regex" where
  "literal_i [] = Nothing"
| "literal_i (c # s) = Cat (One (same_letter c)) (literal_i s)"

fun choice :: "regex list \<Rightarrow> regex" where
  "choice [] = Nothing"
| "choice [r] = r"
| "choice (r # rs) = Alt r (choice rs)"

fun sequence :: "regex list \<Rightarrow> regex" where
  "sequence [] = Nothing"
| "sequence (r # rs) = Cat r (sequence rs)"

definition blanks :: regex where "blanks = Rep 0 None (One (one_of [CHR '' '', CHR 0x09]))"
definition token_char :: "string \<Rightarrow> bool" where "token_char p = (alnum p \<or> one_of ''_-'' p)"
definition slash :: "string \<Rightarrow> bool" where "slash = one_of [CHR 0x5C, CHR ''/'']"
definition backslash :: regex where "backslash = One (one_of [CHR 0x5C])"

definition windows_part :: "string \<Rightarrow> bool" where
  "windows_part p = (\<not> (slash p \<or> space p \<or> one_of [CHR 0x22, CHR 0x27, CHR ''<'', CHR ''>'', CHR ''|''] p))"

definition PATTERNS :: "(string \<Rightarrow> bool) \<Rightarrow> (string \<times> regex) list" where
  "PATTERNS w =
    [(''private_key_block'',
        sequence [literal ''-----BEGIN '', Rep 0 None (One (\<lambda>p. between CHR ''A'' CHR ''Z'' p \<or> p = '' '')),
          literal ''PRIVATE KEY-----'']),
     (''cloud_access_key'',
        sequence [Edge, choice [literal ''AKIA'', literal ''ASIA''],
          Rep 16 (Some 16) (One (\<lambda>p. between CHR ''0'' CHR ''9'' p \<or> between CHR ''A'' CHR ''Z'' p)), Edge]),
     (''provider_token'',
        sequence [Edge, choice [Cat (literal ''gh'') (One (one_of ''pousr'')), literal ''glpat'',
            Cat (literal ''xox'') (One (one_of ''baprs''))],
          literal ''_'', Rep 16 None (One token_char), Edge]),
     (''provider_token'', sequence [Edge, literal ''sk-'', Rep 24 None (One alnum), Edge]),
     (''bearer_token'',
        sequence [Edge, literal ''Bearer'', Rep 1 None (One (one_of [CHR '' '', CHR 0x09])),
          Rep 16 None (One (\<lambda>p. alnum p \<or> one_of ''._~+/=-'' p))]),
     (''jwt'',
        sequence [Edge, literal ''eyJ'', Rep 6 None (One token_char), literal ''.'', Rep 6 None (One token_char),
          literal ''.'', Rep 6 None (One token_char), Edge]),
     (''password_assignment'',
        sequence [Edge, choice [literal_i ''password'', literal_i ''passwd'', literal_i ''pwd'', literal_i ''secret'',
            literal_i ''token'',
            sequence [literal_i ''api'', Rep 0 (Some 1) (One (one_of ''_-'')), literal_i ''key'']],
          Edge, blanks, One (one_of '':=''), blanks, Rep 6 None (One (\<lambda>p. \<not> (space p \<or> one_of '',;'' p)))]),
     (''credential_url'',
        sequence [Edge, One any_letter, Rep 0 None (One (\<lambda>p. any_letter p \<or> between CHR ''0'' CHR ''9'' p \<or> one_of ''+.-'' p)),
          literal ''://'', Rep 1 (Some 64) (One (\<lambda>p. \<not> (space p \<or> one_of ''/:@'' p))), literal '':'',
          Rep 1 (Some 64) (One (\<lambda>p. \<not> (space p \<or> one_of ''/@'' p))), literal ''@'']),
     (''odbc_connection_string'',
        sequence [Edge, choice [literal_i ''Data Source'', literal_i ''Server'', literal_i ''Initial Catalog''], Edge,
          blanks, literal ''='', Rep 1 None (One (\<lambda>p. \<not> one_of [CHR '';'', newline] p)), literal '';'',
          Lazy 0 200 (One (\<lambda>_. True)), Edge, choice [literal_i ''Password'', literal_i ''Pwd''], Edge, blanks,
          literal ''='', Rep 1 None (One (\<lambda>p. \<not> (space p \<or> one_of '';'' p)))]),
     (''windows_absolute_path'',
        sequence [NotAfter (\<lambda>p. w p \<or> p = ''$''), One (\<lambda>p. between CHR ''A'' CHR ''Z'' p \<or> between CHR ''a'' CHR ''z'' p),
          literal '':'', Rep 1 None (One slash),
          Rep 0 None (Cat (Rep 1 None (One windows_part)) (Rep 1 None (One slash))), Rep 0 None (One windows_part)]),
     (''unc_path'',
        sequence [backslash, Rep 1 None backslash, Rep 1 (Some 64) (One (\<lambda>p. alnum p \<or> one_of ''._$-'' p)),
          backslash, Rep 1 None backslash, Rep 1 (Some 64) (One (\<lambda>p. \<not> (slash p \<or> space p)))]),
     (''posix_absolute_path'',
        sequence [NotAfter (\<lambda>p. w p \<or> one_of '':/.-'' p), literal ''/'',
          choice (map literal [''home'', ''Users'', ''root'', ''usr'', ''etc'', ''var'', ''opt'', ''private'', ''mnt'',
            ''Volumes'', ''tmp'', ''srv'']),
          Rep 0 (Some 1) (Cat (literal ''/'')
            (Rep 0 None (One (\<lambda>p. \<not> (space p \<or> one_of [CHR 0x22, CHR 0x27, CHR '','', CHR '';'', CHR '':'', CHR '')'',
               CHR '']'', CHR ''}''] p)))))])]"

definition PROHIBITED_CLASSES :: "string list" where
  "PROHIBITED_CLASSES = rev (remdups (rev (map fst (PATTERNS (\<lambda>_. False)))))"

definition ABSOLUTE_PATH_CLASSES :: "string list" where
  "ABSOLUTE_PATH_CLASSES = [''windows_absolute_path'', ''posix_absolute_path'', ''unc_path'']"

section \<open>Violations\<close>

text \<open>\<open>finditer\<close>: the matches of a pattern from left to right, each starting where the last one ended.\<close>

function scan :: "(string \<Rightarrow> bool) \<Rightarrow> regex \<Rightarrow> nat \<Rightarrow> place \<Rightarrow> (nat \<times> nat) list" where
  "scan w r pos p =
     (case ends w r p of
        q # _ \<Rightarrow>
          if length (snd q) < length (snd p)
          then (pos, pos + (length (snd p) - length (snd q))) # scan w r (pos + (length (snd p) - length (snd q))) q
          else (case snd p of [] \<Rightarrow> [] | c # rest \<Rightarrow> scan w r (pos + 1) (Some c, rest))
      | [] \<Rightarrow> (case snd p of [] \<Rightarrow> [] | c # rest \<Rightarrow> scan w r (pos + 1) (Some c, rest)))"
  by pat_completeness auto
termination by (relation "measure (\<lambda>(w, r, pos, p). length (snd p))") auto

declare scan.simps [simp del]

type_synonym violation = "string \<times> nat \<times> nat"

definition v_start :: "violation \<Rightarrow> nat" where "v_start v = fst (snd v)"
definition v_end :: "violation \<Rightarrow> nat" where "v_end v = snd (snd v)"

definition all_matches :: "(string \<Rightarrow> bool) \<Rightarrow> string list \<Rightarrow> violation list" where
  "all_matches w t = concat (map (\<lambda>(category, r). map (\<lambda>span. (category, span)) (scan w r 0 (None, t))) (PATTERNS w))"

text \<open>The stable sort by start and end is a stable sort by end and then one by start.\<close>

definition find_violations :: "(string \<Rightarrow> bool) \<Rightarrow> string list \<Rightarrow> violation list" where
  "find_violations w t = sort_key v_start (sort_key v_end (all_matches w t))"

definition categories :: "(string \<Rightarrow> bool) \<Rightarrow> string list \<Rightarrow> string set" where
  "categories w t = set (map fst (find_violations w t))"

definition is_clean :: "(string \<Rightarrow> bool) \<Rightarrow> string list \<Rightarrow> bool" where
  "is_clean w t = (find_violations w t = [])"

section \<open>Redaction\<close>

definition placeholder :: "string \<Rightarrow> string" where
  "placeholder category = ''<redacted:'' @ category @ ''>''"

definition forward :: "string \<Rightarrow> string" where
  "forward = map (\<lambda>c. if c = CHR 0x5C then CHR ''/'' else c)"

text \<open>\<open>text[n:]\<close>.\<close>

definition drop_points :: "nat \<Rightarrow> string \<Rightarrow> string" where
  "drop_points n s = drop (length (take_points n s)) s"

definition repository_relative_path :: "(string \<Rightarrow> string) \<Rightarrow> string \<Rightarrow> string option \<Rightarrow> string option" where
  "repository_relative_path lower raw root =
     (case root of
        None \<Rightarrow> None
      | Some given \<Rightarrow>
          (let root_norm = rev (dropWhile (\<lambda>c. c = CHR ''/'') (rev (forward given))); candidate = forward raw in
           if root_norm = [] then None
           else if lower candidate = lower root_norm then Some ''.''
           else if starts_with (lower root_norm @ ''/'') (lower candidate)
           then Some (drop_points (code_points root_norm + 1) candidate)
           else None))"

function points_of :: "string \<Rightarrow> string list" where
  "points_of [] = []"
| "points_of (c # s) = (c # takeWhile continues s) # points_of (dropWhile continues s)"
  by pat_completeness auto
termination by (relation "measure length") (auto simp: length_dropWhile_le less_Suc_eq_le)

definition replacement :: "(string \<Rightarrow> string) \<Rightarrow> string option \<Rightarrow> string list \<Rightarrow> violation \<Rightarrow> string list" where
  "replacement lower root t v =
     points_of
       (if fst v \<in> set ABSOLUTE_PATH_CLASSES
        then (case repository_relative_path lower (concat (take (v_end v - v_start v) (drop (v_start v) t))) root of
                None \<Rightarrow> placeholder (fst v) | Some relative \<Rightarrow> relative)
        else placeholder (fst v))"

definition apply_violation :: "(string \<Rightarrow> string) \<Rightarrow> string option \<Rightarrow> string list \<Rightarrow> string list \<Rightarrow> violation \<Rightarrow> string list" where
  "apply_violation lower root t out v =
     take (v_start v) out @ replacement lower root t v @ drop (v_end v) out"

text \<open>\<open>sorted(rows, key=start, reverse=True)\<close> keeps rows with the same start in their order.\<close>

definition backwards :: "violation list \<Rightarrow> violation list" where
  "backwards vs = rev (sort_key v_start (rev vs))"

definition redact_points ::
    "(string \<Rightarrow> bool) \<Rightarrow> (string \<Rightarrow> string) \<Rightarrow> string option \<Rightarrow> string list \<Rightarrow> string list" where
  "redact_points w lower root t =
     foldl (apply_violation lower root t) t (backwards (find_violations w t))"

definition redact_text :: "(string \<Rightarrow> bool) \<Rightarrow> (string \<Rightarrow> string) \<Rightarrow> string option \<Rightarrow> string \<Rightarrow> string" where
  "redact_text w lower root s = concat (redact_points w lower root (points_of s))"

definition ascii_word :: "string \<Rightarrow> bool" where
  "ascii_word p = (alnum p \<or> p = ''_'')"

section \<open>Matching\<close>

text \<open>The place before the code point at an index.\<close>

definition place_at :: "string list \<Rightarrow> nat \<Rightarrow> place" where
  "place_at t i = (if i = 0 then None else Some (t ! (i - 1)), drop i t)"

text \<open>What cannot match the empty text.\<close>

fun consumes :: "regex \<Rightarrow> bool" where
  "consumes (One _) = True"
| "consumes Edge = False"
| "consumes (NotAfter _) = False"
| "consumes Nothing = False"
| "consumes (Cat a b) = (consumes a \<or> consumes b)"
| "consumes (Alt a b) = (consumes a \<and> consumes b)"
| "consumes (Rep lo _ r) = (0 < lo)"
| "consumes (Lazy lo _ r) = (0 < lo)"

lemma patterns_consume: "\<forall>p \<in> set (PATTERNS w). consumes (snd p)"
  by (simp add: PATTERNS_def backslash_def blanks_def)

definition leads :: "string list \<Rightarrow> nat \<Rightarrow> bool \<Rightarrow> place \<Rightarrow> bool" where
  "leads t i strict q = (\<exists>j. i \<le> j \<and> j \<le> length t \<and> q = place_at t j \<and> (strict \<longrightarrow> i < j))"

lemma length_place_at: "length (snd (place_at t i)) = length t - i"
  by (simp add: place_at_def)

lemma leads_later: "leads t i a q \<Longrightarrow> q = place_at t j \<Longrightarrow> j \<le> length t \<Longrightarrow> leads t j b q' \<Longrightarrow> leads t i (a \<or> b) q'"
proof -
  assume l: "leads t i a q" "q = place_at t j" "j \<le> length t" "leads t j b q'"
  from l(1,2) have "leads t i a (place_at t j)" by simp
  then obtain k where k: "i \<le> k" "k \<le> length t" "place_at t j = place_at t k" "a \<longrightarrow> i < k" unfolding leads_def by blast
  have "length (snd (place_at t j)) = length (snd (place_at t k))" using k(3) by (rule arg_cong)
  with l(3) k(2) have "k = j" by (simp add: length_place_at)
  moreover from l(4) obtain m where "j \<le> m" "m \<le> length t" "q' = place_at t m" "b \<longrightarrow> j < m" unfolding leads_def by blast
  ultimately have "i \<le> m \<and> m \<le> length t \<and> q' = place_at t m \<and> (a \<or> b \<longrightarrow> i < m)" using k by auto
  then show ?thesis unfolding leads_def by (rule exI)
qed

lemma leads_weaken: "leads t i a q \<Longrightarrow> (b \<Longrightarrow> a) \<Longrightarrow> leads t i b q"
  by (auto simp: leads_def)

lemma leads_after: "i < j \<Longrightarrow> leads t j a q \<Longrightarrow> leads t i b q"
proof -
  assume ij: "i < j" and "leads t j a q"
  then obtain k where "j \<le> k" "k \<le> length t" "q = place_at t k" unfolding leads_def by blast
  with ij have "i \<le> k \<and> k \<le> length t \<and> q = place_at t k \<and> (b \<longrightarrow> i < k)" by auto
  then show "leads t i b q" unfolding leads_def by (rule exI)
qed

lemma rounds_lead:
  assumes "\<And>i q. i \<le> length t \<Longrightarrow> q \<in> set (body (place_at t i)) \<Longrightarrow> leads t i False q"
  shows "i \<le> length t \<Longrightarrow> q \<in> set (rounds body fuel lo hi (place_at t i)) \<Longrightarrow> leads t i (0 < lo) q"
proof (induction fuel arbitrary: i lo hi)
  case 0
  then show ?case by (auto simp: leads_def split: if_splits)
next
  case (Suc fuel)
  show ?case
  proof (cases "q = place_at t i \<and> lo = 0")
    case True
    with Suc.prems show ?thesis by (auto simp: leads_def)
  next
    case False
    then obtain p where p: "p \<in> set (body (place_at t i))" "length (snd p) < length (snd (place_at t i))"
      "q \<in> set (rounds body fuel (lo - 1) (map_option (\<lambda>n. n - 1) hi) p)"
      using Suc.prems(2) by (auto split: if_splits)
    with assms Suc.prems(1) obtain j where j: "i \<le> j" "j \<le> length t" "p = place_at t j" unfolding leads_def by blast
    then have "i < j" using p(2) by (simp add: length_place_at)
    then show ?thesis by (rule leads_after) (rule Suc.IH [OF j(2) p(3) [unfolded j(3)]])
  qed
qed

lemma lazy_rounds_lead:
  assumes "\<And>i q. i \<le> length t \<Longrightarrow> q \<in> set (body (place_at t i)) \<Longrightarrow> leads t i False q"
  shows "i \<le> length t \<Longrightarrow> q \<in> set (lazy_rounds body fuel lo hi (place_at t i)) \<Longrightarrow> leads t i (0 < lo) q"
proof (induction fuel arbitrary: i lo hi)
  case 0
  then show ?case by (auto simp: leads_def split: if_splits)
next
  case (Suc fuel)
  show ?case
  proof (cases "q = place_at t i \<and> lo = 0")
    case True
    with Suc.prems show ?thesis by (auto simp: leads_def)
  next
    case False
    then obtain p where p: "p \<in> set (body (place_at t i))" "length (snd p) < length (snd (place_at t i))"
      "q \<in> set (lazy_rounds body fuel (lo - 1) (hi - 1) p)"
      using Suc.prems(2) by (auto split: if_splits)
    with assms Suc.prems(1) obtain j where j: "i \<le> j" "j \<le> length t" "p = place_at t j" unfolding leads_def by blast
    then have "i < j" using p(2) by (simp add: length_place_at)
    then show ?thesis by (rule leads_after) (rule Suc.IH [OF j(2) p(3) [unfolded j(3)]])
  qed
qed

lemma ends_lead: "i \<le> length t \<Longrightarrow> q \<in> set (ends w r (place_at t i)) \<Longrightarrow> leads t i (consumes r) q"
proof (induction r arbitrary: i q)
  case (One f)
  show ?case
  proof (cases "i < length t")
    case True
    then have "drop i t = t ! i # drop (Suc i) t" by (simp add: Cons_nth_drop_Suc)
    with One.prems(2) have "q = place_at t (Suc i)" by (simp add: place_at_def split: if_splits)
    with True show ?thesis unfolding leads_def by (intro exI [of _ "Suc i"]) simp
  next
    case False
    with One.prems show ?thesis by (simp add: place_at_def)
  qed
next
  case (Cat a b)
  from Cat.prems(2) obtain p where p: "p \<in> set (ends w a (place_at t i))" "q \<in> set (ends w b p)" by auto
  from Cat.IH(1) [OF Cat.prems(1) p(1)] obtain j where j: "j \<le> length t" "p = place_at t j" unfolding leads_def by blast
  with leads_later [OF Cat.IH(1) [OF Cat.prems(1) p(1)] j(2,1)] Cat.IH(2) [OF j(1)] p(2) show ?case by simp
next
  case (Alt a b)
  from Alt.prems(2) consider "q \<in> set (ends w a (place_at t i))" | "q \<in> set (ends w b (place_at t i))" by auto
  then show ?case
  proof cases
    case 1
    show ?thesis by (rule leads_weaken [OF Alt.IH(1) [OF Alt.prems(1) 1]]) simp
  next
    case 2
    show ?thesis by (rule leads_weaken [OF Alt.IH(2) [OF Alt.prems(1) 2]]) simp
  qed
next
  case (Rep lo hi r)
  then have "leads t j False p" if "j \<le> length t" "p \<in> set (ends w r (place_at t j))" for j p
    using that unfolding leads_def by blast
  with rounds_lead [of t "ends w r"] Rep.prems show ?case by simp
next
  case (Lazy lo hi r)
  then have "leads t j False p" if "j \<le> length t" "p \<in> set (ends w r (place_at t j))" for j p
    using that unfolding leads_def by blast
  with lazy_rounds_lead [of t "ends w r"] Lazy.prems show ?case by simp
qed (auto simp: leads_def split: if_splits option.splits)

text \<open>Where a pattern matches, \<open>scan\<close> reports its first match there, or is inside one it has reported.\<close>

lemma scan_at:
  assumes "consumes r" "pos \<le> length t"
  shows "scan w r pos (place_at t pos) =
    (case ends w r (place_at t pos) of
       [] \<Rightarrow> if pos = length t then [] else scan w r (pos + 1) (place_at t (pos + 1))
     | q # _ \<Rightarrow> (pos, length t - length (snd q)) # scan w r (length t - length (snd q)) q)"
proof (cases "ends w r (place_at t pos)")
  case Nil
  show ?thesis
  proof (cases "pos = length t")
    case True
    with Nil show ?thesis by (subst scan.simps) (simp add: place_at_def)
  next
    case False
    with assms(2) have "drop pos t = t ! pos # drop (Suc pos) t" by (simp add: Cons_nth_drop_Suc)
    with Nil False show ?thesis by (subst scan.simps) (simp add: place_at_def)
  qed
next
  case (Cons q qs)
  with ends_lead [OF assms(2), of q w r] assms(1) obtain j where "pos < j" "j \<le> length t" "q = place_at t j"
    unfolding leads_def by auto
  moreover from this have "length t - j < length t - pos" "pos + (length t - pos - (length t - j)) = j" by auto
  ultimately show ?thesis
    by (subst scan.simps) (simp add: Cons length_place_at)
qed

definition first_match :: "(string \<Rightarrow> bool) \<Rightarrow> regex \<Rightarrow> string list \<Rightarrow> nat \<Rightarrow> nat \<Rightarrow> bool" where
  "first_match w r t a b = (\<exists>qs. ends w r (place_at t a) = place_at t b # qs)"

lemma scan_spec:
  assumes "consumes r" "pos \<le> length t"
  shows "(\<forall>(a, b) \<in> set (scan w r pos (place_at t pos)). pos \<le> a \<and> a < b \<and> b \<le> length t \<and> first_match w r t a b)
    \<and> sorted_wrt (\<lambda>x y. snd x \<le> fst y) (scan w r pos (place_at t pos))
    \<and> (\<forall>i. pos \<le> i \<longrightarrow> i \<le> length t \<longrightarrow> ends w r (place_at t i) \<noteq> []
         \<longrightarrow> (\<exists>(a, b) \<in> set (scan w r pos (place_at t pos)). a \<le> i \<and> i < b))"
  using assms(2)
proof (induction "length t - pos" arbitrary: pos rule: less_induct)
  case less
  show ?case
  proof (cases "ends w r (place_at t pos)")
    case Nil
    show ?thesis
    proof (cases "pos = length t")
      case True
      with Nil scan_at [OF assms(1) less.prems, of w] show ?thesis by auto
    next
      case False
      with less.prems have "length t - (pos + 1) < length t - pos" "pos + 1 \<le> length t" by auto
      note ih = less.hyps [OF this]
      have eq: "scan w r pos (place_at t pos) = scan w r (pos + 1) (place_at t (pos + 1))"
        using scan_at [OF assms(1) less.prems, of w] Nil False by simp
      have "\<exists>(a, b) \<in> set (scan w r (pos + 1) (place_at t (pos + 1))). a \<le> i \<and> i < b"
        if "pos \<le> i" "i \<le> length t" "ends w r (place_at t i) \<noteq> []" for i
      proof -
        have "i \<noteq> pos" using that(3) Nil by auto
        with that(1) have "pos + 1 \<le> i" by simp
        with ih that(2,3) show ?thesis by blast
      qed
      with ih show ?thesis unfolding eq by fastforce
    qed
  next
    case (Cons q qs)
    with ends_lead [OF less.prems, of q w r] assms(1) obtain j where j: "pos < j" "j \<le> length t" "q = place_at t j"
      unfolding leads_def by auto
    then have "length t - j < length t - pos" by auto
    note ih = less.hyps [OF this j(2)]
    have eq: "scan w r pos (place_at t pos) = (pos, j) # scan w r j (place_at t j)"
      using scan_at [OF assms(1) less.prems, of w] Cons j by (simp add: length_place_at)
    have "first_match w r t pos j" using Cons j(3) by (simp add: first_match_def)
    moreover have "\<exists>(a, b) \<in> set ((pos, j) # scan w r j (place_at t j)). a \<le> i \<and> i < b"
      if "pos \<le> i" "i \<le> length t" "ends w r (place_at t i) \<noteq> []" for i
      using ih that by (cases "i < j") auto
    ultimately show ?thesis using ih j(1,2) unfolding eq by fastforce
  qed
qed

section \<open>What is found\<close>

lemma set_find_violations: "set (find_violations w t) = set (all_matches w t)"
  by (simp add: find_violations_def)

lemma all_matches_member:
  "(c, a, b) \<in> set (all_matches w t) \<longleftrightarrow> (\<exists>r. (c, r) \<in> set (PATTERNS w) \<and> (a, b) \<in> set (scan w r 0 (place_at t 0)))"
  by (force simp: all_matches_def place_at_def split_beta)

lemma violation_bounds:
  assumes "v \<in> set (find_violations w t)"
  shows "v_start v < v_end v \<and> v_end v \<le> length t
    \<and> (\<exists>r. (fst v, r) \<in> set (PATTERNS w) \<and> first_match w r t (v_start v) (v_end v))"
proof -
  obtain c a b where v: "v = (c, a, b)" by (cases v)
  with assms obtain r where r: "(c, r) \<in> set (PATTERNS w)" "(a, b) \<in> set (scan w r 0 (place_at t 0))"
    by (auto simp: set_find_violations all_matches_member)
  then have "consumes r" using patterns_consume [of w] by auto
  with scan_spec [of r 0 t w] r v show ?thesis by (fastforce simp: v_start_def v_end_def)
qed

text \<open>
  C24. The scan is exact. Every violation is the first match of a pattern of its category, not empty and inside
  the text, in order of where it starts; and wherever a pattern of the table matches, that place is inside
  a reported violation of its category. So a text is clean exactly when no pattern matches anywhere.
\<close>

theorem violations_exact:
  "sorted (map v_start (find_violations w t))
   \<and> (\<forall>(c, a, b) \<in> set (find_violations w t). a < b \<and> b \<le> length t
        \<and> (\<exists>r. (c, r) \<in> set (PATTERNS w) \<and> first_match w r t a b))
   \<and> (\<forall>(c, r) \<in> set (PATTERNS w). \<forall>i \<le> length t. ends w r (place_at t i) \<noteq> [] \<longrightarrow>
        (\<exists>(c', a, b) \<in> set (find_violations w t). c' = c \<and> a \<le> i \<and> i < b))"
proof (intro conjI ballI, goal_cases)
  case 1
  show ?case by (simp add: find_violations_def)
next
  case (2 v)
  from violation_bounds [OF 2] show ?case by (simp add: v_start_def v_end_def split_beta)
next
  case (3 p)
  obtain c r where p: "p = (c, r)" by (cases p)
  have r: "consumes r" using 3 p patterns_consume [of w] by auto
  have "\<exists>(c', a, b) \<in> set (find_violations w t). c' = c \<and> a \<le> i \<and> i < b"
    if "i \<le> length t" "ends w r (place_at t i) \<noteq> []" for i
  proof -
    from scan_spec [OF r, of 0 t w] that obtain a b where "(a, b) \<in> set (scan w r 0 (place_at t 0))" "a \<le> i" "i < b" by blast
    with 3 p show ?thesis by (intro bexI [of _ "(c, a, b)"]) (auto simp: set_find_violations all_matches_member)
  qed
  with p show ?case by simp
qed

section \<open>What is left after redaction\<close>

text \<open>
  The reference: the text from left to right, with each span cut out and its replacement in its place.
\<close>

fun splice :: "(violation \<Rightarrow> string list) \<Rightarrow> nat \<Rightarrow> violation list \<Rightarrow> string list \<Rightarrow> string list" where
  "splice repl pos [] t = drop pos t"
| "splice repl pos (v # vs) t = take (v_start v - pos) (drop pos t) @ repl v @ splice repl (v_end v) vs t"

lemma foldr_splice:
  assumes "\<forall>v \<in> set vs. pos \<le> v_start v \<and> v_start v \<le> v_end v \<and> v_end v \<le> length t"
    "sorted_wrt (\<lambda>x y. v_end x \<le> v_start y) vs" "pos \<le> length t"
  shows "foldr (\<lambda>v out. apply_violation lower root t out v) vs t = take pos t @ splice (replacement lower root t) pos vs t"
  using assms
proof (induction vs arbitrary: pos)
  case Nil
  then show ?case by simp
next
  case (Cons v vs)
  have later: "\<forall>x \<in> set vs. v_end v \<le> v_start x \<and> v_start x \<le> v_end x \<and> v_end x \<le> length t"
    using Cons.prems by auto
  have v: "pos \<le> v_start v" "v_start v \<le> v_end v" "v_end v \<le> length t" using Cons.prems(1) by auto
  have ih: "foldr (\<lambda>v out. apply_violation lower root t out v) vs t
      = take (v_end v) t @ splice (replacement lower root t) (v_end v) vs t"
    using Cons.IH [OF later] Cons.prems(2) v(3) by simp
  have "take (v_start v) t = take pos t @ take (v_start v - pos) (drop pos t)"
    using v(1) by (metis le_add_diff_inverse take_add)
  with ih v show ?case by (simp add: apply_violation_def min_absorb1)
qed

lemma backwards_disjoint:
  assumes "sorted_wrt (\<lambda>x y. v_end x \<le> v_start y) vs" "\<forall>v \<in> set vs. v_start v < v_end v"
  shows "backwards vs = rev vs"
proof -
  have "sorted_wrt (\<lambda>x y. v_start x < v_start y) vs"
    using assms by (induction vs) (auto intro: less_le_trans)
  then have "sorted_wrt (<) (map v_start vs)" by (simp add: sorted_wrt_map)
  then have "sorted (map v_start vs)" "inj_on v_start (set vs)" by (simp_all add: strict_sorted_iff distinct_map)
  then have "sort_key v_start (rev vs) = vs" by (intro sort_key_inj_key_eq) auto
  then show ?thesis by (simp add: backwards_def)
qed

text \<open>
  When the violations do not overlap, redaction cuts every one of them out: what it answers is the text
  between them, untouched, and a replacement for each.
\<close>

theorem redaction_cuts_out_violations:
  assumes "sorted_wrt (\<lambda>x y. v_end x \<le> v_start y) (find_violations w t)"
  shows "redact_points w lower root t = splice (replacement lower root t) 0 (find_violations w t) t"
proof -
  have spans: "\<forall>v \<in> set (find_violations w t). v_start v < v_end v \<and> v_end v \<le> length t"
    using violation_bounds by blast
  then have "backwards (find_violations w t) = rev (find_violations w t)"
    using backwards_disjoint [OF assms] by blast
  moreover have "foldr (\<lambda>v out. apply_violation lower root t out v) (find_violations w t) t
      = take 0 t @ splice (replacement lower root t) 0 (find_violations w t) t"
    using spans by (intro foldr_splice assms) (auto intro: less_imp_le)
  ultimately show ?thesis by (simp add: redact_points_def foldl_conv_foldr)
qed

text \<open>
  Overlapping violations are not cut out. The rows are replaced from the last to the first by the positions
  they had in the original text; when a row inside another one was already replaced by something longer,
  the outer row is cut at the wrong place and the end of the secret stays in the answer.
\<close>

theorem overlapping_violation_leaks:
  "redact_text ascii_word ascii_lower None ''pwd=/tmp:hunter2''
     = ''<redacted:password_assignment>six_absolute_path>:hunter2''"
  by code_simp

section \<open>Examples\<close>

definition ext_text :: "string list" where
  "ext_text = points_of ''in /etc C:/x''"

theorem violations_exact_witness:
  "\<exists>a b. (''posix_absolute_path'', a, b) \<in> set (find_violations ascii_word ext_text) \<and> a \<le> 3 \<and> 3 < b"
proof -
  have "list_ex (\<lambda>(c, r). c = ''posix_absolute_path'' \<and> 3 \<le> length ext_text \<and> ends ascii_word r (place_at ext_text 3) \<noteq> [])
      (PATTERNS ascii_word)" by code_simp
  then obtain r where "(''posix_absolute_path'', r) \<in> set (PATTERNS ascii_word)" "3 \<le> length ext_text"
    "ends ascii_word r (place_at ext_text 3) \<noteq> []" by (auto simp: list_ex_iff)
  with violations_exact [of ascii_word ext_text] show ?thesis by blast
qed

theorem redaction_cuts_out_violations_witness:
  "redact_points ascii_word ascii_lower None ext_text
     = splice (replacement ascii_lower None ext_text) 0 (find_violations ascii_word ext_text) ext_text
   \<and> length (find_violations ascii_word ext_text) = 2"
proof -
  have rows: "find_violations ascii_word ext_text = [(''posix_absolute_path'', 3, 7), (''windows_absolute_path'', 8, 12)]"
    by code_simp
  then have "sorted_wrt (\<lambda>x y. v_end x \<le> v_start y) (find_violations ascii_word ext_text)"
    by (simp add: v_end_def v_start_def)
  from redaction_cuts_out_violations [OF this] show ?thesis by (simp add: rows)
qed

end
