(* ===== verification/Errors.thy ===== *)
theory Errors
  imports Redaction Manifest Graphs
begin

text \<open>
  \<open>errors.py\<close>, the canonical error: its codes and surfaces, the bounded redaction of a detail tree, the
  error a component raises, and what a caller is shown of it. A detail is a JSON value. The tables of the
  standard library the redaction reads are a record, \<open>redactor\<close>.
\<close>

section \<open>Codes and surfaces\<close>

definition CANONICAL_CODES :: "string list" where
  "CANONICAL_CODES = [''UNSUPPORTED_OPERATION'', ''LIMIT_EXCEEDED'', ''VALIDATION_ERROR'', ''UNAUTHENTICATED'', ''FORBIDDEN'',
     ''NOT_FOUND'', ''CONFLICT'', ''INCOMPATIBLE_INPUT'', ''RATE_LIMITED'', ''SNAPSHOT_EXPIRED'', ''SNAPSHOT_UNAVAILABLE'',
     ''SNAPSHOT_CORRUPT'', ''DAEMON_UNAVAILABLE'', ''PROJECT_UNAVAILABLE'', ''NOT_READY'', ''INTERNAL_ERROR'']"

definition SURFACE_PROTOCOL :: string where "SURFACE_PROTOCOL = ''protocol''"
definition SURFACE_TOOL_RESULT :: string where "SURFACE_TOOL_RESULT = ''tool_result''"

definition PROTOCOL_SURFACE_CODES :: "string list" where
  "PROTOCOL_SURFACE_CODES = [''VALIDATION_ERROR'', ''INCOMPATIBLE_INPUT'', ''UNAUTHENTICATED'', ''FORBIDDEN'',
     ''UNSUPPORTED_OPERATION'']"

definition RETRYABLE_CODES :: "string list" where
  "RETRYABLE_CODES = [''RATE_LIMITED'', ''NOT_READY'', ''DAEMON_UNAVAILABLE'', ''PROJECT_UNAVAILABLE'',
     ''SNAPSHOT_UNAVAILABLE'']"

definition CODE_TO_HTTP_STATUS :: "(string, int) dict" where
  "CODE_TO_HTTP_STATUS =
     [(''VALIDATION_ERROR'', 400), (''UNAUTHENTICATED'', 401), (''FORBIDDEN'', 403), (''NOT_FOUND'', 404), (''CONFLICT'', 409),
      (''INCOMPATIBLE_INPUT'', 422), (''RATE_LIMITED'', 429), (''NOT_READY'', 503), (''DAEMON_UNAVAILABLE'', 503),
      (''PROJECT_UNAVAILABLE'', 503), (''SNAPSHOT_UNAVAILABLE'', 503), (''SNAPSHOT_EXPIRED'', 410)]"

definition JSONRPC_INVALID_REQUEST :: int where "JSONRPC_INVALID_REQUEST = - 32600"
definition JSONRPC_METHOD_NOT_FOUND :: int where "JSONRPC_METHOD_NOT_FOUND = - 32601"
definition JSONRPC_INVALID_PARAMS :: int where "JSONRPC_INVALID_PARAMS = - 32602"
definition JSONRPC_INTERNAL_ERROR :: int where "JSONRPC_INTERNAL_ERROR = - 32603"

definition CODE_TO_JSONRPC :: "(string, int) dict" where
  "CODE_TO_JSONRPC =
     [(''VALIDATION_ERROR'', JSONRPC_INVALID_PARAMS), (''INCOMPATIBLE_INPUT'', JSONRPC_INVALID_PARAMS),
      (''UNSUPPORTED_OPERATION'', JSONRPC_METHOD_NOT_FOUND), (''UNAUTHENTICATED'', JSONRPC_INVALID_REQUEST),
      (''FORBIDDEN'', JSONRPC_INVALID_REQUEST), (''NOT_FOUND'', JSONRPC_METHOD_NOT_FOUND),
      (''INTERNAL_ERROR'', JSONRPC_INTERNAL_ERROR)]"

definition default_surface :: "string \<Rightarrow> string" where
  "default_surface code = (if code \<in> set PROTOCOL_SURFACE_CODES then SURFACE_PROTOCOL else SURFACE_TOOL_RESULT)"

definition to_http_status :: "string \<Rightarrow> int" where
  "to_http_status code = (case dict_get CODE_TO_HTTP_STATUS code of None \<Rightarrow> 500 | Some n \<Rightarrow> n)"

section \<open>Detail trees\<close>

definition DEFAULT_MAX_DETAIL_DEPTH :: nat where "DEFAULT_MAX_DETAIL_DEPTH = 6"
definition DEFAULT_MAX_DETAIL_ITEMS :: nat where "DEFAULT_MAX_DETAIL_ITEMS = 64"
definition DEFAULT_MAX_DETAIL_STRING :: nat where "DEFAULT_MAX_DETAIL_STRING = 2048"

record redactor =
  rd_word :: "string \<Rightarrow> bool"
  rd_lower :: "string \<Rightarrow> string"
  rd_root :: "string option"

definition redacted :: "redactor \<Rightarrow> string \<Rightarrow> string" where
  "redacted rd s = redact_text (rd_word rd) (rd_lower rd) (rd_root rd) s"

text \<open>The first argument after the bounds is how many levels are left: \<open>max_depth - depth\<close>.\<close>

fun redact_levels :: "redactor \<Rightarrow> nat \<Rightarrow> nat \<Rightarrow> nat \<Rightarrow> pyval \<Rightarrow> pyval" where
  "redact_levels rd max_items max_string 0 v = PStr (placeholder ''detail_depth_exceeded'')"
| "redact_levels rd max_items max_string (Suc levels) v =
     (case v of
        PDict d \<Rightarrow>
          (let out = foldl (\<lambda>out (key, item). dict_set (redacted rd key) (redact_levels rd max_items max_string levels item) out)
                 [] (take max_items d)
           in PDict (if length d > max_items then dict_set ''_truncated'' (PBool True) out else out))
      | PList items \<Rightarrow>
          PList (map (redact_levels rd max_items max_string levels) (take max_items items)
            @ (if length items > max_items then [PStr (placeholder ''detail_items_truncated'')] else []))
      | PStr s \<Rightarrow> PStr (take_points max_string (redacted rd s))
      | _ \<Rightarrow> v)"

definition redact_details :: "redactor \<Rightarrow> pyval \<Rightarrow> pyval" where
  "redact_details rd v =
     redact_levels rd DEFAULT_MAX_DETAIL_ITEMS DEFAULT_MAX_DETAIL_STRING DEFAULT_MAX_DETAIL_DEPTH v"

definition TRACEBACK_MARKERS :: "string list" where
  "TRACEBACK_MARKERS = [''Traceback (most recent call last)'', ''File '' @ [CHR 0x22]]"

definition contains_traceback :: "string \<Rightarrow> bool" where
  "contains_traceback text = list_ex (\<lambda>marker. contains_text marker text) TRACEBACK_MARKERS"

section \<open>Metadata\<close>

definition ALLOWED_METADATA_KEYS :: "string list" where
  "ALLOWED_METADATA_KEYS = [''schema_version'', ''solution_id'', ''project_id'', ''repo'', ''path'', ''language'',
     ''symbol_kind'', ''symbol_name'', ''line_start'', ''line_end'', ''content_sha256'', ''source_fingerprint'',
     ''generation_id'', ''bytes'', ''nodes_count'', ''edges_count'', ''coverage'', ''analysis_profile'', ''timestamp_utc'',
     ''error_code'', ''request_id'', ''redaction_notice'']"

record problem =
  pb_category :: string
  pb_path :: string
  pb_span :: "(nat \<times> nat) option"

function metadata_violations :: "(string \<Rightarrow> bool) \<Rightarrow> string \<Rightarrow> pyval \<Rightarrow> problem list" where
  "metadata_violations w path v =
     (case v of
        PDict d \<Rightarrow>
          concat (map (\<lambda>p.
            if fst p \<notin> set ALLOWED_METADATA_KEYS
            then [\<lparr>pb_category = ''metadata_key_not_allowlisted'', pb_path = path @ ''.'' @ fst p, pb_span = None\<rparr>]
            else metadata_violations w (path @ ''.'' @ fst p) (snd p)) d)
      | PList items \<Rightarrow>
          concat (map (\<lambda>p. metadata_violations w (path @ ''['' @ int_repr (int (fst p)) @ '']'') (snd p)) (enumerate 0 items))
      | PStr s \<Rightarrow>
          map (\<lambda>x. \<lparr>pb_category = fst x, pb_path = path, pb_span = Some (snd x)\<rparr>) (find_violations w (points_of s))
      | _ \<Rightarrow> [])"
  by pat_completeness auto
termination
proof (relation "measure (\<lambda>(w, path, v). size v)", goal_cases)
  case 1
  show ?case by simp
next
  case (2 w path v items p)
  then have "snd p \<in> set items" by (cases p) (auto simp: in_set_enumerate_eq)
  then have "size (snd p) < Suc (size_list size items)" by (induction items) auto
  with 2 show ?case by simp
next
  case (3 w path v d p)
  then show ?case using pyval_dict_size [of p d] by simp
qed

declare metadata_violations.simps [simp del]

section \<open>The canonical error\<close>

record axiom_error =
  ae_code :: string
  ae_message :: string
  ae_retryable :: bool
  ae_details :: "(string, pyval) dict"
  ae_request_id :: "string option"
  ae_surface :: string
  ae_cause :: "string option"

datatype error_refused = UnregisteredCode | UnknownSurface

definition make_error ::
    "redactor \<Rightarrow> string \<Rightarrow> string \<Rightarrow> bool option \<Rightarrow> (string, pyval) dict option \<Rightarrow> string option \<Rightarrow> string option
       \<Rightarrow> string option \<Rightarrow> error_refused + axiom_error" where
  "make_error rd code message retryable details request_id surface cause =
     (if code \<notin> set CANONICAL_CODES then Inl UnregisteredCode
      else if surface \<notin> {None, Some SURFACE_PROTOCOL, Some SURFACE_TOOL_RESULT} then Inl UnknownSurface
      else
        (let shown = strip (redacted rd message) in
         Inr \<lparr>ae_code = code, ae_message = (if shown = [] then code else shown),
              ae_retryable = (case retryable of None \<Rightarrow> code \<in> set RETRYABLE_CODES | Some b \<Rightarrow> b),
              ae_details = (case details of None \<Rightarrow> [] | Some d \<Rightarrow> mapping_items (redact_details rd (PDict d))),
              ae_request_id = request_id,
              ae_surface = (case surface of None \<Rightarrow> default_surface code | Some s \<Rightarrow> s),
              ae_cause = cause\<rparr>))"

text \<open>An exception of the standard library is its type name and \<open>str\<close> of it.\<close>

definition from_exception ::
    "redactor \<Rightarrow> string \<Rightarrow> string \<Rightarrow> string \<Rightarrow> string option \<Rightarrow> bool option \<Rightarrow> (string, pyval) dict option
       \<Rightarrow> string option \<Rightarrow> error_refused + axiom_error" where
  "from_exception rd type_name text code safe_message retryable details request_id =
     make_error rd code
       (case safe_message of Some m \<Rightarrow> m | None \<Rightarrow> if code = ''INTERNAL_ERROR'' then ''internal error'' else text)
       retryable
       (Some (dict_setdefault ''exception_type'' (PStr type_name) (case details of None \<Rightarrow> [] | Some d \<Rightarrow> d)))
       request_id None (Some type_name)"

definition error_payload :: "axiom_error \<Rightarrow> string option \<Rightarrow> (string, pyval) dict" where
  "error_payload e request_id =
     [(''code'', PStr (ae_code e)), (''message'', PStr (ae_message e)), (''retryable'', PBool (ae_retryable e)),
      (''details'', PDict (ae_details e))]
     @ (case (case request_id of None \<Rightarrow> ae_request_id e | Some r \<Rightarrow> Some r) of
          None \<Rightarrow> [] | Some r \<Rightarrow> [(''request_id'', PStr r)])"

definition protocol_error :: "axiom_error \<Rightarrow> pyval \<Rightarrow> (string, pyval) dict" where
  "protocol_error e rpc_id =
     [(''jsonrpc'', PStr ''2.0''), (''id'', rpc_id),
      (''error'', PDict
         [(''code'', PInt (case dict_get CODE_TO_JSONRPC (ae_code e) of None \<Rightarrow> JSONRPC_INTERNAL_ERROR | Some n \<Rightarrow> n)),
          (''message'', PStr (ae_message e)), (''data'', PDict (error_payload e None))])]"

definition tool_result_error :: "axiom_error \<Rightarrow> (string, pyval) dict" where
  "tool_result_error e =
     [(''content'', PList [PDict [(''type'', PStr ''text''), (''text'', PStr (ae_code e @ '': '' @ ae_message e))]]),
      (''structuredContent'', PDict [(''error'', PDict (error_payload e None))]), (''isError'', PBool True)]"

definition render :: "axiom_error \<Rightarrow> pyval \<Rightarrow> (string, pyval) dict" where
  "render e rpc_id = (if ae_surface e = SURFACE_PROTOCOL then protocol_error e rpc_id else tool_result_error e)"

record error_summary =
  es_code :: string
  es_surface :: string
  es_retryable :: bool

definition summary_of :: "axiom_error \<Rightarrow> error_summary" where
  "summary_of e = \<lparr>es_code = ae_code e, es_surface = ae_surface e, es_retryable = ae_retryable e\<rparr>"

section \<open>Bounds\<close>

text \<open>A tree of at most so many levels below it, so many members per level and so many code points per text.\<close>

fun tree_bounded :: "nat \<Rightarrow> nat \<Rightarrow> nat \<Rightarrow> pyval \<Rightarrow> bool" where
  "tree_bounded items size_of 0 v = (case v of PDict _ \<Rightarrow> False | PList _ \<Rightarrow> False | PStr s \<Rightarrow> code_points s \<le> size_of | _ \<Rightarrow> True)"
| "tree_bounded items size_of (Suc levels) v =
     (case v of
        PDict d \<Rightarrow> length d \<le> items \<and> distinct (dict_keys d) \<and> (\<forall>x \<in> snd ` set d. tree_bounded items size_of levels x)
      | PList xs \<Rightarrow> length xs \<le> items \<and> (\<forall>x \<in> set xs. tree_bounded items size_of levels x)
      | PStr s \<Rightarrow> code_points s \<le> size_of
      | _ \<Rightarrow> True)"

lemma length_dict_set_le: "length (dict_set k v d) \<le> Suc (length d)"
  by (induction d) auto

lemma fill_bounds:
  assumes "\<forall>x \<in> snd ` set d. P (g x)" "\<forall>x \<in> snd ` set acc. P x" "distinct (dict_keys acc)"
  shows "(let out = foldl (\<lambda>out (key, item). dict_set (f key) (g item) out) acc d
    in length out \<le> length acc + length d \<and> distinct (dict_keys out) \<and> (\<forall>x \<in> snd ` set out. P x))"
  using assms
proof (induction d arbitrary: acc)
  case Nil
  then show ?case by simp
next
  case (Cons p d)
  let ?acc = "dict_set (f (fst p)) (g (snd p)) acc"
  have "\<forall>x \<in> snd ` set ?acc. P x" using Cons.prems(1,2) dict_set_members [of "f (fst p)" "g (snd p)" acc] by fastforce
  moreover have "distinct (dict_keys ?acc)" using Cons.prems(3) by (rule dict_set_distinct)
  ultimately show ?case
    using Cons.IH [of ?acc] Cons.prems(1) length_dict_set_le [of "f (fst p)" "g (snd p)" acc]
    by (auto simp: Let_def split_beta)
qed

lemma redact_levels_bounded:
  assumes "code_points (placeholder ''detail_depth_exceeded'') \<le> text" "code_points (placeholder ''detail_items_truncated'') \<le> text"
  shows "tree_bounded (Suc items) text levels (redact_levels rd items text levels v)"
proof (induction levels arbitrary: v)
  case 0
  then show ?case using assms(1) by simp
next
  case (Suc levels)
  show ?case
  proof (cases v)
    case (PDict d)
    define out where "out = foldl (\<lambda>out (key, item). dict_set (redacted rd key) (redact_levels rd items text levels item) out) []
      (take items d)"
    have out: "length out \<le> items \<and> distinct (dict_keys out) \<and> (\<forall>x \<in> snd ` set out. tree_bounded (Suc items) text levels x)"
      using fill_bounds [of "take items d" "tree_bounded (Suc items) text levels" "redact_levels rd items text levels" "[]"
          "redacted rd"] Suc by (simp add: Let_def out_def [symmetric])
    have "tree_bounded (Suc items) text levels (PBool True)" by (cases levels) simp_all
    then have "length (dict_set ''_truncated'' (PBool True) out) \<le> Suc items"
      "distinct (dict_keys (dict_set ''_truncated'' (PBool True) out))"
      "\<forall>x \<in> snd ` set (dict_set ''_truncated'' (PBool True) out). tree_bounded (Suc items) text levels x"
      using out length_dict_set_le [of "''_truncated''" "PBool True" out] dict_set_distinct [of out]
        dict_set_members [of "''_truncated''" "PBool True" out] by fastforce+
    moreover have "redact_levels rd items text (Suc levels) v
        = PDict (if length d > items then dict_set ''_truncated'' (PBool True) out else out)"
      by (simp add: PDict out_def Let_def)
    ultimately show ?thesis using out by simp
  next
    case (PList xs)
    have "tree_bounded (Suc items) text levels (PStr (placeholder ''detail_items_truncated''))"
      using assms(2) by (cases levels) simp_all
    with PList Suc show ?thesis by auto
  qed (simp_all add: code_points_take)
qed

text \<open>
  C25. Every error that is constructed has a canonical code and a message, details bounded in depth, width and the
  length of their texts, and the surface of its code unless it is overridden; whichever surface it is rendered
  on, what the caller is shown carries the canonical payload with the code in it.
\<close>

theorem error_is_bounded_and_canonical:
  assumes "make_error rd code message retryable details request_id surface cause = Inr e"
  shows "ae_code e = code \<and> code \<in> set CANONICAL_CODES \<and> ae_message e \<noteq> []
    \<and> tree_bounded 65 2048 6 (PDict (ae_details e))
    \<and> ae_surface e \<in> {SURFACE_PROTOCOL, SURFACE_TOOL_RESULT}
    \<and> (surface = None \<longrightarrow> (ae_surface e = SURFACE_PROTOCOL \<longleftrightarrow> code \<in> set PROTOCOL_SURFACE_CODES))
    \<and> get_field (error_payload e None) ''code'' = PStr code
    \<and> (if ae_surface e = SURFACE_PROTOCOL
       then (\<exists>err. get_field (render e rpc_id) ''error'' = PDict err \<and> get_field err ''data'' = PDict (error_payload e None))
       else get_field (render e rpc_id) ''isError'' = PBool True
         \<and> get_field (render e rpc_id) ''structuredContent'' = PDict [(''error'', PDict (error_payload e None))])"
proof -
  have code: "code \<in> set CANONICAL_CODES" and surfaces: "surface \<in> {None, Some SURFACE_PROTOCOL, Some SURFACE_TOOL_RESULT}"
    and e: "ae_code e = code" "ae_message e = (let shown = strip (redacted rd message) in if shown = [] then code else shown)"
      "ae_details e = (case details of None \<Rightarrow> [] | Some d \<Rightarrow> mapping_items (redact_details rd (PDict d)))"
      "ae_surface e = (case surface of None \<Rightarrow> default_surface code | Some s \<Rightarrow> s)"
    using assms by (auto simp: make_error_def Let_def split: if_splits)
  have "[] \<notin> set CANONICAL_CODES" by code_simp
  with code e(2) have "ae_message e \<noteq> []" by (auto simp: Let_def)
  moreover have "tree_bounded 65 2048 6 (PDict (ae_details e))"
  proof (cases details)
    case None
    with e(3) show ?thesis by (simp add: eval_nat_numeral)
  next
    case (Some d)
    have "code_points (placeholder ''detail_depth_exceeded'') \<le> 2048" "code_points (placeholder ''detail_items_truncated'') \<le> 2048"
      by (code_simp, code_simp)
    then have "tree_bounded (Suc 64) 2048 6 (redact_levels rd 64 2048 6 (PDict d))" by (rule redact_levels_bounded)
    moreover have "\<exists>out. redact_levels rd 64 2048 6 (PDict d) = PDict out" by (simp add: numeral_eq_Suc Let_def)
    ultimately show ?thesis
      using Some e(3) by (auto simp: redact_details_def DEFAULT_MAX_DETAIL_ITEMS_def DEFAULT_MAX_DETAIL_STRING_def
          DEFAULT_MAX_DETAIL_DEPTH_def)
  qed
  moreover have "ae_surface e \<in> {SURFACE_PROTOCOL, SURFACE_TOOL_RESULT}"
    "surface = None \<longrightarrow> (ae_surface e = SURFACE_PROTOCOL \<longleftrightarrow> code \<in> set PROTOCOL_SURFACE_CODES)"
    using surfaces e(4) by (auto simp: default_surface_def SURFACE_PROTOCOL_def SURFACE_TOOL_RESULT_def split: if_splits)
  moreover have "get_field (error_payload e None) ''code'' = PStr code" by (simp add: error_payload_def get_field_def e(1))
  moreover have "if ae_surface e = SURFACE_PROTOCOL
       then (\<exists>err. get_field (render e rpc_id) ''error'' = PDict err \<and> get_field err ''data'' = PDict (error_payload e None))
       else get_field (render e rpc_id) ''isError'' = PBool True
         \<and> get_field (render e rpc_id) ''structuredContent'' = PDict [(''error'', PDict (error_payload e None))]"
    by (simp add: render_def protocol_error_def tool_result_error_def get_field_def)
  ultimately show ?thesis using code e(1) by blast
qed

definition ext_redactor :: redactor where
  "ext_redactor = \<lparr>rd_word = ascii_word, rd_lower = ascii_lower, rd_root = Some ''/tmp/r''\<rparr>"

theorem error_is_bounded_and_canonical_witness:
  "\<exists>e. make_error ext_redactor ''NOT_FOUND'' ''at /tmp/r/a'' None (Some [(''k'', PStr ''/tmp/q'')]) None None None = Inr e
     \<and> tree_bounded 65 2048 6 (PDict (ae_details e)) \<and> ae_message e = ''at a''"
proof -
  have shown: "strip (redacted ext_redactor ''at /tmp/r/a'') = ''at a''" by code_simp
  have "''NOT_FOUND'' \<in> set CANONICAL_CODES" by code_simp
  then obtain e where e: "make_error ext_redactor ''NOT_FOUND'' ''at /tmp/r/a'' None (Some [(''k'', PStr ''/tmp/q'')]) None None None
      = Inr e" by (simp add: make_error_def Let_def)
  with shown have "ae_message e = ''at a''" by (auto simp: make_error_def Let_def split: if_splits)
  with e error_is_bounded_and_canonical [OF e(1)] show ?thesis by blast
qed

section \<open>Where the bounds fall short\<close>

text \<open>
  Two keys that redact to the same placeholder are one key of the answer: the first detail is silently lost.
\<close>

theorem redacted_keys_collide:
  "redact_details \<lparr>rd_word = ascii_word, rd_lower = ascii_lower, rd_root = None\<rparr>
       (PDict [(''/tmp/a'', PInt 1), (''/tmp/b'', PInt 2)])
     = PDict [(''<redacted:posix_absolute_path>'', PInt 2)]"
proof -
  have "redact_text ascii_word ascii_lower None ''/tmp/a'' = ''<redacted:posix_absolute_path>''"
    "redact_text ascii_word ascii_lower None ''/tmp/b'' = ''<redacted:posix_absolute_path>''" by code_simp+
  then show ?thesis
    by (simp add: redact_details_def DEFAULT_MAX_DETAIL_DEPTH_def DEFAULT_MAX_DETAIL_ITEMS_def numeral_eq_Suc redacted_def)
qed

text \<open>A key is redacted and never shortened, so the length of a detail is not bounded by the string limit.\<close>

theorem long_key_is_kept:
  assumes "is_clean (rd_word rd) (points_of key)" "concat (points_of key) = key"
  shows "redact_details rd (PDict [(key, PNone)]) = PDict [(key, PNone)]"
proof -
  have "redacted rd key = key"
    using assms by (simp add: redacted_def redact_text_def redact_points_def is_clean_def backwards_def)
  then show ?thesis
    by (simp add: redact_details_def DEFAULT_MAX_DETAIL_DEPTH_def DEFAULT_MAX_DETAIL_ITEMS_def DEFAULT_MAX_DETAIL_STRING_def
        numeral_eq_Suc)
qed

end
