(* ===== verification/Recovery.thy ===== *)
theory Recovery
  imports Errors Query
begin

text \<open>
  \<open>recovery.py\<close>: reading a whole catalog vector under a bounded retry. The loader is an argument with a
  state, so that every attempt may find another world; what it raises is a value. An answer is one whole
  vector of one attempt, or a canonical error and no data.
\<close>

section \<open>Policies and codes\<close>

definition ALLOW_PARTIAL :: string where "ALLOW_PARTIAL = ''allow_partial''"
definition REQUIRE_COMPLETE :: string where "REQUIRE_COMPLETE = ''require_complete''"
definition COVERAGE_POLICIES :: "string list" where "COVERAGE_POLICIES = [ALLOW_PARTIAL, REQUIRE_COMPLETE]"

definition LIVE_MODE :: string where "LIVE_MODE = ''live''"
definition SNAPSHOT_ONLY :: string where "SNAPSHOT_ONLY = ''snapshot_only''"
definition MODES :: "string list" where "MODES = [LIVE_MODE, SNAPSHOT_ONLY]"

definition FRESHNESS_STATUSES :: "string list" where
  "FRESHNESS_STATUSES = [''fresh'', ''stale'', ''updating'', ''unknown'', ''invalid'']"

definition VERIFICATION_MANIFEST_HASH :: string where "VERIFICATION_MANIFEST_HASH = ''manifest_hash''"

definition SERVED :: string where "SERVED = ''served''"
definition PARTIAL :: string where "PARTIAL = ''partial''"
definition FAILED :: string where "FAILED = ''failed''"

definition SNAPSHOT_UNAVAILABLE :: string where "SNAPSHOT_UNAVAILABLE = ''SNAPSHOT_UNAVAILABLE''"
definition SNAPSHOT_CORRUPT :: string where "SNAPSHOT_CORRUPT = ''SNAPSHOT_CORRUPT''"
definition SNAPSHOT_EXPIRED :: string where "SNAPSHOT_EXPIRED = ''SNAPSHOT_EXPIRED''"
definition PROJECT_UNAVAILABLE :: string where "PROJECT_UNAVAILABLE = ''PROJECT_UNAVAILABLE''"

definition RECOVERABLE_CODES :: "string list" where
  "RECOVERABLE_CODES = RETRYABLE_CODES @ [SNAPSHOT_CORRUPT]"

text \<open>
  What a loader can raise. \<open>OtherError\<close> is an exception of a class \<open>canonical_code_for\<close> does not know,
  by its type name; \<open>Interrupted\<close> is \<open>KeyboardInterrupt\<close> or \<open>SystemExit\<close>.
\<close>

datatype read_exception =
    GenerationCollected string
  | SnapshotGone string string
  | AxiomRaised string
  | CatalogRaised catalog_failure
  | ManifestRaised manifest_error
  | ShardRaised shard_error
  | RegistryFailure registry_error
  | OSError
  | RejectedByLoader
  | Interrupted
  | OtherError string

definition manifest_code :: "manifest_error \<Rightarrow> string" where
  "manifest_code e = (if e = ManifestUnreadable then SNAPSHOT_UNAVAILABLE else SNAPSHOT_CORRUPT)"

definition shard_code :: "shard_error \<Rightarrow> string" where
  "shard_code e = (if e = ShardUnreadable then SNAPSHOT_UNAVAILABLE else SNAPSHOT_CORRUPT)"

definition canonical_code_for :: "read_exception \<Rightarrow> string" where
  "canonical_code_for e =
     (case e of
        GenerationCollected _ \<Rightarrow> SNAPSHOT_EXPIRED
      | SnapshotGone code _ \<Rightarrow> code
      | AxiomRaised code \<Rightarrow> code
      | CatalogRaised c \<Rightarrow>
          (case c of
             CatalogMemberMissing _ _ \<Rightarrow> PROJECT_UNAVAILABLE
           | CatalogUnreadable \<Rightarrow> SNAPSHOT_UNAVAILABLE
           | CatalogRegistry _ \<Rightarrow> SNAPSHOT_UNAVAILABLE
           | CatalogManifest m \<Rightarrow> manifest_code m
           | _ \<Rightarrow> SNAPSHOT_CORRUPT)
      | ManifestRaised m \<Rightarrow> manifest_code m
      | ShardRaised s \<Rightarrow> shard_code s
      | RegistryFailure _ \<Rightarrow> SNAPSHOT_UNAVAILABLE
      | OSError \<Rightarrow> SNAPSHOT_UNAVAILABLE
      | _ \<Rightarrow> ''INTERNAL_ERROR'')"

section \<open>An absent generation\<close>

definition classify_absence :: "(string \<Rightarrow> pyval option) \<Rightarrow> host \<Rightarrow> snapshot_location \<Rightarrow> string \<Rightarrow> string" where
  "classify_absence loads h location g =
     (case h_read h (pointer_path (sl_root location)) of
        None \<Rightarrow> SNAPSHOT_UNAVAILABLE
      | Some raw \<Rightarrow>
          (case load_pointer_bytes loads raw of
             Inl _ \<Rightarrow> SNAPSHOT_UNAVAILABLE
           | Inr p \<Rightarrow> if p_generation_id p = g then SNAPSHOT_UNAVAILABLE else SNAPSHOT_EXPIRED))"

definition require_generation ::
    "(string \<Rightarrow> pyval option) \<Rightarrow> host \<Rightarrow> snapshot_location \<Rightarrow> string \<Rightarrow> read_exception + npath" where
  "require_generation loads h location g =
     (case generation_root (sl_root location) g of
        Inl e \<Rightarrow> Inl (RegistryFailure e)
      | Inr directory \<Rightarrow>
          if h_stat h directory = Some Directory then Inr directory
          else Inl (SnapshotGone (classify_absence loads h location g) g))"

section \<open>The answer\<close>

record recovery_result =
  rc_status :: string
  rc_mode :: string
  rc_consistency :: string
  rc_coverage :: string
  rc_freshness :: string
  rc_verification :: string
  rc_attempts :: nat
  rc_vector :: "catalog_vector option"
  rc_error :: "axiom_error option"
  rc_warnings :: "string list"

definition rc_ok :: "recovery_result \<Rightarrow> bool" where "rc_ok r = (rc_status r \<noteq> FAILED)"
definition rc_partial :: "recovery_result \<Rightarrow> bool" where "rc_partial r = (rc_status r = PARTIAL)"

definition rc_generations :: "recovery_result \<Rightarrow> (string \<times> string) list" where
  "rc_generations r = (case rc_vector r of None \<Rightarrow> [] | Some v \<Rightarrow> cv_generations v)"

definition rc_as_document :: "recovery_result \<Rightarrow> (string, pyval) dict" where
  "rc_as_document r =
     [(''status'', PStr (rc_status r)), (''coverage'', PStr (rc_coverage r)), (''freshness'', PStr (rc_freshness r)),
      (''verification'', PStr (rc_verification r)), (''mode'', PStr (rc_mode r)),
      (''consistency'', PStr (rc_consistency r)), (''attempts'', PInt (int (rc_attempts r))),
      (''project_generations'', PDict (dict_fill (map (\<lambda>p. (fst p, PStr (snd p))) (rc_generations r)) [])),
      (''warnings'', strings (rc_warnings r))]
     @ (case rc_error r of None \<Rightarrow> [] | Some e \<Rightarrow> [(''error'', PDict (error_payload e None))])"

datatype recovery_failure = RecoveryRejected | WasInterrupted | ErrorRefused

definition require_choice :: "string \<Rightarrow> string list \<Rightarrow> recovery_failure + unit" where
  "require_choice v allowed = guard_result (v \<in> set allowed) RecoveryRejected"

definition recovery_freshness :: "string \<Rightarrow> string \<Rightarrow> string option \<Rightarrow> recovery_failure + string" where
  "recovery_freshness mode consistency runtime =
     bind_result (case runtime of None \<Rightarrow> Inr () | Some f \<Rightarrow> require_choice f FRESHNESS_STATUSES) (\<lambda>_.
       if mode = SNAPSHOT_ONLY \<and> runtime \<notin> {None, Some FRESHNESS_UNKNOWN} then Inl RecoveryRejected
       else if consistency = PINNED \<and> runtime \<notin> {None, Some FRESHNESS_UNKNOWN} then Inl RecoveryRejected
       else if mode = SNAPSHOT_ONLY \<or> consistency = PINNED then Inr FRESHNESS_UNKNOWN
       else Inr (case runtime of None \<Rightarrow> FRESHNESS_UNKNOWN | Some f \<Rightarrow> f))"

text \<open>The error of an exception: \<open>say\<close> is \<open>str\<close> of it and \<open>type_of\<close> the name of its class.\<close>

definition error_details :: "string \<Rightarrow> read_exception \<Rightarrow> (string, pyval) dict" where
  "error_details code e =
     [(''error_code'', PStr code)]
     @ (case e of
          GenerationCollected g \<Rightarrow> if g = [] then [] else [(''generation_id'', PStr g)]
        | SnapshotGone _ g \<Rightarrow> if g = [] then [] else [(''generation_id'', PStr g)]
        | CatalogRaised c \<Rightarrow>
            (case c of CatalogMemberMissing p _ \<Rightarrow> if p = [] then [] else [(''project_id'', PStr p)] | _ \<Rightarrow> [])
        | _ \<Rightarrow> [])"

record error_words =
  ew_redactor :: redactor
  ew_say :: "read_exception \<Rightarrow> string"
  ew_type_of :: "read_exception \<Rightarrow> string"

definition to_axiom_error :: "error_words \<Rightarrow> string \<Rightarrow> read_exception \<Rightarrow> error_refused + axiom_error" where
  "to_axiom_error ew code e =
     make_error (ew_redactor ew) code (if ew_say ew e = [] then code else ew_say ew e) None
       (Some (error_details code e)) None None (Some (ew_type_of ew e))"

definition missing_members :: "catalog_vector \<Rightarrow> string list" where
  "missing_members v = map (\<lambda>p. cm_project_id (mp_member p)) (cv_missing v)"

section \<open>The bounded retry\<close>

datatype loaded = Loaded catalog_vector | NotAVector | Raises read_exception

datatype attempt_end = Whole catalog_vector | Dropped axiom_error | Stopped recovery_failure

text \<open>One attempt: the vector, or the exception the handler sees.\<close>

definition attempted :: "string \<Rightarrow> loaded \<Rightarrow> read_exception + catalog_vector" where
  "attempted policy l =
     (case l of
        Loaded v \<Rightarrow>
          if cv_missing v \<noteq> [] \<and> policy = REQUIRE_COMPLETE
          then Inl (CatalogRaised (CatalogMemberMissing (join_with '', '' (missing_members v)) VectorPartial))
          else Inr v
      | NotAVector \<Rightarrow> Inl RejectedByLoader
      | Raises e \<Rightarrow> Inl e)"

text \<open>
  The loop over \<open>index\<close>: the first argument counts the attempts left. It ends with a result, or an exception
  that is raised through.
\<close>

fun attempt_loop ::
    "error_words \<Rightarrow> ('s \<Rightarrow> 's \<times> loaded) \<Rightarrow> string \<Rightarrow> nat \<Rightarrow> nat \<Rightarrow> axiom_error option \<Rightarrow> 's \<Rightarrow> 's \<times> nat \<times> attempt_end" where
  "attempt_loop ew load policy 0 index last_error s =
     (s, index, case last_error of None \<Rightarrow> Stopped RecoveryRejected | Some e \<Rightarrow> Dropped e)"
| "attempt_loop ew load policy (Suc left) index last_error s =
     (case load s of (s', l) \<Rightarrow>
        (case attempted policy l of
           Inr v \<Rightarrow> (s', index + 1, Whole v)
         | Inl e \<Rightarrow>
             if e = RejectedByLoader then (s', index + 1, Stopped RecoveryRejected)
             else if e = Interrupted then (s', index + 1, Stopped WasInterrupted)
             else
               (case to_axiom_error ew (canonical_code_for e) e of
                  Inl _ \<Rightarrow> (s', index + 1, Stopped ErrorRefused)
                | Inr err \<Rightarrow>
                    if canonical_code_for e \<in> set RECOVERABLE_CODES \<and> 0 < left
                    then attempt_loop ew load policy left (index + 1) (Some err) s'
                    else (s', index + 1, Dropped err))))"

definition partial_warning :: "catalog_vector \<Rightarrow> string" where
  "partial_warning v =
     ''project(s) '' @ join_with '', '' (missing_members v)
     @ '' are unavailable; this answer covers only the available members, never an empty graph for the missing ones''"

definition dropped_warning :: string where
  "dropped_warning = ''the request was dropped whole; no partial or mixed-generation data is served''"

definition vector_result :: "string \<Rightarrow> string \<Rightarrow> string \<Rightarrow> string \<Rightarrow> nat \<Rightarrow> catalog_vector \<Rightarrow> recovery_result" where
  "vector_result mode consistency freshness verified attempts v =
     \<lparr>rc_status = (if cv_missing v = [] then SERVED else PARTIAL), rc_mode = mode, rc_consistency = consistency,
      rc_coverage = effective_coverage v, rc_freshness = freshness, rc_verification = verified, rc_attempts = attempts,
      rc_vector = Some v, rc_error = None, rc_warnings = (if cv_missing v = [] then [] else [partial_warning v])\<rparr>"

definition failed_result :: "string \<Rightarrow> string \<Rightarrow> string \<Rightarrow> nat \<Rightarrow> axiom_error \<Rightarrow> recovery_result" where
  "failed_result mode consistency freshness attempts e =
     \<lparr>rc_status = FAILED, rc_mode = mode, rc_consistency = consistency, rc_coverage = ''unsupported'',
      rc_freshness = freshness, rc_verification = VERIFICATION_NONE, rc_attempts = attempts, rc_vector = None,
      rc_error = Some e, rc_warnings = [dropped_warning]\<rparr>"

definition DEFAULT_MAX_ATTEMPTS :: nat where "DEFAULT_MAX_ATTEMPTS = 2"

text \<open>\<open>RecoveryLimits\<close>: a positive integer.\<close>

definition make_limits :: "pyval \<Rightarrow> recovery_failure + nat" where
  "make_limits v = (case v of PInt i \<Rightarrow> if i < 1 then Inl RecoveryRejected else Inr (nat i) | _ \<Rightarrow> Inl RecoveryRejected)"

definition read_with_recovery ::
    "error_words \<Rightarrow> ('s \<Rightarrow> 's \<times> loaded) \<Rightarrow> string \<Rightarrow> string \<Rightarrow> string \<Rightarrow> nat option \<Rightarrow> string option \<Rightarrow> 's
       \<Rightarrow> 's \<times> (recovery_failure + recovery_result)" where
  "read_with_recovery ew load policy mode consistency limits runtime s =
     (case bind_result (require_choice policy COVERAGE_POLICIES) (\<lambda>_.
           bind_result (require_choice mode MODES) (\<lambda>_.
           bind_result (require_choice consistency CONSISTENCIES) (\<lambda>_. recovery_freshness mode consistency runtime))) of
        Inl e \<Rightarrow> (s, Inl e)
      | Inr freshness \<Rightarrow>
          (case attempt_loop ew load policy (case limits of None \<Rightarrow> DEFAULT_MAX_ATTEMPTS | Some n \<Rightarrow> n) 0 None s of
             (s', attempts, Whole v) \<Rightarrow>
               (s', Inr (vector_result mode consistency freshness
                  (if mode = SNAPSHOT_ONLY then VERIFICATION_MANIFEST_HASH else VERIFICATION_NONE) attempts v))
           | (s', attempts, Dropped e) \<Rightarrow> (s', Inr (failed_result mode consistency freshness attempts e))
           | (s', _, Stopped f) \<Rightarrow> (s', Inl f)))"

section \<open>One whole attempt\<close>

text \<open>The state after some attempts, and what the next one loads.\<close>

definition after :: "('s \<Rightarrow> 's \<times> loaded) \<Rightarrow> nat \<Rightarrow> 's \<Rightarrow> 's" where
  "after load n s = ((\<lambda>s. fst (load s)) ^^ n) s"

definition attempt :: "('s \<Rightarrow> 's \<times> loaded) \<Rightarrow> string \<Rightarrow> nat \<Rightarrow> 's \<Rightarrow> read_exception + catalog_vector" where
  "attempt load policy n s = attempted policy (snd (load (after load n s)))"

lemma after_simps [simp]:
  "after load 0 s = s"
  "after load (Suc n) s = after load n (fst (load s))"
  by (simp_all add: after_def funpow_Suc_right del: funpow.simps(2))

lemma attempt_simps [simp]:
  "attempt load policy 0 s = attempted policy (snd (load s))"
  "attempt load policy (Suc n) s = attempt load policy n (fst (load s))"
  by (simp_all add: attempt_def)

definition ended_by :: "error_words \<Rightarrow> bool \<Rightarrow> read_exception + catalog_vector \<Rightarrow> attempt_end \<Rightarrow> bool" where
  "ended_by ew last_one a r =
     (case r of
        Whole v \<Rightarrow> a = Inr v
      | Dropped err \<Rightarrow> (\<exists>e. a = Inl e \<and> to_axiom_error ew (canonical_code_for e) e = Inr err
          \<and> (last_one \<or> canonical_code_for e \<notin> set RECOVERABLE_CODES))
      | Stopped f \<Rightarrow> (\<exists>e. a = Inl e))"

definition worth_retrying :: "read_exception + catalog_vector \<Rightarrow> bool" where
  "worth_retrying a = (\<exists>e. a = Inl e \<and> canonical_code_for e \<in> set RECOVERABLE_CODES)"

lemma attempt_loop_spec:
  assumes "attempt_loop ew load policy n k last_error s = (s', m, r)" "0 < n"
  shows "\<exists>i < n. m = k + Suc i \<and> s' = after load (Suc i) s \<and> (\<forall>j < i. worth_retrying (attempt load policy j s))
    \<and> ended_by ew (Suc i = n) (attempt load policy i s) r"
  using assms
proof (induction n arbitrary: k last_error s)
  case 0
  then show ?case by simp
next
  case (Suc n)
  obtain t l where l: "load s = (t, l)" by force
  show ?case
  proof (cases "attempted policy l")
    case (Inr v)
    with Suc.prems(1) l show ?thesis by (intro exI [of _ 0]) (auto simp: ended_by_def)
  next
    case (Inl e)
    show ?thesis
    proof (cases "e \<noteq> RejectedByLoader \<and> e \<noteq> Interrupted \<and> is_ok (to_axiom_error ew (canonical_code_for e) e)
        \<and> canonical_code_for e \<in> set RECOVERABLE_CODES \<and> 0 < n")
      case True
      then obtain err where "to_axiom_error ew (canonical_code_for e) e = Inr err" by (auto simp: is_ok_iff)
      with Suc.prems(1) l Inl True have "attempt_loop ew load policy n (k + 1) (Some err) t = (s', m, r)" by simp
      from Suc.IH [OF this] True obtain i where i: "i < n" "m = k + 1 + Suc i" "s' = after load (Suc i) t"
        "\<forall>j < i. worth_retrying (attempt load policy j t)" "ended_by ew (Suc i = n) (attempt load policy i t) r" by auto
      have "worth_retrying (attempt load policy j s)" if "j < Suc i" for j
        using that i(4) l Inl True by (cases j) (auto simp: worth_retrying_def)
      with i l show ?thesis by (intro exI [of _ "Suc i"]) auto
    next
      case False
      with Suc.prems(1) l Inl show ?thesis
        by (intro exI [of _ 0]) (auto simp: ended_by_def is_ok_iff split: if_splits sum.splits)
    qed
  qed
qed

text \<open>
  C26. A read makes at least one and at most the allowed number of whole attempts, and retries only what can be
  recovered. What it serves is the whole vector of its last attempt and of no other, complete when the policy
  demands it; what it refuses carries no data and one canonical error, after the last attempt or one that
  cannot be recovered. Freshness is unknown in snapshot-only mode and for a pinned read.
\<close>

theorem recovery_is_whole_and_bounded:
  assumes "read_with_recovery ew load policy mode consistency limits runtime s = (s', Inr r)" "limits \<noteq> Some 0"
  shows "\<exists>i. rc_attempts r = Suc i \<and> Suc i \<le> (case limits of None \<Rightarrow> 2 | Some n \<Rightarrow> n) \<and> s' = after load (Suc i) s
    \<and> (\<forall>j < i. worth_retrying (attempt load policy j s))
    \<and> (case rc_vector r of
         Some v \<Rightarrow> attempt load policy i s = Inr v \<and> rc_error r = None \<and> rc_coverage r = effective_coverage v
           \<and> (rc_status r = SERVED \<longleftrightarrow> cv_missing v = []) \<and> (policy = REQUIRE_COMPLETE \<longrightarrow> rc_status r = SERVED)
       | None \<Rightarrow> rc_status r = FAILED \<and> (\<exists>e err. attempt load policy i s = Inl e \<and> rc_error r = Some err
           \<and> ae_code err = canonical_code_for e \<and> ae_code err \<in> set CANONICAL_CODES
           \<and> (Suc i = (case limits of None \<Rightarrow> 2 | Some n \<Rightarrow> n) \<or> ae_code err \<notin> set RECOVERABLE_CODES)))
    \<and> (mode = SNAPSHOT_ONLY \<or> consistency = PINNED \<longrightarrow> rc_freshness r = FRESHNESS_UNKNOWN)"
proof -
  let ?n = "case limits of None \<Rightarrow> DEFAULT_MAX_ATTEMPTS | Some n \<Rightarrow> n"
  obtain freshness t m x where run: "recovery_freshness mode consistency runtime = Inr freshness"
    "attempt_loop ew load policy ?n 0 None s = (t, m, x)"
    using assms(1) by (auto simp: read_with_recovery_def bind_result_eq_Inr split: sum.splits prod.splits)
  have n: "0 < ?n" "?n = (case limits of None \<Rightarrow> 2 | Some n \<Rightarrow> n)"
    using assms(2) by (auto simp: DEFAULT_MAX_ATTEMPTS_def split: option.splits)
  from attempt_loop_spec [OF run(2) n(1)] obtain i where i: "i < ?n" "m = Suc i" "t = after load (Suc i) s"
    "\<forall>j < i. worth_retrying (attempt load policy j s)" "ended_by ew (Suc i = ?n) (attempt load policy i s) x" by auto
  have fresh: "mode = SNAPSHOT_ONLY \<or> consistency = PINNED \<longrightarrow> freshness = FRESHNESS_UNKNOWN"
    using run(1) by (auto simp: recovery_freshness_def bind_result_eq_Inr split: if_splits)
  have result: "s' = t" "rc_freshness r = freshness" "rc_attempts r = m"
    and vector: "\<forall>v. x = Whole v \<longrightarrow> rc_vector r = Some v \<and> rc_error r = None \<and> rc_coverage r = effective_coverage v
        \<and> rc_status r = (if cv_missing v = [] then SERVED else PARTIAL)"
    and dropped: "\<forall>e. x = Dropped e \<longrightarrow> rc_vector r = None \<and> rc_error r = Some e \<and> rc_status r = FAILED"
    and ended: "\<forall>f. x \<noteq> Stopped f"
    using assms(1) run
    by (auto simp: read_with_recovery_def bind_result_eq_Inr vector_result_def failed_result_def
        split: sum.splits attempt_end.splits)
  show ?thesis
  proof (cases x)
    case (Whole v)
    have "policy = REQUIRE_COMPLETE \<longrightarrow> cv_missing v = []"
      using i(5) Whole by (auto simp: ended_by_def attempt_def attempted_def split: loaded.splits if_splits)
    moreover have "SERVED \<noteq> PARTIAL" by code_simp
    ultimately show ?thesis
      using Whole vector result fresh i n(2) by (intro exI [of _ i]) (auto simp: ended_by_def)
  next
    case (Dropped err)
    with i(5) obtain e where e: "attempt load policy i s = Inl e" "to_axiom_error ew (canonical_code_for e) e = Inr err"
      "Suc i = ?n \<or> canonical_code_for e \<notin> set RECOVERABLE_CODES" by (auto simp: ended_by_def)
    then have "ae_code err = canonical_code_for e" "ae_code err \<in> set CANONICAL_CODES"
      by (auto simp: to_axiom_error_def make_error_def Let_def split: if_splits)
    with e Dropped dropped result fresh i n(2) show ?thesis by (intro exI [of _ i]) auto
  qed (use ended in blast)
qed

text \<open>
  An absent generation is told apart: expired exactly when the lane's pointer is readable and names another
  generation, unavailable otherwise; a directory that is there is answered as it is.
\<close>

theorem absence_is_classified:
  assumes "generation_root (sl_root location) g = Inr directory"
  shows "require_generation loads h location g =
    (if h_stat h directory = Some Directory then Inr directory
     else Inl (SnapshotGone
       (if \<exists>raw p. h_read h (pointer_path (sl_root location)) = Some raw \<and> load_pointer_bytes loads raw = Inr p
             \<and> p_generation_id p \<noteq> g
        then SNAPSHOT_EXPIRED else SNAPSHOT_UNAVAILABLE) g))"
  using assms by (auto simp: require_generation_def classify_absence_def split: option.splits sum.splits)

section \<open>An example\<close>

text \<open>The first attempt finds no file, the second the vector.\<close>

definition exr_vector :: catalog_vector where
  "exr_vector = \<lparr>cv_catalog_generation_id = ''g'', cv_solution_id = ''shop'', cv_coverage = ''partial'', cv_pins = []\<rparr>"

definition exr_load :: "nat \<Rightarrow> nat \<times> loaded" where
  "exr_load n = (Suc n, if n = 0 then Raises OSError else Loaded exr_vector)"

definition exr_words :: error_words where
  "exr_words = \<lparr>ew_redactor = ext_redactor, ew_say = (\<lambda>_. []), ew_type_of = (\<lambda>_. ''OSError'')\<rparr>"

theorem recovery_is_whole_and_bounded_witness:
  "\<exists>r. read_with_recovery exr_words exr_load REQUIRE_COMPLETE SNAPSHOT_ONLY ALLOW_STALE None None 0 = (2, Inr r)
     \<and> rc_vector r = Some exr_vector \<and> rc_attempts r = 2 \<and> rc_status r = SERVED \<and> rc_freshness r = FRESHNESS_UNKNOWN"
proof -
  have "canonical_code_for OSError \<in> set CANONICAL_CODES" "canonical_code_for OSError \<in> set RECOVERABLE_CODES"
    "cv_missing exr_vector = []" "REQUIRE_COMPLETE \<in> set COVERAGE_POLICIES" "SNAPSHOT_ONLY \<in> set MODES"
    "ALLOW_STALE \<in> set CONSISTENCIES" by code_simp+
  note codes = this
  from codes(1) obtain err where "to_axiom_error exr_words (canonical_code_for OSError) OSError = Inr err"
    by (simp add: to_axiom_error_def make_error_def Let_def)
  then have loop: "attempt_loop exr_words exr_load REQUIRE_COMPLETE DEFAULT_MAX_ATTEMPTS 0 None 0 = (2, 2, Whole exr_vector)"
    using codes(2,3) by (simp add: DEFAULT_MAX_ATTEMPTS_def exr_load_def attempted_def numeral_2_eq_2)
  then obtain r where r: "read_with_recovery exr_words exr_load REQUIRE_COMPLETE SNAPSHOT_ONLY ALLOW_STALE None None 0 = (2, Inr r)"
    "rc_vector r = Some exr_vector"
    using codes by (simp add: read_with_recovery_def require_choice_def guard_result_def recovery_freshness_def vector_result_def)
  from recovery_is_whole_and_bounded [OF r(1)] r(2) obtain i where i: "rc_attempts r = Suc i" "Suc i \<le> 2" "2 = after exr_load (Suc i) 0"
    "rc_status r = SERVED" "rc_freshness r = FRESHNESS_UNKNOWN" using codes(3) by auto
  have "i \<noteq> 0" using i(3) by (cases i) (auto simp: exr_load_def)
  with i r show ?thesis by auto
qed

end
