(* ===== verification/Lifecycle.thy ===== *)
theory Lifecycle
  imports Guard Manifest
begin

text \<open>
  \<open>lifecycle.py\<close>: readiness, the lifecycle object and the critical sections its methods run under their
  condition. How several threads interleave them, with the guard between, is the theory \<open>Gateway\<close>. Times
  are rationals.
\<close>

section \<open>Readiness\<close>

definition QUERY_COMPONENT :: string where "QUERY_COMPONENT = ''query''"
definition CONTROL_COMPONENT :: string where "CONTROL_COMPONENT = ''control''"
definition NOT_READY :: string where "NOT_READY = ''NOT_READY''"
definition DEFAULT_DRAIN_TIMEOUT_S :: rat where "DEFAULT_DRAIN_TIMEOUT_S = 5"
definition MAX_DRAIN_TIMEOUT_S :: rat where "MAX_DRAIN_TIMEOUT_S = 60"
definition QUERY_NOT_WIRED :: string where "QUERY_NOT_WIRED = ''query data plane not wired''"
definition CONTROL_NOT_WIRED :: string where "CONTROL_NOT_WIRED = ''graphd control client not wired''"
definition SDK_NOT_INITIALIZED :: string where "SDK_NOT_INITIALIZED = ''sdk_not_initialized''"

record component_readiness =
  cr_name :: string
  cr_available :: bool
  cr_detail :: "string option"

definition cr_as_dict :: "component_readiness \<Rightarrow> (string, pyval) dict" where
  "cr_as_dict c =
     [(''available'', PBool (cr_available c))] @ (case cr_detail c of None \<Rightarrow> [] | Some d \<Rightarrow> [(''detail'', PStr d)])"

record readiness_report =
  rp_query :: component_readiness
  rp_control :: component_readiness

definition rp_ready :: "readiness_report \<Rightarrow> bool" where
  "rp_ready r = (cr_available (rp_query r) \<and> cr_available (rp_control r))"

definition rp_as_dict :: "readiness_report \<Rightarrow> (string, pyval) dict" where
  "rp_as_dict r =
     [(''ready'', PBool (rp_ready r)), (''query'', PDict (cr_as_dict (rp_query r))),
      (''control'', PDict (cr_as_dict (rp_control r))), (''error'', if rp_ready r then PNone else PStr NOT_READY)]"

definition default_readiness :: readiness_report where
  "default_readiness =
     \<lparr>rp_query = \<lparr>cr_name = QUERY_COMPONENT, cr_available = False, cr_detail = Some QUERY_NOT_WIRED\<rparr>,
      rp_control = \<lparr>cr_name = CONTROL_COMPONENT, cr_available = False, cr_detail = Some CONTROL_NOT_WIRED\<rparr>\<rparr>"

text \<open>What a probe does: raise, name a readiness, or answer a value judged by its truth.\<close>

datatype probe_answer = ProbeRaised string | ProbeReadiness component_readiness | ProbeTruth bool

definition probe_query :: "probe_answer option \<Rightarrow> bool \<times> string option" where
  "probe_query probe =
     (case probe of
        None \<Rightarrow> (False, Some QUERY_NOT_WIRED)
      | Some (ProbeRaised name) \<Rightarrow> (False, Some (''query_probe_failed:'' @ name))
      | Some (ProbeReadiness c) \<Rightarrow> (cr_available c, cr_detail c)
      | Some (ProbeTruth b) \<Rightarrow> (b, None))"

section \<open>The lifecycle object\<close>

record drain_outcome =
  do_drained :: bool
  do_finished :: nat
  do_cancelled :: nat
  do_remaining :: nat
  do_elapsed_s :: rat
  do_guards_held :: "string list"

definition do_as_dict :: "(rat \<Rightarrow> string) \<Rightarrow> drain_outcome \<Rightarrow> (string, pyval) dict" where
  "do_as_dict repr d =
     [(''drained'', PBool (do_drained d)), (''finished'', PInt (int (do_finished d))),
      (''cancelled'', PInt (int (do_cancelled d))), (''remaining'', PInt (int (do_remaining d))),
      (''elapsed_s'', PFloat (repr (do_elapsed_s d))), (''guards_held'', PList (map PStr (do_guards_held d)))]"

record lifecycle =
  lf_guard :: "guard option"
  lf_drain_timeout_s :: rat
  lf_in_flight :: nat
  lf_finished :: nat
  lf_cancelled :: nat
  lf_draining :: bool
  lf_shutdown :: bool
  lf_outcome :: "drain_outcome option"
  lf_sdk_initialized :: bool
  lf_query_available :: bool
  lf_query_detail :: "string option"
  lf_control_available :: bool
  lf_control_detail :: "string option"

datatype lifecycle_error = LimitExceeded | NotReady

text \<open>A value that should be a number of seconds; \<open>None\<close> is anything else.\<close>

definition drain_seconds :: "rat option \<Rightarrow> lifecycle_error + rat" where
  "drain_seconds v =
     (case v of None \<Rightarrow> Inl LimitExceeded
      | Some s \<Rightarrow> if 0 < s \<and> s \<le> MAX_DRAIN_TIMEOUT_S then Inr s else Inl LimitExceeded)"

definition make_lifecycle :: "guard option \<Rightarrow> rat option \<Rightarrow> lifecycle_error + lifecycle" where
  "make_lifecycle g timeout =
     bind_result (drain_seconds timeout) (\<lambda>s.
       Inr \<lparr>lf_guard = g, lf_drain_timeout_s = s, lf_in_flight = 0, lf_finished = 0, lf_cancelled = 0,
            lf_draining = False, lf_shutdown = False, lf_outcome = None, lf_sdk_initialized = False,
            lf_query_available = False, lf_query_detail = Some QUERY_NOT_WIRED,
            lf_control_available = False, lf_control_detail = Some CONTROL_NOT_WIRED\<rparr>)"

definition mark_sdk_initialized :: "lifecycle \<Rightarrow> lifecycle" where
  "mark_sdk_initialized l = l\<lparr>lf_sdk_initialized := True\<rparr>"

definition mark_query_available :: "bool \<Rightarrow> string option \<Rightarrow> lifecycle \<Rightarrow> lifecycle" where
  "mark_query_available available detail l =
     l\<lparr>lf_query_available := available, lf_query_detail := (if available then None else detail)\<rparr>"

definition mark_control_available :: "bool \<Rightarrow> string option \<Rightarrow> lifecycle \<Rightarrow> lifecycle" where
  "mark_control_available available detail l =
     l\<lparr>lf_control_available := available, lf_control_detail := (if available then None else detail)\<rparr>"

text \<open>\<open>probe\<close> is \<open>None\<close> where no probe was wired.\<close>

definition readiness :: "probe_answer option \<Rightarrow> lifecycle \<Rightarrow> readiness_report" where
  "readiness probe l =
     \<lparr>rp_query =
        (if \<not> lf_sdk_initialized l
         then \<lparr>cr_name = QUERY_COMPONENT, cr_available = False, cr_detail = Some SDK_NOT_INITIALIZED\<rparr>
         else if probe \<noteq> None
         then \<lparr>cr_name = QUERY_COMPONENT, cr_available = fst (probe_query probe), cr_detail = snd (probe_query probe)\<rparr>
         else \<lparr>cr_name = QUERY_COMPONENT, cr_available = lf_query_available l, cr_detail = lf_query_detail l\<rparr>),
      rp_control =
        \<lparr>cr_name = CONTROL_COMPONENT, cr_available = lf_control_available l, cr_detail = lf_control_detail l\<rparr>\<rparr>"

section \<open>Queries\<close>

text \<open>The two critical sections of \<open>query\<close>: admission and leaving.\<close>

definition admit_query :: "lifecycle \<Rightarrow> lifecycle_error + lifecycle" where
  "admit_query l = (if lf_draining l then Inl NotReady else Inr (l\<lparr>lf_in_flight := lf_in_flight l + 1\<rparr>))"

definition leave_query :: "lifecycle \<Rightarrow> lifecycle" where
  "leave_query l = l\<lparr>lf_in_flight := lf_in_flight l - 1, lf_finished := lf_finished l + 1\<rparr>"

section \<open>Draining\<close>

definition start_drain :: "lifecycle \<Rightarrow> lifecycle" where
  "start_drain l = l\<lparr>lf_draining := True\<rparr>"

definition resolve_budget :: "rat option option \<Rightarrow> lifecycle \<Rightarrow> lifecycle_error + rat" where
  "resolve_budget timeout l = (case timeout of None \<Rightarrow> Inr (lf_drain_timeout_s l) | Some v \<Rightarrow> drain_seconds v)"

definition guards_held :: "lifecycle \<Rightarrow> string list" where
  "guards_held l = (case lf_guard l of None \<Rightarrow> [] | Some g \<Rightarrow> held_names g)"

section \<open>What holds of readiness\<close>

text \<open>
  The gateway says it is ready only after the SDK was initialised, with a query probe that answered (or, where
  none is wired, a query plane marked available) and a control plane marked available; a probe that raised is
  never availability.
\<close>

theorem readiness_is_earned:
  "rp_ready (readiness probe l) =
     (lf_sdk_initialized l \<and> lf_control_available l \<and>
      (case probe of
         None \<Rightarrow> lf_query_available l
       | Some (ProbeRaised name) \<Rightarrow> False
       | Some (ProbeReadiness c) \<Rightarrow> cr_available c
       | Some (ProbeTruth b) \<Rightarrow> b))
   \<and> (dict_get (rp_as_dict (readiness probe l)) ''error'' = Some PNone) = rp_ready (readiness probe l)"
  by (auto simp: rp_ready_def readiness_def probe_query_def rp_as_dict_def split: option.splits probe_answer.splits)

end
