(* ===== verification/Gateway.thy ===== *)
theory Gateway
  imports Lifecycle
begin

text \<open>
  The threads of one gateway: \<open>query\<close>, \<open>drain\<close> and \<open>shutdown\<close> of \<open>lifecycle.py\<close> with the operations of the
  guard they call (\<open>guard/engine.py\<close>), as a machine of small steps. A thread is where it stands in the code;
  each of its steps reads or writes the shared state (the lifecycle object, the dictionary of the guard) once,
  under the condition where the code takes it and without where it does not, so that others run in
  between. Time passes between the steps.
\<close>

section \<open>The operations of the guard, one access at a time\<close>

text \<open>
  \<open>release_all\<close>: each name of the release order is tested, the names still held are added, and the names of
  that list are popped one by one. \<open>None\<close> is the end.
\<close>

datatype releasing = Testing "string list" "string list" | Popping "string list"

definition release_start :: releasing where
  "release_start = Testing RELEASE_ORDER []"

fun release_step :: "guard \<Rightarrow> releasing \<Rightarrow> guard \<times> releasing option" where
  "release_step g (Testing [] order) =
     (g, Some (Popping (order @ filter (\<lambda>n. n \<notin> set order) (rev (held_names g)))))"
| "release_step g (Testing (name # names) order) =
     (g, Some (Testing names (if name \<in> set (held_names g) then order @ [name] else order)))"
| "release_step g (Popping []) = (g, None)"
| "release_step g (Popping (name # names)) = (fst (release g name), Some (Popping names))"

text \<open>The refusals of \<open>_acquire_one\<close> that come before it walks the guards held.\<close>

definition look_up :: "guard \<Rightarrow> string \<Rightarrow> lock_mode \<Rightarrow> guard_error + unit" where
  "look_up g name mode =
     (if name \<notin> set LOCK_FILE_NAMES then Inl (GuardError ''unknown_lock'')
      else if closed g then Inl (GuardError ''closed'')
      else (case dict_get (held g) name of
          Some m \<Rightarrow> Inl (GuardError (if m \<noteq> mode then ''lock_upgrade'' else ''recursive_acquire''))
        | None \<Rightarrow> Inr ()))"

text \<open>
  The walk over the dictionary: it began when the dictionary had \<open>entries\<close> entries and has seen the names \<open>seen\<close>.
  A dictionary whose entries changed since raises.
\<close>

datatype held_walk = SizeChanged | WalkEnded | Met string

definition walk_held :: "guard \<Rightarrow> nat \<Rightarrow> string list \<Rightarrow> held_walk" where
  "walk_held g entries seen =
     (if length (held g) \<noteq> entries then SizeChanged
      else (case filter (\<lambda>n. n \<notin> set seen) (held_names g) of [] \<Rightarrow> WalkEnded | already # _ \<Rightarrow> Met already))"

section \<open>A query\<close>

datatype exit_error = GuardRaised guard_error | DictionaryChanged

text \<open>
  Where a query stands: entering the reader context; looking up the next guard of the specification, beginning
  the walk, walking, waiting for the lock, recording it; releasing early; in its body; releasing after a timeout
  or a cancellation; releasing after the body; and leaving, with the error it raises.
\<close>

datatype query_pc =
    Entering
  | Looking "(string \<times> lock_mode) list"
  | Beginning string lock_mode "(string \<times> lock_mode) list"
  | Walking string lock_mode "(string \<times> lock_mode) list" nat "string list"
  | Awaiting string lock_mode "(string \<times> lock_mode) list"
  | Recording string lock_mode "(string \<times> lock_mode) list"
  | Early "string list"
  | Inside
  | Undoing releasing guard_error
  | Closing releasing
  | Leaving "exit_error option"

text \<open>\<open>ordered\<close> undoes a timeout and a cancellation; it lets every other error pass with what is held.\<close>

definition entry_fails :: "guard_error \<Rightarrow> query_pc" where
  "entry_fails e =
     (case e of GuardError r \<Rightarrow> Leaving (Some (GuardRaised e)) | _ \<Rightarrow> Undoing release_start e)"

text \<open>
  One step of the entry and the exit of the guard; \<open>outcome\<close> is how a wait ends that ends in this step. The
  reader enters with one attempt, so an undone entry is its last.
\<close>

fun reader_step :: "attempt \<Rightarrow> guard \<Rightarrow> query_pc \<Rightarrow> guard \<times> query_pc" where
  "reader_step outcome g Entering = (g, Looking READER_SPECS)"
| "reader_step outcome g (Looking []) = (g, Early [''admission.lock''])"
| "reader_step outcome g (Looking ((name, mode) # specs)) =
     (g, case look_up g name mode of Inl e \<Rightarrow> entry_fails e | Inr _ \<Rightarrow> Beginning name mode specs)"
| "reader_step outcome g (Beginning name mode specs) = (g, Walking name mode specs (length (held g)) [])"
| "reader_step outcome g (Walking name mode specs entries seen) =
     (g, case walk_held g entries seen of
           SizeChanged \<Rightarrow> Leaving (Some DictionaryChanged)
         | WalkEnded \<Rightarrow> Awaiting name mode specs
         | Met already \<Rightarrow>
             if position already > position name then entry_fails (GuardError ''order_violation'')
             else Walking name mode specs entries (already # seen))"
| "reader_step outcome g (Awaiting name mode specs) =
     (g, case outcome of
           Unverified e \<Rightarrow> entry_fails e
         | Waited TimedOut \<Rightarrow> entry_fails GuardTimeout
         | Waited WaitCancelled \<Rightarrow> entry_fails GuardCancelled
         | Waited Acquired \<Rightarrow> Recording name mode specs)"
| "reader_step outcome g (Recording name mode specs) =
     (g\<lparr>held := dict_set name mode (held g)\<rparr>, Looking specs)"
| "reader_step outcome g (Early []) = (g, Inside)"
| "reader_step outcome g (Early (name # names)) =
     (case release g name of (g', Inl e) \<Rightarrow> (g', entry_fails e) | (g', Inr _) \<Rightarrow> (g', Early names))"
| "reader_step outcome g Inside = (g, Closing release_start)"
| "reader_step outcome g (Undoing r e) =
     (case release_step g r of
        (g', None) \<Rightarrow> (g', Leaving (Some (GuardRaised e))) | (g', Some r') \<Rightarrow> (g', Undoing r' e))"
| "reader_step outcome g (Closing r) =
     (case release_step g r of (g', None) \<Rightarrow> (g', Leaving None) | (g', Some r') \<Rightarrow> (g', Closing r'))"
| "reader_step outcome g (Leaving e) = (g, Leaving e)"

text \<open>One step of an admitted query; \<open>None\<close> is its end. Without a guard it has only its body.\<close>

definition query_step :: "attempt \<Rightarrow> lifecycle \<Rightarrow> query_pc \<Rightarrow> lifecycle \<times> query_pc option" where
  "query_step outcome l pc =
     (case pc of
        Leaving e \<Rightarrow> (leave_query l, None)
      | _ \<Rightarrow>
          (case lf_guard l of
             None \<Rightarrow> (l, Some (if pc = Entering then Inside else Leaving None))
           | Some g \<Rightarrow> (case reader_step outcome g pc of (g', pc') \<Rightarrow> (l\<lparr>lf_guard := Some g'\<rparr>, Some pc'))))"

section \<open>A drain and a shutdown\<close>

text \<open>
  Where a call of \<open>drain\<close> or \<open>shutdown\<close> stands; the flag tells a drain that a shutdown called. In order: the
  shutdown asks for an earlier outcome; draining starts; the budget is resolved and the clock read; the
  deadline is set; the loop of \<open>_wait_for_queries\<close>; the clock is read again; what remains is counted as
  cancelled; the guard is released; the finished are counted; the guards held are read. Then a shutdown
  releases again, reads again, and stores the outcome.
\<close>

datatype drain_pc =
    Asking "rat option option"
  | Starting bool "rat option option"
  | Budgeting bool "rat option option"
  | Timing bool rat rat
  | Watching bool rat rat
  | Ended bool rat nat
  | Cancelling bool rat nat
  | Freeing bool rat nat releasing
  | Counting bool rat nat
  | Reporting bool rat nat nat
  | Clearing drain_outcome releasing
  | Checking drain_outcome
  | Saving drain_outcome
  | Returned bool "lifecycle_error + drain_outcome"

definition made_outcome :: "rat \<Rightarrow> nat \<Rightarrow> nat \<Rightarrow> string list \<Rightarrow> drain_outcome" where
  "made_outcome elapsed remaining finished names =
     \<lparr>do_drained = (remaining = 0), do_finished = finished,
      do_cancelled = (if remaining \<noteq> 0 then remaining else 0), do_remaining = remaining,
      do_elapsed_s = elapsed, do_guards_held = names\<rparr>"

fun drain_step :: "rat \<Rightarrow> lifecycle \<Rightarrow> drain_pc \<Rightarrow> lifecycle \<times> drain_pc" where
  "drain_step now l (Asking timeout) =
     (l, case (if lf_shutdown l then lf_outcome l else None) of
           Some outcome \<Rightarrow> Returned True (Inr outcome) | None \<Rightarrow> Starting True timeout)"
| "drain_step now l (Starting sh timeout) = (start_drain l, Budgeting sh timeout)"
| "drain_step now l (Budgeting sh timeout) =
     (l, case resolve_budget timeout l of Inl e \<Rightarrow> Returned sh (Inl e) | Inr budget \<Rightarrow> Timing sh now budget)"
| "drain_step now l (Timing sh started budget) = (l, Watching sh started (now + budget))"
| "drain_step now l (Watching sh started deadline) =
     (l, if lf_in_flight l = 0 \<or> deadline - now \<le> 0 then Ended sh started (lf_in_flight l)
         else Watching sh started deadline)"
| "drain_step now l (Ended sh started remaining) =
     (l, if remaining \<noteq> 0 then Cancelling sh (now - started) remaining else Counting sh (now - started) remaining)"
| "drain_step now l (Cancelling sh elapsed remaining) =
     (l\<lparr>lf_cancelled := lf_cancelled l + remaining\<rparr>,
      if lf_guard l = None then Counting sh elapsed remaining else Freeing sh elapsed remaining release_start)"
| "drain_step now l (Freeing sh elapsed remaining r) =
     (case lf_guard l of
        None \<Rightarrow> (l, Counting sh elapsed remaining)
      | Some g \<Rightarrow>
          (case release_step g r of
             (g', None) \<Rightarrow> (l\<lparr>lf_guard := Some g'\<rparr>, Counting sh elapsed remaining)
           | (g', Some r') \<Rightarrow> (l\<lparr>lf_guard := Some g'\<rparr>, Freeing sh elapsed remaining r')))"
| "drain_step now l (Counting sh elapsed remaining) = (l, Reporting sh elapsed remaining (lf_finished l))"
| "drain_step now l (Reporting sh elapsed remaining finished) =
     (let outcome = made_outcome elapsed remaining finished (guards_held l) in
      (l, if \<not> sh then Returned sh (Inr outcome)
          else if lf_guard l = None then Saving outcome else Clearing outcome release_start))"
| "drain_step now l (Clearing outcome r) =
     (case lf_guard l of
        None \<Rightarrow> (l, Checking outcome)
      | Some g \<Rightarrow>
          (case release_step g r of
             (g', None) \<Rightarrow> (l\<lparr>lf_guard := Some g'\<rparr>, Checking outcome)
           | (g', Some r') \<Rightarrow> (l\<lparr>lf_guard := Some g'\<rparr>, Clearing outcome r')))"
| "drain_step now l (Checking outcome) = (l, Saving (outcome\<lparr>do_guards_held := guards_held l\<rparr>))"
| "drain_step now l (Saving outcome) =
     (l\<lparr>lf_shutdown := True, lf_outcome := Some outcome\<rparr>, Returned True (Inr outcome))"
| "drain_step now l (Returned sh r) = (l, Returned sh r)"

section \<open>The gateway and its threads\<close>

datatype thread = Query query_pc | Drain drain_pc

record gateway =
  gw_lifecycle :: lifecycle
  gw_threads :: "(nat, thread) dict"
  gw_now :: rat

text \<open>
  What can happen: a call by a new thread (a query is then admitted or refused), a step of a thread, the
  passing of time, and the marks of readiness. The flag of a wait ending is in the step.
\<close>

datatype event =
    CallQuery nat
  | CallDrain nat "rat option option"
  | CallShutdown nat "rat option option"
  | Step nat attempt
  | Tick rat
  | MarkSdk
  | MarkQuery bool "string option"
  | MarkControl bool "string option"

definition start_thread :: "nat \<Rightarrow> thread \<Rightarrow> gateway \<Rightarrow> gateway" where
  "start_thread t p w =
     (if dict_has (gw_threads w) t then w else w\<lparr>gw_threads := dict_set t p (gw_threads w)\<rparr>)"

definition step_thread :: "nat \<Rightarrow> attempt \<Rightarrow> gateway \<Rightarrow> gateway" where
  "step_thread t outcome w =
     (case dict_get (gw_threads w) t of
        None \<Rightarrow> w
      | Some (Query pc) \<Rightarrow>
          (case query_step outcome (gw_lifecycle w) pc of
             (l, None) \<Rightarrow> w\<lparr>gw_lifecycle := l, gw_threads := AList.delete t (gw_threads w)\<rparr>
           | (l, Some pc') \<Rightarrow> w\<lparr>gw_lifecycle := l, gw_threads := dict_set t (Query pc') (gw_threads w)\<rparr>)
      | Some (Drain pc) \<Rightarrow>
          (case drain_step (gw_now w) (gw_lifecycle w) pc of
             (l, pc') \<Rightarrow> w\<lparr>gw_lifecycle := l, gw_threads := dict_set t (Drain pc') (gw_threads w)\<rparr>))"

definition run_event :: "gateway \<Rightarrow> event \<Rightarrow> gateway" where
  "run_event w e =
     (case e of
        CallQuery t \<Rightarrow>
          (case admit_query (gw_lifecycle w) of
             Inl _ \<Rightarrow> w
           | Inr l \<Rightarrow> if dict_has (gw_threads w) t then w else start_thread t (Query Entering) (w\<lparr>gw_lifecycle := l\<rparr>))
      | CallDrain t timeout \<Rightarrow> start_thread t (Drain (Starting False timeout)) w
      | CallShutdown t timeout \<Rightarrow> start_thread t (Drain (Asking timeout)) w
      | Step t outcome \<Rightarrow> step_thread t outcome w
      | Tick d \<Rightarrow> w\<lparr>gw_now := gw_now w + max 0 d\<rparr>
      | MarkSdk \<Rightarrow> w\<lparr>gw_lifecycle := mark_sdk_initialized (gw_lifecycle w)\<rparr>
      | MarkQuery available detail \<Rightarrow> w\<lparr>gw_lifecycle := mark_query_available available detail (gw_lifecycle w)\<rparr>
      | MarkControl available detail \<Rightarrow> w\<lparr>gw_lifecycle := mark_control_available available detail (gw_lifecycle w)\<rparr>)"

definition run_events :: "gateway \<Rightarrow> event list \<Rightarrow> gateway" where
  "run_events = foldl run_event"

inductive reachable_gateway :: "gateway \<Rightarrow> bool" where
  built: "make_lifecycle g timeout = Inr l \<Longrightarrow> (case g of None \<Rightarrow> True | Some h \<Rightarrow> held h = []) \<Longrightarrow>
     reachable_gateway \<lparr>gw_lifecycle = l, gw_threads = [], gw_now = now\<rparr>"
| runs: "reachable_gateway w \<Longrightarrow> reachable_gateway (run_event w e)"

section \<open>The steps agree with the operations of the engine\<close>

text \<open>Run without interruption, the steps of a release are \<open>release_all\<close>.\<close>

fun release_run :: "nat \<Rightarrow> guard \<Rightarrow> releasing \<Rightarrow> guard \<times> releasing option" where
  "release_run 0 g r = (g, Some r)"
| "release_run (Suc n) g r =
     (case release_step g r of (g', None) \<Rightarrow> (g', None) | (g', Some r') \<Rightarrow> release_run n g' r')"

lemma release_run_pops:
  "release_run (Suc (length names)) g (Popping names) = (fold (\<lambda>name g. fst (release g name)) names g, None)"
  by (induction names arbitrary: g) simp_all

lemma release_run_tests:
  "release_run (length names + n) g (Testing names order)
     = release_run n g (Testing [] (order @ filter (\<lambda>m. m \<in> set (held_names g)) names))"
  by (induction names arbitrary: order) simp_all

theorem release_run_all:
  "\<exists>n. release_run n g release_start = (release_all g, None)"
proof -
  let ?order = "filter (\<lambda>n. n \<in> set (held_names g)) RELEASE_ORDER"
  have order: "release_order g = ?order @ filter (\<lambda>n. n \<notin> set ?order) (rev (held_names g))"
    by (simp only: release_order_def Let_def)
  have "release_run (Suc (Suc (length (release_order g)))) g (Testing [] ?order) = (release_all g, None)"
    by (subst release_run.simps(2), simp only: release_step.simps prod.case option.case order [symmetric])
      (simp only: release_run_pops release_all_def)
  then have "release_run (length RELEASE_ORDER + Suc (Suc (length (release_order g)))) g release_start = (release_all g, None)"
    by (simp only: release_start_def release_run_tests append_Nil)
  then show ?thesis ..
qed

text \<open>The look-up and the walk of a guard that stays as it is refuse what \<open>may_acquire\<close> refuses.\<close>

theorem may_acquire_walks:
  "may_acquire g name mode =
     (case look_up g name mode of
        Inl e \<Rightarrow> Inl e
      | Inr _ \<Rightarrow> if list_ex (\<lambda>already. position already > position name) (held_names g)
               then Inl (GuardError ''order_violation'') else Inr ())"
  by (auto simp: may_acquire_def look_up_def list_ex_iff split: option.split)

section \<open>What one step changes\<close>

definition names_ok :: "guard \<Rightarrow> bool" where
  "names_ok g = (distinct (held_names g) \<and> set (held_names g) \<subseteq> set LOCK_FILE_NAMES)"

definition guard_named :: "lifecycle \<Rightarrow> bool" where
  "guard_named l = (case lf_guard l of None \<Rightarrow> True | Some g \<Rightarrow> names_ok g)"

lemma names_ok_few: "names_ok g \<Longrightarrow> length (held_names g) \<le> 2"
  using distinct_card [of "held_names g"] card_mono [of "set LOCK_FILE_NAMES" "set (held_names g)"]
  by (simp add: names_ok_def LOCK_FILE_NAMES_def)

lemma release_names_ok: "names_ok g \<Longrightarrow> names_ok (fst (release g name))"
  by (auto simp: names_ok_def held_names_filter)

lemma release_step_less:
  assumes "release_step g r = (g', r')"
  shows "set (held_names g') \<subseteq> set (held_names g)" "names_ok g \<Longrightarrow> names_ok g'"
proof -
  have "g' = g \<or> (\<exists>name. g' = fst (release g name))"
    using assms by (cases "(g, r)" rule: release_step.cases) auto
  then show "set (held_names g') \<subseteq> set (held_names g)" "names_ok g \<Longrightarrow> names_ok g'"
    by (auto simp: held_names_filter release_names_ok)
qed

lemma recorded_names_ok:
  assumes "names_ok g" "name \<in> set LOCK_FILE_NAMES"
  shows "names_ok (g\<lparr>held := dict_set name mode (held g)\<rparr>)"
  using assms by (auto simp: names_ok_def held_names_def distinct_update dom_update)

text \<open>The guards a query still means to take are declared ones.\<close>

fun pc_named :: "query_pc \<Rightarrow> bool" where
  "pc_named (Looking specs) = (fst ` set specs \<subseteq> set LOCK_FILE_NAMES)"
| "pc_named (Beginning name mode specs) = (name \<in> set LOCK_FILE_NAMES \<and> fst ` set specs \<subseteq> set LOCK_FILE_NAMES)"
| "pc_named (Walking name mode specs n seen) = (name \<in> set LOCK_FILE_NAMES \<and> fst ` set specs \<subseteq> set LOCK_FILE_NAMES)"
| "pc_named (Awaiting name mode specs) = (name \<in> set LOCK_FILE_NAMES \<and> fst ` set specs \<subseteq> set LOCK_FILE_NAMES)"
| "pc_named (Recording name mode specs) = (name \<in> set LOCK_FILE_NAMES \<and> fst ` set specs \<subseteq> set LOCK_FILE_NAMES)"
| "pc_named pc = True"

lemma pc_named_fails: "pc_named (entry_fails e)"
  by (cases e) (simp_all add: entry_fails_def)

lemma reader_step_named:
  assumes "reader_step outcome g pc = (g', pc')" "names_ok g" "pc_named pc"
  shows "names_ok g' \<and> pc_named pc'"
proof (cases "(outcome, g, pc)" rule: reader_step.cases)
  case (9 outcome g name names)
  have "g' = fst (release g name)" "pc_named pc'"
    using assms(1) 9 by (auto simp: pc_named_fails split: prod.splits sum.splits)
  with assms(2) 9 show ?thesis by (simp add: release_names_ok)
qed (use assms in \<open>auto simp: pc_named_fails READER_SPECS_def LOCK_FILE_NAMES_def recorded_names_ok
      split: sum.splits held_walk.splits attempt.splits wait_result.splits prod.splits option.splits
      dest: release_step_less(2)\<close>)

lemma query_step_lifecycle:
  assumes "query_step outcome l pc = (l', r)"
  shows "lf_draining l' = lf_draining l" "(lf_guard l' = None) = (lf_guard l = None)"
    "lf_shutdown l' = lf_shutdown l" "lf_outcome l' = lf_outcome l" "lf_drain_timeout_s l' = lf_drain_timeout_s l"
    "r = None \<Longrightarrow> lf_in_flight l' = lf_in_flight l - 1 \<and> lf_finished l' = lf_finished l + 1"
    "r \<noteq> None \<Longrightarrow> lf_in_flight l' = lf_in_flight l \<and> lf_finished l' = lf_finished l"
  using assms by (auto simp: query_step_def leave_query_def split: query_pc.splits option.splits prod.splits)

lemma query_step_named:
  assumes "query_step outcome l pc = (l', r)" "guard_named l" "pc_named pc"
  shows "guard_named l' \<and> (\<forall>pc'. r = Some pc' \<longrightarrow> pc_named pc')"
proof (cases "\<exists>e. pc = Leaving e")
  case True
  then show ?thesis using assms by (auto simp: query_step_def leave_query_def guard_named_def)
next
  case False
  show ?thesis
  proof (cases "lf_guard l")
    case None
    then show ?thesis using assms False
      by (auto simp: query_step_def guard_named_def split: query_pc.splits if_splits)
  next
    case (Some g)
    obtain g' pc' where step: "reader_step outcome g pc = (g', pc')" by fastforce
    then have "l' = l\<lparr>lf_guard := Some g'\<rparr> \<and> r = Some pc'"
      using assms(1) False Some by (auto simp: query_step_def split: query_pc.splits)
    then show ?thesis using reader_step_named [OF step] assms(2,3) Some by (simp add: guard_named_def)
  qed
qed

lemma drain_step_lifecycle:
  assumes "drain_step now l pc = (l', pc')"
  shows "lf_in_flight l' = lf_in_flight l" "lf_finished l' = lf_finished l" "lf_draining l \<Longrightarrow> lf_draining l'"
    "(lf_guard l' = None) = (lf_guard l = None)" "lf_drain_timeout_s l' = lf_drain_timeout_s l"
    "set (guards_held l') \<subseteq> set (guards_held l)" "guard_named l \<Longrightarrow> guard_named l'"
  using assms
  by (cases "(now, l, pc)" rule: drain_step.cases;
      auto simp: start_drain_def guards_held_def guard_named_def Let_def
        split: option.splits prod.splits sum.splits if_splits dest: release_step_less)+

section \<open>What is true of every gateway reached\<close>

definition queries :: "gateway \<Rightarrow> nat set" where
  "queries w = {t. \<exists>pc. dict_get (gw_threads w) t = Some (Query pc)}"

lemma finite_queries [simp]: "finite (queries w)"
  by (rule finite_subset [OF _ finite_dom_map_of [of "gw_threads w"]]) (auto simp: queries_def)

text \<open>A lifecycle that drains and has no query in flight stays so, and its guard is only released.\<close>

definition quieter :: "lifecycle \<Rightarrow> lifecycle \<Rightarrow> bool" where
  "quieter l l' =
     (lf_draining l \<longrightarrow> lf_draining l' \<and>
       (lf_in_flight l = 0 \<longrightarrow> lf_in_flight l' = 0 \<and> set (guards_held l') \<subseteq> set (guards_held l)))"

text \<open>What an outcome says, and what it says of the lifecycle as it is now.\<close>

definition outcome_ok :: "lifecycle \<Rightarrow> drain_outcome \<Rightarrow> bool" where
  "outcome_ok l outcome =
     (lf_draining l \<and> do_cancelled outcome = do_remaining outcome
      \<and> do_drained outcome = (do_remaining outcome = 0)
      \<and> (do_drained outcome \<longrightarrow> lf_in_flight l = 0))"

definition released_ok :: "lifecycle \<Rightarrow> drain_outcome \<Rightarrow> bool" where
  "released_ok l outcome =
     (outcome_ok l outcome \<and> (do_drained outcome \<longrightarrow> guards_held l = [] \<and> do_guards_held outcome = []))"

definition idle_if :: "lifecycle \<Rightarrow> nat \<Rightarrow> bool" where
  "idle_if l remaining = (lf_draining l \<and> (remaining = 0 \<longrightarrow> lf_in_flight l = 0))"

fun drain_ok :: "lifecycle \<Rightarrow> drain_pc \<Rightarrow> bool" where
  "drain_ok l (Asking timeout) = True"
| "drain_ok l (Starting sh timeout) = True"
| "drain_ok l (Budgeting sh timeout) = lf_draining l"
| "drain_ok l (Timing sh started budget) = lf_draining l"
| "drain_ok l (Watching sh started deadline) = lf_draining l"
| "drain_ok l (Ended sh started remaining) = idle_if l remaining"
| "drain_ok l (Cancelling sh elapsed remaining) = idle_if l remaining"
| "drain_ok l (Freeing sh elapsed remaining r) = idle_if l remaining"
| "drain_ok l (Counting sh elapsed remaining) = idle_if l remaining"
| "drain_ok l (Reporting sh elapsed remaining finished) = idle_if l remaining"
| "drain_ok l (Clearing outcome (Testing names order)) = outcome_ok l outcome"
| "drain_ok l (Clearing outcome (Popping names)) =
     (outcome_ok l outcome \<and> (do_drained outcome \<longrightarrow> set (guards_held l) \<subseteq> set names))"
| "drain_ok l (Checking outcome) = (outcome_ok l outcome \<and> (do_drained outcome \<longrightarrow> guards_held l = []))"
| "drain_ok l (Saving outcome) = released_ok l outcome"
| "drain_ok l (Returned sh (Inr outcome)) = (if sh then released_ok l outcome else outcome_ok l outcome)"
| "drain_ok l (Returned sh (Inl e)) = True"

lemma outcome_ok_quieter: "quieter l l' \<Longrightarrow> outcome_ok l outcome \<Longrightarrow> outcome_ok l' outcome"
  by (auto simp: quieter_def outcome_ok_def)

lemma released_ok_quieter: "quieter l l' \<Longrightarrow> released_ok l outcome \<Longrightarrow> released_ok l' outcome"
  by (auto simp: quieter_def outcome_ok_def released_ok_def)

lemma drain_ok_quieter:
  assumes "quieter l l'" "drain_ok l pc"
  shows "drain_ok l' pc"
  using assms
  by (cases "(l, pc)" rule: drain_ok.cases;
      auto simp: idle_if_def outcome_ok_def released_ok_def quieter_def split: if_splits)

lemma release_step_clears:
  assumes "release_step g r = (g', r')"
  shows "r' = Some (Popping names) \<Longrightarrow> (case r of Popping ms \<Rightarrow> set (held_names g) \<subseteq> set ms | _ \<Rightarrow> True) \<Longrightarrow>
      set (held_names g') \<subseteq> set names"
    "r' = None \<Longrightarrow> (case r of Popping ms \<Rightarrow> set (held_names g) \<subseteq> set ms | _ \<Rightarrow> True) \<Longrightarrow> held_names g' = []"
  using assms by (cases "(g, r)" rule: release_step.cases; auto simp: held_names_filter)+

text \<open>A step of a drain keeps what is known where it stands.\<close>

lemma drain_step_ok:
  assumes "drain_step now l pc = (l', pc')" "drain_ok l pc"
    "\<forall>outcome. lf_outcome l = Some outcome \<longrightarrow> released_ok l outcome"
  shows "drain_ok l' pc' \<and> (\<forall>outcome. lf_outcome l' = Some outcome \<longrightarrow> released_ok l' outcome)"
proof (cases "\<exists>outcome r. pc = Clearing outcome r")
  case True
  then obtain outcome r where pc: "pc = Clearing outcome r" by blast
  show ?thesis
  proof (cases "lf_guard l")
    case None
    then show ?thesis using assms pc by (cases r) (auto simp: guards_held_def)
  next
    case (Some g)
    obtain g' r' where step: "release_step g r = (g', r')" by fastforce
    have l': "l' = l\<lparr>lf_guard := Some g'\<rparr>" using assms(1) pc Some step by (auto split: option.splits)
    have ok: "outcome_ok l outcome" "do_drained outcome \<Longrightarrow> case r of Popping ms \<Rightarrow> set (held_names g) \<subseteq> set ms | _ \<Rightarrow> True"
      using assms(2) pc Some by (cases r; simp add: guards_held_def)+
    then have "outcome_ok l' outcome" by (simp add: outcome_ok_def l')
    moreover have "quieter l l'"
      using release_step_less(1) [OF step] Some by (simp add: quieter_def l' guards_held_def)
    then have "\<forall>outcome. lf_outcome l' = Some outcome \<longrightarrow> released_ok l' outcome"
      using assms(3) released_ok_quieter l' by auto
    moreover have "drain_ok l' pc'"
    proof (cases r')
      case None
      then have "pc' = Checking outcome" using assms(1) pc Some step by simp
      then show ?thesis using release_step_clears(2) [OF step None] ok(2) \<open>outcome_ok l' outcome\<close>
        by (simp add: l' guards_held_def)
    next
      case r': (Some r2)
      then have pc': "pc' = Clearing outcome r2" using assms(1) pc Some step by simp
      show ?thesis
      proof (cases r2)
        case (Popping names)
        then show ?thesis using release_step_clears(1) [OF step, of names] r' ok(2) \<open>outcome_ok l' outcome\<close> pc'
          by (simp add: l' guards_held_def)
      qed (use pc' \<open>outcome_ok l' outcome\<close> in simp)
    qed
    ultimately show ?thesis by blast
  qed
next
  case False
  have "quieter l l'"
    using drain_step_lifecycle [OF assms(1)] by (simp add: quieter_def)
  note quiet = this
  show ?thesis
  proof (cases "lf_outcome l' = lf_outcome l")
    case True
    then have stored: "\<forall>outcome. lf_outcome l' = Some outcome \<longrightarrow> released_ok l' outcome"
      using assms(3) released_ok_quieter [OF quiet] by simp
    have "drain_ok l' pc'"
      using assms False
      by (cases "(now, l, pc)" rule: drain_step.cases;
          auto simp: start_drain_def idle_if_def outcome_ok_def released_ok_def made_outcome_def Let_def release_start_def
            guards_held_def split: option.splits prod.splits sum.splits if_splits)
    with stored show ?thesis by blast
  next
    case stored: False
    then obtain outcome where pc: "pc = Saving outcome"
      using assms(1) by (cases pc) (auto simp: start_drain_def Let_def split: option.splits prod.splits sum.splits if_splits)
    then have "l' = l\<lparr>lf_shutdown := True, lf_outcome := Some outcome\<rparr>" "pc' = Returned True (Inr outcome)"
      using assms(1) by simp_all
    moreover from this have "released_ok l' outcome"
      using assms(2) pc by (simp add: released_ok_def outcome_ok_def guards_held_def)
    ultimately show ?thesis by simp
  qed
qed

definition gateway_ok :: "gateway \<Rightarrow> bool" where
  "gateway_ok w =
     (lf_in_flight (gw_lifecycle w) = card (queries w)
      \<and> guard_named (gw_lifecycle w)
      \<and> (\<forall>t pc. dict_get (gw_threads w) t = Some (Query pc) \<longrightarrow> pc_named pc)
      \<and> (\<forall>t pc. dict_get (gw_threads w) t = Some (Drain pc) \<longrightarrow> drain_ok (gw_lifecycle w) pc)
      \<and> (\<forall>outcome. lf_outcome (gw_lifecycle w) = Some outcome \<longrightarrow> released_ok (gw_lifecycle w) outcome))"

lemma gateway_ok_in_flight: "gateway_ok w \<Longrightarrow> t \<in> queries w \<Longrightarrow> lf_in_flight (gw_lifecycle w) \<noteq> 0"
  by (auto simp: gateway_ok_def card_eq_0_iff)

lemma thread_get_set [simp]: "dict_get (dict_set t p d) u = (if u = t then Some p else dict_get d u)"
  by (simp add: update_conv')

lemma thread_get_delete [simp]: "dict_get (AList.delete t d) u = (if u = t then None else dict_get d u)"
  by (simp add: delete_conv')

lemma queries_lifecycle [simp]: "queries (w\<lparr>gw_lifecycle := l\<rparr>) = queries w"
  by (simp add: queries_def)

lemma queries_now [simp]: "queries (w\<lparr>gw_now := now\<rparr>) = queries w"
  by (simp add: queries_def)

lemma queries_query: "queries (w\<lparr>gw_threads := dict_set t (Query pc) (gw_threads w)\<rparr>) = insert t (queries w)"
  by (auto simp: queries_def)

lemma queries_drain: "queries (w\<lparr>gw_threads := dict_set t (Drain pc) (gw_threads w)\<rparr>) = queries w - {t}"
  by (auto simp: queries_def)

lemma queries_delete: "queries (w\<lparr>gw_threads := AList.delete t (gw_threads w)\<rparr>) = queries w - {t}"
  by (auto simp: queries_def)

lemmas queries_simps = queries_query queries_drain queries_delete

lemma queries_has: "t \<in> queries w \<Longrightarrow> dict_has (gw_threads w) t"
  by (auto simp: queries_def dict_has_def)

text \<open>The three ways a step of a thread goes.\<close>

lemma step_thread_cases:
  obtains (nobody) "step_thread t outcome w = w" "dict_get (gw_threads w) t = None"
  | (ends) pc l where "dict_get (gw_threads w) t = Some (Query pc)"
      "query_step outcome (gw_lifecycle w) pc = (l, None)"
      "step_thread t outcome w = w\<lparr>gw_lifecycle := l, gw_threads := AList.delete t (gw_threads w)\<rparr>"
  | (goes) pc l pc' where "dict_get (gw_threads w) t = Some (Query pc)"
      "query_step outcome (gw_lifecycle w) pc = (l, Some pc')"
      "step_thread t outcome w = w\<lparr>gw_lifecycle := l, gw_threads := dict_set t (Query pc') (gw_threads w)\<rparr>"
  | (drains) pc l pc' where "dict_get (gw_threads w) t = Some (Drain pc)"
      "drain_step (gw_now w) (gw_lifecycle w) pc = (l, pc')"
      "step_thread t outcome w = w\<lparr>gw_lifecycle := l, gw_threads := dict_set t (Drain pc') (gw_threads w)\<rparr>"
proof (cases "dict_get (gw_threads w) t")
  case None
  then show thesis by (intro nobody) (simp_all add: step_thread_def)
next
  case (Some p)
  show thesis
  proof (cases p)
    case (Query pc)
    obtain l r where "query_step outcome (gw_lifecycle w) pc = (l, r)" by fastforce
    then show thesis using Some Query ends goes by (cases r) (auto simp: step_thread_def)
  next
    case (Drain pc)
    obtain l pc' where "drain_step (gw_now w) (gw_lifecycle w) pc = (l, pc')" by fastforce
    then show thesis using Some Drain drains by (auto simp: step_thread_def)
  qed
qed

lemma queries_step:
  "dict_get (gw_threads w) t = Some (Query pc) \<Longrightarrow> t \<in> queries w"
  "dict_get (gw_threads w) t = Some (Drain pc') \<Longrightarrow> t \<notin> queries w"
  by (simp_all add: queries_def)

lemma event_quieter:
  assumes "gateway_ok w"
  shows "quieter (gw_lifecycle w) (gw_lifecycle (run_event w e))"
proof (cases e)
  case (Step t outcome)
  show ?thesis
  proof (cases rule: step_thread_cases [where t = t and outcome = outcome and w = w])
    case nobody
    then show ?thesis using Step by (simp add: run_event_def quieter_def)
  next
    case (ends pc l)
    then show ?thesis
      using Step gateway_ok_in_flight [OF assms queries_step(1) [OF ends(1)]] query_step_lifecycle(1) [OF ends(2)]
      by (simp add: run_event_def quieter_def)
  next
    case (goes pc l pc')
    then show ?thesis
      using Step gateway_ok_in_flight [OF assms queries_step(1) [OF goes(1)]] query_step_lifecycle(1) [OF goes(2)]
      by (simp add: run_event_def quieter_def)
  next
    case (drains pc l pc')
    then show ?thesis using Step drain_step_lifecycle [OF drains(2)] by (simp add: run_event_def quieter_def)
  qed
qed (auto simp: run_event_def quieter_def admit_query_def start_thread_def mark_sdk_initialized_def guards_held_def
    mark_query_available_def mark_control_available_def)

lemma start_drain_thread_ok:
  assumes "gateway_ok w" "drain_ok (gw_lifecycle w) pc"
  shows "gateway_ok (start_thread t (Drain pc) w)"
proof (cases "dict_has (gw_threads w) t")
  case False
  then have "t \<notin> queries w" using queries_has by blast
  then have "queries (w\<lparr>gw_threads := dict_set t (Drain pc) (gw_threads w)\<rparr>) = queries w" by (simp add: queries_drain)
  then show ?thesis using assms False by (auto simp: start_thread_def gateway_ok_def split: if_splits)
qed (use assms in \<open>simp add: start_thread_def\<close>)

text \<open>What the whole gateway knows survives every event.\<close>

lemma gateway_ok_event:
  assumes "gateway_ok w"
  shows "gateway_ok (run_event w e)"
proof -
  have quiet: "drain_ok (gw_lifecycle w) pc \<Longrightarrow> drain_ok (gw_lifecycle (run_event w e)) pc"
      "released_ok (gw_lifecycle w) out \<Longrightarrow> released_ok (gw_lifecycle (run_event w e)) out" for pc out
    by (rule drain_ok_quieter [OF event_quieter [OF assms]] released_ok_quieter [OF event_quieter [OF assms]], assumption)+
  show ?thesis
  proof (cases e)
    case (CallQuery t)
    show ?thesis
    proof (cases "lf_draining (gw_lifecycle w) \<or> dict_has (gw_threads w) t")
      case True
      then have "run_event w e = w" using CallQuery by (auto simp: run_event_def admit_query_def)
      then show ?thesis using assms by simp
    next
      case False
      define l where "l = (gw_lifecycle w)\<lparr>lf_in_flight := lf_in_flight (gw_lifecycle w) + 1\<rparr>"
      have run: "run_event w e = w\<lparr>gw_lifecycle := l, gw_threads := dict_set t (Query Entering) (gw_threads w)\<rparr>"
        using CallQuery False by (auto simp: run_event_def admit_query_def start_thread_def l_def)
      have "queries (run_event w e) = insert t (queries w)" by (auto simp: run queries_def)
      moreover have "t \<notin> queries w" using False queries_has by blast
      ultimately show ?thesis
        using assms quiet unfolding run gateway_ok_def by (auto simp: l_def guard_named_def split: if_splits)
    qed
  next
    case (Step t outcome)
    show ?thesis
    proof (cases rule: step_thread_cases [where t = t and outcome = outcome and w = w])
      case nobody
      then show ?thesis using assms Step by (simp add: run_event_def)
    next
      case (ends pc l)
      have run: "run_event w e = w\<lparr>gw_lifecycle := l, gw_threads := AList.delete t (gw_threads w)\<rparr>"
        using Step ends(3) by (simp add: run_event_def)
      have "queries (run_event w e) = queries w - {t}" by (auto simp: run queries_def)
      then have "lf_in_flight l = card (queries (run_event w e))"
        using query_step_lifecycle(6) [OF ends(2)] assms queries_step(1) [OF ends(1)] by (simp add: gateway_ok_def)
      moreover have "guard_named l" using query_step_named [OF ends(2)] assms ends(1) by (simp add: gateway_ok_def)
      ultimately show ?thesis
        using assms quiet query_step_lifecycle(4) [OF ends(2)]
        unfolding run gateway_ok_def by (auto split: if_splits)
    next
      case (goes pc l pc')
      have run: "run_event w e = w\<lparr>gw_lifecycle := l, gw_threads := dict_set t (Query pc') (gw_threads w)\<rparr>"
        using Step goes(3) by (simp add: run_event_def)
      have "queries (run_event w e) = queries w"
        using queries_step(1) [OF goes(1)] by (auto simp: run queries_def)
      then have "lf_in_flight l = card (queries (run_event w e))"
        using query_step_lifecycle(7) [OF goes(2)] assms by (simp add: gateway_ok_def)
      moreover have "guard_named l \<and> pc_named pc'"
        using query_step_named [OF goes(2)] assms goes(1) by (simp add: gateway_ok_def)
      ultimately show ?thesis
        using assms quiet query_step_lifecycle(4) [OF goes(2)]
        unfolding run gateway_ok_def by (auto split: if_splits)
    next
      case (drains pc l pc')
      have run: "run_event w e = w\<lparr>gw_lifecycle := l, gw_threads := dict_set t (Drain pc') (gw_threads w)\<rparr>"
        using Step drains(3) by (simp add: run_event_def)
      have "queries (run_event w e) = queries w"
        using queries_step(2) [OF drains(1)] by (auto simp: run queries_def)
      then have "lf_in_flight l = card (queries (run_event w e))"
        using drain_step_lifecycle(1) [OF drains(2)] assms by (simp add: gateway_ok_def)
      moreover have "drain_ok l pc' \<and> (\<forall>outcome. lf_outcome l = Some outcome \<longrightarrow> released_ok l outcome)"
        using assms drains(1) by (intro drain_step_ok [OF drains(2)]) (simp_all add: gateway_ok_def)
      ultimately show ?thesis
        using assms quiet drain_step_lifecycle(7) [OF drains(2)]
        unfolding run gateway_ok_def by (auto split: if_splits)
    qed
  next
    case (CallDrain t timeout)
    then show ?thesis using start_drain_thread_ok [OF assms] by (simp add: run_event_def)
  next
    case (CallShutdown t timeout)
    then show ?thesis using start_drain_thread_ok [OF assms] by (simp add: run_event_def)
  qed (use assms quiet in \<open>auto simp: run_event_def gateway_ok_def guard_named_def
      mark_sdk_initialized_def mark_query_available_def mark_control_available_def\<close>)
qed

lemma make_lifecycle_ok:
  assumes "make_lifecycle g timeout = Inr l" "case g of None \<Rightarrow> True | Some h \<Rightarrow> held h = []"
  shows "gateway_ok \<lparr>gw_lifecycle = l, gw_threads = [], gw_now = now\<rparr>"
proof -
  obtain s where "drain_seconds timeout = Inr s"
    using assms(1) by (cases "drain_seconds timeout") (simp_all add: make_lifecycle_def)
  with assms(1) have "lf_guard l = g" "lf_in_flight l = 0" "lf_outcome l = None" by (auto simp: make_lifecycle_def)
  with assms(2) show ?thesis
    by (cases g) (simp_all add: gateway_ok_def queries_def guard_named_def names_ok_def held_names_def)
qed

lemma reachable_gateway_ok: "reachable_gateway w \<Longrightarrow> gateway_ok w"
  by (induction rule: reachable_gateway.induct) (simp_all add: make_lifecycle_ok gateway_ok_event)

lemma run_events_Nil [simp]: "run_events w [] = w"
  by (simp add: run_events_def)

lemma run_events_Cons [simp]: "run_events w (e # es) = run_events (run_event w e) es"
  by (simp add: run_events_def)

lemma run_events_append: "run_events w (es @ fs) = run_events (run_events w es) fs"
  by (simp add: run_events_def)

lemma reachable_events: "reachable_gateway w \<Longrightarrow> reachable_gateway (run_events w es)"
  by (induction es arbitrary: w) (simp_all add: reachable_gateway.runs)

lemma gateway_ok_events: "gateway_ok w \<Longrightarrow> gateway_ok (run_events w es)"
  by (induction es arbitrary: w) (simp_all add: gateway_ok_event)

lemma quieter_refl [simp]: "quieter l l"
  by (simp add: quieter_def)

lemma quieter_trans: "quieter l m \<Longrightarrow> quieter m n \<Longrightarrow> quieter l n"
  by (auto simp: quieter_def)

lemma events_quieter: "gateway_ok w \<Longrightarrow> quieter (gw_lifecycle w) (gw_lifecycle (run_events w es))"
proof (induction es arbitrary: w)
  case (Cons e es)
  show ?case
    using quieter_trans [OF event_quieter [OF Cons.prems] Cons.IH [OF gateway_ok_event [OF Cons.prems]]] by simp
qed simp

section \<open>The queries are counted\<close>

text \<open>The admissions among some events.\<close>

definition admits :: "gateway \<Rightarrow> event \<Rightarrow> bool" where
  "admits w e =
     (case e of CallQuery t \<Rightarrow> \<not> lf_draining (gw_lifecycle w) \<and> \<not> dict_has (gw_threads w) t | _ \<Rightarrow> False)"

fun admissions :: "gateway \<Rightarrow> event list \<Rightarrow> nat" where
  "admissions w [] = 0"
| "admissions w (e # es) = (if admits w e then 1 else 0) + admissions (run_event w e) es"

lemma event_counts:
  assumes "gateway_ok w"
  shows "lf_finished (gw_lifecycle (run_event w e)) + lf_in_flight (gw_lifecycle (run_event w e))
    = lf_finished (gw_lifecycle w) + lf_in_flight (gw_lifecycle w) + (if admits w e then 1 else 0)"
proof (cases e)
  case (Step t outcome)
  show ?thesis
  proof (cases rule: step_thread_cases [where t = t and outcome = outcome and w = w])
    case nobody
    then show ?thesis using Step by (simp add: run_event_def admits_def)
  next
    case (ends pc l)
    then show ?thesis
      using Step gateway_ok_in_flight [OF assms queries_step(1) [OF ends(1)]] query_step_lifecycle(6) [OF ends(2)]
      by (simp add: run_event_def admits_def)
  next
    case (goes pc l pc')
    then show ?thesis
      using Step query_step_lifecycle(7) [OF goes(2)] by (simp add: run_event_def admits_def)
  next
    case (drains pc l pc')
    then show ?thesis using Step drain_step_lifecycle [OF drains(2)] by (simp add: run_event_def admits_def)
  qed
qed (auto simp: run_event_def admits_def admit_query_def start_thread_def mark_sdk_initialized_def
    mark_query_available_def mark_control_available_def)

lemma events_count:
  "gateway_ok w \<Longrightarrow>
     lf_finished (gw_lifecycle (run_events w es)) + lf_in_flight (gw_lifecycle (run_events w es))
       = lf_finished (gw_lifecycle w) + lf_in_flight (gw_lifecycle w) + admissions w es"
proof (induction es arbitrary: w)
  case (Cons e es)
  show ?case using Cons.IH [OF gateway_ok_event [OF Cons.prems]] event_counts [OF Cons.prems, of e] by simp
qed simp

lemma event_queries: "\<not> admits w e \<Longrightarrow> queries (run_event w e) \<subseteq> queries w"
proof (cases e)
  case (Step t outcome)
  show ?thesis
    by (cases rule: step_thread_cases [where t = t and outcome = outcome and w = w])
      (auto simp: Step run_event_def queries_def split: if_splits)
qed (auto simp: run_event_def admits_def admit_query_def start_thread_def queries_def dict_has_def split: if_splits)

lemma draining_admits_nobody:
  assumes "gateway_ok w" "lf_draining (gw_lifecycle w)"
  shows "admissions w es = 0 \<and> lf_draining (gw_lifecycle (run_events w es)) \<and> queries (run_events w es) \<subseteq> queries w"
  using assms
proof (induction es arbitrary: w)
  case (Cons e es)
  have "\<not> admits w e" using Cons.prems(2) by (simp add: admits_def split: event.split)
  moreover have "lf_draining (gw_lifecycle (run_event w e))"
    using event_quieter [OF Cons.prems(1)] Cons.prems(2) by (simp add: quieter_def)
  note Cons.IH [OF gateway_ok_event [OF Cons.prems(1)] this]
  ultimately show ?case using event_queries [of w e] by auto
qed simp

text \<open>A query that no other thread disturbs, and whose waits end as waits do.\<close>

definition undisturbed :: "nat \<Rightarrow> event \<Rightarrow> bool" where
  "undisturbed t e =
     (case e of Step u (Waited r) \<Rightarrow> u = t | Step u (Unverified x) \<Rightarrow> False | CallQuery u \<Rightarrow> False | _ \<Rightarrow> True)"

definition admission_next :: "guard \<Rightarrow> string \<Rightarrow> lock_mode \<Rightarrow> (string \<times> lock_mode) list \<Rightarrow> bool" where
  "admission_next g name mode specs =
     (\<not> closed g \<and> held g @ (name, mode) # specs = READER_SPECS)"

fun alone_ok :: "guard \<Rightarrow> query_pc \<Rightarrow> bool" where
  "alone_ok g Entering = (held g = [])"
| "alone_ok g (Looking specs) = ((held g \<noteq> [] \<longrightarrow> \<not> closed g) \<and> held g @ specs = READER_SPECS)"
| "alone_ok g (Beginning name mode specs) = admission_next g name mode specs"
| "alone_ok g (Walking name mode specs n seen) = (admission_next g name mode specs \<and> n = length (held g))"
| "alone_ok g (Awaiting name mode specs) = admission_next g name mode specs"
| "alone_ok g (Recording name mode specs) = admission_next g name mode specs"
| "alone_ok g (Early names) =
     (names = [''admission.lock''] \<and> held g = READER_SPECS \<or> names = [] \<and> held_names g = [''data.lock''])"
| "alone_ok g Inside = (held_names g = [''data.lock''])"
| "alone_ok g (Undoing r e) = (case r of Popping ms \<Rightarrow> set (held_names g) \<subseteq> set ms | _ \<Rightarrow> True)"
| "alone_ok g (Closing r) = (case r of Popping ms \<Rightarrow> set (held_names g) \<subseteq> set ms | _ \<Rightarrow> True)"
| "alone_ok g (Leaving e) = (held_names g = [])"

lemma reader_position:
  assumes "held g @ (name, mode) # specs = READER_SPECS"
  shows "held g = [] \<and> name = ''admission.lock'' \<and> mode = Shared \<and> specs = [(''data.lock'', Shared)]
    \<or> held g = [(''admission.lock'', Shared)] \<and> name = ''data.lock'' \<and> mode = Shared \<and> specs = []"
  using assms by (cases "held g") (auto simp: READER_SPECS_def Cons_eq_append_conv append_eq_Cons_conv)

lemma reader_step_alone:
  assumes "reader_step (Waited r) g pc = (g', pc')" "alone_ok g pc"
  shows "alone_ok g' pc'"
proof (cases "(Waited r, g, pc)" rule: reader_step.cases)
  case (3 outcome g name mode specs)
  then show ?thesis using assms reader_position [of g name mode specs]
    by (auto simp: look_up_def admission_next_def LOCK_FILE_NAMES_def entry_fails_def held_names_def split: if_splits)
next
  case (5 outcome g name mode specs n seen)
  then have ready: "admission_next g name mode specs" "n = length (held g)"
    and step: "reader_step (Waited r) g (Walking name mode specs n seen) = (g', pc')"
    using assms by (simp, simp, metis prod.inject)
  show ?thesis
  proof (cases "walk_held g n seen")
    case SizeChanged
    then show ?thesis using ready(2) by (simp add: walk_held_def split: list.splits)
  next
    case WalkEnded
    then show ?thesis using step ready(1) by auto
  next
    case (Met already)
    then have "already \<in> set (held_names g)"
      by (auto simp: walk_held_def filter_eq_Cons_iff split: if_splits list.splits)
    then have "\<not> position already > position name"
      using ready(1) reader_position [of g name mode specs]
      by (auto simp: admission_next_def held_names_def position_values)
    then show ?thesis using step Met ready by auto
  qed
next
  case (6 outcome g name mode specs)
  then show ?thesis using assms
    by (auto simp: entry_fails_def release_start_def split: wait_result.splits)
next
  case (7 outcome g name mode specs)
  then show ?thesis using assms reader_position [of g name mode specs]
    by (auto simp: admission_next_def READER_SPECS_def)
next
  case (9 outcome h name names)
  then have pc: "pc = Early [''admission.lock'']" and h: "held g = READER_SPECS" using assms(2) by simp_all
  have "g' = g\<lparr>held := [(''data.lock'', Shared)]\<rparr> \<and> pc' = Early []"
    using assms(1) unfolding pc by (simp add: release_def h READER_SPECS_def)
  then show ?thesis by (simp add: held_names_def)
next
  case (11 outcome g x e)
  then show ?thesis using assms release_step_clears [of g x]
    by (fastforce split: prod.splits option.splits releasing.splits)
next
  case (12 outcome g x)
  then show ?thesis using assms release_step_clears [of g x]
    by (fastforce split: prod.splits option.splits releasing.splits)
qed (use assms in \<open>auto simp: admission_next_def release_start_def\<close>)

definition alone_gateway :: "nat \<Rightarrow> gateway \<Rightarrow> bool" where
  "alone_gateway t w =
     (case dict_get (gw_threads w) t of
        Some (Query pc) \<Rightarrow> (\<forall>g. lf_guard (gw_lifecycle w) = Some g \<longrightarrow> alone_ok g pc)
      | _ \<Rightarrow> guards_held (gw_lifecycle w) = [])"

lemma alone_step:
  assumes "alone_gateway t w"
  shows "alone_gateway t (step_thread t (Waited r) w)"
proof (cases rule: step_thread_cases [where t = t and outcome = "Waited r" and w = w])
  case nobody
  then show ?thesis using assms by simp
next
  case (ends pc l)
  obtain e where pc: "pc = Leaving e"
    using ends(2) by (cases pc) (auto simp: query_step_def split: option.splits prod.splits)
  then have "l = leave_query (gw_lifecycle w)" using ends(2) by (simp add: query_step_def)
  then show ?thesis using assms ends(1,3) pc
    by (auto simp: alone_gateway_def leave_query_def guards_held_def split: option.splits)
next
  case (goes pc l pc')
  show ?thesis
  proof (cases "lf_guard (gw_lifecycle w)")
    case None
    then show ?thesis using goes query_step_lifecycle(2) [OF goes(2)] by (simp add: alone_gateway_def)
  next
    case (Some g)
    obtain g' p where step: "reader_step (Waited r) g pc = (g', p)" by fastforce
    then have "lf_guard l = Some g' \<and> p = pc'"
      using goes(2) Some by (auto simp: query_step_def split: query_pc.splits)
    moreover have "alone_ok g pc" using assms goes(1) Some by (simp add: alone_gateway_def)
    ultimately show ?thesis using reader_step_alone [OF step] goes(3) by (simp add: alone_gateway_def)
  qed
next
  case (drains pc l pc')
  then show ?thesis using assms drain_step_lifecycle(6) [OF drains(2)] by (simp add: alone_gateway_def)
qed

lemma alone_events: "alone_gateway t w \<Longrightarrow> list_all (undisturbed t) es \<Longrightarrow> alone_gateway t (run_events w es)"
proof (induction es arbitrary: w)
  case (Cons e es)
  have "alone_gateway t (run_event w e)"
  proof (cases e)
    case (Step u outcome)
    then obtain r where "u = t" "outcome = Waited r" using Cons.prems(2) by (cases outcome) (auto simp: undisturbed_def)
    then show ?thesis using alone_step [OF Cons.prems(1)] Step by (simp add: run_event_def)
  qed (use Cons.prems in \<open>auto simp: undisturbed_def run_event_def start_thread_def alone_gateway_def dict_has_def
      guards_held_def mark_sdk_initialized_def mark_query_available_def mark_control_available_def
      split: option.splits thread.splits\<close>)
  then show ?case using Cons by simp
qed simp

definition ex_gateway :: gateway where
  "ex_gateway =
     \<lparr>gw_lifecycle =
        \<lparr>lf_guard = Some new_guard, lf_drain_timeout_s = 5, lf_in_flight = 0, lf_finished = 0, lf_cancelled = 0,
         lf_draining = False, lf_shutdown = False, lf_outcome = None, lf_sdk_initialized = False,
         lf_query_available = False, lf_query_detail = Some QUERY_NOT_WIRED,
         lf_control_available = False, lf_control_detail = Some CONTROL_NOT_WIRED\<rparr>,
      gw_threads = [], gw_now = 0\<rparr>"

lemma ex_gateway_reachable: "reachable_gateway ex_gateway"
  unfolding ex_gateway_def
  by (rule reachable_gateway.built [of "Some new_guard" "Some 5"])
    (simp_all add: make_lifecycle_def drain_seconds_def MAX_DRAIN_TIMEOUT_S_def new_guard_def)

text \<open>So many steps of one thread, whose waits succeed.\<close>

definition goes_on :: "nat \<Rightarrow> nat \<Rightarrow> event list" where
  "goes_on t n = replicate n (Step t (Waited Acquired))"

text \<open>A query in its body, and a second one admitted.\<close>

definition ex_busy :: gateway where
  "ex_busy = run_events ex_gateway (CallQuery 1 # goes_on 1 15 @ [CallQuery 2])"

lemma ex_busy_threads: "gw_threads ex_busy = [(1, Query Inside), (2, Query Entering)]"
  unfolding ex_busy_def by code_simp

lemma ex_busy_reachable: "reachable_gateway ex_busy"
  unfolding ex_busy_def by (rule reachable_events [OF ex_gateway_reachable])

text \<open>
  C37. In every gateway reached, however its threads interleave, the number of queries in flight is the number of
  queries there are; whatever happens next, the queries admitted and not yet finished are those in flight; and
  once a drain has started nobody is admitted any more. A query that enters while nothing is held and runs
  undisturbed holds the data guard alone in its body, and leaves nothing held when it has ended, however its
  waits end.
\<close>

theorem gateway_counts_its_queries:
  assumes "reachable_gateway w"
  shows "lf_in_flight (gw_lifecycle w) = card (queries w)
    \<and> lf_finished (gw_lifecycle (run_events w es)) + card (queries (run_events w es))
        = lf_finished (gw_lifecycle w) + card (queries w) + admissions w es
    \<and> (lf_draining (gw_lifecycle w) \<longrightarrow>
         lf_draining (gw_lifecycle (run_events w es)) \<and> admissions w es = 0 \<and> queries (run_events w es) \<subseteq> queries w)
    \<and> (guards_held (gw_lifecycle w) = [] \<and> \<not> dict_has (gw_threads w) t \<and> list_all (undisturbed t) es \<longrightarrow>
         (let w' = run_events w (CallQuery t # es)
          in (dict_get (gw_threads w') t = Some (Query Inside) \<longrightarrow>
                lf_guard (gw_lifecycle w') = None \<or> guards_held (gw_lifecycle w') = [''data.lock''])
             \<and> (t \<notin> queries w' \<longrightarrow> guards_held (gw_lifecycle w') = [])))"
proof -
  have ok: "gateway_ok w" "gateway_ok (run_events w es)"
    using reachable_gateway_ok [OF assms] by (simp_all add: gateway_ok_events)
  then have count: "lf_in_flight (gw_lifecycle w) = card (queries w)"
    "lf_in_flight (gw_lifecycle (run_events w es)) = card (queries (run_events w es))"
    by (simp_all add: gateway_ok_def)
  have "alone_gateway t (run_events w (CallQuery t # es))"
    if "guards_held (gw_lifecycle w) = []" "\<not> dict_has (gw_threads w) t" "list_all (undisturbed t) es"
  proof -
    have "alone_gateway t (run_event w (CallQuery t))"
      using that(1,2)
      by (auto simp: run_event_def admit_query_def start_thread_def alone_gateway_def dict_has_def guards_held_def
          held_names_def)
    then show ?thesis using alone_events [OF _ that(3)] by simp
  qed
  then have "let w' = run_events w (CallQuery t # es)
          in (dict_get (gw_threads w') t = Some (Query Inside) \<longrightarrow>
                lf_guard (gw_lifecycle w') = None \<or> guards_held (gw_lifecycle w') = [''data.lock''])
             \<and> (t \<notin> queries w' \<longrightarrow> guards_held (gw_lifecycle w') = [])"
    if "guards_held (gw_lifecycle w) = [] \<and> \<not> dict_has (gw_threads w) t \<and> list_all (undisturbed t) es"
    using that unfolding Let_def alone_gateway_def queries_def
    by (auto simp: guards_held_def split: option.splits thread.splits)
  with count events_count [OF ok(1), of es] draining_admits_nobody [OF ok(1), of es] show ?thesis by simp
qed

theorem gateway_counts_its_queries_witness:
  "lf_in_flight (gw_lifecycle ex_busy) = 2
   \<and> guards_held (gw_lifecycle (run_events ex_gateway (CallQuery 1 # goes_on 1 22))) = []"
proof -
  have two: "queries ex_busy = {1, 2}" by (auto simp: queries_def ex_busy_threads)
  have alone: "guards_held (gw_lifecycle ex_gateway) = [] \<and> \<not> dict_has (gw_threads ex_gateway) 1
      \<and> list_all (undisturbed 1) (goes_on 1 22)" by code_simp
  have "gw_threads (run_events ex_gateway (CallQuery 1 # goes_on 1 22)) = []" by code_simp
  then have "(1 :: nat) \<notin> queries (run_events ex_gateway (CallQuery 1 # goes_on 1 22))" by (simp add: queries_def)
  with gateway_counts_its_queries [OF ex_gateway_reachable, of "goes_on 1 22" 1] alone
  have "guards_held (gw_lifecycle (run_events ex_gateway (CallQuery 1 # goes_on 1 22))) = []"
    by (simp only: Let_def simp_thms)
  moreover have "lf_in_flight (gw_lifecycle ex_busy) = 2"
    using gateway_counts_its_queries [OF ex_busy_reachable] two by simp
  ultimately show ?thesis by blast
qed

section \<open>A drain returns\<close>

text \<open>The steps a drain has left, at most, once its deadline has passed.\<close>

fun releasing_rank :: "releasing \<Rightarrow> nat" where
  "releasing_rank (Testing names order) = 2 * length names + length order + 4"
| "releasing_rank (Popping names) = length names + 1"

fun drain_rank :: "drain_pc \<Rightarrow> nat" where
  "drain_rank (Asking timeout) = 27"
| "drain_rank (Starting sh timeout) = 26"
| "drain_rank (Budgeting sh timeout) = 25"
| "drain_rank (Timing sh started budget) = 24"
| "drain_rank (Watching sh started deadline) = 23"
| "drain_rank (Ended sh started remaining) = 22"
| "drain_rank (Cancelling sh elapsed remaining) = 21"
| "drain_rank (Freeing sh elapsed remaining r) = 12 + releasing_rank r"
| "drain_rank (Counting sh elapsed remaining) = 12"
| "drain_rank (Reporting sh elapsed remaining finished) = 11"
| "drain_rank (Clearing outcome r) = 2 + releasing_rank r"
| "drain_rank (Checking outcome) = 2"
| "drain_rank (Saving outcome) = 1"
| "drain_rank (Returned sh r) = 0"

lemma release_start_rank: "releasing_rank release_start = 8"
  by (simp add: release_start_def RELEASE_ORDER_def LOCK_FILE_NAMES_def)

lemma release_step_rank:
  assumes "names_ok g" "release_step g r = (g', Some r')"
  shows "releasing_rank r' < releasing_rank r"
proof (cases "(g, r)" rule: release_step.cases)
  case (1 h order)
  have "length (filter (\<lambda>n. n \<notin> set order) (rev (held_names g))) \<le> 2"
    using length_filter_le [of "\<lambda>n. n \<notin> set order" "rev (held_names g)"] names_ok_few [OF assms(1)] by simp
  then show ?thesis using assms 1 by auto
qed (use assms in \<open>auto split: if_splits\<close>)

lemma releasing_rank_pos: "0 < releasing_rank r"
  by (cases r) simp_all

text \<open>The deadline of a drain is set, and not after \<open>latest\<close>.\<close>

fun due_by :: "rat \<Rightarrow> drain_pc \<Rightarrow> bool" where
  "due_by latest (Asking timeout) = False"
| "due_by latest (Starting sh timeout) = False"
| "due_by latest (Budgeting sh timeout) = False"
| "due_by latest (Timing sh started budget) = False"
| "due_by latest (Watching sh started deadline) = (deadline \<le> latest)"
| "due_by latest pc = True"

text \<open>The steps left until the deadline is set.\<close>

fun undecided :: "drain_pc \<Rightarrow> nat" where
  "undecided (Starting sh timeout) = 3"
| "undecided (Budgeting sh timeout) = 2"
| "undecided (Timing sh started budget) = 1"
| "undecided pc = 0"

lemma release_step_moves: "release_step g r = (g', r') \<Longrightarrow> r' \<noteq> Some r"
  by (cases "(g, r)" rule: release_step.cases) auto

lemma drain_step_less:
  assumes "guard_named l" "drain_step now l pc = (l', pc')"
  shows "drain_rank pc' < drain_rank pc \<or> pc' = pc"
proof (cases "\<exists>r. (\<exists>sh elapsed remaining. pc = Freeing sh elapsed remaining r) \<or> (\<exists>outcome. pc = Clearing outcome r)")
  case True
  then obtain r where r: "(\<exists>sh elapsed remaining. pc = Freeing sh elapsed remaining r) \<or> (\<exists>outcome. pc = Clearing outcome r)"
    by blast
  show ?thesis
  proof (cases "lf_guard l")
    case None
    then show ?thesis using assms(2) r releasing_rank_pos [of r] by auto
  next
    case (Some g)
    then have named: "names_ok g" using assms(1) by (simp add: guard_named_def)
    obtain g' r' where step: "release_step g r = (g', r')" by fastforce
    show ?thesis
      using assms(2) r Some step releasing_rank_pos [of r] release_step_rank [OF named, of r g']
      by (cases r') auto
  qed
next
  case False
  then show ?thesis using assms(2)
    by (cases "(now, l, pc)" rule: drain_step.cases)
      (auto simp: Let_def release_start_rank split: if_splits option.splits sum.splits)
qed

lemma drain_step_due:
  assumes "drain_step now l pc = (l', pc')" "due_by latest pc"
  shows "due_by latest pc' \<and> (latest \<le> now \<longrightarrow> pc' = pc \<longrightarrow> drain_rank pc = 0)"
proof -
  have "due_by latest pc'"
    using assms by (cases "(now, l, pc)" rule: drain_step.cases)
      (auto simp: Let_def split: if_splits option.splits prod.splits)
  moreover have "drain_rank pc = 0" if "latest \<le> now" "pc' = pc"
    using assms that by (cases "(now, l, pc)" rule: drain_step.cases)
      (auto simp: Let_def split: if_splits option.splits prod.splits dest: release_step_moves)
  ultimately show ?thesis by blast
qed

text \<open>A call of \<open>shutdown\<close> with a budget that stands; the cancelled had that long.\<close>

fun on_time :: "rat option option \<Rightarrow> rat \<Rightarrow> rat \<Rightarrow> drain_pc \<Rightarrow> bool" where
  "on_time timeout budget now (Asking v) = False"
| "on_time timeout budget now (Starting sh v) = (sh \<and> v = timeout)"
| "on_time timeout budget now (Budgeting sh v) = (sh \<and> v = timeout)"
| "on_time timeout budget now (Timing sh started b) = (sh \<and> b = budget \<and> started \<le> now)"
| "on_time timeout budget now (Watching sh started deadline) = 
     (sh \<and> started + budget \<le> deadline \<and> deadline \<le> now + budget)"
| "on_time timeout budget now (Ended sh started remaining) = (sh \<and> (remaining \<noteq> 0 \<longrightarrow> started + budget \<le> now))"
| "on_time timeout budget now (Cancelling sh elapsed remaining) = (sh \<and> (remaining \<noteq> 0 \<longrightarrow> budget \<le> elapsed))"
| "on_time timeout budget now (Freeing sh elapsed remaining r) = (sh \<and> (remaining \<noteq> 0 \<longrightarrow> budget \<le> elapsed))"
| "on_time timeout budget now (Counting sh elapsed remaining) = (sh \<and> (remaining \<noteq> 0 \<longrightarrow> budget \<le> elapsed))"
| "on_time timeout budget now (Reporting sh elapsed remaining n) = (sh \<and> (remaining \<noteq> 0 \<longrightarrow> budget \<le> elapsed))"
| "on_time timeout budget now (Clearing outcome r) = (do_remaining outcome \<noteq> 0 \<longrightarrow> budget \<le> do_elapsed_s outcome)"
| "on_time timeout budget now (Checking outcome) = (do_remaining outcome \<noteq> 0 \<longrightarrow> budget \<le> do_elapsed_s outcome)"
| "on_time timeout budget now (Saving outcome) = (do_remaining outcome \<noteq> 0 \<longrightarrow> budget \<le> do_elapsed_s outcome)"
| "on_time timeout budget now (Returned sh (Inr outcome)) =
     (sh \<and> (do_remaining outcome \<noteq> 0 \<longrightarrow> budget \<le> do_elapsed_s outcome))"
| "on_time timeout budget now (Returned sh (Inl e)) = False"

lemma on_time_later: "on_time timeout budget now pc \<Longrightarrow> now \<le> now' \<Longrightarrow> on_time timeout budget now' pc"
  by (cases "(timeout, budget, now, pc)" rule: on_time.cases) auto

lemma drain_step_on_time:
  assumes "drain_step now l pc = (l', pc')" "on_time timeout budget now pc" "resolve_budget timeout l = Inr budget"
  shows "on_time timeout budget now pc'"
proof (cases "(now, l, pc)" rule: drain_step.cases)
  case (3 now' m sh v)
  then show ?thesis using assms by auto
next
  case (5 now' m sh started deadline)
  then show ?thesis using assms by (auto split: if_splits)
next
  case (8 now' m sh elapsed remaining r)
  then show ?thesis using assms by (auto split: option.splits prod.splits)
next
  case (10 now' m sh elapsed remaining finished)
  then show ?thesis using assms by (auto simp: Let_def made_outcome_def split: if_splits)
next
  case (11 now' m outcome r)
  then show ?thesis using assms by (auto split: option.splits prod.splits)
qed (use assms in \<open>auto split: if_splits\<close>)

lemma drain_step_decides:
  assumes "drain_step now l pc = (l', pc')" "on_time timeout budget now pc" "resolve_budget timeout l = Inr budget"
  shows "undecided pc' = undecided pc - 1"
  using assms by (cases "(now, l, pc)" rule: drain_step.cases)
    (auto simp: Let_def split: if_splits option.splits prod.splits)

lemma drain_step_bounded:
  assumes "drain_step now l pc = (l', pc')" "on_time timeout budget now pc" "resolve_budget timeout l = Inr budget"
    "guard_named l" "drain_rank pc \<le> 23 + undecided pc"
  shows "drain_rank pc' \<le> 23 + undecided pc'"
proof (cases "undecided pc = 0")
  case True
  then show ?thesis using drain_step_less [OF assms(4,1)] assms(5) by auto
next
  case False
  then show ?thesis using assms(1-3) by (cases pc) auto
qed

lemma decided_due: "on_time timeout budget now pc \<Longrightarrow> undecided pc = 0 \<Longrightarrow> due_by (now + budget) pc"
  by (cases "(timeout, budget, now, pc)" rule: on_time.cases) auto

lemma due_by_later: "due_by a pc \<Longrightarrow> a \<le> b \<Longrightarrow> due_by b pc"
  by (cases "(a, pc)" rule: due_by.cases) auto

text \<open>What an event does to a thread that drains: its own step, or nothing.\<close>

definition own_step :: "nat \<Rightarrow> event \<Rightarrow> bool" where
  "own_step t e = (case e of Step u outcome \<Rightarrow> u = t | _ \<Rightarrow> False)"

fun steps_of :: "nat \<Rightarrow> event list \<Rightarrow> nat" where
  "steps_of t [] = 0"
| "steps_of t (e # es) = (if own_step t e then 1 else 0) + steps_of t es"

lemma event_drain:
  assumes "dict_get (gw_threads w) t = Some (Drain pc)"
  shows "own_step t e \<Longrightarrow>
      run_event w e = w\<lparr>gw_lifecycle := fst (drain_step (gw_now w) (gw_lifecycle w) pc),
        gw_threads := dict_set t (Drain (snd (drain_step (gw_now w) (gw_lifecycle w) pc))) (gw_threads w)\<rparr>"
    "\<not> own_step t e \<Longrightarrow> dict_get (gw_threads (run_event w e)) t = Some (Drain pc)"
proof -
  show "run_event w e = w\<lparr>gw_lifecycle := fst (drain_step (gw_now w) (gw_lifecycle w) pc),
        gw_threads := dict_set t (Drain (snd (drain_step (gw_now w) (gw_lifecycle w) pc))) (gw_threads w)\<rparr>"
    if "own_step t e"
    using that assms by (auto simp: own_step_def run_event_def step_thread_def split_beta split: event.splits)
  show "dict_get (gw_threads (run_event w e)) t = Some (Drain pc)" if "\<not> own_step t e"
  proof (cases e)
    case (Step u outcome)
    then have "u \<noteq> t" using that by (simp add: own_step_def)
    then show ?thesis using Step assms
      by (cases rule: step_thread_cases [where t = u and outcome = outcome and w = w]) (simp_all add: run_event_def)
  qed (use assms in \<open>auto simp: run_event_def start_thread_def admit_query_def dict_has_def\<close>)
qed

lemma event_time: "gw_now w \<le> gw_now (run_event w e)"
proof (cases e)
  case (Step t outcome)
  then show ?thesis
    by (cases rule: step_thread_cases [where t = t and outcome = outcome and w = w]) (simp_all add: run_event_def)
qed (auto simp: run_event_def start_thread_def admit_query_def)

lemma event_budget:
  "lf_drain_timeout_s (gw_lifecycle (run_event w e)) = lf_drain_timeout_s (gw_lifecycle w)"
proof (cases e)
  case (Step t outcome)
  then show ?thesis
    by (cases rule: step_thread_cases [where t = t and outcome = outcome and w = w])
      (simp_all add: run_event_def query_step_lifecycle(5) drain_step_lifecycle(5))
qed (auto simp: run_event_def start_thread_def admit_query_def mark_sdk_initialized_def mark_query_available_def
    mark_control_available_def)

lemma resolve_budget_same:
  "lf_drain_timeout_s l' = lf_drain_timeout_s l \<Longrightarrow> resolve_budget timeout l' = resolve_budget timeout l"
  by (simp add: resolve_budget_def split: option.split)

text \<open>The call in thread \<open>t\<close> is on time, and has so many steps to go to its deadline, or from it to its end.\<close>

definition calls_shutdown :: "nat \<Rightarrow> rat option option \<Rightarrow> rat \<Rightarrow> gateway \<Rightarrow> drain_pc \<Rightarrow> bool" where
  "calls_shutdown t timeout budget w pc =
     (gateway_ok w \<and> resolve_budget timeout (gw_lifecycle w) = Inr budget
      \<and> dict_get (gw_threads w) t = Some (Drain pc) \<and> on_time timeout budget (gw_now w) pc
      \<and> drain_rank pc \<le> 23 + undecided pc)"

lemma calls_shutdown_event:
  assumes "calls_shutdown t timeout budget w pc"
  obtains pc' where "calls_shutdown t timeout budget (run_event w e) pc'" "\<not> own_step t e \<Longrightarrow> pc' = pc"
    "own_step t e \<Longrightarrow> pc' = snd (drain_step (gw_now w) (gw_lifecycle w) pc)"
proof -
  have w: "gateway_ok w" "resolve_budget timeout (gw_lifecycle w) = Inr budget"
    "dict_get (gw_threads w) t = Some (Drain pc)" "on_time timeout budget (gw_now w) pc"
    "drain_rank pc \<le> 23 + undecided pc"
    using assms by (simp_all add: calls_shutdown_def)
  have "resolve_budget timeout (gw_lifecycle (run_event w e)) = Inr budget"
    using resolve_budget_same [OF event_budget] w(2) by metis
  note kept = gateway_ok_event [OF w(1), of e] this
  show thesis
  proof (cases "own_step t e")
    case False
    have "calls_shutdown t timeout budget (run_event w e) pc"
      using kept event_drain(2) [OF w(3) False] on_time_later [OF w(4) event_time] w(5) by (simp add: calls_shutdown_def)
    then show thesis using that False by blast
  next
    case True
    obtain l pc' where step: "drain_step (gw_now w) (gw_lifecycle w) pc = (l, pc')" by fastforce
    have "calls_shutdown t timeout budget (run_event w e) pc'"
      using kept drain_step_on_time [OF step w(4,2)]
        drain_step_bounded [OF step w(4,2) _ w(5)] w(1)
      unfolding event_drain(1) [OF w(3) True] step by (simp add: calls_shutdown_def gateway_ok_def)
    then show thesis using that True step by simp
  qed
qed

lemma shutdown_decides:
  assumes "calls_shutdown t timeout budget w pc" "undecided pc \<le> steps_of t es"
  shows "\<exists>pc'. calls_shutdown t timeout budget (run_events w es) pc' \<and> undecided pc' = 0"
  using assms
proof (induction es arbitrary: w pc)
  case (Cons e es)
  obtain pc' where pc': "calls_shutdown t timeout budget (run_event w e) pc'" "\<not> own_step t e \<Longrightarrow> pc' = pc"
    "own_step t e \<Longrightarrow> pc' = snd (drain_step (gw_now w) (gw_lifecycle w) pc)"
    using calls_shutdown_event [OF Cons.prems(1)] by blast
  have "undecided pc' \<le> steps_of t es"
  proof (cases "own_step t e")
    case True
    have "undecided pc' = undecided pc - 1"
      using drain_step_decides [of "gw_now w" "gw_lifecycle w" pc _ pc' timeout budget] pc'(3) [OF True] Cons.prems(1)
      by (simp add: calls_shutdown_def prod_eq_iff)
    then show ?thesis using Cons.prems(2) True by simp
  qed (use pc'(2) Cons.prems(2) in simp)
  from Cons.IH [OF pc'(1) this] show ?case by simp
qed auto

lemma shutdown_ends:
  assumes "calls_shutdown t timeout budget w pc" "due_by latest pc" "latest \<le> gw_now w" "drain_rank pc \<le> steps_of t es"
  shows "\<exists>pc'. calls_shutdown t timeout budget (run_events w es) pc' \<and> drain_rank pc' = 0"
  using assms
proof (induction es arbitrary: w pc)
  case (Cons e es)
  obtain pc' where pc': "calls_shutdown t timeout budget (run_event w e) pc'" "\<not> own_step t e \<Longrightarrow> pc' = pc"
    "own_step t e \<Longrightarrow> pc' = snd (drain_step (gw_now w) (gw_lifecycle w) pc)"
    using calls_shutdown_event [OF Cons.prems(1)] by blast
  have later: "latest \<le> gw_now (run_event w e)" using Cons.prems(3) event_time by (rule order_trans)
  have "due_by latest pc' \<and> drain_rank pc' \<le> steps_of t es"
  proof (cases "own_step t e")
    case True
    have "guard_named (gw_lifecycle w)" using Cons.prems(1) by (simp add: calls_shutdown_def gateway_ok_def)
    from drain_step_less [OF this, of "gw_now w" pc "fst (drain_step (gw_now w) (gw_lifecycle w) pc)" pc']
      drain_step_due [of "gw_now w" "gw_lifecycle w" pc "fst (drain_step (gw_now w) (gw_lifecycle w) pc)" pc' latest]
    have "due_by latest pc' \<and> (drain_rank pc' < drain_rank pc \<or> drain_rank pc' = 0)"
      using pc'(3) [OF True] Cons.prems(2,3) by auto
    then show ?thesis using Cons.prems(4) True by auto
  qed (use pc'(2) Cons.prems(2,4) in simp)
  from Cons.IH [OF pc'(1) _ later] this show ?case by simp
qed auto

lemma events_time: "gw_now w \<le> gw_now (run_events w es)"
proof (induction es arbitrary: w)
  case (Cons e es)
  show ?case using order_trans [OF event_time Cons.IH] by simp
qed simp

lemma shutdown_stays_decided:
  assumes "calls_shutdown t timeout budget w pc" "due_by latest pc" "undecided pc = 0"
  shows "\<exists>pc'. calls_shutdown t timeout budget (run_events w es) pc' \<and> due_by latest pc' \<and> undecided pc' = 0"
  using assms
proof (induction es arbitrary: w pc)
  case (Cons e es)
  obtain pc' where pc': "calls_shutdown t timeout budget (run_event w e) pc'" "\<not> own_step t e \<Longrightarrow> pc' = pc"
    "own_step t e \<Longrightarrow> pc' = snd (drain_step (gw_now w) (gw_lifecycle w) pc)"
    using calls_shutdown_event [OF Cons.prems(1)] by blast
  have "due_by latest pc' \<and> undecided pc' = 0"
  proof (cases "own_step t e")
    case True
    then have step: "drain_step (gw_now w) (gw_lifecycle w) pc = (fst (drain_step (gw_now w) (gw_lifecycle w) pc), pc')"
      using pc'(3) by simp
    show ?thesis
      using drain_step_due [OF step Cons.prems(2)] drain_step_decides [OF step] Cons.prems(1,3)
      by (auto simp: calls_shutdown_def)
  qed (use pc'(2) Cons.prems in simp)
  with Cons.IH [OF pc'(1)] show ?case by simp
qed auto

section \<open>The outcome is final\<close>

text \<open>A call of shutdown that has asked and will store an outcome.\<close>

fun stores :: "drain_pc \<Rightarrow> bool" where
  "stores (Asking timeout) = False"
| "stores (Starting sh timeout) = sh"
| "stores (Budgeting sh timeout) = sh"
| "stores (Timing sh started budget) = sh"
| "stores (Watching sh started deadline) = sh"
| "stores (Ended sh started remaining) = sh"
| "stores (Cancelling sh elapsed remaining) = sh"
| "stores (Freeing sh elapsed remaining r) = sh"
| "stores (Counting sh elapsed remaining) = sh"
| "stores (Reporting sh elapsed remaining finished) = sh"
| "stores (Returned sh r) = False"
| "stores pc = True"

definition asks :: "drain_pc \<Rightarrow> bool" where
  "asks pc = (case pc of Asking timeout \<Rightarrow> True | _ \<Rightarrow> False)"

lemma drain_step_stores:
  assumes "drain_step now l pc = (l', pc')"
  shows "\<not> stores pc \<Longrightarrow> lf_outcome l' = lf_outcome l \<and> lf_shutdown l' = lf_shutdown l"
    "\<not> stores pc \<Longrightarrow> \<not> asks pc \<Longrightarrow> \<not> stores pc' \<and> \<not> asks pc'"
    "\<not> stores pc \<Longrightarrow> lf_shutdown l \<Longrightarrow> lf_outcome l \<noteq> None \<Longrightarrow> \<not> stores pc' \<and> \<not> asks pc'"
    "pc' = Returned True (Inr outcome) \<Longrightarrow> pc = pc' \<or> lf_shutdown l' \<and> lf_outcome l' = Some outcome"
  using assms
  by (cases "(now, l, pc)" rule: drain_step.cases;
      auto simp: asks_def start_drain_def Let_def split: if_splits option.splits prod.splits sum.splits)+

lemma other_events_outcome:
  assumes "\<And>t outcome. e \<noteq> Step t outcome"
  shows "lf_outcome (gw_lifecycle (run_event w e)) = lf_outcome (gw_lifecycle w)"
    "lf_shutdown (gw_lifecycle (run_event w e)) = lf_shutdown (gw_lifecycle w)"
  using assms by (cases e; auto simp: run_event_def start_thread_def admit_query_def mark_sdk_initialized_def
      mark_query_available_def mark_control_available_def)+

text \<open>No call but the one in thread \<open>t\<close> stores, and what it returned is what is stored.\<close>

definition sole_shutdown :: "nat \<Rightarrow> gateway \<Rightarrow> bool" where
  "sole_shutdown t w =
     (\<forall>u pc. u \<noteq> t \<longrightarrow> dict_get (gw_threads w) u = Some (Drain pc) \<longrightarrow> \<not> stores pc \<and> \<not> asks pc)"

definition kept_outcome :: "nat \<Rightarrow> gateway \<Rightarrow> bool" where
  "kept_outcome t w =
     (sole_shutdown t w \<and>
      (\<forall>outcome. dict_get (gw_threads w) t = Some (Drain (Returned True (Inr outcome))) \<longrightarrow>
         lf_shutdown (gw_lifecycle w) \<and> lf_outcome (gw_lifecycle w) = Some outcome))"

definition calls_no_shutdown :: "event \<Rightarrow> bool" where
  "calls_no_shutdown e = (case e of CallShutdown u timeout \<Rightarrow> False | _ \<Rightarrow> True)"

lemma kept_outcome_event:
  assumes "kept_outcome t w" "calls_no_shutdown e"
  shows "kept_outcome t (run_event w e)"
proof (cases "\<exists>u outcome. e = Step u outcome")
  case False
  then have same: "lf_outcome (gw_lifecycle (run_event w e)) = lf_outcome (gw_lifecycle w)"
    "lf_shutdown (gw_lifecycle (run_event w e)) = lf_shutdown (gw_lifecycle w)"
    using other_events_outcome [of e w] by blast+
  have old: "dict_get (gw_threads w) u = Some (Drain pc)"
    if "dict_get (gw_threads (run_event w e)) u = Some (Drain pc)" "stores pc \<or> asks pc \<or> (\<exists>r. pc = Returned True r)" for u pc
    using that False assms(2)
    by (cases e) (auto simp: run_event_def start_thread_def admit_query_def calls_no_shutdown_def asks_def split: if_splits)
  have "sole_shutdown t (run_event w e)"
    using assms(1) old unfolding kept_outcome_def sole_shutdown_def by blast
  moreover have "dict_get (gw_threads w) t = Some (Drain (Returned True (Inr outcome)))"
    if "dict_get (gw_threads (run_event w e)) t = Some (Drain (Returned True (Inr outcome)))" for outcome
    using old [OF that] by blast
  ultimately show ?thesis using assms(1) unfolding kept_outcome_def same by blast
next
  case True
  then obtain u outcome where e: "e = Step u outcome" by blast
  show ?thesis
  proof (cases rule: step_thread_cases [where t = u and outcome = outcome and w = w])
    case (drains pc l pc')
    note keeps = drain_step_stores [OF drains(2)]
    show ?thesis using assms(1) keeps drains unfolding e
      by (cases "u = t") (auto simp: kept_outcome_def sole_shutdown_def run_event_def)
  qed (use assms(1) in \<open>auto simp: e kept_outcome_def sole_shutdown_def run_event_def
        dest: query_step_lifecycle(3,4)\<close>)
qed

text \<open>An outcome is settled: it is stored, and no call under way will store another.\<close>

definition settled :: "drain_outcome \<Rightarrow> gateway \<Rightarrow> bool" where
  "settled outcome w =
     (lf_shutdown (gw_lifecycle w) \<and> lf_outcome (gw_lifecycle w) = Some outcome
      \<and> (\<forall>u pc. dict_get (gw_threads w) u = Some (Drain pc) \<longrightarrow> \<not> stores pc))"

lemma settled_event:
  assumes "settled outcome w"
  shows "settled outcome (run_event w e)"
proof (cases "\<exists>u a. e = Step u a")
  case False
  then have "settled outcome (run_event w e) \<longleftrightarrow>
      (\<forall>u pc. dict_get (gw_threads (run_event w e)) u = Some (Drain pc) \<longrightarrow> \<not> stores pc)"
    using other_events_outcome [of e w] assms unfolding settled_def by metis
  then show ?thesis using False assms
    by (cases e) (auto simp: settled_def run_event_def start_thread_def admit_query_def)
next
  case True
  then obtain u a where e: "e = Step u a" by blast
  show ?thesis
  proof (cases rule: step_thread_cases [where t = u and outcome = a and w = w])
    case (drains pc l pc')
    show ?thesis using assms drain_step_stores [OF drains(2)] drains
      by (auto simp: e settled_def run_event_def)
  qed (use assms in \<open>auto simp: e settled_def run_event_def dest: query_step_lifecycle(3,4)\<close>)
qed

lemma settled_events: "settled outcome w \<Longrightarrow> settled outcome (run_events w es)"
  by (induction es arbitrary: w) (simp_all add: settled_event)

lemma kept_outcome_events:
  "kept_outcome t w \<Longrightarrow> list_all calls_no_shutdown es \<Longrightarrow> kept_outcome t (run_events w es)"
  by (induction es arbitrary: w) (simp_all add: kept_outcome_event)

lemma settled_answers:
  assumes "settled outcome w" "dict_get (gw_threads w) u = Some (Drain (Asking v))"
  shows "run_event w (Step u a) = w\<lparr>gw_threads := dict_set u (Drain (Returned True (Inr outcome))) (gw_threads w)\<rparr>"
  using assms by (simp add: settled_def run_event_def step_thread_def)

lemma shutdown_returned:
  assumes "calls_shutdown t timeout budget w pc" "drain_rank pc = 0"
  obtains outcome where "dict_get (gw_threads w) t = Some (Drain (Returned True (Inr outcome)))"
    "do_remaining outcome \<noteq> 0 \<Longrightarrow> budget \<le> do_elapsed_s outcome" "released_ok (gw_lifecycle w) outcome"
proof -
  have w: "gateway_ok w" "dict_get (gw_threads w) t = Some (Drain pc)" "on_time timeout budget (gw_now w) pc"
    using assms(1) by (simp_all add: calls_shutdown_def)
  obtain sh r where pc: "pc = Returned sh r" using assms(2) by (cases pc) (use releasing_rank_pos in simp_all)
  then obtain outcome where "pc = Returned True (Inr outcome)" "do_remaining outcome \<noteq> 0 \<Longrightarrow> budget \<le> do_elapsed_s outcome"
    using w(3) by (cases r) auto
  moreover from this have "drain_ok (gw_lifecycle w) (Returned True (Inr outcome))"
    using w(1,2) unfolding gateway_ok_def by blast
  ultimately show thesis using that [of outcome] w(2) by simp
qed

lemma drained_for_good:
  assumes "gateway_ok w" "released_ok (gw_lifecycle w) outcome" "do_drained outcome"
  shows "lf_in_flight (gw_lifecycle (run_events w es)) = 0 \<and> guards_held (gw_lifecycle (run_events w es)) = []"
  using released_ok_quieter [OF events_quieter [OF assms(1)] assms(2), of es] assms(3)
  by (simp add: released_ok_def outcome_ok_def)

text \<open>
  C10. A shutdown whose budget stands returns, whatever the other threads do and whenever they do it: after three
  of its own steps its deadline is set, and once the clock has passed the budget another twenty-three end it.
  What it then says is true: it cancelled what remained, it did not cut a query short before its budget had
  passed, and no query is admitted any more. When it says it drained, no query is in flight and no guard is
  held, then and ever after. Unless another shutdown was under way, its outcome is stored for good, and a later
  call returns it at its first step, and changes nothing.
\<close>

theorem shutdown_is_final:
  assumes "reachable_gateway w" "dict_get (gw_threads w) t = Some (Drain (Starting True timeout))"
    "resolve_budget timeout (gw_lifecycle w) = Inr budget"
    "w1 = run_events w calls" "3 \<le> steps_of t calls"
    "w2 = run_events w1 waits" "gw_now w1 + budget \<le> gw_now w2"
    "w3 = run_events w2 ends" "23 \<le> steps_of t ends"
  shows "\<exists>out. dict_get (gw_threads w3) t = Some (Drain (Returned True (Inr out)))
    \<and> do_cancelled out = do_remaining out \<and> do_drained out = (do_remaining out = 0)
    \<and> (\<not> do_drained out \<longrightarrow> budget \<le> do_elapsed_s out)
    \<and> (\<forall>es. lf_draining (gw_lifecycle (run_events w3 es)) \<and> queries (run_events w3 es) \<subseteq> queries w3)
    \<and> (do_drained out \<longrightarrow> do_guards_held out = [] \<and>
         (\<forall>es. lf_in_flight (gw_lifecycle (run_events w3 es)) = 0 \<and> guards_held (gw_lifecycle (run_events w3 es)) = []))
    \<and> (sole_shutdown t w \<and> list_all calls_no_shutdown (calls @ waits @ ends) \<longrightarrow>
         (\<forall>es. lf_outcome (gw_lifecycle (run_events w3 es)) = Some out
            \<and> (\<forall>u v a. dict_get (gw_threads (run_events w3 es)) u = Some (Drain (Asking v)) \<longrightarrow>
                 run_event (run_events w3 es) (Step u a) = (run_events w3 es)
                   \<lparr>gw_threads := dict_set u (Drain (Returned True (Inr out))) (gw_threads (run_events w3 es))\<rparr>)))"
proof -
  have "calls_shutdown t timeout budget w (Starting True timeout)"
    using assms(2,3) reachable_gateway_ok [OF assms(1)] by (simp add: calls_shutdown_def)
  then obtain pc1 where pc1: "calls_shutdown t timeout budget w1 pc1" "undecided pc1 = 0"
    using shutdown_decides [of t timeout budget w _ calls] assms(5) unfolding assms(4) by fastforce
  then have "due_by (gw_now w1 + budget) pc1"
    using decided_due [of timeout budget "gw_now w1" pc1] by (simp add: calls_shutdown_def)
  then obtain pc2 where pc2: "calls_shutdown t timeout budget w2 pc2" "due_by (gw_now w1 + budget) pc2" "undecided pc2 = 0"
    using shutdown_stays_decided [OF pc1(1) _ pc1(2)] unfolding assms(6) by blast
  then have "drain_rank pc2 \<le> steps_of t ends" using assms(9) by (simp add: calls_shutdown_def)
  then obtain pc3 where pc3: "calls_shutdown t timeout budget w3 pc3" "drain_rank pc3 = 0"
    using shutdown_ends [OF pc2(1,2) assms(7)] unfolding assms(8) by blast
  then obtain out where out: "dict_get (gw_threads w3) t = Some (Drain (Returned True (Inr out)))"
    "do_remaining out \<noteq> 0 \<Longrightarrow> budget \<le> do_elapsed_s out" "released_ok (gw_lifecycle w3) out"
    using shutdown_returned [OF pc3] by metis
  have ok: "gateway_ok w3" using pc3(1) by (simp add: calls_shutdown_def)
  have said: "do_cancelled out = do_remaining out" "do_drained out = (do_remaining out = 0)" "lf_draining (gw_lifecycle w3)"
    "do_drained out \<Longrightarrow> do_guards_held out = []"
    using out(3) by (simp_all add: released_ok_def outcome_ok_def)
  have final: "settled out w3" if "sole_shutdown t w" "list_all calls_no_shutdown (calls @ waits @ ends)"
  proof -
    have "kept_outcome t w" using that(1) assms(2) by (simp add: kept_outcome_def)
    from kept_outcome_events [OF this that(2)] have "kept_outcome t w3"
      by (simp add: run_events_append assms(4,6,8))
    moreover have "\<not> stores pc" if "dict_get (gw_threads w3) u = Some (Drain pc)" for u pc
      using that out(1) \<open>kept_outcome t w3\<close> by (cases "u = t") (auto simp: kept_outcome_def sole_shutdown_def)
    ultimately show ?thesis using out(1) unfolding settled_def kept_outcome_def by blast
  qed
  have "lf_outcome (gw_lifecycle (run_events w3 es)) = Some out"
    "dict_get (gw_threads (run_events w3 es)) u = Some (Drain (Asking v)) \<Longrightarrow>
       run_event (run_events w3 es) (Step u a) = (run_events w3 es)
         \<lparr>gw_threads := dict_set u (Drain (Returned True (Inr out))) (gw_threads (run_events w3 es))\<rparr>"
    if "sole_shutdown t w" "list_all calls_no_shutdown (calls @ waits @ ends)" for es u v a
    using settled_events [OF final [OF that], of es] settled_answers [of out "run_events w3 es" u v a]
    by (simp_all add: settled_def)
  with out(1,2) said draining_admits_nobody [OF ok said(3)] drained_for_good [OF ok out(3)] show ?thesis
    by (intro exI [of _ out] conjI impI allI) blast+
qed

text \<open>A shutdown of the busy gateway: a query is in its body, the other is not let in.\<close>

definition ex_shutting :: gateway where
  "ex_shutting = run_events ex_busy [CallShutdown 9 None, Step 9 (Waited Acquired)]"

definition ex_shut :: gateway where
  "ex_shut = run_events (run_events (run_events ex_shutting (goes_on 9 3)) [Tick 5]) (goes_on 9 23)"

theorem shutdown_is_final_witness:
  "\<exists>out. dict_get (gw_threads ex_shut) 9 = Some (Drain (Returned True (Inr out)))
     \<and> (\<not> do_drained out \<longrightarrow> 5 \<le> do_elapsed_s out)
     \<and> lf_outcome (gw_lifecycle (run_events ex_shut [CallQuery 3, CallShutdown 4 None])) = Some out"
proof -
  have reached: "reachable_gateway ex_shutting"
    unfolding ex_shutting_def by (rule reachable_events [OF ex_busy_reachable])
  have threads: "gw_threads ex_shutting = [(1, Query Inside), (2, Query Entering), (9, Drain (Starting True None))]"
    unfolding ex_shutting_def ex_busy_def by code_simp
  have starts: "dict_get (gw_threads ex_shutting) 9 = Some (Drain (Starting True None))" by (simp add: threads)
  have budget: "resolve_budget None (gw_lifecycle ex_shutting) = Inr 5"
    unfolding ex_shutting_def ex_busy_def by code_simp
  have steps: "3 \<le> steps_of 9 (goes_on 9 3)" "23 \<le> steps_of 9 (goes_on 9 23)" by code_simp+
  have clock: "gw_now (run_events ex_shutting (goes_on 9 3)) + 5
      \<le> gw_now (run_events (run_events ex_shutting (goes_on 9 3)) [Tick 5])"
    by (simp add: run_event_def)
  have sole: "sole_shutdown 9 ex_shutting"
    by (auto simp: sole_shutdown_def threads)
  have quiet: "list_all calls_no_shutdown (goes_on 9 3 @ [Tick 5] @ goes_on 9 23)" by code_simp
  from shutdown_is_final [OF reached starts budget refl steps(1) refl clock refl steps(2)] sole quiet
  show ?thesis unfolding ex_shut_def [symmetric] by blast
qed

section \<open>What the module promises and the code does not do\<close>

text \<open>
  The guard of a gateway is one engine, not reentrant: while one query is inside, the next one admitted is
  refused with an order violation.
\<close>

theorem second_query_refused:
  "gw_threads (run_events ex_busy (goes_on 2 4))
     = [(1, Query Inside), (2, Query (Leaving (Some (GuardRaised (GuardError ''order_violation'')))))]"
  unfolding ex_busy_def by code_simp

text \<open>
  A query that waits for the data guard while a drain gives up loses its admission guard, takes the data
  guard when it comes, and fails to release the other: it ends with an error, and the data guard stays held
  after a shutdown that reported nothing held.
\<close>

definition ex_stranded :: gateway where
  "ex_stranded = run_events ex_gateway
     (CallQuery 1 # goes_on 1 10 @ CallShutdown 9 None # goes_on 9 4 @ Tick 5 # goes_on 9 23 @ goes_on 1 5)"

theorem shutdown_strands_a_lock:
  "guards_held (gw_lifecycle ex_stranded) = [''data.lock''] \<and> dict_get (gw_threads ex_stranded) 1 = None
   \<and> map_option do_guards_held (lf_outcome (gw_lifecycle ex_stranded)) = Some []"
  unfolding ex_stranded_def by code_simp

text \<open>
  Two queries that both walked an empty dictionary both record both guards; the second then fails on its early
  release and leaves the data guard held, with no query in flight and no drain.
\<close>

definition ex_crossed :: gateway where
  "ex_crossed = run_events ex_gateway
     (CallQuery 1 # CallQuery 2 # goes_on 1 4 @ goes_on 2 4 @ goes_on 1 6 @ goes_on 2 6
        @ goes_on 1 12 @ goes_on 2 6)"

theorem crossed_entries_strand_a_lock:
  "guards_held (gw_lifecycle ex_crossed) = [''data.lock''] \<and> gw_threads ex_crossed = []
   \<and> lf_in_flight (gw_lifecycle ex_crossed) = 0 \<and> \<not> lf_draining (gw_lifecycle ex_crossed)"
  unfolding ex_crossed_def by code_simp

text \<open>A data guard file that cannot be verified is no timeout: the admission guard stays held.\<close>

definition ex_unverified :: gateway where
  "ex_unverified = run_events ex_gateway
     (CallQuery 1 # goes_on 1 10 @ [Step 1 (Unverified (GuardError ''identity_mismatch''))] @ goes_on 1 1)"

theorem unverified_strands_admission:
  "guards_held (gw_lifecycle ex_unverified) = [''admission.lock''] \<and> gw_threads ex_unverified = []"
  unfolding ex_unverified_def by code_simp

text \<open>Two shutdowns that ask before either has stored both drain, and count the one query twice.\<close>

definition ex_twice :: gateway where
  "ex_twice = run_events ex_gateway
     (CallQuery 1 # goes_on 1 15 @ CallShutdown 8 None # CallShutdown 9 None # goes_on 8 4 @ goes_on 9 4
        @ Tick 5 # goes_on 8 23 @ goes_on 9 23)"

theorem two_shutdowns_count_twice:
  "lf_cancelled (gw_lifecycle ex_twice) = 2 \<and> lf_in_flight (gw_lifecycle ex_twice) = 1"
  unfolding ex_twice_def by code_simp

end
