(* ===== verification/Plan.thy ===== *)
theory Plan
  imports Redaction Manifest
begin

text \<open>
  \<open>_canonical/update_plan_contract.py\<close>: the offline evaluator of an update plan. A document is a JSON value;
  a verdict is the list of named reasons, and a \<open>TypeError\<close>, which the code does not catch, is the left of a
  sum. What the code does not define is the record \<open>text_env\<close>: which code points are decimal digits (\<open>\d\<close>),
  \<open>str.lower\<close>, and \<open>str\<close> of a value that is no text.
\<close>

record text_env =
  te_digit :: "string \<Rightarrow> bool"
  te_lower :: "string \<Rightarrow> string"
  te_show :: "pyval \<Rightarrow> string"

datatype plan_error = PlanTypeError

type_synonym reasons = "plan_error + string list"

section \<open>Texts and patterns\<close>

text \<open>\<open>re.match\<close> of a pattern that ends in \<open>$\<close>, and \<open>re.search\<close>.\<close>

definition match_to_end :: "regex \<Rightarrow> string \<Rightarrow> bool" where
  "match_to_end r s =
     list_ex (\<lambda>p. snd p = [] \<or> snd p = [[newline]]) (ends (\<lambda>_. False) r (None, points_of s))"

fun search_points :: "regex \<Rightarrow> string list \<Rightarrow> bool" where
  "search_points r [] = (ends (\<lambda>_. False) r (None, []) \<noteq> [])"
| "search_points r (c # t) = (ends (\<lambda>_. False) r (None, c # t) \<noteq> [] \<or> search_points r t)"

definition version_number :: "text_env \<Rightarrow> regex" where
  "version_number te =
     Alt (literal ''0'') (Cat (One (between CHR ''1'' CHR ''9'')) (Rep 0 None (One (te_digit te))))"

definition version_suffix :: "char \<Rightarrow> regex" where
  "version_suffix c = Rep 0 (Some 1) (Cat (literal [c]) (Rep 1 None (One (\<lambda>p. alnum p \<or> one_of ''.-'' p))))"

definition SEMVER :: "text_env \<Rightarrow> string \<Rightarrow> bool" where
  "SEMVER te = match_to_end (sequence
     [version_number te, literal ''.'', version_number te, literal ''.'', version_number te,
      version_suffix CHR ''-'', version_suffix CHR ''+''])"

definition some_digits :: "text_env \<Rightarrow> nat \<Rightarrow> regex" where
  "some_digits te n = Rep n (Some n) (One (te_digit te))"

definition TIMESTAMP :: "text_env \<Rightarrow> string \<Rightarrow> bool" where
  "TIMESTAMP te = match_to_end (sequence
     [some_digits te 4, literal ''-'', some_digits te 2, literal ''-'', some_digits te 2, literal ''T'',
      some_digits te 2, literal '':'', some_digits te 2, literal '':'', some_digits te 2, literal ''Z''])"

definition REVISION :: "string \<Rightarrow> bool" where
  "REVISION s = (40 \<le> length s \<and> list_all is_hex (take 40 s) \<and> at_dollar (drop 40 s))"

definition PLACEHOLDER :: regex where
  "PLACEHOLDER = Alt (literal_i ''REPLACE'') (literal_i ''FILL_ME'')"

definition COMPONENTS :: "string list" where
  "COMPONENTS = [''axiom-graphd'', ''axiom-mcp'', ''axiom'', ''axiom-cli'', ''skills'']"
definition HOSTS :: "string list" where
  "HOSTS = [''windows-x64'', ''linux-x64'', ''macos-arm64'', ''macos-x64'']"
definition CHANNELS :: "string list" where "CHANNELS = [''stable'', ''prerelease'']"
definition ACTIONS :: "string list" where "ACTIONS = [''install'', ''upgrade'', ''reinstall'', ''noop'']"
definition INTERRUPTION_ACTIONS :: "string list" where "INTERRUPTION_ACTIONS = [''stop'', ''restart'', ''none'']"
definition APPROVAL_STATES :: "string list" where "APPROVAL_STATES = [''unapproved'', ''approved'']"
definition DIGEST_EXCLUDED :: "string list" where "DIGEST_EXCLUDED = [''plan_digest'', ''approval'']"

definition PLAN_REQUIRED :: "string list" where
  "PLAN_REQUIRED =
     [''schema_version'', ''spec_version'', ''plan_id'', ''created_at'', ''expires_at'', ''channel'', ''target'',
      ''components'', ''downloads'', ''migrations'', ''backup'', ''disk_headroom_bytes'',
      ''service_interruptions'', ''host_reconnect'', ''bootstrap_changes'', ''rollback'', ''trust'', ''approval'',
      ''plan_digest'']"

definition DOCUMENT_KEYS :: "string list" where "DOCUMENT_KEYS = [''plan'', ''approved_digest'']"

section \<open>Values\<close>

definition note_if :: "bool \<Rightarrow> string \<Rightarrow> string list" where
  "note_if b reason = (if b then [reason] else [])"

definition is_count :: "pyval \<Rightarrow> int \<Rightarrow> bool" where
  "is_count v minimum = (case v of PInt i \<Rightarrow> minimum \<le> i | _ \<Rightarrow> False)"

definition filled_text :: "pyval \<Rightarrow> bool" where
  "filled_text v = (case v of PStr s \<Rightarrow> strip s \<noteq> [] | _ \<Rightarrow> False)"

text \<open>A text the pattern matches.\<close>

definition text_that :: "(string \<Rightarrow> bool) \<Rightarrow> pyval \<Rightarrow> bool" where
  "text_that f v = (case v of PStr s \<Rightarrow> f s | _ \<Rightarrow> False)"

definition is_boolean :: "pyval \<Rightarrow> bool" where
  "is_boolean v = (case v of PBool _ \<Rightarrow> True | _ \<Rightarrow> False)"

text \<open>\<open>%s\<close>.\<close>

definition formatted :: "text_env \<Rightarrow> pyval \<Rightarrow> string" where
  "formatted te v = (case v of PStr s \<Rightarrow> s | _ \<Rightarrow> te_show te v)"

text \<open>\<open>v in names\<close> for a frozen set: a value that cannot be hashed raises.\<close>

definition member_of :: "pyval \<Rightarrow> string list \<Rightarrow> plan_error + bool" where
  "member_of v names =
     (if hashable v then Inr (text_that (\<lambda>s. s \<in> set names) v) else Inl PlanTypeError)"

text \<open>\<open>v == 1\<close>.\<close>

definition equals_one :: "pyval \<Rightarrow> bool" where
  "equals_one v = (case v of PInt i \<Rightarrow> i = 1 | PBool b \<Rightarrow> b | PFloat r \<Rightarrow> r = ''1.0'' | _ \<Rightarrow> False)"

fun placeholders :: "string \<Rightarrow> pyval \<Rightarrow> string list"
  and placeholder_entries :: "string \<Rightarrow> (string \<times> pyval) list \<Rightarrow> (string \<times> string list) list"
  and placeholder_items :: "string \<Rightarrow> nat \<Rightarrow> pyval list \<Rightarrow> string list" where
  "placeholders path (PStr s) = note_if (search_points PLACEHOLDER (points_of s)) path"
| "placeholders path (PDict d) = concat (map snd (sort_key fst (placeholder_entries path d)))"
| "placeholders path (PList xs) = placeholder_items path 0 xs"
| "placeholders path _ = []"
| "placeholder_entries path [] = []"
| "placeholder_entries path ((k, v) # d) = (k, placeholders (path @ ''.'' @ k) v) # placeholder_entries path d"
| "placeholder_items path i [] = []"
| "placeholder_items path i (x # xs) =
     placeholders (path @ ''['' @ int_repr (int i) @ '']'') x @ placeholder_items path (i + 1) xs"

section \<open>The digest\<close>

definition canonical_plan_bytes :: "(string, pyval) dict \<Rightarrow> string" where
  "canonical_plan_bytes plan = dumps (PDict (filter (\<lambda>p. fst p \<notin> set DIGEST_EXCLUDED) plan)) @ [newline]"

definition plan_digest :: "(string, pyval) dict \<Rightarrow> string" where
  "plan_digest plan = sha256_hex (canonical_plan_bytes plan)"

section \<open>The structure of a plan\<close>

text \<open>What is undeclared, missing or still a placeholder; the first two end the evaluation.\<close>

definition undeclared_fields :: "(string, pyval) dict \<Rightarrow> string list" where
  "undeclared_fields plan =
     map (\<lambda>k. ''undeclared_plan_field:'' @ k) (filter (\<lambda>k. k \<notin> set PLAN_REQUIRED) (sort (dict_keys plan)))"

definition missing_fields :: "(string, pyval) dict \<Rightarrow> string list" where
  "missing_fields plan =
     map (\<lambda>k. ''missing_required_field:'' @ k) (filter (\<lambda>k. \<not> dict_has plan k) PLAN_REQUIRED)"

definition unresolved_placeholders :: "(string, pyval) dict \<Rightarrow> string list" where
  "unresolved_placeholders plan = map (\<lambda>p. ''unresolved_placeholder:'' @ p) (placeholders ''$'' (PDict plan))"

definition timestamps :: "text_env \<Rightarrow> pyval \<Rightarrow> pyval \<Rightarrow> bool" where
  "timestamps te later earlier =
     (case (later, earlier) of
        (PStr l, PStr e) \<Rightarrow> TIMESTAMP te l \<and> TIMESTAMP te e \<and> l \<le> e
      | _ \<Rightarrow> False)"

definition head_reasons :: "text_env \<Rightarrow> (string, pyval) dict \<Rightarrow> reasons" where
  "head_reasons te plan =
     bind_result (member_of (get_field plan ''channel'') CHANNELS) (\<lambda>known.
       Inr (note_if (\<not> equals_one (get_field plan ''schema_version'')) ''unsupported_schema_version''
         @ note_if (\<not> filled_text (get_field plan ''spec_version'') \<or> \<not> text_that (SEMVER te) (get_field plan ''spec_version''))
             (''invalid_spec_version:'' @ formatted te (get_field plan ''spec_version''))
         @ note_if (\<not> text_that IDENTIFIER_RE (get_field plan ''plan_id'')) ''invalid_plan_id''
         @ note_if (\<not> text_that (TIMESTAMP te) (get_field plan ''created_at'')) ''invalid_timestamp:created_at''
         @ note_if (\<not> text_that (TIMESTAMP te) (get_field plan ''expires_at'')) ''invalid_timestamp:expires_at''
         @ note_if (timestamps te (get_field plan ''expires_at'') (get_field plan ''created_at''))
             ''expiry_not_after_creation''
         @ note_if (\<not> known) (''unsupported_channel:'' @ formatted te (get_field plan ''channel''))))"

definition target_reasons :: "text_env \<Rightarrow> (string, pyval) dict \<Rightarrow> reasons" where
  "target_reasons te plan =
     (case get_field plan ''target'' of
        PDict target \<Rightarrow>
          bind_result (member_of (get_field target ''component'') COMPONENTS) (\<lambda>known_component.
          bind_result (member_of (get_field target ''host'') HOSTS) (\<lambda>known_host.
            Inr (note_if (\<not> known_component)
                   (''unsupported_target_component:'' @ formatted te (get_field target ''component''))
               @ note_if (\<not> known_host) (''unsupported_host:'' @ formatted te (get_field target ''host''))
               @ note_if (\<not> filled_text (get_field target ''install_root'')) ''missing_target_install_root'')))
      | _ \<Rightarrow> Inr [''target_not_object''])"

subsection \<open>Components\<close>

definition COMPONENT_FIELDS :: "string list" where
  "COMPONENT_FIELDS =
     [''component'', ''installed_version'', ''installed_revision'', ''target_version'', ''target_revision'',
      ''artifact_sha256'', ''action'']"

definition blank_required :: "(string, pyval) dict \<Rightarrow> string list \<Rightarrow> string \<Rightarrow> string list" where
  "blank_required item names label =
     map (\<lambda>k. ''missing_required_field:'' @ label @ ''.'' @ k) (filter (\<lambda>k. \<not> dict_has item k) names)"

text \<open>The action against the versions, where both are well formed.\<close>

definition action_reasons :: "text_env \<Rightarrow> (string, pyval) dict \<Rightarrow> string list" where
  "action_reasons te row =
     (let installed = get_field row ''installed_version''; goal = get_field row ''target_version'';
          mismatch = ''action_version_mismatch:'' @ formatted te (get_field row ''component'') in
      case get_field row ''action'' of
        PStr a \<Rightarrow>
          if a \<in> set ACTIONS \<and> text_that (SEMVER te) goal
          then note_if (a = ''install'' \<and> installed \<noteq> PNone) mismatch
             @ note_if (a \<in> {''upgrade'', ''reinstall''} \<and> installed = PNone) mismatch
             @ note_if (a = ''upgrade'' \<and> installed \<noteq> PNone \<and> installed = goal) mismatch
             @ note_if (a = ''noop'' \<and> installed \<noteq> goal) mismatch
          else []
      | _ \<Rightarrow> [])"

definition component_fields :: "text_env \<Rightarrow> (string, pyval) dict \<Rightarrow> string list" where
  "component_fields te row =
     (let name = formatted te (get_field row ''component''); installed = get_field row ''installed_version'' in
      note_if (\<not> text_that (SEMVER te) (get_field row ''target_version'')) (''invalid_version:'' @ name @ ''.target_version'')
      @ note_if (installed \<noteq> PNone \<and> \<not> text_that (SEMVER te) installed)
          (''invalid_version:'' @ name @ ''.installed_version'')
      @ note_if (get_field row ''installed_revision'' \<noteq> PNone \<and> \<not> text_that REVISION (get_field row ''installed_revision''))
          (''invalid_revision:'' @ name @ ''.installed_revision'')
      @ note_if (\<not> text_that REVISION (get_field row ''target_revision'')) (''invalid_revision:'' @ name @ ''.target_revision'')
      @ note_if (\<not> text_that SHA256_RE (get_field row ''artifact_sha256'')) (''invalid_digest:'' @ name @ ''.artifact_sha256''))"

definition component_row ::
    "text_env \<Rightarrow> string list \<times> pyval list \<Rightarrow> nat \<times> pyval \<Rightarrow> plan_error + (string list \<times> pyval list)" where
  "component_row te acc indexed =
     (case snd indexed of
        PDict row \<Rightarrow>
          (let component = get_field row ''component''; name = formatted te component;
               label = ''components['' @ int_repr (int (fst indexed)) @ '']'' in
           bind_result (member_of component COMPONENTS) (\<lambda>known.
           bind_result (member_of (get_field row ''action'') ACTIONS) (\<lambda>known_action.
             Inr (fst acc @ blank_required row COMPONENT_FIELDS label
                    @ note_if (\<not> known) (''unsupported_component:'' @ name)
                    @ note_if (list_ex (py_eq component) (snd acc)) (''duplicate_component:'' @ name)
                    @ note_if (\<not> known_action)
                        (''unsupported_action:'' @ name @ '':'' @ formatted te (get_field row ''action''))
                    @ component_fields te row @ action_reasons te row,
                  snd acc @ [component]))))
      | _ \<Rightarrow> Inr (fst acc @ [''component_not_object''], snd acc))"

definition components_reasons :: "text_env \<Rightarrow> (string, pyval) dict \<Rightarrow> reasons" where
  "components_reasons te plan =
     (case get_field plan ''components'' of
        PList rows \<Rightarrow>
          if rows = [] then Inr [''components_empty'']
          else bind_result (fold_result (component_row te) ([], []) (enumerate 0 rows)) (\<lambda>r. Inr (fst r))
      | _ \<Rightarrow> Inr [''components_not_list''])"

subsection \<open>Downloads and migrations\<close>

definition download_row :: "text_env \<Rightarrow> string list \<times> string list \<Rightarrow> pyval \<Rightarrow> string list \<times> string list" where
  "download_row te acc v =
     (case v of
        PDict row \<Rightarrow>
          (let artifact = get_field row ''artifact''; name = formatted te artifact in
           (fst acc
              @ (if filled_text artifact then note_if (name \<in> set (snd acc)) (''duplicate_download:'' @ name)
                 else [''missing_download_artifact''])
              @ note_if (\<not> text_that (starts_with ''https://'') (get_field row ''url'')) (''download_url_not_https:'' @ name)
              @ note_if (\<not> text_that SHA256_RE (get_field row ''sha256'')) (''invalid_digest:'' @ name @ ''.sha256'')
              @ note_if (\<not> is_count (get_field row ''size_bytes'') 1) (''invalid_size:'' @ name),
            if filled_text artifact then snd acc @ [name] else snd acc))
      | _ \<Rightarrow> (fst acc @ [''download_not_object''], snd acc))"

definition downloads_reasons :: "text_env \<Rightarrow> (string, pyval) dict \<Rightarrow> string list" where
  "downloads_reasons te plan =
     (case get_field plan ''downloads'' of
        PList rows \<Rightarrow> fst (foldl (download_row te) ([], []) rows)
      | _ \<Rightarrow> [''downloads_not_list''])"

definition queue_step :: "(string, pyval) dict \<Rightarrow> (int \<times> int) option" where
  "queue_step row =
     (case (get_field row ''from_queue_schema'', get_field row ''to_queue_schema'') of
        (PInt a, PInt b) \<Rightarrow> if 0 \<le> a \<and> 0 \<le> b then Some (a, b) else None
      | _ \<Rightarrow> None)"

definition migration_row :: "text_env \<Rightarrow> string list \<times> string list \<Rightarrow> pyval \<Rightarrow> string list \<times> string list" where
  "migration_row te acc v =
     (case v of
        PDict row \<Rightarrow>
          (let migration_id = get_field row ''migration_id''; name = formatted te migration_id;
               named = text_that IDENTIFIER_RE migration_id in
           (fst acc
              @ (if named then note_if (name \<in> set (snd acc)) (''duplicate_migration:'' @ name)
                 else [''invalid_migration_id:'' @ name])
              @ (case queue_step row of
                   None \<Rightarrow> [''invalid_queue_schema_step:'' @ name]
                 | Some (source, goal) \<Rightarrow> note_if (goal \<le> source) (''migration_not_forward:'' @ name))
              @ note_if (get_field row ''reversible'' = PBool False \<and> get_field row ''requires_backup'' \<noteq> PBool True)
                  (''irreversible_migration_without_backup:'' @ name),
            if named then snd acc @ [name] else snd acc))
      | _ \<Rightarrow> (fst acc @ [''migration_not_object''], snd acc))"

definition migrations_reasons :: "text_env \<Rightarrow> (string, pyval) dict \<Rightarrow> string list" where
  "migrations_reasons te plan =
     (case get_field plan ''migrations'' of
        PList rows \<Rightarrow> fst (foldl (migration_row te) ([], []) rows)
      | _ \<Rightarrow> [''migrations_not_list''])"

subsection \<open>Backup, interruptions and bootstrap\<close>

text \<open>Iterating over \<open>migrations or []\<close>: a dictionary gives its keys, a text its characters; any other truthy
  value raises.\<close>

definition iterated :: "pyval \<Rightarrow> plan_error + pyval list" where
  "iterated v =
     (case v of
        PList xs \<Rightarrow> Inr xs
      | PDict d \<Rightarrow> Inr (map PStr (dict_keys d))
      | PStr s \<Rightarrow> Inr (map PStr (points_of s))
      | _ \<Rightarrow> if truthy v then Inl PlanTypeError else Inr [])"

fun wants_backup :: "pyval \<Rightarrow> bool" where
  "wants_backup (PDict row) = (get_field row ''requires_backup'' = PBool True)"
| "wants_backup _ = False"

definition backup_names :: "text_env \<Rightarrow> pyval list \<Rightarrow> string list" where
  "backup_names te rows =
     map (\<lambda>v. formatted te (get_field (mapping_items v) ''migration_id'')) (filter wants_backup rows)"

definition backup_targets_reasons :: "text_env \<Rightarrow> pyval \<Rightarrow> string list" where
  "backup_targets_reasons te v =
     (case v of
        PList names \<Rightarrow>
          map (\<lambda>n. ''invalid_backup_target:'' @ formatted te n) (filter (\<lambda>n. \<not> text_that PORTABLE_RELATIVE_RE n) names)
      | _ \<Rightarrow> [''backup_targets_not_list''])"

definition backup_reasons :: "text_env \<Rightarrow> (string, pyval) dict \<Rightarrow> reasons" where
  "backup_reasons te plan =
     (case get_field plan ''backup'' of
        PDict backup \<Rightarrow>
          bind_result (iterated (get_field plan ''migrations'')) (\<lambda>rows.
            Inr (note_if (\<not> is_boolean (get_field backup ''required'')) ''invalid_backup_required''
               @ backup_targets_reasons te (get_field backup ''targets'')
               @ note_if (backup_names te rows \<noteq> [] \<and> get_field backup ''required'' \<noteq> PBool True)
                   (''backup_required_by_migration:'' @ join_with '','' (sort (backup_names te rows)))))
      | _ \<Rightarrow> Inr [''backup_not_object''])"

definition interruption_row :: "text_env \<Rightarrow> pyval \<Rightarrow> reasons" where
  "interruption_row te v =
     (case v of
        PDict row \<Rightarrow>
          (let service = get_field row ''service''; name = formatted te service in
           bind_result (member_of service COMPONENTS) (\<lambda>known.
           bind_result (member_of (get_field row ''action'') INTERRUPTION_ACTIONS) (\<lambda>known_action.
             Inr (note_if (\<not> known) (''unsupported_service:'' @ name)
                @ note_if (\<not> known_action)
                    (''unsupported_interruption_action:'' @ name @ '':'' @ formatted te (get_field row ''action''))
                @ note_if (\<not> is_count (get_field row ''max_seconds'') 0) (''invalid_interruption_seconds:'' @ name)))))
      | _ \<Rightarrow> Inr [''service_interruption_not_object''])"

definition interruptions_reasons :: "text_env \<Rightarrow> (string, pyval) dict \<Rightarrow> reasons" where
  "interruptions_reasons te plan =
     (case get_field plan ''service_interruptions'' of
        PList rows \<Rightarrow> bind_result (map_result (interruption_row te) rows) (\<lambda>rs. Inr (concat rs))
      | _ \<Rightarrow> Inr [''service_interruptions_not_list''])"

definition reconnect_reasons :: "(string, pyval) dict \<Rightarrow> string list" where
  "reconnect_reasons plan =
     (case get_field plan ''host_reconnect'' of
        PDict reconnect \<Rightarrow>
          note_if (\<not> is_boolean (get_field reconnect ''required'')) ''invalid_host_reconnect_required''
          @ note_if (\<not> filled_text (get_field reconnect ''reason'')) ''missing_host_reconnect_reason''
      | _ \<Rightarrow> [''host_reconnect_not_object''])"

definition bootstrap_row :: "text_env \<Rightarrow> pyval \<Rightarrow> string list" where
  "bootstrap_row te v =
     (case v of
        PDict row \<Rightarrow>
          (let repo = formatted te (get_field row ''repo_id'') in
           note_if (\<not> text_that IDENTIFIER_RE (get_field row ''repo_id'')) (''invalid_bootstrap_repo:'' @ repo)
           @ note_if (\<not> text_that (SEMVER te) (get_field row ''template_version''))
               (''invalid_bootstrap_template_version:'' @ repo)
           @ (case get_field row ''destinations'' of
                PList (x # xs) \<Rightarrow>
                  map (\<lambda>d. ''invalid_bootstrap_destination:'' @ formatted te d)
                    (filter (\<lambda>d. \<not> text_that PORTABLE_RELATIVE_RE d) (x # xs))
              | _ \<Rightarrow> [''missing_bootstrap_destinations:'' @ repo]))
      | _ \<Rightarrow> [''bootstrap_change_not_object''])"

definition bootstrap_reasons :: "text_env \<Rightarrow> (string, pyval) dict \<Rightarrow> string list" where
  "bootstrap_reasons te plan =
     (case get_field plan ''bootstrap_changes'' of
        PList rows \<Rightarrow> concat (map (bootstrap_row te) rows)
      | _ \<Rightarrow> [''bootstrap_changes_not_list''])"

subsection \<open>Rollback, trust and approval\<close>

definition rollback_reasons :: "(string, pyval) dict \<Rightarrow> string list" where
  "rollback_reasons plan =
     (case get_field plan ''rollback'' of
        PDict rollback \<Rightarrow>
          note_if (\<not> is_boolean (get_field rollback ''supported'')) ''invalid_rollback_supported''
          @ note_if (\<not> is_boolean (get_field rollback ''restores_previous_versions'')) ''invalid_rollback_restores''
          @ (case get_field rollback ''limits'' of
               PList limits \<Rightarrow>
                 note_if (get_field rollback ''supported'' = PBool True \<and> list_ex (\<lambda>l. \<not> filled_text l) limits)
                   ''invalid_rollback_limit''
             | _ \<Rightarrow> [''rollback_limits_not_list''])
          @ note_if (get_field rollback ''supported'' \<noteq> PBool True \<and> truthy (get_field plan ''migrations''))
              ''rollback_unsupported_with_migration''
      | _ \<Rightarrow> [''rollback_not_object''])"

definition trust_reasons :: "text_env \<Rightarrow> (string, pyval) dict \<Rightarrow> string list" where
  "trust_reasons te plan =
     (case get_field plan ''trust'' of
        PDict trust \<Rightarrow>
          note_if (\<not> is_count (get_field trust ''metadata_version'') 1) ''invalid_trust_metadata_version''
          @ (if \<not> text_that (TIMESTAMP te) (get_field trust ''metadata_expiry'') then [''invalid_trust_metadata_expiry'']
             else note_if (timestamps te (get_field trust ''metadata_expiry'') (get_field plan ''created_at''))
                    ''trust_metadata_expired'')
          @ note_if (case get_field trust ''trust_root'' of PNone \<Rightarrow> True | PStr s \<Rightarrow> \<not> SHA256_RE s | _ \<Rightarrow> False)
              ''unresolved_trust_root''
          @ note_if (get_field trust ''signature_present'' \<noteq> PBool True) ''unsigned_plan''
      | _ \<Rightarrow> [''trust_not_object''])"

definition approval_block :: "text_env \<Rightarrow> (string, pyval) dict \<Rightarrow> reasons" where
  "approval_block te plan =
     (case get_field plan ''approval'' of
        PDict approval \<Rightarrow>
          bind_result (member_of (get_field approval ''state'') APPROVAL_STATES) (\<lambda>known.
            Inr (if \<not> known then [''unsupported_approval_state:'' @ formatted te (get_field approval ''state'')]
                 else if get_field approval ''state'' = PStr ''approved'' then
                   note_if (\<not> filled_text (get_field approval ''approved_by'')) ''approval_incomplete:approved_by''
                   @ note_if (\<not> text_that (TIMESTAMP te) (get_field approval ''approved_at''))
                       ''approval_incomplete:approved_at''
                   @ (if \<not> text_that SHA256_RE (get_field approval ''approved_digest'')
                      then [''approval_incomplete:approved_digest'']
                      else note_if (get_field plan ''plan_digest'' \<noteq> get_field approval ''approved_digest'')
                             ''approval_digest_mismatch'')
                 else
                   note_if (get_field approval ''approved_digest'' \<noteq> PNone) ''unapproved_plan_carries_digest''
                   @ note_if (get_field approval ''approved_by'' \<noteq> PNone) ''unapproved_plan_carries_approver''
                   @ note_if (get_field approval ''approved_at'' \<noteq> PNone) ''unapproved_plan_carries_timestamp''))
      | _ \<Rightarrow> Inr [''approval_not_object''])"

definition digest_reasons :: "(string, pyval) dict \<Rightarrow> string list" where
  "digest_reasons plan =
     (if \<not> text_that SHA256_RE (get_field plan ''plan_digest'') then [''invalid_plan_digest'']
      else note_if (PStr (plan_digest plan) \<noteq> get_field plan ''plan_digest'') ''plan_digest_mismatch'')"

subsection \<open>The verdict\<close>

text \<open>The groups of checks, in the code's order.\<close>

definition field_reasons :: "text_env \<Rightarrow> (string, pyval) dict \<Rightarrow> reasons" where
  "field_reasons te plan =
     bind_result (map_result (\<lambda>r. r)
       [head_reasons te plan, target_reasons te plan, components_reasons te plan,
        Inr (downloads_reasons te plan), Inr (migrations_reasons te plan), backup_reasons te plan,
        Inr (note_if (\<not> is_count (get_field plan ''disk_headroom_bytes'') 0) ''invalid_disk_headroom_bytes''),
        interruptions_reasons te plan, Inr (reconnect_reasons plan), Inr (bootstrap_reasons te plan),
        Inr (rollback_reasons plan), Inr (trust_reasons te plan), approval_block te plan,
        Inr (digest_reasons plan)]) (\<lambda>rs. Inr (concat rs))"

definition structural_reasons :: "text_env \<Rightarrow> pyval \<Rightarrow> reasons" where
  "structural_reasons te v =
     (case v of
        PDict plan \<Rightarrow>
          (let shape = undeclared_fields plan @ missing_fields plan @ unresolved_placeholders plan in
           if undeclared_fields plan \<noteq> [] \<or> missing_fields plan \<noteq> [] then Inr shape
           else bind_result (field_reasons te plan) (\<lambda>rs. Inr (shape @ rs)))
      | _ \<Rightarrow> Inr [''plan_not_object''])"

definition approval_reasons :: "pyval \<Rightarrow> pyval \<Rightarrow> string list" where
  "approval_reasons v approved =
     (case v of
        PDict plan \<Rightarrow>
          if \<not> text_that SHA256_RE approved then [''approved_digest_not_a_digest'']
          else note_if (PStr (plan_digest plan) \<noteq> approved) ''approval_stale''
             @ note_if (get_field plan ''plan_digest'' \<noteq> approved) ''plan_digest_not_approved''
      | _ \<Rightarrow> [''plan_not_object''])"

record plan_verdict =
  vd_ok :: bool
  vd_reasons :: "string list"
  vd_structural :: "string list"
  vd_approval :: "string list"
  vd_digest :: "string option"

definition refused_verdict :: "string list \<Rightarrow> string \<Rightarrow> plan_verdict" where
  "refused_verdict reasons reason =
     \<lparr>vd_ok = False, vd_reasons = reasons @ [reason], vd_structural = [reason], vd_approval = [], vd_digest = None\<rparr>"

definition evaluate :: "text_env \<Rightarrow> pyval \<Rightarrow> plan_error + plan_verdict" where
  "evaluate te v =
     (case v of
        PDict document \<Rightarrow>
          (let undeclared = map (\<lambda>k. ''undeclared_document_field:'' @ k)
                 (filter (\<lambda>k. k \<notin> set DOCUMENT_KEYS) (sort (dict_keys document))) in
           case dict_get document ''plan'' of
             None \<Rightarrow> Inr (refused_verdict undeclared ''missing_required_field:plan'')
           | Some plan \<Rightarrow>
               bind_result (structural_reasons te plan) (\<lambda>rs.
                 (let structural = undeclared @ rs;
                      approval = (case dict_get document ''approved_digest'' of
                          None \<Rightarrow> [] | Some d \<Rightarrow> approval_reasons plan d);
                      combined = structural @ approval in
                  Inr \<lparr>vd_ok = (combined = []), vd_reasons = combined, vd_structural = structural, vd_approval = approval,
                       vd_digest = (case plan of PDict p \<Rightarrow> Some (plan_digest p) | _ \<Rightarrow> None)\<rparr>)))
      | _ \<Rightarrow> Inr (refused_verdict [] ''document_not_object''))"

section \<open>What an accepted document guarantees\<close>

lemma note_if_Nil [simp]: "note_if b r = [] \<longleftrightarrow> \<not> b"
  by (simp add: note_if_def)

lemma concat_results_Nil:
  "bind_result (map_result (\<lambda>r. r) rs) (\<lambda>xs. Inr (concat xs)) = Inr [] \<longleftrightarrow> (\<forall>r \<in> set rs. r = Inr [])"
proof (induction rs)
  case (Cons r rs)
  then show ?case
    by (cases r; cases "map_result (\<lambda>r. r) rs") auto
qed simp

lemma field_reasons_Nil:
  "field_reasons te plan = Inr [] \<longleftrightarrow>
     head_reasons te plan = Inr [] \<and> target_reasons te plan = Inr [] \<and> components_reasons te plan = Inr []
     \<and> downloads_reasons te plan = [] \<and> migrations_reasons te plan = [] \<and> backup_reasons te plan = Inr []
     \<and> is_count (get_field plan ''disk_headroom_bytes'') 0 \<and> interruptions_reasons te plan = Inr []
     \<and> reconnect_reasons plan = [] \<and> bootstrap_reasons te plan = [] \<and> rollback_reasons plan = []
     \<and> trust_reasons te plan = [] \<and> approval_block te plan = Inr [] \<and> digest_reasons plan = []"
  unfolding field_reasons_def concat_results_Nil by simp

text \<open>An accepted document, in terms of its checks.\<close>

definition accepted :: "text_env \<Rightarrow> (string, pyval) dict \<Rightarrow> (string, pyval) dict \<Rightarrow> bool" where
  "accepted te document plan =
     (dict_get document ''plan'' = Some (PDict plan) \<and> set (dict_keys document) \<subseteq> set DOCUMENT_KEYS
      \<and> undeclared_fields plan = [] \<and> missing_fields plan = [] \<and> unresolved_placeholders plan = []
      \<and> field_reasons te plan = Inr []
      \<and> (\<forall>d. dict_get document ''approved_digest'' = Some d \<longrightarrow> approval_reasons (PDict plan) d = []))"

lemma evaluate_ok:
  assumes "evaluate te (PDict document) = Inr v" "vd_ok v"
  shows "\<exists>plan. accepted te document plan \<and> vd_digest v = Some (plan_digest plan)"
proof -
  let ?undeclared = "map (\<lambda>k. ''undeclared_document_field:'' @ k)
     (filter (\<lambda>k. k \<notin> set DOCUMENT_KEYS) (sort (dict_keys document)))"
  obtain p rs where p: "dict_get document ''plan'' = Some p" and rs: "structural_reasons te p = Inr rs"
    using assms by (auto simp: evaluate_def refused_verdict_def Let_def bind_result_eq_Inr split: option.splits)
  with assms have quiet: "?undeclared @ rs @ (case dict_get document ''approved_digest'' of
       None \<Rightarrow> [] | Some d \<Rightarrow> approval_reasons p d) = []"
    and digest: "vd_digest v = (case p of PDict q \<Rightarrow> Some (plan_digest q) | _ \<Rightarrow> None)"
    by (auto simp: evaluate_def Let_def)
  from quiet have "rs = []" by simp
  with rs obtain plan where plan: "p = PDict plan"
    by (cases p) (auto simp: structural_reasons_def)
  have keys: "set (dict_keys document) \<subseteq> set DOCUMENT_KEYS"
    using quiet by (auto simp: filter_empty_conv)
  have "undeclared_fields plan = [] \<and> missing_fields plan = [] \<and> unresolved_placeholders plan = []
      \<and> field_reasons te plan = Inr []"
    using rs \<open>rs = []\<close> unfolding plan
    by (auto simp: structural_reasons_def Let_def bind_result_eq_Inr split: if_splits)
  then show ?thesis
    using p plan keys quiet digest by (intro exI [of _ plan]) (auto simp: accepted_def)
qed

lemma accepted_keys:
  assumes "accepted te document plan"
  shows "set (dict_keys plan) = set PLAN_REQUIRED"
proof -
  have "k \<in> set (dict_keys plan)" if "dict_has plan k" for k
    using that by (auto simp: dict_has_def dest: map_of_SomeD intro: rev_image_eqI)
  then have "set PLAN_REQUIRED \<subseteq> set (dict_keys plan)"
    using assms by (auto simp: accepted_def missing_fields_def filter_empty_conv)
  moreover have "set (dict_keys plan) \<subseteq> set PLAN_REQUIRED"
    using assms by (auto simp: accepted_def undeclared_fields_def filter_empty_conv)
  ultimately show ?thesis by blast
qed

lemma text_that_iff: "text_that f v \<longleftrightarrow> (\<exists>s. v = PStr s \<and> f s)"
  by (cases v) (simp_all add: text_that_def)

lemma accepted_digest:
  assumes "accepted te document plan"
  shows "get_field plan ''plan_digest'' = PStr (plan_digest plan)"
  using assms
  by (auto simp: accepted_def field_reasons_Nil digest_reasons_def split: if_splits)

lemma accepted_approval:
  assumes "accepted te document plan" "get_field plan ''approval'' = PDict a" "get_field a ''state'' = PStr ''approved''"
  shows "get_field a ''approved_digest'' = PStr (plan_digest plan) \<and> filled_text (get_field a ''approved_by'')"
proof -
  have "approval_block te plan = Inr []" using assms(1) by (simp add: accepted_def field_reasons_Nil)
  with assms(2,3) accepted_digest [OF assms(1)] show ?thesis
    by (auto simp: approval_block_def bind_result_eq_Inr split: if_splits)
qed

text \<open>
  C6. The approval names what it approves. An accepted plan has exactly the declared fields, records its own digest,
  and carries, where it says approved, the approval of that digest; and a digest recorded outside the plan is this
  plan's. So two plans accepted under one recorded digest have the same SHA-256 of everything but the digest and
  the approval: an approval cannot be reused for a plan that was changed.
\<close>

theorem approval_binds_the_plan:
  assumes "evaluate te (PDict document) = Inr v" "vd_ok v"
  shows "\<exists>plan. dict_get document ''plan'' = Some (PDict plan) \<and> set (dict_keys plan) = set PLAN_REQUIRED
    \<and> get_field plan ''plan_digest'' = PStr (sha256_hex (canonical_plan_bytes plan))
    \<and> (\<forall>d. dict_get document ''approved_digest'' = Some d \<longrightarrow> d = PStr (sha256_hex (canonical_plan_bytes plan)))
    \<and> (\<forall>a. get_field plan ''approval'' = PDict a \<longrightarrow> get_field a ''state'' = PStr ''approved'' \<longrightarrow>
         get_field a ''approved_digest'' = PStr (sha256_hex (canonical_plan_bytes plan)))
    \<and> (\<forall>other w approved. evaluate te (PDict other) = Inr w \<longrightarrow> vd_ok w \<longrightarrow>
         dict_get document ''approved_digest'' = Some approved \<longrightarrow> dict_get other ''approved_digest'' = Some approved \<longrightarrow>
         (\<exists>changed. dict_get other ''plan'' = Some (PDict changed)
            \<and> sha256_hex (canonical_plan_bytes changed) = sha256_hex (canonical_plan_bytes plan)))"
proof -
  have external: "d = PStr (plan_digest plan)"
    if "accepted te document plan" "dict_get document ''approved_digest'' = Some d" for document plan d
    using that by (auto simp: accepted_def approval_reasons_def split: if_splits)
  obtain plan where plan: "accepted te document plan" using evaluate_ok [OF assms] by blast
  have "\<exists>changed. dict_get other ''plan'' = Some (PDict changed) \<and> plan_digest changed = plan_digest plan"
    if other: "evaluate te (PDict other) = Inr w" "vd_ok w"
      and same: "dict_get document ''approved_digest'' = Some approved" "dict_get other ''approved_digest'' = Some approved"
    for other w approved
  proof -
    obtain changed where changed: "accepted te other changed" using evaluate_ok [OF other] by blast
    have "plan_digest changed = plan_digest plan"
      using external [OF plan same(1)] external [OF changed same(2)] by simp
    then show ?thesis using changed by (auto simp: accepted_def)
  qed
  then show ?thesis
    using plan accepted_keys [OF plan] accepted_digest [OF plan] accepted_approval [OF plan] external [OF plan]
    unfolding plan_digest_def [symmetric] by (intro exI [of _ plan]) (auto simp: accepted_def)
qed

section \<open>What an accepted plan does\<close>

text \<open>A fold over rows that reports nothing found nothing in any row.\<close>

lemma foldl_quiet:
  assumes "\<And>acc v. fst (f acc v) = [] \<Longrightarrow> fst acc = [] \<and> P v"
  shows "fst (foldl f acc rows) = [] \<Longrightarrow> fst acc = [] \<and> (\<forall>v \<in> set rows. P v)"
proof (induction rows arbitrary: acc)
  case (Cons v rows)
  then have "fst (f acc v) = [] \<and> (\<forall>v \<in> set rows. P v)" by simp
  with assms [of acc v] show ?case by simp
qed simp

definition good_download :: "pyval \<Rightarrow> bool" where
  "good_download v =
     (\<exists>row. v = PDict row \<and> text_that (starts_with ''https://'') (get_field row ''url'')
        \<and> text_that SHA256_RE (get_field row ''sha256'') \<and> filled_text (get_field row ''artifact''))"

definition good_migration :: "pyval \<Rightarrow> bool" where
  "good_migration v =
     (\<exists>row a b. v = PDict row \<and> get_field row ''from_queue_schema'' = PInt a \<and> get_field row ''to_queue_schema'' = PInt b
        \<and> a < b \<and> (get_field row ''reversible'' = PBool False \<longrightarrow> get_field row ''requires_backup'' = PBool True))"

lemma download_row_quiet: "fst (download_row te acc v) = [] \<Longrightarrow> fst acc = [] \<and> good_download v"
  by (cases v) (auto simp: download_row_def good_download_def Let_def split: if_splits)

lemma queue_step_Some:
  "queue_step row = Some (a, b) \<Longrightarrow> get_field row ''from_queue_schema'' = PInt a \<and> get_field row ''to_queue_schema'' = PInt b"
  by (auto simp: queue_step_def split: pyval.splits if_splits)

lemma migration_row_quiet:
  assumes "fst (migration_row te acc v) = []"
  shows "fst acc = [] \<and> good_migration v"
proof -
  obtain row where v: "v = PDict row" using assms by (cases v) (auto simp: migration_row_def)
  with assms obtain a b where "queue_step row = Some (a, b)" "a < b" "fst acc = []"
    "get_field row ''reversible'' = PBool False \<longrightarrow> get_field row ''requires_backup'' = PBool True"
    by (auto simp: migration_row_def Let_def split: if_splits option.splits)
  with v queue_step_Some [of row a b] show ?thesis by (simp add: good_migration_def)
qed

lemma accepted_downloads:
  assumes "downloads_reasons te plan = []"
  shows "\<exists>rows. get_field plan ''downloads'' = PList rows \<and> (\<forall>v \<in> set rows. good_download v)"
proof -
  obtain rows where rows: "get_field plan ''downloads'' = PList rows"
    using assms by (auto simp: downloads_reasons_def split: pyval.splits)
  with assms have "fst (foldl (download_row te) ([], []) rows) = []" by (simp add: downloads_reasons_def)
  from foldl_quiet [of "download_row te" good_download, OF download_row_quiet this]
  have "\<forall>v \<in> set rows. good_download v" ..
  with rows show ?thesis by blast
qed

lemma accepted_migrations:
  assumes "migrations_reasons te plan = []" "backup_reasons te plan = Inr []" "rollback_reasons plan = []"
  shows "\<exists>rows backup rollback. get_field plan ''migrations'' = PList rows \<and> get_field plan ''backup'' = PDict backup
    \<and> get_field plan ''rollback'' = PDict rollback \<and> (\<forall>v \<in> set rows. good_migration v)
    \<and> (list_ex wants_backup rows \<longrightarrow> get_field backup ''required'' = PBool True)
    \<and> (rows \<noteq> [] \<longrightarrow> get_field rollback ''supported'' = PBool True)"
proof -
  obtain rows where rows: "get_field plan ''migrations'' = PList rows"
    using assms(1) by (auto simp: migrations_reasons_def split: pyval.splits)
  obtain backup where backup: "get_field plan ''backup'' = PDict backup"
    using assms(2) by (auto simp: backup_reasons_def split: pyval.splits)
  obtain rollback where rollback: "get_field plan ''rollback'' = PDict rollback"
    using assms(3) by (auto simp: rollback_reasons_def split: pyval.splits)
  from assms(1) rows have "fst (foldl (migration_row te) ([], []) rows) = []" by (simp add: migrations_reasons_def)
  from foldl_quiet [of "migration_row te" good_migration, OF migration_row_quiet this]
  have "\<forall>v \<in> set rows. good_migration v" ..
  moreover have "get_field backup ''required'' = PBool True" if "list_ex wants_backup rows"
  proof -
    have "backup_names te rows \<noteq> []" using that by (auto simp: backup_names_def list_ex_iff filter_empty_conv)
    then show ?thesis using assms(2) rows backup by (auto simp: backup_reasons_def iterated_def)
  qed
  moreover have "get_field rollback ''supported'' = PBool True" if "rows \<noteq> []"
    using that assms(3) rows rollback by (auto simp: rollback_reasons_def)
  ultimately show ?thesis using rows backup rollback by blast
qed

definition component_name :: "pyval \<Rightarrow> pyval" where
  "component_name v = get_field (mapping_items v) ''component''"

text \<open>An action that fits the versions.\<close>

definition good_component :: "text_env \<Rightarrow> pyval \<Rightarrow> bool" where
  "good_component te v =
     (\<exists>row. v = PDict row \<and> text_that (\<lambda>s. s \<in> set COMPONENTS) (get_field row ''component'')
        \<and> text_that SHA256_RE (get_field row ''artifact_sha256'') \<and> text_that (SEMVER te) (get_field row ''target_version'')
        \<and> (get_field row ''action'' = PStr ''install'' \<longleftrightarrow> get_field row ''installed_version'' = PNone)
        \<and> (get_field row ''action'' = PStr ''upgrade'' \<longrightarrow> get_field row ''installed_version'' \<noteq> get_field row ''target_version''))"

lemma action_reasons_quiet:
  assumes "action_reasons te row = []" "get_field row ''action'' = PStr a" "a \<in> set ACTIONS"
    "text_that (SEMVER te) (get_field row ''target_version'')"
  shows "(a = ''install'' \<longleftrightarrow> get_field row ''installed_version'' = PNone)
    \<and> (a = ''upgrade'' \<longrightarrow> get_field row ''installed_version'' \<noteq> get_field row ''target_version'')"
proof -
  have "get_field row ''target_version'' \<noteq> PNone" using assms(4) by (auto simp: text_that_def)
  note goal = this
  have "a = ''install'' \<or> a = ''upgrade'' \<or> a = ''reinstall'' \<or> a = ''noop''"
    using assms(3) by (simp add: ACTIONS_def)
  then show ?thesis
    using assms goal by (elim disjE) (simp_all add: action_reasons_def Let_def, metis)
qed

lemma component_row_quiet:
  assumes "component_row te acc (i, v) = Inr r" "fst r = []"
  shows "fst acc = [] \<and> good_component te v \<and> \<not> list_ex (py_eq (component_name v)) (snd acc)
    \<and> snd r = snd acc @ [component_name v]"
proof -
  obtain row where v: "v = PDict row" using assms by (cases v) (auto simp: component_row_def)
  obtain known known_action where checks: "member_of (get_field row ''component'') COMPONENTS = Inr known"
    "member_of (get_field row ''action'') ACTIONS = Inr known_action"
    using assms(1) by (auto simp: component_row_def v Let_def bind_result_eq_Inr)
  with assms have quiet: "known" "known_action" "component_fields te row = []" "action_reasons te row = []" "fst acc = []"
      "\<not> list_ex (py_eq (get_field row ''component'')) (snd acc)" "snd r = snd acc @ [get_field row ''component'']"
    by (auto simp: component_row_def v Let_def)
  obtain a where "get_field row ''action'' = PStr a" "a \<in> set ACTIONS"
    using checks(2) quiet(2) by (auto simp: member_of_def text_that_iff split: if_splits)
  moreover have fine: "text_that (SEMVER te) (get_field row ''target_version'')"
      "text_that SHA256_RE (get_field row ''artifact_sha256'')"
    using quiet(3) by (auto simp: component_fields_def Let_def)
  ultimately have "(get_field row ''action'' = PStr ''install'' \<longleftrightarrow> get_field row ''installed_version'' = PNone)
      \<and> (get_field row ''action'' = PStr ''upgrade'' \<longrightarrow> get_field row ''installed_version'' \<noteq> get_field row ''target_version'')"
    using action_reasons_quiet [OF quiet(4)] by simp
  moreover have "text_that (\<lambda>s. s \<in> set COMPONENTS) (get_field row ''component'')"
    using checks(1) quiet(1) by (auto simp: member_of_def split: if_splits)
  ultimately show ?thesis using quiet fine by (auto simp: good_component_def v component_name_def)
qed

lemma py_eq_refl_text: "py_eq (PStr s) (PStr t) \<longleftrightarrow> s = t"
  by (simp add: py_eq.simps)

lemma component_rows_quiet:
  "fold_result (component_row te) acc (enumerate i rows) = Inr r \<Longrightarrow> fst r = [] \<Longrightarrow>
   fst acc = [] \<and> (\<forall>v \<in> set rows. good_component te v)
   \<and> (\<forall>v \<in> set rows. component_name v \<notin> set (snd acc)) \<and> distinct (map component_name rows)"
proof (induction rows arbitrary: acc i)
  case (Cons v rows)
  obtain s where s: "component_row te acc (i, v) = Inr s"
    and rest: "fold_result (component_row te) s (enumerate (Suc i) rows) = Inr r"
    using Cons.prems(1) by (auto simp: bind_result_eq_Inr)
  note later = Cons.IH [OF rest Cons.prems(2)]
  then have "fst s = []" by blast
  note here = component_row_quiet [OF s this]
  then obtain t where "component_name v = PStr t"
    by (auto simp: good_component_def component_name_def text_that_iff)
  with here have "component_name v \<notin> set (snd acc)" by (auto simp: list_ex_iff py_eq_refl_text)
  with here later show ?case by auto
qed simp

lemma accepted_components:
  assumes "components_reasons te plan = Inr []"
  shows "\<exists>rows. get_field plan ''components'' = PList rows \<and> rows \<noteq> [] \<and> (\<forall>v \<in> set rows. good_component te v)
    \<and> distinct (map component_name rows)"
proof -
  obtain rows where rows: "get_field plan ''components'' = PList rows" "rows \<noteq> []"
    using assms by (auto simp: components_reasons_def split: pyval.splits if_splits)
  then obtain r where "fold_result (component_row te) ([], []) (enumerate 0 rows) = Inr r" "fst r = []"
    using assms by (auto simp: components_reasons_def bind_result_eq_Inr)
  from component_rows_quiet [OF this] rows show ?thesis by auto
qed

lemma accepted_times:
  assumes "head_reasons te plan = Inr []"
  shows "\<exists>c e. get_field plan ''created_at'' = PStr c \<and> get_field plan ''expires_at'' = PStr e \<and> c < e"
proof -
  have "text_that (TIMESTAMP te) (get_field plan ''created_at'')" "text_that (TIMESTAMP te) (get_field plan ''expires_at'')"
    "\<not> timestamps te (get_field plan ''expires_at'') (get_field plan ''created_at'')"
    using assms by (auto simp: head_reasons_def bind_result_eq_Inr)
  then show ?thesis by (auto simp: text_that_iff timestamps_def not_le)
qed

text \<open>
  C38. What an accepted plan may do. It expires after it was created; it names at least one component, each once, and
  installs exactly what is not installed; it downloads only over HTTPS and by digest; its migrations go forward, one
  that cannot be undone has a backup, a backup that is wanted is required, a plan with migrations can be rolled back;
  and it is signed.
\<close>

theorem accepted_plan_is_safe:
  assumes "evaluate te (PDict document) = Inr v" "vd_ok v"
  shows "\<exists>plan created expires components downloads migrations backup rollback trust.
    dict_get document ''plan'' = Some (PDict plan)
    \<and> get_field plan ''created_at'' = PStr created \<and> get_field plan ''expires_at'' = PStr expires \<and> created < expires
    \<and> get_field plan ''components'' = PList components \<and> components \<noteq> []
    \<and> (\<forall>c \<in> set components. good_component te c) \<and> distinct (map component_name components)
    \<and> get_field plan ''downloads'' = PList downloads \<and> (\<forall>d \<in> set downloads. good_download d)
    \<and> get_field plan ''migrations'' = PList migrations \<and> (\<forall>m \<in> set migrations. good_migration m)
    \<and> get_field plan ''backup'' = PDict backup
    \<and> (list_ex wants_backup migrations \<longrightarrow> get_field backup ''required'' = PBool True)
    \<and> get_field plan ''rollback'' = PDict rollback
    \<and> (migrations \<noteq> [] \<longrightarrow> get_field rollback ''supported'' = PBool True)
    \<and> get_field plan ''trust'' = PDict trust \<and> get_field trust ''signature_present'' = PBool True"
proof -
  obtain plan where plan: "accepted te document plan" using evaluate_ok [OF assms] by blast
  then have checks: "head_reasons te plan = Inr []" "components_reasons te plan = Inr []" "downloads_reasons te plan = []"
      "migrations_reasons te plan = []" "backup_reasons te plan = Inr []" "rollback_reasons plan = []" "trust_reasons te plan = []"
    by (simp_all add: accepted_def field_reasons_Nil)
  obtain trust where "get_field plan ''trust'' = PDict trust \<and> get_field trust ''signature_present'' = PBool True"
    using checks(7) by (auto simp: trust_reasons_def split: pyval.splits)
  moreover have "dict_get document ''plan'' = Some (PDict plan)" using plan by (simp add: accepted_def)
  ultimately show ?thesis
    using accepted_times [OF checks(1)] accepted_components [OF checks(2)] accepted_downloads [OF checks(3)]
      accepted_migrations [OF checks(4-6)] by (elim exE conjE) (intro exI conjI; assumption)
qed

section \<open>A plan that is accepted\<close>

definition ex_text :: text_env where
  "ex_text = \<lparr>te_digit = between CHR ''0'' CHR ''9'', te_lower = ascii_lower, te_show = (\<lambda>_. [])\<rparr>"

definition ex_revision :: string where "ex_revision = replicate 40 CHR ''a''"

definition ex_body :: "(string, pyval) dict" where
  "ex_body =
     [(''schema_version'', PInt 1), (''spec_version'', PStr ''2.0.0''), (''plan_id'', PStr ''p''),
      (''created_at'', PStr ''2026-01-01T00:00:00Z''), (''expires_at'', PStr ''2026-01-02T00:00:00Z''),
      (''channel'', PStr ''stable''),
      (''target'', PDict [(''component'', PStr ''axiom-mcp''), (''host'', PStr ''macos-x64''), (''install_root'', PStr ''/i'')]),
      (''components'', PList [PDict [(''component'', PStr ''axiom-mcp''), (''installed_version'', PNone),
          (''installed_revision'', PNone), (''target_version'', PStr ''1.0.0''), (''target_revision'', PStr ex_revision),
          (''artifact_sha256'', PStr (replicate 64 CHR ''b'')), (''action'', PStr ''install'')]]),
      (''downloads'', PList []),
      (''migrations'', PList [PDict [(''migration_id'', PStr ''m''), (''from_queue_schema'', PInt 1),
          (''to_queue_schema'', PInt 2), (''reversible'', PBool False), (''requires_backup'', PBool True)]]),
      (''backup'', PDict [(''required'', PBool True), (''targets'', PList [PStr ''q''])]),
      (''disk_headroom_bytes'', PInt 0), (''service_interruptions'', PList []),
      (''host_reconnect'', PDict [(''required'', PBool False), (''reason'', PStr ''n'')]),
      (''bootstrap_changes'', PList []),
      (''rollback'', PDict [(''supported'', PBool True), (''restores_previous_versions'', PBool True), (''limits'', PList [])]),
      (''trust'', PDict [(''metadata_version'', PInt 1), (''metadata_expiry'', PStr ''2027-01-01T00:00:00Z''),
          (''trust_root'', PStr (replicate 64 CHR ''c'')), (''signature_present'', PBool True)])]"

definition ex_approval :: "string \<Rightarrow> (string, pyval) dict" where
  "ex_approval h = [(''state'', PStr ''approved''), (''approved_by'', PStr ''o''),
     (''approved_at'', PStr ''2026-01-01T01:00:00Z''), (''approved_digest'', PStr h)]"

definition ex_plan :: "string \<Rightarrow> (string, pyval) dict" where
  "ex_plan h = ex_body @ [(''approval'', PDict (ex_approval h)), (''plan_digest'', PStr h)]"

lemma ex_plan_checks:
  "head_reasons ex_text (ex_plan h) = Inr []"
  "target_reasons ex_text (ex_plan h) = Inr []"
  "components_reasons ex_text (ex_plan h) = Inr []"
  "downloads_reasons ex_text (ex_plan h) = []"
  "migrations_reasons ex_text (ex_plan h) = []"
  "backup_reasons ex_text (ex_plan h) = Inr []"
  "interruptions_reasons ex_text (ex_plan h) = Inr []"
  "is_count (get_field (ex_plan h) ''disk_headroom_bytes'') 0"
  "reconnect_reasons (ex_plan h) = []"
  "bootstrap_reasons ex_text (ex_plan h) = []"
  "rollback_reasons (ex_plan h) = []"
  "trust_reasons ex_text (ex_plan h) = []"
  by code_simp+

lemma ex_plan_shape: "undeclared_fields (ex_plan h) = []" "missing_fields (ex_plan h) = []"
  by code_simp+

text \<open>Both placeholders hold the letter \<open>L\<close>: an ASCII text without it, such as a digest, is none.\<close>

lemma literal_i_needs:
  "ends w (literal_i s) (q, t) \<noteq> [] \<Longrightarrow> c \<in> set s \<Longrightarrow> \<exists>p \<in> set t. same_letter c p"
proof (induction s arbitrary: q t)
  case (Cons d s)
  then obtain p rest where t: "t = p # rest" "same_letter d p" "ends w (literal_i s) (Some p, rest) \<noteq> []"
    by (cases t) (auto split: if_splits)
  show ?case
  proof (cases "c = d")
    case False
    with Cons.IH [OF t(3)] Cons.prems(2) t(1) show ?thesis by auto
  qed (use t in auto)
qed simp

lemma search_needs: "search_points PLACEHOLDER t \<Longrightarrow> \<exists>p \<in> set t. same_letter CHR ''L'' p"
proof (induction t)
  case Nil
  then show ?case by (simp add: PLACEHOLDER_def)
next
  case (Cons c t)
  have "\<exists>p \<in> set (c # t). same_letter CHR ''L'' p"
    if "ends (\<lambda>_. False) (literal_i s) (None, c # t) \<noteq> []" "CHR ''L'' \<in> set s" for s
    using literal_i_needs [OF that] .
  then have "\<exists>p \<in> set (c # t). same_letter CHR ''L'' p"
    if "ends (\<lambda>_. False) PLACEHOLDER (None, c # t) \<noteq> []"
    using that [unfolded PLACEHOLDER_def ends.simps append_is_Nil_conv de_Morgan_conj]
    by (elim disjE) (simp del: literal_i.simps ends.simps)+
  with Cons show ?case by auto
qed

definition no_letter_l :: "string \<Rightarrow> bool" where
  "no_letter_l s = list_all (\<lambda>c. (of_char c :: nat) < 128 \<and> c \<noteq> CHR ''L'' \<and> c \<noteq> CHR ''l'') s"

lemma ascii_points: "list_all (\<lambda>c. (of_char c :: nat) < 128) s \<Longrightarrow> points_of s = map (\<lambda>c. [c]) s"
proof (induction s)
  case (Cons c s)
  then have "takeWhile continues s = []" "dropWhile continues s = s"
    by (cases s; simp add: continues_def)+
  with Cons show ?case by simp
qed simp

lemma same_letter_l: "same_letter CHR ''L'' [c] \<Longrightarrow> c = CHR ''L'' \<or> c = CHR ''l''"
proof -
  assume "same_letter CHR ''L'' [c]"
  moreover have "ascii_lower ''L'' = ''l''" by code_simp
  ultimately have "ascii_lower [c] = ''l''" by (simp add: same_letter_def CASE_EXTRAS_def)
  then have "(if 65 \<le> (of_char c :: nat) \<and> (of_char c :: nat) \<le> 90 then char_of ((of_char c :: nat) + 32) else c) = CHR ''l''"
    by (simp add: ascii_lower_def)
  then show ?thesis
  proof (cases "65 \<le> (of_char c :: nat) \<and> (of_char c :: nat) \<le> 90")
    case True
    with \<open>_ = CHR ''l''\<close> have "(of_char (char_of ((of_char c :: nat) + 32) :: char) :: nat) = of_char CHR ''l''" by simp
    with True have "(of_char c :: nat) = of_char CHR ''L''" by (simp add: of_char_of)
    then show ?thesis by (simp only: of_char_eq_iff simp_thms)
  qed auto
qed

lemma placeholders_no_l: "no_letter_l s \<Longrightarrow> placeholders path (PStr s) = []"
proof -
  assume s: "no_letter_l s"
  then have "points_of s = map (\<lambda>c. [c]) s"
    by (intro ascii_points) (auto simp: no_letter_l_def list_all_iff)
  moreover have "\<not> same_letter CHR ''L'' [c]" if "c \<in> set s" for c
    using same_letter_l [of c] s that by (auto simp: no_letter_l_def list_all_iff)
  ultimately show ?thesis
    using search_needs [of "points_of s"] by (auto simp: note_if_def)
qed

lemma hex_no_l: "list_all is_hex s \<Longrightarrow> no_letter_l s"
  by (auto simp: no_letter_l_def list_all_iff is_hex_def is_digit_def in_range_def less_eq_char_def)

definition ex_plan_digest :: string where
  "ex_plan_digest = plan_digest ex_body"

lemma ex_digest_hex: "list_all is_hex ex_plan_digest" "SHA256_RE ex_plan_digest"
  by (simp_all add: ex_plan_digest_def plan_digest_def sha256_hex_hex sha256_hex_RE)

text \<open>The texts of the example.\<close>

fun texts_of :: "pyval \<Rightarrow> string list" and entries_texts :: "(string \<times> pyval) list \<Rightarrow> string list"
  and items_texts :: "pyval list \<Rightarrow> string list" where
  "texts_of (PStr s) = [s]"
| "texts_of (PDict d) = entries_texts d"
| "texts_of (PList xs) = items_texts xs"
| "texts_of _ = []"
| "entries_texts [] = []"
| "entries_texts ((k, v) # d) = texts_of v @ entries_texts d"
| "items_texts [] = []"
| "items_texts (x # xs) = texts_of x @ items_texts xs"

lemma placeholders_texts:
  "(\<forall>s \<in> set (texts_of v). \<not> search_points PLACEHOLDER (points_of s)) \<Longrightarrow> placeholders path v = []"
  "(\<forall>s \<in> set (entries_texts d). \<not> search_points PLACEHOLDER (points_of s)) \<Longrightarrow>
     \<forall>p \<in> set (placeholder_entries path d). snd p = []"
  "(\<forall>s \<in> set (items_texts xs). \<not> search_points PLACEHOLDER (points_of s)) \<Longrightarrow> placeholder_items path i xs = []"
  by (induction path v and path d and path i xs rule: placeholders_placeholder_entries_placeholder_items.induct)
    (auto simp: note_if_def)

lemma no_l_search: "no_letter_l s \<Longrightarrow> \<not> search_points PLACEHOLDER (points_of s)"
  using placeholders_no_l [of s "[]"] by (simp add: note_if_def split: if_splits)

lemma list_all_cover:
  "list_all (\<lambda>s. A s \<or> s \<in> set xs) ts \<Longrightarrow> list_all Q xs \<Longrightarrow> (\<And>s. A s \<Longrightarrow> Q s) \<Longrightarrow> list_all Q ts"
  by (auto simp: list_all_iff)

lemma ex_plan_placeholders: "unresolved_placeholders (ex_plan ex_plan_digest) = []"
proof -
  let ?Q = "\<lambda>s. \<not> search_points PLACEHOLDER (points_of s)"
  have "list_all (\<lambda>s. no_letter_l s \<or> s \<in> set [''stable'', ''install'']) (entries_texts ex_body)" by code_simp
  moreover have "list_all ?Q [''stable'', ''install'']" by code_simp
  ultimately have body: "list_all ?Q (entries_texts ex_body)"
    using no_l_search by (rule list_all_cover)
  have "no_letter_l ''approved''" "no_letter_l ''o''" "no_letter_l ''2026-01-01T01:00:00Z''" by code_simp+
  from this [THEN no_l_search] no_l_search [OF hex_no_l [OF ex_digest_hex(1)]]
  have rest: "list_all ?Q [''approved'', ''o'', ''2026-01-01T01:00:00Z'', ex_plan_digest, ex_plan_digest]"
    by (simp only: list.pred_inject simp_thms)
  have "entries_texts (ex_body @ d) = entries_texts ex_body @ entries_texts d" for d
    by (simp add: ex_body_def)
  then have "entries_texts (ex_plan ex_plan_digest) =
      entries_texts ex_body @ [''approved'', ''o'', ''2026-01-01T01:00:00Z'', ex_plan_digest, ex_plan_digest]"
    by (simp add: ex_plan_def ex_approval_def)
  then have "list_all ?Q (entries_texts (ex_plan ex_plan_digest))"
    using body rest by (simp only: list_all_append simp_thms)
  then have "placeholders ''$'' (PDict (ex_plan ex_plan_digest)) = []"
    unfolding list_all_iff by (intro placeholders_texts(1)) (simp only: texts_of.simps)
  then show ?thesis by (simp add: unresolved_placeholders_def del: placeholders.simps)
qed

lemma ex_plan_digest_is: "plan_digest (ex_plan h) = ex_plan_digest"
proof -
  have "filter (\<lambda>p. fst p \<notin> set DIGEST_EXCLUDED) (ex_plan h) = filter (\<lambda>p. fst p \<notin> set DIGEST_EXCLUDED) ex_body"
    by (simp add: ex_plan_def DIGEST_EXCLUDED_def)
  then show ?thesis by (simp add: ex_plan_digest_def plan_digest_def canonical_plan_bytes_def)
qed

lemma ex_plan_fields:
  "get_field (ex_plan h) ''plan_digest'' = PStr h"
  "get_field (ex_plan h) ''approval'' = PDict (ex_approval h)"
  "get_field (ex_approval h) ''state'' = PStr ''approved''"
  "get_field (ex_approval h) ''approved_by'' = PStr ''o''"
  "get_field (ex_approval h) ''approved_at'' = PStr ''2026-01-01T01:00:00Z''"
  "get_field (ex_approval h) ''approved_digest'' = PStr h"
  by (simp_all add: get_field_def ex_plan_def ex_body_def ex_approval_def)

lemma ex_plan_approved: "SHA256_RE h \<Longrightarrow> approval_block ex_text (ex_plan h) = Inr []"
proof -
  assume h: "SHA256_RE h"
  have "member_of (PStr ''approved'') APPROVAL_STATES = Inr True" "filled_text (PStr ''o'')"
    "text_that (TIMESTAMP ex_text) (PStr ''2026-01-01T01:00:00Z'')" by code_simp+
  with h show ?thesis by (simp add: approval_block_def ex_plan_fields text_that_def)
qed

definition ex_plan_document :: "(string, pyval) dict" where
  "ex_plan_document = [(''plan'', PDict (ex_plan ex_plan_digest)), (''approved_digest'', PStr ex_plan_digest)]"

lemma ex_plan_document_accepted:
  "\<exists>v. evaluate ex_text (PDict ex_plan_document) = Inr v \<and> vd_ok v"
proof -
  have "digest_reasons (ex_plan ex_plan_digest) = []"
    by (simp add: digest_reasons_def ex_plan_fields ex_plan_digest_is ex_digest_hex text_that_def)
  then have "field_reasons ex_text (ex_plan ex_plan_digest) = Inr []"
    by (simp add: field_reasons_Nil ex_plan_checks ex_plan_approved ex_digest_hex)
  then have "structural_reasons ex_text (PDict (ex_plan ex_plan_digest)) = Inr []"
    by (simp add: structural_reasons_def ex_plan_shape ex_plan_placeholders)
  moreover have "approval_reasons (PDict (ex_plan ex_plan_digest)) (PStr ex_plan_digest) = []"
    by (simp add: approval_reasons_def ex_plan_digest_is ex_plan_fields ex_digest_hex text_that_def)
  ultimately show ?thesis
    by (simp add: evaluate_def ex_plan_document_def DOCUMENT_KEYS_def)
qed

theorem approval_binds_the_plan_witness:
  "get_field (ex_plan ex_plan_digest) ''plan_digest'' = PStr (sha256_hex (canonical_plan_bytes (ex_plan ex_plan_digest)))"
  using ex_plan_document_accepted approval_binds_the_plan [of ex_text ex_plan_document]
  by (auto simp: ex_plan_document_def)

theorem accepted_plan_is_safe_witness:
  "\<exists>migrations backup. get_field (ex_plan ex_plan_digest) ''migrations'' = PList migrations
     \<and> get_field (ex_plan ex_plan_digest) ''backup'' = PDict backup \<and> get_field backup ''required'' = PBool True"
proof -
  obtain v where "evaluate ex_text (PDict ex_plan_document) = Inr v" "vd_ok v" using ex_plan_document_accepted by blast
  from accepted_plan_is_safe [OF this] obtain plan migrations backup where
    plan: "dict_get ex_plan_document ''plan'' = Some (PDict plan)" "get_field plan ''migrations'' = PList migrations"
      "get_field plan ''backup'' = PDict backup"
      "list_ex wants_backup migrations \<longrightarrow> get_field backup ''required'' = PBool True" by blast
  have same: "plan = ex_plan ex_plan_digest" using plan(1) by (simp add: ex_plan_document_def)
  have "(case get_field (ex_plan h) ''migrations'' of PList ms \<Rightarrow> list_ex wants_backup ms | _ \<Rightarrow> False)" for h by code_simp
  then have "list_ex wants_backup migrations" using plan(2) unfolding same by (metis pyval.simps(54))
  with plan show ?thesis unfolding same by blast
qed

section \<open>Where the evaluator falls short\<close>

text \<open>
  A trust root that is neither absent nor a text is taken for resolved. And a value that cannot be hashed, where a
  name is expected, raises a \<open>TypeError\<close> that no caller catches, in place of a named reason.
\<close>

theorem any_trust_root_resolves:
  "trust_reasons ex_text (dict_set ''trust'' (PDict [(''metadata_version'', PInt 1),
     (''metadata_expiry'', PStr ''2027-01-01T00:00:00Z''), (''trust_root'', PInt 5), (''signature_present'', PBool True)])
     (ex_plan h)) = []"
  by code_simp

theorem channel_list_raises:
  "structural_reasons ex_text (PDict (dict_set ''channel'' (PList []) (ex_plan h))) = Inl PlanTypeError"
proof -
  have "head_reasons ex_text (dict_set ''channel'' (PList []) (ex_plan h)) = Inl PlanTypeError"
    "undeclared_fields (dict_set ''channel'' (PList []) (ex_plan h)) = []"
    "missing_fields (dict_set ''channel'' (PList []) (ex_plan h)) = []" by code_simp+
  then show ?thesis by (simp add: structural_reasons_def field_reasons_def)
qed

end
