(* ===== verification/Version.thy ===== *)
theory Version
  imports Redaction Manifest
begin

text \<open>
  \<open>version.py\<close>: the pins of this component and what the running process is measured against. What the process
  sees of itself is the record \<open>runtime_env\<close>: the interpreter, the installed distributions and the protocol
  revisions the SDK advertises. Modules and attributes of the SDK are values of any type, read by the arguments
  \<open>getattr\<close>, \<open>params_of\<close> and \<open>fields_of\<close>. \<open>str.isdigit\<close> and \<open>int\<close> of a text are arguments too.
\<close>

section \<open>The pins\<close>

definition COMPONENT :: string where "COMPONENT = ''axiom-mcp''"
definition VERSION :: string where "VERSION = ''0.1.12''"
definition SPEC_VERSION :: string where "SPEC_VERSION = ''2.0.0-draft.1''"
definition SPEC_REVISION :: string where "SPEC_REVISION = ''336756510dd7ca03fc6d6dbb49c3d36e9253a48e''"
definition GRAPH_SCHEMA :: int where "GRAPH_SCHEMA = 1"
definition QUEUE_SCHEMA :: int where "QUEUE_SCHEMA = 1"
definition CONTROL_API :: int where "CONTROL_API = 1"
definition PYTHON_REQUIRES :: string where "PYTHON_REQUIRES = ''>=3.13,<3.14''"
definition PYTHON_MIN :: "int list" where "PYTHON_MIN = [3, 13]"
definition PYTHON_MAX_EXCLUSIVE :: "int list" where "PYTHON_MAX_EXCLUSIVE = [3, 14]"
definition SDK_PACKAGE :: string where "SDK_PACKAGE = ''mcp''"
definition SDK_PIN :: string where "SDK_PIN = ''1.28.1''"
definition MCP_PROTOCOL_MINIMUM :: string where "MCP_PROTOCOL_MINIMUM = ''2025-11-25''"

definition RUNTIME_PINS :: "(string, string) dict" where
  "RUNTIME_PINS =
     [(''mcp'', ''1.28.1''), (''fastapi'', ''0.139.2''), (''uvicorn'', ''0.51.0''), (''starlette'', ''1.3.1''),
      (''pydantic'', ''2.13.4''), (''anyio'', ''4.14.2''), (''httpx'', ''0.28.1'')]"

definition UPDATE_STATUS_VALUES :: "string list" where
  "UPDATE_STATUS_VALUES = [''not_checked'', ''current'', ''available'', ''offline'', ''unconfigured'', ''blocked'']"

record surface_entry =
  se_module :: string
  se_attribute :: string
  se_params :: "string list"
  se_fields :: "string list"

definition surface :: "string \<Rightarrow> string \<Rightarrow> string list \<Rightarrow> string list \<Rightarrow> surface_entry" where
  "surface module_name attribute params names =
     \<lparr>se_module = module_name, se_attribute = attribute, se_params = params, se_fields = names\<rparr>"

definition SDK_SURFACE :: "surface_entry list" where
  "SDK_SURFACE =
     [surface ''mcp.server.fastmcp'' ''FastMCP.streamable_http_app'' [] [],
      surface ''mcp.server.fastmcp'' ''FastMCP.run_stdio_async'' [] [],
      surface ''mcp.server.fastmcp'' ''FastMCP.session_manager'' [] [],
      surface ''mcp.server.fastmcp'' ''FastMCP.__init__''
        [''lifespan'', ''streamable_http_path'', ''host'', ''port'', ''json_response'', ''stateless_http'',
         ''transport_security''] [],
      surface ''mcp.server.transport_security'' ''TransportSecuritySettings'' []
        [''enable_dns_rebinding_protection'', ''allowed_hosts'', ''allowed_origins''],
      surface ''mcp.server.streamable_http'' ''SUPPORTED_PROTOCOL_VERSIONS'' [] [],
      surface ''mcp.types'' ''LATEST_PROTOCOL_VERSION'' [] [],
      surface ''mcp.server.lowlevel'' ''Server'' [] []]"

section \<open>Versions\<close>

datatype version_error = VersionValueError

record digit_text =
  dt_isdigit :: "string \<Rightarrow> bool"
  dt_int :: "string list \<Rightarrow> int option"

text \<open>
  The parts of a dotted version, over the code points of each chunk: the leading digits of a chunk, until a chunk
  has none. \<open>int\<close> refuses some of the characters \<open>isdigit\<close> accepts.
\<close>

fun version_parts :: "digit_text \<Rightarrow> string list list \<Rightarrow> version_error + int list" where
  "version_parts dt [] = Inr []"
| "version_parts dt (chunk # later) =
     (let digits = takeWhile (dt_isdigit dt) chunk in
      if digits = [] then Inr []
      else (case dt_int dt digits of
          None \<Rightarrow> Inl VersionValueError
        | Some n \<Rightarrow> bind_result (version_parts dt later) (\<lambda>rest. Inr (n # rest))))"

definition parse_version :: "digit_text \<Rightarrow> string \<Rightarrow> version_error + int list" where
  "parse_version dt s = version_parts dt (map points_of (split_on CHR ''.'' s))"

definition in_python_line :: "int list \<Rightarrow> bool" where
  "in_python_line parsed =
     (2 \<le> length parsed \<and> PYTHON_MIN \<le> take 2 parsed \<and> take 2 parsed < PYTHON_MAX_EXCLUSIVE)"

record runtime_env =
  rt_python :: "int \<times> int \<times> int"
  rt_platform :: string
  rt_installed :: "string \<Rightarrow> string option"
  rt_advertised :: "string list"

definition python_tuple :: "runtime_env \<Rightarrow> int list" where
  "python_tuple rt = (case rt_python rt of (a, b, c) \<Rightarrow> [a, b, c])"

datatype python_version = RunningPython | VersionText string | VersionTuple "int list"

definition python_supported ::
    "digit_text \<Rightarrow> runtime_env \<Rightarrow> python_version \<Rightarrow> version_error + bool" where
  "python_supported dt rt v =
     (case v of
        RunningPython \<Rightarrow> Inr (in_python_line (python_tuple rt))
      | VersionTuple t \<Rightarrow> Inr (in_python_line t)
      | VersionText s \<Rightarrow> bind_result (parse_version dt s) (\<lambda>t. Inr (in_python_line t)))"

definition shown_version :: "runtime_env \<Rightarrow> python_version \<Rightarrow> string" where
  "shown_version rt v =
     (case v of
        RunningPython \<Rightarrow> join_with ''.'' (map int_repr (python_tuple rt))
      | VersionTuple t \<Rightarrow> join_with ''.'' (map int_repr t)
      | VersionText s \<Rightarrow> s)"

definition sdk_compatibility_reasons ::
    "digit_text \<Rightarrow> runtime_env \<Rightarrow> string option \<Rightarrow> python_version
       \<Rightarrow> version_error + string list" where
  "sdk_compatibility_reasons dt rt sdk v =
     bind_result (python_supported dt rt v) (\<lambda>supported.
       (let python = (if supported then [] else [''python_version_unsupported:'' @ shown_version rt v]) in
        case (case sdk of None \<Rightarrow> rt_installed rt SDK_PACKAGE | Some s \<Rightarrow> Some s) of
          None \<Rightarrow> Inr (python @ [''sdk_not_installed:'' @ SDK_PACKAGE])
        | Some s \<Rightarrow> Inr (python @ (if s \<noteq> SDK_PIN then [''sdk_version_unsupported:'' @ s] else []))))"

definition protocol_support_reasons :: "string list \<Rightarrow> string \<Rightarrow> string list" where
  "protocol_support_reasons advertised minimum =
     (if advertised = [] then [''protocol_advertisement_empty:'' @ minimum]
      else if minimum \<notin> set advertised then [''protocol_revision_missing:'' @ minimum]
      else [])"

definition advertised_protocol_versions :: "runtime_env \<Rightarrow> string list" where
  "advertised_protocol_versions rt = sort (rt_advertised rt)"

section \<open>The surface of the SDK\<close>

fun resolve_attribute :: "('o \<Rightarrow> string \<Rightarrow> 'o option) \<Rightarrow> 'o \<Rightarrow> string list \<Rightarrow> 'o option" where
  "resolve_attribute getattr node [] = Some node"
| "resolve_attribute getattr node (part # parts) =
     (case getattr node part of None \<Rightarrow> None | Some next_node \<Rightarrow> resolve_attribute getattr next_node parts)"

text \<open>What one entry of the surface reports of a module that was found.\<close>

definition attribute_reasons ::
    "('o \<Rightarrow> string \<Rightarrow> 'o option) \<Rightarrow> ('o \<Rightarrow> string list option) \<Rightarrow> ('o \<Rightarrow> string list option) \<Rightarrow> 'o
       \<Rightarrow> surface_entry \<Rightarrow> string list" where
  "attribute_reasons getattr params_of fields_of module entry =
     (let name = se_module entry @ '':'' @ se_attribute entry in
      case resolve_attribute getattr module (split_on CHR ''.'' (se_attribute entry)) of
        None \<Rightarrow> [''sdk_attribute_missing:'' @ name]
      | Some goal \<Rightarrow>
          (case (if se_params entry = [] then Some [] else params_of goal) of
             None \<Rightarrow> [''sdk_signature_unavailable:'' @ name]
           | Some params \<Rightarrow>
               map (\<lambda>p. ''sdk_parameter_missing:'' @ name @ '':'' @ p) (filter (\<lambda>p. p \<notin> set params) (se_params entry))
               @ (if se_fields entry = [] then []
                  else (case fields_of goal of
                      None \<Rightarrow> [''sdk_fields_unavailable:'' @ name]
                    | Some names \<Rightarrow>
                        map (\<lambda>f. ''sdk_field_missing:'' @ name @ '':'' @ f)
                          (filter (\<lambda>f. f \<notin> set names) (se_fields entry))))))"

text \<open>The modules found are kept; one that cannot be imported is the name of the exception.\<close>

definition surface_step ::
    "('o \<Rightarrow> string \<Rightarrow> 'o option) \<Rightarrow> ('o \<Rightarrow> string list option) \<Rightarrow> ('o \<Rightarrow> string list option)
       \<Rightarrow> (string \<Rightarrow> string + 'o) \<Rightarrow> (string, 'o) dict \<times> string list \<Rightarrow> surface_entry
       \<Rightarrow> (string, 'o) dict \<times> string list" where
  "surface_step getattr params_of fields_of resolve acc entry =
     (case (case dict_get (fst acc) (se_module entry) of
              Some m \<Rightarrow> Inr m | None \<Rightarrow> resolve (se_module entry)) of
        Inl exception \<Rightarrow> (fst acc, snd acc @ [''sdk_module_missing:'' @ se_module entry @ '':'' @ exception])
      | Inr m \<Rightarrow>
          (dict_set (se_module entry) m (fst acc), snd acc @ attribute_reasons getattr params_of fields_of m entry))"

definition sdk_surface_reasons ::
    "('o \<Rightarrow> string \<Rightarrow> 'o option) \<Rightarrow> ('o \<Rightarrow> string list option) \<Rightarrow> ('o \<Rightarrow> string list option)
       \<Rightarrow> (string, 'o) dict \<Rightarrow> (string \<Rightarrow> string + 'o) \<Rightarrow> string list" where
  "sdk_surface_reasons getattr params_of fields_of modules resolve =
     snd (foldl (surface_step getattr params_of fields_of resolve) (modules, []) SDK_SURFACE)"

section \<open>Pins and the report\<close>

definition installed_versions :: "runtime_env \<Rightarrow> string list \<Rightarrow> (string, string option) dict" where
  "installed_versions rt names =
     foldl (\<lambda>d n. dict_set n (rt_installed rt n) d) [] (if names = [] then dict_keys RUNTIME_PINS else names)"

definition pin_reasons :: "runtime_env \<Rightarrow> string \<times> string \<Rightarrow> string list" where
  "pin_reasons rt pin =
     (case rt_installed rt (fst pin) of
        None \<Rightarrow> [''runtime_not_installed:'' @ fst pin]
      | Some v \<Rightarrow> if v \<noteq> snd pin then [''runtime_version_unsupported:'' @ fst pin @ '':'' @ v] else [])"

definition runtime_pin_reasons :: "digit_text \<Rightarrow> runtime_env \<Rightarrow> version_error + string list" where
  "runtime_pin_reasons dt rt =
     bind_result (sdk_compatibility_reasons dt rt None RunningPython) (\<lambda>reasons.
       Inr (reasons @ concat (map (pin_reasons rt) RUNTIME_PINS)))"

definition version_report :: "string \<Rightarrow> string \<Rightarrow> version_error + (string, pyval) dict" where
  "version_report build_revision update_status =
     (if update_status \<notin> set UPDATE_STATUS_VALUES then Inl VersionValueError
      else if build_revision = [] then Inl VersionValueError
      else Inr
        [(''component'', PStr COMPONENT), (''version'', PStr VERSION), (''spec_version'', PStr SPEC_VERSION),
         (''graph_schema'', PInt GRAPH_SCHEMA), (''control_api'', PInt CONTROL_API), (''queue_schema'', PInt QUEUE_SCHEMA),
         (''build_revision'', PStr build_revision), (''update_status'', PStr update_status)])"

section \<open>What compatible means\<close>

lemma python_line:
  "in_python_line [a, b, c] \<longleftrightarrow> a = 3 \<and> b = 13"
  by (auto simp: in_python_line_def PYTHON_MIN_def PYTHON_MAX_EXCLUSIVE_def)

text \<open>
  The runtime is reported compatible exactly when the interpreter is of the pinned 3.13 line and every pinned
  distribution is installed at exactly its pin; a missing or different one is always a reason.
\<close>

theorem runtime_pins_exact:
  "runtime_pin_reasons dt rt = Inr [] \<longleftrightarrow>
     fst (rt_python rt) = 3 \<and> fst (snd (rt_python rt)) = 13
     \<and> map (\<lambda>pin. rt_installed rt (fst pin)) RUNTIME_PINS = map (\<lambda>pin. Some (snd pin)) RUNTIME_PINS"
proof -
  obtain a b c where python: "rt_python rt = (a, b, c)" by (metis prod.exhaust)
  have pin: "pin_reasons rt pin = [] \<longleftrightarrow> rt_installed rt (fst pin) = Some (snd pin)" for pin
    by (auto simp: pin_reasons_def split: option.splits)
  have pins: "concat (map (pin_reasons rt) RUNTIME_PINS) = [] \<longleftrightarrow>
      map (\<lambda>pin. rt_installed rt (fst pin)) RUNTIME_PINS = map (\<lambda>pin. Some (snd pin)) RUNTIME_PINS"
    by (auto simp: pin)
  have sdk: "rt_installed rt SDK_PACKAGE = Some SDK_PIN"
    if "map (\<lambda>pin. rt_installed rt (fst pin)) RUNTIME_PINS = map (\<lambda>pin. Some (snd pin)) RUNTIME_PINS"
    using that by (simp add: RUNTIME_PINS_def SDK_PACKAGE_def SDK_PIN_def)
  show ?thesis
    using pins sdk
    by (auto simp: runtime_pin_reasons_def sdk_compatibility_reasons_def python_supported_def python_tuple_def python
        python_line split: option.splits if_splits)
qed

end
