(* ===== verification/Update.thy ===== *)
theory Update
  imports Plan Version Tools Envelope
begin

text \<open>
  \<open>update.py\<close> and \<open>tools/version.py\<close>: the update check, the delegation of an approved plan to the external
  updater, and the tool that reports both and installs nothing. The environment is a dictionary; reading and
  parsing a metadata file is the argument \<open>read\<close>, whose left is the type name of the exception it raised; the
  runner a plan is handed to is a step on a state of its own, so what was run can be told from the state.
\<close>

section \<open>Settings\<close>

type_synonym environ = "(string, string) dict"

definition CHANNEL_ENV :: string where "CHANNEL_ENV = ''AXIOM_MCP_UPDATE_CHANNEL''"
definition ORIGIN_ENV :: string where "ORIGIN_ENV = ''AXIOM_MCP_UPDATE_ORIGIN''"
definition METADATA_ENV :: string where "METADATA_ENV = ''AXIOM_MCP_UPDATE_METADATA''"
definition OFFLINE_ENV :: string where "OFFLINE_ENV = ''AXIOM_MCP_OFFLINE''"
definition AUTO_CHECK_ENV :: string where "AUTO_CHECK_ENV = ''AXIOM_MCP_UPDATE_AUTO_CHECK''"
definition AUTO_APPLY_ENV :: string where "AUTO_APPLY_ENV = ''AXIOM_MCP_UPDATE_AUTO_APPLY''"
definition ALLOWED_ORIGINS_ENV :: string where "ALLOWED_ORIGINS_ENV = ''AXIOM_MCP_UPDATE_ALLOWED_ORIGINS''"
definition CANONICAL_ORIGIN :: string where "CANONICAL_ORIGIN = ''https://github.com/orchex006/axiom-mcp''"
definition ALLOWED_ORIGINS :: "string list" where "ALLOWED_ORIGINS = [CANONICAL_ORIGIN]"
definition ORCHESTRATOR :: string where "ORCHESTRATOR = ''axiom''"
definition ORCHESTRATOR_SUBCOMMAND :: "string list" where "ORCHESTRATOR_SUBCOMMAND = [''update'', ''apply'', ''--plan'']"
definition PIP_PROGRAMS :: "string list" where "PIP_PROGRAMS = [''pip'', ''pip3'', ''uv'', ''uvx'', ''easy_install'']"

text \<open>\<open>env.get(key) or default\<close>.\<close>

definition env_or :: "environ \<Rightarrow> string \<Rightarrow> string \<Rightarrow> string" where
  "env_or env key dflt = (case dict_get env key of None \<Rightarrow> dflt | Some v \<Rightarrow> if v = [] then dflt else v)"

definition flag :: "(string \<Rightarrow> string) \<Rightarrow> string option \<Rightarrow> bool \<Rightarrow> bool" where
  "flag lower v dflt =
     (case v of
        None \<Rightarrow> dflt
      | Some s \<Rightarrow>
          if strip s = [] then dflt
          else if lower (strip s) \<in> set [''1'', ''true'', ''yes'', ''on'', ''enabled''] then True
          else if lower (strip s) \<in> set [''0'', ''false'', ''no'', ''off'', ''disabled''] then False
          else dflt)"

definition allowed_origins :: "environ \<Rightarrow> string list" where
  "allowed_origins env =
     foldl add_new ALLOWED_ORIGINS
       (filter (\<lambda>i. i \<noteq> []) (map strip (split_on CHR '','' (env_or env ALLOWED_ORIGINS_ENV []))))"

definition schema_range :: "(string, pyval) dict" where
  "schema_range =
     [(''graph_schema'', PInt GRAPH_SCHEMA), (''queue_schema'', PInt QUEUE_SCHEMA), (''control_api'', PInt CONTROL_API)]"

definition update_policy :: "(string \<Rightarrow> string) \<Rightarrow> environ \<Rightarrow> (string, pyval) dict" where
  "update_policy lower env =
     [(''auto_check'', PBool (flag lower (dict_get env AUTO_CHECK_ENV) True)),
      (''auto_apply'', PStr (env_or env AUTO_APPLY_ENV ''disabled'')),
      (''plan_approval_required'', PBool True),
      (''offline'', PBool (flag lower (dict_get env OFFLINE_ENV) False))]"

section \<open>The update check\<close>

datatype update_status = NotChecked | Current | Available | Offline | Unconfigured | Blocked

fun status_text :: "update_status \<Rightarrow> string" where
  "status_text NotChecked = ''not_checked''"
| "status_text Current = ''current''"
| "status_text Available = ''available''"
| "status_text Offline = ''offline''"
| "status_text Unconfigured = ''unconfigured''"
| "status_text Blocked = ''blocked''"

record update_check =
  uc_installed :: string
  uc_available :: "string option"
  uc_compatible :: "bool option"
  uc_channel :: string
  uc_source_origin :: "string option"
  uc_status :: update_status
  uc_needs_restart :: bool
  uc_reasons :: "string list"
  uc_policy :: "(string, pyval) dict"

definition optional_text_value :: "string option \<Rightarrow> pyval" where
  "optional_text_value v = (case v of None \<Rightarrow> PNone | Some s \<Rightarrow> PStr s)"

definition optional_truth :: "bool option \<Rightarrow> pyval" where
  "optional_truth v = (case v of None \<Rightarrow> PNone | Some b \<Rightarrow> PBool b)"

definition uc_as_report :: "update_check \<Rightarrow> (string, pyval) dict" where
  "uc_as_report c =
     [(''component'', PStr COMPONENT), (''installed'', PStr (uc_installed c)), (''available'', optional_text_value (uc_available c)),
      (''compatible'', optional_truth (uc_compatible c)), (''channel'', PStr (uc_channel c)),
      (''schema_range'', PDict schema_range), (''update_policy'', PDict (uc_policy c)),
      (''source_origin'', optional_text_value (uc_source_origin c)), (''needs_restart'', PBool (uc_needs_restart c)),
      (''status'', PStr (status_text (uc_status c))), (''reasons'', PList (map PStr (uc_reasons c)))]"

datatype update_error =
    UpdateUnavailable string
  | PlanRejected "string list"
  | InPlaceUpgradeRefused "string list"
  | UpdateAttributeError
  | EvaluatorRaised plan_error

text \<open>A check that has no answer.\<close>

definition no_answer ::
    "string \<Rightarrow> string \<Rightarrow> (string, pyval) dict \<Rightarrow> string option \<Rightarrow> update_status \<Rightarrow> string \<Rightarrow> update_check" where
  "no_answer installed channel policy origin status reason =
     \<lparr>uc_installed = installed, uc_available = None, uc_compatible = None, uc_channel = channel,
      uc_source_origin = origin, uc_status = status, uc_needs_restart = False, uc_reasons = [reason], uc_policy = policy\<rparr>"

text \<open>The metadata document: given, or read from the path given or configured.\<close>

definition metadata_document ::
    "(string \<Rightarrow> string + pyval) \<Rightarrow> environ \<Rightarrow> pyval option \<Rightarrow> string option \<Rightarrow> string + pyval" where
  "metadata_document read env metadata metadata_path =
     (case metadata of
        Some v \<Rightarrow> Inr v
      | None \<Rightarrow>
          (let candidate = (case metadata_path of Some p \<Rightarrow> p | None \<Rightarrow> env_or env METADATA_ENV []) in
           if candidate = [] then Inr PNone else read candidate))"

text \<open>What a metadata document says.\<close>

definition answered :: "string \<Rightarrow> string \<Rightarrow> (string, pyval) dict \<Rightarrow> string option \<Rightarrow> (string, pyval) dict \<Rightarrow> update_check" where
  "answered installed channel policy origin document =
     (case get_field document ''available'' of
        PStr available \<Rightarrow>
          if strip available = []
          then no_answer installed channel policy origin NotChecked ''metadata_names_no_available_version''
          else
            (let compatible = (case get_field document ''compatible'' of PBool b \<Rightarrow> Some b | _ \<Rightarrow> None);
                 status = (if compatible = Some False then Blocked else if available = installed then Current else Available)
             in \<lparr>uc_installed = installed, uc_available = Some available, uc_compatible = compatible, uc_channel = channel,
                 uc_source_origin = origin, uc_status = status, uc_needs_restart = (status \<in> {Available, Blocked}),
                 uc_reasons = (if status \<noteq> Blocked then [] else [''available_version_incompatible'']), uc_policy = policy\<rparr>)
      | _ \<Rightarrow> no_answer installed channel policy origin NotChecked ''metadata_names_no_available_version'')"

definition check_update ::
    "(string \<Rightarrow> string) \<Rightarrow> (string \<Rightarrow> string + pyval) \<Rightarrow> environ \<Rightarrow> pyval option \<Rightarrow> string option \<Rightarrow> string option
       \<Rightarrow> update_error + update_check" where
  "check_update lower read env metadata metadata_path installed_version =
     (let installed = (case installed_version of None \<Rightarrow> VERSION | Some v \<Rightarrow> if v = [] then VERSION else v);
          policy = update_policy lower env;
          channel = strip (env_or env CHANNEL_ENV ''stable'');
          given = strip (env_or env ORIGIN_ENV []);
          origin = (if given = [] then None else Some given) in
      if channel \<notin> set CHANNELS
      then Inr (no_answer installed channel policy None Blocked (''unsupported_channel:'' @ channel))
      else if flag lower (dict_get env OFFLINE_ENV) False
      then Inr (no_answer installed channel policy origin Offline ''offline_requested'')
      else if origin = None
      then Inr (no_answer installed channel policy None Unconfigured ''no_verified_metadata_source'')
      else if given \<notin> set (allowed_origins env)
      then Inr (no_answer installed channel policy origin Blocked (''origin_not_allowlisted:'' @ given))
      else (case metadata_document read env metadata metadata_path of
          Inl exception \<Rightarrow> Inr (no_answer installed channel policy origin Blocked (''metadata_unreadable:'' @ exception))
        | Inr PNone \<Rightarrow> Inr (no_answer installed channel policy origin Unconfigured ''no_verified_metadata_source'')
        | Inr (PDict document) \<Rightarrow> Inr (answered installed channel policy origin document)
        | Inr _ \<Rightarrow> Inl UpdateAttributeError))"

definition check_exit_code :: "update_check \<Rightarrow> int" where
  "check_exit_code c = (if uc_status c = Blocked then 2 else 0)"

section \<open>Guarding the delegation\<close>

text \<open>What the interpreter says of the running installation: its prefixes, its library and the package's directory.\<close>

record installation =
  in_prefix :: string
  in_base_prefix :: string
  in_purelib :: "string option"
  in_package :: npath

text \<open>The directories of the running installation, each resolved, once.\<close>

definition protected_roots :: "host \<Rightarrow> installation \<Rightarrow> string option \<Rightarrow> npath list" where
  "protected_roots h ins prefix =
     (let given = concat (map (\<lambda>v. case v of None \<Rightarrow> [] | Some s \<Rightarrow> if s = [] then [] else [pure_path s])
            [prefix, Some (in_prefix ins), Some (in_base_prefix ins)]);
          library = (case in_purelib ins of None \<Rightarrow> [] | Some s \<Rightarrow> [pure_path s]);
          package = in_package ins;
          parent = NPath (path_root package) (butlast (path_parts package)) in
      foldl (\<lambda>acc base. case h_resolve h base of None \<Rightarrow> acc
          | Some r \<Rightarrow> if r \<in> set acc then acc else acc @ [r]) [] (given @ library @ [package, parent]))"

definition root_text :: "npath \<Rightarrow> string" where
  "root_text p =
     (if path_root p = [] \<and> path_parts p = [] then ''.'' else path_root p @ join_with ''/'' (path_parts p))"

definition guard_install_root :: "host \<Rightarrow> installation \<Rightarrow> string \<Rightarrow> npath list option \<Rightarrow> update_error + unit" where
  "guard_install_root h ins install_root protected =
     (let given = strip install_root; candidate = pure_path given;
          roots = (case protected of None \<Rightarrow> protected_roots h ins None | Some bases \<Rightarrow> bases);
          resolved = (case h_resolve h candidate of None \<Rightarrow> candidate | Some r \<Rightarrow> r) in
      if given = [] then Inl (InPlaceUpgradeRefused [''install_root_empty''])
      else if \<not> is_absolute candidate then Inl (InPlaceUpgradeRefused [''install_root_not_absolute:'' @ given])
      else (case find (\<lambda>base. contained base resolved \<or> contained resolved base) roots of
          None \<Rightarrow> Inr ()
        | Some base \<Rightarrow> Inl (InPlaceUpgradeRefused [''in_place_upgrade_prohibited:'' @ root_text base])))"

definition delegation_argv :: "string \<Rightarrow> string \<Rightarrow> string list" where
  "delegation_argv plan_path orchestrator = [orchestrator] @ ORCHESTRATOR_SUBCOMMAND @ [plan_path]"

text \<open>What one token and the one after it report.\<close>

definition token_reasons :: "string \<Rightarrow> string \<Rightarrow> string list" where
  "token_reasons token following =
     note_if (token \<in> set PIP_PROGRAMS) (''pip_token_in_delegation:'' @ token)
     @ note_if (token \<in> set [''-m'', ''--module''] \<and> following \<in> set PIP_PROGRAMS)
         (''module_install_in_delegation:'' @ following)
     @ note_if (contains_text ''pip install'' token \<or> contains_text ''pip upgrade'' token)
         (''pip_phrase_in_delegation:'' @ token)"

fun tokens_reasons :: "string list \<Rightarrow> string list" where
  "tokens_reasons [] = []"
| "tokens_reasons [t] = token_reasons t []"
| "tokens_reasons (t # u # ts) = token_reasons t u @ tokens_reasons (u # ts)"

definition guard_delegation :: "(string \<Rightarrow> string) \<Rightarrow> string list \<Rightarrow> update_error + unit" where
  "guard_delegation lower argv =
     (case argv of
        [] \<Rightarrow> Inl (InPlaceUpgradeRefused [''delegation_argv_empty''])
      | program # _ \<Rightarrow>
          (let head = lower (path_name (pure_path (forward program)));
               reasons = note_if (head \<in> set PIP_PROGRAMS \<or> starts_with ''pip'' head
                   \<or> head \<in> set [''python'', ''python3'', ''py'']) (''delegated_program_cannot_install:'' @ head)
                 @ tokens_reasons (map (\<lambda>t. lower (strip t)) argv) in
           if reasons \<noteq> [] then Inl (InPlaceUpgradeRefused reasons) else Inr ()))"

section \<open>Applying a plan\<close>

record apply_decision =
  ad_plan_id :: string
  ad_plan_digest :: string
  ad_target_component :: string
  ad_install_root :: string
  ad_argv :: "string list"
  ad_executed :: bool
  ad_outcome :: string

definition ad_as_report :: "apply_decision \<Rightarrow> (string, pyval) dict" where
  "ad_as_report d =
     [(''component'', PStr COMPONENT), (''plan_id'', PStr (ad_plan_id d)), (''plan_digest'', PStr (ad_plan_digest d)),
      (''target_component'', PStr (ad_target_component d)), (''install_root'', PStr (ad_install_root d)),
      (''delegation_argv'', PList (map PStr (ad_argv d))), (''executed'', PBool (ad_executed d)),
      (''outcome'', PStr (ad_outcome d)), (''reasons'', PList [])]"

definition validate_document :: "text_env \<Rightarrow> pyval \<Rightarrow> string option \<Rightarrow> update_error + plan_verdict" where
  "validate_document te v approved =
     raising EvaluatorRaised
       (case (approved, v) of
          (Some d, PDict document) \<Rightarrow> evaluate te (PDict (dict_set ''approved_digest'' (PStr d) document))
        | _ \<Rightarrow> evaluate te v)"

text \<open>\<open>str(v or "")\<close>.\<close>

definition text_or_empty :: "text_env \<Rightarrow> pyval \<Rightarrow> string" where
  "text_or_empty te v = (if truthy v then formatted te v else [])"

text \<open>The checks between the verdict and the runner, over the plan of the document.\<close>

definition delegated :: "text_env \<Rightarrow> host \<Rightarrow> installation \<Rightarrow> string \<Rightarrow> npath list option \<Rightarrow> string option \<Rightarrow> (string, pyval) dict
     \<Rightarrow> update_error + string list" where
  "delegated te h ins orchestrator protected plan_path plan =
     (let approval = mapping_items (get_field plan ''approval''); target = mapping_items (get_field plan ''target'');
          component = text_or_empty te (get_field target ''component'') in
      if get_field approval ''state'' \<noteq> PStr ''approved'' then Inl (PlanRejected [''plan_not_approved''])
      else if component \<noteq> COMPONENT then Inl (PlanRejected [''target_is_not_this_component:'' @ component])
      else bind_result (guard_install_root h ins (text_or_empty te (get_field target ''install_root'')) protected) (\<lambda>_.
        case plan_path of
          None \<Rightarrow> Inl (UpdateUnavailable ''plan_path_required_for_delegation'')
        | Some path \<Rightarrow>
            bind_result (guard_delegation (te_lower te) (delegation_argv path orchestrator)) (\<lambda>_.
              Inr (delegation_argv path orchestrator))))"

text \<open>\<open>runner\<close> is \<open>None\<close> where no runner was injected; otherwise it runs an argument list and exits with a code.\<close>

definition apply_plan ::
    "text_env \<Rightarrow> host \<Rightarrow> installation \<Rightarrow> string \<Rightarrow> npath list option \<Rightarrow> ('s \<Rightarrow> string list \<Rightarrow> 's \<times> int) option \<Rightarrow> string option \<Rightarrow> string option
       \<Rightarrow> 's \<Rightarrow> pyval \<Rightarrow> 's \<times> (update_error + apply_decision)" where
  "apply_plan te h ins orchestrator protected runner plan_path approved s v =
     (case validate_document te v approved of
        Inl e \<Rightarrow> (s, Inl e)
      | Inr verdict \<Rightarrow>
          if \<not> vd_ok verdict
          then (s, Inl (PlanRejected (if vd_reasons verdict = [] then [''plan_rejected''] else vd_reasons verdict)))
          else
            (let plan = mapping_items (get_field (mapping_items v) ''plan''); target = mapping_items (get_field plan ''target'') in
             case delegated te h ins orchestrator protected plan_path plan of
               Inl e \<Rightarrow> (s, Inl e)
             | Inr argv \<Rightarrow>
                 (let ran = (case runner of None \<Rightarrow> (s, None) | Some run \<Rightarrow> map_prod id Some (run s argv)) in
                  (fst ran, Inr
                    \<lparr>ad_plan_id = text_or_empty te (get_field plan ''plan_id''), ad_plan_digest = plan_digest plan,
                     ad_target_component = COMPONENT,
                     ad_install_root = text_or_empty te (get_field target ''install_root''), ad_argv = argv,
                     ad_executed = (snd ran \<noteq> None),
                     ad_outcome = (case snd ran of
                         None \<Rightarrow> ''delegated_not_executed''
                       | Some code \<Rightarrow> if code = 0 then ''delegated_ok'' else ''delegated_failed:'' @ int_repr code)\<rparr>))))"

definition apply_exit_code :: "string list \<Rightarrow> int" where
  "apply_exit_code reasons = (if ''plan_not_approved'' \<in> set reasons then 5 else 2)"

text \<open>An ecosystem plan is forwarded to the core, whose launch is the argument \<open>run_core\<close>.\<close>

definition execute_core_plan ::
    "('s \<Rightarrow> string list \<Rightarrow> 's \<times> (update_error + int)) \<Rightarrow> 's \<Rightarrow> (string, pyval) dict \<Rightarrow> string \<Rightarrow> string option \<Rightarrow> bool
       \<Rightarrow> 's \<times> (update_error + int)" where
  "execute_core_plan run_core s document path approved as_json =
     (case approved of
        None \<Rightarrow> (s, Inl (PlanRejected [''plan_not_approved'']))
      | Some d \<Rightarrow>
          if d = [] \<or> get_field document ''plan_digest'' \<noteq> PStr d then (s, Inl (PlanRejected [''plan_not_approved'']))
          else if sha256_hex (dumps (PDict (AList.delete ''plan_digest'' document))) \<noteq> d
          then (s, Inl (PlanRejected [''plan_digest_mismatch'']))
          else run_core s ([ORCHESTRATOR] @ ORCHESTRATOR_SUBCOMMAND @ [path, ''--approve-digest'', d]
                 @ (if as_json then [''--json''] else [])))"

section \<open>The tool\<close>

definition KNOWN_COMPONENTS :: "string list" where
  "KNOWN_COMPONENTS = [''axiom-mcp'', ''axiom-graphd'', ''axiom-specs'', ''axiom-skills'']"

definition OBSERVABLE_COMPONENTS :: "string list" where "OBSERVABLE_COMPONENTS = [''axiom-mcp'']"

definition RELEASES :: string where
  "RELEASES = ''https://github.com/orchex006/axiom-cli/releases/latest/download''"

definition HUMAN_COMMANDS :: "(string, pyval) dict" where
  "HUMAN_COMMANDS =
     [(''short_command'', PStr ''axm''), (''long_form'', PStr ''axm''),
      (''commands'', PDict [(''cli'', PStr ''axm''), (''skills'', PStr ''axm skills''), (''graph_engine'', PStr ''axge''),
          (''mcp'', PStr ''axmp'')]),
      (''update'', PStr ''axm update''), (''doctor'', PStr ''axm doctor''), (''version'', PStr ''axm version''),
      (''uninstall'', PStr ''axm uninstall''),
      (''update_one_liner'', PDict
         [(''windows'', PStr (''powershell -ExecutionPolicy Bypass -c '' @ [CHR 0x22] @ ''irm '' @ RELEASES
              @ ''/update.ps1 | iex'' @ [CHR 0x22])),
          (''posix'', PStr (''curl -fsSL '' @ RELEASES @ ''/update.sh | sh''))]),
      (''install_one_liner'', PDict
         [(''windows'', PStr (''powershell -ExecutionPolicy Bypass -c '' @ [CHR 0x22] @ ''irm '' @ RELEASES
              @ ''/install.ps1 | iex'' @ [CHR 0x22])),
          (''posix'', PStr (''curl -fsSL '' @ RELEASES @ ''/install.sh | sh''))]),
      (''note'', PStr (''Use axm for runtime and host lifecycle, axm skills for plugin management, ''
          @ ''axge for graphs and axmp serve for the local gateway. '' @ ''Invoke $axsk inside the agent. ''
          @ ''These are public command names; repository and component identifiers are separate.''))]"

datatype version_failure = ToolFailed tool_failure | VersionRaised version_error | UpdateRaised update_error

definition add_component :: "string list \<Rightarrow> pyval \<Rightarrow> tool_failure + string list" where
  "add_component seen item =
     (case item of
        PStr s \<Rightarrow> if s \<notin> set KNOWN_COMPONENTS then Inl validation else Inr (add_new seen s)
      | _ \<Rightarrow> Inl validation)"

definition components_argument :: "arguments \<Rightarrow> tool_failure + string list" where
  "components_argument args =
     (case get_field args ''components'' of
        PNone \<Rightarrow> Inr KNOWN_COMPONENTS
      | PList items \<Rightarrow>
          bind_result (fold_result add_component [] items) (\<lambda>seen. if seen = [] then Inl validation else Inr seen)
      | _ \<Rightarrow> Inl validation)"

definition component_entry :: "digit_text \<Rightarrow> runtime_env \<Rightarrow> bool \<Rightarrow> string \<Rightarrow> version_error + (string, pyval) dict" where
  "component_entry dt rt control_wired name =
     (if name \<in> set OBSERVABLE_COMPONENTS
      then bind_result (runtime_pin_reasons dt rt) (\<lambda>reasons.
        Inr [(''component'', PStr name), (''observed'', PBool True), (''version'', PStr VERSION),
             (''spec_version'', PStr SPEC_VERSION), (''spec_revision'', PStr SPEC_REVISION),
             (''compatible'', PBool (reasons = [])), (''reasons'', PList (map PStr reasons))])
      else if name = ''axiom-graphd''
      then Inr ([(''component'', PStr name), (''observed'', PBool control_wired), (''control_api'', PInt CONTROL_API)]
             @ (if control_wired then [] else [(''reason'', PStr ''control_client_not_wired'')]))
      else Inr [(''component'', PStr name), (''observed'', PBool False), (''reason'', PStr ''not_observable_from_this_component'')])"

definition compatibility_block :: "digit_text \<Rightarrow> runtime_env \<Rightarrow> version_error + (string, pyval) dict" where
  "compatibility_block dt rt =
     bind_result (runtime_pin_reasons dt rt) (\<lambda>pins.
     bind_result (sdk_compatibility_reasons dt rt None RunningPython) (\<lambda>sdk.
     bind_result (python_supported dt rt RunningPython) (\<lambda>supported.
       (let protocol = advertised_protocol_versions rt in
        Inr [(''compatible'', PBool (pins = [])),
             (''runtime'', PDict [(''python'', PStr (rt_platform rt)), (''supported'', PBool supported),
                (''pinned_python'', PStr PYTHON_REQUIRES), (''pinned_sdk'', PStr SDK_PIN)]),
             (''sdk'', PDict [(''installed'', optional_text_value (rt_installed rt SDK_PACKAGE)),
                (''protocol_versions'', PList (map PStr protocol)), (''protocol_minimum'', PStr MCP_PROTOCOL_MINIMUM),
                (''reasons'', PList (map PStr (sdk @ protocol_support_reasons protocol MCP_PROTOCOL_MINIMUM)))]),
             (''reasons'', PList (map PStr pins))]))))"

definition update_block ::
    "(string \<Rightarrow> string) \<Rightarrow> (string \<Rightarrow> string + pyval) \<Rightarrow> environ \<Rightarrow> bool \<Rightarrow> update_error + (string, pyval) dict" where
  "update_block lower read env requested =
     (if \<not> requested
      then Inr [(''status'', PStr ''not_checked''), (''installed'', PStr VERSION), (''available'', PNone), (''compatible'', PNone),
                (''needs_restart'', PBool False), (''reasons'', PList [PStr ''update_check_not_requested''])]
      else bind_result (check_update lower read env None None None) (\<lambda>c.
        Inr [(''status'', PStr (status_text (uc_status c))), (''installed'', PStr (uc_installed c)),
             (''available'', optional_text_value (uc_available c)), (''compatible'', optional_truth (uc_compatible c)),
             (''needs_restart'', PBool (uc_needs_restart c)), (''channel'', PStr (uc_channel c)),
             (''source_origin'', optional_text_value (uc_source_origin c)), (''reasons'', PList (map PStr (uc_reasons c)))]))"

definition installation_block :: "(string, pyval) dict" where
  "installation_block =
     [(''implicit_install'', PBool False), (''reason'', PStr ''no_install_path_on_the_mcp_surface''),
      (''applies_via'', PStr ''cli_or_skill_workflow''), (''commands'', PDict HUMAN_COMMANDS)]"

definition graph_version ::
    "(string \<Rightarrow> string) \<Rightarrow> (string \<Rightarrow> string + pyval) \<Rightarrow> digit_text \<Rightarrow> runtime_env \<Rightarrow> environ \<Rightarrow> tool_context \<Rightarrow> arguments
       \<Rightarrow> version_failure + (string, pyval) dict" where
  "graph_version lower read dt rt env ctx args =
     bind_result (raising ToolFailed (closed_arguments args [''components'', ''check_update''])) (\<lambda>_.
     bind_result (raising ToolFailed (components_argument args)) (\<lambda>components.
     bind_result (raising ToolFailed (optional_bool args ''check_update'' False)) (\<lambda>requested.
     bind_result (raising ToolFailed (require_access (tc_principal ctx) CAPABILITY_READ None None)) (\<lambda>_.
     bind_result (raising VersionRaised (version_report SPEC_REVISION ''not_checked'')) (\<lambda>dimensions.
     bind_result (raising VersionRaised (compatibility_block dt rt)) (\<lambda>compatibility.
     bind_result (raising VersionRaised (map_result (component_entry dt rt (tc_control ctx \<noteq> None)) components)) (\<lambda>entries.
     bind_result (raising UpdateRaised (update_block lower read env requested)) (\<lambda>update.
       Inr [(''schema_version'', PInt SCHEMA_VERSION), (''components'', PList (map PDict entries)),
            (''dimensions'', PDict dimensions), (''compatibility'', PDict compatibility), (''update'', PDict update),
            (''installation'', PDict installation_block),
            (''warnings'', PList (if get_field compatibility ''compatible'' = PBool True then []
                 else [PStr ''runtime_pin_mismatch'']))]))))))))"

section \<open>What is checked and applied\<close>

lemma no_answer_status [simp]: "uc_status (no_answer a b c d st r) = st" "uc_available (no_answer a b c d st r) = None"
  by (simp_all add: no_answer_def)

text \<open>
  C39. An absent or unreachable answer is never rendered as up to date. A check says current only on a known channel,
  online, of an allowlisted origin, when a document was read that names exactly the installed version and does not
  say it is incompatible; and it names an available version only then or when that version differs.
\<close>

theorem current_only_if_checked:
  assumes "check_update lower read env metadata metadata_path installed = Inr c"
  shows "(uc_status c \<in> {Current, Available} \<longleftrightarrow> uc_available c \<noteq> None \<and> uc_compatible c \<noteq> Some False)
    \<and> (uc_available c \<noteq> None \<longrightarrow>
        strip (env_or env CHANNEL_ENV ''stable'') \<in> set CHANNELS \<and> \<not> flag lower (dict_get env OFFLINE_ENV) False
        \<and> strip (env_or env ORIGIN_ENV []) \<in> set (allowed_origins env)
        \<and> (\<exists>document. metadata_document read env metadata metadata_path = Inr (PDict document)
             \<and> (\<exists>v. uc_available c = Some v \<and> get_field document ''available'' = PStr v
                  \<and> (uc_status c = Current \<longleftrightarrow> v = uc_installed c \<and> get_field document ''compatible'' \<noteq> PBool False))))"
proof -
  let ?installed = "case installed of None \<Rightarrow> VERSION | Some v \<Rightarrow> if v = [] then VERSION else v"
  let ?channel = "strip (env_or env CHANNEL_ENV ''stable'')" and ?origin = "strip (env_or env ORIGIN_ENV [])"
  consider st r where "c = no_answer ?installed ?channel (update_policy lower env) None st r" "st \<in> {Blocked, Unconfigured}"
    | st r o' where "c = no_answer ?installed ?channel (update_policy lower env) o' st r" "st \<in> {Blocked, Unconfigured, Offline}"
    | document where "?channel \<in> set CHANNELS" "\<not> flag lower (dict_get env OFFLINE_ENV) False"
        "?origin \<in> set (allowed_origins env)" "metadata_document read env metadata metadata_path = Inr (PDict document)"
        "c = answered ?installed ?channel (update_policy lower env) (Some ?origin) document"
    using assms unfolding check_update_def Let_def
    by (auto split: if_splits sum.splits pyval.splits)
  then show ?thesis
  proof cases
    case 3
    then show ?thesis
      by (auto simp: answered_def Let_def no_answer_def split: pyval.splits)
  qed (auto simp: no_answer_def)
qed

text \<open>Every directory of the running installation that resolves is among the protected ones, resolved.\<close>

definition installed_at :: "host \<Rightarrow> installation \<Rightarrow> npath \<Rightarrow> bool" where
  "installed_at h ins r =
     ((in_prefix ins \<noteq> [] \<and> h_resolve h (pure_path (in_prefix ins)) = Some r)
      \<or> (in_base_prefix ins \<noteq> [] \<and> h_resolve h (pure_path (in_base_prefix ins)) = Some r)
      \<or> (\<exists>s. in_purelib ins = Some s \<and> h_resolve h (pure_path s) = Some r)
      \<or> h_resolve h (in_package ins) = Some r
      \<or> h_resolve h (NPath (path_root (in_package ins)) (butlast (path_parts (in_package ins)))) = Some r)"

lemma foldl_resolved:
  "set (foldl (\<lambda>acc base. case f base of None \<Rightarrow> acc | Some r \<Rightarrow> if r \<in> set acc then acc else acc @ [r]) acc bases)
     = set acc \<union> {r. \<exists>base \<in> set bases. f base = Some r}"
  by (induction bases arbitrary: acc) (auto split: option.split)

lemma protected_roots_installed: "set (protected_roots h ins None) = {r. installed_at h ins r}"
proof -
  let ?given = "concat (map (\<lambda>v. case v of None \<Rightarrow> [] | Some s \<Rightarrow> if s = [] then [] else [pure_path s])
            [None, Some (in_prefix ins), Some (in_base_prefix ins)])"
  have given: "set ?given = {p. in_prefix ins \<noteq> [] \<and> p = pure_path (in_prefix ins)} \<union>
      {p. in_base_prefix ins \<noteq> [] \<and> p = pure_path (in_base_prefix ins)}" by simp
  have library: "set (case in_purelib ins of None \<Rightarrow> [] | Some s \<Rightarrow> [pure_path s]) = {p. \<exists>s. in_purelib ins = Some s \<and> p = pure_path s}"
    by (cases "in_purelib ins") simp_all
  show ?thesis
    unfolding protected_roots_def Let_def foldl_resolved set_append given library installed_at_def list.set by blast
qed

definition resolved_or_given :: "host \<Rightarrow> npath \<Rightarrow> npath" where
  "resolved_or_given h p = (case h_resolve h p of None \<Rightarrow> p | Some r \<Rightarrow> r)"

lemma guard_install_root_apart:
  assumes "guard_install_root h ins given protected = Inr u"
  shows "is_absolute (pure_path (strip given))
    \<and> (\<forall>base. (case protected of None \<Rightarrow> installed_at h ins base | Some bases \<Rightarrow> base \<in> set bases) \<longrightarrow>
         \<not> contained base (resolved_or_given h (pure_path (strip given)))
         \<and> \<not> contained (resolved_or_given h (pure_path (strip given))) base)"
proof -
  let ?roots = "case protected of None \<Rightarrow> protected_roots h ins None | Some bases \<Rightarrow> bases"
  let ?resolved = "resolved_or_given h (pure_path (strip given))"
  have "find (\<lambda>base. contained base ?resolved \<or> contained ?resolved base) ?roots = None"
    "is_absolute (pure_path (strip given))"
    using assms unfolding resolved_or_given_def
    by (auto simp: guard_install_root_def Let_def split: if_splits option.splits)
  moreover have "set ?roots = {base. case protected of None \<Rightarrow> installed_at h ins base | Some bases \<Rightarrow> base \<in> set bases}"
    by (auto simp: protected_roots_installed split: option.splits)
  ultimately show ?thesis by (auto simp: find_None_iff)
qed

lemma guard_delegation_program:
  assumes "guard_delegation lower (program # arguments) = Inr u"
  shows "lower (path_name (pure_path (forward program))) \<notin> set PIP_PROGRAMS"
  using assms by (auto simp: guard_delegation_def Let_def note_if_def split: if_splits)

lemma delegated_Inr:
  assumes "delegated te h ins orchestrator protected plan_path plan = Inr argv"
  shows "get_field (mapping_items (get_field plan ''approval'')) ''state'' = PStr ''approved''
    \<and> text_or_empty te (get_field (mapping_items (get_field plan ''target'')) ''component'') = COMPONENT
    \<and> (\<exists>path. plan_path = Some path \<and> argv = delegation_argv path orchestrator)
    \<and> guard_install_root h ins (text_or_empty te (get_field (mapping_items (get_field plan ''target'')) ''install_root'')) protected = Inr ()
    \<and> guard_delegation (te_lower te) argv = Inr ()"
  using assms
  by (auto simp: delegated_def Let_def bind_result_eq_Inr split: if_splits option.splits)

text \<open>
  C7. A plan is delegated only when the canonical evaluator accepts the document with the digest approved outside it,
  the plan says approved, targets this component, and its install root is absolute and, once resolved, neither inside
  nor around any protected directory: unless the caller names others, every directory of the running installation, as
  it resolves. The runner is then called once, with the updater's own argument list, whose program is no installer.
  Whatever is refused runs nothing.
\<close>

theorem apply_delegates_approved_plans:
  assumes "apply_plan te h ins orchestrator protected runner plan_path approved s v = (s', r)"
  shows "case r of
      Inl e \<Rightarrow> s' = s
    | Inr d \<Rightarrow> (\<exists>verdict plan target path.
        validate_document te v approved = Inr verdict \<and> vd_ok verdict
        \<and> plan = mapping_items (get_field (mapping_items v) ''plan'') \<and> target = mapping_items (get_field plan ''target'')
        \<and> get_field (mapping_items (get_field plan ''approval'')) ''state'' = PStr ''approved''
        \<and> text_or_empty te (get_field target ''component'') = COMPONENT
        \<and> plan_path = Some path \<and> ad_argv d = [orchestrator, ''update'', ''apply'', ''--plan'', path]
        \<and> te_lower te (path_name (pure_path (forward orchestrator))) \<notin> set PIP_PROGRAMS
        \<and> ad_plan_digest d = plan_digest plan
        \<and> ad_install_root d = text_or_empty te (get_field target ''install_root'')
        \<and> is_absolute (pure_path (strip (ad_install_root d)))
        \<and> (\<forall>base. (case protected of None \<Rightarrow> installed_at h ins base | Some bases \<Rightarrow> base \<in> set bases) \<longrightarrow>
             \<not> contained base (resolved_or_given h (pure_path (strip (ad_install_root d))))
             \<and> \<not> contained (resolved_or_given h (pure_path (strip (ad_install_root d)))) base)
        \<and> s' = (case runner of None \<Rightarrow> s | Some run \<Rightarrow> fst (run s (ad_argv d)))
        \<and> ad_executed d = (runner \<noteq> None))"
proof (cases r)
  case (Inl e)
  then show ?thesis using assms
    by (auto simp: apply_plan_def Let_def split: sum.splits if_splits)
next
  case (Inr d)
  define plan where "plan = mapping_items (get_field (mapping_items v) ''plan'')"
  obtain verdict argv where verdict: "validate_document te v approved = Inr verdict" "vd_ok verdict"
    and argv: "delegated te h ins orchestrator protected plan_path plan = Inr argv"
    and d: "ad_argv d = argv" "ad_plan_digest d = plan_digest plan"
      "ad_install_root d = text_or_empty te (get_field (mapping_items (get_field plan ''target'')) ''install_root'')"
      "ad_executed d = (runner \<noteq> None)" "s' = (case runner of None \<Rightarrow> s | Some run \<Rightarrow> fst (run s argv))"
    using assms Inr unfolding plan_def
    by (auto simp: apply_plan_def Let_def split: sum.splits if_splits option.splits)
  note checks = delegated_Inr [OF argv]
  then obtain path where path: "plan_path = Some path" "argv = [orchestrator, ''update'', ''apply'', ''--plan'', path]"
    by (auto simp: delegation_argv_def ORCHESTRATOR_SUBCOMMAND_def)
  from checks have "guard_delegation (te_lower te) argv = Inr ()" by simp
  from guard_delegation_program [OF this [unfolded path(2)]]
  have "te_lower te (path_name (pure_path (forward orchestrator))) \<notin> set PIP_PROGRAMS" .
  moreover have guarded: "guard_install_root h ins (ad_install_root d) protected = Inr ()" using checks unfolding d(3) by blast
  note apart = guard_install_root_apart [OF guarded]
  ultimately show ?thesis
    using verdict checks path d apart unfolding Inr sum.case plan_def [symmetric]
    by - (rule exI [of _ verdict], rule exI [of _ plan], rule exI [of _ "mapping_items (get_field plan ''target'')"],
        rule exI [of _ path], simp only: simp_thms)
qed

section \<open>What the tool reports\<close>

lemma distinct_add_component:
  "fold_result add_component seen items = Inr names \<Longrightarrow> distinct seen \<Longrightarrow> set seen \<subseteq> set KNOWN_COMPONENTS \<Longrightarrow>
   distinct names \<and> set names \<subseteq> set KNOWN_COMPONENTS"
proof (induction items arbitrary: seen)
  case (Cons item items)
  then obtain s where s: "add_component seen item = Inr s" "fold_result add_component s items = Inr names"
    by (auto simp: bind_result_eq_Inr)
  then have "distinct s \<and> set s \<subseteq> set KNOWN_COMPONENTS"
    using Cons.prems(2,3) by (auto simp: add_component_def add_new_def split: pyval.splits if_splits)
  with Cons.IH [OF s(2)] show ?case by blast
qed simp

lemma components_argument_known:
  assumes "components_argument args = Inr names"
  shows "distinct names \<and> set names \<subseteq> set KNOWN_COMPONENTS"
proof -
  have "distinct KNOWN_COMPONENTS" by code_simp
  with assms show ?thesis
    by (auto simp: components_argument_def bind_result_eq_Inr dest: distinct_add_component split: pyval.splits if_splits)
qed

lemma component_entry_Inr:
  assumes "component_entry dt rt wired name = Inr e"
  shows "get_field e ''component'' = PStr name
    \<and> get_field e ''observed'' = PBool (name = ''axiom-mcp'' \<or> name = ''axiom-graphd'' \<and> wired)"
proof (cases "name = ''axiom-mcp''")
  case True
  then show ?thesis using assms
    by (auto simp: component_entry_def OBSERVABLE_COMPONENTS_def bind_result_eq_Inr get_field_def)
next
  case False
  then show ?thesis using assms
    by (auto simp: component_entry_def OBSERVABLE_COMPONENTS_def get_field_def split: if_splits)
qed

lemma component_entries:
  "map_result (component_entry dt rt wired) names = Inr entries \<Longrightarrow>
   map (\<lambda>e. (get_field e ''component'', get_field e ''observed'')) entries
     = map (\<lambda>n. (PStr n, PBool (n = ''axiom-mcp'' \<or> n = ''axiom-graphd'' \<and> wired))) names"
  by (induction names arbitrary: entries) (auto simp: bind_result_eq_Inr dest: component_entry_Inr)

text \<open>
  The version tool reports and never acts. Its caller may read; it reports the requested components, known and
  each once, and observes only its own and a daemon it is wired to; it warns exactly when the runtime is not the
  pinned one; no install is offered; and unless a check is asked for, neither the environment nor any metadata
  source has a part in the answer.
\<close>

theorem version_reports_and_never_acts:
  assumes "graph_version lower read dt rt env ctx args = Inr answer"
  shows "CAPABILITY_READ \<in> set (pr_capabilities (tc_principal ctx))
    \<and> (\<exists>names entries. components_argument args = Inr names \<and> distinct names \<and> set names \<subseteq> set KNOWN_COMPONENTS
         \<and> get_field answer ''components'' = PList (map PDict entries)
         \<and> map (\<lambda>e. (get_field e ''component'', get_field e ''observed'')) entries
             = map (\<lambda>n. (PStr n, PBool (n = ''axiom-mcp'' \<or> n = ''axiom-graphd'' \<and> tc_control ctx \<noteq> None))) names)
    \<and> (get_field answer ''warnings'' = PList [] \<longleftrightarrow> runtime_pin_reasons dt rt = Inr [])
    \<and> get_field answer ''installation'' = PDict installation_block \<and> get_field installation_block ''implicit_install'' = PBool False
    \<and> (get_field args ''check_update'' \<noteq> PBool True \<longrightarrow> graph_version lower' read' dt rt env' ctx args = Inr answer)"
proof -
  obtain names requested dimensions compatibility entries update where
    parsed: "closed_arguments args [''components'', ''check_update''] = Inr ()" "components_argument args = Inr names"
      "optional_bool args ''check_update'' False = Inr requested"
      "require_access (tc_principal ctx) CAPABILITY_READ None None = Inr ()"
      "version_report SPEC_REVISION ''not_checked'' = Inr dimensions"
    and built: "compatibility_block dt rt = Inr compatibility"
      "map_result (component_entry dt rt (tc_control ctx \<noteq> None)) names = Inr entries"
      "update_block lower read env requested = Inr update"
    and answer: "answer = [(''schema_version'', PInt SCHEMA_VERSION), (''components'', PList (map PDict entries)),
            (''dimensions'', PDict dimensions), (''compatibility'', PDict compatibility), (''update'', PDict update),
            (''installation'', PDict installation_block),
            (''warnings'', PList (if get_field compatibility ''compatible'' = PBool True then []
                 else [PStr ''runtime_pin_mismatch'']))]"
    using assms by (auto simp: graph_version_def bind_result_eq_Inr)
  obtain pins where pins: "runtime_pin_reasons dt rt = Inr pins" "get_field compatibility ''compatible'' = PBool (pins = [])"
    using built(1) by (auto simp: compatibility_block_def Let_def bind_result_eq_Inr get_field_def)
  have "get_field answer ''components'' = PList (map PDict entries)"
    "get_field answer ''installation'' = PDict installation_block"
    "get_field answer ''warnings'' = PList (if pins = [] then [] else [PStr ''runtime_pin_mismatch''])"
    unfolding answer pins(2) by (simp_all add: get_field_def)
  moreover have "CAPABILITY_READ \<in> set (pr_capabilities (tc_principal ctx))"
    using parsed(4) by (simp add: require_access_def split: if_splits)
  moreover have "get_field installation_block ''implicit_install'' = PBool False"
    by (simp add: installation_block_def get_field_def)
  moreover have "graph_version lower' read' dt rt env' ctx args = Inr answer" if "get_field args ''check_update'' \<noteq> PBool True"
  proof -
    have "\<not> requested" using parsed(3) that by (auto simp: optional_bool_def split: pyval.splits)
    then have "update_block lower' read' env' requested = Inr update" using built(3) by (simp add: update_block_def)
    with parsed built show ?thesis unfolding answer graph_version_def by (simp add: raising_def)
  qed
  ultimately show ?thesis
    using components_argument_known [OF parsed(2)] component_entries [OF built(2)] parsed(2) pins(1) by auto
qed

section \<open>Examples\<close>

definition ex_origin :: environ where "ex_origin = [(ORIGIN_ENV, CANONICAL_ORIGIN)]"

theorem current_only_if_checked_witness:
  "\<exists>c. check_update ascii_lower (\<lambda>_. Inl ''OSError'') ex_origin (Some (PDict [(''available'', PStr VERSION)])) None None = Inr c
     \<and> uc_status c = Current \<and> strip (env_or ex_origin ORIGIN_ENV []) \<in> set (allowed_origins ex_origin)"
proof -
  let ?check = "check_update ascii_lower (\<lambda>_. Inl ''OSError'') ex_origin (Some (PDict [(''available'', PStr VERSION)])) None None"
  have "returns ?check (\<lambda>c. uc_status c = Current \<and> uc_available c = Some VERSION)" by code_simp
  then obtain c where c: "?check = Inr c" "uc_status c = Current" "uc_available c = Some VERSION"
    by (auto simp: returns_iff)
  from current_only_if_checked [OF c(1)] c show ?thesis by auto
qed

text \<open>A metadata file that holds a list leaves the check with an \<open>AttributeError\<close>, in place of a blocked status.\<close>

theorem metadata_list_raises:
  "check_update ascii_lower (\<lambda>_. Inr (PList [])) (dict_set METADATA_ENV ''m.json'' ex_origin) None None None
     = Inl UpdateAttributeError"
  by code_simp

text \<open>A runner that counts what it runs.\<close>

definition ex_runner :: "nat \<Rightarrow> string list \<Rightarrow> nat \<times> int" where
  "ex_runner n argv = (n + 1, 0)"

definition ex_installation :: installation where
  "ex_installation = \<lparr>in_prefix = ''/usr'', in_base_prefix = ''/usr'', in_purelib = Some ''/usr/lib/p'',
     in_package = pure_path ''/usr/lib/p/axiom_mcp''\<rparr>"

theorem apply_delegates_approved_plans_witness:
  "\<exists>d. apply_plan ex_text (ex_host []) ex_installation ORCHESTRATOR None (Some ex_runner) (Some ''p.json'')
       (Some ex_plan_digest) 0 (PDict [(''plan'', PDict (ex_plan ex_plan_digest))]) = (1, Inr d)
     \<and> ad_argv d = [''axiom'', ''update'', ''apply'', ''--plan'', ''p.json''] \<and> ad_executed d
     \<and> \<not> contained (pure_path ''/usr'') (resolved_or_given (ex_host []) (pure_path (strip (ad_install_root d))))"
proof -
  let ?v = "PDict [(''plan'', PDict (ex_plan ex_plan_digest))]"
  let ?run = "apply_plan ex_text (ex_host []) ex_installation ORCHESTRATOR None (Some ex_runner) (Some ''p.json'')
       (Some ex_plan_digest) 0 ?v"
  obtain verdict where verdict: "evaluate ex_text (PDict ex_plan_document) = Inr verdict" "vd_ok verdict"
    using ex_plan_document_accepted by blast
  have valid: "validate_document ex_text ?v (Some ex_plan_digest) = Inr verdict"
    using verdict(1) by (simp add: validate_document_def ex_plan_document_def raising_def)
  have plan: "mapping_items (get_field (mapping_items ?v) ''plan'') = ex_plan ex_plan_digest"
    by (simp add: get_field_def)
  have "is_ok (delegated ex_text (ex_host []) ex_installation ORCHESTRATOR None (Some ''p.json'') (ex_plan h))" for h
    by code_simp
  then obtain argv where
    argv: "delegated ex_text (ex_host []) ex_installation ORCHESTRATOR None (Some ''p.json'') (ex_plan ex_plan_digest) = Inr argv"
    by (auto simp: is_ok_iff)
  obtain s' r where run: "?run = (s', r)" by fastforce
  then obtain d where d: "r = Inr d"
    using verdict(2) argv unfolding apply_plan_def valid plan by (auto simp: Let_def)
  have "h_resolve (ex_host []) (pure_path ''/usr'') = Some (pure_path ''/usr'')" by code_simp
  then have usr: "installed_at (ex_host []) ex_installation (pure_path ''/usr'')"
    by (simp add: installed_at_def ex_installation_def)
  have "ad_argv d = [ORCHESTRATOR, ''update'', ''apply'', ''--plan'', ''p.json''] \<and> ad_executed d
      \<and> s' = fst (ex_runner 0 (ad_argv d))
      \<and> \<not> contained (pure_path ''/usr'') (resolved_or_given (ex_host []) (pure_path (strip (ad_install_root d))))"
    using apply_delegates_approved_plans [OF run] usr unfolding d sum.case by auto
  then show ?thesis using run d by (simp add: ex_runner_def ORCHESTRATOR_def)
qed

definition ex_digits :: digit_text where
  "ex_digits = \<lparr>dt_isdigit = (\<lambda>p. list_all is_digit p), dt_int = (\<lambda>_. Some 0)\<rparr>"

definition ex_runtime :: runtime_env where
  "ex_runtime = \<lparr>rt_python = (3, 13, 1), rt_platform = ''3.13.1'', rt_installed = dict_get RUNTIME_PINS,
     rt_advertised = [MCP_PROTOCOL_MINIMUM]\<rparr>"

definition ex_reader :: tool_context where
  "ex_reader = \<lparr>tc_registry = \<lparr>sr_axiom_home = pure_path ''/h'', sr_solutions = []\<rparr>,
     tc_principal = \<lparr>pr_token_id = ''t'', pr_capabilities = [CAPABILITY_READ], pr_solution_ids = [], pr_project_ids = None\<rparr>,
     tc_control = None, tc_clock = 0, tc_cursors = empty_store\<rparr>"

theorem version_reports_and_never_acts_witness:
  "\<exists>answer. graph_version ascii_lower (\<lambda>_. Inl ''OSError'') ex_digits ex_runtime [] ex_reader
       [(''components'', PList [PStr ''axiom-mcp''])] = Inr answer \<and> get_field answer ''warnings'' = PList []"
proof -
  let ?run = "graph_version ascii_lower (\<lambda>_. Inl ''OSError'') ex_digits ex_runtime [] ex_reader
       [(''components'', PList [PStr ''axiom-mcp''])]"
  have "is_ok ?run" "is_ok (runtime_pin_reasons ex_digits ex_runtime)" by code_simp+
  moreover have "runtime_pin_reasons ex_digits ex_runtime = Inr []" by code_simp
  ultimately obtain answer where "?run = Inr answer" "runtime_pin_reasons ex_digits ex_runtime = Inr []"
    by (auto simp: is_ok_iff)
  with version_reports_and_never_acts [OF this(1)] show ?thesis by blast
qed

end
