(* ===== verification/Runtime.thy ===== *)
theory Runtime
  imports QueryFacts Status Security Lifecycle Update
begin

text \<open>
  \<open>runtime.py\<close>, where the components meet: the credential of a transport, the context a call runs in, the
  dispatch of \<open>call_tool\<close> over the six handlers, and the readiness the gateway reports. The state is the one
  retention of loaded generations; what a call sent to the control plane is listed. The result of a call is its
  structured content, or the code of its error: the message and its redaction are left out.
\<close>

section \<open>The runtime\<close>

definition reference_value ::
    "(string \<Rightarrow> string) \<Rightarrow> (string \<Rightarrow> pyval option) \<Rightarrow> (string, string) dict \<Rightarrow> host \<Rightarrow> string option
       \<Rightarrow> security_error + string option" where
  "reference_value lower loads env h raw =
     (let invalid = Inl (SecurityError ''VALIDATION_ERROR'' ''invalid credential reference'');
          bare = Inl (SecurityError ''VALIDATION_ERROR'' ''configuration must carry a token reference, not a token value'')
      in case raw of
        None \<Rightarrow> Inr None
      | Some text \<Rightarrow>
          if text = [] then Inr None
          else (case loads text of
              None \<Rightarrow> invalid
            | Some (PDict config) \<Rightarrow>
                bind_result (token_reference_from_config lower config) (\<lambda>reference.
                  case resolve_reference env h reference of Inl UnicodeFailed \<Rightarrow> invalid | r \<Rightarrow> r)
            | Some (PList items) \<Rightarrow>
                if list_ex (\<lambda>k. PStr k \<in> set items) [''token'', ''value'', ''secret''] then bare else invalid
            | Some (PStr s) \<Rightarrow>
                if list_ex (\<lambda>k. contains_text k s) [''token'', ''value'', ''secret''] then bare else invalid
            | Some _ \<Rightarrow> invalid))"

text \<open>
  \<open>rn_reloaded\<close> is what the registry loader answers: \<open>None\<close> where there is no loader, and a loader that
  raised inside.
\<close>

record runtime =
  rn_registry :: snapshot_registry
  rn_tokens :: token_registry
  rn_control :: "control_plane option"
  rn_cursors :: cursor_store
  rn_clock :: rat
  rn_retention :: "source_key retention"
  rn_reloaded :: "snapshot_registry option option"

definition registry_snapshot :: "runtime \<Rightarrow> tool_failure + snapshot_registry" where
  "registry_snapshot rt =
     (case rn_reloaded rt of
        None \<Rightarrow> Inr (rn_registry rt)
      | Some None \<Rightarrow> Inl snapshot_unavailable
      | Some (Some r) \<Rightarrow> Inr r)"

datatype call_failure = SecurityFailed security_error | HandlerFailed tool_failure | VersionToolFailed version_failure

definition runtime_context :: "runtime \<Rightarrow> string option \<Rightarrow> call_failure + tool_context" where
  "runtime_context rt presented =
     bind_result (raising SecurityFailed (authenticate (rn_tokens rt) presented)) (\<lambda>token.
     bind_result (raising HandlerFailed (registry_snapshot rt)) (\<lambda>registry.
       Inr \<lparr>tc_registry = registry, tc_principal = principal_of token, tc_control = rn_control rt,
            tc_clock = rn_clock rt, tc_cursors = rn_cursors rt\<rparr>))"

section \<open>Calling a tool\<close>

text \<open>What the handlers take besides their arguments and their context.\<close>

record call_world =
  wd_read :: read_world
  wd_footprint :: "source_key \<Rightarrow> loaded_snapshot \<Rightarrow> nat"
  wd_say :: "warning \<Rightarrow> string"
  wd_lower :: "string \<Rightarrow> string"
  wd_metadata :: "string \<Rightarrow> string + pyval"
  wd_digits :: digit_text
  wd_runtime :: runtime_env
  wd_environ :: environ

type_synonym kept = "source_key retention option"

definition pinned_loader :: "call_world \<Rightarrow> snapshot_registry \<Rightarrow> kept loader" where
  "pinned_loader wd registry kept location g =
     registered_load_pinned (wd_footprint wd) (wd_read wd) registry kept location g"

definition current_loader ::
    "call_world \<Rightarrow> snapshot_registry \<Rightarrow> kept \<Rightarrow> snapshot_location \<Rightarrow> kept \<times> (read_failure + loaded_snapshot)" where
  "current_loader wd registry kept location =
     registered_load (wd_footprint wd) (wd_read wd) registry kept location"

type_synonym call_outcome = "kept \<times> control_call list \<times> (call_failure + (string, pyval) dict)"

text \<open>The handler of a name; \<open>None\<close> where there is none.\<close>

definition handle :: "call_world \<Rightarrow> tool_context \<Rightarrow> kept \<Rightarrow> string \<Rightarrow> arguments \<Rightarrow> call_outcome option" where
  "handle wd ctx kept name args =
     (if name = ''graph_query'' then
        Some (case graph_query (pinned_loader wd (tc_registry ctx)) (wd_read wd) (wd_say wd) ctx kept args of
            (k, sent, r) \<Rightarrow> (k, map ReconcileCall sent, raising HandlerFailed r))
      else if name = ''graph_status'' then
        Some (case graph_status (current_loader wd (tc_registry ctx)) (wd_say wd) ctx kept args of
            (k, sent, r) \<Rightarrow> (k, sent, raising HandlerFailed r))
      else if name = ''graph_reconcile'' then
        Some (case graph_reconcile ctx args of (sent, r) \<Rightarrow> (kept, sent, raising HandlerFailed r))
      else if name = ''graph_job'' then
        Some (case graph_job ctx args of (sent, r) \<Rightarrow> (kept, sent, raising HandlerFailed r))
      else if name = ''graph_verify'' then
        Some (case graph_verify ctx args of (sent, r) \<Rightarrow> (kept, sent, raising HandlerFailed r))
      else if name = ''graph_version'' then
        Some (kept, [], raising VersionToolFailed
          (graph_version (wd_lower wd) (wd_metadata wd) (wd_digits wd) (wd_runtime wd) (wd_environ wd) ctx args))
      else None)"

datatype tool_result = Completed "(string, pyval) dict" | ToolError string

definition INTERNAL_ERROR :: string where "INTERNAL_ERROR = ''INTERNAL_ERROR''"

text \<open>An \<open>AxiomError\<close> or a \<open>SecurityError\<close> gives its code; any other exception says only that it happened.\<close>

fun tool_failure_code :: "tool_failure \<Rightarrow> string" where
  "tool_failure_code (AxiomError code) = code"
| "tool_failure_code _ = INTERNAL_ERROR"

fun failure_code :: "call_failure \<Rightarrow> string" where
  "failure_code (SecurityFailed (SecurityError code _)) = code"
| "failure_code (SecurityFailed UnicodeFailed) = INTERNAL_ERROR"
| "failure_code (HandlerFailed e) = tool_failure_code e"
| "failure_code (VersionToolFailed (ToolFailed e)) = tool_failure_code e"
| "failure_code (VersionToolFailed _) = INTERNAL_ERROR"

definition tool_result_of :: "call_failure + (string, pyval) dict \<Rightarrow> tool_result" where
  "tool_result_of r = (case r of Inl e \<Rightarrow> ToolError (failure_code e) | Inr d \<Rightarrow> Completed d)"

text \<open>
  \<open>presented\<close> is the credential of the transport: \<open>parse_authorization\<close> of the headers over HTTP,
  \<open>reference_value\<close> of the environment over standard streams.
\<close>

definition call_tool ::
    "call_world \<Rightarrow> runtime \<Rightarrow> security_error + string option \<Rightarrow> string \<Rightarrow> arguments
       \<Rightarrow> runtime \<times> control_call list \<times> tool_result" where
  "call_tool wd rt presented name args =
     (case bind_result (raising SecurityFailed presented) (runtime_context rt) of
        Inl e \<Rightarrow> (rt, [], ToolError (failure_code e))
      | Inr ctx \<Rightarrow>
          (case handle wd ctx (Some (rn_retention rt)) name args of
             None \<Rightarrow> (rt, [], ToolError ''NOT_FOUND'')
           | Some (kept, sent, r) \<Rightarrow>
               ((case kept of None \<Rightarrow> rt | Some k \<Rightarrow> rt\<lparr>rn_retention := k\<rparr>), sent, tool_result_of r)))"

section \<open>Readiness\<close>

fun load_all ::
    "(kept \<Rightarrow> snapshot_location \<Rightarrow> kept \<times> (read_failure + loaded_snapshot)) \<Rightarrow> snapshot_registry \<Rightarrow> string \<Rightarrow> string
       \<Rightarrow> kept \<Rightarrow> string list \<Rightarrow> kept \<times> bool" where
  "load_all load registry solution lane kept [] = (kept, True)"
| "load_all load registry solution lane kept (p # ps) =
     (case find_location registry solution p lane of
        Inl _ \<Rightarrow> (kept, False)
      | Inr location \<Rightarrow>
          (case load kept location of
             (k, Inl _) \<Rightarrow> (k, False)
           | (k, Inr _) \<Rightarrow> load_all load registry solution lane k ps))"

text \<open>
  A lane of a solution is served when its catalog loads, it has a project, and every project loads. Every failure of
  these is an \<open>OSError\<close>, a \<open>ValueError\<close> or a \<open>RuntimeError\<close>, and moves on to the next lane.
\<close>

definition lane_served :: "call_world \<Rightarrow> snapshot_registry \<Rightarrow> solution_binding \<Rightarrow> kept \<Rightarrow> string \<Rightarrow> kept \<times> bool" where
  "lane_served wd registry binding kept lane =
     (let projects = concat (map rb_project_ids (sb_repositories binding)) in
      case bind_result (raising CatalogRegistry (find_catalog_location registry (sb_solution_id binding) lane))
             (load_solution_catalog (rw_loads (wd_read wd)) (rw_host (wd_read wd))) of
        Inl _ \<Rightarrow> (kept, False)
      | Inr _ \<Rightarrow>
          if projects = [] then (kept, False)
          else load_all (current_loader wd registry) registry (sb_solution_id binding) lane kept projects)"

fun any_served :: "call_world \<Rightarrow> snapshot_registry \<Rightarrow> kept \<Rightarrow> (solution_binding \<times> string) list \<Rightarrow> kept \<times> bool" where
  "any_served wd registry kept [] = (kept, False)"
| "any_served wd registry kept ((binding, lane) # later) =
     (case lane_served wd registry binding kept lane of
        (k, True) \<Rightarrow> (k, True)
      | (k, False) \<Rightarrow> any_served wd registry k later)"

text \<open>The first solution whose status the daemon answers; what is no \<open>AxiomError\<close> passes through, as its name.\<close>

fun control_answers :: "control_plane \<Rightarrow> string list \<Rightarrow> string + bool" where
  "control_answers control [] = Inr False"
| "control_answers control (solution # solutions) =
     (case cp_status control solution of
        Accepted _ \<Rightarrow> Inr True
      | Refused _ \<Rightarrow> control_answers control solutions
      | Broken exception \<Rightarrow> Inl exception)"

definition lanes_of :: "snapshot_registry \<Rightarrow> (solution_binding \<times> string) list" where
  "lanes_of registry = concat (map (\<lambda>b. [(b, ''live''), (b, ''checkpoint'')]) (sr_solutions registry))"

definition component_state :: "string \<Rightarrow> bool \<Rightarrow> string \<Rightarrow> component_readiness" where
  "component_state name available reason =
     \<lparr>cr_name = name, cr_available = available, cr_detail = (if available then None else Some reason)\<rparr>"

definition runtime_readiness :: "call_world \<Rightarrow> runtime \<Rightarrow> kept \<times> (string + readiness_report)" where
  "runtime_readiness wd rt =
     (case registry_snapshot rt of
        Inl _ \<Rightarrow> (Some (rn_retention rt), Inr
          \<lparr>rp_query = component_state QUERY_COMPONENT False ''registry unavailable'',
           rp_control = component_state CONTROL_COMPONENT False ''registry unavailable''\<rparr>)
      | Inr registry \<Rightarrow>
          (case (if registry_size (rn_tokens rt) = 0 then (Some (rn_retention rt), False)
                 else any_served wd registry (Some (rn_retention rt)) (lanes_of registry)) of
             (kept, query) \<Rightarrow>
               (kept, bind_result (case rn_control rt of
                     None \<Rightarrow> Inr False
                   | Some control \<Rightarrow> control_answers control (map sb_solution_id (sr_solutions registry))) (\<lambda>control.
                 Inr \<lparr>rp_query = component_state QUERY_COMPONENT query ''registered query unavailable'',
                      rp_control = component_state CONTROL_COMPONENT control ''control unavailable''\<rparr>))))"

definition close_runtime :: "runtime \<Rightarrow> runtime" where
  "close_runtime rt = rt\<lparr>rn_retention := retention_clear (rn_retention rt)\<rparr>"

section \<open>Who a call is for\<close>

lemma open_solution_reads: "open_solution ctx s = Inr u \<Longrightarrow> CAPABILITY_READ \<in> set (pr_capabilities (tc_principal ctx))"
  by (auto simp: open_solution_def bind_result_eq_Inr require_access_Inr)

lemma query_caller:
  assumes "graph_query load w say ctx s args = (s', sent, r)"
  shows "(s' = s \<and> sent = [] \<and> isl r) \<or> CAPABILITY_READ \<in> set (pr_capabilities (tc_principal ctx))"
proof (cases "check_request ctx args")
  case (Inl e)
  then show ?thesis using assms by (auto simp: graph_query_def)
next
  case (Inr q)
  then obtain solution u where "open_solution ctx solution = Inr u"
    by (auto simp: check_request_def bind_result_eq_Inr)
  then show ?thesis using open_solution_reads by blast
qed

lemma status_caller:
  assumes "graph_status load say ctx s args = (s', sent, r)"
  shows "(s' = s \<and> sent = [] \<and> isl r) \<or> CAPABILITY_READ \<in> set (pr_capabilities (tc_principal ctx))"
proof (cases "status_checked ctx args")
  case (Inl e)
  then show ?thesis using assms by (auto simp: graph_status_def)
next
  case (Inr q)
  then obtain solution u where "open_solution ctx solution = Inr u"
    by (auto simp: status_checked_def bind_result_eq_Inr)
  then show ?thesis using open_solution_reads by blast
qed

lemma reconcile_caller:
  assumes "graph_reconcile ctx args = (sent, r)"
  shows "(sent = [] \<and> isl r) \<or> CAPABILITY_RECONCILE \<in> set (pr_capabilities (tc_principal ctx))"
  using assms by (cases "reconcile_checked ctx args") (auto simp: graph_reconcile_def dest: reconcile_checked_Inr)

lemma verify_caller:
  assumes "graph_verify ctx args = (sent, r)"
  shows "(sent = [] \<and> isl r) \<or> CAPABILITY_CHECKPOINT \<in> set (pr_capabilities (tc_principal ctx))"
  using assms by (cases "verify_checked ctx args") (auto simp: graph_verify_def dest: verify_checked_Inr)

lemma version_caller:
  assumes "graph_version lower read dt rt env ctx args = Inr d"
  shows "CAPABILITY_READ \<in> set (pr_capabilities (tc_principal ctx))"
  using assms by (auto simp: graph_version_def bind_result_eq_Inr require_access_def split: if_splits)


lemma job_caller:
  assumes "graph_job ctx args = (sent, r)"
  shows "(sent = [] \<and> isl r) \<or> CAPABILITY_RECONCILE \<in> set (pr_capabilities (tc_principal ctx))
    \<or> action_argument args \<noteq> Inr ''cancel''"
proof (cases "job_checked ctx args")
  case (Inl e)
  then show ?thesis using assms by (auto simp: graph_job_def)
next
  case (Inr q)
  then have "action_argument args = Inr (jr_action q)" by (auto simp: job_checked_def bind_result_eq_Inr)
  with job_checked_Inr [OF Inr] show ?thesis by auto
qed

lemma specs:
  "map_option ts_capability (spec_for ''graph_query'') = Some CAPABILITY_READ"
  "map_option ts_capability (spec_for ''graph_status'') = Some CAPABILITY_READ"
  "map_option ts_capability (spec_for ''graph_version'') = Some CAPABILITY_READ"
  "map_option ts_capability (spec_for ''graph_reconcile'') = Some CAPABILITY_RECONCILE"
  "map_option ts_capability (spec_for ''graph_job'') = Some CAPABILITY_RECONCILE"
  "map_option ts_capability (spec_for ''graph_verify'') = Some CAPABILITY_CHECKPOINT"
  by code_simp+

text \<open>A caller has the capability the catalog lists for the tool, or reads the status of a job.\<close>

definition may_call :: "string list \<Rightarrow> string \<Rightarrow> arguments \<Rightarrow> bool" where
  "may_call capabilities name args =
     (case map_option ts_capability (spec_for name) of
        None \<Rightarrow> False
      | Some c \<Rightarrow> c \<in> set capabilities \<or> name = ''graph_job'' \<and> action_argument args \<noteq> Inr ''cancel'')"

lemma handle_caller:
  assumes "handle wd ctx kept name args = Some (k, sent, r)"
  shows "(k = kept \<and> sent = [] \<and> isl r) \<or> may_call (pr_capabilities (tc_principal ctx)) name args"
proof -
  have shape: "isl (raising f r) = isl r" for f :: "'x \<Rightarrow> 'y" and r :: "'x + 'z"
    by (cases r) (simp_all add: raising_def)
  consider "name = ''graph_query''" | "name = ''graph_status''" | "name = ''graph_reconcile''" | "name = ''graph_job''"
    | "name = ''graph_verify''" | "name = ''graph_version''"
    using assms unfolding handle_def by (simp only: split: if_splits) blast+
  then show ?thesis
  proof cases
    case 1
    obtain s' sent' r' where run: "graph_query (pinned_loader wd (tc_registry ctx)) (wd_read wd) (wd_say wd) ctx kept args = (s', sent', r')"
      by (metis prod.exhaust)
    show ?thesis using query_caller [OF run] assms run
      by (auto simp: handle_def 1 may_call_def specs shape)
  next
    case 2
    obtain s' sent' r' where run: "graph_status (current_loader wd (tc_registry ctx)) (wd_say wd) ctx kept args = (s', sent', r')"
      by (metis prod.exhaust)
    show ?thesis using status_caller [OF run] assms run
      by (auto simp: handle_def 2 may_call_def specs shape)
  next
    case 3
    obtain sent' r' where run: "graph_reconcile ctx args = (sent', r')" by fastforce
    show ?thesis using reconcile_caller [OF run] assms run by (auto simp: handle_def 3 may_call_def specs shape)
  next
    case 4
    obtain sent' r' where run: "graph_job ctx args = (sent', r')" by fastforce
    show ?thesis using job_caller [OF run] assms run by (auto simp: handle_def 4 may_call_def specs shape)
  next
    case 5
    obtain sent' r' where run: "graph_verify ctx args = (sent', r')" by fastforce
    show ?thesis using verify_caller [OF run] assms run by (auto simp: handle_def 5 may_call_def specs shape)
  next
    case 6
    obtain r' where run: "graph_version (wd_lower wd) (wd_metadata wd) (wd_digits wd) (wd_runtime wd) (wd_environ wd) ctx args = r'"
      by blast
    have "isl r' \<or> CAPABILITY_READ \<in> set (pr_capabilities (tc_principal ctx))"
      using version_caller run by (cases r') auto
    then show ?thesis using assms run by (auto simp: handle_def 6 may_call_def specs shape)
  qed
qed

text \<open>
  C1. Nothing happens for a caller that was not authenticated and allowed: when a call sends something to the control
  plane, changes what is retained or answers, then the transport presented a credential the token registry knows,
  the bindings were available, the tool is one of the catalog and the token has the capability the catalog lists
  for it, the status of a job alone being asked for with any token. Every other call is an error code and leaves the
  gateway as it was.
\<close>

theorem call_tool_acts_only_for_allowed:
  assumes "call_tool wd rt presented name args = (rt', sent, result)"
  shows "(\<exists>p token registry. presented = Inr p \<and> authenticate (rn_tokens rt) p = Inr token
       \<and> registry_snapshot rt = Inr registry \<and> may_call (tk_capabilities token) name args)
    \<or> (rt' = rt \<and> sent = [] \<and> (\<exists>code. result = ToolError code))"
proof (cases "bind_result (raising SecurityFailed presented) (runtime_context rt)")
  case (Inl e)
  then show ?thesis using assms by (auto simp: call_tool_def)
next
  case (Inr ctx)
  then obtain p token registry where p: "presented = Inr p" and token: "authenticate (rn_tokens rt) p = Inr token"
    and registry: "registry_snapshot rt = Inr registry" and ctx: "tc_principal ctx = principal_of token"
    by (auto simp: bind_result_eq_Inr runtime_context_def)
  show ?thesis
  proof (cases "handle wd ctx (Some (rn_retention rt)) name args")
    case None
    then show ?thesis using assms Inr by (auto simp: call_tool_def)
  next
    case (Some out)
    obtain k s r where out: "out = (k, s, r)" by (metis prod.exhaust)
    from handle_caller [OF Some [unfolded out]]
    consider "k = Some (rn_retention rt)" "s = []" "isl r" | "may_call (tk_capabilities token) name args"
      unfolding ctx by (auto simp: principal_of_def)
    then show ?thesis
    proof cases
      case 1
      then show ?thesis using assms Inr Some out
        by (cases r) (auto simp: call_tool_def tool_result_of_def)
    qed (use p token registry in blast)
  qed
qed

section \<open>What readiness stands for\<close>

lemma load_all_True:
  "load_all load registry solution lane kept ps = (k, True) \<Longrightarrow> p \<in> set ps \<Longrightarrow>
   \<exists>location before after snapshot. find_location registry solution p lane = Inr location
     \<and> load before location = (after, Inr snapshot)"
proof (induction ps arbitrary: kept)
  case (Cons q ps)
  then obtain location k' snapshot where step: "find_location registry solution q lane = Inr location"
    "load kept location = (k', Inr snapshot)" "load_all load registry solution lane k' ps = (k, True)"
    by (auto split: sum.splits prod.splits)
  show ?case
  proof (cases "p = q")
    case False
    with Cons.IH [OF step(3)] Cons.prems(2) show ?thesis by simp
  qed (use step in blast)
qed simp

definition served :: "call_world \<Rightarrow> snapshot_registry \<Rightarrow> solution_binding \<Rightarrow> string \<Rightarrow> bool" where
  "served wd registry binding lane =
     (concat (map rb_project_ids (sb_repositories binding)) \<noteq> []
      \<and> (\<exists>location catalog. find_catalog_location registry (sb_solution_id binding) lane = Inr location
           \<and> load_solution_catalog (rw_loads (wd_read wd)) (rw_host (wd_read wd)) location = Inr catalog)
      \<and> (\<forall>p \<in> set (concat (map rb_project_ids (sb_repositories binding))). \<exists>location before after snapshot.
           find_location registry (sb_solution_id binding) p lane = Inr location
           \<and> current_loader wd registry before location = (after, Inr snapshot)))"

lemma lane_served_True:
  assumes "lane_served wd registry binding kept lane = (k, True)"
  shows "served wd registry binding lane"
proof -
  let ?projects = "concat (map rb_project_ids (sb_repositories binding))"
  have loaded: "load_all (current_loader wd registry) registry (sb_solution_id binding) lane kept ?projects = (k, True)"
    and some: "?projects \<noteq> []"
    using assms by (auto simp: lane_served_def Let_def split: sum.splits if_splits)
  obtain location catalog where "find_catalog_location registry (sb_solution_id binding) lane = Inr location"
    "load_solution_catalog (rw_loads (wd_read wd)) (rw_host (wd_read wd)) location = Inr catalog"
    using assms by (auto simp: lane_served_def Let_def bind_result_eq_Inr split: sum.splits)
  with some load_all_True [OF loaded] show ?thesis unfolding served_def by blast
qed

lemma any_served_True:
  "any_served wd registry kept ls = (k, True) \<Longrightarrow> \<exists>(binding, lane) \<in> set ls. served wd registry binding lane"
proof (induction wd registry kept ls rule: any_served.induct)
  case (2 wd registry kept binding lane later)
  obtain k' b where step: "lane_served wd registry binding kept lane = (k', b)" by fastforce
  show ?case
  proof (cases b)
    case True
    with lane_served_True step show ?thesis by auto
  next
    case False
    with step 2 show ?thesis by auto
  qed
qed simp

lemma control_answers_True:
  "control_answers control ss = Inr True \<Longrightarrow> \<exists>s \<in> set ss. \<exists>payload. cp_status control s = Accepted payload"
  by (induction ss) (auto split: control_answer.splits)

lemma component_state_available [simp]: "cr_available (component_state n b r) = b"
  by (simp add: component_state_def)

text \<open>
  C40. The runtime says its query plane is available only when it has a registered token and, for some lane of some
  solution of the registry, the catalog loads and every declared project loads through its guard; and its control
  plane only when the daemon answered for a registered solution.
\<close>

theorem readiness_is_served:
  assumes "runtime_readiness wd rt = (kept, Inr report)"
  shows "(cr_available (rp_query report) \<longrightarrow> registry_size (rn_tokens rt) \<noteq> 0
      \<and> (\<exists>registry binding lane. registry_snapshot rt = Inr registry \<and> binding \<in> set (sr_solutions registry)
           \<and> lane \<in> {''live'', ''checkpoint''} \<and> served wd registry binding lane))
    \<and> (cr_available (rp_control report) \<longrightarrow> (\<exists>registry control binding payload. registry_snapshot rt = Inr registry
         \<and> rn_control rt = Some control \<and> binding \<in> set (sr_solutions registry)
         \<and> cp_status control (sb_solution_id binding) = Accepted payload))"
proof (cases "registry_snapshot rt")
  case (Inl e)
  then show ?thesis using assms by (auto simp: runtime_readiness_def)
next
  case (Inr registry)
  obtain k query where query: "(if registry_size (rn_tokens rt) = 0 then (Some (rn_retention rt), False)
      else any_served wd registry (Some (rn_retention rt)) (lanes_of registry)) = (k, query)" by fastforce
  obtain control where control: "(case rn_control rt of None \<Rightarrow> Inr False
      | Some c \<Rightarrow> control_answers c (map sb_solution_id (sr_solutions registry))) = Inr control"
    and report: "cr_available (rp_query report) = query" "cr_available (rp_control report) = control"
    using assms Inr query by (auto simp: runtime_readiness_def bind_result_eq_Inr)
  have "registry_size (rn_tokens rt) \<noteq> 0 \<and> (\<exists>(binding, lane) \<in> set (lanes_of registry). served wd registry binding lane)" if query
    using query that any_served_True by (auto split: if_splits)
  then have "registry_size (rn_tokens rt) \<noteq> 0 \<and> (\<exists>binding lane. binding \<in> set (sr_solutions registry)
      \<and> lane \<in> {''live'', ''checkpoint''} \<and> served wd registry binding lane)" if query
    using that unfolding lanes_of_def by fastforce
  moreover have "\<exists>c binding payload. rn_control rt = Some c \<and> binding \<in> set (sr_solutions registry)
      \<and> cp_status c (sb_solution_id binding) = Accepted payload" if control
    using control that control_answers_True by (fastforce split: option.splits)
  ultimately show ?thesis unfolding report using Inr by blast
qed

section \<open>Examples\<close>

definition ex_call_world :: call_world where
  "ex_call_world = \<lparr>wd_read = \<lparr>rw_fold = ascii_lower, rw_loads = (\<lambda>_. None), rw_host = ex_host [],
       rw_waits = (\<lambda>_ _ _. Waited Acquired), rw_started = 0, rw_ended = 0\<rparr>,
     wd_footprint = (\<lambda>_ _. 0), wd_say = (\<lambda>_. []), wd_lower = ascii_lower, wd_metadata = (\<lambda>_. Inl ''OSError''),
     wd_digits = ex_digits, wd_runtime = ex_runtime, wd_environ = []\<rparr>"

definition ex_token :: scoped_token where
  "ex_token = \<lparr>tk_token_id = ''t'', tk_audience = MCP_AUDIENCE, tk_capabilities = [CAPABILITY_READ], tk_solution_ids = [],
     tk_project_ids = None\<rparr>"

definition ex_gateway_runtime :: "control_plane option \<Rightarrow> runtime" where
  "ex_gateway_runtime control =
     \<lparr>rn_registry = tc_registry ex_reader, rn_tokens = \<lparr>tr_audience = MCP_AUDIENCE,
        tr_ids_by_digest = [(sha256_hex ''s'', ''t'')], tr_tokens_by_id = [(''t'', ex_token)]\<rparr>, rn_control = control,
      rn_cursors = empty_store, rn_clock = 0, rn_retention = \<lparr>r_max_bytes = 9, r_max_entries = 1, r_entries = [], r_bytes = 0, r_hits = 0, r_misses = 0,
        r_evictions = 0\<rparr>, rn_reloaded = None\<rparr>"


text \<open>A status is asked for with a token that has no capability at all, and is sent to the daemon.\<close>

definition ex_daemon :: control_plane where
  "ex_daemon = \<lparr>cp_status = (\<lambda>_. Accepted PNone), cp_reconcile = (\<lambda>_. Refused ''FORBIDDEN''),
     cp_job = (\<lambda>_ _ _. Refused ''NOT_FOUND''), cp_verify = (\<lambda>_. Refused ''FORBIDDEN'')\<rparr>"

theorem job_status_needs_no_capability:
  "map_option ts_capability (spec_for ''graph_job'') = Some CAPABILITY_RECONCILE
   \<and> fst (graph_job (ex_reader\<lparr>tc_control := Some ex_daemon,
         tc_principal := \<lparr>pr_token_id = ''t'', pr_capabilities = [], pr_solution_ids = [], pr_project_ids = None\<rparr>\<rparr>)
       [(''job_id'', PStr ''j1'')]) = [JobCall ''j1'' ''status'' 0]"
  by code_simp

lemma ex_authenticated: "authenticate (rn_tokens (ex_gateway_runtime control)) (Some ''s'') = Inr ex_token"
proof -
  have "strip ''s'' = ''s''" by code_simp
  then show ?thesis by (simp add: authenticate_def ex_gateway_runtime_def)
qed

lemma ex_call_context:
  "bind_result (raising SecurityFailed (Inr (Some ''s''))) (runtime_context (ex_gateway_runtime None)) = Inr ex_reader"
proof -
  have "registry_snapshot (ex_gateway_runtime None) = Inr (tc_registry ex_reader)"
    by (simp add: registry_snapshot_def ex_gateway_runtime_def)
  moreover have "\<lparr>tc_registry = tc_registry ex_reader, tc_principal = principal_of ex_token,
      tc_control = rn_control (ex_gateway_runtime None), tc_clock = rn_clock (ex_gateway_runtime None),
      tc_cursors = rn_cursors (ex_gateway_runtime None)\<rparr> = ex_reader"
    by (simp add: ex_gateway_runtime_def ex_reader_def principal_of_def ex_token_def)
  ultimately show ?thesis by (simp add: raising_def runtime_context_def ex_authenticated)
qed

theorem call_tool_acts_only_for_allowed_witness:
  "\<exists>rt' d. call_tool ex_call_world (ex_gateway_runtime None) (Inr (Some ''s'')) ''graph_version''
       [(''components'', PList [PStr ''axiom-mcp''])] = (rt', [], Completed d)
     \<and> may_call (tk_capabilities ex_token) ''graph_version'' [(''components'', PList [PStr ''axiom-mcp''])]"
proof -
  let ?args = "[(''components'', PList [PStr ''axiom-mcp''])]"
  let ?run = "call_tool ex_call_world (ex_gateway_runtime None) (Inr (Some ''s'')) ''graph_version'' ?args"
  have "is_ok (graph_version ascii_lower (\<lambda>_. Inl ''OSError'') ex_digits ex_runtime [] ex_reader ?args)" by code_simp
  then obtain d where d: "graph_version ascii_lower (\<lambda>_. Inl ''OSError'') ex_digits ex_runtime [] ex_reader ?args = Inr d"
    by (auto simp: is_ok_iff)
  have "handle ex_call_world ex_reader kept ''graph_version'' ?args = Some (kept, [], Inr d)" for kept
    using d by (simp add: handle_def ex_call_world_def raising_def)
  then have run: "?run = ((ex_gateway_runtime None)\<lparr>rn_retention := rn_retention (ex_gateway_runtime None)\<rparr>, [], Completed d)"
    by (simp add: call_tool_def ex_call_context tool_result_of_def)
  from call_tool_acts_only_for_allowed [OF this] show ?thesis
    using run ex_authenticated [of None] by auto
qed

definition ex_served_runtime :: runtime where
  "ex_served_runtime = (ex_gateway_runtime (Some ex_daemon))
     \<lparr>rn_registry := \<lparr>sr_axiom_home = pure_path ''/h'', sr_solutions =
        [\<lparr>sb_solution_id = ''shop'', sb_instance_id = ''i'', sb_catalog_host_repo = ''r'', sb_repositories = []\<rparr>]\<rparr>,
      rn_tokens := \<lparr>tr_audience = MCP_AUDIENCE, tr_ids_by_digest = [], tr_tokens_by_id = []\<rparr>\<rparr>"

theorem readiness_is_served_witness:
  "\<exists>kept report. runtime_readiness ex_call_world ex_served_runtime = (kept, Inr report)
     \<and> cr_available (rp_control report) \<and> \<not> cr_available (rp_query report)
     \<and> cp_status ex_daemon ''shop'' = Accepted PNone"
proof -
  have "runtime_readiness ex_call_world ex_served_runtime = (Some (rn_retention ex_served_runtime), Inr
     \<lparr>rp_query = component_state QUERY_COMPONENT False ''registered query unavailable'',
      rp_control = component_state CONTROL_COMPONENT True ''control unavailable''\<rparr>)"
    by (simp add: runtime_readiness_def ex_served_runtime_def ex_gateway_runtime_def registry_snapshot_def registry_size_def
        ex_daemon_def)
  with readiness_is_served [OF this] show ?thesis
    by (auto simp: ex_daemon_def)
qed

end
