(* ===== verification/Spec2Isabelle.thy ===== *)
theory Spec2Isabelle
  imports PathFacts Callers Search Changes Budget Cursor Envelope Cache Retention Manifest
    Paths Registry Guard Shards Session SessionExample Catalog Source Tools Query QueryFacts QueryExample
    Hosts Security Points Control Status ControlExample Redaction Errors Recovery Lifecycle Gateway Plan Version Update Runtime
begin

text \<open>
  Verification of axiom-mcp, the read-only MCP gateway over published graph generations. The program
  is the Python package \<open>src/src/axiom_mcp\<close>; \<open>src/build/lib\<close> is an older copy of it that nothing
  runs, and is not modelled.

  \<^bold>\<open>The program.\<close> A daemon publishes immutable generations of a project's graph: a pointer, a manifest and
  JSON shards, closed over by SHA-256 digests (\<open>manifest.py\<close>), and per solution a catalog that pins one
  generation for every project (\<open>catalog.py\<close>). A registry says where they are (\<open>registry.py\<close>, \<open>paths.py\<close>).
  A read copies and verifies the shards (\<open>shards.py\<close>, \<open>read_session.py\<close>) under two file locks that exclude
  publishers (\<open>guard/\<close>), keeps them in two bounded stores (\<open>cache.py\<close>, \<open>retention.py\<close>), builds a graph per
  project from them (\<open>query/model.py\<close>), and answers queries over one or several pinned graphs: context,
  neighbours, dependencies, callers, impact, path, search, changes (the other modules of \<open>query/\<close>). An answer
  is wrapped in an envelope that reports generations, freshness and coverage (\<open>query/envelope.py\<close>), packed
  inside a byte cap (\<open>query/budget.py\<close>), and continued by a server-held cursor (\<open>query/cursor.py\<close>). A request
  comes through the security middleware (\<open>security.py\<close>) to one of six tools (\<open>tools/\<close>): \<open>graph_query\<close> reads,
  \<open>graph_status\<close>, \<open>graph_verify\<close>, \<open>graph_reconcile\<close> and \<open>graph_job\<close> ask the daemon, \<open>graph_version\<close> reports.
  \<open>runtime.py\<close> ties them together; \<open>errors.py\<close> words and redacts what fails, \<open>recovery.py\<close> retries a read,
  \<open>lifecycle.py\<close> drains the gateway, \<open>update.py\<close> with \<open>_canonical/update_plan_contract.py\<close> judges update plans
  and hands approved ones to the external updater.

  \<^bold>\<open>The theories.\<close> A dataclass is a record, its \<open>__post_init__\<close> the constructor \<open>make_\<close> of it, its private
  indexes fields of the record; a function is one definition, its checks in the code's order, with a
  definition of its own for each step that has a loop or a branch worth a lemma.

  \<^item> \<open>Prelude\<close>: results (error or value), insertion-ordered dictionaries, sorted tuples. \<open>Values\<close>: the regular
    expressions, JSON values, \<open>json.dumps\<close> and the size of its output. \<open>Texts\<close>, \<open>Points\<close>: string methods, and
    length and slices in code points. \<open>Hashing\<close>: SHA-256. \<open>Store\<close>: \<open>OrderedDict\<close>, the abstract
    least-recently-used store, the locale \<open>keyed_store\<close>. \<open>Layers\<close>: distance layers of a relation.
  \<^item> \<open>Facts\<close>, \<open>Graphs\<close>, \<open>Selectors\<close>, \<open>Walk\<close>, \<open>WalkFacts\<close>: \<open>query/model.py\<close>. \<open>Projection\<close>, \<open>Neighbors\<close>,
    \<open>Callers\<close>, \<open>Path\<close>, \<open>PathFacts\<close>, \<open>Search\<close>, \<open>Changes\<close>: the query operations. \<open>Examples\<close> holds the small scope
    on which they are witnessed.
  \<^item> \<open>Budget\<close>, \<open>Cursor\<close>, \<open>Envelope\<close>: the response. The reachable cursor stores are a step relation over \<open>issue\<close>.
  \<^item> \<open>Manifest\<close>: canonical bytes, pointer, manifest, shard verification and closure. \<open>Catalog\<close>: catalog and
    pinned vector. \<open>Paths\<close>, \<open>Registry\<close>: wire paths, containment, the registry of solutions. \<open>Cache\<close> and
    \<open>Retention\<close>: the two stores.
  \<^item> \<open>Guard\<close>: the lock engine of one process, its bounded wait, and the step relation \<open>guard_step\<close> of all
    processes of a workspace. \<open>Shards\<close>, \<open>Session\<close>: the copy and the read session under the guard
    (\<open>SessionExample\<close> runs one). \<open>Source\<close>: where a tool's generations come from, the guarded source of
    \<open>tools/context.py\<close> and the retaining source of \<open>runtime.py\<close>.
  \<^item> \<open>Tools\<close>: arguments, callers and the context of a tool. \<open>Query\<close>, \<open>QueryFacts\<close>, \<open>QueryExample\<close>: \<open>tools/query.py\<close>
    end to end. \<open>Control\<close>, \<open>Status\<close>, \<open>ControlExample\<close>: the tools that ask the daemon. \<open>Version\<close>: \<open>version.py\<close>.
  \<^item> \<open>Hosts\<close>, \<open>Security\<close>: host and origin policy, token registry, middleware. \<open>Redaction\<close>, \<open>Errors\<close>: \<open>errors.py\<close>.
    \<open>Recovery\<close>: \<open>recovery.py\<close>. \<open>Plan\<close>, \<open>Update\<close>: the evaluator of plans, the update check, the delegation.
  \<^item> \<open>Lifecycle\<close>: readiness and the lifecycle object. \<open>Gateway\<close>: its threads, queries, drains and shutdowns,
    interleaved at every access of the shared lifecycle object and of the guard's dictionary.
  \<^item> \<open>Runtime\<close>: \<open>runtime.py\<close>, where a call is authenticated and dispatched to the tools above.

  \<^bold>\<open>What is shown.\<close> Of the graph: the walk respects its budgets and is exactly the ball of its depth unless it
  says it was cut; a complete, exhaustive, found or proven absent answer is what it says. Of the data: a
  manifest that loads is canonical and closed under its digests; a session loads what the pointer pins, in
  whole files within caps, inside the registered directory; sources and the pinned vector serve what was
  asked; the stores refine the least-recently-used store. Of an answer: it is what the operation finds on
  exactly the pinned graphs of the granted projects asked for, a prefix of it when it says truncated, within
  its bytes, never fresh without verification. Of access: a request reaches a tool, and a tool the daemon,
  only within the capabilities, solutions and projects of a registered token. Of the locks: no two processes
  hold incompatible guards, none wait in a circle, a wait ends with its budget. Of the process: queries are
  counted under every interleaving, a shutdown returns and is final, readiness is earned. Of errors and
  updates: the redaction scan is exact, errors are bounded, a plan is delegated only as approved, outside the
  running installation.

  Where the code falls short of its text a theorem shows it: \<open>impact_probe_blind_spot\<close>,
  \<open>pack_exceeds_cap_without_truncated\<close>, \<open>entry_keeps_admission\<close>, \<open>corrupt_member_fails_read\<close>,
  \<open>axiom_home_accepts_foreign_syntax\<close>, \<open>changes_tool_never_compares\<close>, \<open>snapshot_without_coverage_is_refused\<close>,
  \<open>second_reference_rescopes_first\<close>, \<open>origin_after_bracket_is_dropped\<close>, \<open>batch_is_not_checked\<close>,
  \<open>disconnect_completes_the_body\<close>, \<open>empty_path_reference_accepted\<close>, \<open>cancel_before_ownership\<close>,
  \<open>watcher_hint_never_reported\<close>, \<open>overlapping_violation_leaks\<close>, \<open>redacted_keys_collide\<close>, \<open>long_key_is_kept\<close>,
  \<open>any_trust_root_resolves\<close>, \<open>channel_list_raises\<close>, \<open>metadata_list_raises\<close>, \<open>job_status_needs_no_capability\<close>,
  and in \<open>Gateway\<close> \<open>second_query_refused\<close>, \<open>shutdown_strands_a_lock\<close>, \<open>crossed_entries_strand_a_lock\<close>,
  \<open>unverified_strands_admission\<close>, \<open>two_shutdowns_count_twice\<close>.

  \<^bold>\<open>Interfaces.\<close> \<open>edge_index\<close> (\<open>PathFacts\<close>, interpreted on a graph set), \<open>prefix_search\<close> (\<open>Budget\<close>, on the size of
  the JSON encoding), \<open>keyed_store\<close> (\<open>Store\<close>, on the cache and on the retention), \<open>pinned_source\<close> and its
  extension \<open>project_source\<close> (\<open>Source\<close>, on the guarded and on the registered source); what \<open>graph_query\<close> answers
  is proved once over \<open>project_source\<close>.

  \<^bold>\<open>Conventions.\<close> An exception is the left of a sum, its message omitted except where a result carries it; an
  \<open>AxiomError\<close> of a tool is its code. An operation that changes state returns the new state beside its result.
  Python integers are \<open>int\<close>, times are rationals, a text is its UTF-8 bytes (in \<open>Redaction\<close> the list of its code
  points). Arguments stand for what the code does not define: \<open>cf\<close> for \<open>str.casefold\<close>, \<open>lower\<close>, \<open>upper\<close>,
  \<open>isdigit\<close>, \<open>word\<close> and \<open>digit\<close> for the tables of the standard library, \<open>loads\<close> for the JSON parser, \<open>say\<close> for
  the wording of warnings, \<open>fp\<close> for the weight of Python objects; the records \<open>host\<close>, \<open>read_world\<close>, \<open>text_env\<close>,
  \<open>runtime_env\<close> and \<open>installation\<close> for the file system, the environment and the interpreter as they answer;
  the control plane, the loader and the runner of a command are functions. \<open>Diverges\<close> and \<open>OutsideModel\<close>
  mark what the model says nothing about. In \<open>Guard\<close> an acquisition is one step of its process, in \<open>Gateway\<close>
  one thread's step is one access of the shared state.

  \<^bold>\<open>Bounds.\<close> Loops that consume a list are structural; the walk and the path run for at most \<open>MAX_DEPTH\<close> levels,
  the loop counter being the fuel. Following parent pointers takes the number of visited nodes as fuel, and
  \<open>path_found_is_shortest\<close> shows it is enough. A bounded wait has a turn for every initial retry delay its
  timeout holds, and three more; \<open>bounded_wait_returns\<close> shows it is enough, however long a sleep lasts. A
  shutdown takes at most three steps to its deadline and twenty-three after it (\<open>shutdown_is_final\<close>).

  \<^bold>\<open>Not modelled.\<close> The system calls behind a lock (\<open>guard/locks_posix.py\<close>, \<open>guard/locks_windows.py\<close>) and
  failures of releasing one; the transports and clients that move bytes (\<open>gateway.py\<close>, \<open>http.py\<close>, \<open>stdio.py\<close>,
  \<open>control_client.py\<close>, \<open>sdk_compat.py\<close>) and the command line; \<open>Runtime.configured\<close> and the schemas declared to
  the SDK; finding the specification checkout, loading the evaluator and launching the core in \<open>update.py\<close>;
  reading and printing in the plan contract.
\<close>

section \<open>From the envelope to the wire\<close>

text \<open>
  Every envelope is packed within its cap: whatever an envelope holds, packing it either raises or
  returns at most \<open>max_bytes\<close> encoded bytes, never more than the contract's 32768, and the generations,
  freshness, coverage, verification and cursor it reports are the ones of the envelope.
\<close>

theorem envelope_packs_within_cap:
  assumes "build_envelope say sol scope reported verified nodes edges tr cur ws = Inr d"
    and "pack_response (PDict d) limit = Inr r"
  shows "encoded_size (b_document r) \<le> b_max_bytes r \<and> b_max_bytes r \<le> 32768
       \<and> (\<forall>key \<in> set ENVELOPE_KEYS - {''nodes'', ''edges'', ''truncated'', ''warnings''}.
            dict_get (b_document r) key = dict_get d key)"
proof -
  from assms(1) have d: "dict_get d ''truncated'' = Some (PBool (truthy tr))
      \<and> (\<exists>texts. dict_get d ''warnings'' = Some (PList texts))"
  proof (rule build_envelope_Inr, goal_cases)
    case (1 gs solution coverage cws ns es texts cursor)
    show ?case unfolding 1(7) by simp
  qed
  then obtain texts where "dict_get d ''warnings'' = Some (PList texts)" by blast
  with pack_within_cap [OF assms(2), of "truthy tr" texts] d
  have "encoded_size (b_document r) \<le> b_max_bytes r \<and> b_max_bytes r \<le> 32768"
    by (simp add: MAX_BYTES_def)
  moreover have "dict_get (b_document r) key = dict_get d key"
    if "key \<in> set ENVELOPE_KEYS - {''nodes'', ''edges'', ''truncated'', ''warnings''}" for key
    by (rule pack_keeps_key [OF assms(2)]) (use that in \<open>auto simp: TRIMMABLE_def ENVELOPE_KEYS_def\<close>)
  ultimately show ?thesis by blast
qed

theorem envelope_packs_within_cap_witness:
  "\<exists>d. ex_envelope (\<lambda>_. ''w'') [PDict [(''id'', PInt 1)]] = Inr d
     \<and> (\<forall>r. pack_response (PDict d) PNone = Inr r
          \<longrightarrow> dict_get (b_document r) ''freshness'' = dict_get d ''freshness'')"
proof -
  obtain d where d: "ex_envelope (\<lambda>_. ''w'') [PDict [(''id'', PInt 1)]] = Inr d"
    using ex_envelope_Inr by blast
  have key: "''freshness'' \<in> set ENVELOPE_KEYS - {''nodes'', ''edges'', ''truncated'', ''warnings''}"
    by (simp add: ENVELOPE_KEYS_def)
  have "dict_get (b_document r) ''freshness'' = dict_get d ''freshness''"
    if "pack_response (PDict d) PNone = Inr r" for r
    using envelope_packs_within_cap [OF d [unfolded ex_envelope_def] that] key
    by (elim conjE) (rule bspec)
  with d show ?thesis by (intro exI [of _ d]) simp
qed

end
